(* ===== verification/HQ_Prelude.thy ===== *)
theory HQ_Prelude
  imports Main "HOL-Library.AList" "HOL-Library.Multiset"
begin

text \<open>
  Shared material of the development.

  \<^item> strings of the program (UTF-16 code units restricted to Latin-1), \<open>String.prototype.trim\<close>
    and the decimal \<open>Number.prototype.toString\<close> of a natural number;
  \<^item> the JavaScript \<open>Map\<close>: an association list in insertion order, \<open>AList.update\<close> as \<open>set\<close>
    (an existing key keeps its position), \<open>AList.delete\<close> as \<open>delete\<close>, \<open>map_of\<close> as \<open>get\<close>;
  \<^item> a state-and-exception monad: a computation that throws keeps the writes it made before
    the throw, as a method of a JavaScript object does;
  \<^item> a generic transition system with its invariant rule, as a locale;
  \<^item> generic lemmas on lists that several components share.
\<close>

section \<open>Collections of rewrite rules\<close>

named_theorems monad_defs \<open>definitions of the state-and-exception monad\<close>
named_theorems jsmap_simps \<open>lookups after an update of a JavaScript map\<close>

section \<open>Strings\<close>

definition is_js_space :: "char \<Rightarrow> bool" where
  "is_js_space c \<longleftrightarrow> of_char c \<in> {9, 10, 11, 12, 13, 32, 160 :: nat}"

definition js_trim :: "string \<Rightarrow> string" where
  "js_trim s = rev (dropWhile is_js_space (rev (dropWhile is_js_space s)))"

lemma js_trim_idem [simp]: "js_trim (js_trim s) = js_trim s"
proof -
  have drop_id: "dropWhile P xs = xs" if "xs = [] \<or> \<not> P (hd xs)" for P and xs :: string
    using that by (cases xs) auto
  define u where "u = dropWhile is_js_space s"
  define v where "v = rev (dropWhile is_js_space (rev u))"
  have u_hd: "u = [] \<or> \<not> is_js_space (hd u)"
    unfolding u_def using hd_dropWhile[of is_js_space s] by blast
  obtain w where w: "u = v @ w"
    unfolding v_def by (metis rev_append rev_rev_ident takeWhile_dropWhile_id)
  have "v = [] \<or> \<not> is_js_space (hd v)"
    using u_hd w by (cases v) auto
  then have 1: "dropWhile is_js_space v = v" by (rule drop_id)
  have "rev v = [] \<or> \<not> is_js_space (hd (rev v))"
    unfolding v_def using hd_dropWhile[of is_js_space "rev u"] by auto
  then have 2: "dropWhile is_js_space (rev v) = rev v" by (rule drop_id)
  show ?thesis
    unfolding js_trim_def using 1 2 by (simp add: u_def v_def)
qed

definition digit_char :: "nat \<Rightarrow> char" where
  "digit_char d = char_of (48 + d)"

fun decimal :: "nat \<Rightarrow> string" where
  "decimal n = (if n < 10 then [digit_char n] else decimal (n div 10) @ [digit_char (n mod 10)])"

declare decimal.simps [simp del]

definition is_digit :: "char \<Rightarrow> bool" where
  "is_digit c \<longleftrightarrow> 48 \<le> (of_char c :: nat) \<and> (of_char c :: nat) \<le> 57"

definition digit_value :: "char \<Rightarrow> nat" where
  "digit_value c = of_char c - 48"

definition undecimal :: "string \<Rightarrow> nat" where
  "undecimal s = foldl (\<lambda>n c. 10 * n + digit_value c) 0 s"

lemma of_char_digit_char: "d < 10 \<Longrightarrow> (of_char (digit_char d) :: nat) = 48 + d"
  by (simp add: digit_char_def)

lemma is_digit_digit_char: "d < 10 \<Longrightarrow> is_digit (digit_char d)"
  by (simp add: is_digit_def of_char_digit_char)

lemma digit_value_digit_char [simp]: "d < 10 \<Longrightarrow> digit_value (digit_char d) = d"
  by (simp add: digit_value_def of_char_digit_char)

lemma decimal_digits: "\<forall>c \<in> set (decimal n). is_digit c"
proof (induction n rule: decimal.induct)
  case (1 n)
  show ?case
    using 1 by (subst decimal.simps) (auto simp: is_digit_digit_char)
qed

lemma decimal_nonempty: "decimal n \<noteq> []"
  by (subst decimal.simps) simp

lemma undecimal_decimal [simp]: "undecimal (decimal n) = n"
proof (induction n rule: decimal.induct)
  case (1 n)
  show ?case
  proof (cases "n < 10")
    case True
    then show ?thesis by (simp add: decimal.simps[of n] undecimal_def)
  next
    case False
    with 1 have "undecimal (decimal (n div 10)) = n div 10" by simp
    with False show ?thesis
      by (simp add: decimal.simps[of n] undecimal_def)
  qed
qed

lemma decimal_inject [simp]: "decimal m = decimal n \<longleftrightarrow> m = n"
  by (metis undecimal_decimal)

text \<open>\<open>String.prototype.split\<close> at one character.\<close>

fun js_split :: "char \<Rightarrow> string \<Rightarrow> string list" where
  "js_split d [] = [[]]"
| "js_split d (c # cs) =
     (if c = d then [] # js_split d cs
      else case js_split d cs of [] \<Rightarrow> [[c]] | l # ls \<Rightarrow> (c # l) # ls)"

text \<open>\<open>Array.prototype.join\<close>.\<close>

fun joinWith :: "string \<Rightarrow> string list \<Rightarrow> string" where
  "joinWith sep [] = []"
| "joinWith sep [x] = x"
| "joinWith sep (x # y # ys) = x @ sep @ joinWith sep (y # ys)"

section \<open>JavaScript maps\<close>

type_synonym ('k, 'v) jsmap = "('k \<times> 'v) list"

abbreviation js_get :: "('k, 'v) jsmap \<Rightarrow> 'k \<Rightarrow> 'v option" where
  "js_get m k \<equiv> map_of m k"

abbreviation js_set :: "'k \<Rightarrow> 'v \<Rightarrow> ('k, 'v) jsmap \<Rightarrow> ('k, 'v) jsmap" where
  "js_set k v m \<equiv> AList.update k v m"

abbreviation js_delete :: "'k \<Rightarrow> ('k, 'v) jsmap \<Rightarrow> ('k, 'v) jsmap" where
  "js_delete k m \<equiv> AList.delete k m"

abbreviation js_values :: "('k, 'v) jsmap \<Rightarrow> 'v list" where
  "js_values m \<equiv> map snd m"

text \<open>A loop that mutates the objects a map holds, in place.\<close>

definition js_map_values :: "('v \<Rightarrow> 'v) \<Rightarrow> ('k, 'v) jsmap \<Rightarrow> ('k, 'v) jsmap" where
  "js_map_values f m = map (\<lambda>(k, v). (k, f v)) m"

lemma js_get_set [jsmap_simps]: "js_get (js_set k v m) k' = (if k' = k then Some v else js_get m k')"
  by (simp add: update_conv')

lemma js_get_delete [jsmap_simps]: "js_get (js_delete k m) k' = (if k' = k then None else js_get m k')"
  by (simp add: delete_conv')

lemma js_get_map_values [jsmap_simps]: "js_get (js_map_values f m) k = map_option f (js_get m k)"
  by (induction m) (auto simp: js_map_values_def)

lemma js_map_values_keys [simp]: "map fst (js_map_values f m) = map fst m"
  by (induction m) (auto simp: js_map_values_def)

lemma js_map_values_cong:
  "(\<And>k v. (k, v) \<in> set m \<Longrightarrow> f v = g v) \<Longrightarrow> js_map_values f m = js_map_values g m"
  by (auto simp: js_map_values_def)

lemma distinct_js_set [simp]: "distinct (map fst m) \<Longrightarrow> distinct (map fst (js_set k v m))"
  by (rule distinct_update)

lemma distinct_js_delete [simp]: "distinct (map fst m) \<Longrightarrow> distinct (map fst (js_delete k m))"
  by (rule distinct_delete)

section \<open>Sorting with a comparator\<close>

text \<open>
  \<open>Array.prototype.sort\<close> is stable; for a comparator that is a total preorder its result is
  that of a stable insertion sort.
\<close>

fun js_insert :: "('a \<Rightarrow> 'a \<Rightarrow> int) \<Rightarrow> 'a \<Rightarrow> 'a list \<Rightarrow> 'a list" where
  "js_insert cmp x [] = [x]"
| "js_insert cmp x (y # ys) = (if cmp x y \<le> 0 then x # y # ys else y # js_insert cmp x ys)"

definition js_sort :: "('a \<Rightarrow> 'a \<Rightarrow> int) \<Rightarrow> 'a list \<Rightarrow> 'a list" where
  "js_sort cmp xs = foldr (js_insert cmp) xs []"

lemma mset_js_insert [simp]: "mset (js_insert cmp x ys) = add_mset x (mset ys)"
  by (induction ys) auto

lemma mset_js_sort [simp]: "mset (js_sort cmp xs) = mset xs"
  by (induction xs) (auto simp: js_sort_def)

lemma set_js_sort [simp]: "set (js_sort cmp xs) = set xs"
  by (metis mset_js_sort set_mset_mset)

lemma length_js_sort [simp]: "length (js_sort cmp xs) = length xs"
  by (metis mset_js_sort size_mset)

section \<open>State and exceptions\<close>

text \<open>
  \<open>('s, 'e, 'a) sm\<close> is a method that reads and writes the state \<open>'s\<close>, and returns a value
  (\<open>Inr\<close>) or throws (\<open>Inl\<close>). The state is returned in both cases.
\<close>

type_synonym ('s, 'e, 'a) sm = "'s \<Rightarrow> ('e + 'a) \<times> 's"

definition sm_return :: "'a \<Rightarrow> ('s, 'e, 'a) sm" where
  [monad_defs]: "sm_return a = (\<lambda>s. (Inr a, s))"

definition sm_throw :: "'e \<Rightarrow> ('s, 'e, 'a) sm" where
  [monad_defs]: "sm_throw e = (\<lambda>s. (Inl e, s))"

definition sm_bind :: "('s, 'e, 'a) sm \<Rightarrow> ('a \<Rightarrow> ('s, 'e, 'b) sm) \<Rightarrow> ('s, 'e, 'b) sm" where
  "sm_bind m f = (\<lambda>s. case m s of (Inl e, s') \<Rightarrow> (Inl e, s') | (Inr a, s') \<Rightarrow> f a s')"

definition sm_get :: "('s \<Rightarrow> 'a) \<Rightarrow> ('s, 'e, 'a) sm" where
  [monad_defs]: "sm_get f = (\<lambda>s. (Inr (f s), s))"

definition sm_modify :: "('s \<Rightarrow> 's) \<Rightarrow> ('s, 'e, unit) sm" where
  [monad_defs]: "sm_modify f = (\<lambda>s. (Inr (), f s))"

definition sm_require :: "bool \<Rightarrow> 'e \<Rightarrow> ('s, 'e, unit) sm" where
  [monad_defs]: "sm_require b e = (if b then sm_return () else sm_throw e)"

text \<open>A pure computation that may throw.\<close>

definition sm_lift :: "'e + 'a \<Rightarrow> ('s, 'e, 'a) sm" where
  [monad_defs]: "sm_lift r = (\<lambda>s. (r, s))"

lemma sm_bind_Inr: "m s = (Inr a, s') \<Longrightarrow> sm_bind m f s = f a s'"
  by (simp add: sm_bind_def)

lemma sm_bind_Inl: "m s = (Inl e, s') \<Longrightarrow> sm_bind m f s = (Inl e, s')"
  by (simp add: sm_bind_def)

lemma sm_bind_eq_Inr_iff:
  "sm_bind m f s = (Inr b, s'') \<longleftrightarrow> (\<exists>a s'. m s = (Inr a, s') \<and> f a s' = (Inr b, s''))"
  by (auto simp: sm_bind_def split: prod.splits sum.splits)

lemma sm_bind_simps [simp]:
  "sm_bind (sm_return a) f s = f a s"
  "sm_bind (sm_throw e) f s = (Inl e, s)"
  "sm_bind (sm_get g) f s = f (g s) s"
  "sm_bind (sm_modify h) k s = k () (h s)"
  "sm_bind (sm_require b e) k s = (if b then k () s else (Inl e, s))"
  "sm_bind (sm_lift (Inr a')) j s = j a' s"
  "sm_bind (sm_lift (Inl e')) j s = (Inl e', s)"
  by (simp_all add: sm_bind_def monad_defs)

lemma sm_run_simps [simp]:
  "sm_return a s = (Inr a, s)"
  "sm_throw e s = (Inl e, s)"
  by (simp_all add: monad_defs)

text \<open>\<open>Array.prototype.map\<close> with a callback that may throw.\<close>

fun sm_mapM :: "('a \<Rightarrow> ('s, 'e, 'b) sm) \<Rightarrow> 'a list \<Rightarrow> ('s, 'e, 'b list) sm" where
  "sm_mapM f [] = sm_return []"
| "sm_mapM f (x # xs) = sm_bind (f x) (\<lambda>y. sm_bind (sm_mapM f xs) (\<lambda>ys. sm_return (y # ys)))"

lemma sm_mapM_returns:
  assumes "\<And>x. x \<in> set xs \<Longrightarrow> f x s = (Inr (g x), s)"
  shows "sm_mapM f xs s = (Inr (map g xs), s)"
  using assms by (induction xs) (auto simp: sm_bind_def sm_return_def)

text \<open>
  Weakest preconditions: \<open>sm_wp m Q E s\<close> says that \<open>m\<close>, run in \<open>s\<close>, returns a value and a
  state that satisfy \<open>Q\<close>, or throws in a state that satisfies \<open>E\<close>. The rules compute it
  through the combinators, so a method's property reduces to one condition per path.
\<close>

named_theorems wp_simps \<open>weakest preconditions of the combinators and of methods\<close>

definition sm_wp ::
  "('s, 'e, 'a) sm \<Rightarrow> ('a \<Rightarrow> 's \<Rightarrow> bool) \<Rightarrow> ('e \<Rightarrow> 's \<Rightarrow> bool) \<Rightarrow> 's \<Rightarrow> bool" where
  "sm_wp m Q E s = (case m s of (Inl e, t) \<Rightarrow> E e t | (Inr a, t) \<Rightarrow> Q a t)"

lemma sm_wp_bind [wp_simps]:
  "sm_wp (sm_bind m f) Q E s = sm_wp m (\<lambda>a. sm_wp (f a) Q E) E s"
  by (simp add: sm_wp_def sm_bind_def split: prod.splits sum.splits)

lemma sm_wp_basic [wp_simps]:
  "sm_wp (sm_return a) Q E s = Q a s"
  "sm_wp (sm_throw e) Q E s = E e s"
  "sm_wp (sm_get g) Q E s = Q (g s) s"
  "sm_wp (sm_modify h) Q' E s = Q' () (h s)"
  "sm_wp (sm_require b e) Q' E s = (if b then Q' () s else E e s)"
  by (simp_all add: sm_wp_def monad_defs)

lemma sm_wp_lift [wp_simps]:
  "sm_wp (sm_lift r) Q E s = (case r of Inl e \<Rightarrow> E e s | Inr a \<Rightarrow> Q a s)"
  by (simp add: sm_wp_def monad_defs split: sum.split)

lemma sm_wp_if [wp_simps]:
  "sm_wp (if b then m else n) Q E s = (if b then sm_wp m Q E s else sm_wp n Q E s)"
  by simp

lemma sm_wp_option [wp_simps]:
  "sm_wp (case x of None \<Rightarrow> m | Some a \<Rightarrow> f a) Q E s
     = (case x of None \<Rightarrow> sm_wp m Q E s | Some a \<Rightarrow> sm_wp (f a) Q E s)"
  by (simp split: option.split)

lemma sm_wp_sum [wp_simps]:
  "sm_wp (case x of Inl e \<Rightarrow> f e | Inr a \<Rightarrow> g a) Q E s
     = (case x of Inl e \<Rightarrow> sm_wp (f e) Q E s | Inr a \<Rightarrow> sm_wp (g a) Q E s)"
  by (simp split: sum.split)

lemma sm_wp_prod [wp_simps]:
  "sm_wp (case x of (a, b) \<Rightarrow> f a b) Q E s = (case x of (a, b) \<Rightarrow> sm_wp (f a b) Q E s)"
  by (simp split: prod.split)

text \<open>
  The same rules as introduction rules. Applied exhaustively they turn a method into one
  goal per exit, without splitting the conditions of the paths.
\<close>

named_theorems wp_intros \<open>weakest preconditions as introduction rules\<close>

lemma sm_wp_intros [wp_intros]:
  "sm_wp m (\<lambda>a. sm_wp (f a) Q E) E s \<Longrightarrow> sm_wp (sm_bind m f) Q E s"
  "Q a s \<Longrightarrow> sm_wp (sm_return a) Q E s"
  "E e s \<Longrightarrow> sm_wp (sm_throw e) Q E s"
  "Q (g s) s \<Longrightarrow> sm_wp (sm_get g) Q E s"
  "Q' () (h s) \<Longrightarrow> sm_wp (sm_modify h) Q' E s"
  "(b \<Longrightarrow> Q' () s) \<Longrightarrow> E e s \<Longrightarrow> sm_wp (sm_require b e) Q' E s"
  by (simp_all add: wp_simps)

lemma sm_wp_ifI [wp_intros]:
  "(b \<Longrightarrow> sm_wp m Q E s) \<Longrightarrow> (\<not> b \<Longrightarrow> sm_wp n Q E s) \<Longrightarrow> sm_wp (if b then m else n) Q E s"
  by simp

lemma sm_wp_optionI [wp_intros]:
  "(x = None \<Longrightarrow> sm_wp m Q E s) \<Longrightarrow> (\<And>a. x = Some a \<Longrightarrow> sm_wp (f a) Q E s) \<Longrightarrow>
   sm_wp (case x of None \<Rightarrow> m | Some a \<Rightarrow> f a) Q E s"
  by (simp split: option.split)

lemma sm_wp_sumI [wp_intros]:
  "(\<And>e. x = Inl e \<Longrightarrow> sm_wp (f e) Q E s) \<Longrightarrow> (\<And>a. x = Inr a \<Longrightarrow> sm_wp (g a) Q E s) \<Longrightarrow>
   sm_wp (case x of Inl e \<Rightarrow> f e | Inr a \<Rightarrow> g a) Q E s"
  by (simp split: sum.split)

lemma sm_wp_prodI [wp_intros]:
  "(\<And>a b. x = (a, b) \<Longrightarrow> sm_wp (f a b) Q E s) \<Longrightarrow> sm_wp (case x of (a, b) \<Rightarrow> f a b) Q E s"
  by (simp split: prod.split)

lemma sm_wp_LetI [wp_intros]:
  "(\<And>x. x = a \<Longrightarrow> sm_wp (f x) Q E s) \<Longrightarrow> sm_wp (let x = a in f x) Q E s"
  by simp

lemma sm_wp_mono:
  "sm_wp m Q E s \<Longrightarrow> (\<And>a t. Q a t \<Longrightarrow> Q' a t) \<Longrightarrow> (\<And>e t. E e t \<Longrightarrow> E' e t) \<Longrightarrow> sm_wp m Q' E' s"
  by (auto simp: sm_wp_def split: prod.splits sum.splits)

lemma sm_wpD:
  "sm_wp m Q E s \<Longrightarrow> m s = (Inr a, t) \<Longrightarrow> Q a t"
  "sm_wp m Q E s \<Longrightarrow> m s = (Inl e, t) \<Longrightarrow> E e t"
  by (auto simp: sm_wp_def)

lemma sm_wp_state: "sm_wp m (\<lambda>_. P) (\<lambda>_. P) s \<longleftrightarrow> P (snd (m s))"
  by (auto simp: sm_wp_def split: prod.splits sum.splits)

section \<open>Transition systems\<close>

text \<open>
  An interface for every component with a step relation: where every step keeps the
  invariant and the initial states satisfy it, every reachable state satisfies it.
\<close>

inductive reaches :: "('s \<Rightarrow> 's \<Rightarrow> bool) \<Rightarrow> 's \<Rightarrow> 's \<Rightarrow> bool" for step where
  reach_refl: "reaches step s s"
| reach_step: "reaches step s t \<Longrightarrow> step t u \<Longrightarrow> reaches step s u"

locale invariant_system =
  fixes initial :: "'s \<Rightarrow> bool"
    and step :: "'s \<Rightarrow> 's \<Rightarrow> bool"
    and inv :: "'s \<Rightarrow> bool"
  assumes initial_inv: "initial s \<Longrightarrow> inv s"
    and step_inv: "inv s \<Longrightarrow> step s t \<Longrightarrow> inv t"
begin

lemma reaches_inv: "reaches step s t \<Longrightarrow> inv s \<Longrightarrow> inv t"
  by (induction rule: reaches.induct) (auto intro: step_inv)

lemma reachable_inv: "initial s \<Longrightarrow> reaches step s t \<Longrightarrow> inv t"
  using reaches_inv initial_inv by blast

end

lemma reaches_trans: "reaches step s t \<Longrightarrow> reaches step t u \<Longrightarrow> reaches step s u"
  by (rotate_tac, induction rule: reaches.induct) (auto intro: reaches.intros)

lemma fold_reaches:
  assumes "\<And>x s. x \<in> set xs \<Longrightarrow> P s \<Longrightarrow> reaches step s (f x s) \<and> P (f x s)" and "P s"
  shows "reaches step s (fold f xs s)"
  using assms
proof (induction xs arbitrary: s)
  case Nil
  then show ?case by (simp add: reaches.reach_refl)
next
  case (Cons x xs)
  then have "reaches step s (f x s)" and "reaches step (f x s) (fold f xs (f x s))" by auto
  then show ?case by (simp add: reaches_trans[of step s])
qed

section \<open>Lists\<close>

lemma find_SomeD: "List.find P xs = Some x \<Longrightarrow> x \<in> set xs \<and> P x"
  by (induction xs) (auto split: if_splits)

lemma find_NoneD: "List.find P xs = None \<Longrightarrow> x \<in> set xs \<Longrightarrow> \<not> P x"
  by (induction xs) (auto split: if_splits)

lemma find_Some_before:
  "List.find P xs = Some x \<Longrightarrow> \<exists>ys zs. xs = ys @ x # zs \<and> (\<forall>y \<in> set ys. \<not> P y)"
proof (induction xs)
  case Nil
  then show ?case by simp
next
  case (Cons a xs)
  show ?case
  proof (cases "P a")
    case True
    with Cons.prems have "a # xs = [] @ x # xs" by simp
    then show ?thesis by fastforce
  next
    case False
    with Cons obtain ys zs where "xs = ys @ x # zs" "\<forall>y \<in> set ys. \<not> P y" by auto
    with False have "a # xs = (a # ys) @ x # zs \<and> (\<forall>y \<in> set (a # ys). \<not> P y)" by simp
    then show ?thesis by blast
  qed
qed

lemma sum_list_update_less:
  fixes f :: "'a \<Rightarrow> nat"
  assumes "i < length xs" and "f y < f (xs ! i)"
  shows "sum_list (map f (xs[i := y])) < sum_list (map f xs)"
  using assms
proof (induction xs arbitrary: i)
  case Nil
  then show ?case by simp
next
  case (Cons x xs)
  then show ?case by (cases i) auto
qed

lemma map_list_update_same:
  "i < length xs \<Longrightarrow> f y = f (xs ! i) \<Longrightarrow> map f (xs[i := y]) = map f xs"
  by (simp add: map_update list_update_same_conv)

lemma fold_preserves:
  assumes "\<And>x s. x \<in> set xs \<Longrightarrow> P s \<Longrightarrow> P (f x s)" and "P s"
  shows "P (fold f xs s)"
  using assms by (induction xs arbitrary: s) auto

end
