(* ===== verification/Layout_Engine.thy ===== *)
theory Layout_Engine
  imports HQ_Prelude Complex_Main "HOL-Library.Product_Lexorder"
begin

text \<open>
  The tile packing engine, \<open>packages/layout-engine/src/index.ts\<close>: descriptors, request and
  result, \<open>validateRequest\<close>, the first-fit placement, and the three passes that follow it
  (\<open>compactTiles\<close>, \<open>stretchTiles\<close>, \<open>closeGaps\<close>).

  Grid coordinates and sizes are integers: the source rejects every other number
  (\<open>Number.isInteger\<close>), and so do the types here. Priorities and pixel widths are rationals;
  the tests for a finite number hold by typing, and the rounding of the one quotient
  (\<open>containerWidth / columns\<close>) and the one product it meets is not modelled. A mutable
  \<open>MutablePlacedTile\<close> is an entry of the list \<open>placed\<close>, and a reference to it is its index.
\<close>

section \<open>Data\<close>

datatype tile_presentation = Full | Compact | Minimal

record tile_variant =
  v_columns :: int
  v_rows :: int
  v_presentation :: tile_presentation

record tile_cap =
  cap_columns :: "int option"
  cap_rows :: "int option"

record tile_descriptor =
  td_id :: string
  td_priority :: rat
  td_variants :: "tile_variant list"
  td_maximum :: "tile_cap option"
  td_canStretchHorizontally :: bool
  td_canStretchVertically :: bool
  td_relocationRoute :: "string option"
  td_hideWhenOverflow :: bool

record grid_request =
  gr_columns :: int
  gr_maximumRows :: int
  gr_tiles :: "tile_descriptor list"
  gr_containerWidth :: "rat option"
  gr_minimumTileWidth :: "rat option"

record placed_tile =
  t_id :: string
  t_x :: int
  t_y :: int
  t_columns :: int
  t_rows :: int
  t_presentation :: tile_presentation

record grid_result =
  res_placed :: "placed_tile list"
  res_relocated :: "(string \<times> string) list"
  res_hidden :: "string list"
  res_usedRows :: int

datatype layout_error =
    BadColumns
  | BadMaximumRows
  | BadContainerWidth
  | BadMinimumTileWidth
  | BadTileId string
  | NoVariants string
  | BadVariantSize string
  | VariantsUnordered string
  | BadTileMaximumColumns string
  | BadTileMaximumRows string
  | LayoutOverflowError string int int

section \<open>Validation\<close>

definition validateSize :: "string \<Rightarrow> tile_variant \<Rightarrow> layout_error + unit" where
  "validateSize tileId sz =
     (if v_columns sz < 1 \<or> v_rows sz < 1 then Inl (BadVariantSize tileId) else Inr ())"

text \<open>The loop over the variants of one tile; \<open>None\<close> is the initial \<open>POSITIVE_INFINITY\<close>.\<close>

fun validateVariants :: "string \<Rightarrow> int option \<Rightarrow> tile_variant list \<Rightarrow> layout_error + unit" where
  "validateVariants tileId previousArea [] = Inr ()"
| "validateVariants tileId previousArea (v # vs) =
     (case validateSize tileId v of
        Inl e \<Rightarrow> Inl e
      | Inr _ \<Rightarrow>
          let area = v_columns v * v_rows v in
          if (case previousArea of None \<Rightarrow> False | Some p \<Rightarrow> p < area)
          then Inl (VariantsUnordered tileId)
          else validateVariants tileId (Some area) vs)"

definition validateMaximum :: "tile_descriptor \<Rightarrow> layout_error + unit" where
  "validateMaximum tile =
     (case td_maximum tile of
        None \<Rightarrow> Inr ()
      | Some cap \<Rightarrow>
          if (case cap_columns cap of None \<Rightarrow> False | Some c \<Rightarrow> c < 1)
          then Inl (BadTileMaximumColumns (td_id tile))
          else if (case cap_rows cap of None \<Rightarrow> False | Some r \<Rightarrow> r < 1)
          then Inl (BadTileMaximumRows (td_id tile))
          else Inr ())"

fun validateTiles :: "string list \<Rightarrow> tile_descriptor list \<Rightarrow> layout_error + unit" where
  "validateTiles ids [] = Inr ()"
| "validateTiles ids (tile # tiles) =
     (if length (js_trim (td_id tile)) = 0 \<or> List.member ids (td_id tile)
      then Inl (BadTileId (td_id tile))
      else if length (td_variants tile) = 0 then Inl (NoVariants (td_id tile))
      else case validateVariants (td_id tile) None (td_variants tile) of
             Inl e \<Rightarrow> Inl e
           | Inr _ \<Rightarrow>
               (case validateMaximum tile of
                  Inl e \<Rightarrow> Inl e
                | Inr _ \<Rightarrow> validateTiles (td_id tile # ids) tiles))"

definition validateRequest :: "grid_request \<Rightarrow> layout_error + unit" where
  "validateRequest request =
     (if gr_columns request < 1 then Inl BadColumns
      else if gr_maximumRows request < 1 then Inl BadMaximumRows
      else if (case gr_containerWidth request of None \<Rightarrow> False | Some w \<Rightarrow> w \<le> 0)
      then Inl BadContainerWidth
      else if (case gr_minimumTileWidth request of None \<Rightarrow> False | Some w \<Rightarrow> w \<le> 0)
      then Inl BadMinimumTileWidth
      else validateTiles [] (gr_tiles request))"

section \<open>Geometry\<close>

definition overlap :: "placed_tile \<Rightarrow> placed_tile \<Rightarrow> bool" where
  "overlap candidate other \<longleftrightarrow>
     t_x candidate < t_x other + t_columns other \<and>
     t_x candidate + t_columns candidate > t_x other \<and>
     t_y candidate < t_y other + t_rows other \<and>
     t_y candidate + t_rows candidate > t_y other"

definition overlapsAny :: "placed_tile \<Rightarrow> placed_tile list \<Rightarrow> bool" where
  "overlapsAny candidate placed =
     list_ex (\<lambda>other. t_id other \<noteq> t_id candidate \<and> overlap candidate other) placed"

definition fits :: "placed_tile \<Rightarrow> placed_tile list \<Rightarrow> int \<Rightarrow> int \<Rightarrow> bool" where
  "fits candidate placed columns maximumRows \<longleftrightarrow>
     t_x candidate \<ge> 0 \<and>
     t_y candidate \<ge> 0 \<and>
     t_x candidate + t_columns candidate \<le> columns \<and>
     t_y candidate + t_rows candidate \<le> maximumRows \<and>
     \<not> overlapsAny candidate placed"

section \<open>Placement\<close>

definition candidateAt :: "tile_descriptor \<Rightarrow> tile_variant \<Rightarrow> int \<Rightarrow> int \<Rightarrow> placed_tile" where
  "candidateAt tile v x y =
     \<lparr>t_id = td_id tile, t_x = x, t_y = y, t_columns = v_columns v, t_rows = v_rows v,
      t_presentation = v_presentation v\<rparr>"

text \<open>The two nested loops of \<open>findPlacement\<close>, rows outside, columns inside.\<close>

definition positions :: "tile_variant \<Rightarrow> int \<Rightarrow> int \<Rightarrow> (int \<times> int) list" where
  "positions v columns maximumRows =
     concat (map (\<lambda>y. map (\<lambda>x. (x, y)) [0 .. columns - v_columns v])
                 [0 .. maximumRows - v_rows v])"

definition belowFloor :: "tile_variant \<Rightarrow> rat option \<Rightarrow> rat option \<Rightarrow> bool" where
  "belowFloor v columnWidth minimumTileWidth =
     (case (columnWidth, minimumTileWidth) of
        (Some w, Some m) \<Rightarrow> of_int (v_columns v) * w < m
      | _ \<Rightarrow> False)"

fun findInVariants ::
  "tile_descriptor \<Rightarrow> placed_tile list \<Rightarrow> int \<Rightarrow> int \<Rightarrow> rat option \<Rightarrow> rat option
   \<Rightarrow> tile_variant list \<Rightarrow> placed_tile option" where
  "findInVariants tile placed columns maximumRows cw mw [] = None"
| "findInVariants tile placed columns maximumRows cw mw (v # vs) =
     (if v_columns v > columns \<or> v_rows v > maximumRows
      then findInVariants tile placed columns maximumRows cw mw vs
      else if belowFloor v cw mw
      then findInVariants tile placed columns maximumRows cw mw vs
      else case List.find (\<lambda>c. \<not> overlapsAny c placed)
                  (map (\<lambda>(x, y). candidateAt tile v x y) (positions v columns maximumRows)) of
             Some c \<Rightarrow> Some c
           | None \<Rightarrow> findInVariants tile placed columns maximumRows cw mw vs)"

definition findPlacement ::
  "tile_descriptor \<Rightarrow> placed_tile list \<Rightarrow> int \<Rightarrow> int \<Rightarrow> rat option \<Rightarrow> rat option
   \<Rightarrow> placed_tile option" where
  "findPlacement tile placed columns maximumRows columnWidth minimumTileWidth =
     findInVariants tile placed columns maximumRows columnWidth minimumTileWidth
       (td_variants tile)"

section \<open>Compaction\<close>

text \<open>
  The two \<open>while\<close> loops of \<open>compactTiles\<close>. The list holds the tile itself, at its position
  before the loop; \<open>overlapsAny\<close> skips the entry with the tile's own identifier, so that
  entry is never read.
\<close>

function slideUp :: "placed_tile list \<Rightarrow> int \<Rightarrow> int \<Rightarrow> placed_tile \<Rightarrow> placed_tile" where
  "slideUp placed columns maximumRows tile =
     (if t_y tile > 0 \<and> fits (tile\<lparr>t_y := t_y tile - 1\<rparr>) placed columns maximumRows
      then slideUp placed columns maximumRows (tile\<lparr>t_y := t_y tile - 1\<rparr>)
      else tile)"
  by pat_completeness auto
termination
  by (relation "measure (\<lambda>(placed, columns, maximumRows, tile). nat (t_y tile))") auto

function slideLeft :: "placed_tile list \<Rightarrow> int \<Rightarrow> int \<Rightarrow> placed_tile \<Rightarrow> placed_tile" where
  "slideLeft placed columns maximumRows tile =
     (if t_x tile > 0 \<and> fits (tile\<lparr>t_x := t_x tile - 1\<rparr>) placed columns maximumRows
      then slideLeft placed columns maximumRows (tile\<lparr>t_x := t_x tile - 1\<rparr>)
      else tile)"
  by pat_completeness auto
termination
  by (relation "measure (\<lambda>(placed, columns, maximumRows, tile). nat (t_x tile))") auto

declare slideUp.simps [simp del] slideLeft.simps [simp del]

definition compactTile :: "int \<Rightarrow> int \<Rightarrow> nat \<Rightarrow> placed_tile list \<Rightarrow> placed_tile list" where
  "compactTile columns maximumRows i placed =
     placed[i := slideLeft placed columns maximumRows
                   (slideUp placed columns maximumRows (placed ! i))]"

definition compactTiles :: "placed_tile list \<Rightarrow> int \<Rightarrow> int \<Rightarrow> placed_tile list" where
  "compactTiles placed columns maximumRows =
     fold (compactTile columns maximumRows) [0 ..< length placed] placed"

section \<open>Stretching\<close>

text \<open>\<open>new Map(descriptors.map(d => [d.id, d]))\<close>: a later descriptor replaces an earlier one.\<close>

definition descriptorById :: "tile_descriptor list \<Rightarrow> string \<Rightarrow> tile_descriptor option" where
  "descriptorById descriptors i =
     js_get (fold (\<lambda>d m. js_set (td_id d) d m) descriptors []) i"

definition maximumColumnsOf :: "tile_descriptor \<Rightarrow> int option" where
  "maximumColumnsOf d = Option.bind (td_maximum d) cap_columns"

definition maximumRowsOf :: "tile_descriptor \<Rightarrow> int option" where
  "maximumRowsOf d = Option.bind (td_maximum d) cap_rows"

text \<open>The body of the inner loop of \<open>stretchTiles\<close> for one tile.\<close>

definition stretchTile ::
  "(string \<Rightarrow> tile_descriptor option) \<Rightarrow> int \<Rightarrow> int \<Rightarrow> nat
   \<Rightarrow> placed_tile list \<times> bool \<Rightarrow> placed_tile list \<times> bool" where
  "stretchTile byId columns maximumRows i =
     (\<lambda>(placed, didStretch).
        let tile = placed ! i; wider = tile\<lparr>t_columns := t_columns tile + 1\<rparr>;
            taller = tile\<lparr>t_rows := t_rows tile + 1\<rparr> in
        case byId (t_id tile) of
          None \<Rightarrow> (placed, didStretch)
        | Some d \<Rightarrow>
            if td_canStretchHorizontally d \<and>
               t_columns tile < (case maximumColumnsOf d of None \<Rightarrow> columns | Some c \<Rightarrow> c) \<and>
               fits wider placed columns maximumRows
            then (placed[i := wider], True)
            else if td_canStretchVertically d \<and>
               t_rows tile < (case maximumRowsOf d of None \<Rightarrow> maximumRows | Some r \<Rightarrow> r) \<and>
               fits taller placed columns maximumRows
            then (placed[i := taller], True)
            else (placed, didStretch))"

definition stretchPass ::
  "(string \<Rightarrow> tile_descriptor option) \<Rightarrow> int \<Rightarrow> int \<Rightarrow> placed_tile list
   \<Rightarrow> placed_tile list \<times> bool" where
  "stretchPass byId columns maximumRows placed =
     fold (stretchTile byId columns maximumRows) [0 ..< length placed] (placed, False)"

text \<open>
  The measure of the loops: how far every tile is from the size of the whole grid. A
  stretch that \<open>fits\<close> makes it smaller.
\<close>

definition slack :: "int \<Rightarrow> int \<Rightarrow> placed_tile list \<Rightarrow> nat" where
  "slack columns rows placed =
     sum_list (map (\<lambda>t. nat (columns - t_columns t) + nat (rows - t_rows t)) placed)"

lemma slack_update_less:
  assumes "i < length placed"
    and "nat (columns - t_columns t) + nat (rows - t_rows t)
         < nat (columns - t_columns (placed ! i)) + nat (rows - t_rows (placed ! i))"
  shows "slack columns rows (placed[i := t]) < slack columns rows placed"
  unfolding slack_def using assms
  by (rule sum_list_update_less
        [where f = "\<lambda>t. nat (columns - t_columns t) + nat (rows - t_rows t)"])

lemma stretchTile_slack:
  assumes "i < length placed" and "stretchTile byId columns rows i (placed, b) = (placed', b')"
  shows "length placed' = length placed \<and> slack columns rows placed' \<le> slack columns rows placed
    \<and> (b' \<longrightarrow> b \<or> slack columns rows placed' < slack columns rows placed)"
proof -
  let ?w = "(placed ! i)\<lparr>t_columns := t_columns (placed ! i) + 1\<rparr>"
  let ?h = "(placed ! i)\<lparr>t_rows := t_rows (placed ! i) + 1\<rparr>"
  have w: "slack columns rows (placed[i := ?w]) < slack columns rows placed"
    if "fits ?w placed columns rows"
    using that by (intro slack_update_less) (auto simp: fits_def assms(1))
  have h: "slack columns rows (placed[i := ?h]) < slack columns rows placed"
    if "fits ?h placed columns rows"
    using that by (intro slack_update_less) (auto simp: fits_def assms(1))
  show ?thesis
    using assms(2) w h unfolding stretchTile_def Let_def
    by (auto split: option.splits if_splits simp: less_imp_le)
qed

lemma stretchFold_slack:
  assumes "\<forall>i \<in> set is. i < length placed"
    and "fold (stretchTile byId columns rows) is (placed, b) = (placed', b')"
  shows "length placed' = length placed \<and> slack columns rows placed' \<le> slack columns rows placed
    \<and> (b' \<longrightarrow> b \<or> slack columns rows placed' < slack columns rows placed)"
  using assms
proof (induction "is" arbitrary: placed b)
  case Nil
  then show ?case by simp
next
  case (Cons i js)
  obtain p c where pc: "stretchTile byId columns rows i (placed, b) = (p, c)" by fastforce
  with Cons.prems have step: "length p = length placed \<and> slack columns rows p \<le> slack columns rows placed
    \<and> (c \<longrightarrow> b \<or> slack columns rows p < slack columns rows placed)"
    by (intro stretchTile_slack) simp_all
  with Cons.prems pc have "length placed' = length p \<and> slack columns rows placed' \<le> slack columns rows p
    \<and> (b' \<longrightarrow> c \<or> slack columns rows placed' < slack columns rows p)"
    by (intro Cons.IH) auto
  with step show ?case by auto
qed

lemma stretchPass_slack:
  "stretchPass byId columns rows placed = (placed', True)
   \<Longrightarrow> slack columns rows placed' < slack columns rows placed"
  unfolding stretchPass_def by (drule stretchFold_slack[rotated]) auto

function stretchLoop ::
  "(string \<Rightarrow> tile_descriptor option) \<Rightarrow> int \<Rightarrow> int \<Rightarrow> placed_tile list \<Rightarrow> placed_tile list" where
  "stretchLoop byId columns maximumRows placed =
     (case stretchPass byId columns maximumRows placed of
        (placed', didStretch) \<Rightarrow>
          if didStretch then stretchLoop byId columns maximumRows placed' else placed')"
  by pat_completeness auto
termination
  by (relation "measure (\<lambda>(byId, columns, rows, placed). slack columns rows placed)")
     (auto intro: stretchPass_slack dest: sym)

declare stretchLoop.simps [simp del]

definition stretchTiles ::
  "placed_tile list \<Rightarrow> tile_descriptor list \<Rightarrow> int \<Rightarrow> int \<Rightarrow> placed_tile list" where
  "stretchTiles placed descriptors columns maximumRows =
     stretchLoop (descriptorById descriptors) columns maximumRows placed"

section \<open>Gap closing\<close>

datatype growth_direction = GRight | GDown | GLeft | GUp

definition directions :: "growth_direction list" where
  "directions = [GRight, GDown, GLeft, GUp]"

fun growth :: "placed_tile \<Rightarrow> growth_direction \<Rightarrow> placed_tile" where
  "growth tile GRight = tile\<lparr>t_columns := t_columns tile + 1\<rparr>"
| "growth tile GDown = tile\<lparr>t_rows := t_rows tile + 1\<rparr>"
| "growth tile GLeft = tile\<lparr>t_x := t_x tile - 1, t_columns := t_columns tile + 1\<rparr>"
| "growth tile GUp = tile\<lparr>t_y := t_y tile - 1, t_rows := t_rows tile + 1\<rparr>"

definition horizontal :: "growth_direction \<Rightarrow> bool" where
  "horizontal d \<longleftrightarrow> d = GRight \<or> d = GLeft"

definition covers :: "placed_tile \<Rightarrow> int \<times> int \<Rightarrow> bool" where
  "covers tile cell \<longleftrightarrow>
     fst cell \<ge> t_x tile \<and> fst cell < t_x tile + t_columns tile \<and>
     snd cell \<ge> t_y tile \<and> snd cell < t_y tile + t_rows tile"

definition growthCap :: "tile_descriptor option \<Rightarrow> growth_direction \<Rightarrow> int option" where
  "growthCap descriptor direction =
     Option.bind descriptor (if horizontal direction then maximumColumnsOf else maximumRowsOf)"

definition canGrow ::
  "placed_tile \<Rightarrow> growth_direction \<Rightarrow> int \<times> int \<Rightarrow> placed_tile list
   \<Rightarrow> tile_descriptor option \<Rightarrow> int \<Rightarrow> int \<Rightarrow> bool" where
  "canGrow tile direction cell placed descriptor columns rows =
     (let grown = growth tile direction in
      if (case growthCap descriptor direction of
            None \<Rightarrow> False
          | Some cap \<Rightarrow> (if horizontal direction then t_columns grown else t_rows grown) > cap)
      then False
      else if \<not> fits grown placed columns rows then False
      else covers grown cell)"

definition emptyCells :: "placed_tile list \<Rightarrow> int \<Rightarrow> int \<Rightarrow> (int \<times> int) list" where
  "emptyCells placed columns rows =
     (let occupied =
        concat (map (\<lambda>tile.
          concat (map (\<lambda>y. map (\<lambda>x. (x, y)) [t_x tile .. t_x tile + t_columns tile - 1])
                      [t_y tile .. t_y tile + t_rows tile - 1])) placed)
      in filter (\<lambda>cell. \<not> List.member occupied cell)
           (concat (map (\<lambda>y. map (\<lambda>x. (x, y)) [0 .. columns - 1]) [0 .. rows - 1])))"

text \<open>The candidates in the order \<open>findGrowth\<close> pushes them: index, direction, preferred.\<close>

definition growthCandidates ::
  "int \<times> int \<Rightarrow> placed_tile list \<Rightarrow> (string \<Rightarrow> tile_descriptor option) \<Rightarrow> int \<Rightarrow> int
   \<Rightarrow> (nat \<times> growth_direction \<times> bool) list" where
  "growthCandidates cell placed byId columns rows =
     concat (map (\<lambda>i.
       let descriptor = byId (t_id (placed ! i)) in
       map (\<lambda>direction.
              (i, direction,
               case descriptor of
                 None \<Rightarrow> False
               | Some d \<Rightarrow> if horizontal direction then td_canStretchHorizontally d
                           else td_canStretchVertically d))
           (filter (\<lambda>direction. canGrow (placed ! i) direction cell placed descriptor columns rows)
              directions))
       [0 ..< length placed])"

definition findGrowth ::
  "int \<times> int \<Rightarrow> placed_tile list \<Rightarrow> (string \<Rightarrow> tile_descriptor option) \<Rightarrow> int \<Rightarrow> int
   \<Rightarrow> (nat \<times> growth_direction) option" where
  "findGrowth cell placed byId columns rows =
     (let candidates = growthCandidates cell placed byId columns rows in
      case List.find (\<lambda>(i, d, preferred). preferred) candidates of
        Some (i, d, _) \<Rightarrow> Some (i, d)
      | None \<Rightarrow> (case candidates of [] \<Rightarrow> None | (i, d, _) # _ \<Rightarrow> Some (i, d)))"

text \<open>The \<open>for\<close> loop over the empty cells up to its \<open>break\<close>: the first cell with a growth.\<close>

fun firstGrowth ::
  "(int \<times> int) list \<Rightarrow> placed_tile list \<Rightarrow> (string \<Rightarrow> tile_descriptor option) \<Rightarrow> int \<Rightarrow> int
   \<Rightarrow> (nat \<times> growth_direction) option" where
  "firstGrowth [] placed byId columns rows = None"
| "firstGrowth (cell # cells) placed byId columns rows =
     (case findGrowth cell placed byId columns rows of
        Some g \<Rightarrow> Some g
      | None \<Rightarrow> firstGrowth cells placed byId columns rows)"

lemma growthCandidates_mem:
  assumes "(i, d, p) \<in> set (growthCandidates cell placed byId columns rows)"
  shows "i < length placed \<and>
    canGrow (placed ! i) d cell placed (byId (t_id (placed ! i))) columns rows"
  using assms by (auto simp: growthCandidates_def Let_def)

lemma findGrowth_canGrow:
  assumes "findGrowth cell placed byId columns rows = Some (i, d)"
  shows "i < length placed \<and>
    canGrow (placed ! i) d cell placed (byId (t_id (placed ! i))) columns rows"
proof -
  from assms obtain p where
    "(i, d, p) \<in> set (growthCandidates cell placed byId columns rows)"
    by (auto simp: findGrowth_def Let_def split: option.splits list.splits prod.splits
             dest!: find_SomeD)
  then show ?thesis by (rule growthCandidates_mem)
qed

lemma firstGrowth_canGrow:
  assumes "firstGrowth cells placed byId columns rows = Some (i, d)"
  shows "\<exists>cell \<in> set cells. i < length placed \<and>
    canGrow (placed ! i) d cell placed (byId (t_id (placed ! i))) columns rows"
  using assms
  by (induction cells) (auto split: option.splits dest: findGrowth_canGrow)

lemma canGrow_fits:
  "canGrow tile d cell placed desc columns rows \<Longrightarrow> fits (growth tile d) placed columns rows"
  by (auto simp: canGrow_def Let_def split: if_splits)

lemma growth_slack:
  assumes "i < length placed" and "fits (growth (placed ! i) d) placed columns rows"
  shows "slack columns rows (placed[i := growth (placed ! i) d]) < slack columns rows placed"
  using assms by (intro slack_update_less) (cases d; auto simp: fits_def)+

function closeLoop ::
  "(string \<Rightarrow> tile_descriptor option) \<Rightarrow> int \<Rightarrow> int \<Rightarrow> placed_tile list \<Rightarrow> placed_tile list" where
  "closeLoop byId columns rows placed =
     (case firstGrowth (emptyCells placed columns rows) placed byId columns rows of
        None \<Rightarrow> placed
      | Some (i, d) \<Rightarrow> closeLoop byId columns rows (placed[i := growth (placed ! i) d]))"
  by pat_completeness auto
termination
  by (relation "measure (\<lambda>(byId, columns, rows, placed). slack columns rows placed)")
     (auto intro!: growth_slack dest!: firstGrowth_canGrow canGrow_fits)

declare closeLoop.simps [simp del]

definition closeGaps ::
  "placed_tile list \<Rightarrow> tile_descriptor list \<Rightarrow> int \<Rightarrow> int \<Rightarrow> placed_tile list" where
  "closeGaps placed descriptors columns rows =
     closeLoop (descriptorById descriptors) columns rows placed"

section \<open>The resolver\<close>

definition orderedTiles :: "tile_descriptor list \<Rightarrow> tile_descriptor list" where
  "orderedTiles tiles =
     map fst (sort_key (\<lambda>(tile, index). (- td_priority tile, index))
                (zip tiles [0 ..< length tiles]))"

record placement_state =
  ps_placed :: "placed_tile list"
  ps_relocated :: "(string \<times> string) list"
  ps_hidden :: "string list"

definition placeTile ::
  "grid_request \<Rightarrow> tile_descriptor \<Rightarrow> placement_state \<Rightarrow> layout_error + placement_state" where
  "placeTile request tile st =
     (let columns = gr_columns request; maximumRows = gr_maximumRows request;
          columnWidth = map_option (\<lambda>w. w / of_int columns) (gr_containerWidth request) in
      case findPlacement tile (ps_placed st) columns maximumRows columnWidth
             (gr_minimumTileWidth request) of
        Some c \<Rightarrow> Inr (st\<lparr>ps_placed := ps_placed st @ [c]\<rparr>)
      | None \<Rightarrow>
          let canLeave = td_relocationRoute tile \<noteq> None \<or> td_hideWhenOverflow tile;
              withoutFloor = (if canLeave then None
                 else findPlacement tile (ps_placed st) columns maximumRows None None) in
          case withoutFloor of
            Some c \<Rightarrow> Inr (st\<lparr>ps_placed := ps_placed st @ [c]\<rparr>)
          | None \<Rightarrow>
              (case td_relocationRoute tile of
                 Some route \<Rightarrow>
                   Inr (st\<lparr>ps_relocated := ps_relocated st @ [(td_id tile, route)]\<rparr>)
               | None \<Rightarrow>
                   if td_hideWhenOverflow tile
                   then Inr (st\<lparr>ps_hidden := ps_hidden st @ [td_id tile]\<rparr>)
                   else Inl (LayoutOverflowError (td_id tile) columns maximumRows)))"

fun placeTiles ::
  "grid_request \<Rightarrow> tile_descriptor list \<Rightarrow> placement_state \<Rightarrow> layout_error + placement_state" where
  "placeTiles request [] st = Inr st"
| "placeTiles request (tile # tiles) st =
     (case placeTile request tile st of
        Inl e \<Rightarrow> Inl e
      | Inr st' \<Rightarrow> placeTiles request tiles st')"

definition usedRowsOf :: "placed_tile list \<Rightarrow> int" where
  "usedRowsOf placed = foldl (\<lambda>maximum tile. max maximum (t_y tile + t_rows tile)) 0 placed"

definition resolveGridLayout :: "grid_request \<Rightarrow> layout_error + grid_result" where
  "resolveGridLayout request =
     (case validateRequest request of
        Inl e \<Rightarrow> Inl e
      | Inr _ \<Rightarrow>
          (case placeTiles request (orderedTiles (gr_tiles request))
                  \<lparr>ps_placed = [], ps_relocated = [], ps_hidden = []\<rparr> of
             Inl e \<Rightarrow> Inl e
           | Inr st \<Rightarrow>
               let compacted = compactTiles (ps_placed st) (gr_columns request) (gr_maximumRows request);
                   stretched = stretchTiles compacted (gr_tiles request) (gr_columns request)
                                 (gr_maximumRows request);
                   usedRows = usedRowsOf stretched
               in Inr \<lparr>res_placed = closeGaps stretched (gr_tiles request) (gr_columns request) usedRows,
                       res_relocated = ps_relocated st, res_hidden = ps_hidden st,
                       res_usedRows = usedRows\<rparr>))"

end
