(* ===== verification/Layout_Correct.thy ===== *)
theory Layout_Correct
  imports Layout_Engine
begin

text \<open>
  Correctness of the tile packing engine. Each of the three passes over the placed tiles
  (\<open>compactTiles\<close>, \<open>stretchTiles\<close>, \<open>closeGaps\<close>) is a sequence of single-tile moves that
  \<open>fits\<close> accepted, so the invariant of the grid (tiles inside it, pairwise disjoint, with
  distinct identifiers) is proved once for a move and carried to the passes by the
  \<open>invariant_system\<close> interface.
\<close>

section \<open>The invariant of the grid\<close>

definition in_grid :: "int \<Rightarrow> int \<Rightarrow> placed_tile \<Rightarrow> bool" where
  "in_grid columns rows t \<longleftrightarrow>
     0 \<le> t_x t \<and> 0 \<le> t_y t \<and> 1 \<le> t_columns t \<and> 1 \<le> t_rows t \<and>
     t_x t + t_columns t \<le> columns \<and> t_y t + t_rows t \<le> rows"

definition grid_ok :: "int \<Rightarrow> int \<Rightarrow> placed_tile list \<Rightarrow> bool" where
  "grid_ok columns rows placed \<longleftrightarrow>
     distinct (map t_id placed) \<and> (\<forall>t \<in> set placed. in_grid columns rows t) \<and>
     (\<forall>t \<in> set placed. \<forall>u \<in> set placed. t_id t \<noteq> t_id u \<longrightarrow> \<not> overlap t u)"

lemma overlap_sym: "overlap t u = overlap u t"
  by (auto simp: overlap_def)

lemma overlapsAny_iff:
  "overlapsAny c placed \<longleftrightarrow> (\<exists>u \<in> set placed. t_id u \<noteq> t_id c \<and> overlap c u)"
  by (simp add: overlapsAny_def list_ex_iff)

lemma grid_ok_Nil [simp]: "grid_ok columns rows []"
  by (simp add: grid_ok_def)

lemma grid_ok_snoc:
  assumes "grid_ok columns rows placed" and "in_grid columns rows c"
    and "t_id c \<notin> set (map t_id placed)" and "\<not> overlapsAny c placed"
  shows "grid_ok columns rows (placed @ [c])"
  using assms unfolding grid_ok_def overlapsAny_iff by (auto simp: overlap_sym)

lemma grid_ok_update:
  assumes ok: "grid_ok columns rows placed" and i: "i < length placed"
    and idt: "t_id t = t_id (placed ! i)" and ft: "fits t placed columns rows"
    and sz: "t_columns (placed ! i) \<le> t_columns t" "t_rows (placed ! i) \<le> t_rows t"
  shows "grid_ok columns rows (placed[i := t])"
proof -
  have "in_grid columns rows (placed ! i)" using ok i by (auto simp: grid_ok_def)
  then have ing: "in_grid columns rows t" using ft sz by (auto simp: in_grid_def fits_def)
  have ids: "map t_id (placed[i := t]) = map t_id placed"
    using i idt by (rule map_list_update_same)
  have no: "\<not> overlap t u" if "u \<in> set placed" "t_id u \<noteq> t_id t" for u
    using ft that by (auto simp: fits_def overlapsAny_iff)
  have sub: "set (placed[i := t]) \<subseteq> insert t (set placed)" by (rule set_update_subset_insert)
  have disj: "\<not> overlap a b"
    if "a \<in> set (placed[i := t])" "b \<in> set (placed[i := t])" "t_id a \<noteq> t_id b" for a b
  proof -
    have "a = t \<or> a \<in> set placed" "b = t \<or> b \<in> set placed" using sub that by auto
    then show ?thesis using that(3) no ok overlap_sym unfolding grid_ok_def by metis
  qed
  show ?thesis
    unfolding grid_ok_def using ids ok ing sub disj by (auto simp: grid_ok_def)
qed

section \<open>Moves\<close>

text \<open>
  One move replaces one tile by a tile with the same identifier that is at least as large
  and fits; \<open>allowed\<close> says which replacements the pass makes.
\<close>

definition tile_step ::
  "(placed_tile \<Rightarrow> placed_tile \<Rightarrow> bool) \<Rightarrow> int \<Rightarrow> int \<Rightarrow> placed_tile list \<Rightarrow> placed_tile list \<Rightarrow> bool"
  where
  "tile_step allowed columns rows p q \<longleftrightarrow>
     (\<exists>i t. i < length p \<and> q = p[i := t] \<and> allowed (p ! i) t \<and> t_id t = t_id (p ! i) \<and>
            t_columns (p ! i) \<le> t_columns t \<and> t_rows (p ! i) \<le> t_rows t \<and>
            fits t p columns rows)"

lemma tile_stepI:
  "i < length p \<Longrightarrow> allowed (p ! i) t \<Longrightarrow> t_id t = t_id (p ! i) \<Longrightarrow>
   t_columns (p ! i) \<le> t_columns t \<Longrightarrow> t_rows (p ! i) \<le> t_rows t \<Longrightarrow> fits t p columns rows \<Longrightarrow>
   tile_step allowed columns rows p (p[i := t])"
  unfolding tile_step_def by blast

interpretation grid: invariant_system "grid_ok columns rows" "tile_step allowed columns rows"
  "grid_ok columns rows" for allowed columns rows
  by unfold_locales (auto simp: tile_step_def intro: grid_ok_update)

interpretation tile_ids: invariant_system "\<lambda>p. map t_id p = ids" "tile_step allowed columns rows"
  "\<lambda>p. map t_id p = ids" for allowed columns rows ids
  by unfold_locales (auto simp: tile_step_def map_list_update_same)

section \<open>Compaction is a sequence of moves\<close>

text \<open>A slide towards the origin: same identifier and size, no coordinate grows.\<close>

definition slid :: "placed_tile \<Rightarrow> placed_tile \<Rightarrow> bool" where
  "slid t u \<longleftrightarrow> t_id u = t_id t \<and> t_columns u = t_columns t \<and> t_rows u = t_rows t \<and>
     t_x u \<le> t_x t \<and> t_y u \<le> t_y t"

lemma slideUp_slid: "slid t (slideUp placed columns rows t) \<and>
   (slideUp placed columns rows t = t \<or> fits (slideUp placed columns rows t) placed columns rows)"
proof (induction placed columns rows t rule: slideUp.induct)
  case (1 placed columns rows t)
  then show ?case
    by (subst (1 2 3) slideUp.simps) (auto simp: slid_def)
qed

lemma slideLeft_slid: "slid t (slideLeft placed columns rows t) \<and>
   (slideLeft placed columns rows t = t \<or> fits (slideLeft placed columns rows t) placed columns rows)"
proof (induction placed columns rows t rule: slideLeft.induct)
  case (1 placed columns rows t)
  then show ?case
    by (subst (1 2 3) slideLeft.simps) (auto simp: slid_def)
qed

lemma slid_trans: "slid t u \<Longrightarrow> slid u v \<Longrightarrow> slid t v"
  by (auto simp: slid_def)

lemma compactTile_reaches:
  assumes "i < length placed"
  shows "reaches (tile_step slid columns rows) placed (compactTile columns rows i placed)"
proof -
  define u where "u = slideUp placed columns rows (placed ! i)"
  define v where "v = slideLeft placed columns rows u"
  have s: "slid (placed ! i) v"
    using slideUp_slid slideLeft_slid slid_trans unfolding u_def v_def by blast
  have "v = placed ! i \<or> fits v placed columns rows"
    using slideUp_slid[of "placed ! i" placed columns rows] slideLeft_slid[of u placed columns rows]
    unfolding u_def[symmetric] v_def[symmetric] by auto
  then show ?thesis
  proof
    assume "v = placed ! i"
    then show ?thesis by (simp add: compactTile_def u_def v_def reaches.reach_refl)
  next
    assume "fits v placed columns rows"
    with s assms have "tile_step slid columns rows placed (placed[i := v])"
      by (intro tile_stepI) (auto simp: slid_def)
    then show ?thesis
      using reaches.reach_refl reaches.reach_step by (fastforce simp: compactTile_def u_def v_def)
  qed
qed

lemma compactTiles_reaches:
  "reaches (tile_step slid columns rows) placed (compactTiles placed columns rows)"
  unfolding compactTiles_def
  by (rule fold_reaches[where P = "\<lambda>p. length p = length placed"])
     (auto simp: compactTile_reaches, auto simp: compactTile_def)

section \<open>Stretching and gap closing are sequences of moves\<close>

text \<open>
  A growth by one cell that respects the declared maximum in the direction it grows.
\<close>

definition grown_within ::
  "(string \<Rightarrow> tile_descriptor option) \<Rightarrow> placed_tile \<Rightarrow> placed_tile \<Rightarrow> bool" where
  "grown_within byId t u \<longleftrightarrow> t_id u = t_id t \<and>
     (\<forall>d c. byId (t_id t) = Some d \<longrightarrow> maximumColumnsOf d = Some c \<longrightarrow>
        t_columns u = t_columns t \<or> t_columns u \<le> c) \<and>
     (\<forall>d r. byId (t_id t) = Some d \<longrightarrow> maximumRowsOf d = Some r \<longrightarrow>
        t_rows u = t_rows t \<or> t_rows u \<le> r)"

lemma stretchTile_reaches:
  assumes "i < length (fst s)"
  shows "reaches (tile_step (grown_within byId) columns rows) (fst s)
           (fst (stretchTile byId columns rows i s))"
proof -
  obtain placed b where s: "s = (placed, b)" by fastforce
  define w where "w = (placed ! i)\<lparr>t_columns := t_columns (placed ! i) + 1\<rparr>"
  define h where "h = (placed ! i)\<lparr>t_rows := t_rows (placed ! i) + 1\<rparr>"
  have wide: "tile_step (grown_within byId) columns rows placed (placed[i := w])"
    if "byId (t_id (placed ! i)) = Some d" "fits w placed columns rows"
      "t_columns (placed ! i) < (case maximumColumnsOf d of None \<Rightarrow> columns | Some c \<Rightarrow> c)" for d
    using that assms s by (intro tile_stepI) (auto simp: w_def grown_within_def)
  have tall: "tile_step (grown_within byId) columns rows placed (placed[i := h])"
    if "byId (t_id (placed ! i)) = Some d" "fits h placed columns rows"
      "t_rows (placed ! i) < (case maximumRowsOf d of None \<Rightarrow> rows | Some r \<Rightarrow> r)" for d
    using that assms s by (intro tile_stepI) (auto simp: h_def grown_within_def)
  show ?thesis
    using wide tall unfolding s stretchTile_def Let_def
    by (auto split: option.split intro: reaches.intros simp flip: w_def h_def)
qed

lemma stretchTile_length [simp]:
  "length (fst (stretchTile byId columns rows i s)) = length (fst s)"
  by (auto simp: stretchTile_def Let_def split: prod.splits option.splits)

lemma stretchFold_reaches:
  assumes "\<forall>i \<in> set is. i < length (fst s)"
  shows "reaches (tile_step (grown_within byId) columns rows) (fst s)
           (fst (fold (stretchTile byId columns rows) is s))"
  using assms
proof (induction "is" arbitrary: s)
  case Nil
  then show ?case by (simp add: reaches.reach_refl)
next
  case (Cons i js)
  then have "reaches (tile_step (grown_within byId) columns rows) (fst s)
      (fst (stretchTile byId columns rows i s))"
    by (intro stretchTile_reaches) simp
  moreover have "reaches (tile_step (grown_within byId) columns rows)
      (fst (stretchTile byId columns rows i s))
      (fst (fold (stretchTile byId columns rows) js (stretchTile byId columns rows i s)))"
    using Cons by simp
  ultimately show ?case by (simp add: reaches_trans)
qed

lemma stretchLoop_reaches:
  "reaches (tile_step (grown_within byId) columns rows) placed
     (stretchLoop byId columns rows placed)"
proof (induction byId columns rows placed rule: stretchLoop.induct)
  case (1 byId columns rows placed)
  obtain p b where pb: "stretchPass byId columns rows placed = (p, b)" by fastforce
  have pass: "reaches (tile_step (grown_within byId) columns rows) placed p"
    using stretchFold_reaches[of "[0 ..< length placed]" "(placed, False)" byId columns rows] pb
    by (simp add: stretchPass_def)
  show ?case
  proof (cases b)
    case True
    with 1 pb have "reaches (tile_step (grown_within byId) columns rows) p
        (stretchLoop byId columns rows p)" by simp
    with pass have "reaches (tile_step (grown_within byId) columns rows) placed
        (stretchLoop byId columns rows p)" by (rule reaches_trans)
    with True pb show ?thesis by (simp add: stretchLoop.simps[of byId columns rows placed])
  next
    case False
    with pass pb show ?thesis by (simp add: stretchLoop.simps[of byId columns rows placed])
  qed
qed

lemma canGrow_grown_within:
  assumes "canGrow t d cell placed (byId (t_id t)) columns rows"
  shows "grown_within byId t (growth t d)"
  using assms
  by (cases d) (auto simp: canGrow_def grown_within_def growthCap_def horizontal_def Let_def
                 split: if_splits)

lemma growth_simps [simp]:
  "t_id (growth t d) = t_id t" "t_columns t \<le> t_columns (growth t d)"
  "t_rows t \<le> t_rows (growth t d)" "t_presentation (growth t d) = t_presentation t"
  by (cases d; simp)+

lemma closeLoop_reaches:
  "reaches (tile_step (grown_within byId) columns rows) placed
     (closeLoop byId columns rows placed)"
proof (induction byId columns rows placed rule: closeLoop.induct)
  case (1 byId columns rows placed)
  show ?case
  proof (cases "firstGrowth (emptyCells placed columns rows) placed byId columns rows")
    case None
    then show ?thesis by (simp add: closeLoop.simps[of byId columns rows placed] reaches.reach_refl)
  next
    case (Some g)
    obtain i d where g: "g = (i, d)" by fastforce
    from firstGrowth_canGrow Some g obtain cell where i: "i < length placed"
      and cg: "canGrow (placed ! i) d cell placed (byId (t_id (placed ! i))) columns rows" by blast
    have "tile_step (grown_within byId) columns rows placed (placed[i := growth (placed ! i) d])"
      using i canGrow_grown_within[of _ _ _ _ byId, OF cg] canGrow_fits[OF cg] by (intro tile_stepI) auto
    then have "reaches (tile_step (grown_within byId) columns rows) placed
        (placed[i := growth (placed ! i) d])"
      using reaches.reach_refl reaches.reach_step by fast
    moreover have "reaches (tile_step (grown_within byId) columns rows)
        (placed[i := growth (placed ! i) d])
        (closeLoop byId columns rows (placed[i := growth (placed ! i) d]))"
      using 1 Some g by simp
    ultimately have "reaches (tile_step (grown_within byId) columns rows) placed
        (closeLoop byId columns rows (placed[i := growth (placed ! i) d]))"
      by (rule reaches_trans)
    then show ?thesis
      using Some g by (simp add: closeLoop.simps[of byId columns rows placed])
  qed
qed

lemma stretchTiles_reaches:
  "reaches (tile_step (grown_within (descriptorById descriptors)) columns rows) placed
     (stretchTiles placed descriptors columns rows)"
  unfolding stretchTiles_def by (rule stretchLoop_reaches)

lemma closeGaps_reaches:
  "reaches (tile_step (grown_within (descriptorById descriptors)) columns rows) placed
     (closeGaps placed descriptors columns rows)"
  unfolding closeGaps_def by (rule closeLoop_reaches)

section \<open>Placement\<close>

definition placeable ::
  "tile_descriptor \<Rightarrow> tile_variant \<Rightarrow> placed_tile list \<Rightarrow> int \<Rightarrow> int \<Rightarrow> rat option \<Rightarrow> rat option \<Rightarrow> bool"
  where
  "placeable tile v placed columns rows cw mw \<longleftrightarrow>
     \<not> belowFloor v cw mw \<and>
     (\<exists>x y. 0 \<le> x \<and> 0 \<le> y \<and> x + v_columns v \<le> columns \<and> y + v_rows v \<le> rows \<and>
            \<not> overlapsAny (candidateAt tile v x y) placed)"

lemma positions_mem:
  "(x, y) \<in> set (positions v columns rows) \<longleftrightarrow>
     0 \<le> x \<and> x + v_columns v \<le> columns \<and> 0 \<le> y \<and> y + v_rows v \<le> rows"
  by (force simp: positions_def)

lemma findInVariants_None:
  "findInVariants tile placed columns rows cw mw vs = None \<longleftrightarrow>
     (\<forall>v \<in> set vs. \<not> placeable tile v placed columns rows cw mw)"
proof (induction vs)
  case Nil
  then show ?case by simp
next
  case (Cons v vs)
  let ?cands = "map (\<lambda>(x, y). candidateAt tile v x y) (positions v columns rows)"
  have "List.find (\<lambda>c. \<not> overlapsAny c placed) ?cands = None \<longleftrightarrow>
      (\<forall>x y. (x, y) \<in> set (positions v columns rows) \<longrightarrow> overlapsAny (candidateAt tile v x y) placed)"
    by (auto simp: find_None_iff)
  with Cons show ?case
    by (auto simp: placeable_def positions_mem split: option.splits)
qed

lemma findInVariants_Some:
  assumes "findInVariants tile placed columns rows cw mw vs = Some c"
  shows "\<exists>us v ws x y. vs = us @ v # ws \<and> c = candidateAt tile v x y \<and>
     0 \<le> x \<and> 0 \<le> y \<and> x + v_columns v \<le> columns \<and> y + v_rows v \<le> rows \<and>
     \<not> overlapsAny c placed \<and> \<not> belowFloor v cw mw \<and>
     (\<forall>u \<in> set us. \<not> placeable tile u placed columns rows cw mw)"
  using assms
proof (induction vs)
  case Nil
  then show ?case by simp
next
  case (Cons v vs)
  let ?here = "findInVariants tile placed columns rows cw mw [v]"
  show ?case
  proof (cases ?here)
    case None
    with Cons.prems have rest: "findInVariants tile placed columns rows cw mw vs = Some c"
      by (auto split: if_splits option.splits)
    from Cons.IH[OF rest] obtain us v' ws x y where dec: "vs = us @ v' # ws"
      and found: "c = candidateAt tile v' x y \<and> 0 \<le> x \<and> 0 \<le> y \<and> x + v_columns v' \<le> columns \<and>
        y + v_rows v' \<le> rows \<and> \<not> overlapsAny c placed \<and> \<not> belowFloor v' cw mw"
      and before: "\<forall>u \<in> set us. \<not> placeable tile u placed columns rows cw mw" by blast
    have "\<not> placeable tile v placed columns rows cw mw"
      using None findInVariants_None[of tile placed columns rows cw mw "[v]"] by simp
    with dec before have "v # vs = (v # us) @ v' # ws \<and>
        (\<forall>u \<in> set (v # us). \<not> placeable tile u placed columns rows cw mw)" by simp
    with found show ?thesis by blast
  next
    case (Some c')
    with Cons.prems have c': "c' = c" by (auto split: if_splits option.splits)
    from Some obtain x y where "c' = candidateAt tile v x y" "(x, y) \<in> set (positions v columns rows)"
      "\<not> overlapsAny c' placed" "\<not> belowFloor v cw mw"
      by (auto split: if_splits option.splits dest!: find_SomeD)
    then have "v # vs = [] @ v # vs \<and> c = candidateAt tile v x y \<and> 0 \<le> x \<and> 0 \<le> y \<and>
       x + v_columns v \<le> columns \<and> y + v_rows v \<le> rows \<and> \<not> overlapsAny c placed \<and>
       \<not> belowFloor v cw mw \<and> (\<forall>u \<in> set []. \<not> placeable tile u placed columns rows cw mw)"
      using c' by (simp add: positions_mem)
    then show ?thesis by blast
  qed
qed

lemma findPlacement_in_grid:
  assumes "findPlacement tile placed columns rows cw mw = Some c"
    and "\<forall>v \<in> set (td_variants tile). 1 \<le> v_columns v \<and> 1 \<le> v_rows v"
  shows "t_id c = td_id tile \<and> in_grid columns rows c \<and> \<not> overlapsAny c placed \<and>
    t_columns c \<in> v_columns ` set (td_variants tile) \<and> t_rows c \<in> v_rows ` set (td_variants tile)"
proof -
  from assms(1) obtain us v ws x y where "td_variants tile = us @ v # ws"
    and "c = candidateAt tile v x y \<and> 0 \<le> x \<and> 0 \<le> y \<and> x + v_columns v \<le> columns \<and>
      y + v_rows v \<le> rows \<and> \<not> overlapsAny c placed"
    unfolding findPlacement_def by (blast dest: findInVariants_Some)
  with assms(2) show ?thesis by (auto simp: candidateAt_def in_grid_def)
qed

section \<open>What validation promises\<close>

definition tiles_valid :: "tile_descriptor list \<Rightarrow> bool" where
  "tiles_valid tiles \<longleftrightarrow> distinct (map td_id tiles) \<and>
     (\<forall>t \<in> set tiles. td_variants t \<noteq> [] \<and>
        (\<forall>v \<in> set (td_variants t). 1 \<le> v_columns v \<and> 1 \<le> v_rows v))"

lemma validateVariants_ok:
  "validateVariants i prev vs = Inr u \<Longrightarrow> v \<in> set vs \<Longrightarrow> 1 \<le> v_columns v \<and> 1 \<le> v_rows v"
  by (induction i prev vs rule: validateVariants.induct)
     (auto simp: validateSize_def Let_def split: if_splits option.splits)

lemma validateTiles_ok:
  "validateTiles ids tiles = Inr u \<Longrightarrow>
     tiles_valid tiles \<and> (\<forall>t \<in> set tiles. td_id t \<notin> set ids)"
proof (induction ids tiles rule: validateTiles.induct)
  case (1 ids)
  then show ?case by (simp add: tiles_valid_def)
next
  case (2 ids tile tiles)
  from "2.prems" obtain w where vs: "validateVariants (td_id tile) None (td_variants tile) = Inr w"
    and mx: "validateMaximum tile = Inr ()" and nid: "td_id tile \<notin> set ids"
    and ne: "td_variants tile \<noteq> []" and rest: "validateTiles (td_id tile # ids) tiles = Inr u"
    by (auto split: if_splits sum.splits)
  have "tiles_valid tiles \<and> (\<forall>t \<in> set tiles. td_id t \<notin> set (td_id tile # ids))"
    using "2.IH"[OF _ _ vs mx rest] "2.prems" by (auto split: if_splits)
  with nid ne validateVariants_ok[OF vs] show ?case by (auto simp: tiles_valid_def)
qed

lemma validateRequest_ok:
  "validateRequest request = Inr u \<Longrightarrow>
     1 \<le> gr_columns request \<and> 1 \<le> gr_maximumRows request \<and> tiles_valid (gr_tiles request)"
  using validateTiles_ok[of "[]" "gr_tiles request"]
  by (auto simp: validateRequest_def split: if_splits)

section \<open>The placement loop\<close>

lemma orderedTiles_mset: "mset (orderedTiles tiles) = mset tiles"
proof -
  have "mset (orderedTiles tiles) = image_mset fst (mset (zip tiles [0 ..< length tiles]))"
    by (simp add: orderedTiles_def)
  also have "\<dots> = mset (map fst (zip tiles [0 ..< length tiles]))" by (simp only: mset_map)
  finally show ?thesis by (simp del: mset_map)
qed

lemma orderedTiles_set [simp]: "set (orderedTiles tiles) = set tiles"
  using orderedTiles_mset mset_eq_setD by blast

definition st_ids :: "placement_state \<Rightarrow> string multiset" where
  "st_ids st = mset (map t_id (ps_placed st)) + mset (map fst (ps_relocated st)) + mset (ps_hidden st)"

definition variant_sized :: "(string \<Rightarrow> tile_descriptor option) \<Rightarrow> placed_tile \<Rightarrow> bool" where
  "variant_sized byId t \<longleftrightarrow> (\<exists>d. byId (t_id t) = Some d \<and>
     t_columns t \<in> v_columns ` set (td_variants d) \<and> t_rows t \<in> v_rows ` set (td_variants d))"

lemma placeTile_ids: "placeTile request tile st = Inr st' \<Longrightarrow> st_ids st' = add_mset (td_id tile) (st_ids st)"
proof -
  have "t_id c = td_id tile" if "findPlacement tile placed columns rows cw mw = Some c"
    for placed columns rows cw mw c
    using that findInVariants_Some unfolding findPlacement_def
    by (fastforce simp: candidateAt_def)
  then show "placeTile request tile st = Inr st' \<Longrightarrow> ?thesis"
    by (auto simp: placeTile_def st_ids_def Let_def split: option.splits if_splits)
qed

lemma placeTiles_ids:
  "placeTiles request tiles st = Inr st' \<Longrightarrow> st_ids st' = st_ids st + mset (map td_id tiles)"
  by (induction tiles arbitrary: st) (auto split: sum.splits dest!: placeTile_ids)

lemma placeTile_placed:
  assumes "placeTile request tile st = Inr st'"
  shows "ps_placed st' = ps_placed st \<or>
    (\<exists>c cw mw. ps_placed st' = ps_placed st @ [c] \<and>
       findPlacement tile (ps_placed st) (gr_columns request) (gr_maximumRows request) cw mw = Some c)"
  using assms by (auto simp: placeTile_def Let_def split: option.splits if_splits)

lemma placeTiles_ok:
  assumes "placeTiles request tiles st = Inr st'"
    and "grid_ok (gr_columns request) (gr_maximumRows request) (ps_placed st)"
    and "\<forall>t \<in> set tiles. byId (td_id t) = Some t \<and>
           (\<forall>v \<in> set (td_variants t). 1 \<le> v_columns v \<and> 1 \<le> v_rows v)"
    and "distinct (map td_id tiles)" and "set (map t_id (ps_placed st)) \<inter> set (map td_id tiles) = {}"
    and "\<forall>p \<in> set (ps_placed st). variant_sized byId p"
  shows "grid_ok (gr_columns request) (gr_maximumRows request) (ps_placed st') \<and>
    (\<forall>p \<in> set (ps_placed st'). variant_sized byId p)"
  using assms
proof (induction tiles arbitrary: st)
  case Nil
  then show ?case by simp
next
  case (Cons tile tiles)
  from Cons.prems(1) obtain s1 where s1: "placeTile request tile st = Inr s1"
    and rest: "placeTiles request tiles s1 = Inr st'" by (auto split: sum.splits)
  from placeTile_placed[OF s1] show ?case
  proof
    assume "ps_placed s1 = ps_placed st"
    with Cons.prems show ?thesis by (intro Cons.IH[OF rest]) auto
  next
    assume "\<exists>c cw mw. ps_placed s1 = ps_placed st @ [c] \<and>
       findPlacement tile (ps_placed st) (gr_columns request) (gr_maximumRows request) cw mw = Some c"
    then obtain c cw mw where c: "ps_placed s1 = ps_placed st @ [c]"
      and f: "findPlacement tile (ps_placed st) (gr_columns request) (gr_maximumRows request) cw mw = Some c"
      by blast
    from findPlacement_in_grid[OF f] Cons.prems(3)
    have cp: "t_id c = td_id tile" "in_grid (gr_columns request) (gr_maximumRows request) c"
      "\<not> overlapsAny c (ps_placed st)" "variant_sized byId c"
      by (auto simp: variant_sized_def)
    have "grid_ok (gr_columns request) (gr_maximumRows request) (ps_placed s1)"
      unfolding c using cp Cons.prems by (intro grid_ok_snoc) auto
    with Cons.prems cp c show ?thesis by (intro Cons.IH[OF rest]) auto
  qed
qed

lemma placeTiles_policy:
  assumes "placeTiles request tiles st = Inr st'"
    and "\<forall>(i, r) \<in> set (ps_relocated st). \<exists>d \<in> A. td_id d = i \<and> td_relocationRoute d = Some r"
    and "\<forall>i \<in> set (ps_hidden st). \<exists>d \<in> A. td_id d = i \<and> td_hideWhenOverflow d"
    and "set tiles \<subseteq> A"
  shows "(\<forall>(i, r) \<in> set (ps_relocated st'). \<exists>d \<in> A. td_id d = i \<and> td_relocationRoute d = Some r) \<and>
    (\<forall>i \<in> set (ps_hidden st'). \<exists>d \<in> A. td_id d = i \<and> td_hideWhenOverflow d)"
  using assms
proof (induction tiles arbitrary: st)
  case Nil
  then show ?case by simp
next
  case (Cons tile tiles)
  from Cons.prems(1) obtain s1 where s1: "placeTile request tile st = Inr s1"
    and rest: "placeTiles request tiles s1 = Inr st'" by (auto split: sum.splits)
  have "ps_relocated s1 = ps_relocated st \<or>
      (\<exists>r. ps_relocated s1 = ps_relocated st @ [(td_id tile, r)] \<and> td_relocationRoute tile = Some r)"
    "ps_hidden s1 = ps_hidden st \<or> ps_hidden s1 = ps_hidden st @ [td_id tile] \<and> td_hideWhenOverflow tile"
    using s1 by (auto simp: placeTile_def Let_def split: option.splits if_splits)
  with Cons.prems show ?case by (intro Cons.IH[OF rest]) auto
qed

lemma fold_js_set_get:
  fixes ds :: "tile_descriptor list"
  shows "distinct (map td_id ds) \<Longrightarrow> t \<in> set ds \<Longrightarrow>
     js_get (fold (\<lambda>d m. js_set (td_id d) d m) ds m) (td_id t) = Some t"
proof (induction ds arbitrary: m)
  case Nil
  then show ?case by simp
next
  case (Cons d ds)
  have keep: "js_get (fold (\<lambda>d m. js_set (td_id d) d m) ds m) k = js_get m k"
    if "k \<notin> set (map td_id ds)" for k and m :: "(string, tile_descriptor) jsmap"
    using that by (induction ds arbitrary: m) (auto simp: jsmap_simps)
  from Cons show ?case by (auto simp: keep jsmap_simps)
qed

lemma descriptorById_mem:
  "tiles_valid tiles \<Longrightarrow> t \<in> set tiles \<Longrightarrow> descriptorById tiles (td_id t) = Some t"
  unfolding descriptorById_def tiles_valid_def by (rule fold_js_set_get) auto

section \<open>Facts about the resolver\<close>

lemma usedRows_fold:
  fixes m :: int
  shows "m \<le> foldl (\<lambda>m t. max m (t_y t + t_rows t)) m ps \<and>
    (\<forall>t \<in> set ps. t_y t + t_rows t \<le> foldl (\<lambda>m t. max m (t_y t + t_rows t)) m ps) \<and>
    (\<forall>b. m \<le> b \<longrightarrow> (\<forall>t \<in> set ps. t_y t + t_rows t \<le> b) \<longrightarrow>
       foldl (\<lambda>m t. max m (t_y t + t_rows t)) m ps \<le> b)"
proof (induction ps arbitrary: m)
  case Nil
  then show ?case by simp
next
  case (Cons p ps)
  show ?case using Cons[of "max m (t_y p + t_rows p)"] by auto
qed

lemma usedRowsOf_bounds:
  "t \<in> set ps \<Longrightarrow> t_y t + t_rows t \<le> usedRowsOf ps"
  "0 \<le> b \<Longrightarrow> (\<And>t. t \<in> set ps \<Longrightarrow> t_y t + t_rows t \<le> b) \<Longrightarrow> usedRowsOf ps \<le> b"
  using usedRows_fold[of 0 ps] by (auto simp: usedRowsOf_def)

lemma grid_ok_usedRows: "grid_ok columns rows ps \<Longrightarrow> grid_ok columns (usedRowsOf ps) ps"
  by (auto simp: grid_ok_def in_grid_def intro: usedRowsOf_bounds)

lemma grid_ok_usedRows_le: "grid_ok columns rows ps \<Longrightarrow> 1 \<le> rows \<Longrightarrow> usedRowsOf ps \<le> rows"
  by (rule usedRowsOf_bounds) (auto simp: grid_ok_def in_grid_def)

lemma grid_ok_rows_mono: "grid_ok columns r ps \<Longrightarrow> r \<le> rows \<Longrightarrow> grid_ok columns rows ps"
  by (force simp: grid_ok_def in_grid_def)

text \<open>The intermediate values of a run that returns.\<close>

lemma resolve_cases:
  assumes "resolveGridLayout request = Inr res"
  obtains st p where
    "validateRequest request = Inr ()"
    "placeTiles request (orderedTiles (gr_tiles request))
       \<lparr>ps_placed = [], ps_relocated = [], ps_hidden = []\<rparr> = Inr st"
    "p = stretchTiles (compactTiles (ps_placed st) (gr_columns request) (gr_maximumRows request))
           (gr_tiles request) (gr_columns request) (gr_maximumRows request)"
    "res_placed res = closeGaps p (gr_tiles request) (gr_columns request) (usedRowsOf p)"
    "res_relocated res = ps_relocated st" "res_hidden res = ps_hidden st"
    "res_usedRows res = usedRowsOf p"
  using assms by (auto simp: resolveGridLayout_def Let_def split: sum.splits)

lemma closeGaps_ids: "map t_id (closeGaps p ds columns rows) = map t_id p"
  by (rule tile_ids.reaches_inv[OF closeGaps_reaches refl])

lemma stretchTiles_ids: "map t_id (stretchTiles p ds columns rows) = map t_id p"
  by (rule tile_ids.reaches_inv[OF stretchTiles_reaches refl])

lemma compactTiles_ids: "map t_id (compactTiles p columns rows) = map t_id p"
  by (rule tile_ids.reaches_inv[OF compactTiles_reaches refl])

lemmas pass_ids = closeGaps_ids stretchTiles_ids compactTiles_ids

text \<open>
  A tile's size stays a declared variant's or within the declared maximum, in each direction.
\<close>

definition cap_ok :: "(string \<Rightarrow> tile_descriptor option) \<Rightarrow> placed_tile \<Rightarrow> bool" where
  "cap_ok byId t \<longleftrightarrow>
     (\<forall>d c. byId (t_id t) = Some d \<longrightarrow> maximumColumnsOf d = Some c \<longrightarrow>
        t_columns t \<le> c \<or> t_columns t \<in> v_columns ` set (td_variants d)) \<and>
     (\<forall>d r. byId (t_id t) = Some d \<longrightarrow> maximumRowsOf d = Some r \<longrightarrow>
        t_rows t \<le> r \<or> t_rows t \<in> v_rows ` set (td_variants d))"

lemma variant_sized_cap_ok: "variant_sized byId t \<Longrightarrow> cap_ok byId t"
  by (auto simp: variant_sized_def cap_ok_def)

lemma cap_ok_move:
  "cap_ok byId t \<Longrightarrow> slid t u \<or> grown_within byId t u \<Longrightarrow> cap_ok byId u"
  by (auto simp: cap_ok_def slid_def grown_within_def)

interpretation caps: invariant_system "\<lambda>p. \<forall>t \<in> set p. cap_ok byId t"
  "tile_step (\<lambda>t u. slid t u \<or> grown_within byId t u) columns rows" "\<lambda>p. \<forall>t \<in> set p. cap_ok byId t"
  for byId columns rows
proof unfold_locales
  fix s t
  assume all: "\<forall>t \<in> set s. cap_ok byId t"
    and "tile_step (\<lambda>t u. slid t u \<or> grown_within byId t u) columns rows s t"
  then obtain i u where "i < length s" "t = s[i := u]" "slid (s ! i) u \<or> grown_within byId (s ! i) u"
    by (auto simp: tile_step_def)
  with all have "cap_ok byId u" by (meson cap_ok_move nth_mem)
  with all \<open>t = s[i := u]\<close> show "\<forall>t \<in> set t. cap_ok byId t"
    using set_update_subset_insert[of s i u] by auto
qed simp

lemma reaches_weaken:
  assumes "reaches (tile_step A columns rows) p q" and "\<And>t u. A t u \<Longrightarrow> B t u"
  shows "reaches (tile_step B columns rows) p q"
  using assms(1)
proof (induction rule: reaches.induct)
  case (reach_refl s)
  then show ?case by (rule reaches.reach_refl)
next
  case (reach_step s t u)
  have "tile_step B columns rows t u"
    using reach_step.hyps(2) assms(2) unfolding tile_step_def by blast
  with reach_step.IH show ?case by (rule reaches.reach_step)
qed

lemma pass_moves:
  "reaches (tile_step (\<lambda>t u. slid t u \<or> grown_within byId t u) columns rows) p (compactTiles p columns rows)"
  "reaches (tile_step (\<lambda>t u. slid t u \<or> grown_within (descriptorById ds) t u) columns rows) p
     (stretchTiles p ds columns rows)"
  "reaches (tile_step (\<lambda>t u. slid t u \<or> grown_within (descriptorById ds) t u) columns rows) p
     (closeGaps p ds columns rows)"
  by (rule reaches_weaken[OF compactTiles_reaches], simp)
     (rule reaches_weaken[OF stretchTiles_reaches], simp, rule reaches_weaken[OF closeGaps_reaches], simp)

lemma initial_placement:
  assumes "validateRequest request = Inr ()"
    and "placeTiles request (orderedTiles (gr_tiles request))
       \<lparr>ps_placed = [], ps_relocated = [], ps_hidden = []\<rparr> = Inr st"
  shows "grid_ok (gr_columns request) (gr_maximumRows request) (ps_placed st) \<and>
    (\<forall>p \<in> set (ps_placed st). variant_sized (descriptorById (gr_tiles request)) p)"
proof -
  have v: "tiles_valid (gr_tiles request)" using validateRequest_ok[OF assms(1)] by simp
  have "mset (map td_id (orderedTiles (gr_tiles request))) = mset (map td_id (gr_tiles request))"
    by (simp add: orderedTiles_mset)
  then have "distinct (map td_id (orderedTiles (gr_tiles request)))"
    using v mset_eq_imp_distinct_iff unfolding tiles_valid_def by blast
  with v show ?thesis
    by (intro placeTiles_ok[OF assms(2)]) (auto simp: descriptorById_mem, auto simp: tiles_valid_def)
qed

text \<open>A loop that stops leaves no growth the search accepts.\<close>

lemma findGrowth_None:
  assumes "findGrowth cell placed byId columns rows = None" and "i < length placed"
  shows "\<not> canGrow (placed ! i) d cell placed (byId (t_id (placed ! i))) columns rows"
proof
  assume cg: "canGrow (placed ! i) d cell placed (byId (t_id (placed ! i))) columns rows"
  have "d \<in> set directions" by (cases d) (auto simp: directions_def)
  with cg assms(2) have "growthCandidates cell placed byId columns rows \<noteq> []"
    by (auto simp: growthCandidates_def Let_def filter_empty_conv)
  with assms(1) show False
    by (auto simp: findGrowth_def Let_def split: option.splits list.splits prod.splits)
qed

lemma firstGrowth_None:
  "firstGrowth cells placed byId columns rows = None \<Longrightarrow> cell \<in> set cells \<Longrightarrow>
     findGrowth cell placed byId columns rows = None"
  by (induction cells) (auto split: option.splits)

lemma closeLoop_stuck:
  "cell \<in> set (emptyCells (closeLoop byId columns rows placed) columns rows) \<Longrightarrow>
   findGrowth cell (closeLoop byId columns rows placed) byId columns rows = None"
proof (induction byId columns rows placed rule: closeLoop.induct)
  case (1 byId columns rows placed)
  show ?case
  proof (cases "firstGrowth (emptyCells placed columns rows) placed byId columns rows")
    case None
    with "1.prems" show ?thesis
      by (auto simp: closeLoop.simps[of byId columns rows placed] dest: firstGrowth_None)
  next
    case (Some g)
    with 1 show ?thesis
      by (cases g) (auto simp: closeLoop.simps[of byId columns rows placed])
  qed
qed

lemma emptyCells_mem:
  "cell \<in> set (emptyCells placed columns rows) \<longleftrightarrow>
     0 \<le> fst cell \<and> fst cell < columns \<and> 0 \<le> snd cell \<and> snd cell < rows \<and>
     (\<forall>t \<in> set placed. \<not> covers t cell)"
  by (cases cell) (force simp: emptyCells_def covers_def Let_def)

lemma stretchFold_sticky:
  "snd s \<Longrightarrow> snd (fold (stretchTile byId columns rows) is s)"
proof (induction "is" arbitrary: s)
  case Nil
  then show ?case by simp
next
  case (Cons i js)
  have "snd (stretchTile byId columns rows i s)"
    using Cons.prems by (auto simp: stretchTile_def Let_def split: prod.splits option.splits)
  then show ?case using Cons.IH by simp
qed

definition can_stretch ::
  "(string \<Rightarrow> tile_descriptor option) \<Rightarrow> int \<Rightarrow> int \<Rightarrow> placed_tile list \<Rightarrow> placed_tile \<Rightarrow> bool" where
  "can_stretch byId columns rows placed t \<longleftrightarrow> (\<exists>d. byId (t_id t) = Some d \<and>
     (td_canStretchHorizontally d \<and>
        t_columns t < (case maximumColumnsOf d of None \<Rightarrow> columns | Some c \<Rightarrow> c) \<and>
        fits (t\<lparr>t_columns := t_columns t + 1\<rparr>) placed columns rows \<or>
      td_canStretchVertically d \<and>
        t_rows t < (case maximumRowsOf d of None \<Rightarrow> rows | Some r \<Rightarrow> r) \<and>
        fits (t\<lparr>t_rows := t_rows t + 1\<rparr>) placed columns rows))"

lemma stretchFold_stuck:
  assumes "fold (stretchTile byId columns rows) is (placed, False) = (placed', False)"
  shows "placed' = placed \<and> (\<forall>i \<in> set is. \<not> can_stretch byId columns rows placed (placed ! i))"
  using assms
proof (induction "is")
  case Nil
  then show ?case by simp
next
  case (Cons i js)
  have "\<not> snd (stretchTile byId columns rows i (placed, False))"
  proof
    assume "snd (stretchTile byId columns rows i (placed, False))"
    then have "snd (fold (stretchTile byId columns rows) (i # js) (placed, False))"
      by (simp add: stretchFold_sticky)
    with Cons.prems show False by simp
  qed
  then have "stretchTile byId columns rows i (placed, False) = (placed, False) \<and>
      \<not> can_stretch byId columns rows placed (placed ! i)"
    by (auto simp: stretchTile_def can_stretch_def Let_def split: option.splits if_splits)
  with Cons show ?case by simp
qed

lemma stretchLoop_stuck:
  "t \<in> set (stretchLoop byId columns rows placed) \<Longrightarrow>
   \<not> can_stretch byId columns rows (stretchLoop byId columns rows placed) t"
proof (induction byId columns rows placed rule: stretchLoop.induct)
  case (1 byId columns rows placed)
  obtain p b where pb: "stretchPass byId columns rows placed = (p, b)" by fastforce
  show ?case
  proof (cases b)
    case True
    with pb have eq: "stretchLoop byId columns rows placed = stretchLoop byId columns rows p"
      by (simp add: stretchLoop.simps[of byId columns rows placed])
    show ?thesis
      using "1.IH"[OF pb[symmetric] True] "1.prems" unfolding eq by blast
  next
    case False
    with pb have "p = placed \<and> (\<forall>i < length placed. \<not> can_stretch byId columns rows placed (placed ! i))"
      unfolding stretchPass_def by (auto dest!: stretchFold_stuck)
    with False pb "1.prems" show ?thesis
      by (auto simp: stretchLoop.simps[of byId columns rows placed] in_set_conv_nth)
  qed
qed

section \<open>A request whose gap no tile can close\<close>

definition plainTile :: "string \<Rightarrow> int \<Rightarrow> int \<Rightarrow> int \<Rightarrow> tile_descriptor" where
  "plainTile i p c r =
     \<lparr>td_id = i, td_priority = of_int p,
      td_variants = [\<lparr>v_columns = c, v_rows = r, v_presentation = Full\<rparr>], td_maximum = None,
      td_canStretchHorizontally = False, td_canStretchVertically = False,
      td_relocationRoute = None, td_hideWhenOverflow = False\<rparr>"

definition pinwheel :: grid_request where
  "pinwheel = \<lparr>gr_columns = 3, gr_maximumRows = 3,
     gr_tiles = [plainTile ''a'' 4 2 1, plainTile ''b'' 3 1 2, plainTile ''c'' 2 1 2,
                 plainTile ''d'' 1 2 1],
     gr_containerWidth = None, gr_minimumTileWidth = None\<rparr>"

definition pinwheel_result :: grid_result where
  "pinwheel_result =
     \<lparr>res_placed =
        [\<lparr>t_id = ''a'', t_x = 0, t_y = 0, t_columns = 2, t_rows = 1, t_presentation = Full\<rparr>,
         \<lparr>t_id = ''b'', t_x = 2, t_y = 0, t_columns = 1, t_rows = 2, t_presentation = Full\<rparr>,
         \<lparr>t_id = ''c'', t_x = 0, t_y = 1, t_columns = 1, t_rows = 2, t_presentation = Full\<rparr>,
         \<lparr>t_id = ''d'', t_x = 1, t_y = 2, t_columns = 2, t_rows = 1, t_presentation = Full\<rparr>],
      res_relocated = [], res_hidden = [], res_usedRows = 3\<rparr>"

lemma pinwheel_run: "resolveGridLayout pinwheel = Inr pinwheel_result"
  by code_simp

section \<open>Properties\<close>

text \<open>
  C2: a layout that \<open>resolveGridLayout\<close> returns is a valid grid: every placed tile has a
  positive size and lies inside the requested columns and rows, the tiles have distinct
  identifiers, and no two of them overlap. The reported \<open>usedRows\<close> stays within the rows on
  offer and no tile reaches past it.
\<close>

theorem resolve_valid_grid:
  assumes "resolveGridLayout request = Inr res"
  shows "grid_ok (gr_columns request) (gr_maximumRows request) (res_placed res) \<and>
    res_usedRows res \<le> gr_maximumRows request \<and>
    (\<forall>t \<in> set (res_placed res). t_y t + t_rows t \<le> res_usedRows res)"
  using assms
proof (rule resolve_cases)
  fix st p
  let ?c = "gr_columns request" and ?r = "gr_maximumRows request"
  assume v: "validateRequest request = Inr ()"
    and st: "placeTiles request (orderedTiles (gr_tiles request))
       \<lparr>ps_placed = [], ps_relocated = [], ps_hidden = []\<rparr> = Inr st"
    and p: "p = stretchTiles (compactTiles (ps_placed st) ?c ?r) (gr_tiles request) ?c ?r"
    and res: "res_placed res = closeGaps p (gr_tiles request) ?c (usedRowsOf p)"
      "res_usedRows res = usedRowsOf p"
  have "grid_ok ?c ?r (ps_placed st)" using initial_placement[OF v st] by simp
  then have "grid_ok ?c ?r (compactTiles (ps_placed st) ?c ?r)"
    by (rule grid.reaches_inv[OF compactTiles_reaches])
  then have ok: "grid_ok ?c ?r p"
    unfolding p by (rule grid.reaches_inv[OF stretchTiles_reaches])
  then have final: "grid_ok ?c (usedRowsOf p) (res_placed res)"
    unfolding res by (intro grid.reaches_inv[OF closeGaps_reaches] grid_ok_usedRows)
  have le: "usedRowsOf p \<le> ?r" using ok validateRequest_ok[OF v] by (simp add: grid_ok_usedRows_le)
  with final show ?thesis
    unfolding res(2) by (auto intro: grid_ok_rows_mono simp: grid_ok_def in_grid_def)
qed

theorem resolve_valid_grid_witness:
  "resolveGridLayout pinwheel = Inr pinwheel_result \<and> grid_ok 3 3 (res_placed pinwheel_result)"
  using pinwheel_run resolve_valid_grid[OF pinwheel_run] by (simp add: pinwheel_def)

text \<open>
  no tile is silently dropped. When \<open>resolveGridLayout\<close> returns, every tile of the
  request is exactly once among the placed, the relocated and the hidden tiles, and nothing
  else is; a relocated tile carries the route its descriptor declares, and a hidden one has
  \<open>hideWhenOverflow\<close>.
\<close>

theorem resolve_partitions_tiles:
  assumes "resolveGridLayout request = Inr res"
  shows "mset (map t_id (res_placed res)) + mset (map fst (res_relocated res)) + mset (res_hidden res)
    = mset (map td_id (gr_tiles request)) \<and>
    (\<forall>(i, r) \<in> set (res_relocated res).
       \<exists>d \<in> set (gr_tiles request). td_id d = i \<and> td_relocationRoute d = Some r) \<and>
    (\<forall>i \<in> set (res_hidden res). \<exists>d \<in> set (gr_tiles request). td_id d = i \<and> td_hideWhenOverflow d)"
  using assms
proof (rule resolve_cases)
  fix st p
  let ?c = "gr_columns request" and ?r = "gr_maximumRows request"
  assume st: "placeTiles request (orderedTiles (gr_tiles request))
       \<lparr>ps_placed = [], ps_relocated = [], ps_hidden = []\<rparr> = Inr st"
    and p: "p = stretchTiles (compactTiles (ps_placed st) ?c ?r) (gr_tiles request) ?c ?r"
    and res: "res_placed res = closeGaps p (gr_tiles request) ?c (usedRowsOf p)"
      "res_relocated res = ps_relocated st" "res_hidden res = ps_hidden st"
  have "map t_id (res_placed res) = map t_id (ps_placed st)"
    unfolding res p by (simp add: pass_ids)
  moreover have "st_ids st = mset (map td_id (orderedTiles (gr_tiles request)))"
    using placeTiles_ids[OF st] by (simp add: st_ids_def)
  moreover have "(\<forall>(i, r) \<in> set (ps_relocated st).
       \<exists>d \<in> set (gr_tiles request). td_id d = i \<and> td_relocationRoute d = Some r) \<and>
    (\<forall>i \<in> set (ps_hidden st). \<exists>d \<in> set (gr_tiles request). td_id d = i \<and> td_hideWhenOverflow d)"
    by (rule placeTiles_policy[OF st]) auto
  ultimately show ?thesis
    unfolding res(2,3) by (simp add: st_ids_def orderedTiles_mset)
qed

theorem resolve_partitions_tiles_witness:
  "mset (map t_id (res_placed pinwheel_result)) + mset (map fst (res_relocated pinwheel_result))
     + mset (res_hidden pinwheel_result) = mset [''a'', ''b'', ''c'', ''d'']"
  using resolve_partitions_tiles[OF pinwheel_run, THEN conjunct1]
  by (simp add: pinwheel_def plainTile_def)

text \<open>
  what \<open>closeGaps\<close> achieves. In a returned layout, when a cell of the rows in use is
  empty, no placed tile could have been grown by one row or column over it: the growth would
  exceed the maximum the tile's descriptor declares, or it does not fit (it leaves the grid
  or runs into another tile).
\<close>

theorem resolve_gaps_unclosable:
  assumes "resolveGridLayout request = Inr res"
    and "0 \<le> x" "x < gr_columns request" "0 \<le> y" "y < res_usedRows res"
    and "\<forall>t \<in> set (res_placed res). \<not> covers t (x, y)"
    and "t \<in> set (res_placed res)" and "covers (growth t d) (x, y)"
  shows "(\<exists>cap. growthCap (descriptorById (gr_tiles request) (t_id t)) d = Some cap \<and>
            (if horizontal d then t_columns (growth t d) else t_rows (growth t d)) > cap) \<or>
    \<not> fits (growth t d) (res_placed res) (gr_columns request) (res_usedRows res)"
  using assms(1)
proof (rule resolve_cases)
  fix p
  let ?c = "gr_columns request" and ?ds = "descriptorById (gr_tiles request)"
  assume res: "res_placed res = closeGaps p (gr_tiles request) ?c (usedRowsOf p)"
      "res_usedRows res = usedRowsOf p"
  have "(x, y) \<in> set (emptyCells (res_placed res) ?c (usedRowsOf p))"
    using assms(2-6) by (simp add: emptyCells_mem res(2))
  then have "findGrowth (x, y) (res_placed res) ?ds ?c (usedRowsOf p) = None"
    unfolding res closeGaps_def by (rule closeLoop_stuck)
  moreover obtain i where "i < length (res_placed res)" "res_placed res ! i = t"
    using assms(7) by (auto simp: in_set_conv_nth)
  ultimately have "\<not> canGrow t d (x, y) (res_placed res) (?ds (t_id t)) ?c (usedRowsOf p)"
    using findGrowth_None by blast
  with assms(8) show ?thesis
    by (auto simp: canGrow_def Let_def res(2) split: option.splits if_splits)
qed

theorem resolve_gaps_unclosable_witness:
  "\<not> fits (growth (res_placed pinwheel_result ! 0) GDown) (res_placed pinwheel_result) 3 3"
proof -
  have "(\<exists>cap. growthCap (descriptorById (gr_tiles pinwheel) (t_id (res_placed pinwheel_result ! 0))) GDown
            = Some cap \<and> (if horizontal GDown
              then t_columns (growth (res_placed pinwheel_result ! 0) GDown)
              else t_rows (growth (res_placed pinwheel_result ! 0) GDown)) > cap) \<or>
      \<not> fits (growth (res_placed pinwheel_result ! 0) GDown) (res_placed pinwheel_result)
           (gr_columns pinwheel) (res_usedRows pinwheel_result)"
    by (rule resolve_gaps_unclosable[OF pinwheel_run, of 1 1])
       (auto simp: pinwheel_def pinwheel_result_def covers_def)
  then show ?thesis
    by (simp add: pinwheel_def pinwheel_result_def plainTile_def descriptorById_def growthCap_def
                  horizontal_def maximumRowsOf_def)
qed

text \<open>
  the comment on \<open>resolveGridLayout\<close> promises that the grid has no empty cell unless every
  tile touching the cell has reached its declared \<open>maximum\<close>. The code does not keep that
  promise: four tiles of a 3 by 3 grid, none with a maximum, leave the middle cell empty,
  because every growth over it runs into a neighbour.
\<close>

theorem pinwheel_leaves_a_gap:
  "resolveGridLayout pinwheel = Inr pinwheel_result \<and>
   (\<forall>t \<in> set (gr_tiles pinwheel). td_maximum t = None) \<and>
   res_usedRows pinwheel_result = 3 \<and>
   (\<forall>t \<in> set (res_placed pinwheel_result). \<not> covers t (1, 1)) \<and>
   (\<exists>t \<in> set (res_placed pinwheel_result). \<exists>d. covers (growth t d) (1, 1))"
proof -
  have "\<exists>t \<in> set (res_placed pinwheel_result). \<exists>d. covers (growth t d) (1, 1)"
    by (auto simp: pinwheel_result_def covers_def intro!: exI[of _ GDown])
  then show ?thesis
    using pinwheel_run by (simp add: pinwheel_def plainTile_def pinwheel_result_def covers_def)
qed

theorem pinwheel_leaves_a_gap_witness:
  "(1, 1) \<in> set (emptyCells (res_placed pinwheel_result) 3 (res_usedRows pinwheel_result))"
  using pinwheel_leaves_a_gap by (simp add: emptyCells_mem)

text \<open>
  no pass grows a tile past the \<open>maximum\<close> its descriptor declares. In a returned layout
  a tile's columns are at most its maximum columns, unless they are the columns of one of its
  own variants; and the same for rows.
\<close>

theorem resolve_respects_maximum:
  assumes "resolveGridLayout request = Inr res"
    and "t \<in> set (res_placed res)" and "d \<in> set (gr_tiles request)" and "td_id d = t_id t"
  shows "(\<forall>c. maximumColumnsOf d = Some c \<longrightarrow>
            t_columns t \<le> c \<or> t_columns t \<in> v_columns ` set (td_variants d)) \<and>
    (\<forall>r. maximumRowsOf d = Some r \<longrightarrow> t_rows t \<le> r \<or> t_rows t \<in> v_rows ` set (td_variants d))"
  using assms(1)
proof (rule resolve_cases)
  fix st p
  let ?c = "gr_columns request" and ?r = "gr_maximumRows request"
  let ?ds = "descriptorById (gr_tiles request)"
  assume v: "validateRequest request = Inr ()"
    and st: "placeTiles request (orderedTiles (gr_tiles request))
       \<lparr>ps_placed = [], ps_relocated = [], ps_hidden = []\<rparr> = Inr st"
    and p: "p = stretchTiles (compactTiles (ps_placed st) ?c ?r) (gr_tiles request) ?c ?r"
    and res: "res_placed res = closeGaps p (gr_tiles request) ?c (usedRowsOf p)"
  have "\<forall>t \<in> set (ps_placed st). cap_ok ?ds t"
    using initial_placement[OF v st] variant_sized_cap_ok by blast
  then have "\<forall>t \<in> set (compactTiles (ps_placed st) ?c ?r). cap_ok ?ds t"
    by (rule caps.reaches_inv[OF pass_moves(1)])
  then have "\<forall>t \<in> set p. cap_ok ?ds t"
    unfolding p by (rule caps.reaches_inv[OF pass_moves(2)])
  then have "\<forall>t \<in> set (res_placed res). cap_ok ?ds t"
    unfolding res by (rule caps.reaches_inv[OF pass_moves(3)])
  moreover have "?ds (t_id t) = Some d"
    using descriptorById_mem[OF _ assms(3)] validateRequest_ok[OF v] assms(4) by simp
  ultimately show ?thesis using assms(2) by (simp add: cap_ok_def)
qed

definition cappedRequest :: grid_request where
  "cappedRequest = \<lparr>gr_columns = 4, gr_maximumRows = 2,
     gr_tiles = [(plainTile ''a'' 2 1 1)\<lparr>td_maximum := Some \<lparr>cap_columns = Some 2, cap_rows = None\<rparr>,
                   td_canStretchHorizontally := True\<rparr>],
     gr_containerWidth = None, gr_minimumTileWidth = None\<rparr>"

theorem resolve_respects_maximum_witness:
  "resolveGridLayout cappedRequest = Inr
     \<lparr>res_placed = [\<lparr>t_id = ''a'', t_x = 0, t_y = 0, t_columns = 2, t_rows = 1, t_presentation = Full\<rparr>],
      res_relocated = [], res_hidden = [], res_usedRows = 1\<rparr> \<and> (2::int) \<le> 2"
proof -
  have run: "resolveGridLayout cappedRequest = Inr
     \<lparr>res_placed = [\<lparr>t_id = ''a'', t_x = 0, t_y = 0, t_columns = 2, t_rows = 1, t_presentation = Full\<rparr>],
      res_relocated = [], res_hidden = [], res_usedRows = 1\<rparr>"
    by code_simp
  show ?thesis
    using run resolve_respects_maximum[OF run, of "\<lparr>t_id = ''a'', t_x = 0, t_y = 0, t_columns = 2,
        t_rows = 1, t_presentation = Full\<rparr>" "hd (gr_tiles cappedRequest)"]
    by (simp add: cappedRequest_def plainTile_def)
qed

text \<open>
  \<open>LayoutOverflowError\<close> is thrown for a tile exactly when its descriptor has neither a
  relocation route nor permission to be hidden, and no position of any of its variants is
  free in the grid, the width floor disregarded. So the floor alone never fails a layout.
\<close>

theorem placeTile_throws_iff:
  "placeTile request tile st = Inl e \<longleftrightarrow>
     e = LayoutOverflowError (td_id tile) (gr_columns request) (gr_maximumRows request) \<and>
     td_relocationRoute tile = None \<and> \<not> td_hideWhenOverflow tile \<and>
     (\<forall>v \<in> set (td_variants tile). \<forall>x y.
        0 \<le> x \<and> 0 \<le> y \<and> x + v_columns v \<le> gr_columns request \<and>
        y + v_rows v \<le> gr_maximumRows request \<longrightarrow>
        overlapsAny (candidateAt tile v x y) (ps_placed st))"
proof -
  let ?c = "gr_columns request" and ?r = "gr_maximumRows request"
  have floor: "findPlacement tile placed ?c ?r None None = None \<Longrightarrow>
      findPlacement tile placed ?c ?r cw mw = None" for placed cw mw
    unfolding findPlacement_def findInVariants_None placeable_def belowFloor_def by auto
  have none: "findPlacement tile (ps_placed st) ?c ?r None None = None \<longleftrightarrow>
     (\<forall>v \<in> set (td_variants tile). \<forall>x y. 0 \<le> x \<and> 0 \<le> y \<and> x + v_columns v \<le> ?c \<and>
        y + v_rows v \<le> ?r \<longrightarrow> overlapsAny (candidateAt tile v x y) (ps_placed st))"
    unfolding findPlacement_def findInVariants_None placeable_def belowFloor_def by auto
  show ?thesis
    unfolding none[symmetric] placeTile_def Let_def
    using floor by (auto split: option.splits if_splits)
qed

theorem placeTile_throws_iff_witness:
  "placeTile (pinwheel\<lparr>gr_columns := 1\<rparr>) (plainTile ''a'' 4 2 1)
     \<lparr>ps_placed = [], ps_relocated = [], ps_hidden = []\<rparr> = Inl (LayoutOverflowError ''a'' 1 3)"
  unfolding placeTile_throws_iff by (auto simp: pinwheel_def plainTile_def)

text \<open>
  \<open>findPlacement\<close> returns the richest variant that fits. The tile it returns is a variant
  of the descriptor at a free position inside the grid, clear of the width floor, and every
  variant listed before that one has no acceptable position; and it returns nothing only when
  no variant has one.
\<close>

theorem findPlacement_richest_fit:
  "case findPlacement tile placed columns rows cw mw of
     None \<Rightarrow> \<forall>v \<in> set (td_variants tile). \<not> placeable tile v placed columns rows cw mw
   | Some c \<Rightarrow> \<exists>us v ws x y. td_variants tile = us @ v # ws \<and> c = candidateAt tile v x y \<and>
       0 \<le> x \<and> 0 \<le> y \<and> x + v_columns v \<le> columns \<and> y + v_rows v \<le> rows \<and>
       \<not> overlapsAny c placed \<and> \<not> belowFloor v cw mw \<and>
       (\<forall>u \<in> set us. \<not> placeable tile u placed columns rows cw mw)"
proof (cases "findPlacement tile placed columns rows cw mw")
  case None
  then have "\<forall>v \<in> set (td_variants tile). \<not> placeable tile v placed columns rows cw mw"
    unfolding findPlacement_def by (simp add: findInVariants_None)
  with None show ?thesis by simp
next
  case (Some c)
  with findInVariants_Some[OF Some[unfolded findPlacement_def]] show ?thesis by simp
qed

theorem findPlacement_richest_fit_witness:
  "findPlacement (plainTile ''a'' 4 2 1) [] 3 3 None None
     = Some (candidateAt (plainTile ''a'' 4 2 1) \<lparr>v_columns = 2, v_rows = 1, v_presentation = Full\<rparr> 0 0)
   \<and> (case findPlacement (plainTile ''a'' 4 2 1) [] 3 3 None None of
        None \<Rightarrow> False | Some c \<Rightarrow> \<not> overlapsAny c [])"
proof -
  have run: "findPlacement (plainTile ''a'' 4 2 1) [] 3 3 None None
     = Some (candidateAt (plainTile ''a'' 4 2 1) \<lparr>v_columns = 2, v_rows = 1, v_presentation = Full\<rparr> 0 0)"
    by code_simp
  show ?thesis
    using run findPlacement_richest_fit[of "plainTile ''a'' 4 2 1" "[]" 3 3 None None] by auto
qed

text \<open>
  C30: after \<open>stretchTiles\<close>, no tile that asked to be stretched can still be: growing it by one
  column or row in a direction it opted into would pass its maximum or not fit. Together with
  the definition by \<open>function\<close>, the fixpoint loop always ends there.
\<close>

theorem stretchTiles_exhausts_opt_ins:
  "t \<in> set (stretchTiles placed descriptors columns rows) \<Longrightarrow>
   descriptorById descriptors (t_id t) = Some d \<Longrightarrow>
   (td_canStretchHorizontally d \<longrightarrow>
      (case maximumColumnsOf d of None \<Rightarrow> columns | Some c \<Rightarrow> c) \<le> t_columns t \<or>
      \<not> fits (t\<lparr>t_columns := t_columns t + 1\<rparr>) (stretchTiles placed descriptors columns rows) columns rows) \<and>
   (td_canStretchVertically d \<longrightarrow>
      (case maximumRowsOf d of None \<Rightarrow> rows | Some r \<Rightarrow> r) \<le> t_rows t \<or>
      \<not> fits (t\<lparr>t_rows := t_rows t + 1\<rparr>) (stretchTiles placed descriptors columns rows) columns rows)"
  using stretchLoop_stuck[of t "descriptorById descriptors" columns rows placed]
  unfolding stretchTiles_def can_stretch_def by auto

theorem stretchTiles_exhausts_opt_ins_witness:
  "stretchTiles [candidateAt (hd (gr_tiles cappedRequest)) (hd (td_variants (hd (gr_tiles cappedRequest)))) 0 0]
     (gr_tiles cappedRequest) 4 2
   = [\<lparr>t_id = ''a'', t_x = 0, t_y = 0, t_columns = 2, t_rows = 1, t_presentation = Full\<rparr>] \<and>
   maximumColumnsOf (hd (gr_tiles cappedRequest)) = Some 2"
proof -
  let ?p = "[candidateAt (hd (gr_tiles cappedRequest)) (hd (td_variants (hd (gr_tiles cappedRequest)))) 0 0]"
  have run: "stretchTiles ?p (gr_tiles cappedRequest) 4 2
   = [\<lparr>t_id = ''a'', t_x = 0, t_y = 0, t_columns = 2, t_rows = 1, t_presentation = Full\<rparr>]"
    by code_simp
  show ?thesis
    using run stretchTiles_exhausts_opt_ins[of "\<lparr>t_id = ''a'', t_x = 0, t_y = 0, t_columns = 2,
        t_rows = 1, t_presentation = Full\<rparr>" ?p "gr_tiles cappedRequest" 4 2 "hd (gr_tiles cappedRequest)"]
    by (simp add: cappedRequest_def plainTile_def maximumColumnsOf_def descriptorById_def)
qed

end
