(* ===== verification/Receipts.thy ===== *)
theory Receipts
  imports HQ_Prelude
begin

text \<open>
  Idempotency receipts and page sizes: \<open>apps/control-plane/src/sync/receipts.ts\<close> and
  \<open>sync/paging.ts\<close>. The request identifier, the length-prefixed encodings a receipt is
  keyed and fingerprinted by, and the bound on a requested page.
\<close>

section \<open>Scopes\<close>

datatype mutation_scope =
    CREATE_GROUP
  | CREATE_PAIRING_CODE
  | PAIR_DEVICE
  | REFRESH_DEVICE_SESSION
  | REVOKE_DEVICE
  | UPDATE_GROUP
  | JOIN_GROUP
  | LEAVE_GROUP
  | SET_DEVICE_ROLE
  | SET_AUTHORITY_MODE
  | SET_LEADER
  | PUBLISH_DOCUMENT_DELTA
  | PUBLISH_SESSION_COMMAND
  | APPLY_SETTINGS_PATCH
  | PUBLISH_SETTINGS_DRAFT
  | DISCARD_SETTINGS_DRAFT
  | RESET_SETTINGS
  | IMPORT_SETTINGS
  | REVERT_SETTINGS_VERSION
  | PUT_LAYOUT_DOCUMENT
  | BEGIN_MATERIAL_UPLOAD
  | COMPLETE_MATERIAL_UPLOAD
  | CANCEL_MATERIAL_UPLOAD
  | CREATE_MATERIAL_VERSION
  | UPDATE_MATERIAL_METADATA
  | TRASH_MATERIAL
  | RESTORE_MATERIAL
  | PURGE_MATERIAL
  | PUT_SIMULATION_PROFILE
  | DELETE_SIMULATION_PROFILE
  | ENQUEUE_INTEGRATION_JOB
  | PUT_GITHUB_INSTALLATION
  | PROPOSE_TRANSLATION
  | UPDATE_TRANSLATION_PROPOSAL

fun scope_name :: "mutation_scope \<Rightarrow> string" where
  "scope_name CREATE_GROUP = ''CREATE_GROUP''"
| "scope_name CREATE_PAIRING_CODE = ''CREATE_PAIRING_CODE''"
| "scope_name PAIR_DEVICE = ''PAIR_DEVICE''"
| "scope_name REFRESH_DEVICE_SESSION = ''REFRESH_DEVICE_SESSION''"
| "scope_name REVOKE_DEVICE = ''REVOKE_DEVICE''"
| "scope_name UPDATE_GROUP = ''UPDATE_GROUP''"
| "scope_name JOIN_GROUP = ''JOIN_GROUP''"
| "scope_name LEAVE_GROUP = ''LEAVE_GROUP''"
| "scope_name SET_DEVICE_ROLE = ''SET_DEVICE_ROLE''"
| "scope_name SET_AUTHORITY_MODE = ''SET_AUTHORITY_MODE''"
| "scope_name SET_LEADER = ''SET_LEADER''"
| "scope_name PUBLISH_DOCUMENT_DELTA = ''PUBLISH_DOCUMENT_DELTA''"
| "scope_name PUBLISH_SESSION_COMMAND = ''PUBLISH_SESSION_COMMAND''"
| "scope_name APPLY_SETTINGS_PATCH = ''APPLY_SETTINGS_PATCH''"
| "scope_name PUBLISH_SETTINGS_DRAFT = ''PUBLISH_SETTINGS_DRAFT''"
| "scope_name DISCARD_SETTINGS_DRAFT = ''DISCARD_SETTINGS_DRAFT''"
| "scope_name RESET_SETTINGS = ''RESET_SETTINGS''"
| "scope_name IMPORT_SETTINGS = ''IMPORT_SETTINGS''"
| "scope_name REVERT_SETTINGS_VERSION = ''REVERT_SETTINGS_VERSION''"
| "scope_name PUT_LAYOUT_DOCUMENT = ''PUT_LAYOUT_DOCUMENT''"
| "scope_name BEGIN_MATERIAL_UPLOAD = ''BEGIN_MATERIAL_UPLOAD''"
| "scope_name COMPLETE_MATERIAL_UPLOAD = ''COMPLETE_MATERIAL_UPLOAD''"
| "scope_name CANCEL_MATERIAL_UPLOAD = ''CANCEL_MATERIAL_UPLOAD''"
| "scope_name CREATE_MATERIAL_VERSION = ''CREATE_MATERIAL_VERSION''"
| "scope_name UPDATE_MATERIAL_METADATA = ''UPDATE_MATERIAL_METADATA''"
| "scope_name TRASH_MATERIAL = ''TRASH_MATERIAL''"
| "scope_name RESTORE_MATERIAL = ''RESTORE_MATERIAL''"
| "scope_name PURGE_MATERIAL = ''PURGE_MATERIAL''"
| "scope_name PUT_SIMULATION_PROFILE = ''PUT_SIMULATION_PROFILE''"
| "scope_name DELETE_SIMULATION_PROFILE = ''DELETE_SIMULATION_PROFILE''"
| "scope_name ENQUEUE_INTEGRATION_JOB = ''ENQUEUE_INTEGRATION_JOB''"
| "scope_name PUT_GITHUB_INSTALLATION = ''PUT_GITHUB_INSTALLATION''"
| "scope_name PROPOSE_TRANSLATION = ''PROPOSE_TRANSLATION''"
| "scope_name UPDATE_TRANSLATION_PROPOSAL = ''UPDATE_TRANSLATION_PROPOSAL''"

section \<open>Encodings\<close>

definition maxRequestIdLength :: nat where
  "maxRequestIdLength = 200"

datatype request_id_error = MutationRequestIdError

definition normalizeRequestId :: "string option \<Rightarrow> request_id_error + string option" where
  "normalizeRequestId value =
     (let normalized = (case value of None \<Rightarrow> [] | Some v \<Rightarrow> js_trim v) in
      if length normalized = 0 then Inr None
      else if length normalized > maxRequestIdLength then Inl MutationRequestIdError
      else Inr (Some normalized))"

definition encodePart :: "string \<Rightarrow> string" where
  "encodePart value = decimal (length value) @ '':'' @ value @ ''|''"

definition encodeFingerprintPayload :: "mutation_scope \<Rightarrow> (string \<times> string) list \<Rightarrow> string" where
  "encodeFingerprintPayload scope fields =
     encodePart (scope_name scope) @
     concat (map (\<lambda>(name, value). encodePart name @ encodePart value) fields)"

definition encodeRequestIdPayload :: "mutation_scope \<Rightarrow> string \<Rightarrow> string" where
  "encodeRequestIdPayload scope requestId = encodePart (scope_name scope) @ encodePart requestId"

section \<open>Page sizes\<close>

datatype page_size_error = PageSizeOutOfRange nat

text \<open>
  \<open>normalizePageSize\<close>; the request is an integer (\<open>Number.isSafeInteger\<close> rejects the rest, and
  an integer beyond \<open>2 ^ 53 - 1\<close> is beyond every \<open>maxPageSize\<close> here).
\<close>

definition normalizePageSize :: "int \<Rightarrow> nat \<Rightarrow> nat \<Rightarrow> page_size_error + nat" where
  "normalizePageSize requested defaultPageSize maxPageSize =
     (if requested = 0 then Inr defaultPageSize
      else if \<bar>requested\<bar> > 9007199254740991 \<or> requested < 1 \<or> requested > int maxPageSize
      then Inl (PageSizeOutOfRange maxPageSize)
      else Inr (nat requested))"

section \<open>The encodings are unambiguous\<close>

definition allScopes :: "mutation_scope list" where
  "allScopes =
     [CREATE_GROUP, CREATE_PAIRING_CODE, PAIR_DEVICE,
      REFRESH_DEVICE_SESSION, REVOKE_DEVICE, UPDATE_GROUP,
      JOIN_GROUP, LEAVE_GROUP, SET_DEVICE_ROLE,
      SET_AUTHORITY_MODE, SET_LEADER, PUBLISH_DOCUMENT_DELTA,
      PUBLISH_SESSION_COMMAND, APPLY_SETTINGS_PATCH, PUBLISH_SETTINGS_DRAFT,
      DISCARD_SETTINGS_DRAFT, RESET_SETTINGS, IMPORT_SETTINGS,
      REVERT_SETTINGS_VERSION, PUT_LAYOUT_DOCUMENT, BEGIN_MATERIAL_UPLOAD,
      COMPLETE_MATERIAL_UPLOAD, CANCEL_MATERIAL_UPLOAD, CREATE_MATERIAL_VERSION,
      UPDATE_MATERIAL_METADATA, TRASH_MATERIAL, RESTORE_MATERIAL,
      PURGE_MATERIAL, PUT_SIMULATION_PROFILE, DELETE_SIMULATION_PROFILE,
      ENQUEUE_INTEGRATION_JOB, PUT_GITHUB_INSTALLATION, PROPOSE_TRANSLATION,
      UPDATE_TRANSLATION_PROPOSAL]"

lemma allScopes_complete: "s \<in> set allScopes"
  by (cases s) (simp_all add: allScopes_def)

lemma allScopes_names: "distinct (map scope_name allScopes)"
  by code_simp

lemma scope_name_inject [simp]: "scope_name a = scope_name b \<longleftrightarrow> a = b"
  using allScopes_names allScopes_complete by (auto simp: distinct_map inj_on_def)

lemma colon_not_digit [simp]: "\<not> is_digit (CHR '':'')"
  by (simp add: is_digit_def)

lemma takeWhile_decimal: "takeWhile is_digit (decimal n @ CHR '':'' # r) = decimal n"
  using decimal_digits[of n] by (subst takeWhile_append2) auto

lemma dropWhile_decimal: "dropWhile is_digit (decimal n @ CHR '':'' # r) = CHR '':'' # r"
  using decimal_digits[of n] by (subst dropWhile_append2) auto

text \<open>A reader for one part, and that it recovers what \<open>encodePart\<close> wrote.\<close>

definition readPart :: "string \<Rightarrow> string \<times> string" where
  "readPart s =
     (let n = undecimal (takeWhile is_digit s); r = tl (dropWhile is_digit s)
      in (take n r, drop (n + 1) r))"

lemma readPart_encodePart: "readPart (encodePart v @ r) = (v, r)"
proof -
  have form: "encodePart v @ r = decimal (length v) @ CHR '':'' # (v @ ''|'' @ r)"
    by (simp add: encodePart_def)
  show ?thesis
    unfolding readPart_def form takeWhile_decimal dropWhile_decimal Let_def by simp
qed

lemma encodePart_append_inject:
  "encodePart a @ x = encodePart b @ y \<longleftrightarrow> a = b \<and> x = y"
  by (metis readPart_encodePart prod.inject)

lemma encodePart_nonempty [simp]: "encodePart v \<noteq> []"
  by (simp add: encodePart_def)

lemma concat_parts_inject:
  "concat (map encodePart xs) = concat (map encodePart ys) \<longleftrightarrow> xs = ys"
proof
  assume "concat (map encodePart xs) = concat (map encodePart ys)"
  then show "xs = ys"
  proof (induction xs arbitrary: ys)
    case Nil
    then show ?case by (cases ys) auto
  next
    case (Cons x xs)
    then show ?case by (cases ys) (auto simp: encodePart_append_inject)
  qed
qed simp

definition fingerprintParts :: "mutation_scope \<Rightarrow> (string \<times> string) list \<Rightarrow> string list" where
  "fingerprintParts scope fields = scope_name scope # concat (map (\<lambda>(n, v). [n, v]) fields)"

lemma encodeFingerprintPayload_parts:
  "encodeFingerprintPayload scope fields = concat (map encodePart (fingerprintParts scope fields))"
  unfolding encodeFingerprintPayload_def fingerprintParts_def
  by (induction fields) auto

lemma encodeRequestIdPayload_parts:
  "encodeRequestIdPayload scope requestId = concat (map encodePart [scope_name scope, requestId])"
  by (simp add: encodeRequestIdPayload_def)

lemma pairs_inject:
  "concat (map (\<lambda>(n, v). [n, v]) xs) = concat (map (\<lambda>(n, v). [n, v]) ys) \<longleftrightarrow> xs = ys"
proof
  assume "concat (map (\<lambda>(n, v). [n, v]) xs) = concat (map (\<lambda>(n, v). [n, v]) ys)"
  then show "xs = ys"
  proof (induction xs arbitrary: ys)
    case Nil
    then show ?case by (cases ys) auto
  next
    case (Cons x xs)
    then show ?case by (cases x; cases ys) auto
  qed
qed simp

lemma length_pairs: "length (concat (map (\<lambda>(n, v). [n, v]) fields)) = 2 * length fields"
  by (induction fields) auto

lemma fingerprint_inject:
  "encodeFingerprintPayload s f = encodeFingerprintPayload s' f' \<longleftrightarrow> s = s' \<and> f = f'"
  unfolding encodeFingerprintPayload_parts concat_parts_inject fingerprintParts_def
  by (simp add: pairs_inject)

lemma request_id_inject:
  "encodeRequestIdPayload s r = encodeRequestIdPayload s' r' \<longleftrightarrow> s = s' \<and> r = r'"
  unfolding encodeRequestIdPayload_parts concat_parts_inject by simp

lemma request_id_not_fingerprint:
  "encodeRequestIdPayload s r \<noteq> encodeFingerprintPayload s' f"
proof
  assume "encodeRequestIdPayload s r = encodeFingerprintPayload s' f"
  then have "length [scope_name s, r] = length (fingerprintParts s' f)"
    unfolding encodeRequestIdPayload_parts encodeFingerprintPayload_parts concat_parts_inject by simp
  then have "2 = Suc (2 * length f)" by (simp add: fingerprintParts_def length_pairs)
  then show False by presburger
qed

section \<open>Properties\<close>

text \<open>
  C31: the receipt encodings cannot be confused. Two requests have the same fingerprint
  payload only if they have the same scope and the same fields with the same names, values
  and order; two receipt keys agree only for the same scope and request identifier; and a
  key payload is never a fingerprint payload. So no field value can imitate a field boundary,
  whatever characters it holds.
\<close>

theorem receipt_encodings_unambiguous:
  "(encodeFingerprintPayload s f = encodeFingerprintPayload s' f' \<longleftrightarrow> s = s' \<and> f = f') \<and>
   (encodeRequestIdPayload s r = encodeRequestIdPayload s' r' \<longleftrightarrow> s = s' \<and> r = r') \<and>
   encodeRequestIdPayload s r \<noteq> encodeFingerprintPayload s' f'"
  by (intro conjI fingerprint_inject request_id_inject request_id_not_fingerprint)

text \<open>
  a request identifier is accepted exactly when its trimmed form has at most 200
  characters; an absent or blank one disables receipts instead of failing, an accepted one is
  trimmed, and normalizing it again changes nothing.
\<close>

theorem normalizeRequestId_spec:
  "(normalizeRequestId v = Inl e \<longleftrightarrow> (\<exists>s. v = Some s \<and> 200 < length (js_trim s))) \<and>
   (normalizeRequestId v = Inr None \<longleftrightarrow> v = None \<or> (\<exists>s. v = Some s \<and> js_trim s = [])) \<and>
   (normalizeRequestId v = Inr (Some r) \<longrightarrow>
      r \<noteq> [] \<and> length r \<le> 200 \<and> normalizeRequestId (Some r) = Inr (Some r))"
proof -
  have "normalizeRequestId (Some (js_trim s)) = normalizeRequestId (Some s)" for s
    by (simp add: normalizeRequestId_def)
  then show ?thesis
    by (cases v; cases e) (auto simp: normalizeRequestId_def maxRequestIdLength_def Let_def)
qed

theorem normalizeRequestId_spec_witness:
  "normalizeRequestId (Some '' abc '') = Inr (Some ''abc'') \<and>
   normalizeRequestId (Some ''abc'') = Inr (Some ''abc'')"
proof -
  have run: "normalizeRequestId (Some '' abc '') = Inr (Some ''abc'')" by code_simp
  show ?thesis
    using run normalizeRequestId_spec[of "Some '' abc ''" MutationRequestIdError "''abc''"] by simp
qed

text \<open>
  a page size is never clamped. Zero means the default, a request between 1 and the
  maximum is taken as it is, and every other request is refused.
\<close>

theorem normalizePageSize_spec:
  assumes "int mx \<le> 9007199254740991"
  shows "(requested = 0 \<longrightarrow> normalizePageSize requested df mx = Inr df) \<and>
    (1 \<le> requested \<and> requested \<le> int mx \<longrightarrow> normalizePageSize requested df mx = Inr (nat requested)) \<and>
    (requested < 0 \<or> requested > int mx \<longrightarrow>
       normalizePageSize requested df mx = Inl (PageSizeOutOfRange mx))"
  using assms by (auto simp: normalizePageSize_def)

theorem normalizePageSize_spec_witness:
  "normalizePageSize 5000 50 100 = Inl (PageSizeOutOfRange 100)"
  using normalizePageSize_spec[of 100 5000 50] by simp

end
