(* ===== verification/Paired_Runtime.thy ===== *)
theory Paired_Runtime
  imports HQ_Prelude Receipts "HOL-Library.Word"
begin

unbundle bit_operations_syntax

text \<open>
  The paired-device runtime, \<open>apps/control-plane/src/sync/runtime.ts\<close>: groups, devices,
  memberships, pairing codes, sessions and mutation receipts, and every public and private
  method of \<open>PairedDeviceRuntime\<close>.

  A method is a computation of the state-and-exception monad over the record \<open>runtime\<close>; the
  writes it made before a \<open>throw\<close> stay. Session objects are shared between three maps and
  compared by reference, so they live in a heap (\<open>rt_sessions\<close>) and the maps hold addresses.
  The other objects are reached through one map each and are updated there. Times are
  milliseconds (\<open>int\<close>); revisions are \<open>bigint\<close>s (\<open>int\<close>).

  What is not source code is a field of \<open>rt_env\<close>: the clock \<open>now\<close> (\<open>None\<close> is an invalid
  date; it may answer each read differently), \<open>randomBytes\<close>, the HMAC of \<open>node:crypto\<close>, the
  \<open>base64url\<close> and cursor codecs of \<open>Buffer\<close>, and \<open>localeCompare\<close>.
\<close>

section \<open>Data\<close>

datatype device_role = VIEWER | EDITOR | ADMIN
datatype pairing_role = PAIR_VIEWER | PAIR_EDITOR
datatype device_status = OFFLINE | ONLINE | REVOKED
datatype authority_mode = LEADER | MULTI_AUTHORITY

fun role_of_pairing :: "pairing_role \<Rightarrow> device_role" where
  "role_of_pairing PAIR_VIEWER = VIEWER"
| "role_of_pairing PAIR_EDITOR = EDITOR"

fun pairing_role_name :: "pairing_role \<Rightarrow> string" where
  "pairing_role_name PAIR_VIEWER = ''VIEWER''"
| "pairing_role_name PAIR_EDITOR = ''EDITOR''"

record paired_group =
  g_id :: string
  g_name :: string
  g_authorityMode :: authority_mode
  g_leaderDeviceId :: string
  g_revision :: int
  g_createdAt :: int
  g_updatedAt :: int

record paired_device =
  pd_id :: string
  pd_name :: string
  pd_publicKey :: string
  pd_role :: device_role
  pd_status :: device_status
  pd_platform :: string
  pd_applicationVersion :: string
  pd_createdAt :: int
  pd_lastSeenAt :: int

record session_envelope =
  se_accessToken :: string
  se_refreshToken :: string
  se_accessTokenExpiresAt :: int
  se_refreshTokenExpiresAt :: int
  se_deviceId :: string
  se_groupId :: string
  se_role :: device_role

record authenticated_device =
  au_group :: paired_group
  au_device :: paired_device
  au_role :: device_role
  au_sessionId :: string
  au_accessTokenId :: string

record device_input =
  di_name :: string
  di_publicKey :: string
  di_platform :: string
  di_applicationVersion :: string

record pairing_code_grant =
  pg_code :: string
  pg_groupId :: string
  pg_role :: pairing_role
  pg_expiresAt :: int

record lifecycle =
  lc_group :: paired_group
  lc_device :: paired_device
  lc_session :: session_envelope

record revoked_device =
  rv_group :: paired_group
  rv_device :: paired_device
  rv_replayed :: bool

record device_page =
  pg_items :: "paired_device list"
  pg_nextCursor :: string
  pg_previousCursor :: string
  pg_hasMore :: bool
  pg_approximateTotal :: nat

datatype error_code =
    ABORTED | ALREADY_EXISTS | FAILED_PRECONDITION | INVALID_ARGUMENT | NOT_FOUND
  | PERMISSION_DENIED | UNAUTHENTICATED

datatype rt_error =
    PairedDeviceRuntimeError error_code string
  | RequestIdError request_id_error
  | PlainError string

section \<open>The runtime's own records and state\<close>

record device_record =
  d_id :: string
  d_name :: string
  d_publicKey :: string
  d_platform :: string
  d_applicationVersion :: string
  d_createdAt :: int
  d_status :: device_status
  d_lastSeenAt :: int

record membership_record =
  m_groupId :: string
  m_deviceId :: string
  m_role :: device_role
  m_joinedAt :: int
  m_revokedAt :: "int option"

record pairing_code_record =
  pc_tokenHash :: string
  pc_groupId :: string
  pc_role :: pairing_role
  pc_expiresAt :: int
  pc_createdByDeviceId :: string
  pc_createdBySessionId :: string
  pc_createdByAccessTokenId :: string
  pc_consumedAt :: "int option"
  pc_revokedAt :: "int option"

record session_record =
  s_id :: string
  s_groupId :: string
  s_deviceId :: string
  s_accessTokenId :: string
  s_accessTokenHash :: string
  s_refreshTokenHash :: string
  s_accessTokenExpiresAt :: int
  s_refreshTokenExpiresAt :: int
  s_issuedAt :: int
  s_revokedAt :: "int option"

record receipt_record =
  rc_scope :: mutation_scope
  rc_expiresAt :: int
  rc_fingerprint :: string
  rc_claimedAt :: int
  rc_completedAt :: "int option"
  rc_groupId :: "string option"
  rc_deviceId :: "string option"
  rc_sessionId :: "string option"
  rc_resourceHash :: "string option"
  rc_revision :: "int option"

record receipt_claim =
  cl_key :: string
  cl_fingerprint :: string
  cl_replay :: "receipt_record option"

record runtime =
  rt_groups :: "(string, paired_group) jsmap"
  rt_devicesById :: "(string, device_record) jsmap"
  rt_deviceIdByPublicKey :: "(string, string) jsmap"
  rt_memberships :: "(string, membership_record) jsmap"
  rt_pairingCodesByHash :: "(string, pairing_code_record) jsmap"
  rt_sessions :: "session_record list"
  rt_sessionsById :: "(string, nat) jsmap"
  rt_sessionsByAccessHash :: "(string, nat) jsmap"
  rt_sessionsByRefreshHash :: "(string, nat \<times> int) jsmap"
  rt_receipts :: "(string, receipt_record) jsmap"
  rt_ticks :: nat
  rt_draws :: nat

record rt_env =
  env_tokenPepper :: string
  env_accessTokenLifetimeMs :: int
  env_refreshTokenLifetimeMs :: int
  env_pairingCodeLifetimeMs :: int
  env_mutationReceiptLifetimeMs :: int
  env_now :: "nat \<Rightarrow> int option"
  env_randomBytes :: "nat \<Rightarrow> nat \<Rightarrow> 8 word list"
  env_hmac :: "string \<Rightarrow> string \<Rightarrow> string"
  env_base64url :: "8 word list \<Rightarrow> string"
  env_encodeCursor :: "string \<Rightarrow> string"
  env_decodeCursor :: "string \<Rightarrow> string"
  env_localeCompare :: "string \<Rightarrow> string \<Rightarrow> int"

type_synonym 'a rt = "(runtime, rt_error, 'a) sm"

definition emptyRuntime :: runtime where
  "emptyRuntime =
     \<lparr>rt_groups = [], rt_devicesById = [], rt_deviceIdByPublicKey = [], rt_memberships = [],
      rt_pairingCodesByHash = [], rt_sessions = [], rt_sessionsById = [],
      rt_sessionsByAccessHash = [], rt_sessionsByRefreshHash = [], rt_receipts = [],
      rt_ticks = 0, rt_draws = 0\<rparr>"

definition defaultAccessTokenLifetimeMs :: int where
  "defaultAccessTokenLifetimeMs = 15 * 60 * 1000"

definition defaultRefreshTokenLifetimeMs :: int where
  "defaultRefreshTokenLifetimeMs = 30 * 24 * 60 * 60 * 1000"

definition defaultPairingCodeLifetimeMs :: int where
  "defaultPairingCodeLifetimeMs = 10 * 60 * 1000"

definition defaultMutationReceiptLifetimeMs :: int where
  "defaultMutationReceiptLifetimeMs = 24 * 60 * 60 * 1000"

definition defaultPageSize :: nat where "defaultPageSize = 50"
definition maxPageSize :: nat where "maxPageSize = 100"

text \<open>The numeric options and the pepper of \<open>PairedDeviceRuntimeOptions\<close>.\<close>

record runtime_options =
  op_tokenPepper :: string
  op_accessTokenLifetimeMs :: "int option"
  op_refreshTokenLifetimeMs :: "int option"
  op_pairingCodeLifetimeMs :: "int option"
  op_mutationReceiptLifetimeMs :: "int option"

definition positiveLifetime :: "int \<Rightarrow> string \<Rightarrow> rt_error + int" where
  "positiveLifetime value name =
     (if \<bar>value\<bar> > 9007199254740991 \<or> value \<le> 0
      then Inl (PlainError (name @ '' must be a positive safe integer'')) else Inr value)"

definition constructRuntime :: "rt_env \<Rightarrow> runtime_options \<Rightarrow> rt_error + (rt_env \<times> runtime)" where
  "constructRuntime env options =
     (let pepper = js_trim (op_tokenPepper options) in
      if length pepper < 32
      then Inl (PlainError ''tokenPepper must contain at least 32 non-whitespace characters'')
      else case positiveLifetime (case op_accessTokenLifetimeMs options of
               None \<Rightarrow> defaultAccessTokenLifetimeMs | Some v \<Rightarrow> v) ''accessTokenLifetimeMs'' of
        Inl e \<Rightarrow> Inl e
      | Inr access \<Rightarrow>
          (case positiveLifetime (case op_refreshTokenLifetimeMs options of
               None \<Rightarrow> defaultRefreshTokenLifetimeMs | Some v \<Rightarrow> v) ''refreshTokenLifetimeMs'' of
             Inl e \<Rightarrow> Inl e
           | Inr refresh \<Rightarrow>
               (case positiveLifetime (case op_pairingCodeLifetimeMs options of
                    None \<Rightarrow> defaultPairingCodeLifetimeMs | Some v \<Rightarrow> v) ''pairingCodeLifetimeMs'' of
                  Inl e \<Rightarrow> Inl e
                | Inr pairing \<Rightarrow>
                    (case positiveLifetime (case op_mutationReceiptLifetimeMs options of
                         None \<Rightarrow> defaultMutationReceiptLifetimeMs | Some v \<Rightarrow> v)
                         ''mutationReceiptLifetimeMs'' of
                       Inl e \<Rightarrow> Inl e
                     | Inr receipt \<Rightarrow>
                         Inr (env\<lparr>env_tokenPepper := pepper, env_accessTokenLifetimeMs := access,
                                  env_refreshTokenLifetimeMs := refresh,
                                  env_pairingCodeLifetimeMs := pairing,
                                  env_mutationReceiptLifetimeMs := receipt\<rparr>, emptyRuntime)))))"

section \<open>Helpers\<close>

definition rt_fail :: "error_code \<Rightarrow> string \<Rightarrow> 'a rt" where
  [monad_defs]: "rt_fail code message = sm_throw (PairedDeviceRuntimeError code message)"

definition lift_result :: "rt_error + 'a \<Rightarrow> 'a rt" where
  "lift_result r = (case r of Inl e \<Rightarrow> sm_throw e | Inr a \<Rightarrow> sm_return a)"

definition requireText :: "string \<Rightarrow> string \<Rightarrow> rt_error + string" where
  "requireText value field =
     (let normalized = js_trim value in
      if length normalized = 0
      then Inl (PairedDeviceRuntimeError INVALID_ARGUMENT (field @ '' must not be empty.''))
      else Inr normalized)"

definition replayNoLongerAuthorized :: rt_error where
  "replayNoLongerAuthorized =
     PairedDeviceRuntimeError UNAUTHENTICATED ''The recorded mutation can no longer issue credentials.''"

definition payloadMismatch :: rt_error where
  "payloadMismatch = PairedDeviceRuntimeError ALREADY_EXISTS
     ''The mutation request identifier was already used with a different request payload.''"

definition membershipKey :: "string \<Rightarrow> string \<Rightarrow> string" where
  "membershipKey groupId deviceId = groupId @ '':'' @ deviceId"

fun roleWeight :: "device_role \<Rightarrow> nat" where
  "roleWeight ADMIN = 3"
| "roleWeight EDITOR = 2"
| "roleWeight VIEWER = 1"

definition normalizeDeviceInput :: "device_input \<Rightarrow> rt_error + device_input" where
  "normalizeDeviceInput input =
     (case requireText (di_name input) ''device_name'' of
        Inl e \<Rightarrow> Inl e
      | Inr name \<Rightarrow>
          (case requireText (di_publicKey input) ''public_key'' of
             Inl e \<Rightarrow> Inl e
           | Inr key \<Rightarrow>
               (case requireText (di_platform input) ''platform'' of
                  Inl e \<Rightarrow> Inl e
                | Inr platform \<Rightarrow>
                    (case requireText (di_applicationVersion input) ''application_version'' of
                       Inl e \<Rightarrow> Inl e
                     | Inr version \<Rightarrow>
                         Inr \<lparr>di_name = name, di_publicKey = key, di_platform = platform,
                              di_applicationVersion = version\<rparr>))))"

definition currentTime :: "rt_env \<Rightarrow> int rt" where
  "currentTime env s =
     (case env_now env (rt_ticks s) of
        None \<Rightarrow> (Inl (PlainError ''now must return a valid Date''), s\<lparr>rt_ticks := Suc (rt_ticks s)\<rparr>)
      | Some t \<Rightarrow> (Inr t, s\<lparr>rt_ticks := Suc (rt_ticks s)\<rparr>))"

definition randomBytes :: "rt_env \<Rightarrow> nat \<Rightarrow> 8 word list rt" where
  "randomBytes env n s = (Inr (env_randomBytes env (rt_draws s) n), s\<lparr>rt_draws := Suc (rt_draws s)\<rparr>)"

definition hex_digit :: "nat \<Rightarrow> char" where
  "hex_digit d = (if d < 10 then char_of (48 + d) else char_of (87 + d))"

definition hex :: "8 word list \<Rightarrow> string" where
  "hex bytes = concat (map (\<lambda>b. [hex_digit (unat b div 16), hex_digit (unat b mod 16)]) bytes)"

text \<open>
  The sixteen bytes of \<open>createId\<close>: six of the time, big endian, the version nibble 7, the
  variant bits, and the random bytes 3 to 9 at the end.
\<close>

definition uuidBytes :: "int \<Rightarrow> 8 word list \<Rightarrow> 8 word list" where
  "uuidBytes now bytes =
     map (\<lambda>index. word_of_int (now div 2 ^ ((5 - index) * 8))) [0 ..< 6] @
     [((bytes ! 0) AND 15) OR 112, bytes ! 1, ((bytes ! 2) AND 63) OR 128] @
     take 7 (drop 3 bytes)"

definition formatUuid :: "8 word list \<Rightarrow> string" where
  "formatUuid uuid =
     hex (take 4 uuid) @ ''-'' @ hex (take 2 (drop 4 uuid)) @ ''-'' @ hex (take 2 (drop 6 uuid)) @
     ''-'' @ hex (take 2 (drop 8 uuid)) @ ''-'' @ hex (take 6 (drop 10 uuid))"

definition createId :: "rt_env \<Rightarrow> string rt" where
  "createId env =
     sm_bind (randomBytes env 16) (\<lambda>bytes.
     if length bytes < 16 then sm_throw (PlainError ''randomBytes must return at least 16 bytes'')
     else sm_bind (currentTime env) (\<lambda>now.
     sm_return (formatUuid (uuidBytes now bytes))))"

definition createToken :: "rt_env \<Rightarrow> string \<Rightarrow> string rt" where
  "createToken env kind =
     sm_bind (randomBytes env 32) (\<lambda>bytes.
     sm_return (''hq_'' @ kind @ ''_'' @ env_base64url env bytes))"

definition hashToken :: "rt_env \<Rightarrow> string \<Rightarrow> string \<Rightarrow> string" where
  "hashToken env kind value =
     env_hmac env (env_tokenPepper env) (''v1'' @ [char_of (0::nat)] @ kind @ [char_of (0::nat)] @ value)"

definition requireGroup :: "string \<Rightarrow> paired_group rt" where
  "requireGroup groupId =
     sm_bind (lift_result (requireText groupId ''group_id'')) (\<lambda>key.
     sm_bind (sm_get (\<lambda>s. js_get (rt_groups s) key)) (\<lambda>group.
     case group of
       None \<Rightarrow> rt_fail NOT_FOUND ''The group does not exist.''
     | Some g \<Rightarrow> sm_return g))"

definition requireDevice :: "string \<Rightarrow> device_record rt" where
  "requireDevice deviceId =
     sm_bind (lift_result (requireText deviceId ''device_id'')) (\<lambda>key.
     sm_bind (sm_get (\<lambda>s. js_get (rt_devicesById s) key)) (\<lambda>device.
     case device of
       None \<Rightarrow> rt_fail NOT_FOUND ''The device does not exist.''
     | Some d \<Rightarrow> sm_return d))"

definition requireActiveMembership :: "string \<Rightarrow> string \<Rightarrow> membership_record rt" where
  "requireActiveMembership groupId deviceId =
     sm_bind (sm_get (\<lambda>s. js_get (rt_memberships s) (membershipKey groupId deviceId))) (\<lambda>membership.
     case membership of
       None \<Rightarrow> rt_fail PERMISSION_DENIED ''The device is not an active member of this group.''
     | Some m \<Rightarrow>
         if m_revokedAt m \<noteq> None
         then rt_fail PERMISSION_DENIED ''The device is not an active member of this group.''
         else sm_return m)"

definition requireSameGroup :: "authenticated_device \<Rightarrow> string \<Rightarrow> unit rt" where
  "requireSameGroup authenticated groupId =
     sm_require (g_id (au_group authenticated) = groupId)
       (PairedDeviceRuntimeError PERMISSION_DENIED
          ''The authenticated device does not belong to the requested group.'')"

definition requireRole :: "authenticated_device \<Rightarrow> device_role \<Rightarrow> unit rt" where
  "requireRole authenticated required =
     sm_require (roleWeight required \<le> roleWeight (au_role authenticated))
       (PairedDeviceRuntimeError PERMISSION_DENIED
          ''The authenticated device does not have sufficient group permissions.'')"

definition ensurePublicKeyAvailable :: "string \<Rightarrow> unit rt" where
  "ensurePublicKeyAvailable publicKey =
     sm_bind (sm_get (\<lambda>s. js_get (rt_deviceIdByPublicKey s) publicKey)) (\<lambda>known.
     sm_require (known = None)
       (PairedDeviceRuntimeError ALREADY_EXISTS ''A device with this public key is already registered.''))"

definition toPairedDevice :: "device_record \<Rightarrow> membership_record \<Rightarrow> paired_device" where
  "toPairedDevice device membership =
     \<lparr>pd_id = d_id device, pd_name = d_name device, pd_publicKey = d_publicKey device,
      pd_role = m_role membership, pd_status = d_status device, pd_platform = d_platform device,
      pd_applicationVersion = d_applicationVersion device, pd_createdAt = d_createdAt device,
      pd_lastSeenAt = d_lastSeenAt device\<rparr>"

definition toSessionEnvelope ::
  "session_record \<Rightarrow> membership_record \<Rightarrow> string \<Rightarrow> string \<Rightarrow> session_envelope" where
  "toSessionEnvelope session membership accessToken refreshToken =
     \<lparr>se_accessToken = accessToken, se_refreshToken = refreshToken,
      se_accessTokenExpiresAt = s_accessTokenExpiresAt session,
      se_refreshTokenExpiresAt = s_refreshTokenExpiresAt session,
      se_deviceId = s_deviceId session, se_groupId = s_groupId session,
      se_role = m_role membership\<rparr>"

section \<open>Receipts\<close>

definition claimReceipt ::
  "rt_env \<Rightarrow> mutation_scope \<Rightarrow> string option \<Rightarrow> (string \<times> string) list \<Rightarrow> int
   \<Rightarrow> receipt_claim option rt" where
  "claimReceipt env scope mutation fs now =
     (case normalizeRequestId mutation of
        Inl e \<Rightarrow> sm_throw (RequestIdError e)
      | Inr None \<Rightarrow> sm_return None
      | Inr (Some requestId) \<Rightarrow>
          let key = hashToken env ''receipt'' (encodeRequestIdPayload scope requestId);
              fingerprint = hashToken env ''receipt'' (encodeFingerprintPayload scope fs) in
          sm_bind (sm_get (\<lambda>s. js_get (rt_receipts s) key)) (\<lambda>stored.
          let live = (case stored of None \<Rightarrow> None
                      | Some r \<Rightarrow> if rc_expiresAt r \<le> now then None else Some r) in
          if (case live of None \<Rightarrow> False | Some r \<Rightarrow> rc_completedAt r \<noteq> None)
          then sm_return (Some \<lparr>cl_key = key, cl_fingerprint = fingerprint, cl_replay = live\<rparr>)
          else sm_bind (sm_modify (\<lambda>s. s\<lparr>rt_receipts := js_set key
                 \<lparr>rc_scope = scope, rc_expiresAt = now + env_mutationReceiptLifetimeMs env,
                  rc_fingerprint = fingerprint, rc_claimedAt = now, rc_completedAt = None,
                  rc_groupId = None, rc_deviceId = None, rc_sessionId = None,
                  rc_resourceHash = None, rc_revision = None\<rparr> (rt_receipts s)\<rparr>)) (\<lambda>_.
               sm_return (Some \<lparr>cl_key = key, cl_fingerprint = fingerprint, cl_replay = None\<rparr>))))"

text \<open>The common shape of the three \<open>complete\<dots>Receipt\<close> methods: update the claimed receipt.\<close>

definition updateClaimed :: "receipt_claim option \<Rightarrow> (receipt_record \<Rightarrow> receipt_record) \<Rightarrow> unit rt" where
  "updateClaimed claim f =
     (case claim of
        None \<Rightarrow> sm_return ()
      | Some c \<Rightarrow>
          sm_bind (sm_get (\<lambda>s. js_get (rt_receipts s) (cl_key c))) (\<lambda>receipt.
          case receipt of
            None \<Rightarrow> sm_return ()
          | Some r \<Rightarrow> sm_modify (\<lambda>s. s\<lparr>rt_receipts := js_set (cl_key c) (f r) (rt_receipts s)\<rparr>)))"

definition completeReceipt ::
  "receipt_claim option \<Rightarrow> string \<Rightarrow> string \<Rightarrow> string \<Rightarrow> int \<Rightarrow> unit rt" where
  "completeReceipt claim groupId deviceId sessionId now =
     updateClaimed claim (\<lambda>r. r\<lparr>rc_groupId := Some groupId, rc_deviceId := Some deviceId,
       rc_sessionId := Some sessionId, rc_completedAt := Some now\<rparr>)"

definition completePairingCodeReceipt ::
  "receipt_claim option \<Rightarrow> string \<Rightarrow> string \<Rightarrow> int \<Rightarrow> unit rt" where
  "completePairingCodeReceipt claim groupId resourceHash now =
     updateClaimed claim (\<lambda>r. r\<lparr>rc_groupId := Some groupId, rc_resourceHash := Some resourceHash,
       rc_completedAt := Some now\<rparr>)"

definition completeRevokeReceipt ::
  "receipt_claim option \<Rightarrow> string \<Rightarrow> string \<Rightarrow> int \<Rightarrow> int \<Rightarrow> unit rt" where
  "completeRevokeReceipt claim groupId deviceId revision now =
     updateClaimed claim (\<lambda>r. r\<lparr>rc_groupId := Some groupId, rc_deviceId := Some deviceId,
       rc_revision := Some revision, rc_completedAt := Some now\<rparr>)"

definition requireReplayableReceipt ::
  "receipt_claim \<Rightarrow> receipt_record \<Rightarrow> rt_error + (string \<times> string \<times> string)" where
  "requireReplayableReceipt claim receipt =
     (if rc_fingerprint receipt \<noteq> cl_fingerprint claim then Inl payloadMismatch
      else case (rc_groupId receipt, rc_deviceId receipt, rc_sessionId receipt) of
             (Some g, Some d, Some s) \<Rightarrow> Inr (g, d, s)
           | _ \<Rightarrow> Inl replayNoLongerAuthorized)"

section \<open>Sessions\<close>

definition updateSession :: "nat \<Rightarrow> (session_record \<Rightarrow> session_record) \<Rightarrow> runtime \<Rightarrow> runtime" where
  "updateSession ref f s = s\<lparr>rt_sessions := (rt_sessions s)[ref := f (rt_sessions s ! ref)]\<rparr>"

definition issueSession ::
  "rt_env \<Rightarrow> paired_group \<Rightarrow> device_record \<Rightarrow> membership_record \<Rightarrow> int
   \<Rightarrow> (session_envelope \<times> session_record) rt" where
  "issueSession env grp device membership now =
     sm_bind (createToken env ''access'') (\<lambda>accessToken.
     sm_bind (createToken env ''refresh'') (\<lambda>refreshToken.
     sm_bind (createId env) (\<lambda>sessionId.
     sm_bind (createId env) (\<lambda>accessTokenId.
     let session = \<lparr>s_id = sessionId, s_groupId = g_id grp, s_deviceId = d_id device,
           s_accessTokenId = accessTokenId,
           s_accessTokenHash = hashToken env ''access'' accessToken,
           s_refreshTokenHash = hashToken env ''refresh'' refreshToken,
           s_accessTokenExpiresAt = now + env_accessTokenLifetimeMs env,
           s_refreshTokenExpiresAt = now + env_refreshTokenLifetimeMs env,
           s_issuedAt = now, s_revokedAt = None\<rparr> in
     sm_bind (sm_modify (\<lambda>s.
       let ref = length (rt_sessions s) in
       s\<lparr>rt_sessions := rt_sessions s @ [session],
         rt_sessionsById := js_set (s_id session) ref (rt_sessionsById s),
         rt_sessionsByAccessHash := js_set (s_accessTokenHash session) ref (rt_sessionsByAccessHash s),
         rt_sessionsByRefreshHash := js_set (s_refreshTokenHash session)
           (ref, s_refreshTokenExpiresAt session) (rt_sessionsByRefreshHash s)\<rparr>)) (\<lambda>_.
     sm_return (toSessionEnvelope session membership accessToken refreshToken, session))))))"

definition revokeCodesWhere :: "(pairing_code_record \<Rightarrow> bool) \<Rightarrow> int \<Rightarrow> runtime \<Rightarrow> runtime" where
  "revokeCodesWhere P now s = s\<lparr>rt_pairingCodesByHash := js_map_values (\<lambda>pc.
     if P pc \<and> pc_consumedAt pc = None
     then pc\<lparr>pc_revokedAt := Some (case pc_revokedAt pc of None \<Rightarrow> now | Some t \<Rightarrow> t)\<rparr>
     else pc) (rt_pairingCodesByHash s)\<rparr>"

definition revokePairingCodesForAccessToken :: "string \<Rightarrow> int \<Rightarrow> runtime \<Rightarrow> runtime" where
  "revokePairingCodesForAccessToken accessTokenId now =
     revokeCodesWhere (\<lambda>pc. pc_createdByAccessTokenId pc = accessTokenId) now"

definition revokePairingCodesForSession :: "string \<Rightarrow> int \<Rightarrow> runtime \<Rightarrow> runtime" where
  "revokePairingCodesForSession sessionId now =
     revokeCodesWhere (\<lambda>pc. pc_createdBySessionId pc = sessionId) now"

definition revokeSession :: "nat \<Rightarrow> int \<Rightarrow> runtime \<Rightarrow> runtime" where
  "revokeSession ref now s =
     (let s1 = updateSession ref (\<lambda>session. session\<lparr>s_revokedAt :=
            Some (case s_revokedAt session of None \<Rightarrow> now | Some t \<Rightarrow> t)\<rparr>) s;
          session = rt_sessions s1 ! ref;
          s2 = s1\<lparr>rt_sessionsByAccessHash :=
                 js_delete (s_accessTokenHash session) (rt_sessionsByAccessHash s1)\<rparr>
      in revokePairingCodesForSession (s_id session) now s2)"

text \<open>
  The rotation that \<open>refreshDeviceSession\<close> and \<open>reissueSessionCredentials\<close> share: fresh tokens
  on the session at \<open>ref\<close>; the credential that \<open>previousHash\<close> names stays addressable until
  the session's previous expiry.
\<close>

definition rotateSession ::
  "rt_env \<Rightarrow> nat \<Rightarrow> string \<Rightarrow> membership_record \<Rightarrow> int \<Rightarrow> session_envelope rt" where
  "rotateSession env ref previousHash membership now =
     sm_bind (createToken env ''access'') (\<lambda>nextAccessToken.
     sm_bind (createToken env ''refresh'') (\<lambda>nextRefreshToken.
     sm_bind (sm_get (\<lambda>s. s_refreshTokenExpiresAt (rt_sessions s ! ref))) (\<lambda>previousRefreshExpiresAt.
     sm_bind (sm_modify (\<lambda>s.
       let session = rt_sessions s ! ref;
           s1 = revokePairingCodesForAccessToken (s_accessTokenId session) now s in
       s1\<lparr>rt_sessionsByAccessHash :=
            js_delete (s_accessTokenHash session) (rt_sessionsByAccessHash s1)\<rparr>)) (\<lambda>_.
     sm_bind (createId env) (\<lambda>accessTokenId.
     sm_bind (sm_modify (\<lambda>s.
       let session = (rt_sessions s ! ref)\<lparr>s_accessTokenId := accessTokenId,
             s_accessTokenHash := hashToken env ''access'' nextAccessToken,
             s_refreshTokenHash := hashToken env ''refresh'' nextRefreshToken,
             s_accessTokenExpiresAt := now + env_accessTokenLifetimeMs env,
             s_refreshTokenExpiresAt := now + env_refreshTokenLifetimeMs env,
             s_issuedAt := now\<rparr> in
       s\<lparr>rt_sessions := (rt_sessions s)[ref := session],
         rt_sessionsByAccessHash := js_set (s_accessTokenHash session) ref (rt_sessionsByAccessHash s),
         rt_sessionsByRefreshHash :=
           js_set (s_refreshTokenHash session) (ref, s_refreshTokenExpiresAt session)
             (js_set previousHash (ref, previousRefreshExpiresAt) (rt_sessionsByRefreshHash s))\<rparr>)) (\<lambda>_.
     sm_get (\<lambda>s. toSessionEnvelope (rt_sessions s ! ref) membership nextAccessToken nextRefreshToken)))))))"

definition reissueSessionCredentials ::
  "rt_env \<Rightarrow> receipt_claim \<Rightarrow> receipt_record \<Rightarrow> int \<Rightarrow> session_envelope rt" where
  "reissueSessionCredentials env claim receipt now =
     sm_bind (lift_result (requireReplayableReceipt claim receipt)) (\<lambda>(_, _, sessionId).
     sm_bind (sm_get (\<lambda>s. js_get (rt_sessionsById s) sessionId)) (\<lambda>found.
     case found of
       None \<Rightarrow> sm_throw replayNoLongerAuthorized
     | Some ref \<Rightarrow>
         sm_bind (sm_get (\<lambda>s. rt_sessions s ! ref)) (\<lambda>session.
         sm_bind (sm_get (\<lambda>s. js_get (rt_memberships s)
             (membershipKey (s_groupId session) (s_deviceId session)))) (\<lambda>membership.
         sm_bind (sm_get (\<lambda>s. js_get (rt_devicesById s) (s_deviceId session))) (\<lambda>device.
         case (membership, device) of
           (Some m, Some d) \<Rightarrow>
             if m_revokedAt m \<noteq> None \<or> d_status d = REVOKED \<or> s_revokedAt session \<noteq> None \<or>
                s_refreshTokenExpiresAt session \<le> now
             then sm_throw replayNoLongerAuthorized
             else rotateSession env ref (s_refreshTokenHash session) m now
         | _ \<Rightarrow> sm_throw replayNoLongerAuthorized)))))"

definition replayCreatedLifecycle ::
  "rt_env \<Rightarrow> receipt_claim \<Rightarrow> receipt_record \<Rightarrow> int \<Rightarrow> lifecycle rt" where
  "replayCreatedLifecycle env claim receipt now =
     sm_bind (reissueSessionCredentials env claim receipt now) (\<lambda>envelope.
     sm_bind (requireGroup (se_groupId envelope)) (\<lambda>group.
     sm_bind (requireDevice (se_deviceId envelope)) (\<lambda>device.
     sm_bind (requireActiveMembership (g_id group) (d_id device)) (\<lambda>membership.
     sm_return \<lparr>lc_group = group, lc_device = toPairedDevice device membership,
                lc_session = envelope\<rparr>))))"

section \<open>Group creation\<close>

definition deviceFields :: "device_input \<Rightarrow> (string \<times> string) list" where
  "deviceFields device =
     [(''device_name'', di_name device), (''public_key'', di_publicKey device),
      (''platform'', di_platform device), (''application_version'', di_applicationVersion device)]"

definition newDevice :: "string \<Rightarrow> device_input \<Rightarrow> int \<Rightarrow> device_record" where
  "newDevice deviceId device now =
     \<lparr>d_id = deviceId, d_name = di_name device, d_publicKey = di_publicKey device,
      d_platform = di_platform device, d_applicationVersion = di_applicationVersion device,
      d_createdAt = now, d_status = ONLINE, d_lastSeenAt = now\<rparr>"

definition createGroup ::
  "rt_env \<Rightarrow> string \<Rightarrow> device_input \<Rightarrow> string option \<Rightarrow> lifecycle rt" where
  "createGroup env name initialDeviceInput mutation =
     sm_bind (currentTime env) (\<lambda>now.
     sm_bind (lift_result (requireText name ''name'')) (\<lambda>groupName.
     sm_bind (lift_result (normalizeDeviceInput initialDeviceInput)) (\<lambda>initialDevice.
     sm_bind (claimReceipt env CREATE_GROUP mutation
                ((''group_name'', groupName) # deviceFields initialDevice) now) (\<lambda>claim.
     case Option.bind claim cl_replay of
       Some receipt \<Rightarrow> replayCreatedLifecycle env (the claim) receipt now
     | None \<Rightarrow>
         sm_bind (ensurePublicKeyAvailable (di_publicKey initialDevice)) (\<lambda>_.
         sm_bind (createId env) (\<lambda>groupId.
         sm_bind (createId env) (\<lambda>deviceId.
         let group = \<lparr>g_id = groupId, g_name = groupName, g_authorityMode = LEADER,
               g_leaderDeviceId = deviceId, g_revision = 1, g_createdAt = now, g_updatedAt = now\<rparr>;
             device = newDevice deviceId initialDevice now;
             membership = \<lparr>m_groupId = groupId, m_deviceId = deviceId, m_role = ADMIN,
               m_joinedAt = now, m_revokedAt = None\<rparr> in
         sm_bind (sm_modify (\<lambda>s.
           s\<lparr>rt_groups := js_set groupId group (rt_groups s),
             rt_devicesById := js_set deviceId device (rt_devicesById s),
             rt_deviceIdByPublicKey := js_set (d_publicKey device) deviceId (rt_deviceIdByPublicKey s),
             rt_memberships := js_set (membershipKey groupId deviceId) membership (rt_memberships s)\<rparr>)) (\<lambda>_.
         sm_bind (issueSession env group device membership now) (\<lambda>(envelope, session).
         sm_bind (completeReceipt claim groupId deviceId (s_id session) now) (\<lambda>_.
         sm_return \<lparr>lc_group = group, lc_device = toPairedDevice device membership,
                    lc_session = envelope\<rparr>)))))))))) "

section \<open>Pairing\<close>

definition requireActivePairingIssuer :: "authenticated_device \<Rightarrow> int \<Rightarrow> session_record rt" where
  "requireActivePairingIssuer authenticated now =
     sm_bind (sm_get (\<lambda>s. js_get (rt_sessionsById s) (au_sessionId authenticated))) (\<lambda>found.
     case found of
       None \<Rightarrow> rt_fail UNAUTHENTICATED ''The authenticated access token is invalid or expired.''
     | Some ref \<Rightarrow>
         sm_bind (sm_get (\<lambda>s. rt_sessions s ! ref)) (\<lambda>session.
         sm_bind (sm_get (\<lambda>s. js_get (rt_memberships s)
             (membershipKey (s_groupId session) (s_deviceId session)))) (\<lambda>membership.
         sm_bind (sm_get (\<lambda>s. js_get (rt_devicesById s) (s_deviceId session))) (\<lambda>device.
         sm_bind (sm_get (\<lambda>s. js_get (rt_sessionsByAccessHash s) (s_accessTokenHash session))) (\<lambda>indexed.
         case (membership, device) of
           (Some m, Some d) \<Rightarrow>
             if s_groupId session \<noteq> g_id (au_group authenticated) \<or>
                s_deviceId session \<noteq> pd_id (au_device authenticated) \<or>
                s_accessTokenId session \<noteq> au_accessTokenId authenticated \<or>
                s_revokedAt session \<noteq> None \<or>
                s_refreshTokenExpiresAt session \<le> now \<or>
                s_accessTokenExpiresAt session \<le> now \<or>
                m_revokedAt m \<noteq> None \<or>
                m_role m \<noteq> au_role authenticated \<or>
                d_status d = REVOKED \<or>
                indexed \<noteq> Some ref
             then rt_fail UNAUTHENTICATED ''The authenticated access token is invalid or expired.''
             else sm_return session
         | _ \<Rightarrow> rt_fail UNAUTHENTICATED
                  ''The authenticated access token is invalid or expired.'')))))"

definition retireReplacedPairingCode :: "rt_env \<Rightarrow> receipt_claim \<Rightarrow> receipt_record \<Rightarrow> unit rt" where
  "retireReplacedPairingCode env claim receipt =
     (if rc_fingerprint receipt \<noteq> cl_fingerprint claim then sm_throw payloadMismatch
      else case rc_resourceHash receipt of
        None \<Rightarrow> sm_throw replayNoLongerAuthorized
      | Some hash \<Rightarrow>
          sm_bind (sm_get (\<lambda>s. js_get (rt_pairingCodesByHash s) hash)) (\<lambda>recorded.
          case recorded of
            None \<Rightarrow> sm_throw replayNoLongerAuthorized
          | Some pc \<Rightarrow>
              if pc_consumedAt pc \<noteq> None
              then rt_fail FAILED_PRECONDITION
                     ''The pairing code created by this request has already been used.''
              else case pc_revokedAt pc of
                     Some t \<Rightarrow> sm_return ()
                   | None \<Rightarrow>
                       sm_bind (currentTime env) (\<lambda>now.
                       sm_modify (\<lambda>s. s\<lparr>rt_pairingCodesByHash :=
                         js_set hash (pc\<lparr>pc_revokedAt := Some now\<rparr>) (rt_pairingCodesByHash s)\<rparr>))))"

definition createPairingCode ::
  "rt_env \<Rightarrow> authenticated_device \<Rightarrow> string \<Rightarrow> pairing_role \<Rightarrow> string option \<Rightarrow> pairing_code_grant rt" where
  "createPairingCode env authenticated groupId role mutation =
     sm_bind (currentTime env) (\<lambda>now.
     sm_bind (claimReceipt env CREATE_PAIRING_CODE mutation
        [(''group_id'', groupId), (''role'', pairing_role_name role),
         (''actor_device_id'', pd_id (au_device authenticated)),
         (''actor_access_token_id'', au_accessTokenId authenticated)] now) (\<lambda>claim.
     sm_bind (requireActivePairingIssuer authenticated now) (\<lambda>issuer.
     sm_bind (requireGroup groupId) (\<lambda>group.
     sm_bind (requireSameGroup authenticated (g_id group)) (\<lambda>_.
     sm_bind (requireRole authenticated ADMIN) (\<lambda>_.
     if s_groupId issuer \<noteq> g_id group \<or> s_deviceId issuer \<noteq> pd_id (au_device authenticated)
     then rt_fail UNAUTHENTICATED ''The authenticated access token is invalid or expired.''
     else
       sm_bind (case Option.bind claim cl_replay of
                  Some receipt \<Rightarrow> retireReplacedPairingCode env (the claim) receipt
                | None \<Rightarrow> sm_return ()) (\<lambda>_.
       sm_bind (createToken env ''pair'') (\<lambda>code.
       let grant = \<lparr>pc_tokenHash = hashToken env ''pair'' code, pc_groupId = g_id group, pc_role = role,
             pc_expiresAt = now + env_pairingCodeLifetimeMs env,
             pc_createdByDeviceId = pd_id (au_device authenticated),
             pc_createdBySessionId = s_id issuer,
             pc_createdByAccessTokenId = s_accessTokenId issuer,
             pc_consumedAt = None, pc_revokedAt = None\<rparr> in
       sm_bind (sm_modify (\<lambda>s. s\<lparr>rt_pairingCodesByHash :=
                 js_set (pc_tokenHash grant) grant (rt_pairingCodesByHash s)\<rparr>)) (\<lambda>_.
       sm_bind (completePairingCodeReceipt claim (g_id group) (pc_tokenHash grant) now) (\<lambda>_.
       sm_return \<lparr>pg_code = code, pg_groupId = g_id group, pg_role = role,
                  pg_expiresAt = pc_expiresAt grant\<rparr>))))))))))"

definition invalidPairingCode :: rt_error where
  "invalidPairingCode = PairedDeviceRuntimeError UNAUTHENTICATED
     ''The pairing code is invalid, expired, or has already been consumed.''"

text \<open>The condition \<open>pairDevice\<close> puts on the device and session that issued a code.\<close>

definition issuerStillActive :: "paired_group \<Rightarrow> pairing_code_record \<Rightarrow> int \<Rightarrow> runtime \<Rightarrow> bool" where
  "issuerStillActive grp grant now s =
     (case (js_get (rt_memberships s) (membershipKey (g_id grp) (pc_createdByDeviceId grant)),
            js_get (rt_devicesById s) (pc_createdByDeviceId grant),
            js_get (rt_sessionsById s) (pc_createdBySessionId grant)) of
        (Some m, Some d, Some ref) \<Rightarrow>
          let session = rt_sessions s ! ref in
          m_revokedAt m = None \<and> d_status d \<noteq> REVOKED \<and>
          s_groupId session = g_id grp \<and> s_deviceId session = pc_createdByDeviceId grant \<and>
          s_revokedAt session = None \<and> s_refreshTokenExpiresAt session > now \<and>
          s_accessTokenExpiresAt session > now \<and>
          s_accessTokenId session = pc_createdByAccessTokenId grant \<and>
          js_get (rt_sessionsByAccessHash s) (s_accessTokenHash session) = Some ref
      | _ \<Rightarrow> False)"

definition pairDevice ::
  "rt_env \<Rightarrow> string \<Rightarrow> device_input \<Rightarrow> string option \<Rightarrow> lifecycle rt" where
  "pairDevice env pairingCode input mutation =
     sm_bind (lift_result (requireText pairingCode ''pairing_code'')) (\<lambda>code.
     sm_bind (lift_result (normalizeDeviceInput input)) (\<lambda>deviceInput.
     sm_bind (currentTime env) (\<lambda>now.
     sm_bind (claimReceipt env PAIR_DEVICE mutation
        ((''pairing_code_hash'', hashToken env ''pair'' code) # deviceFields deviceInput) now) (\<lambda>claim.
     case Option.bind claim cl_replay of
       Some receipt \<Rightarrow> replayCreatedLifecycle env (the claim) receipt now
     | None \<Rightarrow>
         sm_bind (ensurePublicKeyAvailable (di_publicKey deviceInput)) (\<lambda>_.
         sm_bind (sm_get (\<lambda>s. js_get (rt_pairingCodesByHash s) (hashToken env ''pair'' code))) (\<lambda>found.
         case found of
           None \<Rightarrow> sm_throw invalidPairingCode
         | Some grant \<Rightarrow>
             if pc_consumedAt grant \<noteq> None \<or> pc_revokedAt grant \<noteq> None \<or> pc_expiresAt grant \<le> now
             then sm_throw invalidPairingCode
             else
               sm_bind (requireGroup (pc_groupId grant)) (\<lambda>group.
               sm_bind (sm_get (issuerStillActive group grant now)) (\<lambda>active.
               if \<not> active then sm_throw invalidPairingCode
               else
                 sm_bind (createId env) (\<lambda>deviceId.
                 let device = newDevice deviceId deviceInput now;
                     membership = \<lparr>m_groupId = g_id group, m_deviceId = deviceId,
                       m_role = role_of_pairing (pc_role grant), m_joinedAt = now, m_revokedAt = None\<rparr>;
                     updatedGroup = group\<lparr>g_revision := g_revision group + 1, g_updatedAt := now\<rparr> in
                 sm_bind (sm_modify (\<lambda>s.
                   s\<lparr>rt_pairingCodesByHash := js_set (hashToken env ''pair'' code)
                       (grant\<lparr>pc_consumedAt := Some now\<rparr>) (rt_pairingCodesByHash s),
                     rt_devicesById := js_set deviceId device (rt_devicesById s),
                     rt_deviceIdByPublicKey :=
                       js_set (d_publicKey device) deviceId (rt_deviceIdByPublicKey s),
                     rt_memberships :=
                       js_set (membershipKey (g_id group) deviceId) membership (rt_memberships s),
                     rt_groups := js_set (g_id updatedGroup) updatedGroup (rt_groups s)\<rparr>)) (\<lambda>_.
                 sm_bind (issueSession env updatedGroup device membership now) (\<lambda>(envelope, session).
                 sm_bind (completeReceipt claim (g_id updatedGroup) deviceId (s_id session) now) (\<lambda>_.
                 sm_return \<lparr>lc_group = updatedGroup, lc_device = toPairedDevice device membership,
                            lc_session = envelope\<rparr>))))))))))))"

section \<open>Session refresh and authentication\<close>

definition invalidRefreshToken :: rt_error where
  "invalidRefreshToken =
     PairedDeviceRuntimeError UNAUTHENTICATED ''The refresh token is invalid or expired.''"

definition refreshDeviceSession :: "rt_env \<Rightarrow> string \<Rightarrow> string option \<Rightarrow> session_envelope rt" where
  "refreshDeviceSession env refreshToken mutation =
     sm_bind (lift_result (requireText refreshToken ''refresh_token'')) (\<lambda>token.
     let refreshTokenHash = hashToken env ''refresh'' token in
     sm_bind (currentTime env) (\<lambda>now.
     sm_bind (claimReceipt env REFRESH_DEVICE_SESSION mutation
        [(''refresh_token_hash'', refreshTokenHash)] now) (\<lambda>claim.
     case Option.bind claim cl_replay of
       Some receipt \<Rightarrow> reissueSessionCredentials env (the claim) receipt now
     | None \<Rightarrow>
         sm_bind (sm_get (\<lambda>s. js_get (rt_sessionsByRefreshHash s) refreshTokenHash)) (\<lambda>reference.
         case reference of
           None \<Rightarrow> sm_throw invalidRefreshToken
         | Some (ref, expiresAt) \<Rightarrow>
             sm_bind (sm_get (\<lambda>s. rt_sessions s ! ref)) (\<lambda>session.
             if expiresAt \<le> now \<or> s_revokedAt session \<noteq> None \<or> s_refreshTokenExpiresAt session \<le> now
             then sm_throw invalidRefreshToken
             else if s_refreshTokenHash session \<noteq> refreshTokenHash
             then sm_bind (sm_modify (revokeSession ref now)) (\<lambda>_. sm_throw invalidRefreshToken)
             else
               sm_bind (requireGroup (s_groupId session)) (\<lambda>group.
               sm_bind (requireDevice (s_deviceId session)) (\<lambda>device.
               sm_bind (requireActiveMembership (g_id group) (d_id device)) (\<lambda>membership.
               sm_bind (rotateSession env ref refreshTokenHash membership now) (\<lambda>envelope.
               sm_bind (completeReceipt claim (g_id group) (d_id device) (s_id session) now) (\<lambda>_.
               sm_return envelope)))))))))) "

definition invalidAccessToken :: rt_error where
  "invalidAccessToken =
     PairedDeviceRuntimeError UNAUTHENTICATED ''The access token is invalid or expired.''"

definition authenticateAccessToken :: "rt_env \<Rightarrow> string \<Rightarrow> authenticated_device rt" where
  "authenticateAccessToken env accessToken =
     sm_bind (lift_result (requireText accessToken ''access token'')) (\<lambda>token.
     sm_bind (sm_get (\<lambda>s. js_get (rt_sessionsByAccessHash s) (hashToken env ''access'' token))) (\<lambda>found.
     sm_bind (currentTime env) (\<lambda>now.
     case found of
       None \<Rightarrow> sm_throw invalidAccessToken
     | Some ref \<Rightarrow>
         sm_bind (sm_get (\<lambda>s. rt_sessions s ! ref)) (\<lambda>session.
         if s_revokedAt session \<noteq> None \<or> s_accessTokenExpiresAt session \<le> now
         then sm_throw invalidAccessToken
         else
           sm_bind (requireGroup (s_groupId session)) (\<lambda>group.
           sm_bind (requireDevice (s_deviceId session)) (\<lambda>device.
           sm_bind (requireActiveMembership (g_id group) (d_id device)) (\<lambda>membership.
           let seen = device\<lparr>d_lastSeenAt := now\<rparr> in
           sm_bind (sm_modify (\<lambda>s. s\<lparr>rt_devicesById :=
                     js_set (js_trim (s_deviceId session)) seen (rt_devicesById s)\<rparr>)) (\<lambda>_.
           sm_return \<lparr>au_group = group, au_device = toPairedDevice seen membership,
                      au_role = m_role membership, au_sessionId = s_id session,
                      au_accessTokenId = s_accessTokenId session\<rparr>))))))))"

section \<open>Listing devices\<close>

definition resolveCursor ::
  "rt_env \<Rightarrow> membership_record list \<Rightarrow> string \<Rightarrow> rt_error + nat" where
  "resolveCursor env memberships cursor =
     (if length cursor = 0 then Inr 0
      else let deviceId = env_decodeCursor env cursor;
               index = length (takeWhile (\<lambda>m. m_deviceId m \<noteq> deviceId) memberships) in
        if index = length memberships
        then Inl (PairedDeviceRuntimeError INVALID_ARGUMENT ''The page cursor is invalid.'')
        else Inr (index + 1))"

definition activeMembers :: "string \<Rightarrow> runtime \<Rightarrow> membership_record list" where
  "activeMembers groupId s =
     filter (\<lambda>m. m_groupId m = groupId \<and> m_revokedAt m = None) (js_values (rt_memberships s))"

text \<open>
  The comparator of the listing reads both devices; with fewer than two members it is never
  called, and with more it is called on every member.
\<close>

definition compareMembers ::
  "rt_env \<Rightarrow> membership_record \<times> device_record \<Rightarrow> membership_record \<times> device_record \<Rightarrow> int" where
  "compareMembers env left right =
     (let d = d_createdAt (snd left) - d_createdAt (snd right) in
      if d \<noteq> 0 then d else env_localeCompare env (d_id (snd left)) (d_id (snd right)))"

definition sortedMembers :: "rt_env \<Rightarrow> string \<Rightarrow> membership_record list rt" where
  "sortedMembers env groupId =
     sm_bind (sm_get (activeMembers groupId)) (\<lambda>members.
     if length members < 2 then sm_return members
     else sm_bind (sm_mapM (\<lambda>m. requireDevice (m_deviceId m)) members) (\<lambda>devices.
          sm_return (map fst (js_sort (compareMembers env) (zip members devices)))))"

definition listDevices ::
  "rt_env \<Rightarrow> authenticated_device \<Rightarrow> string \<Rightarrow> int \<Rightarrow> string \<Rightarrow> device_page rt" where
  "listDevices env authenticated groupId requestedPageSize cursor =
     sm_bind (requireGroup groupId) (\<lambda>group.
     sm_bind (requireSameGroup authenticated (g_id group)) (\<lambda>_.
     case normalizePageSize requestedPageSize defaultPageSize maxPageSize of
       Inl _ \<Rightarrow> rt_fail INVALID_ARGUMENT ''page_size must be between 1 and 100.''
     | Inr pageSize \<Rightarrow>
         sm_bind (sortedMembers env (g_id group)) (\<lambda>members.
         sm_bind (lift_result (resolveCursor env members cursor)) (\<lambda>startIndex.
         let selected = take pageSize (drop startIndex members);
             hasMore = startIndex + length selected < length members in
         sm_bind (sm_mapM (\<lambda>m. sm_bind (requireDevice (m_deviceId m))
                    (\<lambda>d. sm_return (toPairedDevice d m))) selected) (\<lambda>items.
         sm_return
           \<lparr>pg_items = items,
            pg_nextCursor = (if hasMore
               then env_encodeCursor env (if selected = [] then [] else m_deviceId (last selected))
               else []),
            pg_previousCursor = (if startIndex > 0
               then env_encodeCursor env
                      (if startIndex - pageSize < length members
                       then m_deviceId (members ! (startIndex - pageSize)) else [])
               else []),
            pg_hasMore = hasMore, pg_approximateTotal = length members\<rparr>)))))"

section \<open>Revocation\<close>

definition replayRevokedDevice :: "receipt_claim \<Rightarrow> receipt_record \<Rightarrow> revoked_device rt" where
  "replayRevokedDevice claim receipt =
     (if rc_fingerprint receipt \<noteq> cl_fingerprint claim then sm_throw payloadMismatch
      else case (rc_groupId receipt, rc_deviceId receipt, rc_revision receipt) of
        (Some groupId, Some deviceId, Some revision) \<Rightarrow>
          sm_bind (sm_get (\<lambda>s. (js_get (rt_groups s) groupId, js_get (rt_devicesById s) deviceId,
                                js_get (rt_memberships s) (membershipKey groupId deviceId)))) (\<lambda>found.
          case found of
            (Some grp, Some device, Some membership) \<Rightarrow>
              sm_return \<lparr>rv_group = grp\<lparr>g_revision := revision\<rparr>,
                         rv_device = (toPairedDevice device membership)\<lparr>pd_status := REVOKED\<rparr>,
                         rv_replayed = True\<rparr>
          | _ \<Rightarrow> sm_throw replayNoLongerAuthorized)
      | _ \<Rightarrow> sm_throw replayNoLongerAuthorized)"

text \<open>
  The loop over \<open>sessionsByAccessHash.values()\<close>. \<open>revokeSession\<close> deletes entries of the map that
  is being iterated; the iterator skips a key that is gone when its turn comes.
\<close>

definition revokeSessionsOf :: "string \<Rightarrow> string \<Rightarrow> int \<Rightarrow> runtime \<Rightarrow> runtime" where
  "revokeSessionsOf groupId deviceId now s =
     fold (\<lambda>hash s. case js_get (rt_sessionsByAccessHash s) hash of
             None \<Rightarrow> s
           | Some ref \<Rightarrow>
               if s_groupId (rt_sessions s ! ref) = groupId \<and> s_deviceId (rt_sessions s ! ref) = deviceId
               then revokeSession ref now s else s)
       (map fst (rt_sessionsByAccessHash s)) s"

definition revokeCodesOf :: "string \<Rightarrow> string \<Rightarrow> int \<Rightarrow> runtime \<Rightarrow> runtime" where
  "revokeCodesOf groupId deviceId now s = s\<lparr>rt_pairingCodesByHash := js_map_values (\<lambda>pc.
     if pc_groupId pc = groupId \<and> pc_createdByDeviceId pc = deviceId \<and> pc_consumedAt pc = None
     then pc\<lparr>pc_revokedAt := Some now\<rparr> else pc) (rt_pairingCodesByHash s)\<rparr>"

definition revokeDevice ::
  "rt_env \<Rightarrow> authenticated_device \<Rightarrow> string \<Rightarrow> string \<Rightarrow> string option \<Rightarrow> revoked_device rt" where
  "revokeDevice env authenticated groupId deviceId mutation =
     sm_bind (currentTime env) (\<lambda>claimedAt.
     sm_bind (claimReceipt env REVOKE_DEVICE mutation
        [(''group_id'', groupId), (''device_id'', deviceId),
         (''actor_device_id'', pd_id (au_device authenticated))] claimedAt) (\<lambda>claim.
     case Option.bind claim cl_replay of
       Some receipt \<Rightarrow> replayRevokedDevice (the claim) receipt
     | None \<Rightarrow>
         sm_bind (requireGroup groupId) (\<lambda>group.
         sm_bind (requireSameGroup authenticated (g_id group)) (\<lambda>_.
         sm_bind (requireRole authenticated ADMIN) (\<lambda>_.
         if pd_id (au_device authenticated) = deviceId
         then rt_fail FAILED_PRECONDITION ''An administrator cannot revoke the active device session.''
         else
           sm_bind (requireDevice deviceId) (\<lambda>targetDevice.
           sm_bind (requireActiveMembership (g_id group) (d_id targetDevice)) (\<lambda>targetMembership.
           sm_bind (sm_get (\<lambda>s. filter (\<lambda>m. m_groupId m = g_id group \<and> m_role m = ADMIN \<and>
                m_revokedAt m = None) (js_values (rt_memberships s)))) (\<lambda>activeAdmins.
           if g_authorityMode group = LEADER \<and> g_leaderDeviceId group = d_id targetDevice
           then rt_fail FAILED_PRECONDITION ''Transfer group leadership before revoking the current leader.''
           else if m_role targetMembership = ADMIN \<and> length activeAdmins = 1
           then rt_fail FAILED_PRECONDITION ''A group must retain at least one active administrator.''
           else
             sm_bind (currentTime env) (\<lambda>now.
             let updatedGroup = group\<lparr>g_revision := g_revision group + 1, g_updatedAt := now\<rparr>;
                 revokedMembership = targetMembership\<lparr>m_revokedAt := Some now\<rparr> in
             sm_bind (sm_modify (\<lambda>s. s\<lparr>rt_memberships :=
                js_set (membershipKey (g_id group) (d_id targetDevice)) revokedMembership (rt_memberships s)\<rparr>)) (\<lambda>_.
             sm_bind (sm_modify (revokeCodesOf (g_id group) (d_id targetDevice) now)) (\<lambda>_.
             sm_bind (sm_modify (revokeSessionsOf (g_id group) (d_id targetDevice) now)) (\<lambda>_.
             sm_bind (sm_modify (\<lambda>s. s\<lparr>rt_groups := js_set (g_id group) updatedGroup (rt_groups s)\<rparr>)) (\<lambda>_.
             sm_bind (completeRevokeReceipt claim (g_id group) (d_id targetDevice)
                        (g_revision updatedGroup) now) (\<lambda>_.
             sm_return \<lparr>rv_group = updatedGroup,
                        rv_device = (toPairedDevice targetDevice revokedMembership)\<lparr>pd_status := REVOKED\<rparr>,
                        rv_replayed = False\<rparr>))))))))))))))"

definition assertContextActor :: "authenticated_device \<Rightarrow> string option \<Rightarrow> unit rt" where
  "assertContextActor authenticated actorDeviceId =
     (case actorDeviceId of
        None \<Rightarrow> sm_return ()
      | Some actor \<Rightarrow>
          if length actor = 0 then sm_return ()
          else sm_require (actor = pd_id (au_device authenticated))
                 (PairedDeviceRuntimeError PERMISSION_DENIED
                    ''The mutation context actor does not match the authenticated device.''))"

end
