(* ===== verification/Paired_Invariant.thy ===== *)
theory Paired_Invariant
  imports Paired_Runtime
begin

text \<open>
  The well-formedness invariant of the paired-device runtime, and that every public method
  keeps it on every path, whether it returns or throws.
\<close>

section \<open>Weakest preconditions of the primitive methods\<close>

lemma wp_rt_fail [wp_simps]: "sm_wp (rt_fail c m) Q E s = E (PairedDeviceRuntimeError c m) s"
  by (simp add: rt_fail_def wp_simps)

lemma wp_lift_result [wp_simps]:
  "sm_wp (lift_result r) Q E s = (case r of Inl e \<Rightarrow> E e s | Inr a \<Rightarrow> Q a s)"
  by (simp add: lift_result_def wp_simps split: sum.split)

lemma wp_currentTime [wp_simps]:
  "sm_wp (currentTime env) Q E s =
     (case env_now env (rt_ticks s) of
        None \<Rightarrow> E (PlainError ''now must return a valid Date'') (s\<lparr>rt_ticks := Suc (rt_ticks s)\<rparr>)
      | Some t \<Rightarrow> Q t (s\<lparr>rt_ticks := Suc (rt_ticks s)\<rparr>))"
  by (simp add: sm_wp_def currentTime_def split: option.split)

lemma wp_randomBytes [wp_simps]:
  "sm_wp (randomBytes env n) Q E s =
     Q (env_randomBytes env (rt_draws s) n) (s\<lparr>rt_draws := Suc (rt_draws s)\<rparr>)"
  by (simp add: sm_wp_def randomBytes_def)

lemma wp_createToken [wp_simps]:
  "sm_wp (createToken env kind) Q E s =
     Q (''hq_'' @ kind @ ''_'' @ env_base64url env (env_randomBytes env (rt_draws s) 32))
       (s\<lparr>rt_draws := Suc (rt_draws s)\<rparr>)"
  by (simp add: createToken_def wp_simps)

text \<open>An identifier \<open>createId\<close> can produce from draw \<open>i\<close>.\<close>

definition drawnId :: "rt_env \<Rightarrow> nat \<Rightarrow> string \<Rightarrow> bool" where
  "drawnId env i k \<longleftrightarrow> (\<exists>now. k = formatUuid (uuidBytes now (env_randomBytes env i 16)))"

lemma wp_createId:
  assumes "\<And>k n. drawnId env (rt_draws s) k \<Longrightarrow> Q k (s\<lparr>rt_draws := Suc (rt_draws s), rt_ticks := n\<rparr>)"
    and "\<And>e n. E e (s\<lparr>rt_draws := Suc (rt_draws s), rt_ticks := n\<rparr>)"
  shows "sm_wp (createId env) Q E s"
proof -
  have eq: "s\<lparr>rt_draws := d\<rparr> = s\<lparr>rt_draws := d, rt_ticks := rt_ticks s\<rparr>" for d by simp
  show ?thesis
    unfolding createId_def
    using assms(1) assms(2) assms(2)[of _ "rt_ticks s"]
    by (auto simp: wp_simps drawnId_def split: option.splits)
qed

text \<open>The methods that only read the store: what they return, and that they change nothing.\<close>

lemma wp_requireGroup [wp_simps]:
  "sm_wp (requireGroup groupId) Q E s =
     (case requireText groupId ''group_id'' of
        Inl e \<Rightarrow> E e s
      | Inr key \<Rightarrow> (case js_get (rt_groups s) key of
          None \<Rightarrow> E (PairedDeviceRuntimeError NOT_FOUND ''The group does not exist.'') s
        | Some g \<Rightarrow> Q g s))"
  by (simp add: requireGroup_def wp_simps split: sum.split option.split)

lemma wp_requireDevice [wp_simps]:
  "sm_wp (requireDevice deviceId) Q E s =
     (case requireText deviceId ''device_id'' of
        Inl e \<Rightarrow> E e s
      | Inr key \<Rightarrow> (case js_get (rt_devicesById s) key of
          None \<Rightarrow> E (PairedDeviceRuntimeError NOT_FOUND ''The device does not exist.'') s
        | Some d \<Rightarrow> Q d s))"
  by (simp add: requireDevice_def wp_simps split: sum.split option.split)

definition notActiveMember :: rt_error where
  "notActiveMember =
     PairedDeviceRuntimeError PERMISSION_DENIED ''The device is not an active member of this group.''"

lemma wp_requireActiveMembership [wp_simps]:
  "sm_wp (requireActiveMembership groupId deviceId) Q E s =
     (case js_get (rt_memberships s) (membershipKey groupId deviceId) of
        None \<Rightarrow> E notActiveMember s
      | Some m \<Rightarrow> if m_revokedAt m \<noteq> None then E notActiveMember s else Q m s)"
  by (simp add: requireActiveMembership_def notActiveMember_def wp_simps split: option.split)

lemma wp_ensurePublicKeyAvailable [wp_simps]:
  "sm_wp (ensurePublicKeyAvailable k) Q E s =
     (case js_get (rt_deviceIdByPublicKey s) k of
        None \<Rightarrow> Q () s
      | Some _ \<Rightarrow> E (PairedDeviceRuntimeError ALREADY_EXISTS
                     ''A device with this public key is already registered.'') s)"
  by (simp add: ensurePublicKeyAvailable_def wp_simps split: option.split)

lemmas guard_defs = requireSameGroup_def requireRole_def

lemma requireText_Inr: "requireText v f = Inr k \<longleftrightarrow> k = js_trim v \<and> js_trim v \<noteq> []"
  by (auto simp: requireText_def Let_def)

text \<open>The introduction rules of the primitive methods.\<close>

lemma rt_wp_intros [wp_intros]:
  "E (PairedDeviceRuntimeError c m) s \<Longrightarrow> sm_wp (rt_fail c m) Q E s"
  "(\<And>e. r = Inl e \<Longrightarrow> E e s) \<Longrightarrow> (\<And>a. r = Inr a \<Longrightarrow> Q a s) \<Longrightarrow> sm_wp (lift_result r) Q E s"
  "(\<And>e. E e (s\<lparr>rt_ticks := Suc (rt_ticks s)\<rparr>)) \<Longrightarrow>
   (\<And>t. env_now env (rt_ticks s) = Some t \<Longrightarrow> Qt t (s\<lparr>rt_ticks := Suc (rt_ticks s)\<rparr>)) \<Longrightarrow>
   sm_wp (currentTime env) Qt E s"
  "(\<And>e. E e s) \<Longrightarrow>
   (\<And>g. js_get (rt_groups s) (js_trim gi) = Some g \<Longrightarrow> Qg g s) \<Longrightarrow> sm_wp (requireGroup gi) Qg E s"
  "(\<And>e. E e s) \<Longrightarrow>
   (\<And>d. js_get (rt_devicesById s) (js_trim di) = Some d \<Longrightarrow> Qd d s) \<Longrightarrow> sm_wp (requireDevice di) Qd E s"
  "(\<And>e. E e s) \<Longrightarrow>
   (\<And>m. js_get (rt_memberships s) (membershipKey gi di) = Some m \<Longrightarrow> m_revokedAt m = None \<Longrightarrow> Qm m s) \<Longrightarrow>
   sm_wp (requireActiveMembership gi di) Qm E s"
  "E (PairedDeviceRuntimeError ALREADY_EXISTS
        ''A device with this public key is already registered.'') s \<Longrightarrow>
   (js_get (rt_deviceIdByPublicKey s) k = None \<Longrightarrow> Qu () s) \<Longrightarrow> sm_wp (ensurePublicKeyAvailable k) Qu E s"
  by (auto simp: wp_simps requireText_Inr split: sum.split option.split)

section \<open>Identifiers\<close>

lemma js_trim_no_space:
  assumes "\<And>c. c \<in> set s \<Longrightarrow> \<not> is_js_space c"
  shows "js_trim s = s"
proof -
  have "dropWhile is_js_space xs = xs" if "\<And>c. c \<in> set xs \<Longrightarrow> \<not> is_js_space c" for xs
    using that by (cases xs) auto
  from this[of s] this[of "rev s"] show ?thesis using assms by (simp add: js_trim_def)
qed

text \<open>What every identifier the runtime mints satisfies.\<close>

definition proper_id :: "string \<Rightarrow> bool" where
  "proper_id k \<longleftrightarrow> js_trim k = k \<and> k \<noteq> [] \<and> CHR '':'' \<notin> set k"

lemma hex_digit_no_space: "d < 16 \<Longrightarrow> \<not> is_js_space (hex_digit d) \<and> hex_digit d \<noteq> CHR '':''"
proof -
  have "hex_digit d \<noteq> CHR '':''" if "d < 16"
  proof
    assume "hex_digit d = CHR '':''"
    then have "(of_char (hex_digit d) :: nat) = 58" by simp
    with that show False by (simp add: hex_digit_def split: if_splits)
  qed
  then show "d < 16 \<Longrightarrow> ?thesis"
    by (simp add: is_js_space_def hex_digit_def)
qed

lemma hex_no_space: "c \<in> set (hex bs) \<Longrightarrow> \<not> is_js_space c \<and> c \<noteq> CHR '':''"
proof -
  have "unat (b :: 8 word) div 16 < 16" for b
    using unsigned_less[of b] by (simp add: div_less_iff_less_mult)
  then show "c \<in> set (hex bs) \<Longrightarrow> ?thesis"
    by (auto simp: hex_def hex_digit_no_space)
qed

lemma formatUuid_proper: "proper_id (formatUuid u)"
proof -
  have "\<not> is_js_space c \<and> c \<noteq> CHR '':''" if "c \<in> set (formatUuid u)" for c
  proof -
    have "\<not> is_js_space (CHR ''-'')" by (simp add: is_js_space_def)
    with that show ?thesis by (auto simp: formatUuid_def dest: hex_no_space)
  qed
  moreover have "formatUuid u \<noteq> []" by (simp add: formatUuid_def)
  ultimately show ?thesis
    using js_trim_no_space[of "formatUuid u"] by (auto simp: proper_id_def)
qed

lemma drawnId_proper: "drawnId env i k \<Longrightarrow> proper_id k"
  by (auto simp: drawnId_def formatUuid_proper)

lemma proper_id_requireText: "proper_id k \<Longrightarrow> requireText k f = Inr k"
  by (simp add: requireText_def proper_id_def Let_def)

text \<open>With no colon in the second part, a membership key determines both parts.\<close>

lemma membershipKey_inject:
  assumes "proper_id d" and "proper_id d'"
  shows "membershipKey g d = membershipKey g' d' \<longleftrightarrow> g = g' \<and> d = d'"
proof
  assume eq: "membershipKey g d = membershipKey g' d'"
  have last: "takeWhile (\<lambda>c. c \<noteq> CHR '':'') (rev (membershipKey a b)) = rev b"
    if "proper_id b" for a b
    using that takeWhile_append2[of "rev b" "\<lambda>c. c \<noteq> CHR '':''" "CHR '':'' # rev a"]
    by (auto simp: membershipKey_def proper_id_def)
  from last[OF assms(1), of g] last[OF assms(2), of g'] eq have "d = d'" by simp
  with eq show "g = g' \<and> d = d'" by (simp add: membershipKey_def)
qed simp

section \<open>The invariant\<close>

text \<open>
  \<open>index_ok\<close>: every index entry is the address of a session; the access index finds a
  session under its own current hash, and never a revoked one.
  \<open>keys_ok\<close>: groups, devices and memberships are stored under their own identifiers, and an
  identifier is proper: trimmed, not empty, and with no colon; a member's device exists.
\<close>

definition index_ok ::
  "session_record list \<Rightarrow> (string, nat) jsmap \<Rightarrow> (string, nat) jsmap \<Rightarrow> (string, nat \<times> int) jsmap \<Rightarrow> bool"
  where
  "index_ok sessions byId access refresh \<longleftrightarrow>
     (\<forall>k r. js_get byId k = Some r \<longrightarrow> r < length sessions) \<and>
     (\<forall>h r. js_get access h = Some r \<longrightarrow>
        r < length sessions \<and> s_accessTokenHash (sessions ! r) = h \<and> s_revokedAt (sessions ! r) = None) \<and>
     (\<forall>h re. js_get refresh h = Some re \<longrightarrow> fst re < length sessions)"

definition keys_ok ::
  "(string, paired_group) jsmap \<Rightarrow> (string, device_record) jsmap \<Rightarrow> (string, membership_record) jsmap \<Rightarrow> bool"
  where
  "keys_ok groups devices memberships \<longleftrightarrow>
     (\<forall>k g. js_get groups k = Some g \<longrightarrow> g_id g = k \<and> proper_id k) \<and>
     (\<forall>k d. js_get devices k = Some d \<longrightarrow> d_id d = k \<and> proper_id k) \<and>
     (\<forall>k m. js_get memberships k = Some m \<longrightarrow>
        k = membershipKey (m_groupId m) (m_deviceId m) \<and> proper_id (m_deviceId m) \<and>
        js_get devices (m_deviceId m) \<noteq> None) \<and>
     distinct (map fst memberships)"

definition rt_wf :: "runtime \<Rightarrow> bool" where
  "rt_wf s \<longleftrightarrow>
     index_ok (rt_sessions s) (rt_sessionsById s) (rt_sessionsByAccessHash s) (rt_sessionsByRefreshHash s) \<and>
     keys_ok (rt_groups s) (rt_devicesById s) (rt_memberships s)"

lemma rt_wf_empty: "rt_wf emptyRuntime"
  by (simp add: rt_wf_def index_ok_def keys_ok_def emptyRuntime_def)

lemma rt_wf_groupD:
  "rt_wf s \<Longrightarrow> js_get (rt_groups s) k = Some g \<Longrightarrow> g_id g = k \<and> proper_id k"
  by (simp add: rt_wf_def keys_ok_def)

lemma rt_wf_deviceD:
  "rt_wf s \<Longrightarrow> js_get (rt_devicesById s) k = Some d \<Longrightarrow> d_id d = k \<and> proper_id k"
  by (simp add: rt_wf_def keys_ok_def)

lemma rt_wf_membershipD:
  "rt_wf s \<Longrightarrow> js_get (rt_memberships s) k = Some m \<Longrightarrow>
     k = membershipKey (m_groupId m) (m_deviceId m) \<and> proper_id (m_deviceId m) \<and>
     js_get (rt_devicesById s) (m_deviceId m) \<noteq> None"
  by (simp add: rt_wf_def keys_ok_def)

lemma rt_wf_accessD:
  "rt_wf s \<Longrightarrow> js_get (rt_sessionsByAccessHash s) h = Some r \<Longrightarrow>
     r < length (rt_sessions s) \<and> s_accessTokenHash (rt_sessions s ! r) = h \<and>
     s_revokedAt (rt_sessions s ! r) = None"
  by (simp add: rt_wf_def index_ok_def)

lemma rt_wf_refreshD:
  "rt_wf s \<Longrightarrow> js_get (rt_sessionsByRefreshHash s) h = Some (r, e) \<Longrightarrow> r < length (rt_sessions s)"
  unfolding rt_wf_def index_ok_def by fastforce

lemma rt_wf_byIdD:
  "rt_wf s \<Longrightarrow> js_get (rt_sessionsById s) k = Some r \<Longrightarrow> r < length (rt_sessions s)"
  by (simp add: rt_wf_def index_ok_def)

section \<open>Updates that keep the invariant\<close>

lemma keys_ok_set_group:
  "keys_ok gs ds ms \<Longrightarrow> g_id g = k \<Longrightarrow> proper_id k \<Longrightarrow> keys_ok (js_set k g gs) ds ms"
  unfolding keys_ok_def by (simp add: jsmap_simps)

lemma keys_ok_set_device:
  "keys_ok gs ds ms \<Longrightarrow> d_id d = k \<Longrightarrow> proper_id k \<Longrightarrow> keys_ok gs (js_set k d ds) ms"
  unfolding keys_ok_def by (simp add: jsmap_simps)

lemma keys_ok_set_membership:
  "keys_ok gs ds ms \<Longrightarrow> k = membershipKey (m_groupId m) (m_deviceId m) \<Longrightarrow>
     proper_id (m_deviceId m) \<Longrightarrow> js_get ds (m_deviceId m) \<noteq> None \<Longrightarrow> keys_ok gs ds (js_set k m ms)"
  unfolding keys_ok_def by (simp add: jsmap_simps)

text \<open>An object replaced under the key it was found by, with the same identity.\<close>

lemma keys_ok_touch_group:
  "keys_ok gs ds ms \<Longrightarrow> js_get gs k = Some g \<Longrightarrow> g_id g' = g_id g \<Longrightarrow> k' = g_id g \<Longrightarrow>
     keys_ok (js_set k' g' gs) ds ms"
  unfolding keys_ok_def by (auto simp: jsmap_simps split: if_splits)

lemma keys_ok_touch_device:
  "keys_ok gs ds ms \<Longrightarrow> js_get ds k = Some d \<Longrightarrow> d_id d' = d_id d \<Longrightarrow> keys_ok gs (js_set k d' ds) ms"
  unfolding keys_ok_def by (auto simp: jsmap_simps split: if_splits)

lemma keys_ok_touch_membership:
  "keys_ok gs ds ms \<Longrightarrow> js_get ms k = Some m \<Longrightarrow> m_groupId m' = m_groupId m \<Longrightarrow>
     m_deviceId m' = m_deviceId m \<Longrightarrow> keys_ok gs ds (js_set k m' ms)"
  unfolding keys_ok_def by (auto simp: jsmap_simps split: if_splits)

lemma keys_ok_new_device:
  "keys_ok gs ds ms \<Longrightarrow> drawnId env i k \<Longrightarrow> d_id d = k \<Longrightarrow> keys_ok gs (js_set k d ds) ms"
  by (auto dest: drawnId_proper intro: keys_ok_set_device)

lemma keys_ok_new_group:
  "keys_ok gs ds ms \<Longrightarrow> drawnId env i k \<Longrightarrow> g_id g = k \<Longrightarrow> keys_ok (js_set k g gs) ds ms"
  by (auto dest: drawnId_proper intro: keys_ok_set_group)

lemma keys_ok_new_member:
  assumes "keys_ok gs ds ms" and "drawnId env i k" and "d_id d = k" and "m_deviceId m = k" and "m_groupId m = g"
  shows "keys_ok gs (js_set k d ds) (js_set (membershipKey g k) m ms)"
  using assms
  by (intro keys_ok_set_membership keys_ok_new_device) (auto simp: drawnId_proper jsmap_simps)

lemma index_ok_new:
  assumes "index_ok ss ids acc ref" and "s_accessTokenHash x = ah" and "s_revokedAt x = None"
  shows "index_ok (ss @ [x]) (js_set i (length ss) ids) (js_set ah (length ss) acc)
    (js_set rh (length ss, e) ref)"
  using assms unfolding index_ok_def
  by (auto simp: jsmap_simps nth_append less_Suc_eq split: if_splits)

lemma index_ok_drop_access: "index_ok ss ids acc ref \<Longrightarrow> index_ok ss ids (js_delete h acc) ref"
  unfolding index_ok_def by (simp add: jsmap_simps)

text \<open>
  Deleting a session's access entry leaves none for it, so it may then be revoked, or be
  given a new hash and entered again.
\<close>

lemma access_gone:
  "index_ok ss ids acc ref \<Longrightarrow> js_get (js_delete (s_accessTokenHash (ss ! r)) acc) h \<noteq> Some r"
  unfolding index_ok_def by (auto simp: jsmap_simps)

lemma index_ok_revoke:
  assumes "index_ok ss ids acc ref"
  shows "index_ok (ss[r := x]) ids (js_delete (s_accessTokenHash (ss ! r)) acc) ref"
proof -
  have "ss[r := x] ! r' = ss ! r'" if "js_get acc h = Some r'" "h \<noteq> s_accessTokenHash (ss ! r)" for h r'
    using assms that unfolding index_ok_def by (metis nth_list_update_neq)
  with assms show ?thesis
    unfolding index_ok_def by (simp add: jsmap_simps)
qed

lemma index_ok_rotate:
  assumes "index_ok ss ids acc ref" and "r < length ss"
    and "s_accessTokenHash x = ah" and "s_revokedAt x = None"
  shows "index_ok (ss[r := x]) ids (js_set ah r (js_delete (s_accessTokenHash (ss ! r)) acc))
    (js_set rh (r, e) (js_set ph (r, e') ref))"
  using assms access_gone[OF assms(1)] unfolding index_ok_def
  by (auto simp: jsmap_simps nth_list_update split: if_splits)

lemma revokeCodesWhere_frame [simp]:
  "rt_wf (revokeCodesWhere P now s) = rt_wf s"
  "rt_sessions (revokeCodesWhere P now s) = rt_sessions s"
  "rt_sessionsById (revokeCodesWhere P now s) = rt_sessionsById s"
  "rt_sessionsByAccessHash (revokeCodesWhere P now s) = rt_sessionsByAccessHash s"
  "rt_sessionsByRefreshHash (revokeCodesWhere P now s) = rt_sessionsByRefreshHash s"
  "rt_groups (revokeCodesWhere P now s) = rt_groups s"
  "rt_devicesById (revokeCodesWhere P now s) = rt_devicesById s"
  "rt_deviceIdByPublicKey (revokeCodesWhere P now s) = rt_deviceIdByPublicKey s"
  "rt_memberships (revokeCodesWhere P now s) = rt_memberships s"
  "rt_receipts (revokeCodesWhere P now s) = rt_receipts s"
  "rt_ticks (revokeCodesWhere P now s) = rt_ticks s"
  "rt_draws (revokeCodesWhere P now s) = rt_draws s"
  by (simp_all add: revokeCodesWhere_def rt_wf_def)

lemmas revokeCodes_defs = revokePairingCodesForAccessToken_def revokePairingCodesForSession_def

text \<open>\<open>revokeSession\<close> in closed form.\<close>

lemma revokeSession_eq:
  assumes "ref < length (rt_sessions s)"
  shows "revokeSession ref now s =
    revokeCodesWhere (\<lambda>pc. pc_createdBySessionId pc = s_id (rt_sessions s ! ref)) now
      (s\<lparr>rt_sessions := (rt_sessions s)[ref := (rt_sessions s ! ref)\<lparr>s_revokedAt :=
           Some (case s_revokedAt (rt_sessions s ! ref) of None \<Rightarrow> now | Some t \<Rightarrow> t)\<rparr>],
         rt_sessionsByAccessHash := js_delete (s_accessTokenHash (rt_sessions s ! ref))
           (rt_sessionsByAccessHash s)\<rparr>)"
  using assms by (simp add: revokeSession_def updateSession_def Let_def revokeCodes_defs)

lemma revokeSession_wf:
  "rt_wf s \<Longrightarrow> ref < length (rt_sessions s) \<Longrightarrow> rt_wf (revokeSession ref now s)"
  by (simp add: revokeSession_eq rt_wf_def index_ok_revoke)

lemma issueSession_wf:
  assumes "rt_wf s"
  shows "sm_wp (issueSession env g d m now) (\<lambda>_. rt_wf) (\<lambda>_. rt_wf) s"
  using assms unfolding issueSession_def
  by (auto simp: wp_simps Let_def rt_wf_def intro!: wp_createId index_ok_new)

lemma rotateSession_wf:
  assumes "rt_wf s" and "ref < length (rt_sessions s)" and "s_revokedAt (rt_sessions s ! ref) = None"
  shows "sm_wp (rotateSession env ref h m now) (\<lambda>_. rt_wf) (\<lambda>_. rt_wf) s"
  using assms unfolding rotateSession_def
  by (auto simp: wp_simps Let_def revokeCodes_defs rt_wf_def
           intro!: wp_createId index_ok_rotate index_ok_drop_access)

lemma claimReceipt_wp:
  assumes "\<And>c r. Q c (s\<lparr>rt_receipts := r\<rparr>)" and "\<And>e. E e s"
  shows "sm_wp (claimReceipt env scope mutation fs now) Q E s"
proof -
  have "Q c s" for c using assms(1)[of c "rt_receipts s"] by simp
  with assms show ?thesis
    unfolding claimReceipt_def by (auto simp: wp_simps Let_def split: sum.split option.split)
qed

lemma updateClaimed_wp:
  assumes "\<And>r. Q () (s\<lparr>rt_receipts := r\<rparr>)"
  shows "sm_wp (updateClaimed claim f) Q E s"
proof -
  have "Q () s" using assms[of "rt_receipts s"] by simp
  with assms show ?thesis unfolding updateClaimed_def by (auto simp: wp_simps split: option.split)
qed

lemmas complete_defs = completeReceipt_def completePairingCodeReceipt_def completeRevokeReceipt_def

section \<open>Every method keeps the invariant\<close>

lemma rt_wf_frame [simp]:
  "rt_wf (s\<lparr>rt_ticks := a\<rparr>) = rt_wf s"
  "rt_wf (s\<lparr>rt_draws := b\<rparr>) = rt_wf s"
  "rt_wf (s\<lparr>rt_receipts := c\<rparr>) = rt_wf s"
  "rt_wf (s\<lparr>rt_pairingCodesByHash := d\<rparr>) = rt_wf s"
  by (simp_all add: rt_wf_def)

text \<open>
  Each subroutine's rule in the form the others use: from a well-formed state, whatever it
  returns or throws, the state it leaves is well-formed.
\<close>

lemma issueSession_wp:
  assumes "rt_wf s" and "\<And>a t. rt_wf t \<Longrightarrow> Q a t" and "\<And>e t. rt_wf t \<Longrightarrow> E e t"
  shows "sm_wp (issueSession env g d m now) Q E s"
  by (rule sm_wp_mono[OF issueSession_wf[OF assms(1)]]) (rule assms, assumption)+

lemma rotateSession_wp:
  assumes "rt_wf s" and "ref < length (rt_sessions s)" and "s_revokedAt (rt_sessions s ! ref) = None"
    and "\<And>a t. rt_wf t \<Longrightarrow> Q a t" and "\<And>e t. rt_wf t \<Longrightarrow> E e t"
  shows "sm_wp (rotateSession env ref h m now) Q E s"
  by (rule sm_wp_mono[OF rotateSession_wf[OF assms(1-3)]]) (rule assms, assumption)+

lemma reissue_wp:
  assumes "rt_wf s" and "\<And>a t. rt_wf t \<Longrightarrow> Q a t" and "\<And>e t. rt_wf t \<Longrightarrow> E e t"
  shows "sm_wp (reissueSessionCredentials env claim receipt now) Q E s"
  using assms unfolding reissueSessionCredentials_def
  by (auto simp: wp_simps split: sum.split option.split prod.split
           intro!: rotateSession_wp dest: rt_wf_byIdD)

lemma replayCreatedLifecycle_wf:
  assumes "rt_wf s"
  shows "sm_wp (replayCreatedLifecycle env claim receipt now) (\<lambda>_. rt_wf) (\<lambda>_. rt_wf) s"
  using assms unfolding replayCreatedLifecycle_def
  by (auto simp: wp_simps split: sum.split option.split intro!: reissue_wp)

lemma createGroup_wf:
  assumes "rt_wf s"
  shows "sm_wp (createGroup env name input mutation) (\<lambda>_. rt_wf) (\<lambda>_. rt_wf) s"
  using assms unfolding createGroup_def
  by (auto simp: wp_simps Let_def newDevice_def complete_defs split: sum.split option.split
        intro!: claimReceipt_wp wp_createId replayCreatedLifecycle_wf updateClaimed_wp
          issueSession_wp)
     (auto simp: rt_wf_def intro!: keys_ok_new_member keys_ok_new_group)

lemma retireReplacedPairingCode_wp:
  assumes "rt_wf s" and "\<And>t. rt_wf t \<Longrightarrow> Q () t" and "\<And>e t. rt_wf t \<Longrightarrow> E e t"
  shows "sm_wp (retireReplacedPairingCode env claim receipt) Q E s"
  using assms unfolding retireReplacedPairingCode_def
  by (auto simp: wp_simps split: option.split)

lemma createPairingCode_wf:
  assumes "rt_wf s"
  shows "sm_wp (createPairingCode env au gi role mutation) (\<lambda>_. rt_wf) (\<lambda>_. rt_wf) s"
  using assms unfolding createPairingCode_def requireActivePairingIssuer_def
  by (auto simp: wp_simps Let_def guard_defs complete_defs split: sum.split option.split
        intro!: claimReceipt_wp retireReplacedPairingCode_wp updateClaimed_wp)

lemma pairDevice_wf:
  assumes "rt_wf s"
  shows "sm_wp (pairDevice env code input mutation) (\<lambda>_. rt_wf) (\<lambda>_. rt_wf) s"
  using assms unfolding pairDevice_def
  by (auto simp: wp_simps Let_def newDevice_def complete_defs split: sum.split option.split
        intro!: claimReceipt_wp wp_createId replayCreatedLifecycle_wf updateClaimed_wp issueSession_wp)
     (auto simp: rt_wf_def intro!: keys_ok_new_member intro: keys_ok_touch_group)

lemma refreshDeviceSession_wf:
  assumes "rt_wf s"
  shows "sm_wp (refreshDeviceSession env token mutation) (\<lambda>_. rt_wf) (\<lambda>_. rt_wf) s"
  using assms unfolding refreshDeviceSession_def
  by (auto simp: wp_simps Let_def complete_defs split: sum.split option.split
        intro!: claimReceipt_wp reissue_wp rotateSession_wp updateClaimed_wp revokeSession_wf)
     (erule rt_wf_refreshD, assumption)+

lemma authenticateAccessToken_wf:
  assumes "rt_wf s"
  shows "sm_wp (authenticateAccessToken env token) (\<lambda>_. rt_wf) (\<lambda>_. rt_wf) s"
  using assms unfolding authenticateAccessToken_def
  by (auto simp: wp_simps Let_def requireText_Inr split: sum.split option.split)
     (auto simp: rt_wf_def intro: keys_ok_touch_device)

lemma sortedMembers_wp:
  assumes "\<And>a. Q a s" and "\<And>e. E e s"
  shows "sm_wp (sortedMembers env gi) Q E s"
proof -
  have devices: "sm_wp (sm_mapM (\<lambda>m. requireDevice (m_deviceId m)) ms) Q' E s"
    if "\<And>a. Q' a s" for ms Q'
    using that assms(2)
    by (induction ms arbitrary: Q') (auto simp: wp_simps split: sum.split option.split)
  show ?thesis
    unfolding sortedMembers_def using assms(1) by (auto simp: wp_simps intro!: devices)
qed

lemma listDevices_wf:
  assumes "rt_wf s"
  shows "sm_wp (listDevices env au gi sz cursor) (\<lambda>_. rt_wf) (\<lambda>_. rt_wf) s"
proof -
  have "sm_wp (sm_mapM (\<lambda>m. sm_bind (requireDevice (m_deviceId m))
      (\<lambda>d. sm_return (toPairedDevice d m))) ms) Q (\<lambda>_. rt_wf) s" if "\<And>a. Q a s" for ms Q
    using that assms
    by (induction ms arbitrary: Q) (auto simp: wp_simps split: sum.split option.split)
  with assms show ?thesis
    unfolding listDevices_def
    by (auto simp: wp_simps Let_def guard_defs split: sum.split option.split intro!: sortedMembers_wp)
qed

lemma revokeSessionsOf_wf: "rt_wf s \<Longrightarrow> rt_wf (revokeSessionsOf gi di now s)"
  unfolding revokeSessionsOf_def
  by (rule fold_preserves) (auto split: option.split intro: revokeSession_wf dest: rt_wf_accessD)

lemma revokeSession_frame [simp]:
  "rt_groups (revokeSession ref now s) = rt_groups s"
  "rt_devicesById (revokeSession ref now s) = rt_devicesById s"
  "rt_memberships (revokeSession ref now s) = rt_memberships s"
  "rt_receipts (revokeSession ref now s) = rt_receipts s"
  "rt_draws (revokeSession ref now s) = rt_draws s"
  "rt_ticks (revokeSession ref now s) = rt_ticks s"
  by (simp_all add: revokeSession_def Let_def revokeCodes_defs updateSession_def)

lemma revokeSessionsOf_frame [simp]:
  "rt_groups (revokeSessionsOf gi di now s) = rt_groups s"
  "rt_devicesById (revokeSessionsOf gi di now s) = rt_devicesById s"
  "rt_memberships (revokeSessionsOf gi di now s) = rt_memberships s"
  "rt_receipts (revokeSessionsOf gi di now s) = rt_receipts s"
  "rt_draws (revokeSessionsOf gi di now s) = rt_draws s"
  "rt_ticks (revokeSessionsOf gi di now s) = rt_ticks s"
  unfolding revokeSessionsOf_def
  by (rule fold_preserves, auto split: option.split)+

lemma revokeCodesOf_frame [simp]:
  "rt_groups (revokeCodesOf gi di now s) = rt_groups s"
  "rt_devicesById (revokeCodesOf gi di now s) = rt_devicesById s"
  "rt_memberships (revokeCodesOf gi di now s) = rt_memberships s"
  "rt_receipts (revokeCodesOf gi di now s) = rt_receipts s"
  "rt_sessions (revokeCodesOf gi di now s) = rt_sessions s"
  "rt_sessionsByAccessHash (revokeCodesOf gi di now s) = rt_sessionsByAccessHash s"
  "rt_draws (revokeCodesOf gi di now s) = rt_draws s"
  "rt_ticks (revokeCodesOf gi di now s) = rt_ticks s"
  "rt_wf (revokeCodesOf gi di now s) = rt_wf s"
  by (simp_all add: revokeCodesOf_def)

lemma rt_wf_set_group:
  "rt_wf s \<Longrightarrow> js_get (rt_groups s) k = Some g \<Longrightarrow> g_id g' = g_id g \<Longrightarrow>
     rt_wf (s\<lparr>rt_groups := js_set (g_id g) g' (rt_groups s)\<rparr>)"
  by (auto simp: rt_wf_def intro: keys_ok_touch_group)

lemma rt_wf_set_membership:
  "rt_wf s \<Longrightarrow> js_get (rt_memberships s) k = Some m \<Longrightarrow> m_groupId m' = m_groupId m \<Longrightarrow>
     m_deviceId m' = m_deviceId m \<Longrightarrow> rt_wf (s\<lparr>rt_memberships := js_set k m' (rt_memberships s)\<rparr>)"
  by (auto simp: rt_wf_def intro: keys_ok_touch_membership)

lemma revokeDevice_commit_wf:
  assumes "rt_wf t" and "js_get (rt_groups t) k = Some g" and "js_get (rt_memberships t) mk = Some m"
    and "g_id g' = g_id g" and "m_groupId m' = m_groupId m" and "m_deviceId m' = m_deviceId m"
    and "gs = rt_groups t" and "ms = rt_memberships t"
  shows "rt_wf ((revokeSessionsOf gi di now (revokeCodesOf gi di now
    (t\<lparr>rt_memberships := js_set mk m' ms\<rparr>)))\<lparr>rt_groups := js_set (g_id g) g' gs\<rparr>)"
proof -
  let ?u = "revokeSessionsOf gi di now (revokeCodesOf gi di now (t\<lparr>rt_memberships := js_set mk m' ms\<rparr>))"
  have "rt_wf ?u"
    using rt_wf_set_membership[OF assms(1,3,5,6)] assms(8) by (simp add: revokeSessionsOf_wf)
  moreover have "rt_groups ?u = gs" by (simp add: assms(7))
  ultimately show ?thesis
    using rt_wf_set_group[of ?u k g g'] assms(2,4,7) by simp
qed

lemma revokeDevice_wf:
  assumes "rt_wf s"
  shows "sm_wp (revokeDevice env au gi di mutation) (\<lambda>_. rt_wf) (\<lambda>_. rt_wf) s"
  using assms unfolding revokeDevice_def replayRevokedDevice_def guard_defs complete_defs
  by (intro wp_intros claimReceipt_wp updateClaimed_wp; simp?)
     (rule revokeDevice_commit_wf; (assumption | simp)?)

lemma assertContextActor_wf:
  "rt_wf s \<Longrightarrow> sm_wp (assertContextActor au actor) (\<lambda>_. rt_wf) (\<lambda>_. rt_wf) s"
  unfolding assertContextActor_def by (auto simp: wp_simps split: option.split)

end
