(* ===== verification/Paired_Evolution.thy ===== *)
theory Paired_Evolution
  imports Paired_Invariant
begin

text \<open>
  Histories of the paired-device runtime: the step relation of its public methods, the
  well-formedness invariant as an interpretation of \<open>invariant_system\<close>, and a two-state
  relation that every step satisfies: revoked sessions and memberships stay revoked, and
  consumed or revoked pairing codes stay so, unless a later random draw collides.
\<close>

section \<open>Histories\<close>

text \<open>One call of a public method, whether it returns or throws.\<close>

inductive rt_step :: "rt_env \<Rightarrow> runtime \<Rightarrow> runtime \<Rightarrow> bool" for env where
  step_createGroup: "rt_step env s (snd (createGroup env name input mutation s))"
| step_createPairingCode: "rt_step env s (snd (createPairingCode env au groupId role mutation s))"
| step_pairDevice: "rt_step env s (snd (pairDevice env code input mutation s))"
| step_refresh: "rt_step env s (snd (refreshDeviceSession env token mutation s))"
| step_authenticate: "rt_step env s (snd (authenticateAccessToken env token s))"
| step_listDevices: "rt_step env s (snd (listDevices env au groupId sz cursor s))"
| step_revokeDevice: "rt_step env s (snd (revokeDevice env au groupId deviceId mutation s))"
| step_assertContextActor: "rt_step env s (snd (assertContextActor au actor s))"

lemma rt_step_rule:
  assumes "rt_step env s t"
    and "\<And>name input mutation. sm_wp (createGroup env name input mutation) (\<lambda>_. P) (\<lambda>_. P) s"
    and "\<And>au gi role mutation. sm_wp (createPairingCode env au gi role mutation) (\<lambda>_. P) (\<lambda>_. P) s"
    and "\<And>code input mutation. sm_wp (pairDevice env code input mutation) (\<lambda>_. P) (\<lambda>_. P) s"
    and "\<And>token mutation. sm_wp (refreshDeviceSession env token mutation) (\<lambda>_. P) (\<lambda>_. P) s"
    and "\<And>token. sm_wp (authenticateAccessToken env token) (\<lambda>_. P) (\<lambda>_. P) s"
    and "\<And>au gi sz cursor. sm_wp (listDevices env au gi sz cursor) (\<lambda>_. P) (\<lambda>_. P) s"
    and "\<And>au gi di mutation. sm_wp (revokeDevice env au gi di mutation) (\<lambda>_. P) (\<lambda>_. P) s"
    and "\<And>au actor. sm_wp (assertContextActor au actor) (\<lambda>_. P) (\<lambda>_. P) s"
  shows "P t"
  using assms(1) by cases (use assms(2-) in \<open>simp_all add: sm_wp_state\<close>)

lemma rt_step_wf: "rt_wf s \<Longrightarrow> rt_step env s t \<Longrightarrow> rt_wf t"
  by (erule rt_step_rule)
     (simp_all add: createGroup_wf createPairingCode_wf pairDevice_wf refreshDeviceSession_wf
        authenticateAccessToken_wf listDevices_wf revokeDevice_wf assertContextActor_wf)

interpretation runtime_wf: invariant_system "\<lambda>s. s = emptyRuntime" "rt_step env" rt_wf for env
  by unfold_locales (auto simp: rt_wf_empty intro: rt_step_wf)

section \<open>What never comes back\<close>

text \<open>
  The identifiers and tokens drawn between two points of a history. A retired membership or
  pairing code can be overwritten only by a draw that collides with it.
\<close>

definition mintedToken :: "rt_env \<Rightarrow> string \<Rightarrow> nat \<Rightarrow> string" where
  "mintedToken env kind i = ''hq_'' @ kind @ ''_'' @ env_base64url env (env_randomBytes env i 32)"

definition freshMember :: "rt_env \<Rightarrow> nat \<Rightarrow> nat \<Rightarrow> string \<Rightarrow> bool" where
  "freshMember env a b k \<longleftrightarrow> (\<exists>i g d. a \<le> i \<and> i < b \<and> drawnId env i d \<and> k = membershipKey g d)"

definition freshCode :: "rt_env \<Rightarrow> nat \<Rightarrow> nat \<Rightarrow> string \<Rightarrow> bool" where
  "freshCode env a b h \<longleftrightarrow> (\<exists>i. a \<le> i \<and> i < b \<and> h = hashToken env ''pair'' (mintedToken env ''pair'' i))"

definition spent :: "pairing_code_record \<Rightarrow> bool" where
  "spent pc \<longleftrightarrow> pc_consumedAt pc \<noteq> None \<or> pc_revokedAt pc \<noteq> None"

definition sessions_evolve :: "session_record list \<Rightarrow> session_record list \<Rightarrow> bool" where
  "sessions_evolve xs ys \<longleftrightarrow> length xs \<le> length ys \<and>
     (\<forall>r < length xs. s_revokedAt (xs ! r) \<noteq> None \<longrightarrow> s_revokedAt (ys ! r) \<noteq> None)"

definition members_evolve ::
  "(string \<Rightarrow> bool) \<Rightarrow> (string, membership_record) jsmap \<Rightarrow> (string, membership_record) jsmap \<Rightarrow> bool" where
  "members_evolve F ms ns \<longleftrightarrow>
     (\<forall>k m. js_get ms k = Some m \<longrightarrow> m_revokedAt m \<noteq> None \<longrightarrow>
        F k \<or> (\<exists>n. js_get ns k = Some n \<and> m_revokedAt n \<noteq> None))"

definition codes_evolve ::
  "(string \<Rightarrow> bool) \<Rightarrow> (string, pairing_code_record) jsmap \<Rightarrow> (string, pairing_code_record) jsmap \<Rightarrow> bool" where
  "codes_evolve F cs ds \<longleftrightarrow>
     (\<forall>k c. js_get cs k = Some c \<longrightarrow> spent c \<longrightarrow> F k \<or> (\<exists>d. js_get ds k = Some d \<and> spent d))"

definition evolves :: "rt_env \<Rightarrow> runtime \<Rightarrow> runtime \<Rightarrow> bool" where
  "evolves env s t \<longleftrightarrow>
     rt_draws s \<le> rt_draws t \<and>
     sessions_evolve (rt_sessions s) (rt_sessions t) \<and>
     members_evolve (freshMember env (rt_draws s) (rt_draws t)) (rt_memberships s) (rt_memberships t) \<and>
     codes_evolve (freshCode env (rt_draws s) (rt_draws t)) (rt_pairingCodesByHash s)
       (rt_pairingCodesByHash t)"

lemma fresh_mono:
  "freshMember env a b k \<Longrightarrow> a' \<le> a \<Longrightarrow> b \<le> b' \<Longrightarrow> freshMember env a' b' k"
  "freshCode env a b h \<Longrightarrow> a' \<le> a \<Longrightarrow> b \<le> b' \<Longrightarrow> freshCode env a' b' h"
proof -
  have "\<exists>i. a' \<le> i \<and> i < b' \<and> P i" if "\<exists>i. a \<le> i \<and> i < b \<and> P i" "a' \<le> a" "b \<le> b'" for P
    using that le_trans less_le_trans by blast
  then show "freshMember env a b k \<Longrightarrow> a' \<le> a \<Longrightarrow> b \<le> b' \<Longrightarrow> freshMember env a' b' k"
    "freshCode env a b h \<Longrightarrow> a' \<le> a \<Longrightarrow> b \<le> b' \<Longrightarrow> freshCode env a' b' h"
    unfolding freshMember_def freshCode_def by simp_all
qed

lemma evolves_refl [simp]: "evolves env s s"
  by (auto simp: evolves_def sessions_evolve_def members_evolve_def codes_evolve_def)

lemma members_evolve_trans:
  assumes "members_evolve F a b" and "members_evolve G b c" and "\<And>k. F k \<or> G k \<Longrightarrow> H k"
  shows "members_evolve H a c"
  using assms unfolding members_evolve_def by meson

lemma codes_evolve_trans:
  assumes "codes_evolve F a b" and "codes_evolve G b c" and "\<And>k. F k \<or> G k \<Longrightarrow> H k"
  shows "codes_evolve H a c"
  using assms unfolding codes_evolve_def by meson

lemma evolves_trans: 
  assumes st: "evolves env s t" and tu: "evolves env t u"
  shows "evolves env s u"
proof -
  have draws: "rt_draws s \<le> rt_draws t" "rt_draws t \<le> rt_draws u"
    using assms by (auto simp: evolves_def)
  have "members_evolve (freshMember env (rt_draws s) (rt_draws u)) (rt_memberships s) (rt_memberships u)"
    by (rule members_evolve_trans[of "freshMember env (rt_draws s) (rt_draws t)" _ "rt_memberships t"
          "freshMember env (rt_draws t) (rt_draws u)"])
       (use st tu draws fresh_mono(1) in \<open>auto simp: evolves_def\<close>)
  moreover have "codes_evolve (freshCode env (rt_draws s) (rt_draws u)) (rt_pairingCodesByHash s)
      (rt_pairingCodesByHash u)"
    by (rule codes_evolve_trans[of "freshCode env (rt_draws s) (rt_draws t)" _ "rt_pairingCodesByHash t"
          "freshCode env (rt_draws t) (rt_draws u)"])
       (use st tu draws fresh_mono(2) in \<open>auto simp: evolves_def\<close>)
  moreover have "sessions_evolve (rt_sessions s) (rt_sessions u)"
    using st tu unfolding evolves_def sessions_evolve_def by auto
  ultimately show ?thesis using draws by (simp add: evolves_def)
qed

lemma evolves_frame [simp]:
  "evolves env s (t\<lparr>rt_ticks := a\<rparr>) = evolves env s t"
  "evolves env s (t\<lparr>rt_receipts := b\<rparr>) = evolves env s t"
  "evolves env s (t\<lparr>rt_groups := c\<rparr>) = evolves env s t"
  "evolves env s (t\<lparr>rt_devicesById := d\<rparr>) = evolves env s t"
  "evolves env s (t\<lparr>rt_deviceIdByPublicKey := e\<rparr>) = evolves env s t"
  "evolves env s (t\<lparr>rt_sessionsById := f\<rparr>) = evolves env s t"
  "evolves env s (t\<lparr>rt_sessionsByAccessHash := g\<rparr>) = evolves env s t"
  "evolves env s (t\<lparr>rt_sessionsByRefreshHash := h\<rparr>) = evolves env s t"
  by (simp_all add: evolves_def)

lemma evolves_draws: 
  assumes "evolves env s t" and "rt_draws t \<le> n"
  shows "evolves env s (t\<lparr>rt_draws := n\<rparr>)"
proof (rule evolves_trans[OF assms(1)])
  show "evolves env t (t\<lparr>rt_draws := n\<rparr>)"
    using assms(2) by (auto simp: evolves_def sessions_evolve_def members_evolve_def codes_evolve_def)
qed

lemma evolves_sessions:
  assumes "evolves env s t" and "sessions_evolve (rt_sessions t) ys"
  shows "evolves env s (t\<lparr>rt_sessions := ys\<rparr>)"
  by (rule evolves_trans[OF assms(1)])
     (use assms(2) in \<open>auto simp: evolves_def members_evolve_def codes_evolve_def\<close>)

lemma sessions_evolve_simps [simp]:
  "sessions_evolve xs (xs @ zs)"
  "s_revokedAt x = s_revokedAt (xs ! r) \<or> s_revokedAt x \<noteq> None \<Longrightarrow> sessions_evolve xs (xs[r := x])"
proof -
  show "sessions_evolve xs (xs @ zs)"
    by (simp add: sessions_evolve_def nth_append)
  show "sessions_evolve xs (xs[r := x])" if "s_revokedAt x = s_revokedAt (xs ! r) \<or> s_revokedAt x \<noteq> None"
    using that unfolding sessions_evolve_def
    by (metis le_refl length_list_update nth_list_update_eq nth_list_update_neq)
qed

lemma evolves_new_member:
  assumes "drawnId env i d" and "rt_draws s \<le> i" and "i < rt_draws t"
    and "ms = rt_memberships t" and "evolves env s t"
  shows "evolves env s (t\<lparr>rt_memberships := js_set (membershipKey g d) m ms\<rparr>)"
proof -
  have "freshMember env (rt_draws s) (rt_draws t) (membershipKey g d)"
    using assms(1-3) unfolding freshMember_def by blast
  with assms(4,5) show ?thesis
    unfolding evolves_def members_evolve_def by (auto simp: jsmap_simps)
qed

lemma evolves_retire_member:
  assumes "evolves env s t" and "m_revokedAt m \<noteq> None" and "ms = rt_memberships t"
  shows "evolves env s (t\<lparr>rt_memberships := js_set k m ms\<rparr>)"
  using assms unfolding evolves_def members_evolve_def by (auto simp: jsmap_simps)

lemma evolves_new_code:
  assumes "evolves env s t" and "h = hashToken env ''pair'' (mintedToken env ''pair'' i)"
    and "rt_draws s \<le> i" and "i < rt_draws t" and "cs = rt_pairingCodesByHash t"
  shows "evolves env s (t\<lparr>rt_pairingCodesByHash := js_set h pc cs\<rparr>)"
proof -
  have "freshCode env (rt_draws s) (rt_draws t) h"
    using assms(2-4) unfolding freshCode_def by blast
  with assms(1,5) show ?thesis
    unfolding evolves_def codes_evolve_def by (auto simp: jsmap_simps)
qed

lemma evolves_spend_code:
  assumes "evolves env s t" and "spent pc" and "cs = rt_pairingCodesByHash t"
  shows "evolves env s (t\<lparr>rt_pairingCodesByHash := js_set h pc cs\<rparr>)"
  using assms unfolding evolves_def codes_evolve_def by (auto simp: jsmap_simps)

lemma evolves_map_codes:
  assumes "evolves env s t" and "\<And>pc. spent pc \<Longrightarrow> spent (f pc)" and "cs = rt_pairingCodesByHash t"
  shows "evolves env s (t\<lparr>rt_pairingCodesByHash := js_map_values f cs\<rparr>)"
  using assms unfolding evolves_def codes_evolve_def by (fastforce simp: jsmap_simps)

lemma revokeCodesWhere_evolves:
  "evolves env s t \<Longrightarrow> evolves env s (revokeCodesWhere P now t)"
  unfolding revokeCodesWhere_def by (rule evolves_map_codes) (auto simp: spent_def)

lemma revokeCodesOf_evolves:
  "evolves env s t \<Longrightarrow> evolves env s (revokeCodesOf gi di now t)"
  unfolding revokeCodesOf_def by (rule evolves_map_codes) (auto simp: spent_def)

lemma revokeSession_evolves: "evolves env s t \<Longrightarrow> evolves env s (revokeSession ref now t)"
  unfolding revokeSession_def revokeCodes_defs updateSession_def Let_def
  by (auto intro!: revokeCodesWhere_evolves evolves_sessions)

lemma revokeSessionsOf_evolves: "evolves env s t \<Longrightarrow> evolves env s (revokeSessionsOf gi di now t)"
  unfolding revokeSessionsOf_def
  by (rule fold_preserves) (auto split: option.split intro: revokeSession_evolves)

lemmas evolves_intros = evolves_draws evolves_sessions evolves_new_member revokeCodesWhere_evolves
  revokeCodesOf_evolves revokeSession_evolves revokeSessionsOf_evolves

lemma createToken_wp [wp_intros]:
  "Q (mintedToken env kind (rt_draws s)) (s\<lparr>rt_draws := Suc (rt_draws s)\<rparr>) \<Longrightarrow>
   sm_wp (createToken env kind) Q E s"
  by (simp add: wp_simps mintedToken_def)

lemmas [wp_intros] = wp_createId claimReceipt_wp updateClaimed_wp

text \<open>A subroutine that only evolves the state, in the form its callers use.\<close>

lemma evolves_wpI:
  assumes "sm_wp m (\<lambda>_. evolves env s) (\<lambda>_. evolves env s) s"
    and "\<And>a t. evolves env s t \<Longrightarrow> Q a t" and "\<And>e t. evolves env s t \<Longrightarrow> E e t"
  shows "sm_wp m Q E s"
  by (rule sm_wp_mono[OF assms(1)]) (rule assms, assumption)+

lemma issueSession_evolves:
  "sm_wp (issueSession env g d m now) (\<lambda>_. evolves env s) (\<lambda>_. evolves env s) s"
  unfolding issueSession_def Let_def
  by (intro wp_intros) (auto intro!: evolves_intros)

lemma rotateSession_evolves:
  "sm_wp (rotateSession env ref h m now) (\<lambda>_. evolves env s) (\<lambda>_. evolves env s) s"
  unfolding rotateSession_def Let_def revokeCodes_defs
  by (intro wp_intros) (auto intro!: evolves_intros)

lemma reissue_evolves:
  "sm_wp (reissueSessionCredentials env claim receipt now) (\<lambda>_. evolves env s) (\<lambda>_. evolves env s) s"
  unfolding reissueSessionCredentials_def
  by (intro wp_intros rotateSession_evolves) auto

lemma replayCreatedLifecycle_evolves:
  "sm_wp (replayCreatedLifecycle env claim receipt now) (\<lambda>_. evolves env s) (\<lambda>_. evolves env s) s"
  unfolding replayCreatedLifecycle_def
  by (intro wp_intros evolves_wpI[OF reissue_evolves]) auto

lemma evolves_via: "evolves env t u \<Longrightarrow> evolves env s t \<Longrightarrow> evolves env s u"
  by (rule evolves_trans)

lemma createGroup_evolves:
  "sm_wp (createGroup env name input mutation) (\<lambda>_. evolves env s) (\<lambda>_. evolves env s) s"
  unfolding createGroup_def complete_defs
  by (intro wp_intros evolves_wpI[OF replayCreatedLifecycle_evolves]
        evolves_wpI[OF issueSession_evolves])
     (auto intro!: evolves_intros elim!: evolves_via)

lemma retireReplacedPairingCode_evolves:
  "sm_wp (retireReplacedPairingCode env claim receipt) (\<lambda>_. evolves env s) (\<lambda>_. evolves env s) s"
  unfolding retireReplacedPairingCode_def
  by (intro wp_intros) (auto simp: spent_def intro!: evolves_spend_code)

lemma evolves_drawsD: "evolves env s t \<Longrightarrow> rt_draws s \<le> rt_draws t"
  by (simp add: evolves_def)

lemma createPairingCode_evolves:
  "sm_wp (createPairingCode env au gi role mutation) (\<lambda>_. evolves env s) (\<lambda>_. evolves env s) s"
  unfolding createPairingCode_def requireActivePairingIssuer_def complete_defs guard_defs
  by (intro wp_intros evolves_wpI[OF retireReplacedPairingCode_evolves])
     (auto simp: evolves_drawsD intro!: evolves_intros evolves_new_code
        elim!: evolves_via dest: evolves_drawsD)

lemma pairDevice_evolves:
  "sm_wp (pairDevice env code input mutation) (\<lambda>_. evolves env s) (\<lambda>_. evolves env s) s"
  unfolding pairDevice_def complete_defs
  by (intro wp_intros evolves_wpI[OF replayCreatedLifecycle_evolves]
        evolves_wpI[OF issueSession_evolves])
     (auto simp: spent_def intro!: evolves_intros evolves_spend_code elim!: evolves_via, simp_all, simp_all)

lemma refreshDeviceSession_evolves:
  "sm_wp (refreshDeviceSession env token mutation) (\<lambda>_. evolves env s) (\<lambda>_. evolves env s) s"
  unfolding refreshDeviceSession_def complete_defs
  by (intro wp_intros evolves_wpI[OF reissue_evolves] evolves_wpI[OF rotateSession_evolves])
     (auto intro!: evolves_intros elim!: evolves_via)

lemma authenticateAccessToken_evolves:
  "sm_wp (authenticateAccessToken env token) (\<lambda>_. evolves env s) (\<lambda>_. evolves env s) s"
  unfolding authenticateAccessToken_def by (intro wp_intros) auto

lemma mapM_wp:
  assumes "\<And>x Q'. x \<in> set xs \<Longrightarrow> (\<And>a. Q' a s) \<Longrightarrow> sm_wp (f x) Q' E s" and "\<And>ys. Q ys s"
  shows "sm_wp (sm_mapM f xs) Q E s"
  using assms
proof (induction xs arbitrary: Q)
  case Nil
  then show ?case by (simp add: sm_wp_def)
next
  case (Cons x xs)
  then have "sm_wp (sm_bind (sm_mapM f xs) (\<lambda>ys. sm_return (y # ys))) Q E s" for y
    by (auto intro!: sm_wp_intros(1) simp: sm_wp_basic(1))
  with Cons.prems(1) show ?case by (auto intro!: sm_wp_intros(1))
qed

lemma listDevices_evolves:
  "sm_wp (listDevices env au gi sz cursor) (\<lambda>_. evolves env s) (\<lambda>_. evolves env s) s"
  unfolding listDevices_def guard_defs by (intro wp_intros sortedMembers_wp mapM_wp) auto

lemma revokeDevice_evolves:
  "sm_wp (revokeDevice env au gi di mutation) (\<lambda>_. evolves env s) (\<lambda>_. evolves env s) s"
  unfolding revokeDevice_def replayRevokedDevice_def guard_defs complete_defs
  by (intro wp_intros) (auto intro!: evolves_intros evolves_retire_member)

lemma assertContextActor_evolves:
  "sm_wp (assertContextActor au actor) (\<lambda>_. evolves env s) (\<lambda>_. evolves env s) s"
  unfolding assertContextActor_def by (intro wp_intros) auto

lemma rt_step_evolves: "rt_step env s t \<Longrightarrow> evolves env s t"
  by (erule rt_step_rule)
     (simp_all add: createGroup_evolves createPairingCode_evolves pairDevice_evolves
        refreshDeviceSession_evolves authenticateAccessToken_evolves listDevices_evolves
        revokeDevice_evolves assertContextActor_evolves)

lemma reaches_evolves: "reaches (rt_step env) s t \<Longrightarrow> evolves env s t"
  by (induction rule: reaches.induct) (auto intro: evolves_trans rt_step_evolves)

end
