(* ===== verification/Paired_Refresh.thy ===== *)
theory Paired_Refresh
  imports Paired_Evolution
begin

text \<open>
  A refresh token that its session has rotated away from stays known to the runtime: whatever is
  called later, its hash leads to the session and is the current hash of none, as long as no token
  drawn since has that hash.
\<close>

section \<open>A retired refresh token\<close>

definition retiredToken :: "nat \<Rightarrow> string \<Rightarrow> nat \<Rightarrow> int \<Rightarrow> runtime \<Rightarrow> bool" where
  "retiredToken n h ref expiry s \<longleftrightarrow> n \<le> rt_draws s \<and>
     js_get (rt_sessionsByRefreshHash s) h = Some (ref, expiry) \<and>
     (\<forall>r < length (rt_sessions s). s_refreshTokenHash (rt_sessions s ! r) \<noteq> h) \<and>
     (\<forall>k r. js_get (rt_sessionsById s) k = Some r \<longrightarrow> r < length (rt_sessions s)) \<and>
     (\<forall>k r e. js_get (rt_sessionsByRefreshHash s) k = Some (r, e) \<longrightarrow> r < length (rt_sessions s))"

lemma retired_frame [simp]:
  "retiredToken n h ref x (t\<lparr>rt_ticks := a\<rparr>) = retiredToken n h ref x t"
  "retiredToken n h ref x (t\<lparr>rt_receipts := b\<rparr>) = retiredToken n h ref x t"
  "retiredToken n h ref x (t\<lparr>rt_groups := c\<rparr>) = retiredToken n h ref x t"
  "retiredToken n h ref x (t\<lparr>rt_devicesById := d\<rparr>) = retiredToken n h ref x t"
  "retiredToken n h ref x (t\<lparr>rt_deviceIdByPublicKey := e\<rparr>) = retiredToken n h ref x t"
  "retiredToken n h ref x (t\<lparr>rt_memberships := f\<rparr>) = retiredToken n h ref x t"
  "retiredToken n h ref x (t\<lparr>rt_sessionsByAccessHash := g\<rparr>) = retiredToken n h ref x t"
  "retiredToken n h ref x (t\<lparr>rt_pairingCodesByHash := i\<rparr>) = retiredToken n h ref x t"
  by (simp_all add: retiredToken_def)

lemma retired_draws: "retiredToken n h ref x t \<Longrightarrow> rt_draws t \<le> m \<Longrightarrow> retiredToken n h ref x (t\<lparr>rt_draws := m\<rparr>)"
  by (simp add: retiredToken_def)

lemma retired_drawn: "retiredToken n h ref x t \<Longrightarrow> n \<le> rt_draws t"
  by (simp add: retiredToken_def)

lemma retired_revokeCodes [simp]:
  "retiredToken n h ref x (revokeCodesWhere P now t) = retiredToken n h ref x t"
  "retiredToken n h ref x (revokeCodesOf gi di now t) = retiredToken n h ref x t"
  by (simp_all add: revokeCodesWhere_def revokeCodesOf_def)

lemma retired_updateSession:
  assumes "retiredToken n h ref x t" and "\<And>s. s_refreshTokenHash (f s) = s_refreshTokenHash s"
  shows "retiredToken n h ref x (updateSession r f t)"
proof -
  have "s_refreshTokenHash ((rt_sessions t)[r := f (rt_sessions t ! r)] ! i) \<noteq> h" if "i < length (rt_sessions t)" for i
    using assms that by (cases "i = r") (auto simp: retiredToken_def)
  then show ?thesis using assms(1) by (simp add: retiredToken_def updateSession_def)
qed

lemma retired_revokeSession: "retiredToken n h ref x t \<Longrightarrow> retiredToken n h ref x (revokeSession r now t)"
  unfolding revokeSession_def revokeCodes_defs Let_def by (auto intro!: retired_updateSession)

lemma retired_revokeSessionsOf: "retiredToken n h ref x t \<Longrightarrow> retiredToken n h ref x (revokeSessionsOf gi di now t)"
  unfolding revokeSessionsOf_def
  by (rule fold_preserves) (auto split: option.split intro: retired_revokeSession)

text \<open>Tokens drawn from the \<open>n\<close>th draw on do not have the hash.\<close>

definition noCollision :: "rt_env \<Rightarrow> nat \<Rightarrow> string \<Rightarrow> bool" where
  "noCollision env n h \<longleftrightarrow> (\<forall>i \<ge> n. hashToken env ''refresh'' (mintedToken env ''refresh'' i) \<noteq> h)"

lemma noCollisionD:
  "noCollision env n h \<Longrightarrow> n \<le> i \<Longrightarrow> hashToken env ''refresh'' (mintedToken env ''refresh'' i) \<noteq> h"
  by (simp add: noCollision_def)

section \<open>Every call keeps it\<close>

lemma retired_wpI:
  assumes "sm_wp m (\<lambda>_. retiredToken n h ref x) (\<lambda>_. retiredToken n h ref x) s"
    and "\<And>a t. retiredToken n h ref x t \<Longrightarrow> Q a t" and "\<And>e t. retiredToken n h ref x t \<Longrightarrow> E e t"
  shows "sm_wp m Q E s"
  by (rule sm_wp_mono[OF assms(1)]) (rule assms, assumption)+

lemmas retired_intros = retired_draws retired_revokeSession retired_revokeSessionsOf

text \<open>The two places that write a session's refresh hash write that of a token just drawn.\<close>

lemma issueSession_retired:
  assumes "noCollision env n h" and "retiredToken n h ref x s"
  shows "sm_wp (issueSession env g d m now) (\<lambda>_. retiredToken n h ref x) (\<lambda>_. retiredToken n h ref x) s"
proof -
  have "hashToken env ''refresh'' (mintedToken env ''refresh'' (Suc (rt_draws s))) \<noteq> h"
    using assms by (intro noCollisionD) (auto dest: retired_drawn)
  then show ?thesis
    unfolding issueSession_def Let_def
    by (intro wp_intros)
       (use assms(2) in \<open>auto simp: retiredToken_def jsmap_simps nth_append less_Suc_eq\<close>)
qed

lemma rotateSession_retired:
  assumes "noCollision env n h" and "retiredToken n h ref x s" and "r < length (rt_sessions s)" and "previous \<noteq> h"
  shows "sm_wp (rotateSession env r previous m now) (\<lambda>_. retiredToken n h ref x) (\<lambda>_. retiredToken n h ref x) s"
proof -
  have "hashToken env ''refresh'' (mintedToken env ''refresh'' (Suc (rt_draws s))) \<noteq> h"
    using assms(1,2) by (intro noCollisionD) (auto dest: retired_drawn)
  then show ?thesis
    unfolding rotateSession_def Let_def revokeCodes_defs revokeCodesWhere_def
    by (intro wp_intros)
       (use assms(2-4) in \<open>auto simp: retiredToken_def jsmap_simps nth_list_update\<close>)
qed

lemma retired_bounds:
  "retiredToken n h ref x s \<Longrightarrow> js_get (rt_sessionsById s) k = Some r \<Longrightarrow>
     r < length (rt_sessions s) \<and> s_refreshTokenHash (rt_sessions s ! r) \<noteq> h"
  "retiredToken n h ref x s \<Longrightarrow> js_get (rt_sessionsByRefreshHash s) k = Some (r, e) \<Longrightarrow>
     r < length (rt_sessions s) \<and> s_refreshTokenHash (rt_sessions s ! r) \<noteq> h"
  unfolding retiredToken_def by blast+

lemma reissue_retired:
  assumes "noCollision env n h" and "retiredToken n h ref x s"
  shows "sm_wp (reissueSessionCredentials env claim receipt now) (\<lambda>_. retiredToken n h ref x) (\<lambda>_. retiredToken n h ref x) s"
  unfolding reissueSessionCredentials_def
  by (intro wp_intros rotateSession_retired[OF assms(1)]) (use assms(2) retired_bounds(1) in auto)

lemma replayCreatedLifecycle_retired:
  assumes "noCollision env n h" and "retiredToken n h ref x s"
  shows "sm_wp (replayCreatedLifecycle env claim receipt now) (\<lambda>_. retiredToken n h ref x) (\<lambda>_. retiredToken n h ref x) s"
  unfolding replayCreatedLifecycle_def
  by (intro wp_intros retired_wpI[OF reissue_retired[OF assms]]) auto

lemma createGroup_retired:
  assumes "noCollision env n h" and "retiredToken n h ref x s"
  shows "sm_wp (createGroup env name input mutation) (\<lambda>_. retiredToken n h ref x) (\<lambda>_. retiredToken n h ref x) s"
  unfolding createGroup_def complete_defs
  by (intro wp_intros retired_wpI[OF replayCreatedLifecycle_retired[OF assms(1)]]
        retired_wpI[OF issueSession_retired[OF assms(1)]])
     (use assms(2) in \<open>auto intro!: retired_intros dest: retired_drawn\<close>)

lemma retireReplacedPairingCode_retired:
  assumes "retiredToken n h ref x s"
  shows "sm_wp (retireReplacedPairingCode env claim receipt) (\<lambda>_. retiredToken n h ref x) (\<lambda>_. retiredToken n h ref x) s"
  unfolding retireReplacedPairingCode_def by (intro wp_intros) (use assms in auto)

lemma createPairingCode_retired:
  assumes "retiredToken n h ref x s"
  shows "sm_wp (createPairingCode env au gi role mutation) (\<lambda>_. retiredToken n h ref x) (\<lambda>_. retiredToken n h ref x) s"
  unfolding createPairingCode_def requireActivePairingIssuer_def complete_defs guard_defs
  by (intro wp_intros retired_wpI[OF retireReplacedPairingCode_retired])
     (use assms in \<open>auto intro!: retired_intros\<close>)

lemma pairDevice_retired:
  assumes "noCollision env n h" and "retiredToken n h ref x s"
  shows "sm_wp (pairDevice env code input mutation) (\<lambda>_. retiredToken n h ref x) (\<lambda>_. retiredToken n h ref x) s"
  unfolding pairDevice_def complete_defs
  by (intro wp_intros retired_wpI[OF replayCreatedLifecycle_retired[OF assms(1)]]
        retired_wpI[OF issueSession_retired[OF assms(1)]])
     (use assms(2) in \<open>auto intro!: retired_intros\<close>)

lemma refreshDeviceSession_retired:
  assumes "noCollision env n h" and "retiredToken n h ref x s"
  shows "sm_wp (refreshDeviceSession env token mutation) (\<lambda>_. retiredToken n h ref x) (\<lambda>_. retiredToken n h ref x) s"
  unfolding refreshDeviceSession_def complete_defs
  by (intro wp_intros retired_wpI[OF reissue_retired[OF assms(1)]] retired_wpI[OF rotateSession_retired[OF assms(1)]])
     (use assms(2) retired_bounds(2) in \<open>auto intro!: retired_intros\<close>)

lemma reading_retired:
  assumes "retiredToken n h ref x s"
  shows "sm_wp (authenticateAccessToken env token) (\<lambda>_. retiredToken n h ref x) (\<lambda>_. retiredToken n h ref x) s"
    and "sm_wp (listDevices env au gi sz cursor) (\<lambda>_. retiredToken n h ref x) (\<lambda>_. retiredToken n h ref x) s"
    and "sm_wp (assertContextActor au actor) (\<lambda>_. retiredToken n h ref x) (\<lambda>_. retiredToken n h ref x) s"
  unfolding authenticateAccessToken_def listDevices_def assertContextActor_def guard_defs
  by (intro wp_intros sortedMembers_wp mapM_wp; use assms in auto)+

lemma revokeDevice_retired:
  assumes "retiredToken n h ref x s"
  shows "sm_wp (revokeDevice env au gi di mutation) (\<lambda>_. retiredToken n h ref x) (\<lambda>_. retiredToken n h ref x) s"
  unfolding revokeDevice_def replayRevokedDevice_def guard_defs complete_defs
  by (intro wp_intros) (use assms in \<open>auto intro!: retired_intros\<close>)

lemma reaches_retired:
  assumes "reaches (rt_step env) s t" and "noCollision env n h" and "retiredToken n h ref x s"
  shows "retiredToken n h ref x t"
  using assms(1,3)
proof (induction rule: reaches.induct)
  case (reach_step s t u)
  note keep = reach_step.IH[OF reach_step.prems]
  from \<open>rt_step env t u\<close> show ?case
    by (rule rt_step_rule)
       (simp_all add: keep assms(2) createGroup_retired createPairingCode_retired pairDevice_retired
          refreshDeviceSession_retired reading_retired revokeDevice_retired)
qed

end
