(* ===== verification/Paired_Lifecycle.thy ===== *)
theory Paired_Lifecycle
  imports Paired_Correct
begin

text \<open>
  Retried mutations, the leader of a group, and the paged listing of its devices.
\<close>

section \<open>Retrying \<open>createGroup\<close>\<close>

text \<open>The receipt's key and fingerprint for one request.\<close>

definition receiptKey :: "rt_env \<Rightarrow> mutation_scope \<Rightarrow> string \<Rightarrow> string" where
  "receiptKey env scope requestId = hashToken env ''receipt'' (encodeRequestIdPayload scope requestId)"

definition receiptPrint :: "rt_env \<Rightarrow> mutation_scope \<Rightarrow> (string \<times> string) list \<Rightarrow> string" where
  "receiptPrint env scope fs = hashToken env ''receipt'' (encodeFingerprintPayload scope fs)"

lemma claimReceipt_first_wp:
  assumes "normalizeRequestId mutation = Inr (Some rid)"
    and "js_get (rt_receipts s) (receiptKey env scope rid) = None"
    and "Q (Some \<lparr>cl_key = receiptKey env scope rid, cl_fingerprint = receiptPrint env scope fs, cl_replay = None\<rparr>)
      (s\<lparr>rt_receipts := js_set (receiptKey env scope rid)
         \<lparr>rc_scope = scope, rc_expiresAt = now + env_mutationReceiptLifetimeMs env,
          rc_fingerprint = receiptPrint env scope fs, rc_claimedAt = now, rc_completedAt = None,
          rc_groupId = None, rc_deviceId = None, rc_sessionId = None,
          rc_resourceHash = None, rc_revision = None\<rparr> (rt_receipts s)\<rparr>)"
  shows "sm_wp (claimReceipt env scope mutation fs now) Q E s"
  using assms by (simp add: claimReceipt_def wp_simps Let_def receiptKey_def receiptPrint_def)

lemma claimReceipt_again_wp:
  assumes "normalizeRequestId mutation = Inr (Some rid)"
    and "js_get (rt_receipts s) (receiptKey env scope rid) = Some r"
    and "now < rc_expiresAt r" and "rc_completedAt r \<noteq> None"
  shows "sm_wp (claimReceipt env scope mutation fs now) Q E s =
    Q (Some \<lparr>cl_key = receiptKey env scope rid, cl_fingerprint = receiptPrint env scope fs,
                cl_replay = Some r\<rparr>) s"
  using assms by (simp add: claimReceipt_def Let_def receiptKey_def receiptPrint_def wp_simps)

lemmas plain_wps = sm_wp_intros sm_wp_ifI sm_wp_optionI sm_wp_sumI sm_wp_prodI sm_wp_LetI rt_wp_intros
  wp_createId createToken_wp

text \<open>What a first \<open>createGroup\<close> with a request identifier leaves behind.\<close>

definition createdBy :: "rt_env \<Rightarrow> string \<Rightarrow> string \<Rightarrow> device_input \<Rightarrow> int \<Rightarrow> lifecycle \<Rightarrow> runtime \<Rightarrow> bool" where
  "createdBy env rid groupName device now l t \<longleftrightarrow>
     (\<exists>r sid ref d m.
        js_get (rt_receipts t) (receiptKey env CREATE_GROUP rid) = Some r \<and> rc_completedAt r \<noteq> None \<and>
        rc_expiresAt r = now + env_mutationReceiptLifetimeMs env \<and>
        rc_fingerprint r = receiptPrint env CREATE_GROUP ((''group_name'', groupName) # deviceFields device) \<and>
        rc_groupId r = Some (g_id (lc_group l)) \<and> rc_deviceId r = Some (pd_id (lc_device l)) \<and>
        rc_sessionId r = Some sid \<and> js_get (rt_sessionsById t) sid = Some ref \<and> ref < length (rt_sessions t) \<and>
        s_groupId (rt_sessions t ! ref) = g_id (lc_group l) \<and>
        s_deviceId (rt_sessions t ! ref) = pd_id (lc_device l) \<and>
        s_revokedAt (rt_sessions t ! ref) = None \<and>
        s_refreshTokenExpiresAt (rt_sessions t ! ref) = now + env_refreshTokenLifetimeMs env \<and>
        proper_id (g_id (lc_group l)) \<and> proper_id (pd_id (lc_device l)) \<and>
        js_get (rt_groups t) (g_id (lc_group l)) = Some (lc_group l) \<and>
        js_get (rt_devicesById t) (pd_id (lc_device l)) = Some d \<and> d_status d = ONLINE \<and>
        js_get (rt_memberships t) (membershipKey (g_id (lc_group l)) (pd_id (lc_device l))) = Some m \<and>
        m_revokedAt m = None \<and> lc_device l = toPairedDevice d m)"

lemma issueSession_post:
  "sm_wp (issueSession env g d m now) (\<lambda>(e, ses) t.
     rt_groups t = rt_groups s \<and> rt_devicesById t = rt_devicesById s \<and>
     rt_memberships t = rt_memberships s \<and> rt_receipts t = rt_receipts s \<and>
     rt_pairingCodesByHash t = rt_pairingCodesByHash s \<and>
     js_get (rt_sessionsById t) (s_id ses) = Some (length (rt_sessions s)) \<and>
     rt_sessions t = rt_sessions s @ [ses] \<and>
     s_groupId ses = g_id g \<and> s_deviceId ses = d_id d \<and> s_revokedAt ses = None \<and>
     s_refreshTokenExpiresAt ses = now + env_refreshTokenLifetimeMs env) (\<lambda>_ _. True) s"
  unfolding issueSession_def Let_def by (intro plain_wps TrueI) (simp add: jsmap_simps)

lemma createGroup_first_post:
  assumes "normalizeRequestId mutation = Inr (Some rid)"
    and "js_get (rt_receipts s) (receiptKey env CREATE_GROUP rid) = None"
    and "requireText name ''name'' = Inr groupName" and "normalizeDeviceInput input = Inr device"
    and "env_now env (rt_ticks s) = Some now"
  shows "sm_wp (createGroup env name input mutation) (createdBy env rid groupName device now) (\<lambda>_ _. True) s"
  unfolding createGroup_def complete_defs updateClaimed_def Let_def
  by (intro plain_wps claimReceipt_first_wp[OF assms(1)] sm_wp_mono[OF issueSession_post] TrueI;
      simp add: assms)
     (auto simp: createdBy_def jsmap_simps newDevice_def toPairedDevice_def drawnId_proper)

lemma rotateSession_returns:
  assumes "ref < length (rt_sessions s)" and "16 \<le> length (env_randomBytes env (rt_draws s + 2) 16)"
    and "env_now env (rt_ticks s) = Some n"
  shows "sm_wp (rotateSession env ref h m now) (\<lambda>e t.
     se_groupId e = s_groupId (rt_sessions s ! ref) \<and> se_deviceId e = s_deviceId (rt_sessions s ! ref) \<and>
     rt_groups t = rt_groups s \<and> rt_devicesById t = rt_devicesById s \<and>
     rt_memberships t = rt_memberships s) (\<lambda>_ _. False) s"
  using assms
  by (simp add: rotateSession_def createId_def wp_simps revokeCodes_defs Let_def toSessionEnvelope_def)

lemma createGroup_retry:
  assumes "normalizeRequestId mutation = Inr (Some rid)"
    and "requireText name ''name'' = Inr groupName" and "normalizeDeviceInput input = Inr device"
    and "createdBy env rid groupName device now l t"
    and "env_now env (rt_ticks t) = Some later"
    and "later < now + env_mutationReceiptLifetimeMs env" and "later < now + env_refreshTokenLifetimeMs env"
    and "env_now env (Suc (rt_ticks t)) \<noteq> None" and "16 \<le> length (env_randomBytes env (rt_draws t + 2) 16)"
  shows "sm_wp (createGroup env name input mutation) (\<lambda>l' u.
     lc_group l' = lc_group l \<and> lc_device l' = lc_device l \<and>
     se_groupId (lc_session l') = g_id (lc_group l) \<and> se_deviceId (lc_session l') = pd_id (lc_device l) \<and>
     rt_groups u = rt_groups t \<and> rt_devicesById u = rt_devicesById t \<and>
     rt_memberships u = rt_memberships t) (\<lambda>_ _. False) t"
proof -
  let ?t = "t\<lparr>rt_ticks := Suc (rt_ticks t)\<rparr>"
  obtain r sid ref d m where c:
    "js_get (rt_receipts t) (receiptKey env CREATE_GROUP rid) = Some r" "rc_completedAt r \<noteq> None"
    "rc_expiresAt r = now + env_mutationReceiptLifetimeMs env"
    "rc_fingerprint r = receiptPrint env CREATE_GROUP ((''group_name'', groupName) # deviceFields device)"
    "rc_groupId r = Some (g_id (lc_group l))" "rc_deviceId r = Some (pd_id (lc_device l))"
    "rc_sessionId r = Some sid" "js_get (rt_sessionsById t) sid = Some ref" "ref < length (rt_sessions t)"
    "s_groupId (rt_sessions t ! ref) = g_id (lc_group l)"
    "s_deviceId (rt_sessions t ! ref) = pd_id (lc_device l)"
    "s_revokedAt (rt_sessions t ! ref) = None"
    "s_refreshTokenExpiresAt (rt_sessions t ! ref) = now + env_refreshTokenLifetimeMs env"
    "proper_id (g_id (lc_group l))" "proper_id (pd_id (lc_device l))"
    "js_get (rt_groups t) (g_id (lc_group l)) = Some (lc_group l)"
    "js_get (rt_devicesById t) (pd_id (lc_device l)) = Some d" "d_status d = ONLINE"
    "js_get (rt_memberships t) (membershipKey (g_id (lc_group l)) (pd_id (lc_device l))) = Some m"
    "m_revokedAt m = None" "lc_device l = toPairedDevice d m"
    using assms(4) unfolding createdBy_def by blast
  have claim: "sm_wp (claimReceipt env CREATE_GROUP mutation fs later) Q E ?t =
      Q (Some \<lparr>cl_key = receiptKey env CREATE_GROUP rid, cl_fingerprint = receiptPrint env CREATE_GROUP fs,
                cl_replay = Some r\<rparr>) ?t" for fs Q E
    using c(1-3) assms(6) by (intro claimReceipt_again_wp[OF assms(1)]) auto
  obtain n where n: "env_now env (Suc (rt_ticks t)) = Some n" using assms(8) by auto
  have ids: "d_id d = pd_id (lc_device l)" by (simp add: c(21) toPairedDevice_def)
  have rotated: "sm_wp (rotateSession env ref (s_refreshTokenHash (rt_sessions t ! ref)) m later) (\<lambda>e u.
     se_groupId e = g_id (lc_group l) \<and> se_deviceId e = pd_id (lc_device l) \<and>
     rt_groups u = rt_groups t \<and> rt_devicesById u = rt_devicesById t \<and>
     rt_memberships u = rt_memberships t) (\<lambda>_ _. False) ?t"
    by (rule sm_wp_mono[OF rotateSession_returns[of ref ?t env n]]) (use c(9,10,11) assms(9) n in auto)
  show ?thesis
    unfolding createGroup_def replayCreatedLifecycle_def reissueSessionCredentials_def
    using assms(2,3,5,7) c
    apply (simp add: wp_simps claim requireReplayableReceipt_def)
    apply (rule sm_wp_mono[OF rotated])
    apply (simp_all add: wp_simps proper_id_requireText ids)
    done
qed

lemma createGroup_inputs:
  assumes "createGroup env name input mutation s = (Inr l, t)"
  obtains groupName device where "requireText name ''name'' = Inr groupName"
    and "normalizeDeviceInput input = Inr device"
  using assms by (auto simp: createGroup_def sm_bind_def lift_result_def currentTime_def monad_defs
    split: sum.splits option.splits)

text \<open>Running the first statements of a method, without unfolding the rest of it.\<close>

lemma bind_currentTime:
  "env_now env (rt_ticks s) = Some n \<Longrightarrow>
   sm_bind (currentTime env) f s = f n (s\<lparr>rt_ticks := Suc (rt_ticks s)\<rparr>)"
  by (simp add: currentTime_def sm_bind_def)

lemma bind_lift_result [simp]:
  "sm_bind (lift_result (Inr a)) f s = f a s" "sm_bind (lift_result (Inl e)) f s = (Inl e, s)"
  by (simp_all add: lift_result_def)

lemma bind_claimReceipt_again:
  assumes "normalizeRequestId mutation = Inr (Some rid)"
    and "js_get (rt_receipts s) (receiptKey env scope rid) = Some r"
    and "now < rc_expiresAt r" and "rc_completedAt r \<noteq> None"
  shows "sm_bind (claimReceipt env scope mutation fs now) f s =
    f (Some \<lparr>cl_key = receiptKey env scope rid, cl_fingerprint = receiptPrint env scope fs,
             cl_replay = Some r\<rparr>) s"
  using assms by (simp add: claimReceipt_def Let_def receiptKey_def receiptPrint_def sm_bind_def monad_defs)

lemma deviceFields_inject: "deviceFields d = deviceFields d' \<Longrightarrow> d = d'"
  by (cases d; cases d') (simp add: deviceFields_def)

lemma sm_wp_returns: "sm_wp m Q (\<lambda>_ _. False) s \<Longrightarrow> \<exists>a t. m s = (Inr a, t) \<and> Q a t"
  by (auto simp: sm_wp_def split: prod.splits sum.splits)

lemma demo_request [simp]: "normalizeRequestId (Some ''r'') = Inr (Some ''r'')"
  by (simp add: normalizeRequestId_def js_trim_def is_js_space_def maxRequestIdLength_def)

lemma demo_create:
  "\<exists>l t. createGroup demoEnv ''g'' demoInput (Some ''r'') emptyRuntime = (Inr l, t) \<and>
     rt_ticks t = 5 \<and> rt_draws t = 6 \<and> js_get (rt_groups t) (g_id (lc_group l)) = Some (lc_group l)"
  by (simp add: createGroup_def currentTime_def demoEnv_def claimReceipt_def
       normalizeDeviceInput_def demoInput_def requireText_def lift_result_def ensurePublicKeyAvailable_def
       createId_def randomBytes_def issueSession_def createToken_def newDevice_def
       emptyRuntime_def complete_defs updateClaimed_def Let_def sm_bind_def monad_defs)

lemma demoEnv_time: "env_now demoEnv n = Some (int n)"
  by (simp add: demoEnv_def)

text \<open>
  A retried \<open>createGroup\<close> answers with the group it already created. When a first call with
  a request identifier returned, and the same call is made again while the receipt and the
  session live, it returns the same group and device with credentials for the same session's
  group and device, and adds no group, device or membership.
\<close>

theorem createGroup_retry_idempotent:
  assumes rid: "normalizeRequestId mutation = Inr (Some rid)"
    and first: "js_get (rt_receipts s) (receiptKey env CREATE_GROUP rid) = None"
    and now: "env_now env (rt_ticks s) = Some now"
    and made: "createGroup env name input mutation s = (Inr l, t)"
    and later: "env_now env (rt_ticks t) = Some later"
    and live: "later < now + env_mutationReceiptLifetimeMs env" "later < now + env_refreshTokenLifetimeMs env"
    and platform: "env_now env (Suc (rt_ticks t)) \<noteq> None" "16 \<le> length (env_randomBytes env (rt_draws t + 2) 16)"
  shows "\<exists>l' u. createGroup env name input mutation t = (Inr l', u) \<and>
    lc_group l' = lc_group l \<and> lc_device l' = lc_device l \<and>
    se_groupId (lc_session l') = g_id (lc_group l) \<and> se_deviceId (lc_session l') = pd_id (lc_device l) \<and>
    rt_groups u = rt_groups t \<and> rt_devicesById u = rt_devicesById t \<and> rt_memberships u = rt_memberships t"
proof -
  obtain groupName device where inputs: "requireText name ''name'' = Inr groupName"
    "normalizeDeviceInput input = Inr device"
    using createGroup_inputs[OF made] .
  from sm_wpD(1)[OF createGroup_first_post[OF rid first inputs now] made]
  have "createdBy env rid groupName device now l t" .
  from sm_wp_returns[OF createGroup_retry[OF rid inputs this later live platform]] show ?thesis .
qed

theorem createGroup_retry_idempotent_witness:
  "\<exists>l t l' u. createGroup demoEnv ''g'' demoInput (Some ''r'') emptyRuntime = (Inr l, t) \<and>
     createGroup demoEnv ''g'' demoInput (Some ''r'') t = (Inr l', u) \<and>
     lc_group l' = lc_group l \<and> rt_groups u = rt_groups t"
proof -
  obtain l t where made: "createGroup demoEnv ''g'' demoInput (Some ''r'') emptyRuntime = (Inr l, t)"
    and ticks: "rt_ticks t = 5" using demo_create by auto
  have "js_get (rt_receipts emptyRuntime) (receiptKey demoEnv CREATE_GROUP ''r'') = None"
    by (simp add: emptyRuntime_def)
  from createGroup_retry_idempotent[OF demo_request this demoEnv_time made demoEnv_time] made ticks
  show ?thesis by (auto simp: demoEnv_def emptyRuntime_def)
qed

text \<open>
  A request identifier is bound to its payload. When a first \<open>createGroup\<close> with a request
  identifier returned, a second one with the same identifier and a different group name or
  device throws \<open>ALREADY_EXISTS\<close> and changes nothing, for a keyed hash that does not collide on
  the two payloads.
\<close>

theorem createGroup_payload_mismatch:
  assumes rid: "normalizeRequestId mutation = Inr (Some rid)"
    and first: "js_get (rt_receipts s) (receiptKey env CREATE_GROUP rid) = None"
    and now: "env_now env (rt_ticks s) = Some now"
    and inputs: "requireText name ''name'' = Inr groupName" "normalizeDeviceInput input = Inr device"
    and made: "createGroup env name input mutation s = (Inr l, t)"
    and later: "env_now env (rt_ticks t) = Some later" "later < now + env_mutationReceiptLifetimeMs env"
    and other: "requireText name' ''name'' = Inr groupName'" "normalizeDeviceInput input' = Inr device'"
      "(groupName', device') \<noteq> (groupName, device)"
    and collision_free: "\<forall>x y. hashToken env ''receipt'' x = hashToken env ''receipt'' y \<longrightarrow> x = y"
  shows "createGroup env name' input' mutation t = (Inl payloadMismatch, t\<lparr>rt_ticks := Suc (rt_ticks t)\<rparr>)"
proof -
  let ?fs = "(''group_name'', groupName) # deviceFields device"
  let ?fs' = "(''group_name'', groupName') # deviceFields device'"
  from sm_wpD(1)[OF createGroup_first_post[OF rid first inputs now] made]
  obtain r where r: "js_get (rt_receipts t) (receiptKey env CREATE_GROUP rid) = Some r"
    "rc_completedAt r \<noteq> None" "rc_expiresAt r = now + env_mutationReceiptLifetimeMs env"
    "rc_fingerprint r = receiptPrint env CREATE_GROUP ?fs"
    unfolding createdBy_def by blast
  have "?fs \<noteq> ?fs'"
    using other(3) deviceFields_inject by auto
  then have "receiptPrint env CREATE_GROUP ?fs \<noteq> receiptPrint env CREATE_GROUP ?fs'"
    using collision_free[rule_format, of "encodeFingerprintPayload CREATE_GROUP ?fs"
        "encodeFingerprintPayload CREATE_GROUP ?fs'"]
    by (auto simp: receiptPrint_def fingerprint_inject)
  then have "replayCreatedLifecycle env
      \<lparr>cl_key = receiptKey env CREATE_GROUP rid, cl_fingerprint = receiptPrint env CREATE_GROUP ?fs',
       cl_replay = Some r\<rparr> r later u = (Inl payloadMismatch, u)" for u
    by (simp add: replayCreatedLifecycle_def reissueSessionCredentials_def requireReplayableReceipt_def r(4)
        sm_bind_Inl)
  then show ?thesis
    using later r(1-3) other(1,2)
    by (simp add: createGroup_def bind_currentTime bind_claimReceipt_again[OF rid, where r = r])
qed

theorem createGroup_payload_mismatch_witness:
  "\<exists>l t. createGroup demoEnv ''g'' demoInput (Some ''r'') emptyRuntime = (Inr l, t) \<and>
     createGroup demoEnv ''a'' demoInput (Some ''r'') t = (Inl payloadMismatch, t\<lparr>rt_ticks := Suc (rt_ticks t)\<rparr>)"
proof -
  obtain l t where made: "createGroup demoEnv ''g'' demoInput (Some ''r'') emptyRuntime = (Inr l, t)"
    and ticks: "rt_ticks t = 5" using demo_create by auto
  have first: "js_get (rt_receipts emptyRuntime) (receiptKey demoEnv CREATE_GROUP ''r'') = None"
    by (simp add: emptyRuntime_def)
  have names: "requireText ''g'' ''name'' = Inr ''g''" "requireText ''a'' ''name'' = Inr ''a''"
    by (simp_all add: requireText_def)
  have device: "normalizeDeviceInput demoInput = Inr demoInput"
    by (simp add: normalizeDeviceInput_def requireText_def demoInput_def)
  have "\<forall>x y. hashToken demoEnv ''receipt'' x = hashToken demoEnv ''receipt'' y \<longrightarrow> x = y"
    by (simp add: hashToken_def demoEnv_def)
  from createGroup_payload_mismatch[OF demo_request first demoEnv_time names(1) device made demoEnv_time _
      names(2) device _ this] made ticks
  show ?thesis by (auto simp: demoEnv_def emptyRuntime_def)
qed

section \<open>A group keeps its leader\<close>

definition drawnBelow :: "rt_env \<Rightarrow> nat \<Rightarrow> string \<Rightarrow> bool" where
  "drawnBelow env n k \<longleftrightarrow> (\<exists>i < n. drawnId env i k)"

text \<open>The identifiers of the first \<open>n\<close> draws do not collide.\<close>

definition distinct_ids :: "rt_env \<Rightarrow> nat \<Rightarrow> bool" where
  "distinct_ids env n \<longleftrightarrow> (\<forall>i < n. \<forall>j < n. \<forall>k. drawnId env i k \<longrightarrow> drawnId env j k \<longrightarrow> i = j)"

definition active_admin :: "(string, membership_record) jsmap \<Rightarrow> string \<Rightarrow> string \<Rightarrow> bool" where
  "active_admin ms groupId deviceId \<longleftrightarrow>
     (\<exists>m. js_get ms (membershipKey groupId deviceId) = Some m \<and> m_role m = ADMIN \<and> m_revokedAt m = None)"

definition led :: "rt_env \<Rightarrow> nat \<Rightarrow> (string, paired_group) jsmap \<Rightarrow> (string, membership_record) jsmap \<Rightarrow> bool" where
  "led env n gs ms \<longleftrightarrow> (\<forall>k g. js_get gs k = Some g \<longrightarrow>
     g_authorityMode g = LEADER \<and> drawnBelow env n (g_leaderDeviceId g) \<and>
     active_admin ms k (g_leaderDeviceId g))"

definition led_upto :: "rt_env \<Rightarrow> nat \<Rightarrow> runtime \<Rightarrow> bool" where
  "led_upto env N s \<longleftrightarrow> rt_draws s \<le> N \<longrightarrow> led env (rt_draws s) (rt_groups s) (rt_memberships s)"

text \<open>A call that touches neither groups nor memberships.\<close>

definition quiet :: "runtime \<Rightarrow> runtime \<Rightarrow> bool" where
  "quiet s t \<longleftrightarrow> rt_groups t = rt_groups s \<and> rt_memberships t = rt_memberships s \<and> rt_draws s \<le> rt_draws t"

lemma drawnBelow_mono: "drawnBelow env m k \<Longrightarrow> m \<le> n \<Longrightarrow> drawnBelow env n k"
  unfolding drawnBelow_def using less_le_trans by blast

lemma drawnBelow_proper: "drawnBelow env n k \<Longrightarrow> proper_id k"
  by (auto simp: drawnBelow_def drawnId_proper)

lemma led_mono: "led env m gs ms \<Longrightarrow> m \<le> n \<Longrightarrow> led env n gs ms"
  unfolding led_def by (blast intro: drawnBelow_mono)

lemma led_quiet: "led_upto env N s \<Longrightarrow> quiet s t \<Longrightarrow> led_upto env N t"
  unfolding led_upto_def quiet_def by (auto intro: led_mono)

lemma led_create:
  assumes "led env n gs ms" and "n \<le> i" and "i < n'" and "drawnId env i d"
    and "g_authorityMode g = LEADER" and "g_leaderDeviceId g = d"
    and "m_role m = ADMIN" and "m_revokedAt m = None"
  shows "led env n' (js_set k g gs) (js_set (membershipKey k d) m ms)"
proof -
  have d: "drawnBelow env n' d" using assms(3,4) unfolding drawnBelow_def by blast
  have "drawnBelow env n' (g_leaderDeviceId h) \<and> g_authorityMode h = LEADER \<and>
      active_admin (js_set (membershipKey k d) m ms) k' (g_leaderDeviceId h)"
    if "js_get gs k' = Some h" "k' \<noteq> k" for k' h
  proof -
    have h: "g_authorityMode h = LEADER" "drawnBelow env n (g_leaderDeviceId h)" "active_admin ms k' (g_leaderDeviceId h)"
      using assms(1) that(1) unfolding led_def by auto
    moreover have "membershipKey k' (g_leaderDeviceId h) \<noteq> membershipKey k d"
      using that(2) membershipKey_inject drawnBelow_proper[OF h(2)] drawnId_proper[OF assms(4)] by blast
    ultimately show ?thesis
      using drawnBelow_mono[OF h(2), of n'] assms(2,3) by (auto simp: active_admin_def jsmap_simps)
  qed
  with d assms(5-8) show ?thesis
    unfolding led_def by (auto simp: jsmap_simps active_admin_def)
qed

lemma led_touch_member:
  assumes "led env n gs ms" and "js_get gs k = Some g" and "n \<le> n'" and "proper_id d"
    and "d \<noteq> g_leaderDeviceId g"
    and "g_authorityMode g' = g_authorityMode g" and "g_leaderDeviceId g' = g_leaderDeviceId g"
  shows "led env n' (js_set k g' gs) (js_set (membershipKey k d) m ms)"
proof -
  have "g_authorityMode h = LEADER \<and> drawnBelow env n' (g_leaderDeviceId h) \<and>
      active_admin (js_set (membershipKey k d) m ms) k' (g_leaderDeviceId h)"
    if h0: "js_get gs k' = Some h" and "k' = k \<Longrightarrow> d \<noteq> g_leaderDeviceId h" for k' h
  proof -
    have h: "g_authorityMode h = LEADER" "drawnBelow env n (g_leaderDeviceId h)" "active_admin ms k' (g_leaderDeviceId h)"
      using assms(1) h0 unfolding led_def by auto
    moreover have "membershipKey k' (g_leaderDeviceId h) \<noteq> membershipKey k d"
      using that(2) membershipKey_inject drawnBelow_proper[OF h(2)] assms(4) by blast
    ultimately show ?thesis
      using drawnBelow_mono[OF h(2) assms(3)] by (auto simp: active_admin_def jsmap_simps)
  qed
  with assms(2,5-7) show ?thesis
    unfolding led_def by (auto simp: jsmap_simps)
qed

lemma quiet_refl [simp]: "quiet s s"
  by (simp add: quiet_def)

lemma quiet_wpI:
  assumes "sm_wp m (\<lambda>_. quiet s) (\<lambda>_. quiet s) s"
    and "\<And>a t. quiet s t \<Longrightarrow> Q a t" and "\<And>e t. quiet s t \<Longrightarrow> E e t"
  shows "sm_wp m Q E s"
  by (rule sm_wp_mono[OF assms(1)]) (rule assms, assumption)+

lemma revokeSession_quiet [simp]: "quiet s (revokeSession ref now t) = quiet s t"
  by (simp add: quiet_def)

lemma issueSession_quiet: "sm_wp (issueSession env g d m now) (\<lambda>_. quiet s) (\<lambda>_. quiet s) s"
  unfolding issueSession_def Let_def by (intro wp_intros) (auto simp: quiet_def)

lemma rotateSession_quiet: "sm_wp (rotateSession env ref h m now) (\<lambda>_. quiet s) (\<lambda>_. quiet s) s"
  unfolding rotateSession_def Let_def revokeCodes_defs by (intro wp_intros) (auto simp: quiet_def)

lemma reissue_quiet:
  "sm_wp (reissueSessionCredentials env claim receipt now) (\<lambda>_. quiet s) (\<lambda>_. quiet s) s"
  unfolding reissueSessionCredentials_def by (intro wp_intros rotateSession_quiet) auto

lemma replayCreatedLifecycle_quiet:
  "sm_wp (replayCreatedLifecycle env claim receipt now) (\<lambda>_. quiet s) (\<lambda>_. quiet s) s"
  unfolding replayCreatedLifecycle_def by (intro wp_intros quiet_wpI[OF reissue_quiet]) auto

lemma createPairingCode_quiet:
  "sm_wp (createPairingCode env au gi role mutation) (\<lambda>_. quiet s) (\<lambda>_. quiet s) s"
  unfolding createPairingCode_def requireActivePairingIssuer_def retireReplacedPairingCode_def
    complete_defs guard_defs by (intro wp_intros) (auto simp: quiet_def)

lemma refreshDeviceSession_quiet:
  "sm_wp (refreshDeviceSession env token mutation) (\<lambda>_. quiet s) (\<lambda>_. quiet s) s"
  unfolding refreshDeviceSession_def complete_defs
  by (intro wp_intros quiet_wpI[OF reissue_quiet] quiet_wpI[OF rotateSession_quiet])
     (auto simp: quiet_def)

lemma authenticateAccessToken_quiet:
  "sm_wp (authenticateAccessToken env token) (\<lambda>_. quiet s) (\<lambda>_. quiet s) s"
  unfolding authenticateAccessToken_def by (intro wp_intros) (auto simp: quiet_def)

lemma listDevices_quiet: "sm_wp (listDevices env au gi sz cursor) (\<lambda>_. quiet s) (\<lambda>_. quiet s) s"
  unfolding listDevices_def guard_defs by (intro wp_intros sortedMembers_wp mapM_wp) auto

lemma assertContextActor_quiet: "sm_wp (assertContextActor au actor) (\<lambda>_. quiet s) (\<lambda>_. quiet s) s"
  unfolding assertContextActor_def by (intro wp_intros) auto

lemma quiet_led:
  "sm_wp m (\<lambda>_. quiet s) (\<lambda>_. quiet s) s \<Longrightarrow> led_upto env N s \<Longrightarrow>
   sm_wp m (\<lambda>_. led_upto env N) (\<lambda>_. led_upto env N) s"
  by (erule quiet_wpI) (auto intro: led_quiet)

lemma led_upto_frame:
  assumes "led_upto env N s" and "rt_groups t = rt_groups s" and "rt_memberships t = rt_memberships s"
    and "rt_draws s \<le> rt_draws t"
  shows "led_upto env N t"
  using led_quiet[OF assms(1), of t] assms(2-4) by (simp add: quiet_def)

lemma led_upto_create:
  assumes "led_upto env N s" and "rt_groups t = js_set k g (rt_groups s)"
    and "rt_memberships t = js_set (membershipKey k d) m (rt_memberships s)"
    and "drawnId env i d" and "rt_draws s \<le> i" and "i < rt_draws t"
    and "g_authorityMode g = LEADER" and "g_leaderDeviceId g = d"
    and "m_role m = ADMIN" and "m_revokedAt m = None"
  shows "led_upto env N t"
  using assms(1,5,6) led_create[OF _ assms(5,6,4,7-10), of "rt_groups s" "rt_memberships s" k]
  unfolding led_upto_def assms(2,3) by auto

lemma led_upto_touch:
  assumes "led_upto env N s" and "rt_groups t = js_set k g' (rt_groups s)"
    and "rt_memberships t = js_set (membershipKey k d) m (rt_memberships s)"
    and "js_get (rt_groups s) k = Some g" and "rt_draws s \<le> rt_draws t" and "proper_id d"
    and "g_authorityMode g' = g_authorityMode g" and "g_leaderDeviceId g' = g_leaderDeviceId g"
    and "rt_draws t \<le> N \<Longrightarrow> led env (rt_draws s) (rt_groups s) (rt_memberships s) \<Longrightarrow> d \<noteq> g_leaderDeviceId g"
  shows "led_upto env N t"
  using assms(1,5,9) led_touch_member[OF _ assms(4-6) _ assms(7,8), of env "rt_memberships s" m]
  unfolding led_upto_def assms(2,3) by auto

lemma createGroup_led:
  assumes "led_upto env N s"
  shows "sm_wp (createGroup env name input mutation) (\<lambda>_. led_upto env N) (\<lambda>_. led_upto env N) s"
  unfolding createGroup_def complete_defs
  by (intro wp_intros quiet_wpI[OF replayCreatedLifecycle_quiet] quiet_wpI[OF issueSession_quiet])
     (auto intro: led_upto_frame[OF assms] led_upto_create[OF assms] simp: quiet_def)

text \<open>The identifier of a newly paired device is not the leader's.\<close>

lemma fresh_not_leader:
  assumes "distinct_ids env N" and "led env n gs ms" and "js_get gs k = Some g"
    and "drawnId env n d" and "n < N"
  shows "d \<noteq> g_leaderDeviceId g"
proof
  assume eq: "d = g_leaderDeviceId g"
  from assms(2,3) obtain i where "i < n" "drawnId env i d"
    unfolding led_def drawnBelow_def eq by blast
  then show False
    using assms(1)[unfolded distinct_ids_def, rule_format, of i n d] assms(4,5) by simp
qed

lemma led_upto_pair:
  assumes "rt_wf s" and "led_upto env N s" and "distinct_ids env N"
    and "rt_groups t = js_set (g_id g) g' (rt_groups s)"
    and "rt_memberships t = js_set (membershipKey (g_id g) d) m (rt_memberships s)"
    and "js_get (rt_groups s) k = Some g" and "drawnId env (rt_draws s) d" and "Suc (rt_draws s) \<le> rt_draws t"
    and "g_authorityMode g' = g_authorityMode g" and "g_leaderDeviceId g' = g_leaderDeviceId g"
  shows "led_upto env N t"
proof (rule led_upto_touch[OF assms(2,4,5)])
  show g: "js_get (rt_groups s) (g_id g) = Some g" using assms(6) rt_wf_groupD[OF assms(1,6)] by simp
  show "d \<noteq> g_leaderDeviceId g"
    if "rt_draws t \<le> N" "led env (rt_draws s) (rt_groups s) (rt_memberships s)"
    using fresh_not_leader[OF assms(3) that(2) g assms(7)] that(1) assms(8) by simp
qed (use assms(7-10) in \<open>auto simp: drawnId_proper\<close>)

lemma pairDevice_led:
  assumes "rt_wf s" and "led_upto env N s" and "distinct_ids env N"
  shows "sm_wp (pairDevice env code input mutation) (\<lambda>_. led_upto env N) (\<lambda>_. led_upto env N) s"
  unfolding pairDevice_def complete_defs
  by (intro wp_intros quiet_wpI[OF replayCreatedLifecycle_quiet] quiet_wpI[OF issueSession_quiet])
     (auto intro: led_upto_frame[OF assms(2)] led_upto_pair[OF assms] simp: quiet_def)

lemma led_upto_revoke:
  assumes "rt_wf s" and "led_upto env N s"
    and "rt_groups t = js_set (g_id g) g' (rt_groups s)"
    and "rt_memberships t = js_set (membershipKey (g_id g) (d_id d)) m (rt_memberships s)"
    and "js_get (rt_groups s) k = Some g" and "js_get (rt_devicesById s) k' = Some d"
    and "rt_draws s \<le> rt_draws t" and "\<not> (g_authorityMode g = LEADER \<and> g_leaderDeviceId g = d_id d)"
    and "g_authorityMode g' = g_authorityMode g" and "g_leaderDeviceId g' = g_leaderDeviceId g"
  shows "led_upto env N t"
proof (rule led_upto_touch[OF assms(2-4)])
  show g: "js_get (rt_groups s) (g_id g) = Some g" using assms(5) rt_wf_groupD[OF assms(1,5)] by simp
  show "proper_id (d_id d)" using rt_wf_deviceD[OF assms(1,6)] by auto
  show "d_id d \<noteq> g_leaderDeviceId g" if "led env (rt_draws s) (rt_groups s) (rt_memberships s)"
    using that g assms(8) by (auto simp: led_def)
qed (use assms(7,9,10) in auto)

lemma revokeDevice_led:
  assumes "rt_wf s" and "led_upto env N s"
  shows "sm_wp (revokeDevice env au gi di mutation) (\<lambda>_. led_upto env N) (\<lambda>_. led_upto env N) s"
  unfolding revokeDevice_def replayRevokedDevice_def guard_defs complete_defs
  by (intro wp_intros; (rule led_upto_frame[OF assms(2)]; simp; fail)?)
     (simp, rule led_upto_revoke[OF assms], simp, simp, assumption, assumption, simp_all)

lemma rt_step_led:
  assumes "rt_wf s" and "led_upto env N s" and "distinct_ids env N" and "rt_step env s t"
  shows "led_upto env N t"
  using assms(4)
  by (rule rt_step_rule)
     (use assms in \<open>simp_all add: createGroup_led pairDevice_led revokeDevice_led quiet_led
        createPairingCode_quiet refreshDeviceSession_quiet authenticateAccessToken_quiet listDevices_quiet
        assertContextActor_quiet\<close>)

lemma reaches_led:
  assumes "reaches (rt_step env) emptyRuntime s" and "distinct_ids env N"
  shows "rt_wf s \<and> led_upto env N s"
  using assms
proof (induction "emptyRuntime" s rule: reaches.induct)
  case reach_refl
  have "led_upto env N emptyRuntime" by (simp add: led_upto_def led_def emptyRuntime_def)
  then show ?case by (simp add: rt_wf_empty)
next
  case (reach_step t u)
  then show ?case using rt_step_wf rt_step_led by blast
qed

text \<open>
  A group is never left without its leader: in every reachable state, every group is led by
  a device whose membership of that group is active and of role \<open>ADMIN\<close>, provided the random
  identifiers drawn so far are distinct. (No runtime operation changes the leader, revokes the
  leader, or pairs a device as an administrator.)
\<close>

theorem group_keeps_its_leader:
  assumes "reaches (rt_step env) emptyRuntime s" and "distinct_ids env (rt_draws s)"
    and "js_get (rt_groups s) groupId = Some g"
  shows "g_id g = groupId \<and> g_authorityMode g = LEADER \<and>
    (\<exists>m. js_get (rt_memberships s) (membershipKey groupId (g_leaderDeviceId g)) = Some m \<and>
       m_role m = ADMIN \<and> m_revokedAt m = None)"
proof -
  have "rt_wf s" and "led env (rt_draws s) (rt_groups s) (rt_memberships s)"
    using reaches_led[OF assms(1,2)] by (auto simp: led_upto_def)
  then show ?thesis
    using assms(3) rt_wf_groupD[of s groupId g] unfolding led_def active_admin_def by blast
qed

lemma demo_id_last:
  assumes "drawnId demoEnv i k" and "i < 16"
  shows "last k = hex_digit i"
proof -
  have tail: "drop 10 (uuidBytes now (replicate 16 x)) = replicate 5 x @ [x]" for now x
    by (simp add: uuidBytes_def) (simp add: numeral_eq_Suc)
  have "last (formatUuid (uuidBytes now (replicate 16 x))) = hex_digit (unat x mod 16)" for now x
    by (simp add: formatUuid_def tail hex_def)
  moreover have "unat (word_of_nat i :: 8 word) = i"
    using assms(2) by (simp add: unat_of_nat take_bit_nat_eq_self)
  ultimately show ?thesis
    using assms by (auto simp: drawnId_def demoEnv_def)
qed

lemma hex_digit_inject: "i < 16 \<Longrightarrow> j < 16 \<Longrightarrow> hex_digit i = hex_digit j \<Longrightarrow> i = j"
proof -
  assume ij: "i < 16" "j < 16" "hex_digit i = hex_digit j"
  have "(of_char (hex_digit i) :: nat) = of_char (hex_digit j)" by (simp add: ij(3))
  then show "i = j" using ij(1,2) by (simp add: hex_digit_def split: if_splits)
qed

lemma demo_distinct: "distinct_ids demoEnv 6"
  unfolding distinct_ids_def
proof (intro allI impI)
  fix i j k
  assume ij: "i < 6" "j < 6" "drawnId demoEnv i k" "drawnId demoEnv j k"
  then have "hex_digit i = hex_digit j" using demo_id_last[of i k] demo_id_last[of j k] by simp
  then show "i = j" using ij(1,2) by (intro hex_digit_inject) auto
qed

theorem group_keeps_its_leader_witness:
  "\<exists>l t. createGroup demoEnv ''g'' demoInput (Some ''r'') emptyRuntime = (Inr l, t) \<and>
     (\<exists>m. js_get (rt_memberships t) (membershipKey (g_id (lc_group l)) (g_leaderDeviceId (lc_group l))) = Some m \<and>
       m_role m = ADMIN)"
proof -
  obtain l t where made: "createGroup demoEnv ''g'' demoInput (Some ''r'') emptyRuntime = (Inr l, t)"
    and t: "rt_draws t = 6" "js_get (rt_groups t) (g_id (lc_group l)) = Some (lc_group l)"
    using demo_create by auto
  have "rt_step demoEnv emptyRuntime t"
    using step_createGroup[of demoEnv emptyRuntime "''g''" demoInput "Some ''r''"] made by simp
  then have "reaches (rt_step demoEnv) emptyRuntime t" by (rule reach_step[OF reach_refl])
  from group_keeps_its_leader[OF this _ t(2)] demo_distinct made t(1) show ?thesis by auto
qed

end
