(* ===== verification/Paired_Listing.thy ===== *)
theory Paired_Listing
  imports Paired_Lifecycle
begin

text \<open>
  The paged listing of a group's devices: a client that follows \<open>nextCursor\<close> until
  \<open>hasMore\<close> is false sees every active member exactly once, oldest device first.
\<close>

section \<open>The order of the members\<close>

definition deviceOf :: "runtime \<Rightarrow> membership_record \<Rightarrow> device_record" where
  "deviceOf s m = the (js_get (rt_devicesById s) (m_deviceId m))"

definition memberOrder :: "rt_env \<Rightarrow> string \<Rightarrow> runtime \<Rightarrow> membership_record list" where
  "memberOrder env groupId s =
     (let ms = activeMembers groupId s in
      if length ms < 2 then ms
      else map fst (js_sort (compareMembers env) (zip ms (map (deviceOf s) ms))))"

lemma activeMembers_lookup:
  assumes "rt_wf s" and "m \<in> set (activeMembers gi s)"
  shows "js_get (rt_memberships s) (membershipKey gi (m_deviceId m)) = Some m"
    and "js_get (rt_devicesById s) (m_deviceId m) = Some (deviceOf s m)"
    and "proper_id (m_deviceId m)" and "m_groupId m = gi"
proof -
  from assms(2) obtain k where k: "(k, m) \<in> set (rt_memberships s)" "m_groupId m = gi"
    by (auto simp: activeMembers_def)
  have "distinct (map fst (rt_memberships s))" using assms(1) by (simp add: rt_wf_def keys_ok_def)
  then have "js_get (rt_memberships s) k = Some m" using k(1) by simp
  with rt_wf_membershipD[OF assms(1) this] k(2)
  show "js_get (rt_memberships s) (membershipKey gi (m_deviceId m)) = Some m"
    and "js_get (rt_devicesById s) (m_deviceId m) = Some (deviceOf s m)"
    and "proper_id (m_deviceId m)" and "m_groupId m = gi"
    by (auto simp: deviceOf_def)
qed

lemma mset_fst_zip_map: "image_mset fst (mset (zip xs (map f xs))) = mset xs"
  by (induction xs) auto

lemma mset_memberOrder: "mset (memberOrder env gi s) = mset (activeMembers gi s)"
  by (simp add: memberOrder_def Let_def mset_fst_zip_map)

lemma set_memberOrder: "set (memberOrder env gi s) = set (activeMembers gi s)"
  using mset_memberOrder by (metis set_mset_mset)

lemma activeMembers_distinct:
  assumes "rt_wf s"
  shows "distinct (map m_deviceId (activeMembers gi s))"
proof -
  let ?P = "\<lambda>m. m_groupId m = gi \<and> m_revokedAt m = None"
  have vals: "activeMembers gi s = map snd (filter (?P \<circ> snd) (rt_memberships s))"
    by (simp add: activeMembers_def filter_map)
  have "inj_on (\<lambda>kv. m_deviceId (snd kv)) (set (filter (?P \<circ> snd) (rt_memberships s)))"
  proof (rule inj_onI)
    fix x y
    assume x: "x \<in> set (filter (?P \<circ> snd) (rt_memberships s))"
      and y: "y \<in> set (filter (?P \<circ> snd) (rt_memberships s))"
      and eq: "m_deviceId (snd x) = m_deviceId (snd y)"
    have member: "snd x \<in> set (activeMembers gi s)" "snd y \<in> set (activeMembers gi s)"
      using x y by (auto simp: vals)
    have "distinct (map fst (rt_memberships s))" using assms by (simp add: rt_wf_def keys_ok_def)
    then have "js_get (rt_memberships s) (fst x) = Some (snd x)" "js_get (rt_memberships s) (fst y) = Some (snd y)"
      using x y by auto
    then have "fst x = membershipKey (m_groupId (snd x)) (m_deviceId (snd x))"
      "fst y = membershipKey (m_groupId (snd y)) (m_deviceId (snd y))"
      using rt_wf_membershipD[OF assms] by blast+
    then have "fst x = fst y"
      by (simp only: eq activeMembers_lookup(4)[OF assms member(1)] activeMembers_lookup(4)[OF assms member(2)])
    moreover have "snd x = snd y"
      using activeMembers_lookup(1)[OF assms member(1), unfolded eq] activeMembers_lookup(1)[OF assms member(2)]
      by (metis option.inject)
    ultimately show "x = y" by (rule prod_eqI)
  qed
  moreover have "distinct (filter (?P \<circ> snd) (rt_memberships s))"
    using assms by (auto simp: rt_wf_def keys_ok_def distinct_map)
  ultimately show ?thesis by (simp add: vals comp_def distinct_map)
qed

lemma memberOrder_distinct:
  assumes "rt_wf s"
  shows "distinct (map m_deviceId (memberOrder env gi s))"
proof -
  have "mset (map m_deviceId (memberOrder env gi s)) = mset (map m_deviceId (activeMembers gi s))"
    by (metis mset_map mset_memberOrder)
  then show ?thesis using activeMembers_distinct[OF assms] by (metis mset_eq_imp_distinct_iff)
qed

lemma requireDevice_member:
  assumes "rt_wf s" and "m \<in> set (activeMembers gi s)"
  shows "requireDevice (m_deviceId m) s = (Inr (deviceOf s m), s)"
  using activeMembers_lookup[OF assms]
  by (simp add: requireDevice_def proper_id_requireText lift_result_def)

lemma sortedMembers_eq:
  assumes "rt_wf s"
  shows "sortedMembers env gi s = (Inr (memberOrder env gi s), s)"
proof -
  have "sm_mapM (\<lambda>m. requireDevice (m_deviceId m)) (activeMembers gi s) s =
      (Inr (map (deviceOf s) (activeMembers gi s)), s)"
    by (rule sm_mapM_returns) (rule requireDevice_member[OF assms])
  then show ?thesis
    by (simp add: sortedMembers_def memberOrder_def Let_def) (simp add: sm_bind_def)
qed

section \<open>One page\<close>

text \<open>The codec of page cursors: \<open>Buffer\<close>'s \<open>base64url\<close> round trip, and no empty encoding of an identifier.\<close>

definition cursor_codec :: "rt_env \<Rightarrow> bool" where
  "cursor_codec env \<longleftrightarrow>
     (\<forall>x. env_decodeCursor env (env_encodeCursor env x) = x) \<and> (\<forall>x. x \<noteq> [] \<longrightarrow> env_encodeCursor env x \<noteq> [])"

lemma takeWhile_nth_distinct:
  assumes "distinct (map f xs)" and "i < length xs"
  shows "length (takeWhile (\<lambda>x. f x \<noteq> f (xs ! i)) xs) = i"
  using assms
proof (induction xs arbitrary: i)
  case Nil
  then show ?case by simp
next
  case (Cons x xs)
  then show ?case by (cases i) auto
qed

lemma resolveCursor_after:
  assumes "distinct (map m_deviceId ms)" and "cursor_codec env" and "i < length ms" and "m_deviceId (ms ! i) \<noteq> []"
  shows "resolveCursor env ms (env_encodeCursor env (m_deviceId (ms ! i))) = Inr (i + 1)"
  using assms takeWhile_nth_distinct[OF assms(1,3)] by (simp add: resolveCursor_def cursor_codec_def Let_def)

lemma listDevices_page:
  assumes "rt_wf s" and "js_get (rt_groups s) (js_trim gi) = Some g" and "g_id (au_group au) = g_id g"
    and "normalizePageSize z defaultPageSize maxPageSize = Inr n"
    and "resolveCursor env (memberOrder env (g_id g) s) cursor = Inr j"
  shows "\<exists>page. listDevices env au gi z cursor s = (Inr page, s) \<and>
    (let ms = memberOrder env (g_id g) s; selected = take n (drop j ms) in
     pg_items page = map (\<lambda>m. toPairedDevice (deviceOf s m) m) selected \<and>
     pg_hasMore page = (j + length selected < length ms) \<and>
     pg_approximateTotal page = length ms \<and>
     (pg_hasMore page \<and> selected \<noteq> [] \<longrightarrow> pg_nextCursor page = env_encodeCursor env (m_deviceId (last selected))))"
proof -
  let ?ms = "memberOrder env (g_id g) s"
  have "sm_mapM (\<lambda>m. sm_bind (requireDevice (m_deviceId m)) (\<lambda>d. sm_return (toPairedDevice d m)))
      (take n (drop j ?ms)) s = (Inr (map (\<lambda>m. toPairedDevice (deviceOf s m) m) (take n (drop j ?ms))), s)"
  proof (rule sm_mapM_returns)
    fix m assume "m \<in> set (take n (drop j ?ms))"
    then have "m \<in> set (activeMembers (g_id g) s)"
      using set_memberOrder[of env "g_id g" s] by (metis in_set_dropD in_set_takeD)
    from requireDevice_member[OF assms(1) this]
    show "sm_bind (requireDevice (m_deviceId m)) (\<lambda>d. sm_return (toPairedDevice d m)) s =
        (Inr (toPairedDevice (deviceOf s m) m), s)"
      by (simp add: sm_bind_def)
  qed
  moreover have "js_trim gi \<noteq> []" using rt_wf_groupD[OF assms(1,2)] by (auto simp: proper_id_def)
  ultimately show ?thesis
    using assms(2-5) sortedMembers_eq[OF assms(1), of env "g_id g"]
    by (simp add: listDevices_def requireGroup_def requireText_def lift_result_def requireSameGroup_def
        sm_bind_def Let_def monad_defs)
qed

section \<open>Walking the pages\<close>

text \<open>A client that follows \<open>nextCursor\<close> while \<open>hasMore\<close> holds, for at most \<open>fuel\<close> pages.\<close>

fun walkPages ::
  "rt_env \<Rightarrow> authenticated_device \<Rightarrow> string \<Rightarrow> int \<Rightarrow> nat \<Rightarrow> string \<Rightarrow> runtime \<Rightarrow> paired_device list option" where
  "walkPages env au gi z 0 cursor s = None"
| "walkPages env au gi z (Suc fuel) cursor s =
     (case listDevices env au gi z cursor s of
        (Inl _, _) \<Rightarrow> None
      | (Inr page, s') \<Rightarrow>
          if pg_hasMore page
          then map_option ((@) (pg_items page)) (walkPages env au gi z fuel (pg_nextCursor page) s')
          else Some (pg_items page))"

lemma walkPages_from:
  assumes wf: "rt_wf s" and g: "js_get (rt_groups s) (js_trim gi) = Some g" "g_id (au_group au) = g_id g"
    and n: "normalizePageSize z defaultPageSize maxPageSize = Inr n" "0 < n" and codec: "cursor_codec env"
    and ms: "ms = memberOrder env (g_id g) s"
    and "resolveCursor env ms cursor = Inr j" and "j \<le> length ms" and "length ms - j < fuel"
  shows "walkPages env au gi z fuel cursor s = Some (map (\<lambda>m. toPairedDevice (deviceOf s m) m) (drop j ms))"
  using assms(8-10)
proof (induction fuel arbitrary: cursor j)
  case 0
  then show ?case by simp
next
  case (Suc fuel)
  let ?sel = "take n (drop j ms)"
  obtain page where page: "listDevices env au gi z cursor s = (Inr page, s)"
    and items: "pg_items page = map (\<lambda>m. toPairedDevice (deviceOf s m) m) ?sel"
    and more: "pg_hasMore page = (j + length ?sel < length ms)"
    and nexts: "pg_hasMore page \<Longrightarrow> ?sel \<noteq> [] \<Longrightarrow> pg_nextCursor page = env_encodeCursor env (m_deviceId (last ?sel))"
    using listDevices_page[OF wf g n(1) Suc.prems(1)[unfolded ms]] unfolding Let_def ms[symmetric] by blast
  show ?case
  proof (cases "j + n < length ms")
    case False
    then have "\<not> pg_hasMore page" and "?sel = drop j ms" using Suc.prems(2) more by auto
    then show ?thesis by (simp add: page items)
  next
    case True
    then have hm: "pg_hasMore page" and ne: "?sel \<noteq> []" using more n(2) by auto
    have last: "last ?sel = ms ! (j + n - 1)"
      using True n(2) by (simp add: last_conv_nth ne)
    have "ms ! (j + n - 1) \<in> set ms" using True by (intro nth_mem) simp
    then have "ms ! (j + n - 1) \<in> set (activeMembers (g_id g) s)"
      by (simp add: ms set_memberOrder)
    then have "m_deviceId (ms ! (j + n - 1)) \<noteq> []"
      using activeMembers_lookup(3)[OF wf] by (auto simp: proper_id_def)
    then have "resolveCursor env ms (pg_nextCursor page) = Inr (j + n)"
      unfolding nexts[OF hm ne] last
      using resolveCursor_after[of ms env "j + n - 1"] memberOrder_distinct[OF wf, of env "g_id g"] True n(2) codec
      by (simp add: ms)
    from Suc.IH[OF this] True Suc.prems(3) n(2)
    have "walkPages env au gi z fuel (pg_nextCursor page) s =
        Some (map (\<lambda>m. toPairedDevice (deviceOf s m) m) (drop (j + n) ms))" by simp
    moreover have "take n (drop j ms) @ drop (j + n) ms = drop j ms"
      by (metis add.commute append_take_drop_id drop_drop)
    ultimately show ?thesis
      by (simp add: page hm items flip: map_append)
  qed
qed

section \<open>Oldest first\<close>

lemma js_insert_sorted:
  assumes "\<And>x y. cmp x y \<le> 0 \<Longrightarrow> f x \<le> (f y :: int)" and "\<And>x y. cmp x y > 0 \<Longrightarrow> f y \<le> f x"
    and "sorted (map f ys)"
  shows "sorted (map f (js_insert cmp x ys))"
  using assms(3)
proof (induction ys)
  case Nil
  then show ?case by simp
next
  case (Cons y ys)
  have "set (js_insert cmp x ys) = insert x (set ys)"
    using mset_js_insert[of cmp x ys] by (metis set_mset_add_mset_insert set_mset_mset)
  with Cons assms(1,2)[of x y] show ?case by (force simp: not_le)
qed

lemma js_sort_sorted:
  assumes "\<And>x y. cmp x y \<le> 0 \<Longrightarrow> f x \<le> (f y :: int)" and "\<And>x y. cmp x y > 0 \<Longrightarrow> f y \<le> f x"
  shows "sorted (map f (js_sort cmp xs))"
  unfolding js_sort_def by (induction xs) (auto intro: js_insert_sorted[OF assms])

lemma memberOrder_oldest_first:
  "sorted (map (\<lambda>m. d_createdAt (deviceOf s m)) (memberOrder env gi s))"
proof (cases "length (activeMembers gi s) < 2")
  case True
  then show ?thesis
    by (cases "activeMembers gi s"; cases "tl (activeMembers gi s)") (auto simp: memberOrder_def)
next
  case False
  let ?zs = "js_sort (compareMembers env) (zip (activeMembers gi s) (map (deviceOf s) (activeMembers gi s)))"
  have "sorted (map (\<lambda>p. d_createdAt (snd p)) ?zs)"
    by (rule js_sort_sorted) (auto simp: compareMembers_def Let_def split: if_splits)
  moreover have "map (\<lambda>p. d_createdAt (snd p)) ?zs = map (\<lambda>m. d_createdAt (deviceOf s m)) (map fst ?zs)"
    by (auto simp: in_set_zip)
  ultimately show ?thesis using False by (simp add: memberOrder_def Let_def)
qed

text \<open>
  Paging lists every member once. For every accepted page size, the client that starts
  without a cursor and follows \<open>nextCursor\<close> while \<open>hasMore\<close> holds gets, within one request
  per member and one more, every active member of the group exactly once, oldest device first,
  given a cursor codec that decodes what it encodes.
\<close>

theorem listDevices_pages_cover_members:
  assumes "rt_wf s" and "js_get (rt_groups s) (js_trim groupId) = Some g" and "g_id (au_group au) = g_id g"
    and "normalizePageSize requested defaultPageSize maxPageSize = Inr n" and "0 < n" and "cursor_codec env"
  shows "\<exists>members. mset members = mset (activeMembers (g_id g) s) \<and>
    sorted (map (\<lambda>m. d_createdAt (deviceOf s m)) members) \<and>
    walkPages env au groupId requested (Suc (length members)) [] s =
      Some (map (\<lambda>m. toPairedDevice (deviceOf s m) m) members)"
proof -
  let ?ms = "memberOrder env (g_id g) s"
  have "walkPages env au groupId requested (Suc (length ?ms)) [] s =
      Some (map (\<lambda>m. toPairedDevice (deviceOf s m) m) (drop 0 ?ms))"
    by (rule walkPages_from[OF assms refl]) (simp_all add: resolveCursor_def)
  then show ?thesis
    using mset_memberOrder memberOrder_oldest_first by (intro exI[of _ ?ms]) simp
qed

theorem listDevices_pages_cover_members_witness:
  "\<exists>members. mset members = {#demoMember ''a'' ADMIN, demoMember ''b'' EDITOR#} \<and>
     walkPages demoEnv demoLeader ''g'' 1 (Suc (length members)) [] demoRuntime =
       Some (map (\<lambda>m. toPairedDevice (deviceOf demoRuntime m) m) members)"
proof -
  have "js_get (rt_groups demoRuntime) (js_trim ''g'') = Some demoGroup"
    "g_id (au_group demoLeader) = g_id demoGroup"
    "normalizePageSize 1 defaultPageSize maxPageSize = Inr 1" "cursor_codec demoEnv"
    by (simp_all add: demoRuntime_def demoLeader_def normalizePageSize_def cursor_codec_def demoEnv_def
        maxPageSize_def)
  moreover have "activeMembers (g_id demoGroup) demoRuntime = [demoMember ''a'' ADMIN, demoMember ''b'' EDITOR]"
    by (simp add: activeMembers_def demo_defs)
  ultimately show ?thesis
    using listDevices_pages_cover_members[OF demoRuntime_wf, of "''g''" demoGroup demoLeader 1 1 demoEnv] by auto
qed

end
