(* ===== verification/Event_Log.thy ===== *)
theory Event_Log
  imports Paired_Runtime
begin

text \<open>
  The group event log: \<open>apps/control-plane/src/realtime/eventStore.ts\<close> and
  \<open>replayDecision.ts\<close>, with the receipt guard of \<open>sync/receipt-guard.ts\<close>.

  The in-memory store keeps two \<open>Map\<close>s. The durable store is a sequence of SQL statements; the
  tables they touch are the fields of \<open>event_db\<close>, and each statement is the function of the
  tables that it denotes. A data-modifying \<open>WITH\<close> chain runs every part against the tables as
  they were before the statement.

  Not source code, and so a field of \<open>ev_env\<close>: the protobuf codec of \<open>GroupEvent\<close>, the
  representation in which the PostgreSQL driver returns \<open>bigint\<close> and \<open>bytea\<close> values, and the
  credential hash of the receipts. Protobuf messages carried inside an event are opaque bytes.
\<close>

type_synonym bytes = "8 word list"

section \<open>Events\<close>

datatype event_kind =
    GROUP_UPDATED | DEVICE_UPDATED | PRESENCE_UPDATED | DOCUMENT_DELTA | SESSION_COMMAND
  | SNAPSHOT_REQUIRED | KIND_UNSPECIFIED | KIND_UNRECOGNIZED int

datatype document_type =
    LAYOUT | SETTINGS | CONTENT | KEYMAP | SIMULATION | TYPE_UNSPECIFIED | TYPE_UNRECOGNIZED int

record group_event_draft =
  dr_groupId :: string
  dr_kind :: event_kind
  dr_group :: "bytes option"
  dr_device :: "bytes option"
  dr_presence :: "bytes option"
  dr_documentId :: "string option"
  dr_documentDelta :: "bytes option"
  dr_sessionCommand :: "bytes option"
  dr_actorDeviceId :: "string option"
  dr_hybridLogicalClock :: "int option"

record group_event =
  ev_sequence :: int
  ev_kind :: event_kind
  ev_group :: "bytes option"
  ev_device :: "bytes option"
  ev_presence :: "bytes option"
  ev_documentId :: "string option"
  ev_documentDelta :: "bytes option"
  ev_sessionCommand :: "bytes option"
  ev_actorDeviceId :: "string option"
  ev_hybridLogicalClock :: int
  ev_occurredAt :: int

record realtime_replay =
  rp_events :: "group_event list"
  rp_earliestSequence :: "int option"

definition buildGroupEvent :: "group_event_draft \<Rightarrow> int \<Rightarrow> int \<Rightarrow> group_event" where
  "buildGroupEvent draft sequence occurredAt =
     \<lparr>ev_sequence = sequence, ev_kind = dr_kind draft, ev_group = dr_group draft,
      ev_device = dr_device draft, ev_presence = dr_presence draft,
      ev_documentId = dr_documentId draft, ev_documentDelta = dr_documentDelta draft,
      ev_sessionCommand = dr_sessionCommand draft, ev_actorDeviceId = dr_actorDeviceId draft,
      ev_hybridLogicalClock = (case dr_hybridLogicalClock draft of None \<Rightarrow> 0 | Some h \<Rightarrow> h),
      ev_occurredAt = occurredAt\<rparr>"

fun eventKindName :: "event_kind \<Rightarrow> string" where
  "eventKindName GROUP_UPDATED = ''GROUP_UPDATED''"
| "eventKindName DEVICE_UPDATED = ''DEVICE_UPDATED''"
| "eventKindName PRESENCE_UPDATED = ''PRESENCE_UPDATED''"
| "eventKindName DOCUMENT_DELTA = ''DOCUMENT_DELTA''"
| "eventKindName SESSION_COMMAND = ''SESSION_COMMAND''"
| "eventKindName SNAPSHOT_REQUIRED = ''SNAPSHOT_REQUIRED''"
| "eventKindName KIND_UNSPECIFIED = ''UNSPECIFIED''"
| "eventKindName (KIND_UNRECOGNIZED n) = ''UNSPECIFIED''"

fun documentTypeName :: "document_type option \<Rightarrow> string" where
  "documentTypeName (Some LAYOUT) = ''LAYOUT''"
| "documentTypeName (Some SETTINGS) = ''SETTINGS''"
| "documentTypeName (Some CONTENT) = ''CONTENT''"
| "documentTypeName (Some KEYMAP) = ''KEYMAP''"
| "documentTypeName (Some SIMULATION) = ''SIMULATION''"
| "documentTypeName _ = ''UNSPECIFIED''"

definition documentTypeOf :: "string \<Rightarrow> document_type" where
  "documentTypeOf value =
     (if value = ''LAYOUT'' then LAYOUT
      else if value = ''SETTINGS'' then SETTINGS
      else if value = ''CONTENT'' then CONTENT
      else if value = ''KEYMAP'' then KEYMAP
      else if value = ''SIMULATION'' then SIMULATION
      else TYPE_UNSPECIFIED)"

definition defaultRealtimeHistoryLimit :: int where "defaultRealtimeHistoryLimit = 512"
definition defaultRealtimeReplayLimit :: int where "defaultRealtimeReplayLimit = 512"

definition requireHistoryLimit :: "int \<Rightarrow> rt_error + nat" where
  "requireHistoryLimit value =
     (if value < 1 then Inl (PlainError ''Realtime history limit must be a positive integer'')
      else Inr (nat value))"

definition requireReplayLimit :: "int \<Rightarrow> rt_error + nat" where
  "requireReplayLimit value =
     (if value < 1 then Inl (PlainError ''Realtime replay limit must be a positive integer'')
      else Inr (nat (min value defaultRealtimeReplayLimit)))"

section \<open>The retention edge\<close>

datatype replay_decision = Replay | Resync int

definition decideReplay :: "int \<Rightarrow> int option \<Rightarrow> replay_decision" where
  "decideReplay afterSequence earliestSequence =
     (case earliestSequence of
        None \<Rightarrow> Replay
      | Some earliest \<Rightarrow> if afterSequence < earliest - 1 then Resync earliest else Replay)"

section \<open>The in-memory store\<close>

record mem_store =
  mem_eventsByGroup :: "(string, group_event list) jsmap"
  mem_sequenceByGroup :: "(string, int) jsmap"
  mem_historyLimit :: nat

definition newMemStore :: "int \<Rightarrow> rt_error + mem_store" where
  "newMemStore historyLimit =
     (case requireHistoryLimit historyLimit of
        Inl e \<Rightarrow> Inl e
      | Inr h \<Rightarrow> Inr \<lparr>mem_eventsByGroup = [], mem_sequenceByGroup = [], mem_historyLimit = h\<rparr>)"

definition memAppend :: "int \<Rightarrow> group_event_draft \<Rightarrow> (mem_store, rt_error, group_event) sm" where
  "memAppend now draft s =
     (let sequence = (case js_get (mem_sequenceByGroup s) (dr_groupId draft) of
                        None \<Rightarrow> 0 | Some n \<Rightarrow> n) + 1;
          event = buildGroupEvent draft sequence now;
          events = (case js_get (mem_eventsByGroup s) (dr_groupId draft) of
                      None \<Rightarrow> [] | Some es \<Rightarrow> es) @ [event];
          kept = (if length events > mem_historyLimit s
                  then drop (length events - mem_historyLimit s) events else events)
      in (Inr event, s\<lparr>mem_sequenceByGroup := js_set (dr_groupId draft) sequence (mem_sequenceByGroup s),
                       mem_eventsByGroup := js_set (dr_groupId draft) kept (mem_eventsByGroup s)\<rparr>))"

definition memReplay :: "string \<Rightarrow> int \<Rightarrow> int \<Rightarrow> (mem_store, rt_error, realtime_replay) sm" where
  "memReplay groupId afterSequence limit s =
     (let events = (case js_get (mem_eventsByGroup s) groupId of None \<Rightarrow> [] | Some es \<Rightarrow> es);
          earliest = (case events of [] \<Rightarrow> None | e # _ \<Rightarrow> Some (ev_sequence e)) in
      case requireReplayLimit limit of
        Inl e \<Rightarrow> (Inl e, s)
      | Inr n \<Rightarrow> (Inr \<lparr>rp_events = take n (filter (\<lambda>e. ev_sequence e > afterSequence) events),
                     rp_earliestSequence = earliest\<rparr>, s))"

section \<open>The tables of the durable store\<close>

record event_row =
  er_groupId :: string
  er_sequence :: int
  er_kind :: string
  er_documentId :: "string option"
  er_payload :: bytes
  er_hybridLogicalClock :: int
  er_actorDeviceId :: "string option"
  er_occurredAt :: int

record snapshot_row =
  sn_groupId :: string
  sn_documentId :: string
  sn_documentType :: string
  sn_sequence :: int
  sn_stateVector :: bytes
  sn_snapshot :: bytes

record membership_row =
  mr_groupId :: string
  mr_deviceId :: string
  mr_role :: device_role
  mr_revokedAt :: "int option"

record receipt_row =
  rr_fingerprint :: string
  rr_claimedAt :: int
  rr_expiresAt :: int
  rr_completedAt :: "int option"
  rr_groupId :: "string option"
  rr_sequence :: "int option"

record event_db =
  db_groups :: "string list"
  db_sequences :: "(string, int) jsmap"
  db_events :: "event_row list"
  db_snapshots :: "snapshot_row list"
  db_memberships :: "membership_row list"
  db_deviceStatus :: "(string, device_status) jsmap"
  db_receipts :: "(mutation_scope \<times> string, receipt_row) jsmap"

text \<open>
  The rows that \<open>sync_events\<close> and \<open>group_event_sequences\<close> refer to: the group, and the acting
  device if there is one. A row of \<open>db_deviceStatus\<close> stands for a row of \<open>devices\<close>.
\<close>

definition foreignKeys :: "group_event_draft \<Rightarrow> event_db \<Rightarrow> bool" where
  "foreignKeys draft db \<longleftrightarrow>
     list_ex (\<lambda>g. g = dr_groupId draft) (db_groups db) \<and>
     (case dr_actorDeviceId draft of None \<Rightarrow> True | Some d \<Rightarrow> js_get (db_deviceStatus db) d \<noteq> None)"

text \<open>A value as the driver returns it.\<close>

datatype sql_value = SqlBigint int | SqlNumber int | SqlText string | SqlBytes bytes | SqlBool bool | SqlNull

record ev_env =
  ee_toBinary :: "group_event \<Rightarrow> bytes"
  ee_fromBinary :: "bytes \<Rightarrow> rt_error + group_event"
  ee_bigint :: "int \<Rightarrow> sql_value"
  ee_bytea :: "bytes \<Rightarrow> sql_value"
  ee_foreignKeyError :: rt_error
  ee_hashReceipt :: "string \<Rightarrow> string"
  ee_receiptLifetimeMs :: int
  ee_historyLimit :: nat

definition readSequence :: "sql_value \<Rightarrow> rt_error + int" where
  "readSequence value =
     (case value of
        SqlBigint n \<Rightarrow> Inr n
      | SqlNumber n \<Rightarrow> Inr n
      | SqlText s \<Rightarrow> (if s \<noteq> [] \<and> list_all is_digit s then Inr (int (undecimal s))
                    else Inl (PlainError ''sync_events.sequence must be a non-negative integer''))
      | _ \<Rightarrow> Inl (PlainError ''sync_events.sequence must be a non-negative integer''))"

definition hex_value :: "char \<Rightarrow> nat option" where
  "hex_value c =
     (let n = of_char c :: nat in
      if 48 \<le> n \<and> n \<le> 57 then Some (n - 48)
      else if 97 \<le> n \<and> n \<le> 102 then Some (n - 87)
      else if 65 \<le> n \<and> n \<le> 70 then Some (n - 55)
      else None)"

text \<open>\<open>Buffer.from(text, 'hex')\<close>: two digits a byte, stopping at the first that are not.\<close>

fun unhex :: "string \<Rightarrow> bytes" where
  "unhex (a # b # cs) =
     (case (hex_value a, hex_value b) of
        (Some x, Some y) \<Rightarrow> word_of_nat (16 * x + y) # unhex cs
      | _ \<Rightarrow> [])"
| "unhex _ = []"

definition readBytes :: "sql_value \<Rightarrow> rt_error + bytes" where
  "readBytes value =
     (case value of
        SqlBytes b \<Rightarrow> Inr b
      | SqlText s \<Rightarrow> (if take 2 s = [CHR 0x5C, CHR ''x''] then Inr (unhex (drop 2 s))
                    else Inl (PlainError ''sync_events.payload must be a bytea value''))
      | _ \<Rightarrow> Inl (PlainError ''sync_events.payload must be a bytea value''))"

definition hexOf :: "bytes option \<Rightarrow> string" where
  "hexOf bytes = (case bytes of None \<Rightarrow> [] | Some b \<Rightarrow> hex b)"

type_synonym 'a db = "(event_db, rt_error, 'a) sm"

section \<open>The durable store\<close>

text \<open>The upsert of \<open>group_event_sequences\<close>, and the row it numbers.\<close>

definition nextSequence :: "string \<Rightarrow> event_db \<Rightarrow> int" where
  "nextSequence groupId db = (case js_get (db_sequences db) groupId of None \<Rightarrow> 1 | Some n \<Rightarrow> n + 1)"

definition eventRow :: "ev_env \<Rightarrow> group_event_draft \<Rightarrow> int \<Rightarrow> int \<Rightarrow> event_row" where
  "eventRow env draft sequence occurredAt =
     \<lparr>er_groupId = dr_groupId draft, er_sequence = sequence, er_kind = eventKindName (dr_kind draft),
      er_documentId = dr_documentId draft,
      er_payload = ee_toBinary env (buildGroupEvent draft 0 occurredAt),
      er_hybridLogicalClock = (case dr_hybridLogicalClock draft of None \<Rightarrow> 0 | Some h \<Rightarrow> h),
      er_actorDeviceId = dr_actorDeviceId draft, er_occurredAt = occurredAt\<rparr>"

definition insertEvent :: "ev_env \<Rightarrow> group_event_draft \<Rightarrow> int \<Rightarrow> event_db \<Rightarrow> event_db" where
  "insertEvent env draft occurredAt db =
     db\<lparr>db_sequences := js_set (dr_groupId draft) (nextSequence (dr_groupId draft) db) (db_sequences db),
        db_events := db_events db @ [eventRow env draft (nextSequence (dr_groupId draft) db) occurredAt]\<rparr>"

definition deleteThrough :: "string \<Rightarrow> int \<Rightarrow> event_row list \<Rightarrow> event_row list" where
  "deleteThrough groupId sequence rows =
     filter (\<lambda>r. \<not> (er_groupId r = groupId \<and> er_sequence r \<le> sequence)) rows"

definition prune :: "ev_env \<Rightarrow> string \<Rightarrow> int \<Rightarrow> event_db \<Rightarrow> event_db" where
  "prune env groupId latestSequence db =
     (let oldestRetained = latestSequence - int (ee_historyLimit env) in
      if oldestRetained \<le> 0 then db
      else db\<lparr>db_events := deleteThrough groupId oldestRetained (db_events db)\<rparr>)"

text \<open>
  A draft whose group or acting device is not in the database violates a foreign key: the statement
  is undone, and the driver's error leaves \<open>append\<close> as it is.
\<close>

definition durableAppend :: "ev_env \<Rightarrow> int \<Rightarrow> group_event_draft \<Rightarrow> group_event db" where
  "durableAppend env now draft =
     sm_bind (sm_get (foreignKeys draft)) (\<lambda>known.
     sm_bind (sm_require known (ee_foreignKeyError env)) (\<lambda>_.
     sm_bind (sm_get (nextSequence (dr_groupId draft))) (\<lambda>allocated.
     sm_bind (sm_modify (insertEvent env draft now)) (\<lambda>_.
     sm_bind (sm_lift (readSequence (ee_bigint env allocated))) (\<lambda>sequence.
     sm_bind (sm_modify (prune env (dr_groupId draft) sequence)) (\<lambda>_.
     sm_return (buildGroupEvent draft sequence now)))))))"

definition decodeRow :: "ev_env \<Rightarrow> event_row \<Rightarrow> group_event db" where
  "decodeRow env row =
     sm_bind (sm_lift (readSequence (ee_bigint env (er_sequence row)))) (\<lambda>sequence.
     sm_bind (sm_lift (readBytes (ee_bytea env (er_payload row)))) (\<lambda>payload.
     sm_bind (sm_lift (ee_fromBinary env payload)) (\<lambda>event.
     sm_return (event\<lparr>ev_sequence := sequence\<rparr>))))"

definition durableReplay :: "ev_env \<Rightarrow> string \<Rightarrow> int \<Rightarrow> int \<Rightarrow> realtime_replay db" where
  "durableReplay env groupId afterSequence limit =
     sm_bind (sm_lift (requireReplayLimit limit)) (\<lambda>n.
     sm_bind (sm_get (\<lambda>db. filter (\<lambda>r. er_groupId r = groupId) (db_events db))) (\<lambda>stored.
     let rows = take n (sort_key er_sequence (filter (\<lambda>r. er_sequence r > afterSequence) stored)) in
     if rows = [] then sm_return \<lparr>rp_events = [], rp_earliestSequence = None\<rparr>
     else
       sm_bind (sm_lift (readSequence (ee_bigint env (Min (set (map er_sequence stored)))))) (\<lambda>earliest.
       sm_bind (sm_mapM (decodeRow env) rows) (\<lambda>events.
       sm_return \<lparr>rp_events = events, rp_earliestSequence = Some earliest\<rparr>))))"

section \<open>Receipts of publications\<close>

record guard_claim =
  gc_scope :: mutation_scope
  gc_requestIdHash :: string
  gc_fingerprint :: string
  gc_claimed :: bool

definition guardHash :: "ev_env \<Rightarrow> string \<Rightarrow> rt_error + string" where
  "guardHash env payload =
     (let h = ee_hashReceipt env payload in
      if length (js_trim h) = 0
      then Inl (PlainError ''hashCredential must return a non-empty opaque credential hash'')
      else Inr h)"

text \<open>
  \<open>MutationReceiptGuard.claim\<close>: the upsert inserts a new receipt, takes over an incomplete one,
  and leaves a completed one alone.
\<close>

definition guardClaim ::
  "ev_env \<Rightarrow> mutation_scope \<Rightarrow> string option \<Rightarrow> int \<Rightarrow> (string \<times> string) list \<Rightarrow> guard_claim option db" where
  "guardClaim env scope requestId now fs =
     (case normalizeRequestId requestId of
        Inl e \<Rightarrow> sm_throw (RequestIdError e)
      | Inr None \<Rightarrow> sm_return None
      | Inr (Some rid) \<Rightarrow>
          sm_bind (sm_lift (guardHash env (encodeRequestIdPayload scope rid))) (\<lambda>requestIdHash.
          sm_bind (sm_lift (guardHash env (encodeFingerprintPayload scope fs))) (\<lambda>fingerprint.
          sm_bind (sm_get (\<lambda>db. js_get (db_receipts db) (scope, requestIdHash))) (\<lambda>stored.
          let claimed = (case stored of None \<Rightarrow> True | Some r \<Rightarrow> rr_completedAt r = None);
              row = (case stored of
                       None \<Rightarrow> \<lparr>rr_fingerprint = fingerprint, rr_claimedAt = now,
                                rr_expiresAt = now + ee_receiptLifetimeMs env, rr_completedAt = None,
                                rr_groupId = None, rr_sequence = None\<rparr>
                     | Some r \<Rightarrow> r\<lparr>rr_claimedAt := now, rr_expiresAt := now + ee_receiptLifetimeMs env,
                                  rr_fingerprint := fingerprint\<rparr>) in
          sm_bind (if claimed
                   then sm_modify (\<lambda>db. db\<lparr>db_receipts := js_set (scope, requestIdHash) row (db_receipts db)\<rparr>)
                   else sm_return ()) (\<lambda>_.
          sm_return (Some \<lparr>gc_scope = scope, gc_requestIdHash = requestIdHash,
                           gc_fingerprint = fingerprint, gc_claimed = claimed\<rparr>))))))"

definition guardResolveRefused :: "guard_claim \<Rightarrow> rt_error \<Rightarrow> int \<Rightarrow> receipt_row db" where
  "guardResolveRefused receipt mutationFailure now =
     sm_bind (sm_get (\<lambda>db. js_get (db_receipts db) (gc_scope receipt, gc_requestIdHash receipt))) (\<lambda>stored.
     case stored of
       None \<Rightarrow> sm_throw mutationFailure
     | Some r \<Rightarrow>
         if \<not> (rr_expiresAt r > now) \<or> rr_completedAt r = None then sm_throw mutationFailure
         else if rr_fingerprint r = []
         then sm_throw (PlainError ''The database returned an invalid receipt_fingerprint.'')
         else if rr_fingerprint r \<noteq> gc_fingerprint receipt then sm_throw payloadMismatch
         else sm_return r)"

section \<open>Publishing for a client\<close>

record authorized_draft =
  ad_draft :: group_event_draft
  ad_actorDeviceId :: string
  ad_stateVector :: "bytes option"
  ad_documentType :: "document_type option"

record append_result =
  ar_event :: group_event
  ar_stateVector :: bytes

definition draftOf :: "authorized_draft \<Rightarrow> group_event_draft" where
  "draftOf a = (ad_draft a)\<lparr>dr_actorDeviceId := Some (ad_actorDeviceId a)\<rparr>"

definition publishScope :: "event_kind \<Rightarrow> mutation_scope" where
  "publishScope kind = (if kind = SESSION_COMMAND then PUBLISH_SESSION_COMMAND else PUBLISH_DOCUMENT_DELTA)"

definition couldNotPublish :: rt_error where
  "couldNotPublish = PairedDeviceRuntimeError FAILED_PRECONDITION ''The group event could not be published.''"

definition notAnEditor :: rt_error where
  "notAnEditor = PairedDeviceRuntimeError PERMISSION_DENIED
     ''Only an active group editor can publish a group event.''"

definition requireGuard :: "bool \<Rightarrow> unit db" where
  "requireGuard present = sm_require present (PairedDeviceRuntimeError FAILED_PRECONDITION
     ''This control plane cannot answer retried publications: no receipt guard is configured.'')"

text \<open>The parts of the publishing statement: the receipt gate, the authorized actor, the writes.\<close>

definition gateOpen :: "guard_claim option \<Rightarrow> event_db \<Rightarrow> bool" where
  "gateOpen receipt db =
     (case receipt of
        None \<Rightarrow> True
      | Some c \<Rightarrow> (case js_get (db_receipts db) (gc_scope c, gc_requestIdHash c) of
                    None \<Rightarrow> False | Some r \<Rightarrow> rr_completedAt r = None))"

definition actorAuthorized :: "string \<Rightarrow> string \<Rightarrow> event_db \<Rightarrow> bool" where
  "actorAuthorized groupId deviceId db =
     list_ex (\<lambda>m. mr_groupId m = groupId \<and> mr_deviceId m = deviceId \<and> mr_revokedAt m = None \<and>
        (mr_role m = EDITOR \<or> mr_role m = ADMIN) \<and>
        (case js_get (db_deviceStatus db) deviceId of None \<Rightarrow> False | Some st \<Rightarrow> st \<noteq> REVOKED))
       (db_memberships db)"

definition publishRows ::
  "ev_env \<Rightarrow> authorized_draft \<Rightarrow> guard_claim option \<Rightarrow> int \<Rightarrow> event_db \<Rightarrow> event_db" where
  "publishRows env a receipt occurredAt db =
     (let draft = draftOf a; g = dr_groupId draft; n = nextSequence g db in
      db\<lparr>db_sequences := js_set g n (db_sequences db),
         db_events := deleteThrough g (n - int (ee_historyLimit env)) (db_events db)
                        @ [eventRow env draft n occurredAt],
         db_snapshots := db_snapshots db @
           (case dr_documentId draft of
              None \<Rightarrow> []
            | Some documentId \<Rightarrow>
                [\<lparr>sn_groupId = g, sn_documentId = documentId,
                  sn_documentType = documentTypeName (ad_documentType a), sn_sequence = n,
                  sn_stateVector = (case ad_stateVector a of None \<Rightarrow> [] | Some v \<Rightarrow> v),
                  sn_snapshot = ee_toBinary env (buildGroupEvent draft 0 occurredAt)\<rparr>]),
         db_receipts :=
           (case receipt of
              None \<Rightarrow> db_receipts db
            | Some c \<Rightarrow>
                (case js_get (db_receipts db) (gc_scope c, gc_requestIdHash c) of
                   None \<Rightarrow> db_receipts db
                 | Some r \<Rightarrow> js_set (gc_scope c, gc_requestIdHash c)
                     (r\<lparr>rr_groupId := Some g, rr_sequence := Some n, rr_completedAt := Some occurredAt\<rparr>)
                     (db_receipts db)))\<rparr>)"

definition publishStatement ::
  "ev_env \<Rightarrow> authorized_draft \<Rightarrow> guard_claim option \<Rightarrow> int \<Rightarrow> (bool \<times> int option) db" where
  "publishStatement env a receipt occurredAt db =
     (let g = dr_groupId (ad_draft a) in
      if gateOpen receipt db \<and> actorAuthorized g (ad_actorDeviceId a) db
      then (Inr (True, Some (nextSequence g db)), publishRows env a receipt occurredAt db)
      else (Inr (gateOpen receipt db, None), db))"

definition replayAuthorizedAppend :: "ev_env \<Rightarrow> guard_claim \<Rightarrow> int \<Rightarrow> append_result db" where
  "replayAuthorizedAppend env receipt now =
     sm_bind (guardResolveRefused receipt couldNotPublish now) (\<lambda>outcome.
     case (rr_sequence outcome, Option.bind (rr_groupId outcome) (\<lambda>g. if g = [] then None else Some g)) of
       (Some sequence, Some groupId) \<Rightarrow>
         sm_bind (durableReplay env groupId (sequence - 1) 1) (\<lambda>replay.
         case rp_events replay of
           [] \<Rightarrow> sm_throw (PairedDeviceRuntimeError FAILED_PRECONDITION
                  ''The recorded publication is no longer retained and cannot be replayed.'')
         | event # _ \<Rightarrow>
             if ev_sequence event \<noteq> sequence
             then sm_throw (PairedDeviceRuntimeError FAILED_PRECONDITION
                    ''The recorded publication is no longer retained and cannot be replayed.'')
             else sm_return \<lparr>ar_event = event, ar_stateVector = []\<rparr>)
     | _ \<Rightarrow> sm_throw (PairedDeviceRuntimeError FAILED_PRECONDITION
              ''The recorded publication is missing its sequence and cannot be replayed.''))"

text \<open>
  \<open>appendAuthorized\<close>. The three clock readings are arguments: at the claim, at the write, and
  at the reading of a refused receipt. \<open>mutation\<close> is \<open>None\<close> when the caller passed no context, and
  \<open>guard\<close> says whether the store was constructed with a receipt guard.
\<close>

definition appendAuthorized ::
  "ev_env \<Rightarrow> bool \<Rightarrow> int \<Rightarrow> int \<Rightarrow> int \<Rightarrow> authorized_draft \<Rightarrow> string option option \<Rightarrow> append_result db" where
  "appendAuthorized env guard claimedAt occurredAt resolvedAt a mutation =
     sm_bind (case mutation of
                None \<Rightarrow> sm_return None
              | Some requestId \<Rightarrow>
                  sm_bind (requireGuard guard) (\<lambda>_.
                  guardClaim env (publishScope (dr_kind (ad_draft a))) requestId claimedAt
                    [(''group_id'', dr_groupId (ad_draft a)),
                     (''actor_device_id'', ad_actorDeviceId a),
                     (''document_id'', case dr_documentId (ad_draft a) of None \<Rightarrow> [] | Some d \<Rightarrow> d),
                     (''kind'', eventKindName (dr_kind (ad_draft a))),
                     (''payload'', hexOf (dr_documentDelta (ad_draft a)))])) (\<lambda>receipt.
     if (case receipt of None \<Rightarrow> False | Some c \<Rightarrow> \<not> gc_claimed c)
     then replayAuthorizedAppend env (the receipt) resolvedAt
     else
       sm_bind (publishStatement env a receipt occurredAt) (\<lambda>(receiptClaimed, allocated).
       if receipt \<noteq> None \<and> \<not> receiptClaimed then replayAuthorizedAppend env (the receipt) resolvedAt
       else case allocated of
         None \<Rightarrow> sm_throw notAnEditor
       | Some n \<Rightarrow>
           sm_bind (sm_lift (readSequence (ee_bigint env n))) (\<lambda>sequence.
           sm_return \<lparr>ar_event = buildGroupEvent (draftOf a) sequence occurredAt,
                      ar_stateVector = (case ad_stateVector a of None \<Rightarrow> [] | Some v \<Rightarrow> v)\<rparr>)))"

section \<open>Document snapshots\<close>

record document_snapshot =
  ds_snapshot :: bytes
  ds_stateVector :: bytes
  ds_sequence :: int
  ds_documentType :: document_type

definition readDocumentSnapshot :: "ev_env \<Rightarrow> string \<Rightarrow> string \<Rightarrow> document_snapshot option db" where
  "readDocumentSnapshot env groupId documentId =
     sm_bind (sm_get (\<lambda>db. filter (\<lambda>r. sn_groupId r = groupId \<and> sn_documentId r = documentId)
                        (db_snapshots db))) (\<lambda>rows.
     case rev (sort_key sn_sequence rows) of
       [] \<Rightarrow> sm_return None
     | row # _ \<Rightarrow>
         sm_bind (sm_lift (readBytes (ee_bytea env (sn_snapshot row)))) (\<lambda>snapshot.
         sm_bind (sm_lift (readBytes (ee_bytea env (sn_stateVector row)))) (\<lambda>stateVector.
         sm_bind (sm_lift (readSequence (ee_bigint env (sn_sequence row)))) (\<lambda>sequence.
         sm_return (Some \<lparr>ds_snapshot = snapshot, ds_stateVector = stateVector, ds_sequence = sequence,
                          ds_documentType = documentTypeOf (sn_documentType row)\<rparr>)))))"

end
