(* ===== verification/Event_Store.thy ===== *)
theory Event_Store
  imports Event_Log
begin

text \<open>
  The contract of \<open>RealtimeEventStore\<close> as a locale, with both stores as interpretations:
  numbering is gapless, exactly the last \<open>historyLimit\<close> events of a group are retained, and a
  resume answered with events skips none.
\<close>

section \<open>The contract\<close>

definition first_sequence :: "group_event list \<Rightarrow> int option" where
  "first_sequence es = (case es of [] \<Rightarrow> None | e # _ \<Rightarrow> Some (ev_sequence e))"

text \<open>The events of one group, numbered from one in the order of their publication.\<close>

definition numbered :: "(int \<times> group_event_draft) list \<Rightarrow> group_event list" where
  "numbered ds = map (\<lambda>i. buildGroupEvent (snd (ds ! i)) (int (Suc i)) (fst (ds ! i))) [0 ..< length ds]"

definition of_group :: "string \<Rightarrow> (int \<times> group_event_draft) list \<Rightarrow> (int \<times> group_event_draft) list" where
  "of_group g ds = filter (\<lambda>d. dr_groupId (snd d) = g) ds"

definition logOf :: "string \<Rightarrow> (int \<times> group_event_draft) list \<Rightarrow> group_event list" where
  "logOf g ds = numbered (of_group g ds)"

definition lastn :: "nat \<Rightarrow> 'a list \<Rightarrow> 'a list" where
  "lastn n xs = drop (length xs - n) xs"

text \<open>A history of publications, each at its clock reading.\<close>

definition appendAll ::
  "(int \<Rightarrow> group_event_draft \<Rightarrow> ('s, rt_error, group_event) sm) \<Rightarrow> (int \<times> group_event_draft) list \<Rightarrow> 's \<Rightarrow> 's" where
  "appendAll put ds s = fold (\<lambda>d s. snd (put (fst d) (snd d) s)) ds s"

locale event_store =
  fixes put :: "int \<Rightarrow> group_event_draft \<Rightarrow> ('s, rt_error, group_event) sm"
    and replay :: "string \<Rightarrow> int \<Rightarrow> int \<Rightarrow> ('s, rt_error, realtime_replay) sm"
    and accepts :: "int \<Rightarrow> group_event_draft \<Rightarrow> bool"
    and ok :: "'s \<Rightarrow> bool"
    and retained :: "'s \<Rightarrow> string \<Rightarrow> group_event list"
    and issued :: "'s \<Rightarrow> string \<Rightarrow> nat"
    and window :: nat
  assumes put_law: "ok s \<Longrightarrow> accepts now d \<Longrightarrow> \<exists>t. put now d s =
      (Inr (buildGroupEvent d (int (Suc (issued s (dr_groupId d)))) now), t) \<and> ok t \<and>
      issued t = (issued s)(dr_groupId d := Suc (issued s (dr_groupId d))) \<and>
      retained t = (retained s)(dr_groupId d := lastn window (retained s (dr_groupId d) @
        [buildGroupEvent d (int (Suc (issued s (dr_groupId d)))) now]))"
    and replay_law: "ok s \<Longrightarrow> requireReplayLimit limit = Inr n \<Longrightarrow> \<exists>earliest.
      replay g after limit s =
        (Inr \<lparr>rp_events = take n (filter (\<lambda>e. ev_sequence e > after) (retained s g)),
              rp_earliestSequence = earliest\<rparr>, s) \<and>
      (after \<le> int (issued s g) \<longrightarrow>
        decideReplay after earliest = decideReplay after (first_sequence (retained s g)))"
    and numbers_law: "ok s \<Longrightarrow> map ev_sequence (retained s g) =
      map int [Suc (issued s g - window) ..< Suc (issued s g)]"
    and window_pos: "ok s \<Longrightarrow> 0 < window"
    and replay_refuses: "requireReplayLimit limit = Inl e \<Longrightarrow> replay g after limit s = (Inl e, s)"

lemma lastn_if: "(if length xs > n then drop (length xs - n) xs else xs) = lastn n xs"
  by (simp add: lastn_def)

lemma map_lastn: "map f (lastn n xs) = lastn n (map f xs)"
  by (simp add: lastn_def drop_map)

lemma lastn_snoc:
  assumes "0 < n"
  shows "lastn n (lastn n xs @ [x]) = lastn n (xs @ [x])"
proof (cases "length xs < n")
  case True
  then show ?thesis by (simp add: lastn_def)
next
  case False
  then have "Suc (length xs) - n = Suc (length xs - n)" using assms by simp
  with False show ?thesis by (simp add: lastn_def)
qed

text \<open>Keeping the last \<open>w\<close> of the numbers of a window of \<open>w\<close> that was extended by one.\<close>

lemma lastn_window:
  assumes "0 < w"
  shows "lastn w (map int [Suc (n - w) ..< Suc (Suc n)]) = map int [Suc (Suc n - w) ..< Suc (Suc n)]"
  using assms by (auto simp: lastn_def drop_map intro!: arg_cong2[of _ _ _ _ upt] simp del: upt_Suc)

lemma length_numbered [simp]: "length (numbered ds) = length ds"
  by (simp add: numbered_def)

lemma numbered_snoc: "numbered (ds @ [(now, d)]) = numbered ds @ [buildGroupEvent d (int (Suc (length ds))) now]"
  by (simp add: numbered_def nth_append)

lemma numbered_sequence: "i < length ds \<Longrightarrow> ev_sequence (numbered ds ! i) = int (Suc i)"
  by (simp add: numbered_def buildGroupEvent_def)

lemma filter_contiguous:
  fixes f :: "'a \<Rightarrow> int"
  assumes "\<And>i. i < length xs \<Longrightarrow> f (xs ! i) = int (Suc (k + i))" and "0 \<le> after"
  shows "filter (\<lambda>e. after < f e) xs = drop (nat after - k) xs"
  using assms(1)
proof (induction xs arbitrary: k)
  case Nil
  then show ?case by simp
next
  case (Cons x xs)
  have x: "f x = int (Suc k)" using Cons.prems[of 0] by simp
  have "filter (\<lambda>e. after < f e) xs = drop (nat after - Suc k) xs"
    using Cons.prems by (intro Cons.IH) force
  moreover have "nat after - Suc k = nat after - k - 1" by simp
  ultimately show ?case using x assms(2) by (cases "nat after - k") auto
qed

lemma filter_lastn_numbered:
  assumes "0 \<le> after"
  shows "filter (\<lambda>e. ev_sequence e > after) (lastn w (numbered ds)) =
    drop (max (length ds - w) (nat after)) (numbered ds)"
proof -
  have "filter (\<lambda>e. ev_sequence e > after) (drop (length ds - w) (numbered ds)) =
      drop (nat after - (length ds - w)) (drop (length ds - w) (numbered ds))"
    using assms by (intro filter_contiguous) (simp_all add: numbered_sequence)
  then show ?thesis by (simp add: lastn_def max_def)
qed

lemma first_lastn_numbered:
  assumes "0 < w"
  shows "first_sequence (lastn w (numbered ds)) =
    (if ds = [] then None else Some (int (Suc (length ds - w))))"
proof (cases "ds = []")
  case True
  then show ?thesis by (simp add: lastn_def first_sequence_def numbered_def)
next
  case False
  then have "length ds - w < length ds" using assms by (cases ds) auto
  then have "lastn w (numbered ds) = numbered ds ! (length ds - w) # drop (Suc (length ds - w)) (numbered ds)"
    by (simp add: lastn_def Cons_nth_drop_Suc)
  then show ?thesis
    using False \<open>length ds - w < length ds\<close> by (simp add: first_sequence_def numbered_sequence)
qed

context event_store
begin

text \<open>After any publications, a group's retained events are the last of its log.\<close>

lemma appendAll_retained:
  assumes "ok s" and "\<And>g. issued s g = 0" and "\<And>g. retained s g = []" and "0 < window"
    and "\<forall>d \<in> set ds. accepts (fst d) (snd d)"
  shows "ok (appendAll put ds s) \<and> issued (appendAll put ds s) g = length (of_group g ds) \<and>
    retained (appendAll put ds s) g = lastn window (logOf g ds)"
  using assms(5)
proof (induction ds arbitrary: g rule: rev_induct)
  case Nil
  then show ?case using assms(1-4) by (simp add: appendAll_def of_group_def logOf_def numbered_def lastn_def)
next
  case (snoc d ds)
  obtain now dr where d: "d = (now, dr)" by (cases d)
  let ?s = "appendAll put ds s"
  have ih: "ok ?s" "issued ?s g' = length (of_group g' ds)" "retained ?s g' = lastn window (logOf g' ds)" for g'
    using snoc by auto
  have "accepts now dr" using snoc.prems by (simp add: d)
  from put_law[OF ih(1) this] obtain t where t: "put now dr ?s =
      (Inr (buildGroupEvent dr (int (Suc (issued ?s (dr_groupId dr)))) now), t)" "ok t"
    "issued t = (issued ?s)(dr_groupId dr := Suc (issued ?s (dr_groupId dr)))"
    "retained t = (retained ?s)(dr_groupId dr := lastn window (retained ?s (dr_groupId dr) @
        [buildGroupEvent dr (int (Suc (issued ?s (dr_groupId dr)))) now]))" by blast
  have "appendAll put (ds @ [d]) s = t" by (simp add: appendAll_def d t(1)[unfolded appendAll_def])
  then show ?case
    using t ih by (auto simp: of_group_def logOf_def d numbered_snoc lastn_snoc[OF assms(4)])
qed

text \<open>A resume: its verdict is exact, and the events it is given are the next ones of the log.\<close>

lemma resume:
  assumes "ok s" and "\<And>g. issued s g = 0" and "\<And>g. retained s g = []" and "0 < window"
    and "\<forall>d \<in> set ds. accepts (fst d) (snd d)"
    and "requireReplayLimit limit = Inr n" and "0 \<le> after" and "after \<le> int (length (logOf g ds))"
  shows "\<exists>r. replay g after limit (appendAll put ds s) = (Inr r, appendAll put ds s) \<and>
    (if nat after < length (logOf g ds) - window
     then decideReplay after (rp_earliestSequence r) = Resync (int (Suc (length (logOf g ds) - window)))
     else decideReplay after (rp_earliestSequence r) = Replay \<and>
          rp_events r = take n (drop (nat after) (logOf g ds)))"
proof -
  let ?s = "appendAll put ds s" and ?ds = "of_group g ds"
  have st: "ok ?s" "issued ?s g = length ?ds" "retained ?s g = lastn window (numbered ?ds)"
    using appendAll_retained[OF assms(1-5), of g] by (auto simp: logOf_def)
  from replay_law[OF st(1) assms(6), of g after] obtain earliest where r:
    "replay g after limit ?s = (Inr \<lparr>rp_events = take n (filter (\<lambda>e. ev_sequence e > after) (retained ?s g)),
        rp_earliestSequence = earliest\<rparr>, ?s)"
    "decideReplay after earliest = decideReplay after (first_sequence (retained ?s g))"
    using assms(8) st(2) by (auto simp: logOf_def)
  have "decideReplay after earliest =
      (if nat after < length ?ds - window then Resync (int (Suc (length ?ds - window))) else Replay)"
    using r(2) assms(7,8) by (auto simp: st(3) first_lastn_numbered[OF assms(4)] decideReplay_def)
  moreover have "filter (\<lambda>e. ev_sequence e > after) (retained ?s g) =
      drop (max (length ?ds - window) (nat after)) (numbered ?ds)"
    using filter_lastn_numbered[OF assms(7)] st(3) by simp
  ultimately show ?thesis using r(1) by (auto simp: logOf_def max_def)
qed

end

section \<open>The in-memory store meets the contract\<close>

definition memIssued :: "mem_store \<Rightarrow> string \<Rightarrow> nat" where
  "memIssued s g = nat (case js_get (mem_sequenceByGroup s) g of None \<Rightarrow> 0 | Some n \<Rightarrow> n)"

definition memRetained :: "mem_store \<Rightarrow> string \<Rightarrow> group_event list" where
  "memRetained s g = (case js_get (mem_eventsByGroup s) g of None \<Rightarrow> [] | Some es \<Rightarrow> es)"

definition memOk :: "nat \<Rightarrow> mem_store \<Rightarrow> bool" where
  "memOk h s \<longleftrightarrow> mem_historyLimit s = h \<and> 0 < h \<and>
     (\<forall>g n. js_get (mem_sequenceByGroup s) g = Some n \<longrightarrow> 0 \<le> n) \<and>
     (\<forall>g. map ev_sequence (memRetained s g) = map int [Suc (memIssued s g - h) ..< Suc (memIssued s g)])"

interpretation mem: event_store memAppend memReplay "\<lambda>_ _. True" "memOk h" memRetained memIssued h for h
proof
  fix s now and d :: group_event_draft
  assume ok: "memOk h s"
  then have seq: "(case js_get (mem_sequenceByGroup s) (dr_groupId d) of None \<Rightarrow> 0 | Some n \<Rightarrow> n) =
      int (memIssued s (dr_groupId d))"
    by (auto simp: memOk_def memIssued_def split: option.split)
  let ?e = "buildGroupEvent d (int (Suc (memIssued s (dr_groupId d)))) now"
  let ?r = "memRetained s (dr_groupId d) @ [?e]"
  let ?t = "s\<lparr>mem_sequenceByGroup := js_set (dr_groupId d) (int (Suc (memIssued s (dr_groupId d)))) (mem_sequenceByGroup s),
    mem_eventsByGroup := js_set (dr_groupId d) (lastn h ?r) (mem_eventsByGroup s)\<rparr>"
  have "memAppend now d s = (Inr ?e, ?t)"
    using ok by (simp only: memAppend_def seq memRetained_def memOk_def Let_def lastn_if) (simp add: add.commute)
  moreover have issued: "memIssued ?t = (memIssued s)(dr_groupId d := Suc (memIssued s (dr_groupId d)))"
    by (auto simp: memIssued_def jsmap_simps fun_eq_iff)
  moreover have retained: "memRetained ?t = (memRetained s)(dr_groupId d := lastn h ?r)"
    by (auto simp: memRetained_def jsmap_simps fun_eq_iff)
  moreover have "memOk h ?t"
  proof -
    let ?n = "memIssued s (dr_groupId d)"
    have "map ev_sequence ?r = map int [Suc (?n - h) ..< Suc (Suc ?n)]"
      using ok by (simp add: memOk_def buildGroupEvent_def)
    then have "map ev_sequence (lastn h ?r) = map int [Suc (Suc ?n - h) ..< Suc (Suc ?n)]"
      using lastn_window[of h ?n] ok by (simp add: map_lastn memOk_def del: upt_Suc)
    then show ?thesis
      using ok unfolding memOk_def issued retained by (auto simp: jsmap_simps simp del: upt_Suc)
  qed
  ultimately show "\<exists>t. memAppend now d s = (Inr ?e, t) \<and> memOk h t \<and>
      memIssued t = (memIssued s)(dr_groupId d := Suc (memIssued s (dr_groupId d))) \<and>
      memRetained t = (memRetained s)(dr_groupId d := lastn h ?r)"
    by blast
qed (auto simp: memReplay_def memRetained_def first_sequence_def Let_def memOk_def split: list.split)

section \<open>The durable store meets the contract\<close>

definition codec_ok :: "ev_env \<Rightarrow> bool" where
  "codec_ok env \<longleftrightarrow>
     (\<forall>n \<ge> 0. readSequence (ee_bigint env n) = Inr n) \<and> (\<forall>b. readBytes (ee_bytea env b) = Inr b)"

text \<open>The protobuf codec decodes the envelope of this draft as it was encoded.\<close>

definition encodes :: "ev_env \<Rightarrow> int \<Rightarrow> group_event_draft \<Rightarrow> bool" where
  "encodes env now d \<longleftrightarrow>
     ee_fromBinary env (ee_toBinary env (buildGroupEvent d 0 now)) = Inr (buildGroupEvent d 0 now)"

text \<open>What the durable store can append: the envelope survives the codec and the keys exist.\<close>

definition storable :: "ev_env \<Rightarrow> event_db \<Rightarrow> int \<Rightarrow> group_event_draft \<Rightarrow> bool" where
  "storable env db now d \<longleftrightarrow> encodes env now d \<and> foreignKeys d db"

definition sameParents :: "event_db \<Rightarrow> event_db \<Rightarrow> bool" where
  "sameParents db db' \<longleftrightarrow> db_groups db' = db_groups db \<and> db_deviceStatus db' = db_deviceStatus db"

lemma sameParents_refl [simp]: "sameParents db db"
  by (simp add: sameParents_def)

lemma foreignKeys_cong: "sameParents db db' \<Longrightarrow> foreignKeys d db' = foreignKeys d db"
  by (simp add: sameParents_def foreignKeys_def split: option.split)

definition rowsOf :: "string \<Rightarrow> event_db \<Rightarrow> event_row list" where
  "rowsOf g db = filter (\<lambda>r. er_groupId r = g) (db_events db)"

definition rowEvent :: "ev_env \<Rightarrow> event_row \<Rightarrow> group_event" where
  "rowEvent env r = (case ee_fromBinary env (er_payload r) of
     Inl _ \<Rightarrow> undefined | Inr e \<Rightarrow> e\<lparr>ev_sequence := er_sequence r\<rparr>)"

definition durIssued :: "event_db \<Rightarrow> string \<Rightarrow> nat" where
  "durIssued db g = nat (case js_get (db_sequences db) g of None \<Rightarrow> 0 | Some n \<Rightarrow> n)"

definition durRetained :: "ev_env \<Rightarrow> event_db \<Rightarrow> string \<Rightarrow> group_event list" where
  "durRetained env db g = map (rowEvent env) (rowsOf g db)"

definition durOk :: "ev_env \<Rightarrow> event_db \<Rightarrow> bool" where
  "durOk env db \<longleftrightarrow> codec_ok env \<and> 0 < ee_historyLimit env \<and>
     (\<forall>g n. js_get (db_sequences db) g = Some n \<longrightarrow> 0 \<le> n) \<and>
     (\<forall>g. map er_sequence (rowsOf g db) =
        map int [Suc (durIssued db g - ee_historyLimit env) ..< Suc (durIssued db g)]) \<and>
     (\<forall>r \<in> set (db_events db). \<exists>e. ee_fromBinary env (er_payload r) = Inr e)"

lemma rowEvent_sequence:
  "ee_fromBinary env (er_payload r) = Inr e \<Longrightarrow> ev_sequence (rowEvent env r) = er_sequence r"
  by (simp add: rowEvent_def)

lemma nextSequence_issued: "durOk env db \<Longrightarrow> nextSequence g db = int (Suc (durIssued db g))"
  by (auto simp: durOk_def nextSequence_def durIssued_def split: option.split)

lemma rowsOf_sequence:
  assumes "durOk env db"
  shows "length (rowsOf g db) = durIssued db g - (durIssued db g - ee_historyLimit env)"
    and "i < length (rowsOf g db) \<Longrightarrow>
      er_sequence (rowsOf g db ! i) = int (Suc (durIssued db g - ee_historyLimit env + i))"
proof -
  have eq: "map er_sequence (rowsOf g db) =
        map int [Suc (durIssued db g - ee_historyLimit env) ..< Suc (durIssued db g)]"
    using assms by (simp add: durOk_def)
  from arg_cong[OF eq, of length]
  show len: "length (rowsOf g db) = durIssued db g - (durIssued db g - ee_historyLimit env)"
    by (simp del: upt_Suc)
  show "er_sequence (rowsOf g db ! i) = int (Suc (durIssued db g - ee_historyLimit env + i))"
    if "i < length (rowsOf g db)"
  proof -
    have "er_sequence (rowsOf g db ! i) = map er_sequence (rowsOf g db) ! i" using that by simp
    also have "\<dots> = int (Suc (durIssued db g - ee_historyLimit env + i))"
      using that len by (simp add: eq del: upt_Suc)
    finally show ?thesis .
  qed
qed

lemma rowsOf_insert:
  "rowsOf g (insertEvent env d now db) =
     (if g = dr_groupId d then rowsOf g db @ [eventRow env d (nextSequence g db) now] else rowsOf g db)"
  by (auto simp: rowsOf_def insertEvent_def eventRow_def)

lemma rowsOf_prune:
  "rowsOf g (prune env g' n db) =
     (if g = g' \<and> 0 < n - int (ee_historyLimit env)
      then filter (\<lambda>r. n - int (ee_historyLimit env) < er_sequence r) (rowsOf g db) else rowsOf g db)"
  unfolding rowsOf_def prune_def deleteThrough_def Let_def
  by (auto simp: not_le intro!: filter_cong)

lemma durIssued_insert:
  "durOk env db \<Longrightarrow> durIssued (prune env g' n (insertEvent env d now db)) =
     (durIssued db)(dr_groupId d := Suc (durIssued db (dr_groupId d)))"
  by (auto simp: durIssued_def prune_def insertEvent_def Let_def jsmap_simps fun_eq_iff nextSequence_issued)

text \<open>The rows of the group after an append: the last \<open>historyLimit\<close> of the old ones and the new.\<close>

lemma rowsOf_append:
  assumes "durOk env db" and "g = dr_groupId d"
  shows "rowsOf g (prune env g (nextSequence g db) (insertEvent env d now db)) =
    lastn (ee_historyLimit env) (rowsOf g db @ [eventRow env d (nextSequence g db) now])"
proof -
  define w where "w = ee_historyLimit env"
  define n where "n = durIssued db g"
  define xs where "xs = rowsOf g db @ [eventRow env d (nextSequence g db) now]"
  have nx: "nextSequence g db = int (Suc n)" using nextSequence_issued[OF assms(1)] by (simp add: n_def)
  have len: "length (rowsOf g db) = n - (n - w)" using rowsOf_sequence(1)[OF assms(1)] by (simp add: n_def w_def)
  have seqs: "er_sequence (xs ! i) = int (Suc (n - w + i))" if "i < length xs" for i
    using that rowsOf_sequence(2)[OF assms(1), where g = g] nx len
    by (auto simp: xs_def nth_append eventRow_def less_Suc_eq n_def w_def)
  have rows: "rowsOf g (insertEvent env d now db) = xs" by (simp add: rowsOf_insert assms(2) xs_def)
  have lenxs: "length xs = Suc (n - (n - w))" by (simp add: xs_def len)
  have "rowsOf g (prune env g (nextSequence g db) (insertEvent env d now db)) = lastn w xs"
  proof (cases "w \<le> n")
    case False
    then show ?thesis by (simp add: rowsOf_prune rows nx lastn_def lenxs flip: w_def)
  next
    case True
    then have "filter (\<lambda>r. int (Suc n) - int w < er_sequence r) xs =
        drop (nat (int (Suc n) - int w) - (n - w)) xs"
      by (intro filter_contiguous[OF seqs]) auto
    moreover have "nat (int (Suc n) - int w) - (n - w) = 1" using True by linarith
    ultimately have "rowsOf g (prune env g (nextSequence g db) (insertEvent env d now db)) = drop 1 xs"
      using True by (simp add: rowsOf_prune rows nx flip: w_def)
    then show ?thesis using True by (simp add: lastn_def lenxs)
  qed
  then show ?thesis by (simp add: w_def xs_def)
qed

lemma durAppend_eq:
  assumes "durOk env db" and "foreignKeys d db"
  shows "durableAppend env now d db =
    (Inr (buildGroupEvent d (int (Suc (durIssued db (dr_groupId d)))) now),
     prune env (dr_groupId d) (nextSequence (dr_groupId d) db) (insertEvent env d now db))"
proof -
  have "readSequence (ee_bigint env (nextSequence (dr_groupId d) db)) = Inr (nextSequence (dr_groupId d) db)"
    using assms(1) nextSequence_issued[OF assms(1)] by (auto simp: durOk_def codec_ok_def)
  then show ?thesis
    using assms(2) by (simp add: durableAppend_def sm_require_def) (simp add: nextSequence_issued[OF assms(1)])
qed

text \<open>A draft for a group or of a device that the database does not hold is refused.\<close>

lemma durAppend_refused:
  "\<not> foreignKeys d db \<Longrightarrow> durableAppend env now d db = (Inl (ee_foreignKeyError env), db)"
  by (simp add: durableAppend_def sm_require_def)

lemma sameParents_append: "sameParents db (prune env g n (insertEvent env d now db))"
  by (simp add: sameParents_def prune_def insertEvent_def Let_def)

lemma rowEvent_new:
  "encodes env now d \<Longrightarrow> rowEvent env (eventRow env d n now) = buildGroupEvent d n now"
  by (simp add: rowEvent_def eventRow_def encodes_def buildGroupEvent_def)

lemma durOk_append:
  assumes "durOk env db" and "encodes env now d"
  shows "durOk env (prune env (dr_groupId d) (nextSequence (dr_groupId d) db) (insertEvent env d now db))"
    (is "durOk env ?t")
proof -
  let ?w = "ee_historyLimit env"
  have codec: "codec_ok env" "0 < ?w" using assms(1) by (auto simp: durOk_def)
  have "map er_sequence (rowsOf g ?t) = map int [Suc (durIssued ?t g - ?w) ..< Suc (durIssued ?t g)]" for g
  proof (cases "g = dr_groupId d")
    case False
    then show ?thesis
      using assms by (simp add: rowsOf_prune rowsOf_insert durIssued_insert[OF assms(1)] durOk_def del: upt_Suc)
  next
    case True
    let ?n = "durIssued db g"
    have "map er_sequence (rowsOf g db) = map int [Suc (?n - ?w) ..< Suc ?n]"
      using assms(1) by (simp add: durOk_def)
    then have "map er_sequence (rowsOf g db @ [eventRow env d (nextSequence g db) now]) =
        map int [Suc (?n - ?w) ..< Suc (Suc ?n)]"
      using nextSequence_issued[OF assms(1), of g] by (simp add: eventRow_def)
    then have "map er_sequence (rowsOf g ?t) = lastn ?w (map int [Suc (?n - ?w) ..< Suc (Suc ?n)])"
      using rowsOf_append[OF assms(1) True, of now] True by (simp add: map_lastn del: upt_Suc)
    also have "\<dots> = map int [Suc (Suc ?n - ?w) ..< Suc (Suc ?n)]"
      by (rule lastn_window[OF codec(2)])
    finally show ?thesis
      using True by (simp add: durIssued_insert[OF assms(1)] del: upt_Suc)
  qed
  moreover have "\<forall>r \<in> set (db_events ?t). \<exists>e. ee_fromBinary env (er_payload r) = Inr e"
    using assms by (auto simp: durOk_def prune_def insertEvent_def deleteThrough_def Let_def eventRow_def
        encodes_def split: if_splits)
  moreover have "\<forall>g n. js_get (db_sequences ?t) g = Some n \<longrightarrow> 0 \<le> n"
    using assms nextSequence_issued[OF assms(1)]
    by (auto simp: durOk_def prune_def insertEvent_def Let_def jsmap_simps)
  ultimately show ?thesis using codec by (simp add: durOk_def del: upt_Suc)
qed

lemma decodeRow_eq:
  assumes "durOk env db" and "r \<in> set (rowsOf g db)"
  shows "decodeRow env r s = (Inr (rowEvent env r), s)"
proof -
  have "r \<in> set (db_events db)" using assms(2) by (simp add: rowsOf_def)
  then obtain e where "ee_fromBinary env (er_payload r) = Inr e" using assms(1) by (auto simp: durOk_def)
  moreover have "0 \<le> er_sequence r"
    using assms(2) rowsOf_sequence(2)[OF assms(1), where g = g] by (auto simp: in_set_conv_nth)
  ultimately show ?thesis
    using assms(1) by (simp add: decodeRow_def rowEvent_def durOk_def codec_ok_def)
qed

lemma rowsOf_sorted: "durOk env db \<Longrightarrow> sorted (map er_sequence (rowsOf g db))"
  by (auto simp: durOk_def sorted_map simp del: upt_Suc intro: sorted_wrt_mono_rel[OF _ sorted_wrt_upt])

lemma durReplay_eq:
  assumes "durOk env db" and "requireReplayLimit limit = Inr n"
  shows "durableReplay env g after limit db =
    (Inr \<lparr>rp_events = take n (filter (\<lambda>e. after < ev_sequence e) (durRetained env db g)),
          rp_earliestSequence =
            (if filter (\<lambda>e. after < ev_sequence e) (durRetained env db g) = [] then None
             else first_sequence (durRetained env db g))\<rparr>, db)"
proof -
  let ?rows = "rowsOf g db" and ?above = "filter (\<lambda>r. after < er_sequence r) (rowsOf g db)"
  have codec: "codec_ok env" using assms(1) by (simp add: durOk_def)
  have n: "0 < n" using assms(2) by (auto simp: requireReplayLimit_def defaultRealtimeReplayLimit_def split: if_splits)
  have seq: "ev_sequence (rowEvent env r) = er_sequence r" if "r \<in> set ?rows" for r
    using that assms(1) by (auto simp: durOk_def rowsOf_def rowEvent_def)
  have above: "filter (\<lambda>e. after < ev_sequence e) (durRetained env db g) = map (rowEvent env) ?above"
    unfolding durRetained_def filter_map by (rule arg_cong[of _ _ "map (rowEvent env)"], rule filter_cong) (auto simp: seq)
  have sorted: "sort_key er_sequence ?above = ?above"
    using rowsOf_sorted[OF assms(1)] by (intro sort_key_id_if_sorted) (rule sorted_filter)
  have decoded: "sm_mapM (decodeRow env) (take n ?above) db = (Inr (map (rowEvent env) (take n ?above)), db)"
    by (rule sm_mapM_returns, rule decodeRow_eq[OF assms(1)]) (auto dest: in_set_takeD)
  show ?thesis
  proof (cases "?above = []")
    case True
    then show ?thesis
      by (simp add: durableReplay_def assms(2) above flip: rowsOf_def)
  next
    case False
    then obtain r rs where rows: "?rows = r # rs" by (cases ?rows) auto
    have "Min (set (map er_sequence ?rows)) = er_sequence r"
      using rowsOf_sorted[OF assms(1), of g] rows by (auto intro!: Min_eqI)
    moreover have "0 \<le> er_sequence r"
      using rowsOf_sequence(2)[OF assms(1), of 0 g] rows by simp
    ultimately have earliest: "readSequence (ee_bigint env (Min (set (map er_sequence ?rows)))) = Inr (er_sequence r)"
      using codec by (simp add: codec_ok_def)
    have first: "first_sequence (durRetained env db g) = Some (er_sequence r)"
      using rows seq[of r] by (simp add: durRetained_def first_sequence_def)
    show ?thesis
      using False n earliest decoded
      by (simp add: durableReplay_def assms(2) sorted Let_def sm_bind_def monad_defs above first take_map flip: rowsOf_def)
  qed
qed

interpretation dur: event_store "durableAppend env" "durableReplay env" "storable env parents"
  "\<lambda>db. durOk env db \<and> sameParents parents db" "durRetained env" durIssued "ee_historyLimit env" for env parents
proof
  fix s now and d :: group_event_draft
  assume "durOk env s \<and> sameParents parents s" and "storable env parents now d"
  then have ok: "durOk env s" and parents: "sameParents parents s" and enc: "encodes env now d"
    and keys: "foreignKeys d s"
    using foreignKeys_cong by (auto simp: storable_def)
  let ?g = "dr_groupId d"
  let ?t = "prune env ?g (nextSequence ?g s) (insertEvent env d now s)"
  have "durRetained env ?t = (durRetained env s)(?g := lastn (ee_historyLimit env)
      (durRetained env s ?g @ [buildGroupEvent d (int (Suc (durIssued s ?g))) now]))"
  proof
    fix g
    show "durRetained env ?t g = ((durRetained env s)(?g := lastn (ee_historyLimit env)
      (durRetained env s ?g @ [buildGroupEvent d (int (Suc (durIssued s ?g))) now]))) g"
      using rowsOf_append[OF ok refl, of d now] rowEvent_new[OF enc, of "nextSequence ?g s"]
        nextSequence_issued[OF ok, of ?g]
      by (cases "g = ?g") (simp_all add: durRetained_def map_lastn rowsOf_prune rowsOf_insert)
  qed
  then show "\<exists>t. durableAppend env now d s = (Inr (buildGroupEvent d (int (Suc (durIssued s ?g))) now), t) \<and>
      (durOk env t \<and> sameParents parents t) \<and> durIssued t = (durIssued s)(?g := Suc (durIssued s ?g)) \<and>
      durRetained env t = (durRetained env s)(?g := lastn (ee_historyLimit env)
        (durRetained env s ?g @ [buildGroupEvent d (int (Suc (durIssued s ?g))) now]))"
    using durAppend_eq[OF ok keys] durOk_append[OF ok enc] durIssued_insert[OF ok] parents
      sameParents_append[of s env ?g "nextSequence ?g s" d now]
    by (auto simp: sameParents_def)
next
  fix s limit n g after
  assume "durOk env s \<and> sameParents parents s" and limit: "requireReplayLimit limit = Inr n"
  then have ok: "durOk env s" by simp
  let ?earliest = "if filter (\<lambda>e. after < ev_sequence e) (durRetained env s g) = [] then None
    else first_sequence (durRetained env s g)"
  have "decideReplay after ?earliest = decideReplay after (first_sequence (durRetained env s g))"
    if "after \<le> int (durIssued s g)"
  proof (cases "durRetained env s g")
    case Nil
    then show ?thesis by (simp add: first_sequence_def)
  next
    case (Cons e es)
    then show ?thesis by (auto simp: first_sequence_def decideReplay_def)
  qed
  then show "\<exists>earliest. durableReplay env g after limit s =
      (Inr \<lparr>rp_events = take n (filter (\<lambda>e. after < ev_sequence e) (durRetained env s g)),
            rp_earliestSequence = earliest\<rparr>, s) \<and>
      (after \<le> int (durIssued s g) \<longrightarrow>
        decideReplay after earliest = decideReplay after (first_sequence (durRetained env s g)))"
    using durReplay_eq[OF ok limit, of g after] by blast
next
  fix s g
  assume "durOk env s \<and> sameParents parents s"
  then have ok: "durOk env s" by simp
  have "ev_sequence (rowEvent env r) = er_sequence r" if "r \<in> set (rowsOf g s)" for r
    using that ok by (auto simp: durOk_def rowsOf_def rowEvent_def)
  then have "map ev_sequence (durRetained env s g) = map er_sequence (rowsOf g s)"
    by (simp add: durRetained_def)
  then show "map ev_sequence (durRetained env s g) =
      map int [Suc (durIssued s g - ee_historyLimit env) ..< Suc (durIssued s g)]"
    using ok by (simp add: durOk_def)
  show "0 < ee_historyLimit env" using ok by (simp add: durOk_def)
next
  show "requireReplayLimit limit = Inl e \<Longrightarrow> durableReplay env g after limit s = (Inl e, s)" for limit e g after s
    by (simp add: durableReplay_def)
qed

section \<open>Resuming the log\<close>

lemma newMemStore_facts:
  assumes "newMemStore h = Inr s"
  shows "memOk (nat h) s" and "memIssued s g = 0" and "memRetained s g = []" and "0 < nat h"
  using assms by (auto simp: newMemStore_def requireHistoryLimit_def memOk_def memIssued_def memRetained_def
    split: if_splits)

text \<open>
  C6: Resuming from the in-memory store is exact. After any publications, a client that holds the
  first \<open>after\<close> events of a group's log is told to resync exactly when the next event it needs is no
  longer retained; otherwise the events it is sent are the next ones of the log, in order, without a
  gap, up to the replay limit.
\<close>

theorem memory_resume_exact:
  assumes "newMemStore h = Inr s" and "requireReplayLimit limit = Inr n"
    and "0 \<le> after" and "after \<le> int (length (logOf g ds))"
  shows "\<exists>r. fst (memReplay g after limit (appendAll memAppend ds s)) = Inr r \<and>
    (if nat after < length (logOf g ds) - nat h
     then decideReplay after (rp_earliestSequence r) = Resync (int (Suc (length (logOf g ds) - nat h)))
     else decideReplay after (rp_earliestSequence r) = Replay \<and>
          rp_events r = take n (drop (nat after) (logOf g ds)))"
proof -
  note new = newMemStore_facts[OF assms(1)]
  have "\<forall>d \<in> set ds. True" by simp
  from mem.resume[OF new this assms(2-4)] show ?thesis by auto
qed

definition demoDraft :: "string \<Rightarrow> group_event_draft" where
  "demoDraft g = \<lparr>dr_groupId = g, dr_kind = DOCUMENT_DELTA, dr_group = None, dr_device = None,
     dr_presence = None, dr_documentId = Some ''doc'', dr_documentDelta = Some [7],
     dr_sessionCommand = None, dr_actorDeviceId = Some ''a'', dr_hybridLogicalClock = None\<rparr>"

definition demoDrafts :: "(int \<times> group_event_draft) list" where
  "demoDrafts = [(1, demoDraft ''g''), (2, demoDraft ''g''), (3, demoDraft ''g'')]"

lemma demo_log: "length (logOf ''g'' demoDrafts) = 3"
  by (simp add: logOf_def of_group_def demoDrafts_def demoDraft_def)

theorem memory_resume_exact_witness:
  "\<exists>s r. newMemStore 2 = Inr s \<and>
     fst (memReplay ''g'' 1 512 (appendAll memAppend demoDrafts s)) = Inr r \<and>
     decideReplay 1 (rp_earliestSequence r) = Replay \<and> rp_events r = drop 1 (logOf ''g'' demoDrafts)"
proof -
  obtain s where s: "newMemStore 2 = Inr s" by (simp add: newMemStore_def requireHistoryLimit_def)
  have "requireReplayLimit 512 = Inr 512"
    by (simp add: requireReplayLimit_def defaultRealtimeReplayLimit_def)
  from memory_resume_exact[OF s this, of 1 "''g''" demoDrafts] s demo_log show ?thesis by auto
qed

definition emptyEventDb :: event_db where
  "emptyEventDb = \<lparr>db_groups = [], db_sequences = [], db_events = [], db_snapshots = [], db_memberships = [],
     db_deviceStatus = [], db_receipts = []\<rparr>"

text \<open>A log with nothing in it yet, in a database that may hold groups, devices and members.\<close>

definition freshLog :: "event_db \<Rightarrow> bool" where
  "freshLog db \<longleftrightarrow> db_sequences db = [] \<and> db_events db = []"

lemma freshLog_facts:
  assumes "freshLog db" and "codec_ok env" and "0 < ee_historyLimit env"
  shows "durOk env db" and "durIssued db g = 0" and "durRetained env db g = []"
  using assms by (simp_all add: durOk_def durIssued_def durRetained_def rowsOf_def freshLog_def)

text \<open>A database with one group and one active editor.\<close>

definition demoEventDb :: event_db where
  "demoEventDb = emptyEventDb\<lparr>db_groups := [''g''], db_memberships := [\<lparr>mr_groupId = ''g'', mr_deviceId = ''a'',
     mr_role = EDITOR, mr_revokedAt = None\<rparr>], db_deviceStatus := [(''a'', ONLINE)]\<rparr>"

lemma demoEventDb_fresh: "freshLog demoEventDb"
  by (simp add: freshLog_def demoEventDb_def emptyEventDb_def)

text \<open>
  C8: The durable store answers as the in-memory one. Take both with the same history limit and an
  empty log, and the same publications, each for a group and of a device that the database holds.
  Then a resume with a valid page limit, from a cursor that is not past the end of the group's log,
  gets from both the same verdict on the retention edge and the same events. The database driver is
  assumed to return what was stored, and the protobuf codec to decode the envelopes it encoded. (A
  publication for a group or of a device that the database does not hold is refused by the durable
  store and appended by the in-memory one.)
\<close>

theorem stores_agree:
  assumes "newMemStore h = Inr s" and "codec_ok env" and "int (ee_historyLimit env) = h" and "freshLog db"
    and "\<forall>d \<in> set ds. encodes env (fst d) (snd d) \<and> foreignKeys (snd d) db"
    and "requireReplayLimit limit = Inr n" and "0 \<le> after" and "after \<le> int (length (logOf g ds))"
  shows "\<exists>r r'. fst (memReplay g after limit (appendAll memAppend ds s)) = Inr r \<and>
    fst (durableReplay env g after limit (appendAll (durableAppend env) ds db)) = Inr r' \<and>
    decideReplay after (rp_earliestSequence r) = decideReplay after (rp_earliestSequence r') \<and>
    rp_events r = rp_events r'"
proof -
  note new = newMemStore_facts[OF assms(1)]
  have h: "nat h = ee_historyLimit env" "0 < ee_historyLimit env" using assms(3) new(4) by auto
  note db = freshLog_facts[OF assms(4,2) h(2)]
  have start: "durOk env db \<and> sameParents db db" using db(1) by simp
  have stored: "\<forall>d \<in> set ds. storable env db (fst d) (snd d)" using assms(5) by (simp add: storable_def)
  have "\<forall>d \<in> set ds. True" by simp
  note m = mem.appendAll_retained[OF new this, of g]
  note d = dur.appendAll_retained[OF start db(2,3) h(2) stored, of g]
  let ?m = "appendAll memAppend ds s" and ?d = "appendAll (durableAppend env) ds db"
  have "memRetained ?m g = durRetained env ?d g" using m d h(1) by simp
  moreover obtain e where "memReplay g after limit ?m =
      (Inr \<lparr>rp_events = take n (filter (\<lambda>e. ev_sequence e > after) (memRetained ?m g)), rp_earliestSequence = e\<rparr>, ?m)"
    "decideReplay after e = decideReplay after (first_sequence (memRetained ?m g))"
    using mem.replay_law[OF conjunct1[OF m] assms(6), of g after] m assms(8) by (auto simp: logOf_def)
  moreover obtain e' where "durableReplay env g after limit ?d =
      (Inr \<lparr>rp_events = take n (filter (\<lambda>e. ev_sequence e > after) (durRetained env ?d g)), rp_earliestSequence = e'\<rparr>, ?d)"
    "decideReplay after e' = decideReplay after (first_sequence (durRetained env ?d g))"
    using dur.replay_law[OF conjunct1[OF d] assms(6), of g after] d assms(8) by (auto simp: logOf_def)
  ultimately show ?thesis by auto
qed

text \<open>A driver that returns \<open>bigint\<close> as text and \<open>bytea\<close> as bytes, and a codec for the drafts above.\<close>

definition demoEventEnv :: ev_env where
  "demoEventEnv = \<lparr>ee_toBinary = (\<lambda>e. [word_of_int (ev_occurredAt e)]),
     ee_fromBinary = (\<lambda>b. Inr (buildGroupEvent (demoDraft ''g'') 0 (uint (hd b)))),
     ee_bigint = (\<lambda>n. SqlText (decimal (nat n))), ee_bytea = SqlBytes,
     ee_foreignKeyError = PlainError ''foreign key violation'', ee_hashReceipt = (\<lambda>p. CHR ''h'' # p), ee_receiptLifetimeMs = 100, ee_historyLimit = 2\<rparr>"

lemma decimal_list_all: "list_all is_digit (decimal n)"
  using decimal_digits by (simp add: list_all_iff)

lemma demoEventEnv_ok: "codec_ok demoEventEnv"
  by (simp add: codec_ok_def demoEventEnv_def readSequence_def readBytes_def decimal_nonempty decimal_list_all)

theorem stores_agree_witness:
  "\<exists>s r r'. newMemStore 2 = Inr s \<and>
     fst (memReplay ''g'' 0 512 (appendAll memAppend demoDrafts s)) = Inr r \<and>
     fst (durableReplay demoEventEnv ''g'' 0 512
       (appendAll (durableAppend demoEventEnv) demoDrafts demoEventDb)) = Inr r' \<and>
     decideReplay 0 (rp_earliestSequence r) = decideReplay 0 (rp_earliestSequence r') \<and> rp_events r = rp_events r'"
proof -
  obtain s where s: "newMemStore 2 = Inr s" by (simp add: newMemStore_def requireHistoryLimit_def)
  have "requireReplayLimit 512 = Inr 512" "int (ee_historyLimit demoEventEnv) = 2"
    "\<forall>d \<in> set demoDrafts. encodes demoEventEnv (fst d) (snd d) \<and> foreignKeys (snd d) demoEventDb"
    by (simp_all add: requireReplayLimit_def defaultRealtimeReplayLimit_def demoEventEnv_def demoDrafts_def
        encodes_def buildGroupEvent_def foreignKeys_def demoEventDb_def demoDraft_def)
  from stores_agree[OF s demoEventEnv_ok this(2) demoEventDb_fresh this(3,1), of 0 "''g''"] s show ?thesis by auto
qed

end
