(* ===== verification/Event_Publish.thy ===== *)
theory Event_Publish
  imports Event_Store
begin

text \<open>
  \<open>appendAuthorized\<close>: who may publish, what a publication writes, and that a retried publication
  takes no second place in the log.
\<close>

section \<open>What a publication writes\<close>

text \<open>The part of the database that holds the log.\<close>

definition sameLog :: "event_db \<Rightarrow> event_db \<Rightarrow> bool" where
  "sameLog db db' \<longleftrightarrow> db_events db' = db_events db \<and> db_sequences db' = db_sequences db \<and>
     db_snapshots db' = db_snapshots db"

lemma durableReplay_reads: "snd (durableReplay env g after limit db) = db"
proof -
  have row: "snd (decodeRow env r db) = db" for r
    by (cases "readSequence (ee_bigint env (er_sequence r))"; cases "readBytes (ee_bytea env (er_payload r))";
        cases "ee_fromBinary env (projr (readBytes (ee_bytea env (er_payload r))))")
       (simp_all add: decodeRow_def)
  have rows: "snd (sm_mapM (decodeRow env) rs db) = db" for rs
    by (induction rs) (use row in \<open>auto simp: sm_bind_def split: prod.splits sum.splits, (metis snd_conv)+\<close>)
  show ?thesis
    using rows by (auto simp: durableReplay_def sm_bind_def monad_defs Let_def split: sum.splits prod.splits)
      (metis snd_conv)+
qed

lemma sm_reads_wp:
  assumes "snd (m s) = s" and "\<And>a. m s = (Inr a, s) \<Longrightarrow> Q a s" and "\<And>e. m s = (Inl e, s) \<Longrightarrow> E e s"
  shows "sm_wp m Q E s"
  using assms by (cases "m s"; cases "fst (m s)") (auto simp: sm_wp_def)

lemma guardResolveRefused_reads: "snd (guardResolveRefused receipt failure now db) = db"
  by (simp add: guardResolveRefused_def sm_bind_def monad_defs split: option.split)

lemma replayAuthorizedAppend_reads:
  "sm_wp (replayAuthorizedAppend env receipt now) (\<lambda>_ t. t = db) (\<lambda>_ t. t = db) db"
  unfolding replayAuthorizedAppend_def
  by (intro wp_intros sm_reads_wp[OF guardResolveRefused_reads] sm_reads_wp[OF durableReplay_reads])
     (auto simp: wp_simps split: list.split)

lemma guardClaim_wp:
  assumes "\<And>c r. Q c (db\<lparr>db_receipts := r\<rparr>)" and "\<And>e. E e db"
  shows "sm_wp (guardClaim env scope requestId now fs) Q E db"
proof -
  have "Q c db" for c using assms(1)[of c "db_receipts db"] by simp
  with assms show ?thesis
    unfolding guardClaim_def by (auto simp: wp_simps Let_def split: sum.split option.split)
qed

lemma publishStatement_wp:
  assumes "gateOpen receipt db \<Longrightarrow> actorAuthorized (dr_groupId (ad_draft a)) (ad_actorDeviceId a) db \<Longrightarrow>
      Q (True, Some (nextSequence (dr_groupId (ad_draft a)) db)) (publishRows env a receipt occurredAt db)"
    and "\<not> (gateOpen receipt db \<and> actorAuthorized (dr_groupId (ad_draft a)) (ad_actorDeviceId a) db) \<Longrightarrow>
      Q (gateOpen receipt db, None) db"
  shows "sm_wp (publishStatement env a receipt occurredAt) Q E db"
  using assms by (auto simp: sm_wp_def publishStatement_def Let_def)

lemma actorAuthorized_receipts [simp]: "actorAuthorized g d (db\<lparr>db_receipts := r\<rparr>) = actorAuthorized g d db"
  by (simp add: actorAuthorized_def)

text \<open>
  C10: Only an active editor writes the log. A publication by a device that is not an unrevoked
  editor or administrator of the group, or whose own status is revoked, appends no event, takes no
  sequence number and records no snapshot, whatever the request identifier; without a request
  identifier it is answered \<open>PERMISSION_DENIED\<close>.
\<close>

theorem publication_needs_active_editor:
  assumes "(\<forall>m \<in> set (db_memberships db).
        mr_groupId m = dr_groupId (ad_draft a) \<and> mr_deviceId m = ad_actorDeviceId a \<longrightarrow>
        mr_revokedAt m \<noteq> None \<or> mr_role m \<notin> {EDITOR, ADMIN}) \<or>
      js_get (db_deviceStatus db) (ad_actorDeviceId a) \<in> {None, Some REVOKED}"
  shows "sameLog db (snd (appendAuthorized env guard claimedAt occurredAt resolvedAt a mutation db)) \<and>
    appendAuthorized env guard claimedAt occurredAt resolvedAt a None db = (Inl notAnEditor, db)"
proof -
  have no: "\<not> actorAuthorized (dr_groupId (ad_draft a)) (ad_actorDeviceId a) db"
    using assms by (auto simp: actorAuthorized_def list_ex_iff)
  have "sm_wp (appendAuthorized env guard claimedAt occurredAt resolvedAt a mutation)
      (\<lambda>_. sameLog db) (\<lambda>_. sameLog db) db"
    unfolding appendAuthorized_def requireGuard_def
    by (intro wp_intros guardClaim_wp publishStatement_wp sm_wp_mono[OF replayAuthorizedAppend_reads])
       (use no in \<open>auto simp: sameLog_def wp_simps\<close>)
  moreover have "appendAuthorized env guard claimedAt occurredAt resolvedAt a None db = (Inl notAnEditor, db)"
    using no by (simp add: appendAuthorized_def publishStatement_def gateOpen_def sm_bind_def)
  ultimately show ?thesis by (simp add: sm_wp_state)
qed

definition demoAuthorized :: authorized_draft where
  "demoAuthorized = \<lparr>ad_draft = demoDraft ''g'', ad_actorDeviceId = ''a'', ad_stateVector = Some [1],
     ad_documentType = Some LAYOUT\<rparr>"

definition viewerEventDb :: event_db where
  "viewerEventDb = emptyEventDb\<lparr>
     db_memberships := [\<lparr>mr_groupId = ''g'', mr_deviceId = ''a'', mr_role = VIEWER, mr_revokedAt = None\<rparr>],
     db_deviceStatus := [(''a'', ONLINE)]\<rparr>"

theorem publication_needs_active_editor_witness:
  "appendAuthorized demoEventEnv True 1 2 3 demoAuthorized None viewerEventDb = (Inl notAnEditor, viewerEventDb)"
  by (rule conjunct2[OF publication_needs_active_editor]) (simp add: viewerEventDb_def)

section \<open>A publication is appended once\<close>

text \<open>On a well-formed log the single statement writes what \<open>append\<close> and \<open>prune\<close> write.\<close>

lemma publishRows_log:
  fixes a :: authorized_draft
  defines "d \<equiv> draftOf a"
  assumes "durOk env db"
  shows "db_events (publishRows env a receipt now db) =
      db_events (prune env (dr_groupId d) (nextSequence (dr_groupId d) db) (insertEvent env d now db))"
    and "db_sequences (publishRows env a receipt now db) =
      db_sequences (prune env (dr_groupId d) (nextSequence (dr_groupId d) db) (insertEvent env d now db))"
proof -
  let ?g = "dr_groupId d" and ?n = "nextSequence (dr_groupId d) db" and ?w = "ee_historyLimit env"
  have w: "0 < ?w" using assms(2) by (simp add: durOk_def)
  have pos: "0 < er_sequence r" if "r \<in> set (db_events db)" for r
  proof -
    have "r \<in> set (rowsOf (er_groupId r) db)" using that by (simp add: rowsOf_def)
    then obtain i where "i < length (rowsOf (er_groupId r) db)" "rowsOf (er_groupId r) db ! i = r"
      by (auto simp: in_set_conv_nth)
    then show ?thesis using rowsOf_sequence(2)[OF assms(2), of i "er_groupId r"] by simp
  qed
  have "deleteThrough ?g (?n - int ?w) (db_events db) = db_events db" if "?n - int ?w \<le> 0"
    using that pos unfolding deleteThrough_def by (fastforce intro: filter_True)
  then show "db_events (publishRows env a receipt now db) = db_events (prune env ?g ?n (insertEvent env d now db))"
    using w by (auto simp: publishRows_def prune_def insertEvent_def Let_def deleteThrough_def eventRow_def d_def)
  show "db_sequences (publishRows env a receipt now db) = db_sequences (prune env ?g ?n (insertEvent env d now db))"
    by (simp add: publishRows_def prune_def insertEvent_def Let_def d_def)
qed

text \<open>Well-formedness and the retained events depend on the log alone.\<close>

lemma durOk_cong:
  assumes "db_events db' = db_events db" and "db_sequences db' = db_sequences db"
  shows "durOk env db' = durOk env db" and "durRetained env db' = durRetained env db"
    and "durIssued db' = durIssued db"
  using assms by (simp_all add: durOk_def durRetained_def durIssued_def rowsOf_def fun_eq_iff)

lemma draftOf_group [simp]: "dr_groupId (draftOf a) = dr_groupId (ad_draft a)"
  by (simp add: draftOf_def)

lemma publishRows_retained:
  assumes "durOk env db" and "encodes env now (draftOf a)"
  shows "durOk env (publishRows env a receipt now db)"
    and "durIssued (publishRows env a receipt now db) =
      (durIssued db)(dr_groupId (ad_draft a) := Suc (durIssued db (dr_groupId (ad_draft a))))"
    and "durRetained env (publishRows env a receipt now db) (dr_groupId (ad_draft a)) =
      lastn (ee_historyLimit env) (durRetained env db (dr_groupId (ad_draft a)) @
        [buildGroupEvent (draftOf a) (nextSequence (dr_groupId (ad_draft a)) db) now])"
proof -
  let ?d = "draftOf a" and ?g = "dr_groupId (ad_draft a)"
  let ?t = "prune env ?g (nextSequence ?g db) (insertEvent env ?d now db)"
  have t: "db_events (publishRows env a receipt now db) = db_events ?t"
    "db_sequences (publishRows env a receipt now db) = db_sequences ?t"
    using publishRows_log[OF assms(1), of a receipt now] by simp_all
  show "durOk env (publishRows env a receipt now db)"
    using durOk_append[OF assms] durOk_cong(1)[OF t] by simp
  show "durIssued (publishRows env a receipt now db) = (durIssued db)(?g := Suc (durIssued db ?g))"
    using durIssued_insert[OF assms(1), of ?g "nextSequence ?g db" ?d now]
    by (simp add: durOk_cong(3)[OF t] fun_eq_iff)
  show "durRetained env (publishRows env a receipt now db) ?g = lastn (ee_historyLimit env)
      (durRetained env db ?g @ [buildGroupEvent ?d (nextSequence ?g db) now])"
    using rowsOf_append[OF assms(1), of ?g ?d now] rowEvent_new[OF assms(2)]
    by (simp add: durOk_cong(2)[OF t] durRetained_def map_lastn)
qed

section \<open>The log after a publication\<close>

text \<open>
  The calls that may follow a publication, each taken as a whole: appends of the server,
  publications of clients, and any change of memberships, devices, groups and the receipts of
  other operations.
\<close>

inductive log_call :: "ev_env \<Rightarrow> event_db \<Rightarrow> event_db \<Rightarrow> bool" for env where
  log_append: "encodes env now d \<Longrightarrow> log_call env db (snd (durableAppend env now d db))"
| log_publish: "encodes env occurredAt (draftOf a) \<Longrightarrow>
    log_call env db (snd (appendAuthorized env guard claimedAt occurredAt resolvedAt a mutation db))"
| log_others: "sameLog db db' \<Longrightarrow>
    (\<And>k. fst k \<in> {PUBLISH_SESSION_COMMAND, PUBLISH_DOCUMENT_DELTA} \<Longrightarrow>
      js_get (db_receipts db') k = js_get (db_receipts db) k) \<Longrightarrow>
    log_call env db db'"

text \<open>The log has grown by at most one event, of one group.\<close>

definition extends_log :: "ev_env \<Rightarrow> event_db \<Rightarrow> event_db \<Rightarrow> bool" where
  "extends_log env db db' \<longleftrightarrow> durOk env db' \<and> (\<forall>g.
     (durIssued db' g = durIssued db g \<and> durRetained env db' g = durRetained env db g) \<or>
     (durIssued db' g = Suc (durIssued db g) \<and>
        (\<exists>e. durRetained env db' g = lastn (ee_historyLimit env) (durRetained env db g @ [e]))))"

lemma extends_log_same: "durOk env db \<Longrightarrow> sameLog db db' \<Longrightarrow> extends_log env db db'"
  using durOk_cong(1,2)[of db' db env] durOk_cong(3)[of db' db] by (simp add: extends_log_def sameLog_def)

lemma extends_logI:
  assumes "durOk env t" and "durIssued t = (durIssued s)(h := Suc (durIssued s h))"
    and "durRetained env t = (durRetained env s)(h := lastn (ee_historyLimit env) (durRetained env s h @ [e]))"
  shows "extends_log env s t"
  unfolding extends_log_def
proof (intro conjI allI)
  fix g
  show "(durIssued t g = durIssued s g \<and> durRetained env t g = durRetained env s g) \<or>
     (durIssued t g = Suc (durIssued s g) \<and>
        (\<exists>e. durRetained env t g = lastn (ee_historyLimit env) (durRetained env s g @ [e])))"
  proof (cases "g = h")
    case True
    then show ?thesis using assms(2,3) by (intro disjI2 conjI exI[of _ e]) simp_all
  qed (simp add: assms)
qed (rule assms(1))

lemma extends_log_receipts:
  assumes "extends_log env (db\<lparr>db_receipts := r\<rparr>) db'"
  shows "extends_log env db db'"
proof -
  have "durIssued (db\<lparr>db_receipts := r\<rparr>) = durIssued db" by (rule durOk_cong(3)) simp_all
  moreover have "durRetained env (db\<lparr>db_receipts := r\<rparr>) = durRetained env db" by (rule durOk_cong(2)) simp_all
  ultimately show ?thesis using assms by (simp add: extends_log_def)
qed

lemma extends_log_append:
  assumes "durOk env db" and "encodes env now d"
  shows "extends_log env db (snd (durableAppend env now d db))"
proof (cases "foreignKeys d db")
  case True
  then have "storable env db now d" and "durOk env db \<and> sameParents db db"
    using assms by (simp_all add: storable_def)
  from dur.put_law[OF this(2,1)] show ?thesis by (auto intro!: extends_logI)
next
  case False
  then show ?thesis
    using assms(1) by (simp add: durAppend_refused extends_log_def)
qed

lemma publishRows_other:
  assumes "g \<noteq> dr_groupId (ad_draft a)"
  shows "durRetained env (publishRows env a receipt now db) g = durRetained env db g"
proof -
  have "rowsOf g (publishRows env a receipt now db) = rowsOf g db"
    using assms by (auto simp: rowsOf_def publishRows_def Let_def deleteThrough_def eventRow_def intro!: filter_cong)
  then show ?thesis by (simp add: durRetained_def)
qed

lemma extends_log_rows:
  assumes "durOk env db" and "encodes env now (draftOf a)"
  shows "extends_log env db (publishRows env a receipt now db)"
proof (rule extends_logI)
  let ?g = "dr_groupId (ad_draft a)"
  note ret = publishRows_retained[OF assms, of receipt]
  show "durOk env (publishRows env a receipt now db)" by (rule ret(1))
  show "durIssued (publishRows env a receipt now db) = (durIssued db)(?g := Suc (durIssued db ?g))" by (rule ret(2))
  show "durRetained env (publishRows env a receipt now db) = (durRetained env db)(?g :=
      lastn (ee_historyLimit env) (durRetained env db ?g @ [buildGroupEvent (draftOf a) (nextSequence ?g db) now]))"
    using ret(3) publishRows_other[of _ a env receipt now db] by (auto simp: fun_eq_iff)
qed

text \<open>A completed receipt stays as it is.\<close>

definition keeps_completed :: "event_db \<Rightarrow> event_db \<Rightarrow> bool" where
  "keeps_completed db db' \<longleftrightarrow> (\<forall>k r. fst k \<in> {PUBLISH_SESSION_COMMAND, PUBLISH_DOCUMENT_DELTA} \<longrightarrow>
     js_get (db_receipts db) k = Some r \<longrightarrow> rr_completedAt r \<noteq> None \<longrightarrow> js_get (db_receipts db') k = Some r)"

lemma keeps_completed_refl [simp]: "keeps_completed db db"
  by (simp add: keeps_completed_def)

lemma keeps_completed_rows:
  "gateOpen receipt db \<Longrightarrow> keeps_completed db (publishRows env a receipt now db)"
  by (auto simp: keeps_completed_def publishRows_def gateOpen_def Let_def jsmap_simps split: option.splits)

lemma keeps_completed_trans:
  "keeps_completed db1 db2 \<Longrightarrow> keeps_completed db2 db3 \<Longrightarrow> keeps_completed db1 db3"
  by (simp add: keeps_completed_def)

lemma guardClaim_keeps:
  assumes "\<And>c r. keeps_completed db (db\<lparr>db_receipts := r\<rparr>) \<Longrightarrow> Q c (db\<lparr>db_receipts := r\<rparr>)" and "\<And>e. E e db"
  shows "sm_wp (guardClaim env scope requestId now fs) Q E db"
proof -
  have "Q c db" for c using assms(1)[of "db_receipts db" c] by (simp add: keeps_completed_def)
  with assms show ?thesis
    unfolding guardClaim_def
    by (auto simp: wp_simps Let_def keeps_completed_def jsmap_simps split: sum.split option.split intro!: assms(1))
qed

lemma appendAuthorized_extends:
  assumes "durOk env db" and "encodes env occurredAt (draftOf a)"
  shows "extends_log env db (snd (appendAuthorized env guard claimedAt occurredAt resolvedAt a mutation db)) \<and>
    keeps_completed db (snd (appendAuthorized env guard claimedAt occurredAt resolvedAt a mutation db))"
proof -
  let ?P = "\<lambda>t. extends_log env db t \<and> keeps_completed db t"
  have ok: "durOk env (db\<lparr>db_receipts := r\<rparr>)" for r
    using assms(1) durOk_cong(1)[of "db\<lparr>db_receipts := r\<rparr>" db] by simp
  have claim: "?P (db\<lparr>db_receipts := r\<rparr>)" if "keeps_completed db (db\<lparr>db_receipts := r\<rparr>)" for r
    using that extends_log_same[OF assms(1)] by (simp add: sameLog_def)
  have rows: "?P (publishRows env a receipt occurredAt (db\<lparr>db_receipts := r\<rparr>))"
    if "gateOpen receipt (db\<lparr>db_receipts := r\<rparr>)" "keeps_completed db (db\<lparr>db_receipts := r\<rparr>)" for receipt r
    using that extends_log_receipts[OF extends_log_rows[OF ok assms(2)]] keeps_completed_rows
      keeps_completed_trans by blast
  have start: "?P db" and none: "?P (publishRows env a None occurredAt db)"
    using extends_log_same[OF assms(1)] extends_log_rows[OF assms] keeps_completed_rows[of None]
    by (auto simp: sameLog_def gateOpen_def)
  have "sm_wp (appendAuthorized env guard claimedAt occurredAt resolvedAt a mutation) (\<lambda>_. ?P) (\<lambda>_. ?P) db"
    unfolding appendAuthorized_def requireGuard_def
    by (intro wp_intros guardClaim_keeps publishStatement_wp sm_wp_mono[OF replayAuthorizedAppend_reads])
       (use claim rows start none in \<open>auto simp: wp_simps split: sum.split\<close>)
  then show ?thesis by (simp add: sm_wp_state)
qed

text \<open>
  What a publication leaves behind: its completed receipt, and its event for as long as the window
  of its group has not moved past it.
\<close>

definition published ::
  "ev_env \<Rightarrow> mutation_scope \<times> string \<Rightarrow> receipt_row \<Rightarrow> string \<Rightarrow> group_event \<Rightarrow> event_db \<Rightarrow> bool" where
  "published env key row g e db \<longleftrightarrow> durOk env db \<and> js_get (db_receipts db) key = Some row \<and>
     0 < ev_sequence e \<and> ev_sequence e \<le> int (durIssued db g) \<and>
     (int (durIssued db g) - int (ee_historyLimit env) < ev_sequence e \<longrightarrow> e \<in> set (durRetained env db g))"

lemma retained_numbers:
  "durOk env db \<Longrightarrow> map ev_sequence (durRetained env db g) =
    map int [Suc (durIssued db g - ee_historyLimit env) ..< Suc (durIssued db g)]"
  using dur.numbers_law[of env db db g] by simp

lemma in_lastn_snoc: "0 < n \<Longrightarrow> x \<in> set (lastn n (xs @ [x]))"
  by (simp add: lastn_def)

text \<open>Moving a contiguous window by one keeps every event but the oldest.\<close>

lemma in_moved_window:
  assumes "map ev_sequence es = map int [Suc (n - w) ..< Suc n]" and "e \<in> set es"
    and "int (Suc n) - int w < ev_sequence e"
  shows "e \<in> set (lastn w (es @ [x]))"
proof -
  have len: "length es = n - (n - w)" using arg_cong[OF assms(1), of length] by (simp del: upt_Suc)
  obtain i where i: "i < length es" "es ! i = e" using assms(2) by (auto simp: in_set_conv_nth)
  have "ev_sequence e = map ev_sequence es ! i" using i by simp
  also have "\<dots> = int (Suc (n - w + i))" using i(1) len by (simp add: assms(1) del: upt_Suc)
  finally have "Suc (length es) - w \<le> i" using assms(3) len by linarith
  then have "e \<in> set (drop (Suc (length es) - w) (es @ [x]))"
    using i by (auto simp: in_set_conv_nth nth_append intro!: exI[of _ "i - (Suc (length es) - w)"])
  then show ?thesis by (simp add: lastn_def)
qed

lemma published_step:
  assumes "published env key row g e db" and "log_call env db db'"
    and "fst key \<in> {PUBLISH_SESSION_COMMAND, PUBLISH_DOCUMENT_DELTA}" and "rr_completedAt row \<noteq> None"
  shows "published env key row g e db'"
proof -
  have ok: "durOk env db" using assms(1) by (simp add: published_def)
  have "extends_log env db db' \<and> js_get (db_receipts db') key = Some row"
    using assms(2)
  proof cases
    case (log_append now d)
    moreover have "db_receipts (snd (durableAppend env now d db)) = db_receipts db"
      using durAppend_eq[OF ok, of d now] durAppend_refused[of d db env now]
      by (cases "foreignKeys d db") (simp_all add: prune_def insertEvent_def Let_def)
    ultimately show ?thesis using extends_log_append[OF ok] assms(1) by (simp add: published_def)
  next
    case (log_publish occurredAt a guard claimedAt resolvedAt mutation)
    have "keeps_completed db db'" "extends_log env db db'"
      using appendAuthorized_extends[OF ok] log_publish by blast+
    then show ?thesis using assms(1,3,4) unfolding keeps_completed_def published_def by blast
  next
    case log_others
    then show ?thesis using extends_log_same[OF ok] assms(1,3) by (simp add: published_def)
  qed
  then show ?thesis
    using assms(1) in_moved_window[OF retained_numbers[OF ok, of g], of e]
    unfolding published_def extends_log_def by (elim conjE allE[of _ g]) auto
qed

lemma published_later:
  assumes "reaches (log_call env) db db'" and "published env key row g e db"
    and "fst key \<in> {PUBLISH_SESSION_COMMAND, PUBLISH_DOCUMENT_DELTA}" and "rr_completedAt row \<noteq> None"
  shows "published env key row g e db'"
  using assms(1,2) by (induction rule: reaches.induct) (auto intro: published_step[OF _ _ assms(3,4)])

text \<open>What a replay after the predecessor of a retained, or of a dropped, event returns.\<close>

lemma published_replays:
  assumes "published env key row g e db"
  shows "\<exists>events x. durableReplay env g (ev_sequence e - 1) 1 db =
      (Inr \<lparr>rp_events = events, rp_earliestSequence = x\<rparr>, db) \<and>
    (if int (durIssued db g) - int (ee_historyLimit env) < ev_sequence e then events = [e]
     else \<exists>f. events = [f] \<and> ev_sequence f \<noteq> ev_sequence e)"
proof -
  let ?es = "durRetained env db g" and ?n = "durIssued db g" and ?w = "ee_historyLimit env"
  have ok: "durOk env db" and w: "0 < ?w" and e: "0 < ev_sequence e" "ev_sequence e \<le> int ?n"
    using assms by (auto simp: published_def durOk_def)
  have len: "length ?es = ?n - (?n - ?w)"
    using arg_cong[OF retained_numbers[OF ok, of g], of length] by (simp del: upt_Suc)
  have seq: "ev_sequence (?es ! i) = int (Suc (?n - ?w + i))" if "i < length ?es" for i
  proof -
    have "ev_sequence (?es ! i) = map ev_sequence ?es ! i" using that by simp
    also have "\<dots> = int (Suc (?n - ?w + i))"
      using that len by (simp add: retained_numbers[OF ok] del: upt_Suc)
    finally show ?thesis .
  qed
  define k where "k = nat (ev_sequence e - 1) - (?n - ?w)"
  have "filter (\<lambda>x. ev_sequence e - 1 < ev_sequence x) ?es = drop k ?es"
    unfolding k_def using e(1) by (intro filter_contiguous) (simp_all add: seq)
  moreover have k: "k < length ?es" using e w len by (simp add: k_def)
  ultimately have "take 1 (filter (\<lambda>x. ev_sequence e - 1 < ev_sequence x) ?es) = [?es ! k]"
    by (simp add: take_Suc_conv_app_nth)
  moreover have "requireReplayLimit 1 = Inr 1"
    by (simp add: requireReplayLimit_def defaultRealtimeReplayLimit_def)
  ultimately have read: "\<exists>x. durableReplay env g (ev_sequence e - 1) 1 db =
      (Inr \<lparr>rp_events = [?es ! k], rp_earliestSequence = x\<rparr>, db)"
    using durReplay_eq[OF ok, of 1 1 g "ev_sequence e - 1"] by auto
  have "?es ! k = e" if "int ?n - int ?w < ev_sequence e"
  proof -
    have "e \<in> set ?es" using assms that by (simp add: published_def)
    then obtain j where j: "j < length ?es" "?es ! j = e" by (auto simp: in_set_conv_nth)
    then have "j = k" using seq[OF j(1)] by (simp add: k_def)
    with j show ?thesis by simp
  qed
  moreover have "ev_sequence (?es ! k) \<noteq> ev_sequence e" if "\<not> int ?n - int ?w < ev_sequence e"
    using seq[OF k] that e by (simp add: k_def)
  ultimately show ?thesis using read by auto
qed

text \<open>The receipt of a publication: its table key, and its fingerprint.\<close>

definition publicationKey :: "ev_env \<Rightarrow> authorized_draft \<Rightarrow> string \<Rightarrow> mutation_scope \<times> string" where
  "publicationKey env a rid = (publishScope (dr_kind (ad_draft a)),
     ee_hashReceipt env (encodeRequestIdPayload (publishScope (dr_kind (ad_draft a))) rid))"

definition publicationPrint :: "ev_env \<Rightarrow> authorized_draft \<Rightarrow> string" where
  "publicationPrint env a = ee_hashReceipt env (encodeFingerprintPayload (publishScope (dr_kind (ad_draft a)))
     [(''group_id'', dr_groupId (ad_draft a)), (''actor_device_id'', ad_actorDeviceId a),
      (''document_id'', case dr_documentId (ad_draft a) of None \<Rightarrow> [] | Some d \<Rightarrow> d),
      (''kind'', eventKindName (dr_kind (ad_draft a))), (''payload'', hexOf (dr_documentDelta (ad_draft a)))])"

definition publicationClaim :: "ev_env \<Rightarrow> authorized_draft \<Rightarrow> string \<Rightarrow> bool \<Rightarrow> guard_claim" where
  "publicationClaim env a rid claimed =
     \<lparr>gc_scope = fst (publicationKey env a rid), gc_requestIdHash = snd (publicationKey env a rid),
      gc_fingerprint = publicationPrint env a, gc_claimed = claimed\<rparr>"

definition hash_ok :: "ev_env \<Rightarrow> bool" where
  "hash_ok env \<longleftrightarrow> (\<forall>p. js_trim (ee_hashReceipt env p) \<noteq> [])"

lemma guardHash_ok: "hash_ok env \<Longrightarrow> guardHash env p = Inr (ee_hashReceipt env p)"
  by (simp add: hash_ok_def guardHash_def Let_def)

lemmas publication_defs = publicationKey_def publicationPrint_def publicationClaim_def

lemma appendAuthorized_first:
  assumes "hash_ok env" and "codec_ok env" and "normalizeRequestId requestId = Inr (Some rid)"
    and "js_get (db_receipts db) (publicationKey env a rid) = None"
    and "actorAuthorized (dr_groupId (ad_draft a)) (ad_actorDeviceId a) db"
    and "0 \<le> nextSequence (dr_groupId (ad_draft a)) db"
  shows "appendAuthorized env True claimedAt occurredAt resolvedAt a (Some requestId) db =
    (Inr \<lparr>ar_event = buildGroupEvent (draftOf a) (nextSequence (dr_groupId (ad_draft a)) db) occurredAt,
          ar_stateVector = (case ad_stateVector a of None \<Rightarrow> [] | Some v \<Rightarrow> v)\<rparr>,
     publishRows env a (Some (publicationClaim env a rid True)) occurredAt
       (db\<lparr>db_receipts := js_set (publicationKey env a rid)
          \<lparr>rr_fingerprint = publicationPrint env a, rr_claimedAt = claimedAt,
           rr_expiresAt = claimedAt + ee_receiptLifetimeMs env, rr_completedAt = None,
           rr_groupId = None, rr_sequence = None\<rparr> (db_receipts db)\<rparr>))"
proof -
  have "readSequence (ee_bigint env (nextSequence (dr_groupId (ad_draft a)) db)) =
      Inr (nextSequence (dr_groupId (ad_draft a)) db)"
    using assms(2,6) by (simp add: codec_ok_def)
  moreover have "nextSequence g (db\<lparr>db_receipts := r\<rparr>) = nextSequence g db" for g r
    by (simp add: nextSequence_def)
  ultimately show ?thesis
    using assms(3-5) guardHash_ok[OF assms(1)]
    by (simp add: appendAuthorized_def requireGuard_def guardClaim_def publishStatement_def gateOpen_def
        publication_defs sm_bind_def monad_defs Let_def jsmap_simps)
qed

lemma appendAuthorized_again:
  assumes "hash_ok env" and "normalizeRequestId requestId = Inr (Some rid)"
    and "js_get (db_receipts db) (publicationKey env a rid) = Some r" and "rr_completedAt r \<noteq> None"
  shows "appendAuthorized env True claimedAt occurredAt resolvedAt a (Some requestId) db =
    replayAuthorizedAppend env (publicationClaim env a rid False) resolvedAt db"
proof -
  obtain y where "rr_completedAt r = Some y" using assms(4) by auto
  then show ?thesis
    using assms(2,3) guardHash_ok[OF assms(1)]
    by (simp add: appendAuthorized_def requireGuard_def guardClaim_def publication_defs sm_bind_def monad_defs Let_def)
qed

definition noLongerRetained :: rt_error where
  "noLongerRetained = PairedDeviceRuntimeError FAILED_PRECONDITION
     ''The recorded publication is no longer retained and cannot be replayed.''"

text \<open>The answer to a retry of a publication whose receipt is in the database.\<close>

lemma appendAuthorized_retried:
  assumes "published env (publicationKey env a rid) row (dr_groupId (ad_draft a)) e db"
    and "hash_ok env" and "normalizeRequestId requestId = Inr (Some rid)"
    and "rr_completedAt row \<noteq> None" and "rr_fingerprint row = publicationPrint env a"
    and "rr_groupId row = Some (dr_groupId (ad_draft a))" and "rr_sequence row = Some (ev_sequence e)"
    and "dr_groupId (ad_draft a) \<noteq> []"
  shows "appendAuthorized env True claimedAt occurredAt resolvedAt a (Some requestId) db =
    (if rr_expiresAt row \<le> resolvedAt then Inl couldNotPublish
     else if int (durIssued db (dr_groupId (ad_draft a))) - int (ee_historyLimit env) < ev_sequence e
     then Inr \<lparr>ar_event = e, ar_stateVector = []\<rparr>
     else Inl noLongerRetained, db)"
proof -
  have stored: "js_get (db_receipts db) (publicationKey env a rid) = Some row"
    using assms(1) by (simp add: published_def)
  have print: "publicationPrint env a \<noteq> []"
    using assms(2) unfolding hash_ok_def publicationPrint_def js_trim_def by (metis dropWhile.simps(1) rev.simps(1))
  obtain y where "rr_completedAt row = Some y" using assms(4) by auto
  then show ?thesis
    unfolding appendAuthorized_again[OF assms(2,3) stored assms(4)]
    using stored assms(5-8) print published_replays[OF assms(1)]
    by (auto simp: replayAuthorizedAppend_def guardResolveRefused_def publicationClaim_def sm_bind_def monad_defs
        noLongerRetained_def split: if_splits)
qed

text \<open>
  C3: A publication with a request identifier is appended once. An active editor's publication with a
  fresh request identifier takes the next sequence number of its group. Sent again with that
  identifier after any later calls (appends, publications of anyone, revocations and other changes of
  members, devices and receipts of other operations), it never writes anything: while its receipt
  has not expired and its event is among the last \<open>historyLimit\<close> of the group, it returns the very
  event, with the same sequence number (and an empty state vector); once the event has left that
  window, or the receipt has expired, it fails with \<open>FAILED_PRECONDITION\<close>. Each call is taken as
  a whole, and the codec is assumed to decode the envelopes it encoded.
\<close>

theorem publication_exactly_once:
  assumes "durOk env db" and "encodes env occurredAt (draftOf a)" and "hash_ok env"
    and "normalizeRequestId requestId = Inr (Some rid)"
    and "js_get (db_receipts db) (publicationKey env a rid) = None"
    and "actorAuthorized (dr_groupId (ad_draft a)) (ad_actorDeviceId a) db"
    and "dr_groupId (ad_draft a) \<noteq> []"
  shows "\<exists>event db'. event = buildGroupEvent (draftOf a) (int (Suc (durIssued db (dr_groupId (ad_draft a))))) occurredAt \<and>
    appendAuthorized env True claimedAt occurredAt resolvedAt a (Some requestId) db =
      (Inr \<lparr>ar_event = event, ar_stateVector = (case ad_stateVector a of None \<Rightarrow> [] | Some v \<Rightarrow> v)\<rparr>, db') \<and>
    (\<forall>db'' claimedAt' occurredAt' resolvedAt'. reaches (log_call env) db' db'' \<longrightarrow>
      appendAuthorized env True claimedAt' occurredAt' resolvedAt' a (Some requestId) db'' =
        (if claimedAt + ee_receiptLifetimeMs env \<le> resolvedAt' then Inl couldNotPublish
         else if int (durIssued db'' (dr_groupId (ad_draft a))) - int (ee_historyLimit env) < ev_sequence event
         then Inr \<lparr>ar_event = event, ar_stateVector = []\<rparr>
         else Inl noLongerRetained, db''))"
proof -
  let ?g = "dr_groupId (ad_draft a)" and ?key = "publicationKey env a rid"
  let ?row = "\<lparr>rr_fingerprint = publicationPrint env a, rr_claimedAt = claimedAt,
           rr_expiresAt = claimedAt + ee_receiptLifetimeMs env, rr_completedAt = None,
           rr_groupId = None, rr_sequence = None\<rparr>"
  let ?db0 = "db\<lparr>db_receipts := js_set ?key ?row (db_receipts db)\<rparr>"
  let ?db' = "publishRows env a (Some (publicationClaim env a rid True)) occurredAt ?db0"
  let ?done = "?row\<lparr>rr_groupId := Some ?g, rr_sequence := Some (nextSequence ?g db), rr_completedAt := Some occurredAt\<rparr>"
  let ?event = "buildGroupEvent (draftOf a) (nextSequence ?g db) occurredAt"
  have n: "nextSequence ?g db = int (Suc (durIssued db ?g))" by (rule nextSequence_issued[OF assms(1)])
  have n0: "nextSequence ?g ?db0 = nextSequence ?g db" by (simp add: nextSequence_def)
  have issued0: "durIssued ?db0 = durIssued db" by (rule durOk_cong(3)) simp_all
  have ok0: "durOk env ?db0" using assms(1) durOk_cong(1)[of ?db0 db] by simp
  have codec: "codec_ok env" and w: "0 < ee_historyLimit env" using assms(1) by (simp_all add: durOk_def)
  have stored: "js_get (db_receipts ?db') ?key = Some ?done"
    by (simp add: publishRows_def Let_def jsmap_simps publicationClaim_def n0)
  note ret = publishRows_retained[OF ok0 assms(2), of "Some (publicationClaim env a rid True)"]
  have "?event \<in> set (durRetained env ?db' ?g)"
    using in_lastn_snoc[OF w] by (simp add: ret(3) n0)
  then have pub: "published env ?key ?done ?g ?event ?db'"
    using ret(1,2) stored n by (simp add: published_def buildGroupEvent_def issued0)
  have scope: "fst ?key \<in> {PUBLISH_SESSION_COMMAND, PUBLISH_DOCUMENT_DELTA}"
    by (simp add: publicationKey_def publishScope_def)
  have "appendAuthorized env True claimedAt' occurredAt' resolvedAt' a (Some requestId) db'' =
        (if claimedAt + ee_receiptLifetimeMs env \<le> resolvedAt' then Inl couldNotPublish
         else if int (durIssued db'' ?g) - int (ee_historyLimit env) < ev_sequence ?event
         then Inr \<lparr>ar_event = ?event, ar_stateVector = []\<rparr>
         else Inl noLongerRetained, db'')"
    if "reaches (log_call env) ?db' db''" for db'' claimedAt' occurredAt' resolvedAt'
    using appendAuthorized_retried[OF published_later[OF that pub scope] assms(3,4) _ _ _ _ assms(7)]
    by (simp add: buildGroupEvent_def)
  then show ?thesis
    using appendAuthorized_first[OF assms(3) codec assms(4-6)] n by auto
qed

text \<open>
  An expired receipt blocks its request identifier for good. When a completed receipt has
  outlived its lifetime, a publication with that request identifier is neither replayed nor carried
  out: an active editor gets \<open>FAILED_PRECONDITION\<close> and the database is unchanged.
\<close>

theorem expired_receipt_blocks_publication:
  assumes "hash_ok env" and "normalizeRequestId requestId = Inr (Some rid)"
    and "js_get (db_receipts db) (publicationKey env a rid) = Some r" and "rr_completedAt r \<noteq> None"
    and "rr_expiresAt r \<le> resolvedAt"
  shows "appendAuthorized env True claimedAt occurredAt resolvedAt a (Some requestId) db = (Inl couldNotPublish, db)"
  unfolding appendAuthorized_again[OF assms(1-4)]
  using assms(3,5)
  by (simp add: replayAuthorizedAppend_def guardResolveRefused_def publicationClaim_def sm_bind_def monad_defs)

lemma demoEventDb_ok: "durOk demoEventEnv demoEventDb"
  by (rule freshLog_facts(1)[OF demoEventDb_fresh demoEventEnv_ok]) (simp add: demoEventEnv_def)

lemma demo_publication:
  "hash_ok demoEventEnv" "normalizeRequestId (Some ''r'') = Inr (Some ''r'')"
  "js_get (db_receipts demoEventDb) k = None"
  "actorAuthorized (dr_groupId (ad_draft demoAuthorized)) (ad_actorDeviceId demoAuthorized) demoEventDb"
  "encodes demoEventEnv 2 (draftOf demoAuthorized)"
proof -
  have "js_trim (CHR ''h'' # p) \<noteq> []" for p
  proof
    assume "js_trim (CHR ''h'' # p) = []"
    then have "\<forall>c \<in> set (CHR ''h'' # p). is_js_space c"
      by (auto simp: js_trim_def is_js_space_def dropWhile_eq_Nil_conv)
    then show False by (simp add: is_js_space_def)
  qed
  then show "hash_ok demoEventEnv" by (simp add: hash_ok_def demoEventEnv_def)
  show "normalizeRequestId (Some ''r'') = Inr (Some ''r'')"
    by (simp add: normalizeRequestId_def js_trim_def is_js_space_def maxRequestIdLength_def)
  show "js_get (db_receipts demoEventDb) k = None" by (simp add: demoEventDb_def emptyEventDb_def)
  show "actorAuthorized (dr_groupId (ad_draft demoAuthorized)) (ad_actorDeviceId demoAuthorized) demoEventDb"
    by (simp add: actorAuthorized_def demoEventDb_def demoAuthorized_def demoDraft_def)
  show "encodes demoEventEnv 2 (draftOf demoAuthorized)"
    by (simp add: encodes_def demoEventEnv_def buildGroupEvent_def draftOf_def demoAuthorized_def demoDraft_def)
qed

text \<open>
  With a window of two, another publication of the same editor, and then two appends of the server:
  the retry returns the event first and fails afterwards.
\<close>

theorem publication_exactly_once_witness:
  "\<exists>event db' db'' db3. ev_sequence event = 1 \<and>
     appendAuthorized demoEventEnv True 1 2 3 demoAuthorized (Some (Some ''r'')) demoEventDb =
       (Inr \<lparr>ar_event = event, ar_stateVector = [1]\<rparr>, db') \<and>
     db'' = snd (durableAppend demoEventEnv 4 (demoDraft ''g'') db') \<and> durIssued db'' ''g'' = 2 \<and>
     appendAuthorized demoEventEnv True 4 5 6 demoAuthorized (Some (Some ''r'')) db'' =
       (Inr \<lparr>ar_event = event, ar_stateVector = []\<rparr>, db'') \<and>
     db3 = snd (durableAppend demoEventEnv 7 (demoDraft ''g'') db'') \<and> durIssued db3 ''g'' = 3 \<and>
     appendAuthorized demoEventEnv True 8 8 8 demoAuthorized (Some (Some ''r'')) db3 = (Inl noLongerRetained, db3)"
proof -
  let ?E = demoEventEnv
  have g: "dr_groupId (ad_draft demoAuthorized) = ''g''" "dr_groupId (ad_draft demoAuthorized) \<noteq> []"
    by (simp_all add: demoAuthorized_def demoDraft_def)
  have life: "ee_receiptLifetimeMs ?E = 100" "ee_historyLimit ?E = 2" by (simp_all add: demoEventEnv_def)
  have enc: "encodes ?E now (demoDraft ''g'')" if "now \<in> {4, 7}" for now
    using that by (auto simp: encodes_def demoEventEnv_def buildGroupEvent_def)
  have zero: "durIssued demoEventDb ''g'' = 0"
    by (simp add: durIssued_def demoEventDb_def emptyEventDb_def)
  from publication_exactly_once[OF demoEventDb_ok demo_publication(5,1,2,3,4) g(2), of 1 3] obtain event db' where
    first: "ev_sequence event = 1"
      "appendAuthorized ?E True 1 2 3 demoAuthorized (Some (Some ''r'')) demoEventDb =
        (Inr \<lparr>ar_event = event, ar_stateVector = [1]\<rparr>, db')" and
    later: "\<And>d c o' r. reaches (log_call ?E) db' d \<Longrightarrow>
      appendAuthorized ?E True c o' r demoAuthorized (Some (Some ''r'')) d =
        (if 1 + ee_receiptLifetimeMs ?E \<le> r then Inl couldNotPublish
         else if int (durIssued d ''g'') - int (ee_historyLimit ?E) < ev_sequence event
         then Inr \<lparr>ar_event = event, ar_stateVector = []\<rparr> else Inl noLongerRetained, d)"
    unfolding g(1) by (auto simp: buildGroupEvent_def zero) (simp add: demoAuthorized_def)
  have db': "db' = snd (appendAuthorized ?E True 1 2 3 demoAuthorized (Some (Some ''r'')) demoEventDb)"
    using first(2) by simp
  let ?d2 = "snd (durableAppend ?E 4 (demoDraft ''g'') db')"
  let ?d3 = "snd (durableAppend ?E 7 (demoDraft ''g'') ?d2)"
  have two: "reaches (log_call ?E) db' ?d2"
    using enc by (intro reaches.reach_step[OF reaches.reach_refl] log_append) simp
  have three: "reaches (log_call ?E) db' ?d3"
    using enc by (intro reaches.reach_step[OF two] log_append) simp
  have "durIssued ?d2 ''g'' = 2" "durIssued ?d3 ''g'' = 3"
    unfolding db' by code_simp+
  then show ?thesis
    using first later[OF two, of 4 5 6] later[OF three, of 8 8 8] by (auto simp: life)
qed

theorem expired_receipt_blocks_publication_witness:
  "\<exists>db. actorAuthorized ''g'' ''a'' db \<and>
     appendAuthorized demoEventEnv True 200 200 200 demoAuthorized (Some (Some ''r'')) db = (Inl couldNotPublish, db)"
proof -
  let ?row = "\<lparr>rr_fingerprint = ''f'', rr_claimedAt = 0, rr_expiresAt = 100, rr_completedAt = Some 1,
      rr_groupId = Some ''g'', rr_sequence = Some 1\<rparr>"
  let ?db = "demoEventDb\<lparr>db_receipts := [(publicationKey demoEventEnv demoAuthorized ''r'', ?row)]\<rparr>"
  have "js_get (db_receipts ?db) (publicationKey demoEventEnv demoAuthorized ''r'') = Some ?row" by simp
  from expired_receipt_blocks_publication[OF demo_publication(1,2) this, of 200 200 200]
  have "appendAuthorized demoEventEnv True 200 200 200 demoAuthorized (Some (Some ''r'')) ?db =
      (Inl couldNotPublish, ?db)" by simp
  then show ?thesis
    using demo_publication(4) by (intro exI[of _ ?db]) (simp add: demoAuthorized_def demoDraft_def)
qed

section \<open>The snapshot of a document\<close>

lemma insort_key_snoc:
  fixes f :: "'a \<Rightarrow> int"
  shows "f y < f x \<Longrightarrow> insort_key f y (zs @ [x]) = insort_key f y zs @ [x]"
  by (induction zs) auto

lemma sort_key_snoc:
  fixes f :: "'a \<Rightarrow> int"
  shows "\<forall>y \<in> set xs. f y < f x \<Longrightarrow> sort_key f (xs @ [x]) = sort_key f xs @ [x]"
  by (induction xs) (auto simp: insort_key_snoc)

lemma readDocumentSnapshot_latest:
  assumes "codec_ok env" and "0 \<le> sn_sequence row"
    and "db_snapshots db = rows @ [row]"
    and "\<And>r. r \<in> set rows \<Longrightarrow> sn_groupId r = sn_groupId row \<Longrightarrow> sn_sequence r < sn_sequence row"
  shows "readDocumentSnapshot env (sn_groupId row) (sn_documentId row) db =
    (Inr (Some \<lparr>ds_snapshot = sn_snapshot row, ds_stateVector = sn_stateVector row, ds_sequence = sn_sequence row,
                ds_documentType = documentTypeOf (sn_documentType row)\<rparr>), db)"
proof -
  let ?m = "filter (\<lambda>r. sn_groupId r = sn_groupId row \<and> sn_documentId r = sn_documentId row) rows"
  have "sort_key sn_sequence (?m @ [row]) = sort_key sn_sequence ?m @ [row]"
    using assms(4) by (intro sort_key_snoc) auto
  then have "rev (sort_key sn_sequence (filter (\<lambda>r. sn_groupId r = sn_groupId row \<and> sn_documentId r = sn_documentId row)
      (db_snapshots db))) = row # rev (sort_key sn_sequence ?m)"
    using assms(3) by simp
  then show ?thesis
    using assms(1,2) by (simp add: readDocumentSnapshot_def codec_ok_def)
qed

text \<open>Every recorded snapshot of a group carries a sequence number that the group has issued.\<close>

definition snapshots_ok :: "event_db \<Rightarrow> bool" where
  "snapshots_ok db \<longleftrightarrow> (\<forall>r \<in> set (db_snapshots db). sn_sequence r \<le> int (durIssued db (sn_groupId r)))"

text \<open>
  The snapshot read back after an accepted publication to a document is the publication's encoded
  event envelope with sequence number zero, and not the bytes the publisher sent as its delta; its
  sequence number, state vector and document type are the publication's.
\<close>

theorem snapshot_is_the_event_envelope:
  assumes "durOk env db" and "snapshots_ok db"
    and "actorAuthorized (dr_groupId (ad_draft a)) (ad_actorDeviceId a) db"
    and "dr_documentId (ad_draft a) = Some documentId"
    and "appendAuthorized env guard claimedAt occurredAt resolvedAt a None db = (Inr result, db')"
  shows "fst (readDocumentSnapshot env (dr_groupId (ad_draft a)) documentId db') =
    Inr (Some \<lparr>ds_snapshot = ee_toBinary env (buildGroupEvent (draftOf a) 0 occurredAt),
               ds_stateVector = (case ad_stateVector a of None \<Rightarrow> [] | Some v \<Rightarrow> v),
               ds_sequence = ev_sequence (ar_event result),
               ds_documentType = documentTypeOf (documentTypeName (ad_documentType a))\<rparr>)"
proof -
  let ?g = "dr_groupId (ad_draft a)"
  have codec: "codec_ok env" using assms(1) by (simp add: durOk_def)
  have n: "nextSequence ?g db = int (Suc (durIssued db ?g))" by (rule nextSequence_issued[OF assms(1)])
  then have "readSequence (ee_bigint env (nextSequence ?g db)) = Inr (nextSequence ?g db)"
    using codec by (simp add: codec_ok_def)
  then have db': "db' = publishRows env a None occurredAt db"
    and result: "ev_sequence (ar_event result) = nextSequence ?g db"
    using assms(3,5) by (auto simp: appendAuthorized_def publishStatement_def gateOpen_def sm_bind_def monad_defs
        Let_def buildGroupEvent_def)
  define row where "row = \<lparr>sn_groupId = ?g, sn_documentId = documentId,
      sn_documentType = documentTypeName (ad_documentType a), sn_sequence = nextSequence ?g db,
      sn_stateVector = (case ad_stateVector a of None \<Rightarrow> [] | Some v \<Rightarrow> v),
      sn_snapshot = ee_toBinary env (buildGroupEvent (draftOf a) 0 occurredAt)\<rparr>"
  have rows: "db_snapshots db' = db_snapshots db @ [row]"
    using assms(4) by (simp add: db' publishRows_def Let_def row_def draftOf_def)
  have "sn_sequence r < sn_sequence row" if "r \<in> set (db_snapshots db)" "sn_groupId r = sn_groupId row" for r
    using assms(2) that n by (force simp: snapshots_ok_def row_def)
  from readDocumentSnapshot_latest[OF codec _ rows this] n result show ?thesis
    by (simp add: row_def)
qed

theorem snapshot_is_the_event_envelope_witness:
  "\<exists>result db' snapshot. appendAuthorized demoEventEnv True 1 2 3 demoAuthorized None demoEventDb = (Inr result, db') \<and>
     fst (readDocumentSnapshot demoEventEnv ''g'' ''doc'' db') = Inr (Some snapshot) \<and>
     Some (ds_snapshot snapshot) \<noteq> dr_documentDelta (ad_draft demoAuthorized)"
proof -
  have next1: "nextSequence ''g'' demoEventDb = 1"
    by (simp add: nextSequence_def demoEventDb_def emptyEventDb_def)
  have "readSequence (ee_bigint demoEventEnv 1) = Inr 1" using demoEventEnv_ok by (simp add: codec_ok_def)
  then obtain result db' where r:
    "appendAuthorized demoEventEnv True 1 2 3 demoAuthorized None demoEventDb = (Inr result, db')"
    using demo_publication(4) next1
    by (auto simp: appendAuthorized_def publishStatement_def gateOpen_def sm_bind_def monad_defs Let_def
        demoAuthorized_def demoDraft_def)
  have "snapshots_ok demoEventDb" by (simp add: snapshots_ok_def demoEventDb_def emptyEventDb_def)
  moreover have "dr_documentId (ad_draft demoAuthorized) = Some ''doc''"
    by (simp add: demoAuthorized_def demoDraft_def)
  ultimately have "fst (readDocumentSnapshot demoEventEnv (dr_groupId (ad_draft demoAuthorized)) ''doc'' db') =
    Inr (Some \<lparr>ds_snapshot = ee_toBinary demoEventEnv (buildGroupEvent (draftOf demoAuthorized) 0 2),
      ds_stateVector = (case ad_stateVector demoAuthorized of None \<Rightarrow> [] | Some v \<Rightarrow> v),
      ds_sequence = ev_sequence (ar_event result),
      ds_documentType = documentTypeOf (documentTypeName (ad_documentType demoAuthorized))\<rparr>)"
    using snapshot_is_the_event_envelope[OF demoEventDb_ok _ demo_publication(4) _ r] by blast
  moreover have "dr_groupId (ad_draft demoAuthorized) = ''g''" by (simp add: demoAuthorized_def demoDraft_def)
  ultimately show ?thesis
    using r by (auto simp: demoEventEnv_def buildGroupEvent_def demoAuthorized_def demoDraft_def)
qed

end
