(* ===== verification/Realtime_Hub.thy ===== *)
theory Realtime_Hub
  imports Event_Log
begin

text \<open>
  The realtime hub, \<open>apps/control-plane/src/realtime/hub.ts\<close>, and the announcements of
  \<open>realtime/fanout.ts\<close>.

  A listener is an object with a cursor, shared between the hub's map and the closure of the
  \<open>subscribe\<close> call that made it, so listeners live in a heap and the map holds addresses. Each
  function below is one synchronous stretch of the code between two \<open>await\<close>s; the step relation
  interleaves them with appends of this and of other processes. What a socket has been sent is the
  list \<open>li_frames\<close>.
\<close>

section \<open>Frames and listeners\<close>

definition protocolVersion :: string where "protocolVersion = ''gremuchaya.realtime.v1''"

definition resyncRequiredReason :: string where
  "resyncRequiredReason = ''retained event history no longer covers the requested sequence''"

text \<open>\<open>ready\<close>: connection, resumed-from, server time, protocol version. \<open>resyncRequired\<close>: group,
  requested-after, earliest available, reason.\<close>

datatype server_frame =
    ReadyFrame string int int string
  | ResyncFrame string int int string
  | EventFrame group_event

definition readyFrame :: "string \<Rightarrow> int \<Rightarrow> int \<Rightarrow> server_frame" where
  "readyFrame connectionId resumedFromSequence serverTime =
     ReadyFrame connectionId resumedFromSequence serverTime protocolVersion"

definition resyncFrame :: "string \<Rightarrow> int \<Rightarrow> int \<Rightarrow> server_frame" where
  "resyncFrame groupId requestedAfterSequence earliestAvailableSequence =
     ResyncFrame groupId requestedAfterSequence earliestAvailableSequence resyncRequiredReason"

definition groupEventFrame :: "group_event \<Rightarrow> server_frame" where
  "groupEventFrame event = EventFrame event"

record listener =
  li_groupId :: string
  li_afterSequence :: int
  li_replaying :: bool
  li_buffered :: "group_event list"
  li_sentThrough :: int
  li_frames :: "server_frame list"

definition newListener :: "string \<Rightarrow> int \<Rightarrow> listener" where
  "newListener groupId afterSequence =
     \<lparr>li_groupId = groupId, li_afterSequence = afterSequence, li_replaying = True, li_buffered = [],
      li_sentThrough = afterSequence, li_frames = []\<rparr>"

definition sendFrame :: "server_frame \<Rightarrow> listener \<Rightarrow> listener" where
  "sendFrame frame l = l\<lparr>li_frames := li_frames l @ [frame]\<rparr>"

definition offer :: "group_event \<Rightarrow> listener \<Rightarrow> listener" where
  "offer event l =
     (if ev_sequence event \<le> li_sentThrough l then l
      else if li_replaying l then l\<lparr>li_buffered := li_buffered l @ [event]\<rparr>
      else sendFrame (groupEventFrame event) (l\<lparr>li_sentThrough := ev_sequence event\<rparr>))"

definition skipTo :: "int \<Rightarrow> listener \<Rightarrow> listener" where
  "skipTo sequence l = (if sequence > li_sentThrough l then l\<lparr>li_sentThrough := sequence\<rparr> else l)"

section \<open>The hub\<close>

record hub =
  hub_heap :: "listener list"
  hub_listenersByGroup :: "(string, (string, nat) jsmap) jsmap"

definition emptyHub :: hub where
  "emptyHub = \<lparr>hub_heap = [], hub_listenersByGroup = []\<rparr>"

definition updateListener :: "nat \<Rightarrow> (listener \<Rightarrow> listener) \<Rightarrow> hub \<Rightarrow> hub" where
  "updateListener ref f h = h\<lparr>hub_heap := (hub_heap h)[ref := f (hub_heap h ! ref)]\<rparr>"

definition listenersOf :: "string \<Rightarrow> hub \<Rightarrow> nat list" where
  "listenersOf groupId h = (case js_get (hub_listenersByGroup h) groupId of
     None \<Rightarrow> [] | Some listeners \<Rightarrow> js_values listeners)"

definition register :: "string \<Rightarrow> string \<Rightarrow> nat \<Rightarrow> hub \<Rightarrow> hub" where
  "register groupId connectionId ref h =
     (let listeners = (case js_get (hub_listenersByGroup h) groupId of None \<Rightarrow> [] | Some m \<Rightarrow> m) in
      h\<lparr>hub_listenersByGroup := js_set groupId (js_set connectionId ref listeners) (hub_listenersByGroup h)\<rparr>)"

text \<open>The function \<open>register\<close> returns: it deletes whatever listener the connection has now.\<close>

definition unsubscribe :: "string \<Rightarrow> string \<Rightarrow> hub \<Rightarrow> hub" where
  "unsubscribe groupId connectionId h =
     (case js_get (hub_listenersByGroup h) groupId of
        None \<Rightarrow> h
      | Some current \<Rightarrow>
          let rest = js_delete connectionId current in
          if rest = []
          then h\<lparr>hub_listenersByGroup := js_delete groupId (hub_listenersByGroup h)\<rparr>
          else h\<lparr>hub_listenersByGroup := js_set groupId rest (hub_listenersByGroup h)\<rparr>)"

definition dispatch :: "string \<Rightarrow> group_event \<Rightarrow> hub \<Rightarrow> hub" where
  "dispatch groupId event h =
     fold (\<lambda>ref h. updateListener ref (offer event) h) (listenersOf groupId h) h"

text \<open>
  \<open>subscribe\<close> up to the read of the store: the new listener's address, and the hub with it
  registered and the \<open>ready\<close> frame sent.
\<close>

definition subscribeBegin :: "string \<Rightarrow> string \<Rightarrow> int \<Rightarrow> int \<Rightarrow> hub \<Rightarrow> nat \<times> hub" where
  "subscribeBegin groupId connectionId afterSequence serverTime h =
     (let ref = length (hub_heap h);
          h1 = h\<lparr>hub_heap := hub_heap h @ [newListener groupId afterSequence]\<rparr>;
          h2 = register groupId connectionId ref h1
      in (ref, updateListener ref (sendFrame (readyFrame connectionId afterSequence serverTime)) h2))"

definition sendReplayed :: "group_event \<Rightarrow> listener \<Rightarrow> listener" where
  "sendReplayed event l = (sendFrame (groupEventFrame event) l)\<lparr>li_sentThrough := ev_sequence event\<rparr>"

definition flushBuffered :: "group_event \<Rightarrow> listener \<Rightarrow> listener" where
  "flushBuffered event l =
     (if ev_sequence event > li_sentThrough l
      then sendFrame (groupEventFrame event) (l\<lparr>li_sentThrough := ev_sequence event\<rparr>) else l)"

definition endReplay :: "listener \<Rightarrow> listener" where
  "endReplay l = l\<lparr>li_replaying := False, li_buffered := []\<rparr>"

text \<open>The rest of \<open>subscribe\<close>, on the listener: the read succeeded.\<close>

definition answerReplay :: "realtime_replay \<Rightarrow> listener \<Rightarrow> listener" where
  "answerReplay replay l =
     endReplay
       (case decideReplay (li_afterSequence l) (rp_earliestSequence replay) of
          Resync earliest \<Rightarrow> sendFrame (resyncFrame (li_groupId l) (li_afterSequence l) earliest) l
        | Replay \<Rightarrow> fold flushBuffered (li_buffered l) (fold sendReplayed (rp_events replay) l))"

definition subscribeFinish :: "nat \<Rightarrow> string \<Rightarrow> rt_error + realtime_replay \<Rightarrow> hub \<Rightarrow> hub" where
  "subscribeFinish ref connectionId result h =
     (case result of
        Inr replay \<Rightarrow> updateListener ref (answerReplay replay) h
      | Inl e \<Rightarrow> updateListener ref endReplay
                  (unsubscribe (li_groupId (hub_heap h ! ref)) connectionId h))"

section \<open>Announcements of other processes\<close>

record notification =
  no_groupId :: string
  no_sequence :: int
  no_originId :: string

definition accepted :: "string \<Rightarrow> notification \<Rightarrow> bool" where
  "accepted ownOriginId n \<longleftrightarrow> no_originId n \<noteq> ownOriginId"

text \<open>\<open>drainRemote\<close> up to the read of the store: the cursor to read from, if there is anything to read.\<close>

definition drainBegin :: "string \<Rightarrow> int \<Rightarrow> hub \<Rightarrow> int option" where
  "drainBegin groupId announcedSequence h =
     (case listenersOf groupId h of
        [] \<Rightarrow> None
      | r # rs \<Rightarrow>
          let cursor = fold (\<lambda>ref c. min c (li_sentThrough (hub_heap h ! ref))) rs
                         (li_sentThrough (hub_heap h ! r)) in
          if announcedSequence \<le> cursor then None else Some cursor)"

definition resyncListener :: "string \<Rightarrow> int \<Rightarrow> int \<Rightarrow> listener \<Rightarrow> listener" where
  "resyncListener groupId announcedSequence earliest l =
     (if li_sentThrough l \<ge> earliest - 1 then l
      else skipTo announcedSequence (sendFrame (resyncFrame groupId (li_sentThrough l) earliest) l))"

definition drainFinish :: "string \<Rightarrow> int \<Rightarrow> int \<Rightarrow> realtime_replay \<Rightarrow> hub \<Rightarrow> hub" where
  "drainFinish groupId announcedSequence cursor replay h =
     (let current = listenersOf groupId h;
          h1 = (case decideReplay cursor (rp_earliestSequence replay) of
                  Replay \<Rightarrow> h
                | Resync earliest \<Rightarrow>
                    fold (\<lambda>ref h. updateListener ref (resyncListener groupId announcedSequence earliest) h) current h)
      in fold (\<lambda>event h. fold (\<lambda>ref h. updateListener ref (offer event) h) current h) (rp_events replay) h1)"

section \<open>The system\<close>

text \<open>
  One hub and the store it shares with other processes. \<open>sy_undispatched\<close> are events this process
  has appended and not yet dispatched, \<open>sy_replays\<close> the subscriptions that wait for the store, with
  the answer once it has been read, and \<open>sy_drains\<close> the announcements being answered, one per group.
\<close>

record 's system =
  sy_store :: 's
  sy_hub :: hub
  sy_undispatched :: "(string \<times> group_event) list"
  sy_replays :: "(nat \<times> string \<times> (rt_error + realtime_replay) option) list"
  sy_drains :: "(string \<times> int \<times> int \<times> (rt_error + realtime_replay) option) list"

inductive hub_step ::
  "(int \<Rightarrow> group_event_draft \<Rightarrow> ('s, rt_error, group_event) sm) \<Rightarrow>
   (string \<Rightarrow> int \<Rightarrow> int \<Rightarrow> ('s, rt_error, realtime_replay) sm) \<Rightarrow> (int \<Rightarrow> group_event_draft \<Rightarrow> bool) \<Rightarrow> int \<Rightarrow>
   's system \<Rightarrow> 's system \<Rightarrow> bool" for put replay accepts limit where
  publish_append: "accepts now d \<Longrightarrow> put now d (sy_store s) = (Inr e, st) \<Longrightarrow>
     hub_step put replay accepts limit s
       (s\<lparr>sy_store := st, sy_undispatched := sy_undispatched s @ [(dr_groupId d, e)]\<rparr>)"
| publish_dispatch: "sy_undispatched s = xs @ (g, e) # ys \<Longrightarrow>
     hub_step put replay accepts limit s (s\<lparr>sy_hub := dispatch g e (sy_hub s), sy_undispatched := xs @ ys\<rparr>)"
| sibling_append: "accepts now d \<Longrightarrow> put now d (sy_store s) = (Inr e, st) \<Longrightarrow>
     hub_step put replay accepts limit s (s\<lparr>sy_store := st\<rparr>)"
| subscribe_begin: "subscribeBegin g c after time (sy_hub s) = (ref, h) \<Longrightarrow>
     hub_step put replay accepts limit s (s\<lparr>sy_hub := h, sy_replays := sy_replays s @ [(ref, c, None)]\<rparr>)"
| subscribe_read: "sy_replays s = xs @ (ref, c, None) # ys \<Longrightarrow>
     replay (li_groupId (hub_heap (sy_hub s) ! ref)) (li_afterSequence (hub_heap (sy_hub s) ! ref)) limit
       (sy_store s) = (r, st) \<Longrightarrow>
     hub_step put replay accepts limit s (s\<lparr>sy_store := st, sy_replays := xs @ (ref, c, Some r) # ys\<rparr>)"
| subscribe_finish: "sy_replays s = xs @ (ref, c, Some r) # ys \<Longrightarrow>
     hub_step put replay accepts limit s (s\<lparr>sy_hub := subscribeFinish ref c r (sy_hub s), sy_replays := xs @ ys\<rparr>)"
| unsubscribe: "hub_step put replay accepts limit s (s\<lparr>sy_hub := unsubscribe g c (sy_hub s)\<rparr>)"
| drain_begin: "g \<notin> fst ` set (sy_drains s) \<Longrightarrow> drainBegin g n (sy_hub s) = Some cursor \<Longrightarrow>
     hub_step put replay accepts limit s (s\<lparr>sy_drains := sy_drains s @ [(g, n, cursor, None)]\<rparr>)"
| drain_read: "sy_drains s = xs @ (g, n, cursor, None) # ys \<Longrightarrow>
     replay g cursor limit (sy_store s) = (r, st) \<Longrightarrow>
     hub_step put replay accepts limit s (s\<lparr>sy_store := st, sy_drains := xs @ (g, n, cursor, Some r) # ys\<rparr>)"
| drain_finish: "sy_drains s = xs @ (g, n, cursor, Some (Inr r)) # ys \<Longrightarrow>
     hub_step put replay accepts limit s
       (s\<lparr>sy_hub := drainFinish g n cursor r (sy_hub s), sy_drains := xs @ ys\<rparr>)"
| drain_fails: "sy_drains s = xs @ (g, n, cursor, Some (Inl e)) # ys \<Longrightarrow>
     hub_step put replay accepts limit s (s\<lparr>sy_drains := xs @ ys\<rparr>)"

inductive_cases hub_stepE: "hub_step put replay accepts limit s t"

definition newSystem :: "'s \<Rightarrow> 's system" where
  "newSystem st = \<lparr>sy_store = st, sy_hub = emptyHub, sy_undispatched = [], sy_replays = [], sy_drains = []\<rparr>"

end
