(* ===== verification/Hub_Correct.thy ===== *)
theory Hub_Correct
  imports Realtime_Hub Event_Store
begin

text \<open>
  What a socket is sent. Whatever the interleaving of subscriptions, local and foreign publications
  and announcements, the events a socket receives ascend; but an event of another process can be lost
  to a connected socket.
\<close>

section \<open>The events a socket was sent\<close>

fun frameSequences :: "server_frame list \<Rightarrow> int list" where
  "frameSequences [] = []"
| "frameSequences (EventFrame e # fs) = ev_sequence e # frameSequences fs"
| "frameSequences (ReadyFrame _ _ _ _ # fs) = frameSequences fs"
| "frameSequences (ResyncFrame _ _ _ _ # fs) = frameSequences fs"

lemma frameSequences_append [simp]: "frameSequences (fs @ gs) = frameSequences fs @ frameSequences gs"
  by (induction fs rule: frameSequences.induct) auto

definition sent :: "listener \<Rightarrow> int list" where
  "sent l = frameSequences (li_frames l)"

lemma sent_send [simp]:
  "sent (sendFrame (readyFrame c a t) l) = sent l"
  "sent (sendFrame (resyncFrame g a e) l) = sent l"
  "sent (sendFrame (groupEventFrame ev) l) = sent l @ [ev_sequence ev]"
  by (simp_all add: sent_def sendFrame_def readyFrame_def resyncFrame_def groupEventFrame_def)

lemma sent_fields [simp]:
  "sent (l\<lparr>li_sentThrough := n\<rparr>) = sent l" "sent (l\<lparr>li_replaying := b\<rparr>) = sent l"
  "sent (l\<lparr>li_buffered := es\<rparr>) = sent l" "sent (l\<lparr>li_replaying := b, li_buffered := es\<rparr>) = sent l"
  by (simp_all add: sent_def)

lemma sent_new [simp]: "sent (newListener g after) = []"
  by (simp add: sent_def newListener_def)

lemma newListener_fields [simp]:
  "li_groupId (newListener g after) = g" "li_afterSequence (newListener g after) = after"
  "li_replaying (newListener g after)" "li_buffered (newListener g after) = []"
  "li_sentThrough (newListener g after) = after"
  by (simp_all add: newListener_def)

lemma sendFrame_fields [simp]:
  "li_groupId (sendFrame f l) = li_groupId l" "li_afterSequence (sendFrame f l) = li_afterSequence l"
  "li_replaying (sendFrame f l) = li_replaying l" "li_buffered (sendFrame f l) = li_buffered l"
  "li_sentThrough (sendFrame f l) = li_sentThrough l"
  by (simp_all add: sendFrame_def)

section \<open>Updating the listeners of a group\<close>

lemma updateListener_map [simp]: "hub_listenersByGroup (updateListener ref f h) = hub_listenersByGroup h"
  by (simp add: updateListener_def)

lemma fold_update_map [simp]:
  "hub_listenersByGroup (fold (\<lambda>ref h. updateListener ref f h) refs h) = hub_listenersByGroup h"
  by (induction refs arbitrary: h) auto

lemma update_related:
  assumes "\<And>l. R l l" and "\<And>l. R l (f l)"
  shows "list_all2 R (hub_heap h) (hub_heap (updateListener ref f h))"
proof -
  have "R (hub_heap h ! i) ((hub_heap h)[ref := f (hub_heap h ! ref)] ! i)" if "i < length (hub_heap h)" for i
    using that assms by (cases "i = ref") auto
  then show ?thesis by (simp add: updateListener_def list_all2_conv_all_nth)
qed

lemma fold_related:
  assumes "\<And>x h. list_all2 R (hub_heap h) (hub_heap (f x h))"
    and "\<And>l. R l l" and "\<And>l m n. R l m \<Longrightarrow> R m n \<Longrightarrow> R l n"
  shows "list_all2 R (hub_heap h) (hub_heap (fold f xs h))"
proof (induction xs arbitrary: h)
  case Nil
  then show ?case using assms(2) by (simp add: list_all2_refl)
next
  case (Cons x xs)
  show ?case using list_all2_trans[OF assms(3) assms(1)[of h x] Cons.IH] by simp
qed

section \<open>Ascending delivery\<close>

abbreviation ascending :: "int list \<Rightarrow> bool" where
  "ascending xs \<equiv> sorted_wrt (<) xs"

definition listener_ok :: "listener \<Rightarrow> bool" where
  "listener_ok l \<longleftrightarrow> li_afterSequence l \<le> li_sentThrough l \<and>
     (if li_replaying l then sent l = []
      else ascending (li_afterSequence l # sent l) \<and> (\<forall>n \<in> set (sent l). n \<le> li_sentThrough l))"

text \<open>How a listener changes while it stays in its phase.\<close>

definition listener_evolves :: "listener \<Rightarrow> listener \<Rightarrow> bool" where
  "listener_evolves l l' \<longleftrightarrow> li_groupId l' = li_groupId l \<and> li_afterSequence l' = li_afterSequence l \<and>
     li_replaying l' = li_replaying l \<and> (listener_ok l \<longrightarrow> listener_ok l')"

lemma listener_evolves_refl: "listener_evolves l l"
  by (simp add: listener_evolves_def)

lemma listener_evolves_trans: "listener_evolves l m \<Longrightarrow> listener_evolves m n \<Longrightarrow> listener_evolves l n"
  by (simp add: listener_evolves_def)

lemma offer_evolves: "listener_evolves l (offer e l)"
  by (auto simp: offer_def listener_evolves_def listener_ok_def sorted_wrt_append)

lemma resync_evolves: "listener_evolves l (resyncListener g n e l)"
  by (auto simp: resyncListener_def skipTo_def listener_evolves_def listener_ok_def)

lemmas evolves_fold = fold_related[of listener_evolves, OF _ listener_evolves_refl listener_evolves_trans]

lemma dispatch_evolves: "list_all2 listener_evolves (hub_heap h) (hub_heap (dispatch g e h))"
  unfolding dispatch_def
  by (rule evolves_fold) (auto intro: update_related listener_evolves_refl offer_evolves)

lemma offers_evolve:
  "list_all2 listener_evolves (hub_heap h)
    (hub_heap (fold (\<lambda>event h. fold (\<lambda>ref h. updateListener ref (offer event) h) refs h) es h))"
  by (rule evolves_fold, rule evolves_fold) (auto intro: update_related listener_evolves_refl offer_evolves)

lemma drain_evolves: "list_all2 listener_evolves (hub_heap h) (hub_heap (drainFinish g n c r h))"
proof -
  have "list_all2 listener_evolves (hub_heap h) (hub_heap (fold (\<lambda>ref h. updateListener ref
      (resyncListener g n e) h) refs h))" for e refs
    by (rule evolves_fold) (auto intro: update_related listener_evolves_refl resync_evolves)
  then show ?thesis
    unfolding drainFinish_def Let_def
    by (auto split: replay_decision.split intro: offers_evolve
        list_all2_trans[OF listener_evolves_trans _ offers_evolve])
qed

text \<open>Answering a subscription: the replayed events, then the buffered ones above them.\<close>

lemma replayed_fields [simp]:
  "li_groupId (fold sendReplayed es l) = li_groupId l"
  "li_afterSequence (fold sendReplayed es l) = li_afterSequence l"
  "li_buffered (fold sendReplayed es l) = li_buffered l"
  "sent (fold sendReplayed es l) = sent l @ map ev_sequence es"
  "li_sentThrough (fold sendReplayed es l) = (if es = [] then li_sentThrough l else ev_sequence (last es))"
  by (induction es arbitrary: l) (auto simp: sendReplayed_def)

definition flushed_ok :: "int \<Rightarrow> listener \<Rightarrow> bool" where
  "flushed_ok after l \<longleftrightarrow> li_afterSequence l = after \<and> after \<le> li_sentThrough l \<and>
     ascending (after # sent l) \<and> (\<forall>n \<in> set (sent l). n \<le> li_sentThrough l)"

lemma flushBuffered_ok: "flushed_ok after l \<Longrightarrow> flushed_ok after (flushBuffered e l)"
  by (auto simp: flushBuffered_def flushed_ok_def sorted_wrt_append)

lemma flush_ok: "flushed_ok after l \<Longrightarrow> flushed_ok after (fold flushBuffered es l)"
  by (induction es arbitrary: l) (auto intro: flushBuffered_ok)

lemma endReplay_ok: "flushed_ok (li_afterSequence l) l \<Longrightarrow> listener_ok (endReplay l)"
  by (simp add: flushed_ok_def listener_ok_def endReplay_def)

lemma ascending_last: "ascending xs \<Longrightarrow> x \<in> set xs \<Longrightarrow> x \<le> last xs"
  by (induction xs) (auto intro: less_imp_le)

definition replay_ok :: "int \<Rightarrow> realtime_replay \<Rightarrow> bool" where
  "replay_ok after r \<longleftrightarrow> ascending (after # map ev_sequence (rp_events r))"

lemma answerReplay_ok:
  assumes "listener_ok l" and "li_replaying l" and "replay_ok (li_afterSequence l) r"
  shows "listener_ok (answerReplay r l)"
proof -
  let ?l = "fold sendReplayed (rp_events r) l" and ?ns = "map ev_sequence (rp_events r)"
  have "\<forall>n \<in> set ?ns. n \<le> li_sentThrough ?l" and "li_afterSequence l \<le> li_sentThrough ?l"
    using assms ascending_last[of ?ns]
    by (auto simp: listener_ok_def replay_ok_def last_map intro: less_imp_le)
  then have "flushed_ok (li_afterSequence l) ?l"
    using assms by (simp add: flushed_ok_def listener_ok_def replay_ok_def)
  then have "flushed_ok (li_afterSequence l) (fold flushBuffered (li_buffered l) ?l)" by (rule flush_ok)
  then have "flushed_ok (li_afterSequence (fold flushBuffered (li_buffered l) ?l))
      (fold flushBuffered (li_buffered l) ?l)" by (simp add: flushed_ok_def)
  moreover have "flushed_ok (li_afterSequence l) (sendFrame (resyncFrame g n e) l)" for g n e
    using assms(1,2) by (simp add: flushed_ok_def listener_ok_def)
  ultimately show ?thesis
    by (auto simp: answerReplay_def split: replay_decision.split intro!: endReplay_ok)
qed

lemma endReplay_unanswered: "listener_ok l \<Longrightarrow> li_replaying l \<Longrightarrow> listener_ok (endReplay l)"
  by (rule endReplay_ok) (simp add: listener_ok_def flushed_ok_def)

section \<open>The invariant of the system\<close>

type_synonym pending_replay = "nat \<times> string \<times> (rt_error + realtime_replay) option"

definition replays_ok :: "hub \<Rightarrow> pending_replay list \<Rightarrow> bool" where
  "replays_ok h ps \<longleftrightarrow> distinct (map fst ps) \<and>
     (\<forall>p \<in> set ps. fst p < length (hub_heap h) \<and> li_replaying (hub_heap h ! fst p) \<and>
        (\<forall>r. snd (snd p) = Some (Inr r) \<longrightarrow> replay_ok (li_afterSequence (hub_heap h ! fst p)) r))"

definition hub_ok :: "hub \<Rightarrow> pending_replay list \<Rightarrow> bool" where
  "hub_ok h ps \<longleftrightarrow> (\<forall>l \<in> set (hub_heap h). listener_ok l) \<and> replays_ok h ps"

lemma hub_ok_evolves:
  assumes "hub_ok h ps" and "list_all2 listener_evolves (hub_heap h) (hub_heap h')"
  shows "hub_ok h' ps"
proof -
  have len: "length (hub_heap h') = length (hub_heap h)"
    and evo: "\<And>i. i < length (hub_heap h) \<Longrightarrow> listener_evolves (hub_heap h ! i) (hub_heap h' ! i)"
    using assms(2) by (auto simp: list_all2_conv_all_nth)
  have "\<forall>l \<in> set (hub_heap h'). listener_ok l"
    using assms(1) len evo by (auto simp: hub_ok_def listener_evolves_def all_set_conv_all_nth)
  moreover have "replays_ok h' ps"
    using assms(1) len evo unfolding hub_ok_def replays_ok_def by (fastforce simp: listener_evolves_def)
  ultimately show ?thesis by (simp add: hub_ok_def)
qed

lemma hub_ok_same_heap: "hub_ok h ps \<Longrightarrow> hub_heap h' = hub_heap h \<Longrightarrow> hub_ok h' ps"
  by (simp add: hub_ok_def replays_ok_def)

lemma unsubscribe_heap [simp]: "hub_heap (unsubscribe g c h) = hub_heap h"
  by (simp add: unsubscribe_def Let_def split: option.split)

lemma subscribeBegin_heap:
  "subscribeBegin g c after time h = (ref, h') \<Longrightarrow>
    ref = length (hub_heap h) \<and> hub_heap h' =
      hub_heap h @ [sendFrame (readyFrame c after time) (newListener g after)]"
  by (auto simp: subscribeBegin_def updateListener_def register_def Let_def split: option.split)

lemma hub_ok_subscribe:
  assumes "hub_ok h ps" and "subscribeBegin g c after time h = (ref, h')"
  shows "hub_ok h' (ps @ [(ref, c, None)])"
proof -
  have "listener_ok (sendFrame (readyFrame c after time) (newListener g after))"
    by (simp add: listener_ok_def)
  then show ?thesis
    using assms(1) subscribeBegin_heap[OF assms(2)]
    by (fastforce simp: hub_ok_def replays_ok_def nth_append)
qed

lemma hub_ok_finish:
  assumes "hub_ok h (xs @ (ref, c, Some r) # ys)"
  shows "hub_ok (subscribeFinish ref c r h) (xs @ ys)"
proof -
  have ref: "ref < length (hub_heap h)" "li_replaying (hub_heap h ! ref)"
    "\<And>p. r = Inr p \<Longrightarrow> replay_ok (li_afterSequence (hub_heap h ! ref)) p"
    and ok: "\<And>l. l \<in> set (hub_heap h) \<Longrightarrow> listener_ok l"
    and new: "ref \<notin> fst ` set (xs @ ys)"
    using assms by (auto simp: hub_ok_def replays_ok_def)
  obtain l where l: "hub_heap (subscribeFinish ref c r h) = (hub_heap h)[ref := l]" "listener_ok l"
  proof (cases r)
    case (Inl e)
    with ref ok show ?thesis
      by (intro that[of "endReplay (hub_heap h ! ref)"])
        (auto simp: subscribeFinish_def updateListener_def intro!: endReplay_unanswered)
  next
    case (Inr p)
    with ref ok show ?thesis
      by (intro that[of "answerReplay p (hub_heap h ! ref)"])
        (auto simp: subscribeFinish_def updateListener_def intro!: answerReplay_ok)
  qed
  have "\<forall>m \<in> set (hub_heap (subscribeFinish ref c r h)). listener_ok m"
    using l ok set_update_subset_insert[of "hub_heap h" ref l] by auto
  moreover have "replays_ok (subscribeFinish ref c r h) (xs @ ys)"
  proof -
    have "hub_heap (subscribeFinish ref c r h) ! fst p = hub_heap h ! fst p" if "p \<in> set (xs @ ys)" for p
      using that new l(1) by (metis imageI nth_list_update_neq)
    moreover have "length (hub_heap (subscribeFinish ref c r h)) = length (hub_heap h)" by (simp add: l(1))
    ultimately show ?thesis using assms unfolding hub_ok_def replays_ok_def by auto
  qed
  ultimately show ?thesis by (simp add: hub_ok_def)
qed

context event_store
begin

lemma retained_ascending: "ok s \<Longrightarrow> ascending (map ev_sequence (retained s g))"
  by (simp only: numbers_law sorted_wrt_map of_nat_less_iff) (rule sorted_wrt_upt)

lemma replay_ascending:
  assumes "ok s" and "replay g after limit s = (Inr r, t)"
  shows "replay_ok after r"
proof (cases "requireReplayLimit limit")
  case (Inl e)
  then show ?thesis using assms(2) by (simp add: replay_refuses)
next
  case (Inr n)
  from replay_law[OF assms(1) this, of g after] assms(2)
  have r: "rp_events r = take n (filter (\<lambda>e. after < ev_sequence e) (retained s g))" by auto
  have "ascending (map ev_sequence (filter (\<lambda>e. after < ev_sequence e) (retained s g)))"
    using retained_ascending[OF assms(1), of g] by (simp add: sorted_wrt_map sorted_wrt_filter)
  then show ?thesis
    using r by (auto simp: replay_ok_def sorted_wrt_map sorted_wrt_take dest: in_set_takeD)
qed

lemma replay_keeps_store: "ok s \<Longrightarrow> snd (replay g after limit s) = s"
proof (cases "requireReplayLimit limit")
  case (Inl e)
  then show ?thesis by (simp add: replay_refuses)
next
  case (Inr n)
  assume "ok s"
  from replay_law[OF this Inr, of g after] show ?thesis by auto
qed

definition system_ok :: "'s system \<Rightarrow> bool" where
  "system_ok s \<longleftrightarrow> ok (sy_store s) \<and> hub_ok (sy_hub s) (sy_replays s)"

lemma hub_ok_read:
  assumes "ok st" and "hub_ok h (xs @ (ref, c, None) # ys)"
    and "replay (li_groupId (hub_heap h ! ref)) (li_afterSequence (hub_heap h ! ref)) limit st = (r, st')"
  shows "st' = st \<and> hub_ok h (xs @ (ref, c, Some r) # ys)"
proof -
  have "replay_ok (li_afterSequence (hub_heap h ! ref)) p" if "r = Inr p" for p
    using replay_ascending[OF assms(1)] assms(3) that by auto
  moreover have "st' = st" using replay_keeps_store[OF assms(1)] assms(3) by (metis snd_conv)
  ultimately show ?thesis using assms(2) by (auto simp: hub_ok_def replays_ok_def)
qed

lemma system_ok_step:
  assumes "system_ok s" and "hub_step put replay accepts limit s t"
  shows "system_ok t"
  using assms(2)
proof (cases rule: hub_step.cases)
  case (publish_append now d e st)
  with assms(1) put_law[of "sy_store s" now d] show ?thesis by (auto simp: system_ok_def)
next
  case (sibling_append now d e st)
  with assms(1) put_law[of "sy_store s" now d] show ?thesis by (auto simp: system_ok_def)
next
  case (publish_dispatch xs g e ys)
  with assms(1) show ?thesis by (auto simp: system_ok_def intro: hub_ok_evolves dispatch_evolves)
next
  case (subscribe_begin g c after time ref h)
  with assms(1) show ?thesis by (auto simp: system_ok_def intro: hub_ok_subscribe)
next
  case (subscribe_read xs ref c ys r st)
  with assms(1) hub_ok_read show ?thesis by (fastforce simp: system_ok_def)
next
  case (subscribe_finish xs ref c r ys)
  with assms(1) show ?thesis by (auto simp: system_ok_def intro: hub_ok_finish)
next
  case (unsubscribe g c)
  with assms(1) show ?thesis by (auto simp: system_ok_def intro: hub_ok_same_heap)
next
  case (drain_begin g n cursor)
  with assms(1) show ?thesis by (simp add: system_ok_def)
next
  case (drain_read xs g n cursor ys r st)
  with assms(1) replay_keeps_store[of "sy_store s" g cursor limit] show ?thesis by (simp add: system_ok_def)
next
  case (drain_finish xs g n cursor r ys)
  with assms(1) show ?thesis by (auto simp: system_ok_def intro: hub_ok_evolves drain_evolves)
next
  case (drain_fails xs g n cursor e ys)
  with assms(1) show ?thesis by (simp add: system_ok_def)
qed

lemma newSystem_ok: "ok st \<Longrightarrow> system_ok (newSystem st)"
  by (simp add: system_ok_def newSystem_def hub_ok_def replays_ok_def emptyHub_def)

end

sublocale event_store \<subseteq> delivery: invariant_system
  "\<lambda>s. \<exists>st. ok st \<and> s = newSystem st" "hub_step put replay accepts limit" system_ok for limit
  by unfold_locales (auto intro: newSystem_ok system_ok_step)

context event_store
begin

lemma delivery_ascends:
  assumes "ok st" and "reaches (hub_step put replay accepts limit) (newSystem st) s"
    and "l \<in> set (hub_heap (sy_hub s))"
  shows "ascending (li_afterSequence l # sent l)"
proof -
  have "system_ok s" using assms(1) by (intro delivery.reachable_inv[OF _ assms(2)]) blast
  with assms(3) show ?thesis by (auto simp: system_ok_def hub_ok_def listener_ok_def split: if_splits)
qed

end

section \<open>Deliveries are never taken back\<close>

definition sent_grows :: "listener \<Rightarrow> listener \<Rightarrow> bool" where
  "sent_grows l l' \<longleftrightarrow> (\<exists>ns. sent l' = sent l @ ns)"

lemma sent_grows_refl [simp]: "sent_grows l l"
  by (simp add: sent_grows_def)

lemma sent_grows_trans: "sent_grows l m \<Longrightarrow> sent_grows m n \<Longrightarrow> sent_grows l n"
  by (auto simp: sent_grows_def)

lemmas grows_fold = fold_related[of sent_grows, OF _ sent_grows_refl sent_grows_trans]

lemma offer_grows: "sent_grows l (offer e l)"
  by (simp add: sent_grows_def offer_def)

lemma resync_grows: "sent_grows l (resyncListener g n e l)"
  by (simp add: sent_grows_def resyncListener_def skipTo_def)

lemma flush_grows: "sent_grows l (fold flushBuffered es l)"
proof (induction es arbitrary: l)
  case Nil
  then show ?case by simp
next
  case (Cons e es)
  have "sent_grows l (flushBuffered e l)" by (simp add: sent_grows_def flushBuffered_def)
  from sent_grows_trans[OF this Cons.IH] show ?case by simp
qed

lemma endReplay_grows: "sent_grows l (endReplay l)"
  by (simp add: sent_grows_def endReplay_def)

lemma answerReplay_grows: "sent_grows l (answerReplay r l)"
proof -
  have "sent_grows l (fold sendReplayed (rp_events r) l)" by (simp add: sent_grows_def)
  then have "sent_grows l (fold flushBuffered (li_buffered l) (fold sendReplayed (rp_events r) l))"
    by (rule sent_grows_trans[OF _ flush_grows])
  moreover have "sent_grows l (sendFrame (resyncFrame g n e) l)" for g n e by (simp add: sent_grows_def)
  ultimately show ?thesis
    unfolding answerReplay_def
    by (auto split: replay_decision.split intro: sent_grows_trans[OF _ endReplay_grows])
qed

lemma update_grows:
  "(\<And>l. sent_grows l (f l)) \<Longrightarrow> list_all2 sent_grows (hub_heap h) (hub_heap (updateListener ref f h))"
  by (rule update_related) auto

lemma offers_grow:
  "list_all2 sent_grows (hub_heap h) (hub_heap (fold (\<lambda>ref h. updateListener ref (offer e) h) refs h))"
  by (rule grows_fold, rule update_grows, rule offer_grows)

lemma drain_grows: "list_all2 sent_grows (hub_heap h) (hub_heap (drainFinish g n c r h))"
proof -
  have resync: "list_all2 sent_grows (hub_heap h) (hub_heap (fold (\<lambda>ref h. updateListener ref
      (resyncListener g n e) h) refs h))" for e refs
    by (rule grows_fold, rule update_grows, rule resync_grows)
  have offered: "list_all2 sent_grows (hub_heap h) (hub_heap (fold (\<lambda>event h.
      fold (\<lambda>ref h. updateListener ref (offer event) h) refs h) es h))" for h refs es
    by (rule grows_fold, rule offers_grow)
  show ?thesis
  proof (cases "decideReplay c (rp_earliestSequence r)")
    case Replay
    then show ?thesis by (simp add: drainFinish_def offered)
  next
    case (Resync e)
    have "list_all2 sent_grows (hub_heap h) (hub_heap (fold (\<lambda>event h. fold (\<lambda>ref h. updateListener ref
        (offer event) h) refs h) es (fold (\<lambda>ref h. updateListener ref (resyncListener g n e) h) refs h)))" for refs es
      by (rule list_all2_trans[OF _ resync offered]) (rule sent_grows_trans)
    then show ?thesis by (simp add: drainFinish_def Resync Let_def)
  qed
qed

lemma finish_grows: "list_all2 sent_grows (hub_heap h) (hub_heap (subscribeFinish ref c r h))"
  using update_grows[OF endReplay_grows, of "unsubscribe (li_groupId (hub_heap h ! ref)) c h" ref]
  by (auto simp: subscribeFinish_def split: sum.split intro: update_grows answerReplay_grows)

definition heap_grows :: "listener list \<Rightarrow> listener list \<Rightarrow> bool" where
  "heap_grows xs ys \<longleftrightarrow> length xs \<le> length ys \<and> (\<forall>i < length xs. sent_grows (xs ! i) (ys ! i))"

lemma heap_grows_related: "list_all2 sent_grows xs ys \<Longrightarrow> heap_grows xs ys"
  by (simp add: heap_grows_def list_all2_conv_all_nth)

lemma heap_grows_refl [simp]: "heap_grows xs xs"
  by (simp add: heap_grows_def)

lemma heap_grows_snoc [simp]: "heap_grows xs (xs @ ys)"
  by (simp add: heap_grows_def nth_append)

lemma heap_grows_trans: "heap_grows xs ys \<Longrightarrow> heap_grows ys zs \<Longrightarrow> heap_grows xs zs"
  by (auto simp: heap_grows_def intro: sent_grows_trans)

lemma step_grows:
  assumes "hub_step put replay accepts limit s t"
  shows "heap_grows (hub_heap (sy_hub s)) (hub_heap (sy_hub t))"
  using assms
proof (cases rule: hub_step.cases)
  case (publish_dispatch xs g e ys)
  then show ?thesis by (simp add: dispatch_def heap_grows_related offers_grow)
next
  case (subscribe_begin g c after time ref h)
  then show ?thesis using subscribeBegin_heap by fastforce
next
  case (subscribe_finish xs ref c r ys)
  then show ?thesis by (simp add: heap_grows_related finish_grows)
next
  case (drain_finish xs g n cursor r ys)
  then show ?thesis by (simp add: heap_grows_related drain_grows)
qed simp_all

lemma reaches_grows:
  "reaches (hub_step put replay accepts limit) s t \<Longrightarrow> heap_grows (hub_heap (sy_hub s)) (hub_heap (sy_hub t))"
  by (induction rule: reaches.induct) (auto intro: heap_grows_trans step_grows)

section \<open>A run with a publication of another process\<close>

definition demoListener :: listener where
  "demoListener = endReplay (sendFrame (readyFrame ''c'' 0 0) (newListener ''g'' 0))"

lemma demo_subscribed:
  defines "step \<equiv> hub_step (durableAppend demoEventEnv) (durableReplay demoEventEnv) (storable demoEventEnv demoEventDb) 512"
  shows "reaches step (newSystem demoEventDb)
    \<lparr>sy_store = demoEventDb, sy_hub = \<lparr>hub_heap = [demoListener], hub_listenersByGroup = [(''g'', [(''c'', 0)])]\<rparr>,
     sy_undispatched = [], sy_replays = [], sy_drains = []\<rparr>"
proof -
  let ?l = "sendFrame (readyFrame ''c'' 0 0) (newListener ''g'' 0)"
  let ?h = "\<lparr>hub_heap = [?l], hub_listenersByGroup = [(''g'', [(''c'', 0)])]\<rparr>"
  let ?s = "\<lambda>rs h. \<lparr>sy_store = demoEventDb, sy_hub = h, sy_undispatched = [], sy_replays = rs, sy_drains = []\<rparr>"
  have opened: "subscribeBegin ''g'' ''c'' 0 0 emptyHub = (0, ?h)"
    by (simp add: subscribeBegin_def emptyHub_def register_def updateListener_def)
  have limit: "requireReplayLimit 512 = Inr 512"
    by (simp add: requireReplayLimit_def defaultRealtimeReplayLimit_def)
  have ok: "durOk demoEventEnv demoEventDb" "durRetained demoEventEnv demoEventDb ''g'' = []"
    "durIssued demoEventDb ''g'' = 0"
    using freshLog_facts[OF demoEventDb_fresh demoEventEnv_ok] by (simp_all add: demoEventEnv_def)
  have start: "durOk demoEventEnv demoEventDb \<and> sameParents demoEventDb demoEventDb" using ok(1) by simp
  from dur.replay_law[OF start limit, of "''g''" 0] obtain e where read:
    "durableReplay demoEventEnv ''g'' 0 512 demoEventDb =
      (Inr \<lparr>rp_events = [], rp_earliestSequence = e\<rparr>, demoEventDb)" "decideReplay 0 e = Replay"
    by (auto simp: ok first_sequence_def decideReplay_def)
  let ?r = "\<lparr>rp_events = [], rp_earliestSequence = e\<rparr>"
  have one: "step (newSystem demoEventDb) (?s [(0, ''c'', None)] ?h)"
    using hub_step.subscribe_begin[of "''g''" "''c''" 0 0 "newSystem demoEventDb" 0 ?h] opened
    by (simp add: step_def newSystem_def)
  have two: "step (?s [(0, ''c'', None)] ?h) (?s [(0, ''c'', Some (Inr ?r))] ?h)"
    using hub_step.subscribe_read[of "?s [(0, ''c'', None)] ?h" "[]" 0 "''c''" "[]"] read(1)
    by (simp add: step_def)
  have "subscribeFinish 0 ''c'' (Inr ?r) ?h = ?h\<lparr>hub_heap := [demoListener]\<rparr>"
    using read(2) by (simp add: subscribeFinish_def updateListener_def answerReplay_def demoListener_def)
  then have three: "step (?s [(0, ''c'', Some (Inr ?r))] ?h) (?s [] (?h\<lparr>hub_heap := [demoListener]\<rparr>))"
    using hub_step.subscribe_finish[of "?s [(0, ''c'', Some (Inr ?r))] ?h" "[]" 0 "''c''" "Inr ?r" "[]"]
    by (simp add: step_def)
  from reaches.reach_step[where step = step, OF reaches.reach_step[where step = step,
      OF reaches.reach_step[where step = step, OF reaches.reach_refl one] two] three]
  show ?thesis by simp
qed

lemma demo_accepts: "storable demoEventEnv demoEventDb now (demoDraft ''g'')" if "now \<in> {1, 2}"
  using that by (auto simp: storable_def foreignKeys_def encodes_def demoEventEnv_def buildGroupEvent_def demoEventDb_def
      demoDraft_def)

lemma demo_lost:
  defines "step \<equiv> hub_step (durableAppend demoEventEnv) (durableReplay demoEventEnv) (storable demoEventEnv demoEventDb) 512"
  obtains s l where "reaches step (newSystem demoEventDb) s"
    "sy_hub s = \<lparr>hub_heap = [l], hub_listenersByGroup = [(''g'', [(''c'', 0)])]\<rparr>"
    "sy_undispatched s = []" "sy_replays s = []" "sy_drains s = []"
    "sent l = [2]" "li_sentThrough l = 2" "li_afterSequence l = 0"
    "map ev_sequence (durRetained demoEventEnv (sy_store s) ''g'') = [1, 2]"
proof -
  let ?E = demoEventEnv and ?d = "demoDraft ''g''"
  let ?h = "\<lparr>hub_heap = [demoListener], hub_listenersByGroup = [(''g'', [(''c'', 0)])]\<rparr>"
  let ?s = "\<lambda>db us h. \<lparr>sy_store = db, sy_hub = h, sy_undispatched = us, sy_replays = [], sy_drains = []\<rparr>"
  have ok: "durOk ?E demoEventDb" "durRetained ?E demoEventDb ''g'' = []" "durIssued demoEventDb ''g'' = 0"
    and w: "ee_historyLimit ?E = 2" and g: "dr_groupId ?d = ''g''"
    using freshLog_facts[OF demoEventDb_fresh demoEventEnv_ok] by (simp_all add: demoEventEnv_def demoDraft_def)
  let ?e1 = "buildGroupEvent ?d 1 1" and ?e2 = "buildGroupEvent ?d 2 2"
  have start: "durOk ?E demoEventDb \<and> sameParents demoEventDb demoEventDb" using ok(1) by simp
  from dur.put_law[OF start demo_accepts[of 1]] obtain db1 where db1:
    "durableAppend ?E 1 ?d demoEventDb = (Inr ?e1, db1)" "durOk ?E db1 \<and> sameParents demoEventDb db1" "durIssued db1 ''g'' = 1"
    "durRetained ?E db1 ''g'' = [?e1]"
    by (auto simp: g ok(2,3) lastn_def w)
  from dur.put_law[OF db1(2) demo_accepts[of 2]] obtain db2 where db2:
    "durableAppend ?E 2 ?d db1 = (Inr ?e2, db2)" "durRetained ?E db2 ''g'' = [?e1, ?e2]"
    by (auto simp: g db1(3,4) lastn_def w)
  have one: "step (?s demoEventDb [] ?h) (?s db1 [] ?h)"
    using hub_step.sibling_append[where accepts = "storable ?E demoEventDb" and now = 1 and d = ?d
        and put = "durableAppend ?E" and s = "?s demoEventDb [] ?h"] db1(1) demo_accepts[of 1]
    by (simp add: step_def)
  have two: "step (?s db1 [] ?h) (?s db2 [(''g'', ?e2)] ?h)"
    using hub_step.publish_append[where accepts = "storable ?E demoEventDb" and now = 2 and d = ?d
        and put = "durableAppend ?E" and s = "?s db1 [] ?h"] db2(1) demo_accepts[of 2]
    by (simp add: step_def g)
  have three: "step (?s db2 [(''g'', ?e2)] ?h) (?s db2 [] (dispatch ''g'' ?e2 ?h))"
    using hub_step.publish_dispatch[of "?s db2 [(''g'', ?e2)] ?h" "[]" "''g''" ?e2 "[]"]
    by (simp add: step_def)
  note demo_subscribed[folded step_def]
  then have "reaches step (newSystem demoEventDb) (?s db2 [] (dispatch ''g'' ?e2 ?h))"
    by (intro reaches.reach_step[where step = step, OF _ three] reaches.reach_step[where step = step, OF _ two]
        reaches.reach_step[where step = step, OF _ one])
  moreover have "dispatch ''g'' ?e2 ?h = ?h\<lparr>hub_heap := [offer ?e2 demoListener]\<rparr>"
    by (simp add: dispatch_def listenersOf_def updateListener_def)
  moreover have "sent (offer ?e2 demoListener) = [2]" "li_sentThrough (offer ?e2 demoListener) = 2"
    "li_afterSequence (offer ?e2 demoListener) = 0"
    by (simp_all add: offer_def demoListener_def endReplay_def buildGroupEvent_def)
  ultimately show ?thesis
    using db2(2) by (intro that[of "?s db2 [] (dispatch ''g'' ?e2 ?h)" "offer ?e2 demoListener"])
      (simp_all add: buildGroupEvent_def)
qed

text \<open>
  C32: In every reachable state of a process that serves sockets from a durable log, started on any
  well-formed log and for drafts whose group and actor the database holds, whatever the
  interleaving of its subscriptions, its publications, publications of other processes and the
  answers to their announcements, the events a socket was sent carry strictly ascending sequence
  numbers above the one it resumed from: no event is sent twice and none out of order.
\<close>

theorem durable_delivery_ascends:
  assumes "durOk env db"
    and "reaches (hub_step (durableAppend env) (durableReplay env) (storable env db) limit) (newSystem db) s"
    and "l \<in> set (hub_heap (sy_hub s))"
  shows "sorted_wrt (<) (li_afterSequence l # sent l)"
proof -
  have "durOk env db \<and> sameParents db db" using assms(1) by simp
  from dur.delivery_ascends[OF this assms(2,3)] show ?thesis .
qed

theorem durable_delivery_ascends_witness:
  "\<exists>s l. reaches (hub_step (durableAppend demoEventEnv) (durableReplay demoEventEnv) (storable demoEventEnv demoEventDb) 512)
      (newSystem demoEventDb) s \<and> l \<in> set (hub_heap (sy_hub s)) \<and> sent l = [2] \<and>
    sorted_wrt (<) (li_afterSequence l # sent l)"
proof -
  obtain s l where s: "reaches (hub_step (durableAppend demoEventEnv) (durableReplay demoEventEnv)
      (storable demoEventEnv demoEventDb) 512) (newSystem demoEventDb) s"
    "sy_hub s = \<lparr>hub_heap = [l], hub_listenersByGroup = [(''g'', [(''c'', 0)])]\<rparr>" "sent l = [2]"
    by (rule demo_lost)
  have "durOk demoEventEnv demoEventDb"
    using freshLog_facts(1)[OF demoEventDb_fresh demoEventEnv_ok] by (simp add: demoEventEnv_def)
  from durable_delivery_ascends[OF this s(1), of l] s show ?thesis by auto
qed

text \<open>
  C34: An event of another process can be lost to a connected socket for good. In a reachable state
  of the durable deployment the log retains events 1 and 2 of a group, 1 published by another
  process and 2 by this one, nothing is in flight in this process, and the one subscribed socket,
  which resumed from the beginning, was sent 2 only. The announcement of event 1 is answered with no
  read of the log, because the socket's cursor is already past it, and no continuation of the run
  ever sends event 1 to that socket.
\<close>

theorem sibling_event_lost:
  "\<exists>s. reaches (hub_step (durableAppend demoEventEnv) (durableReplay demoEventEnv) (storable demoEventEnv demoEventDb) 512)
      (newSystem demoEventDb) s \<and>
    sy_undispatched s = [] \<and> sy_replays s = [] \<and> sy_drains s = [] \<and>
    listenersOf ''g'' (sy_hub s) = [0] \<and> li_afterSequence (hub_heap (sy_hub s) ! 0) = 0 \<and>
    sent (hub_heap (sy_hub s) ! 0) = [2] \<and>
    map ev_sequence (durRetained demoEventEnv (sy_store s) ''g'') = [1, 2] \<and>
    drainBegin ''g'' 1 (sy_hub s) = None \<and>
    \<not> (\<exists>t. reaches (hub_step (durableAppend demoEventEnv) (durableReplay demoEventEnv)
             (storable demoEventEnv demoEventDb) 512) s t \<and> 1 \<in> set (sent (hub_heap (sy_hub t) ! 0)))"
proof -
  let ?step = "hub_step (durableAppend demoEventEnv) (durableReplay demoEventEnv) (storable demoEventEnv demoEventDb) 512"
  obtain s l where s: "reaches ?step (newSystem demoEventDb) s"
    "sy_hub s = \<lparr>hub_heap = [l], hub_listenersByGroup = [(''g'', [(''c'', 0)])]\<rparr>"
    "sy_undispatched s = []" "sy_replays s = []" "sy_drains s = []"
    "sent l = [2]" "li_sentThrough l = 2" "li_afterSequence l = 0"
    "map ev_sequence (durRetained demoEventEnv (sy_store s) ''g'') = [1, 2]"
    by (rule demo_lost)
  have ok: "durOk demoEventEnv demoEventDb \<and> sameParents demoEventDb demoEventDb"
    using freshLog_facts(1)[OF demoEventDb_fresh demoEventEnv_ok] by (simp add: demoEventEnv_def)
  have "1 \<notin> set (sent (hub_heap (sy_hub t) ! 0))" if t: "reaches ?step s t" for t
  proof -
    let ?l = "hub_heap (sy_hub t) ! 0"
    have grows: "0 < length (hub_heap (sy_hub t))" "sent_grows l ?l"
      using reaches_grows[OF t] s(2) by (auto simp: heap_grows_def)
    then obtain ns where ns: "sent ?l = 2 # ns" using s(6) by (auto simp: sent_grows_def)
    from dur.delivery_ascends[OF ok reaches_trans[OF s(1) t], of ?l] grows(1)
    have "sorted_wrt (<) (sent ?l)" by simp
    then show ?thesis by (auto simp: ns)
  qed
  then show ?thesis
    using s by (intro exI[of _ s]) (auto simp: listenersOf_def drainBegin_def)
qed

end
