(* ===== verification/Hub_Gapless.thy ===== *)
theory Hub_Gapless
  imports Hub_Correct
begin

text \<open>
  Delivery in a deployment of one process: no socket that was not told to resync misses an event.
\<close>

section \<open>A single process\<close>

text \<open>
  The steps of a process that alone writes to the log: continuations run in the order of the appends
  they wait for, so events are dispatched first in, first out.
\<close>

inductive solo_step ::
  "(int \<Rightarrow> group_event_draft \<Rightarrow> ('s, rt_error, group_event) sm) \<Rightarrow>
   (string \<Rightarrow> int \<Rightarrow> int \<Rightarrow> ('s, rt_error, realtime_replay) sm) \<Rightarrow> (int \<Rightarrow> group_event_draft \<Rightarrow> bool) \<Rightarrow> int \<Rightarrow>
   's system \<Rightarrow> 's system \<Rightarrow> bool" for put replay accepts limit where
  solo_append: "accepts now d \<Longrightarrow> put now d (sy_store s) = (Inr e, st) \<Longrightarrow>
     solo_step put replay accepts limit s
       (s\<lparr>sy_store := st, sy_undispatched := sy_undispatched s @ [(dr_groupId d, e)]\<rparr>)"
| solo_dispatch: "sy_undispatched s = (g, e) # ys \<Longrightarrow>
     solo_step put replay accepts limit s (s\<lparr>sy_hub := dispatch g e (sy_hub s), sy_undispatched := ys\<rparr>)"
| solo_subscribe: "0 \<le> after \<Longrightarrow> subscribeBegin g c after time (sy_hub s) = (ref, h) \<Longrightarrow>
     solo_step put replay accepts limit s (s\<lparr>sy_hub := h, sy_replays := sy_replays s @ [(ref, c, None)]\<rparr>)"
| solo_read: "sy_replays s = xs @ (ref, c, None) # ys \<Longrightarrow>
     replay (li_groupId (hub_heap (sy_hub s) ! ref)) (li_afterSequence (hub_heap (sy_hub s) ! ref)) limit
       (sy_store s) = (r, st) \<Longrightarrow>
     solo_step put replay accepts limit s (s\<lparr>sy_store := st, sy_replays := xs @ (ref, c, Some r) # ys\<rparr>)"
| solo_finish: "sy_replays s = xs @ (ref, c, Some r) # ys \<Longrightarrow>
     solo_step put replay accepts limit s (s\<lparr>sy_hub := subscribeFinish ref c r (sy_hub s), sy_replays := xs @ ys\<rparr>)"
| solo_unsubscribe: "solo_step put replay accepts limit s (s\<lparr>sy_hub := unsubscribe g c (sy_hub s)\<rparr>)"

lemma solo_is_hub_step:
  assumes "solo_step put replay accepts limit s t"
  shows "hub_step put replay accepts limit s t"
  using assms
proof (cases rule: solo_step.cases)
  case (solo_dispatch g e ys)
  then show ?thesis using hub_step.publish_dispatch[of s "[]" g e ys] by simp
qed (auto intro: hub_step.intros)

section \<open>Intervals of sequence numbers\<close>

lemma interval_snoc: "a \<le> b \<Longrightarrow> [a + 1..b] @ [b + 1] = [a + 1..b + (1::int)]"
  by (simp add: upto_rec2)

lemma interval_join: "a \<le> b \<Longrightarrow> b \<le> c \<Longrightarrow> [a + 1..b] @ [b + 1..c] = [a + 1..(c::int)]"
  by (cases "a = b") (simp_all add: upto_split2[of "a + 1" b c])

lemma filter_interval: "filter (\<lambda>n. c < n) [a + 1..b] = [max a c + 1..(b::int)]"
proof (cases "a \<le> c")
  case True
  show ?thesis
  proof (cases "c \<le> b")
    case cb: True
    have "filter (\<lambda>n. c < n) ([a + 1..c] @ [c + 1..b]) = [c + 1..b]" by (simp add: filter_empty_conv)
    then show ?thesis using interval_join[OF True cb] True by (simp add: max_def)
  next
    case False
    then show ?thesis using True by (simp add: filter_empty_conv max_def)
  qed
next
  case False
  then show ?thesis by (simp add: max_def filter_id_conv)
qed

lemma flush_interval:
  assumes "map ev_sequence es = [b + 1..e]" and "b \<le> li_sentThrough l"
    and "sent l = [a + 1..li_sentThrough l]" and "a \<le> li_sentThrough l"
  shows "sent (fold flushBuffered es l) = [a + 1..max (li_sentThrough l) e] \<and>
    li_sentThrough (fold flushBuffered es l) = max (li_sentThrough l) e"
  using assms
proof (induction es arbitrary: b l)
  case Nil
  then have "e \<le> b" by simp
  then show ?case using Nil by simp
next
  case (Cons x es)
  have be: "b < e" using Cons.prems(1) by (cases "b < e") auto
  then have x: "ev_sequence x = b + 1" "map ev_sequence es = [(b + 1) + 1..e]"
    using Cons.prems(1) by (simp_all add: upto_rec1)
  show ?case
  proof (cases "b = li_sentThrough l")
    case True
    let ?l = "flushBuffered x l"
    have l: "li_sentThrough ?l = b + 1" "sent ?l = [a + 1..b + 1]"
      using True x(1) Cons.prems(3,4) interval_snoc by (simp_all add: flushBuffered_def)
    have "sent (fold flushBuffered es ?l) = [a + 1..max (li_sentThrough ?l) e] \<and>
        li_sentThrough (fold flushBuffered es ?l) = max (li_sentThrough ?l) e"
      using l x(2) True Cons.prems(4) by (intro Cons.IH[of "b + 1"]) simp_all
    then show ?thesis using l True be by (simp add: max_def)
  next
    case False
    then have "flushBuffered x l = l" using x(1) Cons.prems(2) by (simp add: flushBuffered_def)
    moreover have "sent (fold flushBuffered es l) = [a + 1..max (li_sentThrough l) e] \<and>
        li_sentThrough (fold flushBuffered es l) = max (li_sentThrough l) e"
      using False x(2) Cons.prems by (intro Cons.IH[of "b + 1"]) simp_all
    ultimately show ?thesis by simp
  qed
qed

section \<open>The listeners a group has\<close>

lemma js_values_set:
  "set (js_values (js_set k v m)) \<subseteq> insert v (set (js_values m))"
  by (induction m) auto

lemma js_values_set_distinct:
  "distinct (js_values m) \<Longrightarrow> v \<notin> set (js_values m) \<Longrightarrow> distinct (js_values (js_set k v m))"
proof (induction m)
  case Nil
  then show ?case by simp
next
  case (Cons x m)
  then show ?case using js_values_set[of k v m] by (cases x) auto
qed

lemma js_values_delete:
  "set (js_values (js_delete k m)) \<subseteq> set (js_values m)"
  "distinct (js_values m) \<Longrightarrow> distinct (js_values (js_delete k m))"
  by (auto simp: AList.delete_eq distinct_map_filter)

definition registered_ok :: "hub \<Rightarrow> bool" where
  "registered_ok h \<longleftrightarrow> (\<forall>g. distinct (listenersOf g h) \<and>
     (\<forall>ref \<in> set (listenersOf g h). ref < length (hub_heap h) \<and> li_groupId (hub_heap h ! ref) = g))"

lemma listenersOf_same: "hub_listenersByGroup h' = hub_listenersByGroup h \<Longrightarrow> listenersOf g h' = listenersOf g h"
  by (simp add: listenersOf_def)

lemma listenersOf_unsubscribe:
  "set (listenersOf g (unsubscribe g' c h)) \<subseteq> set (listenersOf g h)"
  "distinct (listenersOf g h) \<Longrightarrow> distinct (listenersOf g (unsubscribe g' c h))"
proof -
  show "set (listenersOf g (unsubscribe g' c h)) \<subseteq> set (listenersOf g h)"
    by (simp add: js_values_delete(1)[simplified] listenersOf_def unsubscribe_def Let_def jsmap_simps split: option.split)
  show "distinct (listenersOf g (unsubscribe g' c h))" if "distinct (listenersOf g h)"
    using that by (auto simp: js_values_delete(2) listenersOf_def unsubscribe_def Let_def jsmap_simps split: option.splits)
qed

lemma subscribeBegin_listeners:
  assumes "subscribeBegin g c after time h = (ref, h')" and "registered_ok h"
  shows "set (listenersOf g' h') \<subseteq> (if g' = g then insert ref (set (listenersOf g h)) else set (listenersOf g' h))"
    and "distinct (listenersOf g' h')"
proof -
  let ?m = "case js_get (hub_listenersByGroup h) g of None \<Rightarrow> [] | Some m \<Rightarrow> m"
  have m: "js_values ?m = listenersOf g h" by (simp add: listenersOf_def split: option.split)
  have ref: "ref = length (hub_heap h)" and l: "listenersOf g' h' =
      (if g' = g then js_values (js_set c ref ?m) else listenersOf g' h)"
    using assms(1) by (auto simp: subscribeBegin_def register_def listenersOf_def Let_def jsmap_simps)
  show "set (listenersOf g' h') \<subseteq> (if g' = g then insert ref (set (listenersOf g h)) else set (listenersOf g' h))"
    using js_values_set[of c ref ?m] m by (auto simp: l)
  have "ref \<notin> set (js_values ?m)" using assms(2) ref m by (auto simp: registered_ok_def)
  then show "distinct (listenersOf g' h')"
    using assms(2) m js_values_set_distinct[of ?m ref c] by (simp add: l registered_ok_def)
qed

lemma registered_ok_subscribe:
  assumes "registered_ok h" and "subscribeBegin g c after time h = (ref, h')"
  shows "registered_ok h'"
proof -
  have heap: "ref = length (hub_heap h)"
    "hub_heap h' = hub_heap h @ [sendFrame (readyFrame c after time) (newListener g after)]"
    using subscribeBegin_heap[OF assms(2)] by auto
  have "i < length (hub_heap h') \<and> li_groupId (hub_heap h' ! i) = g'" if "i \<in> set (listenersOf g' h')" for g' i
  proof -
    from that subscribeBegin_listeners(1)[OF assms(2,1), of g']
    have "i \<in> set (listenersOf g' h) \<or> i = ref \<and> g' = g" by (auto split: if_splits)
    then show ?thesis using assms(1) by (auto simp: heap registered_ok_def nth_append)
  qed
  then show ?thesis using subscribeBegin_listeners(2)[OF assms(2,1)] by (simp add: registered_ok_def)
qed

lemma registered_ok_unsubscribe: "registered_ok h \<Longrightarrow> registered_ok (unsubscribe g c h)"
  using listenersOf_unsubscribe[where g' = g and c = c and h = h] unfolding registered_ok_def by (metis subsetD unsubscribe_heap)

lemma registered_ok_update:
  assumes "registered_ok h" and "hub_listenersByGroup h' = hub_listenersByGroup h"
    and "map li_groupId (hub_heap h') = map li_groupId (hub_heap h)"
  shows "registered_ok h'"
proof -
  have "length (hub_heap h') = length (hub_heap h)" using assms(3) by (metis length_map)
  then show ?thesis
    using assms(1) nth_map[of _ "hub_heap h" li_groupId] nth_map[of _ "hub_heap h'" li_groupId]
    unfolding registered_ok_def listenersOf_same[OF assms(2)] by (metis assms(3))
qed

lemma fold_update_heap:
  assumes "distinct refs" and "\<forall>r \<in> set refs. r < length (hub_heap h)"
  shows "hub_heap (fold (\<lambda>ref h. updateListener ref f h) refs h) =
    map (\<lambda>i. if i \<in> set refs then f (hub_heap h ! i) else hub_heap h ! i) [0 ..< length (hub_heap h)]"
  using assms
proof (induction refs arbitrary: h)
  case Nil
  then show ?case by (simp add: map_nth)
next
  case (Cons r refs)
  have "hub_heap (fold (\<lambda>ref h. updateListener ref f h) refs (updateListener r f h)) =
      map (\<lambda>i. if i \<in> set refs then f (hub_heap (updateListener r f h) ! i) else hub_heap (updateListener r f h) ! i)
        [0 ..< length (hub_heap (updateListener r f h))]"
    using Cons.prems by (intro Cons.IH) (auto simp: updateListener_def)
  then show ?case using Cons.prems by (auto simp: updateListener_def nth_list_update)
qed

lemma dispatch_heap:
  assumes "registered_ok h"
  shows "length (hub_heap (dispatch g e h)) = length (hub_heap h)"
    and "i < length (hub_heap h) \<Longrightarrow> hub_heap (dispatch g e h) ! i =
      (if i \<in> set (listenersOf g h) then offer e (hub_heap h ! i) else hub_heap h ! i)"
  using assms by (simp_all add: dispatch_def fold_update_heap registered_ok_def)

section \<open>Delivery without gaps\<close>

fun isResync :: "server_frame \<Rightarrow> bool" where
  "isResync (ResyncFrame _ _ _ _) = True"
| "isResync _ = False"

definition resynced :: "listener \<Rightarrow> bool" where
  "resynced l \<longleftrightarrow> list_ex isResync (li_frames l)"

definition replay_gapless :: "int \<Rightarrow> int \<Rightarrow> realtime_replay \<Rightarrow> bool" where
  "replay_gapless after b r \<longleftrightarrow>
     (decideReplay after (rp_earliestSequence r) = Replay \<longrightarrow>
       (\<exists>m. map ev_sequence (rp_events r) = [after + 1..m] \<and> b \<le> m))"

text \<open>
  A listener of a group whose events up to \<open>d\<close> have been dispatched. While its replay is in flight it
  buffers a contiguous stretch that the replay will reach; afterwards it was sent a contiguous one.
\<close>

definition replaying_gapless :: "int \<Rightarrow> bool \<Rightarrow> realtime_replay set \<Rightarrow> listener \<Rightarrow> bool" where
  "replaying_gapless d reg rs l \<longleftrightarrow> sent l = [] \<and> li_sentThrough l = li_afterSequence l \<and>
     (\<exists>b e. map ev_sequence (li_buffered l) = [b + 1..e] \<and> li_afterSequence l \<le> b \<and> b \<le> e \<and>
        b \<le> max (li_afterSequence l) d \<and> (reg \<longrightarrow> e = max (li_afterSequence l) d) \<and>
        (\<forall>r \<in> rs. replay_gapless (li_afterSequence l) b r))"

definition live_gapless :: "int \<Rightarrow> bool \<Rightarrow> listener \<Rightarrow> bool" where
  "live_gapless d reg l \<longleftrightarrow> resynced l \<or>
     sent l = [li_afterSequence l + 1..li_sentThrough l] \<and> li_afterSequence l \<le> li_sentThrough l \<and>
     (reg \<longrightarrow> d \<le> li_sentThrough l)"

definition gapless :: "int \<Rightarrow> bool \<Rightarrow> realtime_replay set \<Rightarrow> listener \<Rightarrow> bool" where
  "gapless d reg rs l \<longleftrightarrow> 0 \<le> li_afterSequence l \<and>
     (if li_replaying l then replaying_gapless d reg rs l else live_gapless d reg l)"

lemma gapless_weaken:
  "gapless d reg rs l \<Longrightarrow> (reg' \<Longrightarrow> reg) \<Longrightarrow> rs' \<subseteq> rs \<Longrightarrow> gapless d reg' rs' l"
  unfolding gapless_def replaying_gapless_def live_gapless_def by (auto split: if_splits)

lemma gapless_unregistered:
  assumes "gapless d False rs l" and "d \<le> d'"
  shows "gapless d' False rs l"
proof (cases "li_replaying l")
  case True
  have "b \<le> max a d \<Longrightarrow> b \<le> max a d'" for a b using assms(2) by simp
  then show ?thesis
    using assms(1) True unfolding gapless_def replaying_gapless_def by (simp only: if_True) blast
next
  case False
  then show ?thesis using assms(1) by (simp add: gapless_def live_gapless_def)
qed

lemma resynced_send [simp]: "resynced (sendFrame (groupEventFrame e) l) = resynced l"
  by (simp add: resynced_def sendFrame_def groupEventFrame_def)

lemma resynced_fields [simp]:
  "resynced (l\<lparr>li_sentThrough := n\<rparr>) = resynced l" "resynced (l\<lparr>li_replaying := b\<rparr>) = resynced l"
  "resynced (l\<lparr>li_buffered := es\<rparr>) = resynced l"
  "resynced (l\<lparr>li_replaying := b, li_buffered := es\<rparr>) = resynced l"
  by (simp_all add: resynced_def)

lemma resynced_resync [simp]: "resynced (sendFrame (resyncFrame g a e) l)"
  by (simp add: resynced_def sendFrame_def resyncFrame_def)

lemma offer_gapless:
  assumes "gapless d True rs l" and "ev_sequence ev = d + 1"
  shows "gapless (d + 1) True rs (offer ev l)"
proof (cases "li_replaying l")
  case True
  let ?a = "li_afterSequence l"
  obtain b e where be: "sent l = []" "li_sentThrough l = ?a"
    "map ev_sequence (li_buffered l) = [b + 1..e]" "?a \<le> b" "b \<le> e" "b \<le> max ?a d" "e = max ?a d"
    "\<forall>r \<in> rs. replay_gapless ?a b r"
    using assms(1) True by (auto simp: gapless_def replaying_gapless_def)
  have "map ev_sequence (li_buffered (offer ev l)) = [b + 1..max ?a (d + 1)]"
    using be assms(2) True interval_snoc[of b e] by (auto simp: offer_def max_def)
  moreover have "b \<le> max ?a (d + 1)" using be by simp
  ultimately show ?thesis
    using be assms(1) True by (auto simp: gapless_def replaying_gapless_def offer_def)
next
  case False
  show ?thesis
  proof (cases "d + 1 \<le> li_sentThrough l \<or> resynced l")
    case True
    then show ?thesis using assms False by (auto simp: gapless_def live_gapless_def offer_def)
  next
    case behind: False
    then have "li_sentThrough l = d" using assms(1) False by (auto simp: gapless_def live_gapless_def)
    then show ?thesis
      using assms behind False interval_snoc[of "li_afterSequence l" d]
      by (auto simp: gapless_def live_gapless_def offer_def)
  qed
qed

lemma new_gapless:
  assumes "0 \<le> after"
  shows "gapless d reg {} (sendFrame (readyFrame c after time) (newListener g after))"
proof -
  have "map ev_sequence [] = [max after d + 1..max after d]" by simp
  then have "replaying_gapless d reg {} (sendFrame (readyFrame c after time) (newListener g after))"
    unfolding replaying_gapless_def
    by (intro conjI exI[of _ "max after d"]) simp_all
  then show ?thesis using assms by (simp add: gapless_def)
qed

lemma answer_gapless:
  assumes "gapless d reg rs l" and "li_replaying l" and "r \<in> rs"
  shows "gapless d reg rs' (answerReplay r l)"
proof -
  let ?a = "li_afterSequence l"
  have fields: "li_afterSequence (fold flushBuffered es m) = li_afterSequence m" for es m
    by (induction es arbitrary: m) (auto simp: flushBuffered_def)
  obtain b e where be: "sent l = []" "li_sentThrough l = ?a" "map ev_sequence (li_buffered l) = [b + 1..e]"
    "?a \<le> b" "b \<le> e" "reg \<longrightarrow> e = max ?a d" "replay_gapless ?a b r" "0 \<le> ?a"
    using assms by (auto simp: gapless_def replaying_gapless_def)
  show ?thesis
  proof (cases "decideReplay ?a (rp_earliestSequence r)")
    case (Resync earliest)
    then show ?thesis using be(8) by (simp add: answerReplay_def endReplay_def gapless_def live_gapless_def)
  next
    case Replay
    then obtain m where m: "map ev_sequence (rp_events r) = [?a + 1..m]" "b \<le> m"
      using be(7) by (auto simp: replay_gapless_def)
    let ?l = "fold sendReplayed (rp_events r) l"
    have through: "li_sentThrough ?l = m"
    proof (cases "?a = m")
      case True
      then show ?thesis using m(1) be(2) by simp
    next
      case False
      then have "rp_events r \<noteq> []" "last (map ev_sequence (rp_events r)) = m"
        using m be(4) by (auto simp: upto_rec2)
      then show ?thesis by (simp add: last_map)
    qed
    have "sent (fold flushBuffered (li_buffered l) ?l) = [?a + 1..max m e] \<and>
        li_sentThrough (fold flushBuffered (li_buffered l) ?l) = max m e"
      using flush_interval[OF be(3), of ?l ?a] through m be(1,4) by simp
    then show ?thesis
      using be m Replay by (auto simp: answerReplay_def endReplay_def gapless_def live_gapless_def fields)
  qed
qed

definition undispatchedOf :: "string \<Rightarrow> (string \<times> group_event) list \<Rightarrow> int list" where
  "undispatchedOf g us = map (\<lambda>u. ev_sequence (snd u)) (filter (\<lambda>u. fst u = g) us)"

text \<open>What has been appended and not dispatched continues what has been dispatched, group by group.\<close>

definition log_ok :: "(string \<Rightarrow> int) \<Rightarrow> (string \<Rightarrow> nat) \<Rightarrow> (string \<times> group_event) list \<Rightarrow> bool" where
  "log_ok d n us \<longleftrightarrow> (\<forall>g. 0 \<le> d g \<and> d g \<le> int (n g) \<and> undispatchedOf g us = [d g + 1..int (n g)])"

lemma log_ok_append:
  assumes "log_ok d n us" and "ev_sequence e = int (n g) + 1"
  shows "log_ok d (n(g := Suc (n g))) (us @ [(g, e)])"
  unfolding log_ok_def
proof
  fix g'
  show "0 \<le> d g' \<and> d g' \<le> int ((n(g := Suc (n g))) g') \<and>
      undispatchedOf g' (us @ [(g, e)]) = [d g' + 1..int ((n(g := Suc (n g))) g')]"
    using assms(1)[unfolded log_ok_def, rule_format, of g'] assms(2) interval_snoc[of "d g'" "int (n g')"]
    by (cases "g' = g") (auto simp: undispatchedOf_def add.commute)
qed

lemma log_ok_dispatch:
  assumes "log_ok d n ((g, e) # us)"
  shows "ev_sequence e = d g + 1 \<and> log_ok (d(g := d g + 1)) n us"
proof -
  have log: "0 \<le> d g' \<and> d g' \<le> int (n g') \<and> undispatchedOf g' ((g, e) # us) = [d g' + 1..int (n g')]" for g'
    using assms by (simp add: log_ok_def)
  then have head: "ev_sequence e # undispatchedOf g us = [d g + 1..int (n g)]"
    using log[of g] by (simp add: undispatchedOf_def)
  then have less: "d g < int (n g)" by (cases "d g < int (n g)") auto
  with head have e: "ev_sequence e = d g + 1" "undispatchedOf g us = [(d g + 1) + 1..int (n g)]"
    by (simp_all add: upto_rec1)
  have "0 \<le> (d(g := d g + 1)) g' \<and> (d(g := d g + 1)) g' \<le> int (n g') \<and>
      undispatchedOf g' us = [(d(g := d g + 1)) g' + 1..int (n g')]" for g'
    using log[of g'] e less by (cases "g' = g") (auto simp: undispatchedOf_def)
  then show ?thesis using e(1) by (simp add: log_ok_def)
qed

definition resultsOf :: "nat \<Rightarrow> pending_replay list \<Rightarrow> realtime_replay set" where
  "resultsOf i ps = {r. \<exists>c. (i, c, Some (Inr r)) \<in> set ps}"

definition hub_gapless :: "(string \<Rightarrow> int) \<Rightarrow> hub \<Rightarrow> pending_replay list \<Rightarrow> bool" where
  "hub_gapless d h ps \<longleftrightarrow> registered_ok h \<and>
     (\<forall>i < length (hub_heap h). gapless (d (li_groupId (hub_heap h ! i)))
        (i \<in> set (listenersOf (li_groupId (hub_heap h ! i)) h)) (resultsOf i ps) (hub_heap h ! i))"

lemma hub_gapless_weaken:
  assumes "hub_gapless d h ps" and "\<And>i. resultsOf i ps' \<subseteq> resultsOf i ps"
  shows "hub_gapless d h ps'"
  using assms unfolding hub_gapless_def by (auto intro: gapless_weaken)

lemma hub_gapless_dispatch:
  assumes "hub_gapless d h ps" and "ev_sequence ev = d g + 1"
  shows "hub_gapless (d(g := d g + 1)) (dispatch g ev h) ps"
proof -
  let ?h = "dispatch g ev h" and ?d = "d(g := d g + 1)"
  have reg: "registered_ok h" using assms(1) by (simp add: hub_gapless_def)
  have group: "li_groupId (offer e l) = li_groupId l" for e l by (simp add: offer_def)
  have same: "hub_listenersByGroup ?h = hub_listenersByGroup h" by (simp add: dispatch_def)
  have groups: "map li_groupId (hub_heap ?h) = map li_groupId (hub_heap h)"
    using dispatch_heap[OF reg] by (auto intro!: nth_equalityI simp: group)
  have "gapless (?d (li_groupId (hub_heap ?h ! i))) (i \<in> set (listenersOf (li_groupId (hub_heap ?h ! i)) ?h))
      (resultsOf i ps) (hub_heap ?h ! i)" if i: "i < length (hub_heap h)" for i
  proof -
    let ?l = "hub_heap h ! i"
    have old: "gapless (d (li_groupId ?l)) (i \<in> set (listenersOf (li_groupId ?l) h)) (resultsOf i ps) ?l"
      using assms(1) i by (simp add: hub_gapless_def)
    show ?thesis
    proof (cases "i \<in> set (listenersOf g h)")
      case True
      then have "li_groupId ?l = g" using reg by (simp add: registered_ok_def)
      then show ?thesis
        using True old dispatch_heap(2)[OF reg i] offer_gapless[OF _ assms(2)]
        by (simp add: group listenersOf_same[OF same])
    next
      case False
      then show ?thesis
        using old dispatch_heap(2)[OF reg i, of g ev] gapless_unregistered
        by (cases "li_groupId ?l = g") (simp_all add: listenersOf_same[OF same])
    qed
  qed
  then show ?thesis
    using registered_ok_update[OF reg same groups] dispatch_heap(1)[OF reg] by (simp add: hub_gapless_def)
qed

lemma hub_gapless_subscribe:
  assumes "hub_gapless d h ps" and "subscribeBegin g c after time h = (ref, h')" and "0 \<le> after"
    and "replays_ok h ps"
  shows "hub_gapless d h' (ps @ [(ref, c, None)])"
proof -
  have reg: "registered_ok h" using assms(1) by (simp add: hub_gapless_def)
  have heap: "ref = length (hub_heap h)"
    "hub_heap h' = hub_heap h @ [sendFrame (readyFrame c after time) (newListener g after)]"
    using subscribeBegin_heap[OF assms(2)] by auto
  have results: "resultsOf i (ps @ [(ref, c, None)]) = resultsOf i ps" for i by (auto simp: resultsOf_def)
  have fresh: "resultsOf ref ps = {}" using assms(4) heap(1) by (fastforce simp: resultsOf_def replays_ok_def)
  have "gapless (d (li_groupId (hub_heap h' ! i))) (i \<in> set (listenersOf (li_groupId (hub_heap h' ! i)) h'))
      (resultsOf i ps) (hub_heap h' ! i)" if "i < length (hub_heap h')" for i
  proof (cases "i = ref")
    case True
    then show ?thesis using new_gapless[OF assms(3)] fresh by (simp add: heap)
  next
    case False
    with that heap have i: "i < length (hub_heap h)" "hub_heap h' ! i = hub_heap h ! i"
      by (simp_all add: nth_append)
    have "gapless (d (li_groupId (hub_heap h ! i))) (i \<in> set (listenersOf (li_groupId (hub_heap h ! i)) h))
        (resultsOf i ps) (hub_heap h ! i)" using assms(1) i by (simp add: hub_gapless_def)
    then show ?thesis
      using subscribeBegin_listeners(1)[OF assms(2) reg, of "li_groupId (hub_heap h ! i)"] False
      by (auto simp: i(2) intro: gapless_weaken split: if_splits)
  qed
  then show ?thesis
    using registered_ok_subscribe[OF reg assms(2)] by (simp add: hub_gapless_def results)
qed

lemma hub_gapless_finish:
  assumes "hub_gapless d h (xs @ (ref, c, Some (Inr r)) # ys)"
    and "replays_ok h (xs @ (ref, c, Some (Inr r)) # ys)"
  shows "hub_gapless d (subscribeFinish ref c (Inr r) h) (xs @ ys)"
proof -
  let ?h = "subscribeFinish ref c (Inr r) h" and ?ps = "xs @ (ref, c, Some (Inr r)) # ys"
  have reg: "registered_ok h" using assms(1) by (simp add: hub_gapless_def)
  have ref: "ref < length (hub_heap h)" "li_replaying (hub_heap h ! ref)"
    using assms(2) by (auto simp: replays_ok_def)
  have h: "?h = updateListener ref (answerReplay r) h" by (simp add: subscribeFinish_def)
  have flushed: "li_groupId (fold flushBuffered es l) = li_groupId l" for es l
    by (induction es arbitrary: l) (auto simp: flushBuffered_def)
  have group: "li_groupId (answerReplay r l) = li_groupId l" for l
    by (simp add: answerReplay_def endReplay_def flushed split: replay_decision.split)
  have same: "hub_listenersByGroup ?h = hub_listenersByGroup h" by (simp add: h)
  have groups: "map li_groupId (hub_heap ?h) = map li_groupId (hub_heap h)"
    using ref(1) by (auto simp: h updateListener_def group nth_list_update intro!: nth_equalityI)
  have "gapless (d (li_groupId (hub_heap ?h ! i))) (i \<in> set (listenersOf (li_groupId (hub_heap ?h ! i)) ?h))
      (resultsOf i (xs @ ys)) (hub_heap ?h ! i)" if i: "i < length (hub_heap h)" for i
  proof -
    have old: "gapless (d (li_groupId (hub_heap h ! i))) (i \<in> set (listenersOf (li_groupId (hub_heap h ! i)) h))
      (resultsOf i ?ps) (hub_heap h ! i)" using assms(1) i by (simp add: hub_gapless_def)
    show ?thesis
    proof (cases "i = ref")
      case True
      have "r \<in> resultsOf ref ?ps" by (auto simp: resultsOf_def)
      from answer_gapless[OF old[unfolded True] ref(2) this] show ?thesis
        using True ref(1) by (simp add: h updateListener_def group listenersOf_def)
    next
      case False
      then have "hub_heap ?h ! i = hub_heap h ! i" by (simp add: h updateListener_def)
      moreover have "resultsOf i (xs @ ys) \<subseteq> resultsOf i ?ps" by (auto simp: resultsOf_def)
      ultimately show ?thesis using old by (auto simp: listenersOf_same[OF same] intro: gapless_weaken)
    qed
  qed
  then show ?thesis
    using registered_ok_update[OF reg same groups] by (simp add: hub_gapless_def h updateListener_def)
qed

lemma hub_gapless_unsubscribe: "hub_gapless d h ps \<Longrightarrow> hub_gapless d (unsubscribe g c h) ps"
  using listenersOf_unsubscribe(1)[where g' = g and c = c and h = h]
  unfolding hub_gapless_def by (auto intro: gapless_weaken registered_ok_unsubscribe)

section \<open>The invariant of a single process\<close>

lemma map_int_upt: "map int [Suc a ..< Suc b] = [int a + 1..int b]"
  by (rule nth_equalityI) (simp_all add: nth_upt del: upt_Suc)

context event_store
begin

lemma retained_interval: "ok s \<Longrightarrow>
    map ev_sequence (retained s g) = [int (issued s g - window) + 1..int (issued s g)]"
  by (simp only: numbers_law map_int_upt)

lemma replay_reaches:
  assumes "ok s" and "requireReplayLimit limit = Inr n" and "window \<le> n" and "0 \<le> after"
    and "b \<le> max after (int (issued s g))"
  shows "\<exists>r. replay g after limit s = (Inr r, s) \<and> replay_gapless after b r"
proof -
  let ?I = "int (issued s g)" and ?w = "int (issued s g - window)"
  obtain earliest where r: "replay g after limit s =
      (Inr \<lparr>rp_events = take n (filter (\<lambda>e. ev_sequence e > after) (retained s g)),
        rp_earliestSequence = earliest\<rparr>, s)"
    "after \<le> ?I \<Longrightarrow> decideReplay after earliest = decideReplay after (first_sequence (retained s g))"
    using replay_law[OF assms(1,2), of g after] by blast
  have "length (retained s g) \<le> window"
    using arg_cong[OF numbers_law[OF assms(1)], of length g] by (simp del: upt_Suc)
  then have "length (filter (\<lambda>e. ev_sequence e > after) (retained s g)) \<le> n"
    using assms(3) length_filter_le[of "\<lambda>e. ev_sequence e > after" "retained s g"] by linarith
  then have "map ev_sequence (take n (filter (\<lambda>e. ev_sequence e > after) (retained s g))) =
      filter (\<lambda>n. after < n) (map ev_sequence (retained s g))"
    by (simp add: filter_map comp_def)
  then have events: "map ev_sequence (take n (filter (\<lambda>e. ev_sequence e > after) (retained s g))) =
      [max ?w after + 1..?I]"
    by (simp only: retained_interval[OF assms(1)] filter_interval)
  have "\<exists>m. [max ?w after + 1..?I] = [after + 1..m] \<and> b \<le> m" if "decideReplay after earliest = Replay"
  proof (cases "after \<le> ?I")
    case False
    then have "[max ?w after + 1..?I] = [after + 1..after]" by simp
    then show ?thesis using False assms(5) by (intro exI[of _ after]) simp
  next
    case True
    have "max ?w after = after" if "0 < issued s g"
    proof -
      have "retained s g \<noteq> []" using retained_interval[OF assms(1), of g] that window_pos[OF assms(1)]
        by (auto simp: upto_rec1)
      then obtain e es where e: "retained s g = e # es" by (cases "retained s g") auto
      then have "ev_sequence e = ?w + 1"
        using retained_interval[OF assms(1), of g] that window_pos[OF assms(1)] by (auto simp: upto_rec1)
      then show ?thesis
        using r(2)[OF True] \<open>decideReplay after earliest = Replay\<close> e
        by (auto simp: first_sequence_def decideReplay_def split: if_splits)
    qed
    then have "[max ?w after + 1..?I] = [after + 1..?I]" using assms(4) by (cases "issued s g") auto
    then show ?thesis using True assms(5) by (intro exI[of _ ?I]) simp
  qed
  then show ?thesis using r(1) by (simp add: replay_gapless_def events)
qed

definition solo_ok :: "'s system \<Rightarrow> bool" where
  "solo_ok s \<longleftrightarrow> system_ok s \<and> (\<forall>p \<in> set (sy_replays s). \<forall>e. snd (snd p) \<noteq> Some (Inl e)) \<and>
     (\<exists>d. log_ok d (issued (sy_store s)) (sy_undispatched s) \<and> hub_gapless d (sy_hub s) (sy_replays s))"

lemma solo_ok_append:
  assumes "solo_ok s" and "accepts now dr" and "put now dr (sy_store s) = (Inr e, st)"
    and "system_ok (s\<lparr>sy_store := st, sy_undispatched := sy_undispatched s @ [(dr_groupId dr, e)]\<rparr>)"
  shows "solo_ok (s\<lparr>sy_store := st, sy_undispatched := sy_undispatched s @ [(dr_groupId dr, e)]\<rparr>)"
proof -
  have "ok (sy_store s)" using assms(1) by (simp add: solo_ok_def system_ok_def)
  from put_law[OF this assms(2)] assms(3) have "ev_sequence e = int (issued (sy_store s) (dr_groupId dr)) + 1"
    "issued st = (issued (sy_store s))(dr_groupId dr := Suc (issued (sy_store s) (dr_groupId dr)))"
    by (auto simp: buildGroupEvent_def)
  then show ?thesis using assms(1,4) by (auto simp: solo_ok_def intro: log_ok_append)
qed

lemma solo_ok_dispatch:
  assumes "solo_ok s" and "sy_undispatched s = (g, e) # ys"
    and "system_ok (s\<lparr>sy_hub := dispatch g e (sy_hub s), sy_undispatched := ys\<rparr>)"
  shows "solo_ok (s\<lparr>sy_hub := dispatch g e (sy_hub s), sy_undispatched := ys\<rparr>)"
  using assms by (auto simp: solo_ok_def dest!: log_ok_dispatch intro: hub_gapless_dispatch)

lemma solo_ok_read:
  assumes "solo_ok s" and "requireReplayLimit limit = Inr n" and "window \<le> n"
    and "sy_replays s = xs @ (ref, c, None) # ys"
    and "replay (li_groupId (hub_heap (sy_hub s) ! ref)) (li_afterSequence (hub_heap (sy_hub s) ! ref)) limit
      (sy_store s) = (q, st)"
    and "system_ok (s\<lparr>sy_store := st, sy_replays := xs @ (ref, c, Some q) # ys\<rparr>)"
  shows "solo_ok (s\<lparr>sy_store := st, sy_replays := xs @ (ref, c, Some q) # ys\<rparr>)"
proof -
  let ?h = "sy_hub s" and ?ps = "xs @ (ref, c, Some q) # ys" and ?I = "\<lambda>g. int (issued (sy_store s) g)"
  let ?l = "hub_heap ?h ! ref"
  obtain d where d: "log_ok d (issued (sy_store s)) (sy_undispatched s)" "hub_gapless d ?h (sy_replays s)"
    using assms(1) by (auto simp: solo_ok_def)
  have ok: "ok (sy_store s)" and ps: "replays_ok ?h (sy_replays s)"
    using assms(1) by (auto simp: solo_ok_def system_ok_def hub_ok_def)
  then have ref: "ref < length (hub_heap ?h)" "li_replaying ?l" "ref \<notin> fst ` set (xs @ ys)"
    using assms(4) by (auto simp: replays_ok_def)
  have old: "gapless (d (li_groupId ?l)) (ref \<in> set (listenersOf (li_groupId ?l) ?h)) {} ?l"
    using d(2) ref(1) by (auto simp: hub_gapless_def intro: gapless_weaken)
  then obtain b where b: "b \<le> max (li_afterSequence ?l) (?I (li_groupId ?l))" "0 \<le> li_afterSequence ?l"
    "\<And>r. replay_gapless (li_afterSequence ?l) b r \<Longrightarrow>
      gapless (d (li_groupId ?l)) (ref \<in> set (listenersOf (li_groupId ?l) ?h)) {r} ?l"
  proof -
    obtain b e where be: "sent ?l = []" "li_sentThrough ?l = li_afterSequence ?l"
      "map ev_sequence (li_buffered ?l) = [b + 1..e]" "li_afterSequence ?l \<le> b" "b \<le> e"
      "b \<le> max (li_afterSequence ?l) (d (li_groupId ?l))" "0 \<le> li_afterSequence ?l"
      "ref \<in> set (listenersOf (li_groupId ?l) ?h) \<longrightarrow> e = max (li_afterSequence ?l) (d (li_groupId ?l))"
      using old ref(2) by (auto simp: gapless_def replaying_gapless_def)
    have "d (li_groupId ?l) \<le> ?I (li_groupId ?l)" using d(1) by (simp add: log_ok_def)
    then have "b \<le> max (li_afterSequence ?l) (?I (li_groupId ?l))" using be(6) by linarith
    moreover have "gapless (d (li_groupId ?l)) (ref \<in> set (listenersOf (li_groupId ?l) ?h)) {r} ?l"
      if "replay_gapless (li_afterSequence ?l) b r" for r
      using be that ref(2) unfolding gapless_def replaying_gapless_def by simp blast
    ultimately show thesis using be(7) by (intro that)
  qed
  obtain r where r: "q = Inr r" "st = sy_store s" "replay_gapless (li_afterSequence ?l) b r"
    using replay_reaches[OF ok assms(2,3) b(2,1)] assms(5) by auto
  have "resultsOf i ?ps = (if i = ref then {r} else resultsOf i (sy_replays s))" for i
    using ref(3) r(1) assms(4) by (force simp: resultsOf_def)
  then have "hub_gapless d ?h ?ps"
    using d(2) b(3)[OF r(3)] by (simp add: hub_gapless_def)
  then show ?thesis using assms(1,4,6) d(1) r(1,2) by (auto simp: solo_ok_def)
qed

lemma solo_ok_step:
  assumes "requireReplayLimit limit = Inr n" and "window \<le> n"
    and "solo_ok s" and "solo_step put replay accepts limit s t"
  shows "solo_ok t"
proof -
  have "system_ok s" using assms(3) by (simp add: solo_ok_def)
  then have ok: "system_ok t" using solo_is_hub_step[OF assms(4)] by (rule system_ok_step)
  have ps: "replays_ok (sy_hub s) (sy_replays s)"
    using \<open>system_ok s\<close> by (simp add: system_ok_def hub_ok_def)
  from assms(4) show ?thesis
  proof (cases rule: solo_step.cases)
    case (solo_append now d e st)
    then show ?thesis using solo_ok_append assms(3) ok by blast
  next
    case (solo_dispatch g e ys)
    then show ?thesis using solo_ok_dispatch assms(3) ok by blast
  next
    case (solo_subscribe after g c time ref h)
    then show ?thesis
      using assms(3) ok ps by (auto simp: solo_ok_def intro: hub_gapless_subscribe)
  next
    case (solo_read xs ref c ys r st)
    then show ?thesis using solo_ok_read[OF assms(3,1,2)] ok by blast
  next
    case (solo_finish xs ref c q ys)
    moreover from this obtain r where "q = Inr r" using assms(3) by (cases q) (auto simp: solo_ok_def)
    ultimately show ?thesis
      using assms(3) ok ps by (auto simp: solo_ok_def intro: hub_gapless_finish)
  next
    case (solo_unsubscribe g c)
    then show ?thesis using assms(3) ok by (auto simp: solo_ok_def intro: hub_gapless_unsubscribe)
  qed
qed

lemma newSystem_solo_ok:
  assumes "ok st" and "\<And>g. issued st g = 0"
  shows "solo_ok (newSystem st)"
proof -
  have "log_ok (\<lambda>_. 0) (issued st) []" using assms(2) by (simp add: log_ok_def undispatchedOf_def)
  then show ?thesis
    using newSystem_ok[OF assms(1)]
    by (auto simp: solo_ok_def newSystem_def hub_gapless_def registered_ok_def emptyHub_def listenersOf_def)
qed

lemma solo_delivery:
  assumes "ok st" and "\<And>g. issued st g = 0" and "requireReplayLimit limit = Inr n" and "window \<le> n"
    and "reaches (solo_step put replay accepts limit) (newSystem st) s"
    and "i < length (hub_heap (sy_hub s))" and "l = hub_heap (sy_hub s) ! i" and "\<not> resynced l"
  shows "sent l = [li_afterSequence l + 1..li_sentThrough l] \<and>
    (i \<in> set (listenersOf (li_groupId l) (sy_hub s)) \<and> \<not> li_replaying l \<and>
       undispatchedOf (li_groupId l) (sy_undispatched s) = [] \<longrightarrow>
     int (issued (sy_store s) (li_groupId l)) \<le> li_sentThrough l)"
proof -
  have "invariant_system (\<lambda>s. s = newSystem st) (solo_step put replay accepts limit) solo_ok"
    by unfold_locales (auto intro: newSystem_solo_ok assms(1,2) solo_ok_step[OF assms(3,4)])
  from invariant_system.reachable_inv[OF this refl assms(5)]
  obtain d where d: "log_ok d (issued (sy_store s)) (sy_undispatched s)"
    "hub_gapless d (sy_hub s) (sy_replays s)" by (auto simp: solo_ok_def)
  have "gapless (d (li_groupId l)) (i \<in> set (listenersOf (li_groupId l) (sy_hub s)))
      (resultsOf i (sy_replays s)) l"
    using d(2) assms(6,7) by (simp add: hub_gapless_def)
  moreover have "int (issued (sy_store s) (li_groupId l)) \<le> d (li_groupId l)"
    if "undispatchedOf (li_groupId l) (sy_undispatched s) = []"
    using d(1)[unfolded log_ok_def, rule_format, of "li_groupId l"] that by simp
  ultimately show ?thesis
    using assms(8) by (auto simp: gapless_def replaying_gapless_def live_gapless_def split: if_splits)
qed

end

text \<open>
  C33: In a deployment of one process on the in-memory log, whose replay limit covers the history
  limit, no socket misses an event: in every reachable state, a socket that was not told to resync
  has been sent exactly the events from its resume point to its cursor, each once and in order, and
  once its replay is answered and no event of its group waits to be dispatched, a subscribed socket's
  cursor is at the end of the log.
\<close>

theorem solo_delivery_gapless:
  assumes "newMemStore h = Inr st" and "requireReplayLimit limit = Inr n" and "nat h \<le> n"
    and "reaches (solo_step memAppend memReplay (\<lambda>_ _. True) limit) (newSystem st) s"
    and "i < length (hub_heap (sy_hub s))" and "l = hub_heap (sy_hub s) ! i" and "\<not> resynced l"
  shows "sent l = [li_afterSequence l + 1..li_sentThrough l] \<and>
    (i \<in> set (listenersOf (li_groupId l) (sy_hub s)) \<and> \<not> li_replaying l \<and>
       undispatchedOf (li_groupId l) (sy_undispatched s) = [] \<longrightarrow>
     int (memIssued (sy_store s) (li_groupId l)) \<le> li_sentThrough l)"
  using newMemStore_facts(1,2)[OF assms(1)] assms(2-7) by (rule mem.solo_delivery)

lemma solo_demo_run:
  defines "step \<equiv> solo_step memAppend memReplay (\<lambda>_ _. True) 512"
  obtains st s where "newMemStore 2 = Inr st" "reaches step (newSystem st) s"
    "hub_heap (sy_hub s) = [answerReplay \<lparr>rp_events = [buildGroupEvent (demoDraft ''g'') 1 7],
       rp_earliestSequence = Some 1\<rparr> (offer (buildGroupEvent (demoDraft ''g'') 1 7)
       (sendFrame (readyFrame ''c'' 0 0) (newListener ''g'' 0)))]"
    "listenersOf ''g'' (sy_hub s) = [0]" "sy_undispatched s = []" "memIssued (sy_store s) ''g'' = 1"
proof -
  let ?l = "sendFrame (readyFrame ''c'' 0 0) (newListener ''g'' 0)" and ?e = "buildGroupEvent (demoDraft ''g'') 1 7"
  let ?h = "\<lambda>l. \<lparr>hub_heap = [l], hub_listenersByGroup = [(''g'', [(''c'', 0)])]\<rparr>"
  let ?db = "\<lparr>mem_eventsByGroup = [], mem_sequenceByGroup = [], mem_historyLimit = 2\<rparr>"
  let ?db' = "\<lparr>mem_eventsByGroup = [(''g'', [?e])], mem_sequenceByGroup = [(''g'', 1)], mem_historyLimit = 2\<rparr>"
  let ?s = "\<lambda>db us rs h. \<lparr>sy_store = db, sy_hub = h, sy_undispatched = us, sy_replays = rs, sy_drains = []\<rparr>"
  let ?r = "\<lparr>rp_events = [?e], rp_earliestSequence = Some 1\<rparr>"
  have opened: "subscribeBegin ''g'' ''c'' 0 0 emptyHub = (0, ?h ?l)"
    by (simp add: subscribeBegin_def emptyHub_def register_def updateListener_def)
  have one: "step (newSystem ?db) (?s ?db [] [(0, ''c'', None)] (?h ?l))"
    using solo_step.solo_subscribe[of 0 "''g''" "''c''" 0 "newSystem ?db" 0 "?h ?l"] opened
    by (simp add: step_def newSystem_def)
  have "memAppend 7 (demoDraft ''g'') ?db = (Inr ?e, ?db')" by (simp add: memAppend_def demoDraft_def Let_def)
  then have two: "step (?s ?db [] [(0, ''c'', None)] (?h ?l)) (?s ?db' [(''g'', ?e)] [(0, ''c'', None)] (?h ?l))"
    using solo_step.solo_append[where accepts = "\<lambda>_ _. True" and now = 7 and d = "demoDraft ''g''"
        and put = memAppend and s = "?s ?db [] [(0, ''c'', None)] (?h ?l)"]
    by (simp add: step_def demoDraft_def)
  have "dispatch ''g'' ?e (?h ?l) = ?h (offer ?e ?l)"
    by (simp add: dispatch_def listenersOf_def updateListener_def)
  then have three: "step (?s ?db' [(''g'', ?e)] [(0, ''c'', None)] (?h ?l))
      (?s ?db' [] [(0, ''c'', None)] (?h (offer ?e ?l)))"
    using solo_step.solo_dispatch[of "?s ?db' [(''g'', ?e)] [(0, ''c'', None)] (?h ?l)" "''g''" ?e "[]"]
    by (simp add: step_def)
  have "memReplay ''g'' 0 512 ?db' = (Inr ?r, ?db')"
    by (simp add: memReplay_def requireReplayLimit_def defaultRealtimeReplayLimit_def buildGroupEvent_def Let_def)
  then have four: "step (?s ?db' [] [(0, ''c'', None)] (?h (offer ?e ?l)))
      (?s ?db' [] [(0, ''c'', Some (Inr ?r))] (?h (offer ?e ?l)))"
    using solo_step.solo_read[of "?s ?db' [] [(0, ''c'', None)] (?h (offer ?e ?l))" "[]" 0 "''c''" "[]"]
    by (simp add: step_def offer_def)
  have "subscribeFinish 0 ''c'' (Inr ?r) (?h (offer ?e ?l)) = ?h (answerReplay ?r (offer ?e ?l))"
    by (simp add: subscribeFinish_def updateListener_def)
  then have five: "step (?s ?db' [] [(0, ''c'', Some (Inr ?r))] (?h (offer ?e ?l)))
      (?s ?db' [] [] (?h (answerReplay ?r (offer ?e ?l))))"
    using solo_step.solo_finish[of "?s ?db' [] [(0, ''c'', Some (Inr ?r))] (?h (offer ?e ?l))" "[]" 0 "''c''"
        "Inr ?r" "[]"]
    by (simp add: step_def)
  have "reaches step (newSystem ?db) (?s ?db' [] [] (?h (answerReplay ?r (offer ?e ?l))))"
    by (rule reaches.reach_step[where step = step, OF reaches.reach_step[where step = step, OF
        reaches.reach_step[where step = step, OF reaches.reach_step[where step = step, OF
        reaches.reach_step[where step = step, OF reaches.reach_refl one] two] three] four] five])
  moreover have "newMemStore 2 = Inr ?db" by (simp add: newMemStore_def requireHistoryLimit_def)
  moreover have "memIssued ?db' ''g'' = 1" by (simp add: memIssued_def)
  ultimately show ?thesis
    by (intro that[of ?db "?s ?db' [] [] (?h (answerReplay ?r (offer ?e ?l)))"]) (simp_all add: listenersOf_def)
qed

theorem solo_delivery_gapless_witness:
  "\<exists>st s. newMemStore 2 = Inr st \<and>
     reaches (solo_step memAppend memReplay (\<lambda>_ _. True) 512) (newSystem st) s \<and>
     listenersOf ''g'' (sy_hub s) = [0] \<and> sy_undispatched s = [] \<and> memIssued (sy_store s) ''g'' = 1 \<and>
     sent (hub_heap (sy_hub s) ! 0) = [0 + 1..li_sentThrough (hub_heap (sy_hub s) ! 0)] \<and>
     1 \<le> li_sentThrough (hub_heap (sy_hub s) ! 0)"
proof -
  let ?e = "buildGroupEvent (demoDraft ''g'') 1 7"
  define l where "l = answerReplay \<lparr>rp_events = [?e], rp_earliestSequence = Some 1\<rparr>
    (offer ?e (sendFrame (readyFrame ''c'' 0 0) (newListener ''g'' 0)))"
  obtain st s where s: "newMemStore 2 = Inr st"
    "reaches (solo_step memAppend memReplay (\<lambda>_ _. True) 512) (newSystem st) s"
    "hub_heap (sy_hub s) = [l]" "listenersOf ''g'' (sy_hub s) = [0]" "sy_undispatched s = []"
    "memIssued (sy_store s) ''g'' = 1" unfolding l_def by (rule solo_demo_run)
  have limit: "requireReplayLimit 512 = Inr 512"
    by (simp add: requireReplayLimit_def defaultRealtimeReplayLimit_def)
  have l: "\<not> resynced l" "li_afterSequence l = 0" "li_groupId l = ''g''" "\<not> li_replaying l"
    by (simp_all add: l_def answerReplay_def decideReplay_def endReplay_def offer_def flushBuffered_def
        sendReplayed_def buildGroupEvent_def resynced_def sendFrame_def readyFrame_def groupEventFrame_def
        newListener_def)
  have main: "sent l = [li_afterSequence l + 1..li_sentThrough l] \<and>
    (0 \<in> set (listenersOf (li_groupId l) (sy_hub s)) \<and> \<not> li_replaying l \<and>
       undispatchedOf (li_groupId l) (sy_undispatched s) = [] \<longrightarrow>
     int (memIssued (sy_store s) (li_groupId l)) \<le> li_sentThrough l)"
    by (rule solo_delivery_gapless[OF s(1) limit _ s(2) _ _ l(1)]) (simp_all add: s(3))
  have "sent l = [0 + 1..li_sentThrough l]" "1 \<le> li_sentThrough l"
    using main by (simp_all add: l s(4-6) undispatchedOf_def)
  then show ?thesis
    using s by (intro exI[of _ st] exI[of _ s] conjI) simp_all
qed

end
