(* ===== verification/Fanout_Codec.thy ===== *)
theory Fanout_Codec
  imports Realtime_Hub
begin

text \<open>
  The announcements of \<open>apps/control-plane/src/realtime/fanout.ts\<close>: their wire form, and the
  process-local bus. \<open>JSON.parse\<close> is an argument of the decoder, \<open>None\<close> where it throws.
  An array is an object without the three names; the value of a number is never read.
\<close>

section \<open>Values off the carrier\<close>

datatype js_value =
    JUndefined
  | JNull
  | JBoolean bool
  | JNumber
  | JString string
  | JObject "(string \<times> js_value) list"

definition member :: "string \<Rightarrow> (string \<times> js_value) list \<Rightarrow> js_value" where
  "member name entries = (case map_of entries name of None \<Rightarrow> JUndefined | Some v \<Rightarrow> v)"

section \<open>The wire form\<close>

text \<open>\<open>bigint.toString()\<close>.\<close>

definition bigintText :: "int \<Rightarrow> string" where
  "bigintText n = (if n < 0 then CHR ''-'' # decimal (nat (- n)) else decimal (nat n))"

definition encodeGroupEventNotification :: "notification \<Rightarrow> js_value" where
  "encodeGroupEventNotification n = JObject
     [(''g'', JString (no_groupId n)), (''s'', JString (bigintText (no_sequence n))), (''o'', JString (no_originId n))]"

definition parseJson :: "(string \<Rightarrow> js_value option) \<Rightarrow> string \<Rightarrow> js_value" where
  "parseJson parse value = (case parse value of None \<Rightarrow> JUndefined | Some v \<Rightarrow> v)"

definition decodeGroupEventNotification :: "(string \<Rightarrow> js_value option) \<Rightarrow> js_value \<Rightarrow> notification option" where
  "decodeGroupEventNotification parse value =
     (let decoded = (case value of JString s \<Rightarrow> parseJson parse s | v \<Rightarrow> v) in
      case decoded of
        JObject entries \<Rightarrow>
          (case (member ''g'' entries, member ''s'' entries, member ''o'' entries) of
             (JString g, s, JString o') \<Rightarrow>
               if g = [] \<or> o' = [] then None
               else (case s of
                       JString ds \<Rightarrow> if ds \<noteq> [] \<and> list_all is_digit ds
                         then Some \<lparr>no_groupId = g, no_sequence = int (undecimal ds), no_originId = o'\<rparr> else None
                     | _ \<Rightarrow> None)
           | _ \<Rightarrow> None)
      | _ \<Rightarrow> None)"

section \<open>The process-local bus\<close>

text \<open>Handlers by origin; \<open>busAnnounce\<close> is the sequence of calls one announcement makes.\<close>

type_synonym 'h bus = "(string, 'h) jsmap"

definition busListen :: "string \<Rightarrow> 'h \<Rightarrow> 'h bus \<Rightarrow> 'h bus" where
  "busListen originId handler bus = js_set originId handler bus"

definition busRelease :: "string \<Rightarrow> 'h bus \<Rightarrow> 'h bus" where
  "busRelease originId bus = js_delete originId bus"

definition busAnnounce :: "notification \<Rightarrow> 'h bus \<Rightarrow> ('h \<times> notification) list" where
  "busAnnounce n bus = map (\<lambda>h. (h, n)) (map snd bus)"

section \<open>Round trip\<close>

lemma bigint_digits: "0 \<le> n \<Longrightarrow> bigintText n \<noteq> [] \<and> list_all is_digit (bigintText n) \<and> int (undecimal (bigintText n)) = n"
  using decimal_digits[of "nat n"] decimal_nonempty[of "nat n"] by (simp add: bigintText_def list_all_iff)

lemma bigint_sign: "n < 0 \<Longrightarrow> \<not> list_all is_digit (bigintText n)"
  by (simp add: bigintText_def is_digit_def)

text \<open>
  An announcement survives its carrier. Decoding an encoded notification, handed over as an object
  or as any text that parses to it, gives the notification back exactly, whatever the size of its
  sequence, when its group and its origin are named and its sequence is not negative, and nothing
  otherwise. Conversely whatever decodes names a group and an origin and carries a sequence that is
  not negative.
\<close>

theorem announcement_round_trip:
  "decodeGroupEventNotification parse (encodeGroupEventNotification n) =
     (if no_groupId n \<noteq> [] \<and> no_originId n \<noteq> [] \<and> 0 \<le> no_sequence n then Some n else None) \<and>
   (parse text = Some (encodeGroupEventNotification n) \<longrightarrow>
     decodeGroupEventNotification parse (JString text) = decodeGroupEventNotification parse (encodeGroupEventNotification n)) \<and>
   (decodeGroupEventNotification parse v = Some m \<longrightarrow> no_groupId m \<noteq> [] \<and> no_originId m \<noteq> [] \<and> 0 \<le> no_sequence m)"
proof (intro conjI impI)
  show "decodeGroupEventNotification parse (encodeGroupEventNotification n) =
     (if no_groupId n \<noteq> [] \<and> no_originId n \<noteq> [] \<and> 0 \<le> no_sequence n then Some n else None)"
    using bigint_digits[of "no_sequence n"] bigint_sign[of "no_sequence n"]
    by (cases "0 \<le> no_sequence n") (auto simp: decodeGroupEventNotification_def encodeGroupEventNotification_def member_def)
  show "decodeGroupEventNotification parse (JString text) = decodeGroupEventNotification parse (encodeGroupEventNotification n)"
    if "parse text = Some (encodeGroupEventNotification n)"
    using that by (simp add: decodeGroupEventNotification_def encodeGroupEventNotification_def parseJson_def)
qed (auto simp: decodeGroupEventNotification_def Let_def split: js_value.splits if_splits)

theorem announcement_round_trip_witness:
  "decodeGroupEventNotification (\<lambda>t. if t = ''x'' then Some (encodeGroupEventNotification
     \<lparr>no_groupId = ''g'', no_sequence = 9007199254740993, no_originId = ''p''\<rparr>) else None) (JString ''x'') =
   Some \<lparr>no_groupId = ''g'', no_sequence = 9007199254740993, no_originId = ''p''\<rparr>"
  using announcement_round_trip[of "\<lambda>t. if t = ''x'' then Some (encodeGroupEventNotification
     \<lparr>no_groupId = ''g'', no_sequence = 9007199254740993, no_originId = ''p''\<rparr>) else None"
     "\<lparr>no_groupId = ''g'', no_sequence = 9007199254740993, no_originId = ''p''\<rparr>" "''x''" JNull]
  by simp

end
