(* ===== verification/Presence_Store.thy ===== *)
theory Presence_Store
  imports Event_Log "HOL-Library.Char_ord" "HOL-Library.List_Lexorder" "HOL-Library.Product_Lexorder"
begin

text \<open>
  Who is present in a group: the two stores of \<open>apps/control-plane/src/sync/presence-store.ts\<close> and the
  readers of \<open>sync/rows.ts\<close> they use.

  \<^item> The in-memory store is a map of maps. The inner maps are mutated in place; writing the inner map
    back under its key is the same, since no other reference to it is kept.
  \<^item> The durable store is one SQL statement an operation, the function of its tables that the
    statement denotes. The tables' primary keys are part of the invariant of the proofs. The driver's
    rendering of \<open>bigint\<close> and \<open>integer\<close> columns is a parameter.
  \<^item> The range of the two numeric columns is not modelled: the RPC layer bounds the latency and the
    wire type bounds the clock offset before either store is called.
\<close>

section \<open>Data\<close>

record presence_snapshot =
  ps_deviceId :: string
  ps_status :: device_status
  ps_activeScreen :: string
  ps_selectedElement :: string
  ps_clockOffsetMs :: int
  ps_latencyMs :: int
  ps_observedAt :: int

record record_input =
  ri_groupId :: string
  ri_deviceId :: string
  ri_status :: device_status
  ri_activeScreen :: "string option"
  ri_selectedElement :: "string option"
  ri_clockOffsetMs :: "int option"
  ri_latencyMs :: "int option"

record report_input =
  rd_groupId :: string
  rd_deviceId :: string
  rd_activeScreen :: string
  rd_selectedElement :: string
  rd_clockOffsetMs :: int
  rd_latencyMs :: int

text \<open>The operator \<open>??\<close>.\<close>

definition nullish :: "'a option \<Rightarrow> 'a \<Rightarrow> 'a" where
  "nullish v d = (case v of None \<Rightarrow> d | Some x \<Rightarrow> x)"

section \<open>The in-memory store\<close>

type_synonym mem_presence = "(string, (string, presence_snapshot) jsmap) jsmap"
type_synonym ('s, 'a) pm = "('s, rt_error, 'a) sm"

definition memRecord :: "int \<Rightarrow> record_input \<Rightarrow> (mem_presence, presence_snapshot) pm" where
  "memRecord now input = (\<lambda>byGroup.
     let snapshot = \<lparr>ps_deviceId = ri_deviceId input, ps_status = ri_status input,
           ps_activeScreen = nullish (ri_activeScreen input) [],
           ps_selectedElement = nullish (ri_selectedElement input) [],
           ps_clockOffsetMs = nullish (ri_clockOffsetMs input) 0,
           ps_latencyMs = nullish (ri_latencyMs input) 0, ps_observedAt = now\<rparr>;
         members = nullish (js_get byGroup (ri_groupId input)) []
     in (Inr snapshot, js_set (ri_groupId input) (js_set (ri_deviceId input) snapshot members) byGroup))"

definition memReport :: "int \<Rightarrow> report_input \<Rightarrow> (mem_presence, presence_snapshot option) pm" where
  "memReport now input = (\<lambda>byGroup.
     case js_get byGroup (rd_groupId input) of
       None \<Rightarrow> (Inr None, byGroup)
     | Some members \<Rightarrow>
         (case js_get members (rd_deviceId input) of
            None \<Rightarrow> (Inr None, byGroup)
          | Some previous \<Rightarrow>
              let snapshot = previous\<lparr>ps_activeScreen := rd_activeScreen input,
                    ps_selectedElement := rd_selectedElement input,
                    ps_clockOffsetMs := rd_clockOffsetMs input,
                    ps_latencyMs := rd_latencyMs input, ps_observedAt := now\<rparr>
              in (Inr (Some snapshot),
                  js_set (rd_groupId input) (js_set (rd_deviceId input) snapshot members) byGroup)))"

definition memRenew :: "string \<Rightarrow> string \<Rightarrow> (mem_presence, unit) pm" where
  "memRenew groupId deviceId = sm_return ()"

definition memForget :: "string \<Rightarrow> string \<Rightarrow> (mem_presence, unit) pm" where
  "memForget groupId deviceId = (\<lambda>byGroup.
     (Inr (), case js_get byGroup groupId of
        None \<Rightarrow> byGroup
      | Some members \<Rightarrow> js_set groupId (js_delete deviceId members) byGroup))"

definition memList :: "string \<Rightarrow> (mem_presence, presence_snapshot list) pm" where
  "memList groupId = sm_get (\<lambda>byGroup. map snd (nullish (js_get byGroup groupId) []))"

section \<open>Readers of driver values\<close>

definition invalidField :: "string \<Rightarrow> rt_error" where
  "invalidField field = PlainError (''The database returned an invalid '' @ field @ ''.'')"

definition readText :: "sql_value \<Rightarrow> string \<Rightarrow> rt_error + string" where
  "readText v field =
     (case v of SqlText s \<Rightarrow> (if s = [] then Inl (invalidField field) else Inr s)
              | _ \<Rightarrow> Inl (invalidField field))"

definition readOptionalText :: "sql_value \<Rightarrow> string option" where
  "readOptionalText v = (case v of SqlText s \<Rightarrow> (if s = [] then None else Some s) | _ \<Rightarrow> None)"

definition isSafeInteger :: "int \<Rightarrow> bool" where
  "isSafeInteger n \<longleftrightarrow> \<bar>n\<bar> \<le> 2 ^ 53 - 1"

definition readBigInt :: "sql_value \<Rightarrow> string \<Rightarrow> rt_error + int" where
  "readBigInt v field =
     (case v of
        SqlBigint n \<Rightarrow> Inr n
      | SqlNumber n \<Rightarrow> (if isSafeInteger n then Inr n else Inl (invalidField field))
      | SqlText s \<Rightarrow>
          (case s of
             CHR ''-'' # ds \<Rightarrow> (if ds \<noteq> [] \<and> list_all is_digit ds then Inr (- int (undecimal ds))
                              else Inl (invalidField field))
           | _ \<Rightarrow> (if s \<noteq> [] \<and> list_all is_digit s then Inr (int (undecimal s))
                   else Inl (invalidField field)))
      | _ \<Rightarrow> Inl (invalidField field))"

fun statusName :: "device_status \<Rightarrow> string" where
  "statusName OFFLINE = ''OFFLINE''"
| "statusName ONLINE = ''ONLINE''"
| "statusName REVOKED = ''REVOKED''"

definition readPresenceStatus :: "sql_value \<Rightarrow> rt_error + device_status" where
  "readPresenceStatus v =
     (case readText v ''status'' of
        Inl e \<Rightarrow> Inl e
      | Inr status \<Rightarrow>
          if status = ''OFFLINE'' then Inr OFFLINE
          else if status = ''ONLINE'' then Inr ONLINE
          else if status = ''REVOKED'' then Inr REVOKED
          else Inl (PlainError ''The database returned an invalid presence status.''))"

section \<open>The durable store\<close>

record presence_row =
  pr_groupId :: string
  pr_deviceId :: string
  pr_status :: string
  pr_activeScreen :: string
  pr_selectedElement :: string
  pr_clockOffsetMs :: int
  pr_latencyMs :: int
  pr_observedAt :: int

record presence_db =
  pb_presence :: "presence_row list"
  pb_memberships :: "membership_row list"
  pb_deviceStatus :: "(string, device_status) jsmap"

text \<open>How the driver renders the columns \<open>clock_offset_ms bigint\<close> and \<open>latency_ms integer\<close>.\<close>

record presence_driver =
  dv_bigint :: "int \<Rightarrow> sql_value"
  dv_integer :: "int \<Rightarrow> sql_value"

definition toPresenceSnapshot :: "presence_driver \<Rightarrow> presence_row \<Rightarrow> rt_error + presence_snapshot" where
  "toPresenceSnapshot drv row =
     (case readText (SqlText (pr_deviceId row)) ''device_id'' of
        Inl e \<Rightarrow> Inl e
      | Inr deviceId \<Rightarrow>
     (case readPresenceStatus (SqlText (pr_status row)) of
        Inl e \<Rightarrow> Inl e
      | Inr status \<Rightarrow>
     (case readBigInt (dv_bigint drv (pr_clockOffsetMs row)) ''clock_offset_ms'' of
        Inl e \<Rightarrow> Inl e
      | Inr clockOffsetMs \<Rightarrow>
     (case readBigInt (dv_integer drv (pr_latencyMs row)) ''latency_ms'' of
        Inl e \<Rightarrow> Inl e
      | Inr latencyMs \<Rightarrow>
          Inr \<lparr>ps_deviceId = deviceId, ps_status = status,
               ps_activeScreen = nullish (readOptionalText (SqlText (pr_activeScreen row))) [],
               ps_selectedElement = nullish (readOptionalText (SqlText (pr_selectedElement row))) [],
               ps_clockOffsetMs = clockOffsetMs, ps_latencyMs = latencyMs,
               ps_observedAt = pr_observedAt row\<rparr>))))"

text \<open>The membership guard of the two writing statements.\<close>

definition activeMember :: "string \<Rightarrow> string \<Rightarrow> presence_db \<Rightarrow> bool" where
  "activeMember groupId deviceId db =
     (list_ex (\<lambda>m. mr_groupId m = groupId \<and> mr_deviceId m = deviceId \<and> mr_revokedAt m = None) (pb_memberships db) \<and>
      (case js_get (pb_deviceStatus db) deviceId of None \<Rightarrow> False | Some st \<Rightarrow> st \<noteq> REVOKED))"

definition rowAt :: "string \<Rightarrow> string \<Rightarrow> presence_row \<Rightarrow> bool" where
  "rowAt groupId deviceId row \<longleftrightarrow> pr_groupId row = groupId \<and> pr_deviceId row = deviceId"

text \<open>\<open>INSERT \<dots> ON CONFLICT (group_id, device_id) DO UPDATE\<close>.\<close>

definition upsertRow :: "presence_row \<Rightarrow> presence_row list \<Rightarrow> presence_row list" where
  "upsertRow row rows =
     (if list_ex (rowAt (pr_groupId row) (pr_deviceId row)) rows
      then map (\<lambda>r. if rowAt (pr_groupId row) (pr_deviceId row) r then row else r) rows
      else rows @ [row])"

definition durableRecord ::
  "presence_driver \<Rightarrow> int \<Rightarrow> record_input \<Rightarrow> (presence_db, presence_snapshot) pm" where
  "durableRecord drv now input = (\<lambda>db.
     if activeMember (ri_groupId input) (ri_deviceId input) db then
       let row = \<lparr>pr_groupId = ri_groupId input, pr_deviceId = ri_deviceId input,
             pr_status = statusName (ri_status input),
             pr_activeScreen = nullish (ri_activeScreen input) [],
             pr_selectedElement = nullish (ri_selectedElement input) [],
             pr_clockOffsetMs = nullish (ri_clockOffsetMs input) 0,
             pr_latencyMs = nullish (ri_latencyMs input) 0, pr_observedAt = now\<rparr>
       in (toPresenceSnapshot drv row, db\<lparr>pb_presence := upsertRow row (pb_presence db)\<rparr>)
     else (Inl (PairedDeviceRuntimeError PERMISSION_DENIED
             ''Only an active member of the group can announce its presence.''), db))"

definition reportedRow :: "int \<Rightarrow> report_input \<Rightarrow> presence_row \<Rightarrow> presence_row" where
  "reportedRow now input row = row\<lparr>pr_activeScreen := rd_activeScreen input,
     pr_selectedElement := rd_selectedElement input, pr_clockOffsetMs := rd_clockOffsetMs input,
     pr_latencyMs := rd_latencyMs input, pr_observedAt := now\<rparr>"

definition durableReport ::
  "presence_driver \<Rightarrow> int \<Rightarrow> report_input \<Rightarrow> (presence_db, presence_snapshot option) pm" where
  "durableReport drv now input = (\<lambda>db.
     let hit = (\<lambda>row. rowAt (rd_groupId input) (rd_deviceId input) row \<and>
                 activeMember (rd_groupId input) (rd_deviceId input) db)
     in case filter hit (pb_presence db) of
          [] \<Rightarrow> (Inr None, db)
        | row # _ \<Rightarrow>
            (case toPresenceSnapshot drv (reportedRow now input row) of Inl e \<Rightarrow> Inl e | Inr p \<Rightarrow> Inr (Some p),
             db\<lparr>pb_presence := map (\<lambda>r. if hit r then reportedRow now input r else r) (pb_presence db)\<rparr>))"

definition durableRenew :: "string \<Rightarrow> string \<Rightarrow> (presence_db, unit) pm" where
  "durableRenew groupId deviceId = sm_return ()"

definition durableForget :: "string \<Rightarrow> string \<Rightarrow> (presence_db, unit) pm" where
  "durableForget groupId deviceId = sm_return ()"

definition presentRows :: "string \<Rightarrow> presence_db \<Rightarrow> presence_row list" where
  "presentRows groupId db =
     sort_key (\<lambda>row. (- pr_observedAt row, pr_deviceId row))
       (concat (map (\<lambda>row. map (\<lambda>_. row)
          (filter (\<lambda>m. mr_groupId m = pr_groupId row \<and> mr_deviceId m = pr_deviceId row \<and>
             pr_groupId row = groupId \<and> mr_revokedAt m = None) (pb_memberships db))) (pb_presence db)))"

definition durableList :: "presence_driver \<Rightarrow> string \<Rightarrow> (presence_db, presence_snapshot list) pm" where
  "durableList drv groupId =
     sm_bind (sm_get (presentRows groupId)) (\<lambda>rows. sm_mapM (\<lambda>row. sm_lift (toPresenceSnapshot drv row)) rows)"

end
