(* ===== verification/Presence_Correct.thy ===== *)
theory Presence_Correct
  imports Presence_Store
begin

text \<open>
  The two presence stores keep one contract. The locale \<open>presence_store\<close> states it over the pairs of
  a group and a device that are present, its lemma follows a whole history of operations, and both
  stores are interpretations.
\<close>

section \<open>Histories\<close>

datatype presence_op =
    Announce record_input
  | Report report_input
  | Renew string string
  | Withdraw string string

datatype presence_answer = Announced presence_snapshot | Reported "presence_snapshot option" | Done | Failed rt_error

fun op_key :: "presence_op \<Rightarrow> string \<times> string" where
  "op_key (Announce i) = (ri_groupId i, ri_deviceId i)"
| "op_key (Report i) = (rd_groupId i, rd_deviceId i)"
| "op_key (Renew g d) = (g, d)"
| "op_key (Withdraw g d) = (g, d)"

fun op_numbers :: "presence_op \<Rightarrow> int \<times> int" where
  "op_numbers (Announce i) = (nullish (ri_clockOffsetMs i) 0, nullish (ri_latencyMs i) 0)"
| "op_numbers (Report i) = (rd_clockOffsetMs i, rd_latencyMs i)"
| "op_numbers _ = (0, 0)"

text \<open>The values of the columns \<open>clock_offset_ms bigint\<close> and \<open>latency_ms integer\<close>.\<close>

definition storable :: "int \<times> int \<Rightarrow> bool" where
  "storable = (\<lambda>(clock, latency). - (2 ^ 63) \<le> clock \<and> clock < 2 ^ 63 \<and> - (2 ^ 31) \<le> latency \<and> latency < 2 ^ 31)"

text \<open>A device is withdrawn when its membership is revoked, and does nothing afterwards.\<close>

fun admitted :: "(string \<times> string) set \<Rightarrow> (int \<times> presence_op) list \<Rightarrow> bool" where
  "admitted M [] \<longleftrightarrow> True"
| "admitted M ((now, Withdraw g d) # ops) \<longleftrightarrow> admitted (M - {(g, d)}) ops"
| "admitted M ((now, op) # ops) \<longleftrightarrow> op_key op \<in> M \<and> storable (op_numbers op) \<and> admitted M ops"

section \<open>The specification\<close>

type_synonym presence_view = "string \<times> string \<Rightarrow> presence_snapshot option"

definition announced :: "int \<Rightarrow> record_input \<Rightarrow> presence_snapshot" where
  "announced now i = \<lparr>ps_deviceId = ri_deviceId i, ps_status = ri_status i,
     ps_activeScreen = nullish (ri_activeScreen i) [], ps_selectedElement = nullish (ri_selectedElement i) [],
     ps_clockOffsetMs = nullish (ri_clockOffsetMs i) 0, ps_latencyMs = nullish (ri_latencyMs i) 0,
     ps_observedAt = now\<rparr>"

definition reported :: "int \<Rightarrow> report_input \<Rightarrow> presence_snapshot \<Rightarrow> presence_snapshot" where
  "reported now i p = p\<lparr>ps_activeScreen := rd_activeScreen i, ps_selectedElement := rd_selectedElement i,
     ps_clockOffsetMs := rd_clockOffsetMs i, ps_latencyMs := rd_latencyMs i, ps_observedAt := now\<rparr>"

fun spec_op :: "int \<Rightarrow> presence_op \<Rightarrow> presence_view \<Rightarrow> presence_answer \<times> presence_view" where
  "spec_op now (Announce i) v = (Announced (announced now i), v((ri_groupId i, ri_deviceId i) \<mapsto> announced now i))"
| "spec_op now (Report i) v =
     (case v (rd_groupId i, rd_deviceId i) of
        None \<Rightarrow> (Reported None, v)
      | Some p \<Rightarrow> (Reported (Some (reported now i p)), v((rd_groupId i, rd_deviceId i) \<mapsto> reported now i p)))"
| "spec_op now (Renew g d) v = (Done, v)"
| "spec_op now (Withdraw g d) v = (Done, v((g, d) := None))"

text \<open>A history run through a store, and through the specification.\<close>

fun run_ops :: "(int \<Rightarrow> presence_op \<Rightarrow> 's \<Rightarrow> presence_answer \<times> 's) \<Rightarrow> (int \<times> presence_op) list \<Rightarrow> 's \<Rightarrow> presence_answer list \<times> 's" where
  "run_ops f [] s = ([], s)"
| "run_ops f ((now, op) # ops) s = (let (a, t) = f now op s; (as, u) = run_ops f ops t in (a # as, u))"

definition answered :: "('a \<Rightarrow> presence_answer) \<Rightarrow> ('s, rt_error, 'a) sm \<Rightarrow> 's \<Rightarrow> presence_answer \<times> 's" where
  "answered f m s = (case m s of (Inl e, t) \<Rightarrow> (Failed e, t) | (Inr a, t) \<Rightarrow> (f a, t))"

fun store_op ::
  "(int \<Rightarrow> record_input \<Rightarrow> ('s, presence_snapshot) pm) \<Rightarrow> (int \<Rightarrow> report_input \<Rightarrow> ('s, presence_snapshot option) pm) \<Rightarrow>
   (string \<Rightarrow> string \<Rightarrow> ('s, unit) pm) \<Rightarrow> (int \<Rightarrow> string \<Rightarrow> string \<Rightarrow> ('s, unit) pm) \<Rightarrow>
   int \<Rightarrow> presence_op \<Rightarrow> 's \<Rightarrow> presence_answer \<times> 's" where
  "store_op announce report renew withdraw now (Announce i) = answered Announced (announce now i)"
| "store_op announce report renew withdraw now (Report j) = answered Reported (report now j)"
| "store_op announce report renew withdraw now (Renew g d) = answered (\<lambda>_. Done) (renew g d)"
| "store_op announce report renew withdraw now (Withdraw g d) = answered (\<lambda>_. Done) (withdraw now g d)"

locale presence_store =
  fixes announce :: "int \<Rightarrow> record_input \<Rightarrow> ('s, presence_snapshot) pm"
    and report :: "int \<Rightarrow> report_input \<Rightarrow> ('s, presence_snapshot option) pm"
    and renew :: "string \<Rightarrow> string \<Rightarrow> ('s, unit) pm"
    and withdraw :: "int \<Rightarrow> string \<Rightarrow> string \<Rightarrow> ('s, unit) pm"
    and listing :: "string \<Rightarrow> ('s, presence_snapshot list) pm"
    and view :: "'s \<Rightarrow> presence_view"
    and may :: "'s \<Rightarrow> string \<times> string \<Rightarrow> bool"
    and ok :: "'s \<Rightarrow> bool"
  assumes announce_law: "ok s \<Longrightarrow> may s (ri_groupId i, ri_deviceId i) \<Longrightarrow> storable (op_numbers (Announce i)) \<Longrightarrow> \<exists>t.
      announce now i s = (Inr (announced now i), t) \<and> ok t \<and> may t = may s \<and>
      view t = (view s)((ri_groupId i, ri_deviceId i) \<mapsto> announced now i)"
    and report_law: "ok s \<Longrightarrow> may s (rd_groupId j, rd_deviceId j) \<Longrightarrow> storable (op_numbers (Report j)) \<Longrightarrow>
      (case view s (rd_groupId j, rd_deviceId j) of
         None \<Rightarrow> report now j s = (Inr None, s)
       | Some p \<Rightarrow> \<exists>t. report now j s = (Inr (Some (reported now j p)), t) \<and> ok t \<and> may t = may s \<and>
           view t = (view s)((rd_groupId j, rd_deviceId j) \<mapsto> reported now j p))"
    and renew_law: "renew g d s = (Inr (), s)"
    and withdraw_law: "ok s \<Longrightarrow> \<exists>t. withdraw now g d s = (Inr (), t) \<and> ok t \<and>
      (\<forall>k. k \<noteq> (g, d) \<longrightarrow> may t k = may s k) \<and> view t = (view s)((g, d) := None)"
    and list_law: "ok s \<Longrightarrow> \<exists>ps. listing g s = (Inr ps, s) \<and> distinct (map ps_deviceId ps) \<and>
      (\<forall>p. p \<in> set ps \<longleftrightarrow> view s (g, ps_deviceId p) = Some p)"
begin

abbreviation apply_op :: "int \<Rightarrow> presence_op \<Rightarrow> 's \<Rightarrow> presence_answer \<times> 's" where
  "apply_op \<equiv> store_op announce report renew withdraw"

lemma store_op_refines:
  assumes "ok s" and "\<forall>k \<in> M. may s k" and "op_key op \<in> M \<and> storable (op_numbers op) \<or> (\<exists>g d. op = Withdraw g d)"
  obtains t where "apply_op now op s = (fst (spec_op now op (view s)), t)" and "ok t"
    and "view t = snd (spec_op now op (view s))"
    and "\<forall>k \<in> M - (case op of Withdraw g d \<Rightarrow> {(g, d)} | _ \<Rightarrow> {}). may t k"
proof (cases op)
  case (Announce i)
  then show ?thesis using announce_law[OF assms(1), of i now] assms(2,3) that by (auto simp: answered_def)
next
  case (Report i)
  then show ?thesis
    using report_law[OF assms(1), of i now] assms that
    by (cases "view s (rd_groupId i, rd_deviceId i)") (auto simp: answered_def)
next
  case (Renew g d)
  then show ?thesis using renew_law[of g d s] assms(1,2) that by (simp add: answered_def)
next
  case (Withdraw g d)
  then show ?thesis using withdraw_law[OF assms(1), of now g d] assms(2) that by (fastforce simp: answered_def)
qed

lemma run_refines:
  assumes "ok s" and "\<forall>k \<in> M. may s k" and "admitted M ops"
  shows "\<exists>t. run_ops apply_op ops s = (fst (run_ops spec_op ops (view s)), t) \<and> ok t \<and>
    view t = snd (run_ops spec_op ops (view s))"
  using assms
proof (induction ops arbitrary: s M)
  case Nil
  then show ?case by simp
next
  case (Cons x ops)
  obtain now op where x: "x = (now, op)" by (cases x)
  let ?M = "M - (case op of Withdraw g d \<Rightarrow> {(g, d)} | _ \<Rightarrow> {})"
  have adm: "op_key op \<in> M \<and> storable (op_numbers op) \<or> (\<exists>g d. op = Withdraw g d)" "admitted ?M ops"
    using Cons.prems(3) by (cases op; simp add: x)+
  obtain t where t: "apply_op now op s = (fst (spec_op now op (view s)), t)" "ok t"
    "view t = snd (spec_op now op (view s))" "\<forall>k \<in> ?M. may t k"
    by (rule store_op_refines[OF Cons.prems(1,2) adm(1), where now = now])
  from Cons.IH[OF t(2,4) adm(2)] show ?case by (auto simp: x t(1,3) split_beta)
qed

lemma run_list:
  assumes "ok s" and "\<forall>k \<in> M. may s k" and "admitted M ops"
  shows "\<exists>ps. fst (listing g (snd (run_ops apply_op ops s))) = Inr ps \<and> distinct (map ps_deviceId ps) \<and>
    set ps = {p. snd (run_ops spec_op ops (view s)) (g, ps_deviceId p) = Some p}"
proof -
  obtain t where "run_ops apply_op ops s = (fst (run_ops spec_op ops (view s)), t)" "ok t"
    "view t = snd (run_ops spec_op ops (view s))"
    using run_refines[OF assms] by blast
  then show ?thesis using list_law[of t g] by auto
qed

end

section \<open>The in-memory store\<close>

definition memView :: "mem_presence \<Rightarrow> presence_view" where
  "memView s = (\<lambda>(g, d). Option.bind (js_get s g) (\<lambda>m. js_get m d))"

definition memPresenceOk :: "mem_presence \<Rightarrow> bool" where
  "memPresenceOk s \<longleftrightarrow> (\<forall>g m. js_get s g = Some m \<longrightarrow> distinct (map fst m) \<and>
     (\<forall>d p. js_get m d = Some p \<longrightarrow> ps_deviceId p = d))"

definition memWithdraw :: "int \<Rightarrow> string \<Rightarrow> string \<Rightarrow> (mem_presence, unit) pm" where
  "memWithdraw now g d = memForget g d"

lemma memPresenceOk_set:
  assumes "memPresenceOk s" and "ps_deviceId p = d" and "js_get s g = Some m \<or> m = []"
  shows "memPresenceOk (js_set g (js_set d p m) s)"
  unfolding memPresenceOk_def
proof (intro allI impI)
  fix g' m' assume "js_get (js_set g (js_set d p m) s) g' = Some m'"
  then have m': "g' = g \<and> m' = js_set d p m \<or> js_get s g' = Some m'" by (auto simp: jsmap_simps split: if_splits)
  have m: "distinct (map fst m) \<and> (\<forall>d p. js_get m d = Some p \<longrightarrow> ps_deviceId p = d)"
    using assms(1,3) by (cases "m = []") (simp_all add: memPresenceOk_def)
  show "distinct (map fst m') \<and> (\<forall>d p. js_get m' d = Some p \<longrightarrow> ps_deviceId p = d)"
    using m'
  proof
    assume "g' = g \<and> m' = js_set d p m"
    then show ?thesis using m assms(2) by (simp add: jsmap_simps)
  next
    assume "js_get s g' = Some m'"
    then show ?thesis using assms(1) by (simp add: memPresenceOk_def)
  qed
qed

interpretation mem_presence: presence_store memRecord memReport memRenew memWithdraw memList memView "\<lambda>_ _. True" memPresenceOk
proof
  fix s :: mem_presence and i :: record_input and now
  assume ok: "memPresenceOk s"
  show "\<exists>t. memRecord now i s = (Inr (announced now i), t) \<and> memPresenceOk t \<and> (\<lambda>_. True) = (\<lambda>_. True) \<and>
      memView t = (memView s)((ri_groupId i, ri_deviceId i) \<mapsto> announced now i)"
    using memPresenceOk_set[OF ok, of "announced now i" "ri_deviceId i" "ri_groupId i" "nullish (js_get s (ri_groupId i)) []"]
    by (auto simp: memRecord_def announced_def memView_def jsmap_simps nullish_def fun_eq_iff Let_def split: option.splits)
next
  fix s :: mem_presence and i :: report_input and now
  assume ok: "memPresenceOk s"
  show "case memView s (rd_groupId i, rd_deviceId i) of
         None \<Rightarrow> memReport now i s = (Inr None, s)
       | Some p \<Rightarrow> \<exists>t. memReport now i s = (Inr (Some (reported now i p)), t) \<and> memPresenceOk t \<and>
           (\<lambda>_. True) = (\<lambda>_. True) \<and> memView t = (memView s)((rd_groupId i, rd_deviceId i) \<mapsto> reported now i p)"
  proof (cases "memView s (rd_groupId i, rd_deviceId i)")
    case None
    then show ?thesis by (auto simp: memView_def memReport_def bind_eq_None_conv split: option.splits)
  next
    case (Some p)
    then obtain m where m: "js_get s (rd_groupId i) = Some m" "js_get m (rd_deviceId i) = Some p"
      by (auto simp: memView_def bind_eq_Some_conv)
    then have "ps_deviceId p = rd_deviceId i"
      using ok by (simp add: memPresenceOk_def)
    then show ?thesis
      using Some m memPresenceOk_set[OF ok, of "reported now i p" "rd_deviceId i" "rd_groupId i" m]
      by (auto simp: memReport_def reported_def memView_def jsmap_simps fun_eq_iff Let_def)
  qed
next
  fix s :: mem_presence and now g d
  assume ok: "memPresenceOk s"
  have "memPresenceOk (js_set g (js_delete d m) s)" if "js_get s g = Some m" for m
    using ok that by (simp add: memPresenceOk_def jsmap_simps)
  then show "\<exists>t. memWithdraw now g d s = (Inr (), t) \<and> memPresenceOk t \<and>
      (\<forall>k. k \<noteq> (g, d) \<longrightarrow> True = True) \<and> memView t = (memView s)((g, d) := None)"
    using ok by (auto simp: memWithdraw_def memForget_def memView_def jsmap_simps fun_eq_iff split: option.splits)
next
  fix s :: mem_presence and g
  assume ok: "memPresenceOk s"
  show "\<exists>ps. memList g s = (Inr ps, s) \<and> distinct (map ps_deviceId ps) \<and>
      (\<forall>p. p \<in> set ps \<longleftrightarrow> memView s (g, ps_deviceId p) = Some p)"
  proof (cases "js_get s g")
    case None
    then show ?thesis by (simp add: memList_def nullish_def memView_def sm_get_def)
  next
    case (Some m)
    then have m: "distinct (map fst m)" "\<And>d p. js_get m d = Some p \<Longrightarrow> ps_deviceId p = d"
      using ok by (simp_all add: memPresenceOk_def)
    have ids: "map ps_deviceId (map snd m) = map fst m"
      using m by (auto simp: map_of_eq_Some_iff[OF m(1)])
    have "p \<in> snd ` set m \<longleftrightarrow> js_get m (ps_deviceId p) = Some p" for p
    proof -
      have "p \<in> snd ` set m \<longleftrightarrow> (\<exists>d. js_get m d = Some p)" by (force simp: map_of_eq_Some_iff[OF m(1)])
      then show ?thesis using m(2) by blast
    qed
    then have "distinct (map ps_deviceId (map snd m)) \<and> (\<forall>p. p \<in> set (map snd m) \<longleftrightarrow> js_get m (ps_deviceId p) = Some p)"
      using m(1) by (simp only: set_map ids) simp
    then show ?thesis using Some by (simp add: memList_def nullish_def memView_def sm_get_def)
  qed
qed (simp add: memRenew_def)

section \<open>The durable store\<close>

definition rowKey :: "presence_row \<Rightarrow> string \<times> string" where
  "rowKey r = (pr_groupId r, pr_deviceId r)"

definition memberKey :: "membership_row \<Rightarrow> string \<times> string" where
  "memberKey m = (mr_groupId m, mr_deviceId m)"

definition unrevoked :: "presence_db \<Rightarrow> string \<times> string \<Rightarrow> bool" where
  "unrevoked db k \<longleftrightarrow> (\<exists>m \<in> set (pb_memberships db). memberKey m = k \<and> mr_revokedAt m = None)"

definition statusOf :: "string \<Rightarrow> device_status" where
  "statusOf s = (if s = ''ONLINE'' then ONLINE else if s = ''REVOKED'' then REVOKED else OFFLINE)"

definition rowSnapshot :: "presence_row \<Rightarrow> presence_snapshot" where
  "rowSnapshot r = \<lparr>ps_deviceId = pr_deviceId r, ps_status = statusOf (pr_status r),
     ps_activeScreen = pr_activeScreen r, ps_selectedElement = pr_selectedElement r,
     ps_clockOffsetMs = pr_clockOffsetMs r, ps_latencyMs = pr_latencyMs r, ps_observedAt = pr_observedAt r\<rparr>"

definition row_ok :: "presence_row \<Rightarrow> bool" where
  "row_ok r \<longleftrightarrow> pr_deviceId r \<noteq> [] \<and> pr_status r \<in> range statusName \<and> storable (pr_clockOffsetMs r, pr_latencyMs r)"

definition durPresenceOk :: "presence_db \<Rightarrow> bool" where
  "durPresenceOk db \<longleftrightarrow> distinct (map rowKey (pb_presence db)) \<and> distinct (map memberKey (pb_memberships db)) \<and>
     (\<forall>r \<in> set (pb_presence db). row_ok r)"

definition findRow :: "string \<times> string \<Rightarrow> presence_row list \<Rightarrow> presence_row option" where
  "findRow k rows = List.find (\<lambda>r. rowKey r = k) rows"

definition durView :: "presence_db \<Rightarrow> presence_view" where
  "durView db k = (if unrevoked db k then map_option rowSnapshot (findRow k (pb_presence db)) else None)"

definition durMay :: "presence_db \<Rightarrow> string \<times> string \<Rightarrow> bool" where
  "durMay db = (\<lambda>(g, d). activeMember g d db \<and> d \<noteq> [])"

text \<open>What the driver documents: both column types read back as the number that was stored.\<close>

definition driver_ok :: "presence_driver \<Rightarrow> bool" where
  "driver_ok drv \<longleftrightarrow> (\<forall>clock latency field. storable (clock, latency) \<longrightarrow>
     readBigInt (dv_bigint drv clock) field = Inr clock \<and> readBigInt (dv_integer drv latency) field = Inr latency)"

text \<open>The statement of \<open>revokeDevice\<close> that ends a membership, followed by the store's \<open>forget\<close>.\<close>

definition revokeMembership :: "int \<Rightarrow> string \<Rightarrow> string \<Rightarrow> presence_db \<Rightarrow> presence_db" where
  "revokeMembership now groupId deviceId db = db\<lparr>pb_memberships := map (\<lambda>m.
     if mr_groupId m = groupId \<and> mr_deviceId m = deviceId \<and> mr_revokedAt m = None
     then m\<lparr>mr_revokedAt := Some now\<rparr> else m) (pb_memberships db)\<rparr>"

definition durableWithdraw :: "int \<Rightarrow> string \<Rightarrow> string \<Rightarrow> (presence_db, unit) pm" where
  "durableWithdraw now g d = sm_bind (sm_modify (revokeMembership now g d)) (\<lambda>_. durableForget g d)"

lemma rowAt_key: "rowAt g d r \<longleftrightarrow> rowKey r = (g, d)"
  by (auto simp: rowAt_def rowKey_def)

lemma rowAt_row: "rowAt (pr_groupId row) (pr_deviceId row) r \<longleftrightarrow> rowKey r = rowKey row"
  by (auto simp: rowAt_def rowKey_def)

lemma upsertRow_keyed: "upsertRow row rows =
    (if rowKey row \<in> rowKey ` set rows then map (\<lambda>r. if rowKey r = rowKey row then row else r) rows else rows @ [row])"
proof -
  have "list_ex (rowAt (pr_groupId row) (pr_deviceId row)) rows \<longleftrightarrow> rowKey row \<in> rowKey ` set rows"
    by (simp add: list_ex_iff rowAt_row image_iff) metis
  then show ?thesis by (simp add: upsertRow_def rowAt_row)
qed

lemma statusOf_name [simp]: "statusOf (statusName st) = st"
  by (cases st) (simp_all add: statusOf_def)

lemma readPresenceStatus_ok: "s \<in> range statusName \<Longrightarrow> readPresenceStatus (SqlText s) = Inr (statusOf s)"
  by (auto simp: readPresenceStatus_def readText_def statusOf_def elim!: rangeE) (case_tac x; simp)+

lemma driver_reads:
  assumes "driver_ok drv" and "row_ok r"
  shows "readBigInt (dv_bigint drv (pr_clockOffsetMs r)) field = Inr (pr_clockOffsetMs r)"
    and "readBigInt (dv_integer drv (pr_latencyMs r)) field = Inr (pr_latencyMs r)"
  using assms by (auto simp: driver_ok_def row_ok_def)

lemma optional_text: "nullish (readOptionalText (SqlText s)) [] = s"
  by (simp add: readOptionalText_def nullish_def)

lemma snapshot_row: "driver_ok drv \<Longrightarrow> row_ok r \<Longrightarrow> toPresenceSnapshot drv r = Inr (rowSnapshot r)"
  using driver_reads[of drv r]
  by (simp add: toPresenceSnapshot_def readPresenceStatus_ok rowSnapshot_def readText_def optional_text row_ok_def)

lemma findRow_map:
  assumes "\<And>r. rowKey r = k \<Longrightarrow> rowKey (f r) = k"
  shows "findRow k' (map (\<lambda>r. if rowKey r = k then f r else r) rows) =
    (if k' = k then map_option f (findRow k rows) else findRow k' rows)"
  using assms by (induction rows) (auto simp: findRow_def)

lemma findRow_None: "findRow k rows = None \<longleftrightarrow> k \<notin> rowKey ` set rows"
  by (auto simp: findRow_def find_None_iff)

lemma findRow_upsert:
  "findRow k (upsertRow row rows) = (if k = rowKey row then Some row else findRow k rows)"
proof (cases "rowKey row \<in> rowKey ` set rows")
  case True
  then have "findRow (rowKey row) rows \<noteq> None" by (simp add: findRow_None)
  then show ?thesis
    using True findRow_map[of "rowKey row" "\<lambda>_. row" k rows] by (auto simp: upsertRow_keyed)
next
  case False
  have "findRow k (rows @ [row]) = (case findRow k rows of None \<Rightarrow> if rowKey row = k then Some row else None | Some r \<Rightarrow> Some r)"
    by (induction rows) (auto simp: findRow_def)
  then show ?thesis
    using False findRow_None[of k rows] by (auto simp: upsertRow_keyed split: option.splits)
qed

lemma upsert_keys:
  "map rowKey (upsertRow row rows) =
    (if rowKey row \<in> rowKey ` set rows then map rowKey rows else map rowKey rows @ [rowKey row])"
  by (auto simp: upsertRow_keyed)

lemma upsert_ok:
  assumes "durPresenceOk db" and "row_ok row"
  shows "durPresenceOk (db\<lparr>pb_presence := upsertRow row (pb_presence db)\<rparr>)"
proof -
  have "set (upsertRow row rows) \<subseteq> insert row (set rows)" for rows by (auto simp: upsertRow_keyed)
  then show ?thesis using assms by (auto simp: durPresenceOk_def upsert_keys)
qed

lemma active_unrevoked: "activeMember g d db \<Longrightarrow> unrevoked db (g, d)"
  by (auto simp: activeMember_def unrevoked_def list_ex_iff memberKey_def)

lemma report_keyed:
  assumes "durPresenceOk db" and "activeMember (rd_groupId j) (rd_deviceId j) db"
  shows "durableReport drv now j db =
    (case findRow (rd_groupId j, rd_deviceId j) (pb_presence db) of
       None \<Rightarrow> (Inr None, db)
     | Some r \<Rightarrow> (case toPresenceSnapshot drv (reportedRow now j r) of Inl e \<Rightarrow> Inl e | Inr p \<Rightarrow> Inr (Some p),
         db\<lparr>pb_presence := map (\<lambda>r. if rowKey r = (rd_groupId j, rd_deviceId j) then reportedRow now j r else r) (pb_presence db)\<rparr>))"
proof -
  let ?P = "\<lambda>r. rowKey r = (rd_groupId j, rd_deviceId j)"
  have hd: "\<exists>ys. filter P xs = (case List.find P xs of None \<Rightarrow> [] | Some x \<Rightarrow> x # ys)" for P and xs :: "presence_row list"
    by (induction xs) (auto split: option.splits)
  obtain ys where "filter ?P (pb_presence db) = (case List.find ?P (pb_presence db) of None \<Rightarrow> [] | Some x \<Rightarrow> x # ys)"
    using hd by blast
  then show ?thesis
    using assms(2)
    by (cases "List.find ?P (pb_presence db)") (simp_all add: durableReport_def rowAt_key findRow_def Let_def)
qed

lemma presentRows_keyed:
  assumes "durPresenceOk db"
  shows "set (presentRows g db) = {r \<in> set (pb_presence db). pr_groupId r = g \<and> unrevoked db (rowKey r)}"
    and "distinct (map rowKey (presentRows g db))"
proof -
  let ?hits = "\<lambda>r. filter (\<lambda>m. mr_groupId m = pr_groupId r \<and> mr_deviceId m = pr_deviceId r \<and>
     pr_groupId r = g \<and> mr_revokedAt m = None) (pb_memberships db)"
  have one: "map (\<lambda>_. r) (?hits r) = (if pr_groupId r = g \<and> unrevoked db (rowKey r) then [r] else [])" for r
  proof -
    have hits: "?hits r = (if pr_groupId r = g then filter (\<lambda>m. memberKey m = rowKey r \<and> mr_revokedAt m = None) (pb_memberships db) else [])"
      by (auto simp: memberKey_def rowKey_def intro: filter_cong)
    have "length (filter (\<lambda>m. memberKey m = k \<and> mr_revokedAt m = None) ms) =
        (if \<exists>m \<in> set ms. memberKey m = k \<and> mr_revokedAt m = None then 1 else 0)"
      if "distinct (map memberKey ms)" for k and ms :: "membership_row list"
      using that by (induction ms) (auto simp: filter_empty_conv image_iff)
    then have "length (?hits r) = (if pr_groupId r = g \<and> unrevoked db (rowKey r) then 1 else 0)"
      using assms by (auto simp: hits durPresenceOk_def unrevoked_def)
    then show ?thesis by (cases "?hits r") (auto split: if_splits)
  qed
  have "concat (map (\<lambda>r. if P r then [r] else []) xs) = filter P xs" for P and xs :: "presence_row list"
    by (induction xs) auto
  then have eq: "presentRows g db = sort_key (\<lambda>row. (- pr_observedAt row, pr_deviceId row))
      (filter (\<lambda>r. pr_groupId r = g \<and> unrevoked db (rowKey r)) (pb_presence db))"
    by (simp add: presentRows_def one)
  show "set (presentRows g db) = {r \<in> set (pb_presence db). pr_groupId r = g \<and> unrevoked db (rowKey r)}"
    by (auto simp: eq)
  have "mset (map rowKey (presentRows g db)) =
      mset (map rowKey (filter (\<lambda>r. pr_groupId r = g \<and> unrevoked db (rowKey r)) (pb_presence db)))"
    by (simp add: eq)
  moreover have "distinct (map rowKey (filter P xs))" if "distinct (map rowKey xs)" for P xs
    using that by (rule distinct_map_filter)
  ultimately show "distinct (map rowKey (presentRows g db))"
    using assms by (metis durPresenceOk_def mset_eq_imp_distinct_iff)
qed

lemma find_member:
  "distinct (map rowKey rows) \<Longrightarrow> r \<in> set rows \<Longrightarrow> findRow (rowKey r) rows = Some r"
  by (induction rows) (auto simp: findRow_def image_iff)

lemma find_key: "findRow k rows = Some r \<Longrightarrow> r \<in> set rows \<and> rowKey r = k"
  by (auto simp: findRow_def dest: find_SomeD)

lemma unrevoked_presence [simp]: "unrevoked (db\<lparr>pb_presence := rows\<rparr>) k = unrevoked db k"
  by (simp add: unrevoked_def)

lemma durView_presence:
  "durView (db\<lparr>pb_presence := rows\<rparr>) k = (if unrevoked db k then map_option rowSnapshot (findRow k rows) else None)"
  by (simp add: durView_def)

lemma durMay_presence: "durMay (db\<lparr>pb_presence := rows\<rparr>) = durMay db"
  by (simp add: durMay_def activeMember_def)

lemma durable_announce:
  assumes "driver_ok drv" and "durPresenceOk db" and "durMay db (ri_groupId i, ri_deviceId i)"
    and "storable (op_numbers (Announce i))"
  shows "\<exists>t. durableRecord drv now i db = (Inr (announced now i), t) \<and> durPresenceOk t \<and> durMay t = durMay db \<and>
      durView t = (durView db)((ri_groupId i, ri_deviceId i) \<mapsto> announced now i)"
proof -
  let ?row = "\<lparr>pr_groupId = ri_groupId i, pr_deviceId = ri_deviceId i, pr_status = statusName (ri_status i),
     pr_activeScreen = nullish (ri_activeScreen i) [], pr_selectedElement = nullish (ri_selectedElement i) [],
     pr_clockOffsetMs = nullish (ri_clockOffsetMs i) 0, pr_latencyMs = nullish (ri_latencyMs i) 0, pr_observedAt = now\<rparr>"
  let ?t = "db\<lparr>pb_presence := upsertRow ?row (pb_presence db)\<rparr>"
  have row: "row_ok ?row" using assms(3,4) by (simp add: row_ok_def durMay_def)
  have act: "activeMember (ri_groupId i) (ri_deviceId i) db" using assms(3) by (simp add: durMay_def)
  have snap: "rowSnapshot ?row = announced now i" by (simp add: rowSnapshot_def announced_def)
  have "durableRecord drv now i db = (Inr (announced now i), ?t)"
    using act snapshot_row[OF assms(1) row] snap by (simp add: durableRecord_def)
  moreover have "durView ?t = (durView db)((ri_groupId i, ri_deviceId i) \<mapsto> announced now i)"
    using active_unrevoked[OF act]
    by (auto simp: durView_presence durView_def findRow_upsert snap rowKey_def fun_eq_iff)
  ultimately show ?thesis using upsert_ok[OF assms(2) row] durMay_presence by blast
qed

lemma reportedRow_fields:
  "rowKey (reportedRow now j r) = rowKey r" "rowSnapshot (reportedRow now j r) = reported now j (rowSnapshot r)"
  "row_ok r \<Longrightarrow> storable (op_numbers (Report j)) \<Longrightarrow> row_ok (reportedRow now j r)"
  by (simp_all add: reportedRow_def rowKey_def rowSnapshot_def reported_def row_ok_def)

lemma durable_report:
  assumes "driver_ok drv" and "durPresenceOk db" and "durMay db (rd_groupId j, rd_deviceId j)"
    and "storable (op_numbers (Report j))"
  shows "case durView db (rd_groupId j, rd_deviceId j) of
         None \<Rightarrow> durableReport drv now j db = (Inr None, db)
       | Some p \<Rightarrow> \<exists>t. durableReport drv now j db = (Inr (Some (reported now j p)), t) \<and> durPresenceOk t \<and>
           durMay t = durMay db \<and> durView t = (durView db)((rd_groupId j, rd_deviceId j) \<mapsto> reported now j p)"
proof -
  let ?k = "(rd_groupId j, rd_deviceId j)"
  let ?rows = "map (\<lambda>r. if rowKey r = ?k then reportedRow now j r else r) (pb_presence db)"
  have act: "activeMember (rd_groupId j) (rd_deviceId j) db" using assms(3) by (simp add: durMay_def)
  note eq = report_keyed[OF assms(2) act, of drv now]
  show ?thesis
  proof (cases "findRow ?k (pb_presence db)")
    case None
    then show ?thesis by (simp add: durView_def eq)
  next
    case (Some r)
    have r: "row_ok (reportedRow now j r)"
      using find_key[OF Some] assms(2,4) reportedRow_fields(3) by (simp add: durPresenceOk_def)
    have "map rowKey ?rows = map rowKey (pb_presence db)" by (simp add: reportedRow_fields)
    then have "durPresenceOk (db\<lparr>pb_presence := ?rows\<rparr>)"
      using assms(2,4) reportedRow_fields(3) by (auto simp: durPresenceOk_def simp del: map_map)
    moreover have "durView (db\<lparr>pb_presence := ?rows\<rparr>) = (durView db)(?k \<mapsto> reported now j (rowSnapshot r))"
      using Some active_unrevoked[OF act] findRow_map[of ?k "reportedRow now j" _ "pb_presence db"]
      by (auto simp: durView_presence durView_def reportedRow_fields fun_eq_iff)
    ultimately show ?thesis
      using Some active_unrevoked[OF act] snapshot_row[OF assms(1) r]
      by (simp add: durView_def eq durMay_presence reportedRow_fields)
  qed
qed

lemma durable_withdraw:
  assumes "durPresenceOk db"
  shows "\<exists>t. durableWithdraw now g d db = (Inr (), t) \<and> durPresenceOk t \<and>
      (\<forall>k. k \<noteq> (g, d) \<longrightarrow> durMay t k = durMay db k) \<and> durView t = (durView db)((g, d) := None)"
proof -
  let ?t = "revokeMembership now g d db"
  have keys: "map memberKey (pb_memberships ?t) = map memberKey (pb_memberships db)"
    by (simp add: revokeMembership_def memberKey_def)
  have un: "unrevoked ?t k \<longleftrightarrow> k \<noteq> (g, d) \<and> unrevoked db k" for k
    by (force simp: unrevoked_def revokeMembership_def memberKey_def)
  have act: "activeMember g' d' db \<longleftrightarrow> unrevoked db (g', d') \<and>
      (case js_get (pb_deviceStatus db) d' of None \<Rightarrow> False | Some st \<Rightarrow> st \<noteq> REVOKED)" for g' d' db
    by (auto simp: activeMember_def unrevoked_def memberKey_def list_ex_iff)
  have "durMay ?t k = durMay db k" if "k \<noteq> (g, d)" for k
    using that by (auto simp: durMay_def act un) (simp_all add: revokeMembership_def)
  moreover have "durPresenceOk ?t" using assms keys by (simp add: durPresenceOk_def) (simp add: revokeMembership_def)
  moreover have "durView ?t = (durView db)((g, d) := None)"
    by (auto simp: durView_def un fun_eq_iff) (simp_all add: revokeMembership_def)
  ultimately show ?thesis by (auto simp: durableWithdraw_def durableForget_def)
qed

lemma durable_list:
  assumes "driver_ok drv" and "durPresenceOk db"
  shows "\<exists>ps. durableList drv g db = (Inr ps, db) \<and> distinct (map ps_deviceId ps) \<and>
      (\<forall>p. p \<in> set ps \<longleftrightarrow> durView db (g, ps_deviceId p) = Some p)"
proof -
  let ?rows = "presentRows g db"
  note rows = presentRows_keyed[OF assms(2), of g]
  have "sm_mapM (\<lambda>row. sm_lift (toPresenceSnapshot drv row)) ?rows db = (Inr (map rowSnapshot ?rows), db)"
    using assms(2) rows(1)
    by (intro sm_mapM_returns) (auto simp: sm_lift_def durPresenceOk_def snapshot_row[OF assms(1)])
  then have "durableList drv g db = (Inr (map rowSnapshot ?rows), db)" by (simp add: durableList_def)
  moreover have "map ps_deviceId (map rowSnapshot ?rows) = map snd (map rowKey ?rows)"
    by (simp add: rowSnapshot_def rowKey_def)
  then have "distinct (map ps_deviceId (map rowSnapshot ?rows))"
    using rows by (auto simp: distinct_map inj_on_def rowKey_def)
  moreover have "p \<in> set (map rowSnapshot ?rows) \<longleftrightarrow> durView db (g, ps_deviceId p) = Some p" for p
  proof
    assume "p \<in> set (map rowSnapshot ?rows)"
    then obtain r where r: "p = rowSnapshot r" "r \<in> set (pb_presence db)" "pr_groupId r = g" "unrevoked db (rowKey r)"
      using rows(1) by auto
    then have k: "rowKey r = (g, ps_deviceId p)" by (simp add: rowKey_def rowSnapshot_def)
    then show "durView db (g, ps_deviceId p) = Some p"
      using r find_member[OF _ r(2)] assms(2) by (simp add: durView_def durPresenceOk_def)
  next
    assume "durView db (g, ps_deviceId p) = Some p"
    then obtain r where r: "p = rowSnapshot r" "unrevoked db (g, ps_deviceId p)"
      "findRow (g, ps_deviceId p) (pb_presence db) = Some r" by (auto simp: durView_def split: if_splits)
    then show "p \<in> set (map rowSnapshot ?rows)"
      using find_key[OF r(3)] rows(1) by (auto simp: rowKey_def)
  qed
  ultimately show ?thesis by blast
qed

interpretation dur_presence: presence_store "durableRecord drv" "durableReport drv" durableRenew durableWithdraw
  "durableList drv" durView durMay "\<lambda>db. driver_ok drv \<and> durPresenceOk db" for drv
proof (unfold_locales, goal_cases)
  case (1 s i now)
  then show ?case using durable_announce[of drv s i now] by auto
next
  case (2 s j now)
  then show ?case using durable_report[of drv s j now] by (auto split: option.splits)
next
  case (3 g d s)
  then show ?case by (simp add: durableRenew_def)
next
  case (4 s now g d)
  then show ?case using durable_withdraw[of s now g d] by blast
next
  case (5 s g)
  then show ?case using durable_list[of drv s g] by blast
qed

section \<open>The stores agree\<close>

text \<open>
  C37: The two presence stores implement one specification, a map from a group and a device to what the
  device last said. Over any history in which devices act only while they are members and a revoked
  device is withdrawn, the in-memory store and the durable store give the specification's answer to
  every operation, and afterwards both list, for every group, each present device exactly once with
  its last snapshot.
\<close>

theorem presence_stores_agree:
  assumes "driver_ok drv" and "durPresenceOk db" and "pb_presence db = []" and "\<forall>k \<in> M. durMay db k"
    and "admitted M ops"
    and "mem = run_ops (store_op memRecord memReport memRenew memWithdraw) ops []"
    and "dur = run_ops (store_op (durableRecord drv) (durableReport drv) durableRenew durableWithdraw) ops db"
    and "spec = run_ops spec_op ops Map.empty"
  shows "fst mem = fst spec \<and> fst dur = fst spec \<and>
    (\<exists>ps qs. fst (memList g (snd mem)) = Inr ps \<and> fst (durableList drv g (snd dur)) = Inr qs \<and>
      distinct (map ps_deviceId ps) \<and> distinct (map ps_deviceId qs) \<and>
      set ps = {p. snd spec (g, ps_deviceId p) = Some p} \<and> set qs = {p. snd spec (g, ps_deviceId p) = Some p})"
proof -
  have mv: "memView [] = Map.empty" and mok: "memPresenceOk []"
    by (auto simp: memView_def memPresenceOk_def)
  have dv: "durView db = Map.empty" using assms(3) by (auto simp: durView_def findRow_def fun_eq_iff)
  have dok: "driver_ok drv \<and> durPresenceOk db" using assms(1,2) by simp
  have "fst mem = fst spec"
    using mem_presence.run_refines[OF mok, of M ops] assms(5) by (auto simp: mv assms(6,8))
  moreover have "fst dur = fst spec"
    using dur_presence.run_refines[OF dok assms(4,5)] by (auto simp: dv assms(7,8))
  moreover obtain ps where "fst (memList g (snd mem)) = Inr ps" "distinct (map ps_deviceId ps)"
    "set ps = {p. snd spec (g, ps_deviceId p) = Some p}"
    using mem_presence.run_list[OF mok, of M ops g] assms(5) by (auto simp: mv assms(6,8))
  moreover obtain qs where "fst (durableList drv g (snd dur)) = Inr qs" "distinct (map ps_deviceId qs)"
    "set qs = {p. snd spec (g, ps_deviceId p) = Some p}"
    using dur_presence.run_list[OF dok assms(4,5), of g] by (auto simp: dv assms(7,8))
  ultimately show ?thesis by blast
qed

definition demoDriver :: presence_driver where
  "demoDriver = \<lparr>dv_bigint = SqlBigint, dv_integer = SqlNumber\<rparr>"

lemma demoDriver_ok: "driver_ok demoDriver"
  by (auto simp: driver_ok_def demoDriver_def readBigInt_def storable_def isSafeInteger_def)

definition demoPresenceDb :: presence_db where
  "demoPresenceDb = \<lparr>pb_presence = [], pb_memberships =
     [\<lparr>mr_groupId = ''g'', mr_deviceId = ''d'', mr_role = EDITOR, mr_revokedAt = None\<rparr>],
     pb_deviceStatus = [(''d'', ONLINE)]\<rparr>"

definition demoJoin :: record_input where
  "demoJoin = \<lparr>ri_groupId = ''g'', ri_deviceId = ''d'', ri_status = ONLINE, ri_activeScreen = Some ''map'',
     ri_selectedElement = None, ri_clockOffsetMs = None, ri_latencyMs = Some 12\<rparr>"

lemma demoPresenceDb_ok: "durPresenceOk demoPresenceDb" "durMay demoPresenceDb (''g'', ''d'')"
  by (simp_all add: demoPresenceDb_def durPresenceOk_def durMay_def activeMember_def)

theorem presence_stores_agree_witness:
  "fst (run_ops (store_op (durableRecord demoDriver) (durableReport demoDriver) durableRenew durableWithdraw)
     [(5, Announce demoJoin), (9, Withdraw ''g'' ''d'')] demoPresenceDb) = [Announced (announced 5 demoJoin), Done]"
proof -
  let ?ops = "[(5, Announce demoJoin), (9, Withdraw ''g'' ''d'')]"
  have "admitted {(''g'', ''d'')} ?ops" by (simp add: demoJoin_def storable_def nullish_def)
  moreover have "pb_presence demoPresenceDb = []" by (simp add: demoPresenceDb_def)
  moreover have "\<forall>k \<in> {(''g'', ''d'')}. durMay demoPresenceDb k" using demoPresenceDb_ok(2) by simp
  ultimately show ?thesis
    using presence_stores_agree[OF demoDriver_ok demoPresenceDb_ok(1) _ _ _ refl refl refl, of "{(''g'', ''d'')}" ?ops "''g''"]
    by simp
qed

section \<open>A report after a departure\<close>

text \<open>
  A device that left still has a row, so a report from it is stored and listed: the answer is the
  departed device with status \<open>OFFLINE\<close> and the reported screen, not the refusal the interface describes.
\<close>

theorem report_after_leave_is_stored:
  assumes "driver_ok drv" and "durPresenceOk db" and "durMay db (g, d)" and "storable (clock, latency)"
    and "leave = \<lparr>ri_groupId = g, ri_deviceId = d, ri_status = OFFLINE, ri_activeScreen = None,
      ri_selectedElement = None, ri_clockOffsetMs = None, ri_latencyMs = None\<rparr>"
    and "rep = \<lparr>rd_groupId = g, rd_deviceId = d, rd_activeScreen = screen, rd_selectedElement = element,
      rd_clockOffsetMs = clock, rd_latencyMs = latency\<rparr>"
  shows "\<exists>t u p ps. durableRecord drv now leave db = (Inr (announced now leave), t) \<and>
    durableReport drv later rep t = (Inr (Some p), u) \<and> ps_status p = OFFLINE \<and> ps_activeScreen p = screen \<and>
    durableList drv g u = (Inr ps, u) \<and> p \<in> set ps"
proof -
  have zero: "storable (op_numbers (Announce leave))" and num: "storable (op_numbers (Report rep))"
    using assms(4-6) by (simp_all add: storable_def nullish_def)
  obtain t where t: "durableRecord drv now leave db = (Inr (announced now leave), t)" "durPresenceOk t"
    "durMay t = durMay db" "durView t = (durView db)((g, d) \<mapsto> announced now leave)"
    using durable_announce[OF assms(1,2) _ zero, of now] assms(3,5) by auto
  let ?p = "reported later rep (announced now leave)"
  obtain u where u: "durableReport drv later rep t = (Inr (Some ?p), u)" "durPresenceOk u"
    "durView u = (durView t)((g, d) \<mapsto> ?p)"
    using durable_report[OF assms(1) t(2) _ num, of later] t(3,4) assms(3,6) by auto
  obtain ps where ps: "durableList drv g u = (Inr ps, u)" "\<And>p. p \<in> set ps \<longleftrightarrow> durView u (g, ps_deviceId p) = Some p"
    using durable_list[OF assms(1) u(2), of g] by blast
  have p: "ps_status ?p = OFFLINE" "ps_activeScreen ?p = screen" "ps_deviceId ?p = d"
    using assms(5,6) by (simp_all add: reported_def announced_def)
  then have "?p \<in> set ps" using ps(2) u(3) by simp
  then show ?thesis using t(1) u(1) ps(1) p(1,2) by blast
qed

end
