(* ===== verification/Redis_Coordination.thy ===== *)
theory Redis_Coordination
  imports Presence_Correct "HOL-Library.Log_Nat"
begin

text \<open>
  Ephemeral coordination: \<open>apps/control-plane/src/redis/coordination.ts\<close> and the presence store of
  \<open>sync/coordinated-presence-store.ts\<close> that composes it with the durable one.

  The Redis server is not part of the repository: its commands are the record \<open>redis_client\<close>, an
  argument of every operation, over a server state the model does not look into. The two Lua scripts
  and the two lease scripts are the commands they call, run as one step. A value the client stores as
  JSON is the record it encodes. The server's clock is the clock of the caller.
\<close>

section \<open>Keys\<close>

definition uri_unreserved :: "char \<Rightarrow> bool" where
  "uri_unreserved c \<longleftrightarrow> (let n = of_char c :: nat in
     48 \<le> n \<and> n \<le> 57 \<or> 65 \<le> n \<and> n \<le> 90 \<or> 97 \<le> n \<and> n \<le> 122 \<or> n \<in> {33, 39, 40, 41, 42, 45, 46, 95, 126})"

definition hex_upper :: "nat \<Rightarrow> char" where
  "hex_upper d = char_of (if d < 10 then 48 + d else 55 + d)"

definition percent :: "nat \<Rightarrow> string" where
  "percent n = [CHR ''%'', hex_upper (n div 16), hex_upper (n mod 16)]"

text \<open>\<open>encodeURIComponent\<close> of a code unit below 256: its UTF-8 bytes, escaped.\<close>

definition encode_unit :: "char \<Rightarrow> string" where
  "encode_unit c = (let n = of_char c :: nat in
     if uri_unreserved c then [c]
     else if n < 128 then percent n
     else percent (192 + n div 64) @ percent (128 + n mod 64))"

definition keySegment :: "string \<Rightarrow> string" where
  "keySegment s = concat (map encode_unit s)"

definition presenceMembershipKey :: "string \<Rightarrow> string" where
  "presenceMembershipKey groupId = ''hq:group:'' @ keySegment groupId @ '':presence:members''"

definition presenceKey :: "string \<Rightarrow> string \<Rightarrow> string" where
  "presenceKey groupId deviceId = ''hq:group:'' @ keySegment groupId @ '':presence:'' @ keySegment deviceId"

definition leaderLeaseKey :: "string \<Rightarrow> string" where
  "leaderLeaseKey groupId = ''hq:group:'' @ keySegment groupId @ '':leader''"

definition sequenceKey :: "string \<Rightarrow> string \<Rightarrow> string" where
  "sequenceKey groupId stream = ''hq:group:'' @ keySegment groupId @ '':sequence:'' @ keySegment stream"

section \<open>The client\<close>

record live_record =
  lr_deviceId :: string
  lr_activeScreen :: "string option"
  lr_selectedElement :: "string option"
  lr_clockOffsetMs :: int
  lr_latencyMs :: int
  lr_observedAtMs :: int

datatype redis_value = RPresence live_record | RText string | RSet "string set" | RCounter int

text \<open>Every command takes the server's time in milliseconds; \<open>rc_set\<close> also \<open>nx\<close> and the seconds of \<open>ex\<close>.\<close>

record 'r redis_client =
  rc_set :: "int \<Rightarrow> string \<Rightarrow> redis_value \<Rightarrow> bool \<Rightarrow> int \<Rightarrow> 'r \<Rightarrow> bool \<times> 'r"
  rc_sadd :: "int \<Rightarrow> string \<Rightarrow> string \<Rightarrow> 'r \<Rightarrow> 'r"
  rc_srem :: "int \<Rightarrow> string \<Rightarrow> string \<Rightarrow> 'r \<Rightarrow> 'r"
  rc_del :: "int \<Rightarrow> string \<Rightarrow> 'r \<Rightarrow> bool \<times> 'r"
  rc_expire :: "int \<Rightarrow> string \<Rightarrow> int \<Rightarrow> 'r \<Rightarrow> bool \<times> 'r"
  rc_get :: "int \<Rightarrow> string \<Rightarrow> 'r \<Rightarrow> redis_value option"
  rc_smembers :: "int \<Rightarrow> string \<Rightarrow> 'r \<Rightarrow> string list"
  rc_incr :: "int \<Rightarrow> string \<Rightarrow> 'r \<Rightarrow> int \<times> 'r"

definition rc_exists :: "'r redis_client \<Rightarrow> int \<Rightarrow> string \<Rightarrow> 'r \<Rightarrow> bool" where
  "rc_exists c now key r \<longleftrightarrow> rc_get c now key r \<noteq> None"

definition rc_mget :: "'r redis_client \<Rightarrow> int \<Rightarrow> string list \<Rightarrow> 'r \<Rightarrow> redis_value option list" where
  "rc_mget c now keys r = map (\<lambda>k. rc_get c now k r) keys"

definition defaultPresenceTtlSeconds :: int where "defaultPresenceTtlSeconds = 45"
definition defaultLeaseTtlSeconds :: int where "defaultLeaseTtlSeconds = 15"

definition normalizeTtl :: "int option \<Rightarrow> int \<Rightarrow> rt_error + int" where
  "normalizeTtl requested fallback =
     (let ttl = nullish requested fallback in
      if ttl < 5 \<or> ttl > 300
      then Inl (PlainError ''Redis coordination TTL must be an integer between 5 and 300 seconds'')
      else Inr ttl)"

section \<open>Presence keys\<close>

record presence_input =
  pi_groupId :: string
  pi_deviceId :: string
  pi_activeScreen :: "string option"
  pi_selectedElement :: "string option"
  pi_clockOffsetMs :: int
  pi_latencyMs :: int
  pi_ttlSeconds :: "int option"

definition liveRecord :: "int \<Rightarrow> presence_input \<Rightarrow> live_record" where
  "liveRecord now input = \<lparr>lr_deviceId = pi_deviceId input, lr_activeScreen = pi_activeScreen input,
     lr_selectedElement = pi_selectedElement input, lr_clockOffsetMs = pi_clockOffsetMs input,
     lr_latencyMs = pi_latencyMs input, lr_observedAtMs = now\<rparr>"

text \<open>The three commands of \<open>recordPresence\<close> in the order the client issues them.\<close>

definition recordPresence :: "'r redis_client \<Rightarrow> int \<Rightarrow> presence_input \<Rightarrow> ('r, unit) pm" where
  "recordPresence c now input =
     sm_bind (sm_lift (normalizeTtl (pi_ttlSeconds input) defaultPresenceTtlSeconds)) (\<lambda>ttl.
     sm_modify (\<lambda>r.
       let members = presenceMembershipKey (pi_groupId input);
           r1 = snd (rc_set c now (presenceKey (pi_groupId input) (pi_deviceId input))
                  (RPresence (liveRecord now input)) False ttl r);
           r2 = rc_sadd c now members (pi_deviceId input) r1
       in snd (rc_expire c now members ttl r2)))"

definition renewPresence ::
  "'r redis_client \<Rightarrow> int \<Rightarrow> string \<Rightarrow> string \<Rightarrow> int option \<Rightarrow> ('r, bool) pm" where
  "renewPresence c now groupId deviceId ttlSeconds =
     sm_bind (sm_lift (normalizeTtl ttlSeconds defaultPresenceTtlSeconds)) (\<lambda>ttl. (\<lambda>r.
       let (hit, r1) = rc_expire c now (presenceKey groupId deviceId) ttl r
       in if hit then (Inr True, snd (rc_expire c now (presenceMembershipKey groupId) ttl r1))
          else (Inr False, r1)))"

definition reportPresence :: "'r redis_client \<Rightarrow> int \<Rightarrow> presence_input \<Rightarrow> ('r, bool) pm" where
  "reportPresence c now input =
     sm_bind (sm_lift (normalizeTtl (pi_ttlSeconds input) defaultPresenceTtlSeconds)) (\<lambda>ttl. (\<lambda>r.
       let key = presenceKey (pi_groupId input) (pi_deviceId input) in
       if rc_exists c now key r
       then let r1 = snd (rc_set c now key (RPresence (liveRecord now input)) False ttl r)
            in (Inr True, snd (rc_expire c now (presenceMembershipKey (pi_groupId input)) ttl r1))
       else (Inr False, r)))"

definition forgetPresence :: "'r redis_client \<Rightarrow> int \<Rightarrow> string \<Rightarrow> string \<Rightarrow> ('r, unit) pm" where
  "forgetPresence c now groupId deviceId = sm_modify (\<lambda>r.
     rc_srem c now (presenceMembershipKey groupId) deviceId (snd (rc_del c now (presenceKey groupId deviceId) r)))"

fun presenceValue :: "redis_value option \<Rightarrow> live_record list" where
  "presenceValue (Some (RPresence p)) = [p]"
| "presenceValue _ = []"

definition listPresence :: "'r redis_client \<Rightarrow> int \<Rightarrow> string \<Rightarrow> ('r, live_record list) pm" where
  "listPresence c now groupId = sm_get (\<lambda>r.
     let deviceIds = rc_smembers c now (presenceMembershipKey groupId) r in
     if deviceIds = [] then []
     else concat (map presenceValue (rc_mget c now (map (presenceKey groupId) deviceIds) r)))"

section \<open>The leader lease\<close>

definition acquireLeaderLease ::
  "'r redis_client \<Rightarrow> int \<Rightarrow> string \<Rightarrow> string \<Rightarrow> int option \<Rightarrow> ('r, bool) pm" where
  "acquireLeaderLease c now groupId deviceId ttlSeconds =
     sm_bind (sm_lift (normalizeTtl ttlSeconds defaultLeaseTtlSeconds)) (\<lambda>ttl. (\<lambda>r.
       let (set, r1) = rc_set c now (leaderLeaseKey groupId) (RText deviceId) True ttl r in (Inr set, r1)))"

definition renewLeaderLease ::
  "'r redis_client \<Rightarrow> int \<Rightarrow> string \<Rightarrow> string \<Rightarrow> int option \<Rightarrow> ('r, bool) pm" where
  "renewLeaderLease c now groupId deviceId ttlSeconds =
     sm_bind (sm_lift (normalizeTtl ttlSeconds defaultLeaseTtlSeconds)) (\<lambda>ttl. (\<lambda>r.
       if rc_get c now (leaderLeaseKey groupId) r = Some (RText deviceId)
       then let (hit, r1) = rc_expire c now (leaderLeaseKey groupId) ttl r in (Inr hit, r1)
       else (Inr False, r)))"

definition releaseLeaderLease :: "'r redis_client \<Rightarrow> int \<Rightarrow> string \<Rightarrow> string \<Rightarrow> ('r, bool) pm" where
  "releaseLeaderLease c now groupId deviceId = (\<lambda>r.
     if rc_get c now (leaderLeaseKey groupId) r = Some (RText deviceId)
     then let (hit, r1) = rc_del c now (leaderLeaseKey groupId) r in (Inr hit, r1)
     else (Inr False, r))"

definition nextStreamSequence :: "'r redis_client \<Rightarrow> int \<Rightarrow> string \<Rightarrow> string \<Rightarrow> ('r, int) pm" where
  "nextStreamSequence c now groupId stream = (\<lambda>r. let (n, r1) = rc_incr c now (sequenceKey groupId stream) r in (Inr n, r1))"

section \<open>The coordinated presence store\<close>

text \<open>\<open>Number(bigint)\<close>: the nearest double, ties to even.\<close>

definition js_number :: "int \<Rightarrow> int" where
  "js_number n =
     (let a = \<bar>n\<bar>; k = nat (bitlen a - 53) in
      if k = 0 then n
      else let q = a div 2 ^ k; rest = a mod 2 ^ k; half = 2 ^ (k - 1)
           in sgn n * (if rest > half \<or> rest = half \<and> odd q then q + 1 else q) * 2 ^ k)"

text \<open>An operation of the durable store, and one of the coordination client, on the pair of states.\<close>

definition on_db :: "(presence_db, 'a) pm \<Rightarrow> (presence_db \<times> 'r, 'a) pm" where
  "on_db m = (\<lambda>(db, r). let (a, db') = m db in (a, (db', r)))"

definition on_redis :: "('r, 'a) pm \<Rightarrow> (presence_db \<times> 'r, 'a) pm" where
  "on_redis m = (\<lambda>(db, r). let (a, r') = m r in (a, (db, r')))"

definition textOrAbsent :: "string \<Rightarrow> string option" where
  "textOrAbsent s = (if s = [] then None else Some s)"

definition presenceInputOf :: "string \<Rightarrow> string \<Rightarrow> presence_snapshot \<Rightarrow> presence_input" where
  "presenceInputOf groupId deviceId snapshot = \<lparr>pi_groupId = groupId, pi_deviceId = deviceId,
     pi_activeScreen = textOrAbsent (ps_activeScreen snapshot),
     pi_selectedElement = textOrAbsent (ps_selectedElement snapshot),
     pi_clockOffsetMs = js_number (ps_clockOffsetMs snapshot), pi_latencyMs = ps_latencyMs snapshot,
     pi_ttlSeconds = None\<rparr>"

definition coordinatedRecord ::
  "presence_driver \<Rightarrow> 'r redis_client \<Rightarrow> int \<Rightarrow> record_input \<Rightarrow> (presence_db \<times> 'r, presence_snapshot) pm" where
  "coordinatedRecord drv c now input =
     sm_bind (on_db (durableRecord drv now input)) (\<lambda>snapshot.
     sm_bind (on_redis
       (if ri_status input = ONLINE
        then recordPresence c now (presenceInputOf (ri_groupId input) (ri_deviceId input) snapshot)
        else forgetPresence c now (ri_groupId input) (ri_deviceId input))) (\<lambda>_.
     sm_return snapshot))"

definition coordinatedReport ::
  "presence_driver \<Rightarrow> 'r redis_client \<Rightarrow> int \<Rightarrow> report_input \<Rightarrow> (presence_db \<times> 'r, presence_snapshot option) pm" where
  "coordinatedReport drv c now input =
     sm_bind (on_db (durableReport drv now input)) (\<lambda>answer.
     case answer of
       None \<Rightarrow> sm_return None
     | Some snapshot \<Rightarrow>
         sm_bind (on_redis (reportPresence c now (presenceInputOf (rd_groupId input) (rd_deviceId input) snapshot))) (\<lambda>_.
         sm_return (Some snapshot)))"

definition coordinatedRenew ::
  "'r redis_client \<Rightarrow> int \<Rightarrow> string \<Rightarrow> string \<Rightarrow> (presence_db \<times> 'r, unit) pm" where
  "coordinatedRenew c now groupId deviceId =
     sm_bind (on_redis (renewPresence c now groupId deviceId None)) (\<lambda>_. sm_return ())"

definition coordinatedForget ::
  "'r redis_client \<Rightarrow> int \<Rightarrow> string \<Rightarrow> string \<Rightarrow> (presence_db \<times> 'r, unit) pm" where
  "coordinatedForget c now groupId deviceId = on_redis (forgetPresence c now groupId deviceId)"

definition overlay :: "live_record option \<Rightarrow> presence_snapshot \<Rightarrow> presence_snapshot" where
  "overlay live snapshot =
     (case live of
        None \<Rightarrow> (if ps_status snapshot = REVOKED then snapshot else snapshot\<lparr>ps_status := OFFLINE\<rparr>)
      | Some p \<Rightarrow> snapshot\<lparr>ps_status := ONLINE,
          ps_activeScreen := nullish (lr_activeScreen p) (ps_activeScreen snapshot),
          ps_selectedElement := nullish (lr_selectedElement p) (ps_selectedElement snapshot),
          ps_clockOffsetMs := lr_clockOffsetMs p, ps_latencyMs := lr_latencyMs p,
          ps_observedAt := lr_observedAtMs p\<rparr>)"

definition coordinatedList ::
  "presence_driver \<Rightarrow> 'r redis_client \<Rightarrow> int \<Rightarrow> string \<Rightarrow> (presence_db \<times> 'r, presence_snapshot list) pm" where
  "coordinatedList drv c now groupId =
     sm_bind (on_db (durableList drv groupId)) (\<lambda>durable.
     sm_bind (on_redis (listPresence c now groupId)) (\<lambda>records.
     let live = foldl (\<lambda>m p. js_set (lr_deviceId p) p m) [] records in
     sm_return (map (\<lambda>snapshot. overlay (js_get live (ps_deviceId snapshot)) snapshot) durable)))"

end
