(* ===== verification/Redis_Correct.thy ===== *)
theory Redis_Correct
  imports Redis_Coordination
begin

text \<open>
  Presence through Redis reports liveness: the coordinated store refines a specification in which
  announcing takes a lease of 45 seconds, any activity renews a lease that has not run out, and a
  departure or a revocation ends it.
\<close>

section \<open>Keys do not collide\<close>

lemma hex_upper_val: "d < 16 \<Longrightarrow> (of_char (hex_upper d) :: nat) = (if d < 10 then 48 + d else 55 + d)"
  by (simp add: hex_upper_def)

lemma hex_upper_inject:
  assumes "d < 16" and "e < 16"
  shows "hex_upper d = hex_upper e \<longleftrightarrow> d = e"
proof
  assume "hex_upper d = hex_upper e"
  then have "(if d < 10 then 48 + d else 55 + d) = (if e < 10 then 48 + e else 55 + e)"
    using hex_upper_val[OF assms(1)] hex_upper_val[OF assms(2)] by simp
  then show "d = e" by (simp split: if_splits)
qed simp

lemma percent_inject: "m < 256 \<Longrightarrow> n < 256 \<Longrightarrow> percent m = percent n \<longleftrightarrow> m = n"
proof -
  assume b: "m < 256" "n < 256"
  then have "m div 16 < 16" "n div 16 < 16" by (simp_all add: less_mult_imp_div_less)
  then have "percent m = percent n \<longleftrightarrow> m div 16 = n div 16 \<and> m mod 16 = n mod 16"
    by (simp add: percent_def hex_upper_inject)
  then show ?thesis by (metis div_mult_mod_eq)
qed

lemma reserved_percent: "\<not> uri_unreserved (CHR ''%'')" "\<not> uri_unreserved (CHR '':'')"
  by (simp_all add: uri_unreserved_def)

lemma unit_below: "(of_char (c :: char) :: nat) < 256"
  using nat_of_char_less_256 by simp

text \<open>The code of a unit can be read off the front of any text that starts with it.\<close>

lemma encode_unit_prefix:
  assumes "encode_unit c @ xs = encode_unit d @ ys"
  shows "c = d \<and> xs = ys"
proof -
  let ?m = "of_char c :: nat" and ?n = "of_char d :: nat"
  have low: "percent k @ us = percent l @ vs \<longleftrightarrow> k = l \<and> us = vs" if "k < 256" "l < 256" for k l us vs
    using percent_inject[OF that] by (auto simp: percent_def)
  have hd: "hd (encode_unit u @ zs) = (if uri_unreserved u then u else CHR ''%'')" for u zs
    by (simp add: encode_unit_def percent_def Let_def)
  have same: "uri_unreserved c \<longleftrightarrow> uri_unreserved d"
    using hd[of c xs] hd[of d ys] assms reserved_percent(1) by (metis)
  have eq: "?m = ?n \<Longrightarrow> c = d" by simp
  show ?thesis
  proof (cases "uri_unreserved c")
    case True
    then show ?thesis using assms same by (simp add: encode_unit_def)
  next
    case False
    have b: "?m < 256" "?n < 256" by (rule unit_below)+
    then have q: "?m div 64 < 4" "?n div 64 < 4" by (simp_all add: less_mult_imp_div_less)
    show ?thesis
    proof (cases "?m < 128"; cases "?n < 128")
      assume "?m < 128" "?n < 128"
      then show ?thesis using assms False same low[of ?m ?n] by (simp add: encode_unit_def)
    next
      assume h: "?m < 128" "\<not> ?n < 128"
      then have "?m = 192 + ?n div 64" using assms False same q low[of ?m "192 + ?n div 64"] by (simp add: encode_unit_def Let_def)
      then show ?thesis using h by simp
    next
      assume h: "\<not> ?m < 128" "?n < 128"
      then have "192 + ?m div 64 = ?n" using assms False same q low[of "192 + ?m div 64" ?n] by (simp add: encode_unit_def Let_def)
      then show ?thesis using h by simp
    next
      assume h: "\<not> ?m < 128" "\<not> ?n < 128"
      then have e: "percent (192 + ?m div 64) @ percent (128 + ?m mod 64) @ xs = percent (192 + ?n div 64) @ percent (128 + ?n mod 64) @ ys"
        using assms False same by (simp add: encode_unit_def Let_def)
      have r: "?m mod 64 < 64" "?n mod 64 < 64" by simp_all
      have "192 + ?m div 64 = 192 + ?n div 64 \<and> percent (128 + ?m mod 64) @ xs = percent (128 + ?n mod 64) @ ys"
        by (rule iffD1[OF low]) (use q e in linarith | rule e)+
      moreover from this have "128 + ?m mod 64 = 128 + ?n mod 64 \<and> xs = ys"
        by (intro iffD1[OF low]) (use r in linarith | blast)+
      ultimately have "?m div 64 = ?n div 64" "?m mod 64 = ?n mod 64" "xs = ys" by simp_all
      then have "?m = ?n" "xs = ys" using div_mult_mod_eq[of ?m 64] div_mult_mod_eq[of ?n 64] by metis+
      then show ?thesis using eq by blast
    qed
  qed
qed

lemma encode_unit_nonempty: "encode_unit c \<noteq> []"
  by (simp add: encode_unit_def percent_def Let_def)

lemma keySegment_inject [simp]: "keySegment a = keySegment b \<longleftrightarrow> a = b"
proof
  show "keySegment a = keySegment b \<Longrightarrow> a = b"
  proof (induction a arbitrary: b)
    case Nil
    then show ?case using encode_unit_nonempty by (cases b) (simp_all add: keySegment_def)
  next
    case (Cons c a)
    then obtain d b' where b: "b = d # b'" using encode_unit_nonempty by (cases b) (simp_all add: keySegment_def)
    then have "encode_unit c @ keySegment a = encode_unit d @ keySegment b'" using Cons.prems by (simp add: keySegment_def)
    then have "c = d" "keySegment a = keySegment b'" using encode_unit_prefix by blast+
    then show ?case using Cons.IH b by simp
  qed
qed simp

lemma hex_upper_no_colon: "d < 16 \<Longrightarrow> hex_upper d \<noteq> CHR '':''"
proof
  assume "d < 16" "hex_upper d = CHR '':''"
  then have "(if d < 10 then 48 + d else 55 + d) = (58 :: nat)" using hex_upper_val[of d] by simp
  then show False by (simp split: if_splits)
qed

lemma keySegment_no_colon: "CHR '':'' \<notin> set (keySegment a)"
proof -
  have byte: "CHR '':'' \<notin> set (percent n)" if "n < 256" for n
    using that hex_upper_no_colon[of "n div 16"] hex_upper_no_colon[of "n mod 16"]
    by (auto simp: percent_def less_mult_imp_div_less)
  have high: "192 + (of_char c :: nat) div 64 < 256" for c :: char
  proof -
    have "(of_char c :: nat) div 64 < 4" using unit_below[of c] by (simp add: less_mult_imp_div_less)
    then show ?thesis by simp
  qed
  have "CHR '':'' \<notin> set (encode_unit c)" for c
  proof -
    have "128 + (of_char c :: nat) mod 64 < 256" using pos_mod_bound[of 64 "of_char c :: nat"] by simp
    then show ?thesis
      using byte[of "of_char c"] byte[of "192 + of_char c div 64"] byte[of "128 + of_char c mod 64"]
        high[of c] reserved_percent(2) unit_below[of c] by (auto simp: encode_unit_def Let_def)
  qed
  then show ?thesis by (auto simp: keySegment_def)
qed

lemma before_colon:
  assumes "CHR '':'' \<notin> set a" and "CHR '':'' \<notin> set b" and "a @ CHR '':'' # x = b @ CHR '':'' # y"
  shows "a = b \<and> x = y"
proof -
  have "takeWhile (\<lambda>c. c \<noteq> CHR '':'') (a @ CHR '':'' # x) = a" "takeWhile (\<lambda>c. c \<noteq> CHR '':'') (b @ CHR '':'' # y) = b"
    using assms(1,2) by (auto simp: takeWhile_append)
  then have "a = b" using assms(3) by simp
  then show ?thesis using assms(3) by simp
qed

lemma presenceKey_inject [simp]: "presenceKey g d = presenceKey g' d' \<longleftrightarrow> g = g' \<and> d = d'"
  using before_colon[OF keySegment_no_colon keySegment_no_colon, of g "''presence:'' @ keySegment d" g' "''presence:'' @ keySegment d'"]
  by (auto simp: presenceKey_def)

lemma membersKey_inject [simp]: "presenceMembershipKey g = presenceMembershipKey g' \<longleftrightarrow> g = g'"
  using before_colon[OF keySegment_no_colon keySegment_no_colon, of g "''presence:members''" g' "''presence:members''"]
  by (auto simp: presenceMembershipKey_def)

lemma members_segment: "keySegment ''members'' = ''members''"
  by (simp add: keySegment_def encode_unit_def uri_unreserved_def)

lemma keys_differ: "d \<noteq> ''members'' \<Longrightarrow> presenceKey g d \<noteq> presenceMembershipKey g'"
  using before_colon[OF keySegment_no_colon keySegment_no_colon, of g "''presence:'' @ keySegment d" g' "''presence:members''"]
    keySegment_inject[of d "''members''"]
  by (auto simp: presenceKey_def presenceMembershipKey_def members_segment)

section \<open>What the server documents\<close>

text \<open>
  \<open>look r t key\<close> is the value a read at time \<open>t\<close> answers when no command runs until then. The laws say
  what each command answers and what reads answer after it: \<open>SET\<close> with \<open>EX\<close> and \<open>NX\<close>, \<open>EXPIRE\<close>, \<open>DEL\<close>,
  \<open>SADD\<close> and \<open>SREM\<close>, \<open>SMEMBERS\<close> and \<open>GET\<close>.
\<close>

definition reads_law :: "'r redis_client \<Rightarrow> ('r \<Rightarrow> int \<Rightarrow> string \<Rightarrow> redis_value option) \<Rightarrow> bool" where
  "reads_law c look \<longleftrightarrow> (\<forall>now k r. rc_get c now k r = look r now k \<and>
     (\<forall>S. look r now k = Some (RSet S) \<longrightarrow> finite S \<longrightarrow> set (rc_smembers c now k r) = S) \<and>
     (look r now k = None \<longrightarrow> rc_smembers c now k r = []))"

definition set_law :: "'r redis_client \<Rightarrow> ('r \<Rightarrow> int \<Rightarrow> string \<Rightarrow> redis_value option) \<Rightarrow> bool" where
  "set_law c look \<longleftrightarrow> (\<forall>now k v nx ex r.
     fst (rc_set c now k v nx ex r) = (\<not> (nx \<and> look r now k \<noteq> None)) \<and>
     (\<forall>t \<ge> now. \<forall>k'. look (snd (rc_set c now k v nx ex r)) t k' =
        (if k' = k \<and> \<not> (nx \<and> look r now k \<noteq> None) then (if t < now + 1000 * ex then Some v else None) else look r t k')))"

definition expire_law :: "'r redis_client \<Rightarrow> ('r \<Rightarrow> int \<Rightarrow> string \<Rightarrow> redis_value option) \<Rightarrow> bool" where
  "expire_law c look \<longleftrightarrow> (\<forall>now k ex r.
     fst (rc_expire c now k ex r) = (look r now k \<noteq> None) \<and>
     (\<forall>t \<ge> now. \<forall>k'. look (snd (rc_expire c now k ex r)) t k' =
        (if k' = k \<and> look r now k \<noteq> None then (if t < now + 1000 * ex then look r now k else None) else look r t k')))"

definition del_law :: "'r redis_client \<Rightarrow> ('r \<Rightarrow> int \<Rightarrow> string \<Rightarrow> redis_value option) \<Rightarrow> bool" where
  "del_law c look \<longleftrightarrow> (\<forall>now k r.
     fst (rc_del c now k r) = (look r now k \<noteq> None) \<and>
     (\<forall>t \<ge> now. \<forall>k'. look (snd (rc_del c now k r)) t k' = (if k' = k then None else look r t k')))"

definition sadd_law :: "'r redis_client \<Rightarrow> ('r \<Rightarrow> int \<Rightarrow> string \<Rightarrow> redis_value option) \<Rightarrow> bool" where
  "sadd_law c look \<longleftrightarrow> (\<forall>now k m r. \<forall>t \<ge> now. \<forall>k'. look (rc_sadd c now k m r) t k' =
     (if k' \<noteq> k then look r t k'
      else case look r now k of
             None \<Rightarrow> Some (RSet {m})
           | Some (RSet S) \<Rightarrow> (if look r t k = None then None else Some (RSet (insert m S)))
           | _ \<Rightarrow> look r t k))"

definition srem_law :: "'r redis_client \<Rightarrow> ('r \<Rightarrow> int \<Rightarrow> string \<Rightarrow> redis_value option) \<Rightarrow> bool" where
  "srem_law c look \<longleftrightarrow> (\<forall>now k m r. \<forall>t \<ge> now. \<forall>k'. look (rc_srem c now k m r) t k' =
     (if k' \<noteq> k then look r t k'
      else case look r now k of
             Some (RSet S) \<Rightarrow> (if look r t k = None \<or> S - {m} = {} then None else Some (RSet (S - {m})))
           | _ \<Rightarrow> look r t k))"

definition redis_ok :: "'r redis_client \<Rightarrow> ('r \<Rightarrow> int \<Rightarrow> string \<Rightarrow> redis_value option) \<Rightarrow> bool" where
  "redis_ok c look \<longleftrightarrow> reads_law c look \<and> set_law c look \<and> expire_law c look \<and> del_law c look \<and>
     sadd_law c look \<and> srem_law c look"

lemmas redis_laws = redis_ok_def reads_law_def set_law_def expire_law_def del_law_def sadd_law_def srem_law_def

lemma after_read:
  assumes "redis_ok c look"
  shows "rc_get c now k r = look r now k"
    and "look r now k = Some (RSet S) \<Longrightarrow> finite S \<Longrightarrow> set (rc_smembers c now k r) = S"
    and "look r now k = None \<Longrightarrow> rc_smembers c now k r = []"
  using assms by (simp_all add: redis_ok_def reads_law_def)

lemma after_set:
  assumes "redis_ok c look"
  shows "fst (rc_set c now k v nx ex r) = (\<not> (nx \<and> look r now k \<noteq> None))"
    and "now \<le> t \<Longrightarrow> look (snd (rc_set c now k v nx ex r)) t k' =
      (if k' = k \<and> \<not> (nx \<and> look r now k \<noteq> None) then (if t < now + 1000 * ex then Some v else None) else look r t k')"
  using assms by (simp_all only: redis_ok_def set_law_def)

lemma after_expire:
  assumes "redis_ok c look"
  shows "fst (rc_expire c now k ex r) = (look r now k \<noteq> None)"
    and "now \<le> t \<Longrightarrow> look (snd (rc_expire c now k ex r)) t k' =
      (if k' = k \<and> look r now k \<noteq> None then (if t < now + 1000 * ex then look r now k else None) else look r t k')"
  using assms by (simp_all only: redis_ok_def expire_law_def)

lemma after_del:
  assumes "redis_ok c look"
  shows "fst (rc_del c now k r) = (look r now k \<noteq> None)"
    and "now \<le> t \<Longrightarrow> look (snd (rc_del c now k r)) t k' = (if k' = k then None else look r t k')"
  using assms by (simp_all only: redis_ok_def del_law_def)

lemma after_sadd:
  assumes "redis_ok c look"
  shows "now \<le> t \<Longrightarrow> look (rc_sadd c now k m r) t k' =
     (if k' \<noteq> k then look r t k'
      else case look r now k of
             None \<Rightarrow> Some (RSet {m})
           | Some (RSet S) \<Rightarrow> (if look r t k = None then None else Some (RSet (insert m S)))
           | _ \<Rightarrow> look r t k)"
  using assms by (simp only: redis_ok_def sadd_law_def)

lemma after_srem:
  assumes "redis_ok c look"
  shows "now \<le> t \<Longrightarrow> look (rc_srem c now k m r) t k' =
     (if k' \<noteq> k then look r t k'
      else case look r now k of
             Some (RSet S) \<Rightarrow> (if look r t k = None \<or> S - {m} = {} then None else Some (RSet (S - {m})))
           | _ \<Rightarrow> look r t k)"
  using assms by (simp only: redis_ok_def srem_law_def)

section \<open>Leases\<close>

type_synonym leases = "string \<times> string \<Rightarrow> (live_record \<times> int) option"

definition alive :: "leases \<Rightarrow> int \<Rightarrow> string \<times> string \<Rightarrow> live_record option" where
  "alive l now k = (case l k of Some (p, deadline) \<Rightarrow> if now < deadline then Some p else None | None \<Rightarrow> None)"

text \<open>The server holds the leases: one key each, and a set that names at least the devices alive.\<close>

definition keys_held :: "('r \<Rightarrow> int \<Rightarrow> string \<Rightarrow> redis_value option) \<Rightarrow> int \<Rightarrow> leases \<Rightarrow> 'r \<Rightarrow> bool" where
  "keys_held look now l r \<longleftrightarrow> (\<forall>g d t. d \<noteq> ''members'' \<longrightarrow> now \<le> t \<longrightarrow>
     look r t (presenceKey g d) = map_option RPresence (alive l t (g, d)))"

definition sets_held ::
  "('r \<Rightarrow> int \<Rightarrow> string \<Rightarrow> redis_value option) \<Rightarrow> int \<Rightarrow> (string \<Rightarrow> string set) \<Rightarrow> (string \<Rightarrow> int) \<Rightarrow> 'r \<Rightarrow> bool" where
  "sets_held look now S E r \<longleftrightarrow> (\<forall>g t. now \<le> t \<longrightarrow>
     look r t (presenceMembershipKey g) = (if S g \<noteq> {} \<and> t < E g then Some (RSet (S g)) else None))"

definition lease_ok ::
  "int \<Rightarrow> (string \<Rightarrow> string set) \<Rightarrow> (string \<Rightarrow> int) \<Rightarrow> string \<Rightarrow> string \<Rightarrow> live_record \<times> int \<Rightarrow> bool" where
  "lease_ok now S E g d = (\<lambda>(p, deadline). d \<noteq> ''members'' \<and> lr_deviceId p = d \<and> deadline \<le> now + 45000 \<and>
     (now < deadline \<longrightarrow> d \<in> S g \<and> deadline \<le> E g))"

definition holds ::
  "('r \<Rightarrow> int \<Rightarrow> string \<Rightarrow> redis_value option) \<Rightarrow> int \<Rightarrow> leases \<Rightarrow> (string \<Rightarrow> string set) \<Rightarrow> (string \<Rightarrow> int) \<Rightarrow> 'r \<Rightarrow> bool" where
  "holds look now l S E r \<longleftrightarrow> keys_held look now l r \<and> sets_held look now S E r \<and>
     (\<forall>g d x. l (g, d) = Some x \<longrightarrow> lease_ok now S E g d x) \<and> (\<forall>g. ''members'' \<notin> S g \<and> finite (S g))"

lemma lease_ok_later: "lease_ok now S E g d x \<Longrightarrow> now \<le> now' \<Longrightarrow> lease_ok now' S E g d x"
  by (auto simp: lease_ok_def split: prod.splits)

lemma holds_later:
  assumes "holds look now l S E r" and "now \<le> now'"
  shows "holds look now' l S E r"
proof -
  have "keys_held look now' l r" "sets_held look now' S E r"
    using assms by (simp_all add: holds_def keys_held_def sets_held_def)
  then show ?thesis using assms lease_ok_later[OF _ assms(2)] by (simp add: holds_def)
qed

lemma holds_key:
  "holds look now l S E r \<Longrightarrow> d \<noteq> ''members'' \<Longrightarrow> now \<le> t \<Longrightarrow> look r t (presenceKey g d) = map_option RPresence (alive l t (g, d))"
  by (simp add: holds_def keys_held_def)

lemma holds_set:
  "holds look now l S E r \<Longrightarrow> now \<le> t \<Longrightarrow> look r t (presenceMembershipKey g) = (if S g \<noteq> {} \<and> t < E g then Some (RSet (S g)) else None)"
  by (simp add: holds_def sets_held_def)

lemma holds_lease: "holds look now l S E r \<Longrightarrow> l (g, d) = Some x \<Longrightarrow> lease_ok now S E g d x"
  by (cases x) (simp add: holds_def)

lemma default_ttl: "normalizeTtl None defaultPresenceTtlSeconds = Inr 45"
  by (simp add: normalizeTtl_def nullish_def defaultPresenceTtlSeconds_def)

lemma alive_other: "k' \<noteq> k \<Longrightarrow> alive (l(k := v)) t k' = alive l t k'"
  by (simp add: alive_def)

lemma alive_in_set:
  assumes "holds look now l S E r" and "alive l now (g, d) = Some p"
  shows "d \<in> S g \<and> now < E g \<and> lr_deviceId p = d \<and> d \<noteq> ''members''"
proof -
  obtain deadline where "l (g, d) = Some (p, deadline)" "now < deadline"
    using assms(2) by (auto simp: alive_def split: option.splits if_splits)
  then show ?thesis using holds_lease[OF assms(1)] by (fastforce simp: lease_ok_def)
qed

text \<open>A lease is taken or renewed: its key and the set run for another 45 seconds.\<close>

lemma holds_touch:
  assumes "holds look now l S E r" and "d \<noteq> ''members''" and "lr_deviceId p = d"
    and "S' = (if S g \<noteq> {} \<and> now < E g then insert d (S g) else {d})"
    and "\<And>t. now \<le> t \<Longrightarrow> look r' t (presenceKey g d) = (if t < now + 45000 then Some (RPresence p) else None)"
    and "\<And>t. now \<le> t \<Longrightarrow> look r' t (presenceMembershipKey g) = (if t < now + 45000 then Some (RSet S') else None)"
    and "\<And>t k. now \<le> t \<Longrightarrow> k \<noteq> presenceKey g d \<Longrightarrow> k \<noteq> presenceMembershipKey g \<Longrightarrow> look r' t k = look r t k"
  shows "holds look now (l((g, d) \<mapsto> (p, now + 45000))) (S(g := S')) (E(g := now + 45000)) r'"
proof -
  let ?l = "l((g, d) \<mapsto> (p, now + 45000))" and ?S = "S(g := S')" and ?E = "E(g := now + 45000)"
  have "look r' t (presenceKey g' d') = map_option RPresence (alive ?l t (g', d'))"
    if h: "d' \<noteq> ''members''" "now \<le> t" for g' d' t
  proof (cases "(g', d') = (g, d)")
    case True
    then show ?thesis using assms(5)[OF h(2)] by (simp add: alive_def)
  next
    case False
    then have "look r' t (presenceKey g' d') = look r t (presenceKey g' d')"
      using assms(7)[OF h(2)] keys_differ[OF h(1)] by auto
    then show ?thesis using alive_other[OF False] holds_key[OF assms(1) h] by simp
  qed
  then have keys: "keys_held look now ?l r'" by (simp add: keys_held_def)
  have "look r' t (presenceMembershipKey g') = (if ?S g' \<noteq> {} \<and> t < ?E g' then Some (RSet (?S g')) else None)"
    if h: "now \<le> t" for g' t
  proof (cases "g' = g")
    case True
    then show ?thesis using assms(4) assms(6)[OF h] by simp
  next
    case False
    then have "look r' t (presenceMembershipKey g') = look r t (presenceMembershipKey g')"
      using assms(7)[OF h] keys_differ[OF assms(2), of g g'] by (metis membersKey_inject)
    then show ?thesis using False holds_set[OF assms(1) h] by simp
  qed
  then have sets: "sets_held look now ?S ?E r'" by (simp add: sets_held_def)
  have "lease_ok now ?S ?E g' d' x" if x: "?l (g', d') = Some x" for g' d' x
  proof (cases "(g', d') = (g, d)")
    case True
    then show ?thesis using x assms(2-4) by (auto simp: lease_ok_def)
  next
    case False
    then have ok: "lease_ok now S E g' d' x" using x holds_lease[OF assms(1), of g' d' x] by (simp split: if_splits)
    show ?thesis
    proof (cases "g' = g")
      case True
      then show ?thesis using ok assms(4) by (auto simp: lease_ok_def split: prod.splits)
    next
      case False
      then show ?thesis using ok by (simp add: lease_ok_def)
    qed
  qed
  moreover have "''members'' \<notin> ?S g' \<and> finite (?S g')" for g' using assms(1,2,4) by (auto simp: holds_def)
  ultimately show ?thesis using keys sets by (simp add: holds_def)
qed

lemma holds_cong:
  "holds look now l S E r \<Longrightarrow> (\<And>t k. now \<le> t \<Longrightarrow> look r' t k = look r t k) \<Longrightarrow> holds look now l S E r'"
  by (simp add: holds_def keys_held_def sets_held_def)

lemma record_holds:
  assumes "redis_ok c look" and "holds look now l S E r" and "pi_ttlSeconds i = None" and "pi_deviceId i \<noteq> ''members''"
  shows "\<exists>r' S' E'. recordPresence c now i r = (Inr (), r') \<and>
    holds look now (l((pi_groupId i, pi_deviceId i) \<mapsto> (liveRecord now i, now + 45000))) S' E' r'"
proof -
  let ?g = "pi_groupId i" and ?d = "pi_deviceId i"
  let ?K = "presenceKey ?g ?d" and ?M = "presenceMembershipKey ?g"
  define r1 where "r1 = snd (rc_set c now ?K (RPresence (liveRecord now i)) False 45 r)"
  define r2 where "r2 = rc_sadd c now ?M ?d r1"
  define r3 where "r3 = snd (rc_expire c now ?M 45 r2)"
  let ?S = "if S ?g \<noteq> {} \<and> now < E ?g then insert ?d (S ?g) else {?d}"
  have KM: "?K \<noteq> ?M" "?M \<noteq> ?K" using keys_differ[OF assms(4)] by metis+
  have l1: "look r1 t k = (if k = ?K then (if t < now + 45000 then Some (RPresence (liveRecord now i)) else None) else look r t k)"
    if "now \<le> t" for t k using after_set(2)[OF assms(1) that] by (simp add: r1_def)
  have m2: "look r2 now ?M = Some (RSet ?S)"
    using after_sadd[OF assms(1) order_refl, of now ?M ?d r1 ?M] l1[of now ?M] KM holds_set[OF assms(2) order_refl, of ?g]
    by (simp add: r2_def)
  have l2: "look r2 t k = look r1 t k" if "now \<le> t" "k \<noteq> ?M" for t k
    using after_sadd[OF assms(1) that(1), of ?M ?d r1 k] that(2) by (simp add: r2_def)
  have l3: "look r3 t k = (if k = ?M then (if t < now + 45000 then Some (RSet ?S) else None) else look r1 t k)"
    if "now \<le> t" for t k using after_expire(2)[OF assms(1) that, of ?M 45 r2 k] m2 l2[OF that] by (simp add: r3_def)
  have "recordPresence c now i r = (Inr (), r3)"
    using assms(3) by (simp add: recordPresence_def default_ttl sm_lift_def sm_bind_def sm_modify_def Let_def r1_def r2_def r3_def)
  moreover have "holds look now (l((?g, ?d) \<mapsto> (liveRecord now i, now + 45000))) (S(?g := ?S)) (E(?g := now + 45000)) r3"
    by (rule holds_touch[OF assms(2,4) _ refl]) (use KM in \<open>simp_all add: l3 l1 liveRecord_def\<close>)
  ultimately show ?thesis by blast
qed

lemma key_alive:
  "holds look now l S E r \<Longrightarrow> d \<noteq> ''members'' \<Longrightarrow> look r now (presenceKey g d) \<noteq> None \<longleftrightarrow> (\<exists>p. alive l now (g, d) = Some p)"
  by (simp add: holds_key)

text \<open>A lease that has not run out is renewed with the record \<open>p\<close>, once its key is written and the set extended.\<close>

lemma renewed_holds:
  assumes "redis_ok c look" and "holds look now l S E r" and "d \<noteq> ''members''" and "alive l now (g, d) = Some q"
    and "lr_deviceId p = d"
    and "\<And>t k. now \<le> t \<Longrightarrow> look r1 t k = (if k = presenceKey g d then (if t < now + 45000 then Some (RPresence p) else None) else look r t k)"
  shows "\<exists>S' E'. holds look now (l((g, d) \<mapsto> (p, now + 45000))) S' E' (snd (rc_expire c now (presenceMembershipKey g) 45 r1))"
proof -
  let ?K = "presenceKey g d" and ?M = "presenceMembershipKey g"
  have KM: "?K \<noteq> ?M" "?M \<noteq> ?K" using keys_differ[OF assms(3)] by metis+
  have set: "d \<in> S g" "now < E g" using alive_in_set[OF assms(2,4)] by auto
  then have m1: "look r1 now ?M = Some (RSet (S g))"
    using assms(6)[OF order_refl, of ?M] KM holds_set[OF assms(2) order_refl, of g] by auto
  have l2: "look (snd (rc_expire c now ?M 45 r1)) t k =
      (if k = ?M then (if t < now + 45000 then Some (RSet (S g)) else None) else look r1 t k)" if "now \<le> t" for t k
    using after_expire(2)[OF assms(1) that, of ?M 45 r1 k] m1 by simp
  have same: "(if S g \<noteq> {} \<and> now < E g then insert d (S g) else {d}) = S g" using set by auto
  have "holds look now (l((g, d) \<mapsto> (p, now + 45000))) (S(g := S g)) (E(g := now + 45000)) (snd (rc_expire c now ?M 45 r1))"
    by (rule holds_touch[OF assms(2,3,5) same[symmetric]]) (use KM in \<open>simp_all add: l2 assms(6)\<close>)
  then show ?thesis by blast
qed

lemma renew_holds:
  assumes "redis_ok c look" and "holds look now l S E r" and "d \<noteq> ''members''"
  shows "\<exists>b r' S' E'. renewPresence c now g d None r = (Inr b, r') \<and>
    holds look now (case alive l now (g, d) of None \<Rightarrow> l | Some p \<Rightarrow> l((g, d) \<mapsto> (p, now + 45000))) S' E' r'"
proof (cases "alive l now (g, d)")
  case None
  let ?r = "snd (rc_expire c now (presenceKey g d) 45 r)"
  have miss: "look r now (presenceKey g d) = None" using holds_key[OF assms(2,3) order_refl] None by simp
  then have "renewPresence c now g d None r = (Inr False, ?r)"
    using after_expire(1)[OF assms(1), of now "presenceKey g d" 45 r]
    by (simp add: renewPresence_def default_ttl sm_lift_def sm_bind_def split_beta)
  moreover have "holds look now l S E ?r"
    by (rule holds_cong[OF assms(2)]) (simp add: after_expire(2)[OF assms(1)] miss)
  ultimately show ?thesis using None by auto
next
  case (Some p)
  let ?r = "snd (rc_expire c now (presenceKey g d) 45 r)"
  have hit: "look r now (presenceKey g d) = Some (RPresence p)" using holds_key[OF assms(2,3) order_refl] Some by simp
  have "renewPresence c now g d None r = (Inr True, snd (rc_expire c now (presenceMembershipKey g) 45 ?r))"
    using after_expire(1)[OF assms(1), of now "presenceKey g d" 45 r] hit
    by (simp add: renewPresence_def default_ttl sm_lift_def sm_bind_def split_beta)
  moreover have "\<exists>S' E'. holds look now (l((g, d) \<mapsto> (p, now + 45000))) S' E' (snd (rc_expire c now (presenceMembershipKey g) 45 ?r))"
    by (rule renewed_holds[OF assms Some]) (use alive_in_set[OF assms(2) Some] in \<open>simp_all add: after_expire(2)[OF assms(1)] hit\<close>)
  ultimately show ?thesis using Some by auto
qed

lemma report_holds:
  assumes "redis_ok c look" and "holds look now l S E r" and "pi_ttlSeconds i = None" and "pi_deviceId i \<noteq> ''members''"
  shows "\<exists>b r' S' E'. reportPresence c now i r = (Inr b, r') \<and>
    holds look now (case alive l now (pi_groupId i, pi_deviceId i) of None \<Rightarrow> l
      | Some p \<Rightarrow> l((pi_groupId i, pi_deviceId i) \<mapsto> (liveRecord now i, now + 45000))) S' E' r'"
proof (cases "alive l now (pi_groupId i, pi_deviceId i)")
  case None
  then have "reportPresence c now i r = (Inr False, r)"
    using holds_key[OF assms(2,4) order_refl, of "pi_groupId i"] assms(3)
    by (simp add: reportPresence_def default_ttl sm_lift_def sm_bind_def rc_exists_def after_read[OF assms(1)])
  then show ?thesis using None assms(2) by auto
next
  case (Some p)
  let ?r = "snd (rc_set c now (presenceKey (pi_groupId i) (pi_deviceId i)) (RPresence (liveRecord now i)) False 45 r)"
  have "reportPresence c now i r = (Inr True, snd (rc_expire c now (presenceMembershipKey (pi_groupId i)) 45 ?r))"
    using Some holds_key[OF assms(2,4) order_refl, of "pi_groupId i"] assms(3)
    by (simp add: reportPresence_def default_ttl sm_lift_def sm_bind_def rc_exists_def after_read[OF assms(1)] Let_def)
  moreover have "\<exists>S' E'. holds look now (l((pi_groupId i, pi_deviceId i) \<mapsto> (liveRecord now i, now + 45000))) S' E'
      (snd (rc_expire c now (presenceMembershipKey (pi_groupId i)) 45 ?r))"
    by (rule renewed_holds[OF assms(1,2,4) Some]) (simp_all add: after_set(2)[OF assms(1)] liveRecord_def)
  ultimately show ?thesis using Some by auto
qed

lemma forget_holds:
  assumes "redis_ok c look" and "holds look now l S E r" and "d \<noteq> ''members''"
  shows "\<exists>r' S'. forgetPresence c now g d r = (Inr (), r') \<and> holds look now (l((g, d) := None)) S' E r'"
proof -
  let ?K = "presenceKey g d" and ?M = "presenceMembershipKey g"
  define r1 where "r1 = snd (rc_del c now ?K r)"
  define r2 where "r2 = rc_srem c now ?M d r1"
  have KM: "?K \<noteq> ?M" "?M \<noteq> ?K" using keys_differ[OF assms(3)] by metis+
  have l1: "look r1 t k = (if k = ?K then None else look r t k)" if "now \<le> t" for t k
    using after_del(2)[OF assms(1) that] by (simp add: r1_def)
  have M: "look r t ?M = (if S g \<noteq> {} \<and> t < E g then Some (RSet (S g)) else None)" if "now \<le> t" for t
    using holds_set[OF assms(2) that] .
  have l2: "look r2 t k = (if k = ?M then (if S g - {d} \<noteq> {} \<and> t < E g then Some (RSet (S g - {d})) else None)
      else look r1 t k)" if "now \<le> t" for t k
    using after_srem[OF assms(1) that, of ?M d r1 k] l1[OF order_refl, of ?M] l1[OF that, of ?M] KM M[OF order_refl] M[OF that] that
    by (auto simp: r2_def)
  let ?S = "S(g := S g - {d})"
  have "look r2 t (presenceKey g' d') = map_option RPresence (alive (l((g, d) := None)) t (g', d'))"
    if h: "d' \<noteq> ''members''" "now \<le> t" for g' d' t
  proof (cases "(g', d') = (g, d)")
    case True
    then show ?thesis using l2[OF h(2)] l1[OF h(2)] KM by (simp add: alive_def)
  next
    case False
    then show ?thesis
      using l2[OF h(2)] l1[OF h(2)] keys_differ[OF h(1)] alive_other[OF False] holds_key[OF assms(2) h] by auto
  qed
  moreover have "look r2 t (presenceMembershipKey g') = (if ?S g' \<noteq> {} \<and> t < E g' then Some (RSet (?S g')) else None)"
    if h: "now \<le> t" for g' t
    using l2[OF h] l1[OF h] holds_set[OF assms(2) h] keys_differ[OF assms(3), of g g'] by (cases "g' = g") auto
  moreover have "lease_ok now ?S E g' d' x" if "(l((g, d) := None)) (g', d') = Some x" for g' d' x
  proof -
    have "(g', d') \<noteq> (g, d)" "l (g', d') = Some x" using that by (auto split: if_splits)
    then show ?thesis using holds_lease[OF assms(2), of g' d' x] by (auto simp: lease_ok_def split: prod.splits)
  qed
  moreover have "''members'' \<notin> ?S g' \<and> finite (?S g')" for g' using assms(2) by (auto simp: holds_def)
  ultimately have "holds look now (l((g, d) := None)) ?S E r2"
    unfolding holds_def keys_held_def sets_held_def by blast
  moreover have "forgetPresence c now g d r = (Inr (), r2)"
    by (simp add: forgetPresence_def sm_modify_def r1_def r2_def)
  ultimately show ?thesis by blast
qed

section \<open>The coordinated store\<close>

definition coordinatedWithdraw ::
  "'r redis_client \<Rightarrow> int \<Rightarrow> string \<Rightarrow> string \<Rightarrow> (presence_db \<times> 'r, unit) pm" where
  "coordinatedWithdraw c now g d =
     sm_bind (on_db (sm_modify (revokeMembership now g d))) (\<lambda>_. coordinatedForget c now g d)"

fun coordinated_op ::
  "presence_driver \<Rightarrow> 'r redis_client \<Rightarrow> int \<Rightarrow> presence_op \<Rightarrow> presence_db \<times> 'r \<Rightarrow> presence_answer \<times> (presence_db \<times> 'r)" where
  "coordinated_op drv c now (Announce i) = answered Announced (coordinatedRecord drv c now i)"
| "coordinated_op drv c now (Report j) = answered Reported (coordinatedReport drv c now j)"
| "coordinated_op drv c now (Renew g d) = answered (\<lambda>_. Done) (coordinatedRenew c now g d)"
| "coordinated_op drv c now (Withdraw g d) = answered (\<lambda>_. Done) (coordinatedWithdraw c now g d)"

text \<open>The specification: the view of the durable store, and the leases.\<close>

fun lease_op :: "int \<Rightarrow> presence_op \<Rightarrow> presence_view \<Rightarrow> leases \<Rightarrow> leases" where
  "lease_op now (Announce i) v l =
     (if ri_status i = ONLINE
      then l((ri_groupId i, ri_deviceId i) \<mapsto>
        (liveRecord now (presenceInputOf (ri_groupId i) (ri_deviceId i) (announced now i)), now + 45000))
      else l((ri_groupId i, ri_deviceId i) := None))"
| "lease_op now (Report j) v l =
     (case (v (rd_groupId j, rd_deviceId j), alive l now (rd_groupId j, rd_deviceId j)) of
        (Some p, Some _) \<Rightarrow> l((rd_groupId j, rd_deviceId j) \<mapsto>
          (liveRecord now (presenceInputOf (rd_groupId j) (rd_deviceId j) (reported now j p)), now + 45000))
      | _ \<Rightarrow> l)"
| "lease_op now (Renew g d) v l =
     (case alive l now (g, d) of None \<Rightarrow> l | Some p \<Rightarrow> l((g, d) \<mapsto> (p, now + 45000)))"
| "lease_op now (Withdraw g d) v l = l((g, d) := None)"

definition live_op :: "int \<Rightarrow> presence_op \<Rightarrow> presence_view \<times> leases \<Rightarrow> presence_answer \<times> (presence_view \<times> leases)" where
  "live_op now op = (\<lambda>(v, l). (fst (spec_op now op v), (snd (spec_op now op v), lease_op now op v l)))"

definition represents ::
  "presence_driver \<Rightarrow> ('r \<Rightarrow> int \<Rightarrow> string \<Rightarrow> redis_value option) \<Rightarrow> int \<Rightarrow> (string \<times> string) set \<Rightarrow> presence_db \<times> 'r \<Rightarrow>
   presence_view \<times> leases \<Rightarrow> bool" where
  "represents drv look now M = (\<lambda>(db, r) (v, l). driver_ok drv \<and> durPresenceOk db \<and> (\<forall>k \<in> M. durMay db k) \<and> durView db = v \<and>
     (\<exists>S E. holds look now l S E r))"

lemma representsI:
  "driver_ok drv \<Longrightarrow> durPresenceOk db \<Longrightarrow> \<forall>k \<in> M. durMay db k \<Longrightarrow> durView db = v \<Longrightarrow> holds look now l S E r \<Longrightarrow>
    represents drv look now M (db, r) (v, l)"
  by (auto simp: represents_def)

lemma representsE:
  assumes "represents drv look now M (db, r) (v, l)"
  obtains S E where "driver_ok drv" and "durPresenceOk db" and "\<forall>k \<in> M. durMay db k" and "durView db = v"
    and "holds look now l S E r"
  using assms by (auto simp: represents_def)

lemma liveRecord_input:
  "pi_groupId (presenceInputOf g d p) = g" "pi_deviceId (presenceInputOf g d p) = d" "pi_ttlSeconds (presenceInputOf g d p) = None"
  by (simp_all add: presenceInputOf_def)

lemma coordinated_announce:
  assumes "redis_ok c look" and "represents drv look now M (db, r) (v, l)" and "(ri_groupId i, ri_deviceId i) \<in> M"
    and "storable (op_numbers (Announce i))" and "ri_deviceId i \<noteq> ''members''"
  shows "\<exists>s'. coordinated_op drv c now (Announce i) (db, r) = (fst (live_op now (Announce i) (v, l)), s') \<and>
    represents drv look now M s' (snd (live_op now (Announce i) (v, l)))"
proof -
  let ?g = "ri_groupId i" and ?d = "ri_deviceId i"
  obtain S E where h: "holds look now l S E r" using assms(2) by (auto simp: represents_def)
  have db: "driver_ok drv" "durPresenceOk db" "\<forall>k \<in> M. durMay db k" "durView db = v"
    using assms(2) by (auto simp: represents_def)
  obtain db' where d: "durableRecord drv now i db = (Inr (announced now i), db')" "durPresenceOk db'" "durMay db' = durMay db"
    "durView db' = v((?g, ?d) \<mapsto> announced now i)"
    using durable_announce[OF db(1,2) _ assms(4), of now] db(3,4) assms(3) by auto
  let ?m = "if ri_status i = ONLINE then recordPresence c now (presenceInputOf ?g ?d (announced now i)) else forgetPresence c now ?g ?d"
  obtain r' S' E' where r: "?m r = (Inr (), r')" "holds look now (lease_op now (Announce i) v l) S' E' r'"
    using record_holds[OF assms(1) h, of "presenceInputOf ?g ?d (announced now i)"] forget_holds[OF assms(1) h assms(5), of ?g] assms(5)
    by (cases "ri_status i = ONLINE") (auto simp: liveRecord_input)
  have "coordinatedRecord drv c now i (db, r) = (Inr (announced now i), (db', r'))"
    using d(1) r(1) by (simp add: coordinatedRecord_def sm_bind_def on_db_def on_redis_def)
  moreover have "represents drv look now M (db', r') (snd (spec_op now (Announce i) v), lease_op now (Announce i) v l)"
    by (rule representsI[OF db(1) d(2) _ _ r(2)]) (use d(3,4) db(3) in simp_all)
  ultimately show ?thesis by (simp add: answered_def live_op_def)
qed

lemma coordinated_report:
  assumes "redis_ok c look" and "represents drv look now M (db, r) (v, l)" and "(rd_groupId j, rd_deviceId j) \<in> M"
    and "storable (op_numbers (Report j))" and "rd_deviceId j \<noteq> ''members''"
  shows "\<exists>s'. coordinated_op drv c now (Report j) (db, r) = (fst (live_op now (Report j) (v, l)), s') \<and>
    represents drv look now M s' (snd (live_op now (Report j) (v, l)))"
proof -
  let ?g = "rd_groupId j" and ?d = "rd_deviceId j"
  obtain S E where h: "holds look now l S E r" using assms(2) by (auto simp: represents_def)
  have db: "driver_ok drv" "durPresenceOk db" "\<forall>k \<in> M. durMay db k" "durView db = v"
    using assms(2) by (auto simp: represents_def)
  have rep: "case v (?g, ?d) of None \<Rightarrow> durableReport drv now j db = (Inr None, db)
       | Some p \<Rightarrow> \<exists>t. durableReport drv now j db = (Inr (Some (reported now j p)), t) \<and> durPresenceOk t \<and>
           durMay t = durMay db \<and> durView t = v((?g, ?d) \<mapsto> reported now j p)"
    using durable_report[OF db(1,2) _ assms(4), of now] db(3) assms(3) unfolding db(4) by simp
  show ?thesis
  proof (cases "v (?g, ?d)")
    case None
    then have "coordinatedReport drv c now j (db, r) = (Inr None, (db, r))"
      using rep by (simp add: coordinatedReport_def sm_bind_def sm_return_def on_db_def)
    then show ?thesis using None assms(2) by (simp add: answered_def live_op_def)
  next
    case (Some p)
    then obtain db' where d: "durableReport drv now j db = (Inr (Some (reported now j p)), db')" "durPresenceOk db'"
      "durMay db' = durMay db" "durView db' = v((?g, ?d) \<mapsto> reported now j p)" using rep by auto
    let ?i = "presenceInputOf ?g ?d (reported now j p)"
    obtain b r' S' E' where r: "reportPresence c now ?i r = (Inr b, r')"
      "holds look now (case alive l now (?g, ?d) of None \<Rightarrow> l | Some p \<Rightarrow> l((?g, ?d) \<mapsto> (liveRecord now ?i, now + 45000))) S' E' r'"
      using report_holds[OF assms(1) h, of ?i, unfolded liveRecord_input] assms(5) by blast
    have "coordinatedReport drv c now j (db, r) = (Inr (Some (reported now j p)), (db', r'))"
      using d(1) r(1) by (simp add: coordinatedReport_def sm_bind_def sm_return_def on_db_def on_redis_def)
    moreover have "represents drv look now M (db', r') (snd (spec_op now (Report j) v), lease_op now (Report j) v l)"
      by (rule representsI[OF db(1) d(2), where S = S' and E = E'])
        (use d(3,4) db(3) Some r(2) in \<open>simp_all split: option.splits\<close>)
    ultimately show ?thesis using Some by (simp add: answered_def live_op_def)
  qed
qed

lemma coordinated_other:
  assumes "redis_ok c look" and "represents drv look now M (db, r) (v, l)" and "d \<noteq> ''members''"
  shows "\<exists>s'. coordinated_op drv c now (Renew g d) (db, r) = (fst (live_op now (Renew g d) (v, l)), s') \<and>
      represents drv look now M s' (snd (live_op now (Renew g d) (v, l)))"
    and "\<exists>s'. coordinated_op drv c now (Withdraw g d) (db, r) = (fst (live_op now (Withdraw g d) (v, l)), s') \<and>
      represents drv look now (M - {(g, d)}) s' (snd (live_op now (Withdraw g d) (v, l)))"
proof -
  obtain S E where h: "holds look now l S E r" using assms(2) by (auto simp: represents_def)
  have db: "driver_ok drv" "durPresenceOk db" "\<forall>k \<in> M. durMay db k" "durView db = v"
    using assms(2) by (auto simp: represents_def)
  obtain b r' S' E' where rn: "renewPresence c now g d None r = (Inr b, r')" "holds look now (lease_op now (Renew g d) v l) S' E' r'"
    using renew_holds[OF assms(1) h assms(3), of g] by auto
  then have "coordinatedRenew c now g d (db, r) = (Inr (), (db, r'))"
    by (simp add: coordinatedRenew_def sm_bind_def sm_return_def on_redis_def)
  then show "\<exists>s'. coordinated_op drv c now (Renew g d) (db, r) = (fst (live_op now (Renew g d) (v, l)), s') \<and>
      represents drv look now M s' (snd (live_op now (Renew g d) (v, l)))"
    using representsI[OF db rn(2)] by (simp add: answered_def live_op_def)
  obtain t where t: "durableWithdraw now g d db = (Inr (), t)" "durPresenceOk t"
    "\<forall>k. k \<noteq> (g, d) \<longrightarrow> durMay t k = durMay db k" "durView t = v((g, d) := None)"
    using durable_withdraw[OF db(2), of now g d] db(4) by auto
  then have t': "t = revokeMembership now g d db" by (simp add: durableWithdraw_def durableForget_def)
  obtain r'' S'' where r: "forgetPresence c now g d r = (Inr (), r'')" "holds look now (l((g, d) := None)) S'' E r''"
    using forget_holds[OF assms(1) h assms(3), of g] by auto
  have "coordinatedWithdraw c now g d (db, r) = (Inr (), (t, r''))"
    using r(1) t' by (simp add: coordinatedWithdraw_def coordinatedForget_def sm_bind_def sm_modify_def on_db_def on_redis_def)
  then show "\<exists>s'. coordinated_op drv c now (Withdraw g d) (db, r) = (fst (live_op now (Withdraw g d) (v, l)), s') \<and>
      represents drv look now (M - {(g, d)}) s' (snd (live_op now (Withdraw g d) (v, l)))"
    using representsI[OF db(1) t(2) _ t(4) r(2), of "M - {(g, d)}"] t(3) db(3) by (simp add: answered_def live_op_def)
qed

lemma represents_later:
  "represents drv look now M s x \<Longrightarrow> now \<le> now' \<Longrightarrow> represents drv look now' M s x"
  by (auto simp: represents_def split: prod.splits intro: holds_later)

lemma coordinated_run:
  assumes "redis_ok c look" and "represents drv look now M s x" and "admitted M ops"
    and "sorted (now # map fst ops)" and "\<forall>op \<in> snd ` set ops. snd (op_key op) \<noteq> ''members''"
  shows "\<exists>s' M'. run_ops (coordinated_op drv c) ops s = (fst (run_ops live_op ops x), s') \<and>
    represents drv look (last (now # map fst ops)) M' s' (snd (run_ops live_op ops x))"
  using assms(2-)
proof (induction ops arbitrary: now M s x)
  case Nil
  then show ?case by auto
next
  case (Cons a ops)
  obtain t op where a: "a = (t, op)" by (cases a)
  obtain db r v l where s: "s = (db, r)" and x: "x = (v, l)" by (cases s; cases x)
  let ?M = "M - (case op of Withdraw g d \<Rightarrow> {(g, d)} | _ \<Rightarrow> {})"
  have R: "represents drv look t M (db, r) (v, l)"
    using represents_later[OF Cons.prems(1), of t] Cons.prems(3) by (simp add: a s x)
  have adm: "admitted ?M ops" using Cons.prems(2) by (cases op) (simp_all add: a)
  have ne: "snd (op_key op) \<noteq> ''members''" using Cons.prems(4) by (simp add: a)
  have "\<exists>s'. coordinated_op drv c t op (db, r) = (fst (live_op t op (v, l)), s') \<and> represents drv look t ?M s' (snd (live_op t op (v, l)))"
  proof (cases op)
    case (Announce i)
    then show ?thesis using coordinated_announce[OF assms(1) R, of i] Cons.prems(2) ne by (simp add: a)
  next
    case (Report j)
    then show ?thesis using coordinated_report[OF assms(1) R, of j] Cons.prems(2) ne by (simp add: a)
  next
    case (Renew g d)
    then show ?thesis using coordinated_other(1)[OF assms(1) R, of d g] ne by simp
  next
    case (Withdraw g d)
    then show ?thesis using coordinated_other(2)[OF assms(1) R, of d g] ne by simp
  qed
  then obtain s' where s': "coordinated_op drv c t op (db, r) = (fst (live_op t op (v, l)), s')"
    "represents drv look t ?M s' (snd (live_op t op (v, l)))" by blast
  have "sorted (t # map fst ops)" "\<forall>op \<in> snd ` set ops. snd (op_key op) \<noteq> ''members''"
    using Cons.prems(3,4) by (simp_all add: a)
  from Cons.IH[OF s'(2) adm this] show ?case by (auto simp: a s x s'(1) split_beta)
qed

lemma live_map:
  assumes "\<And>p. p \<in> set records \<Longrightarrow> f (lr_deviceId p) = Some p"
  shows "js_get (foldl (\<lambda>m p. js_set (lr_deviceId p) p m) m0 records) d =
    (if d \<in> lr_deviceId ` set records then f d else js_get m0 d)"
  using assms by (induction records arbitrary: m0) (auto simp: jsmap_simps)

lemma list_alive:
  assumes "redis_ok c look" and "holds look now l S E r"
  obtains records where "listPresence c now g r = (Inr records, r)"
    and "\<And>p. p \<in> set records \<longleftrightarrow> alive l now (g, lr_deviceId p) = Some p"
proof -
  let ?M = "presenceMembershipKey g"
  let ?ids = "rc_smembers c now ?M r"
  let ?records = "concat (map presenceValue (rc_mget c now (map (presenceKey g) ?ids) r))"
  have S: "''members'' \<notin> S g" "finite (S g)" using assms(2) by (auto simp: holds_def)
  have ids: "set ?ids = (if now < E g then S g else {})"
    using after_read(2)[OF assms(1), of r now ?M "S g"] after_read(3)[OF assms(1), of r now ?M]
      holds_set[OF assms(2) order_refl, of g] S(2) by (cases "S g = {}"; cases "now < E g"; simp)
  have "p \<in> set ?records \<longleftrightarrow> (\<exists>d \<in> set ?ids. alive l now (g, d) = Some p)" for p
  proof -
    have "p \<in> set (presenceValue v) \<longleftrightarrow> v = Some (RPresence p)" for v
      by (cases v rule: presenceValue.cases) auto
    then have "p \<in> set ?records \<longleftrightarrow> (\<exists>d \<in> set ?ids. look r now (presenceKey g d) = Some (RPresence p))"
      by (simp add: rc_mget_def after_read(1)[OF assms(1)])
    moreover have "look r now (presenceKey g d) = Some (RPresence p) \<longleftrightarrow> alive l now (g, d) = Some p" if "d \<in> set ?ids" for d
    proof -
      have "d \<noteq> ''members''" using that ids S(1) by (auto split: if_splits)
      then show ?thesis using holds_key[OF assms(2) _ order_refl, of d g] by auto
    qed
    ultimately show ?thesis by blast
  qed
  moreover have "listPresence c now g r = (Inr ?records, r)" by (simp add: listPresence_def sm_get_def rc_mget_def Let_def)
  ultimately show ?thesis
    using that[of ?records] alive_in_set[OF assms(2)] ids by fastforce
qed

lemma coordinated_list:
  assumes "redis_ok c look" and "represents drv look now M (db, r) (v, l)"
  shows "\<exists>ps. fst (coordinatedList drv c now g (db, r)) = Inr ps \<and> distinct (map ps_deviceId ps) \<and>
    set ps = {overlay (alive l now (g, ps_deviceId p)) p | p. v (g, ps_deviceId p) = Some p}"
proof -
  obtain S E where h: "driver_ok drv" "durPresenceOk db" "durView db = v" "holds look now l S E r"
    using representsE[OF assms(2)] by metis
  obtain ps where ps: "durableList drv g db = (Inr ps, db)" "distinct (map ps_deviceId ps)"
    "\<And>p. p \<in> set ps \<longleftrightarrow> v (g, ps_deviceId p) = Some p"
    using durable_list[OF h(1,2), of g] h(3) by blast
  obtain records where rec: "listPresence c now g r = (Inr records, r)"
    "\<And>p. p \<in> set records \<longleftrightarrow> alive l now (g, lr_deviceId p) = Some p"
    using list_alive[OF assms(1) h(4), of g] by blast
  define live where "live = foldl (\<lambda>m p. js_set (lr_deviceId p) p m) [] records"
  have live: "js_get live d = alive l now (g, d)" for d
  proof -
    have "d \<in> lr_deviceId ` set records \<longleftrightarrow> alive l now (g, d) \<noteq> None"
      using rec(2) alive_in_set[OF h(4), of g d] by (auto simp: image_iff)
    then show ?thesis
      using live_map[of records "\<lambda>d. alive l now (g, d)" "[]" d] rec(2) by (auto simp: live_def)
  qed
  let ?qs = "map (\<lambda>p. overlay (alive l now (g, ps_deviceId p)) p) ps"
  have "fst (coordinatedList drv c now g (db, r)) = Inr ?qs"
    using ps(1) rec(1) live
    by (simp add: coordinatedList_def sm_bind_def sm_return_def on_db_def on_redis_def Let_def flip: live_def)
  moreover have "ps_deviceId (overlay x p) = ps_deviceId p" for x p by (simp add: overlay_def split: option.split)
  then have "map ps_deviceId ?qs = map ps_deviceId ps" by simp
  then have "distinct (map ps_deviceId ?qs)" using ps(2) by (simp only:)
  moreover have "set ?qs = {overlay (alive l now (g, ps_deviceId p)) p | p. v (g, ps_deviceId p) = Some p}"
    using ps(3) by auto
  ultimately show ?thesis by blast
qed

text \<open>
  C38: Presence through Redis reports liveness. Announcing a device online takes a lease of 45 seconds;
  a renewal or a report within it extends it, and one after it has run out does not bring it back; a
  departure or a revocation ends it. Over any history of operations at non-decreasing times the
  coordinated store gives the answers of that specification, and its list shows each device of the
  group that has a presence and is still a member once: online, with what it reported, while its lease
  runs, and offline (or revoked, as recorded) afterwards.
\<close>

theorem coordinated_presence_is_live:
  assumes "redis_ok c look" and "driver_ok drv" and "durPresenceOk db" and "pb_presence db = []"
    and "\<forall>k \<in> M. durMay db k" and "\<forall>t k. look r t k = None" and "admitted M ops"
    and "sorted (map fst ops @ [now])" and "\<forall>op \<in> snd ` set ops. snd (op_key op) \<noteq> ''members''"
    and "sys = run_ops (coordinated_op drv c) ops (db, r)" and "spec = run_ops live_op ops (Map.empty, Map.empty)"
  shows "fst sys = fst spec \<and>
    (\<exists>ps. fst (coordinatedList drv c now g (snd sys)) = Inr ps \<and> distinct (map ps_deviceId ps) \<and>
      set ps = {overlay (alive (snd (snd spec)) now (g, ps_deviceId p)) p | p. fst (snd spec) (g, ps_deviceId p) = Some p})"
proof -
  define t0 where "t0 = hd (map fst ops @ [now])"
  have h: "holds look t0 Map.empty (\<lambda>_. {}) (\<lambda>_. 0) r"
    using assms(6) by (simp add: holds_def keys_held_def sets_held_def alive_def)
  have "durView db = Map.empty" using assms(4) by (auto simp: durView_def findRow_def fun_eq_iff)
  from representsI[OF assms(2,3,5) this h] have R: "represents drv look t0 M (db, r) (Map.empty, Map.empty)" .
  have times: "sorted (map fst ops)" "\<forall>t \<in> set (map fst ops). t \<le> now"
    using assms(8) by (simp_all add: sorted_append)
  have sorted: "sorted (t0 # map fst ops)" "last (t0 # map fst ops) \<le> now"
  proof -
    show "sorted (t0 # map fst ops)" using times(1) by (cases ops) (simp_all add: t0_def)
    show "last (t0 # map fst ops) \<le> now"
    proof (cases "ops = []")
      case False
      then have "last (map fst ops) \<in> set (map fst ops)" by (intro last_in_set) simp
      then have "last (map fst ops) \<le> now" using times(2) by blast
      then show ?thesis using False by simp
    qed (simp add: t0_def)
  qed
  obtain s' M' where run: "sys = (fst spec, s')" "represents drv look (last (t0 # map fst ops)) M' s' (snd spec)"
    using coordinated_run[OF assms(1) R assms(7) sorted(1) assms(9)] unfolding assms(10,11) by metis
  obtain db' r' v l where s: "s' = (db', r')" "snd spec = (v, l)" by (cases s'; cases "snd spec")
  have "represents drv look now M' (db', r') (v, l)" using represents_later[OF run(2) sorted(2)] by (simp add: s)
  from coordinated_list[OF assms(1) this, of g] show ?thesis using run(1) s by simp
qed

text \<open>A server to evaluate on: keys with a value and an optional time of expiry.\<close>

type_synonym demo_redis = "string \<Rightarrow> (redis_value \<times> int option) option"

definition demoLook :: "demo_redis \<Rightarrow> int \<Rightarrow> string \<Rightarrow> redis_value option" where
  "demoLook r t k = (case r k of None \<Rightarrow> None | Some (v, None) \<Rightarrow> Some v | Some (v, Some e) \<Rightarrow> if t < e then Some v else None)"

definition demoRedis :: "demo_redis redis_client" where
  "demoRedis = \<lparr>
     rc_set = (\<lambda>now k v nx ex r. if nx \<and> demoLook r now k \<noteq> None then (False, r) else (True, r(k \<mapsto> (v, Some (now + 1000 * ex))))),
     rc_sadd = (\<lambda>now k m r. case demoLook r now k of None \<Rightarrow> r(k \<mapsto> (RSet {m}, None))
       | Some (RSet S) \<Rightarrow> r(k \<mapsto> (RSet (insert m S), snd (the (r k)))) | _ \<Rightarrow> r),
     rc_srem = (\<lambda>now k m r. case demoLook r now k of
         Some (RSet S) \<Rightarrow> if S - {m} = {} then r(k := None) else r(k \<mapsto> (RSet (S - {m}), snd (the (r k)))) | _ \<Rightarrow> r),
     rc_del = (\<lambda>now k r. (demoLook r now k \<noteq> None, r(k := None))),
     rc_expire = (\<lambda>now k ex r. case demoLook r now k of None \<Rightarrow> (False, r) | Some v \<Rightarrow> (True, r(k \<mapsto> (v, Some (now + 1000 * ex))))),
     rc_get = (\<lambda>now k r. demoLook r now k),
     rc_smembers = (\<lambda>now k r. case demoLook r now k of Some (RSet S) \<Rightarrow> sorted_list_of_set S | _ \<Rightarrow> []),
     rc_incr = (\<lambda>now k r. case demoLook r now k of
         Some (RCounter n) \<Rightarrow> (n + 1, r(k \<mapsto> (RCounter (n + 1), snd (the (r k))))) | _ \<Rightarrow> (1, r(k \<mapsto> (RCounter 1, None))))\<rparr>"

lemma demoRedis_ok: "redis_ok demoRedis demoLook"
proof -
  have "reads_law demoRedis demoLook" by (simp add: reads_law_def demoRedis_def)
  moreover have "set_law demoRedis demoLook"
    by (auto simp: set_law_def demoRedis_def demoLook_def split: option.splits if_splits)
  moreover have "del_law demoRedis demoLook" by (simp add: del_law_def demoRedis_def demoLook_def)
  moreover have "expire_law demoRedis demoLook"
    by (auto simp: expire_law_def demoRedis_def demoLook_def split: option.splits)
  moreover have "sadd_law demoRedis demoLook"
    by (auto simp: sadd_law_def demoRedis_def demoLook_def split: option.splits redis_value.splits if_splits)
  moreover have "srem_law demoRedis demoLook"
    by (auto simp: srem_law_def demoRedis_def demoLook_def split: option.splits redis_value.splits if_splits)
  ultimately show ?thesis by (simp add: redis_ok_def)
qed

theorem coordinated_presence_is_live_witness:
  "\<exists>ps. fst (coordinatedList demoDriver demoRedis 45000 ''g''
      (snd (run_ops (coordinated_op demoDriver demoRedis) [(0, Announce demoJoin)] (demoPresenceDb, Map.empty)))) = Inr ps \<and>
    set ps = {(announced 0 demoJoin)\<lparr>ps_status := OFFLINE\<rparr>}"
proof -
  let ?ops = "[(0 :: int, Announce demoJoin)]" and ?M = "{(''g'', ''d'')}"
  have M: "\<forall>k \<in> ?M. durMay demoPresenceDb k" using demoPresenceDb_ok(2) by simp
  have none: "pb_presence demoPresenceDb = []" by (simp add: demoPresenceDb_def)
  have empty: "\<forall>t k. demoLook Map.empty t k = None" by (simp add: demoLook_def)
  have adm: "admitted ?M ?ops" by (simp add: demoJoin_def storable_def nullish_def)
  have ids: "\<forall>op \<in> snd ` set ?ops. snd (op_key op) \<noteq> ''members''" by (simp add: demoJoin_def)
  let ?spec = "run_ops live_op ?ops (Map.empty, Map.empty)"
  have spec: "fst (snd ?spec) (''g'', ps_deviceId p) = Some p \<longleftrightarrow> p = announced 0 demoJoin" for p
    by (auto simp: live_op_def demoJoin_def announced_def)
  have "alive (snd (snd ?spec)) 45000 (''g'', ps_deviceId (announced 0 demoJoin)) = None"
    by (simp add: live_op_def alive_def)
  then have over: "overlay (alive (snd (snd ?spec)) 45000 (''g'', ps_deviceId (announced 0 demoJoin))) (announced 0 demoJoin) =
      (announced 0 demoJoin)\<lparr>ps_status := OFFLINE\<rparr>"
    by (simp add: overlay_def announced_def demoJoin_def)
  have sorted: "sorted (map fst ?ops @ [45000 :: int])" by simp
  obtain ps where ps: "fst (coordinatedList demoDriver demoRedis 45000 ''g''
      (snd (run_ops (coordinated_op demoDriver demoRedis) ?ops (demoPresenceDb, Map.empty)))) = Inr ps"
    "set ps = {overlay (alive (snd (snd ?spec)) 45000 (''g'', ps_deviceId p)) p | p. fst (snd ?spec) (''g'', ps_deviceId p) = Some p}"
    using coordinated_presence_is_live[where c = demoRedis and look = demoLook and drv = demoDriver and db = demoPresenceDb
        and M = ?M and r = Map.empty and ops = ?ops and now = 45000 and g = "''g''",
        OF demoRedis_ok demoDriver_ok demoPresenceDb_ok(1) none M empty adm sorted ids refl refl] by blast
  have single: "{f p | p. p = a} = {f a}" for f :: "presence_snapshot \<Rightarrow> presence_snapshot" and a by auto
  have "set ps = {(announced 0 demoJoin)\<lparr>ps_status := OFFLINE\<rparr>}" unfolding ps(2) spec single over ..
  then show ?thesis using ps(1) by blast
qed

section \<open>The leader lease\<close>

text \<open>
  A leader lease is exclusive. When a device has acquired the lease of a group, then until the time
  it was granted for, and for as long as the device does not release it, no other device acquires,
  renews or releases it and the holder can renew it; at that time anyone can acquire it.
\<close>

theorem leader_lease_exclusive:
  assumes "redis_ok c look" and "acquireLeaderLease c now g d (Some ttl) r = (Inr True, r1)" and "now \<le> t" and "d' \<noteq> d"
  shows "if t < now + 1000 * ttl
    then fst (acquireLeaderLease c t g d' None r1) = Inr False \<and> fst (renewLeaderLease c t g d' None r1) = Inr False \<and>
      releaseLeaderLease c t g d' r1 = (Inr False, r1) \<and> fst (renewLeaderLease c t g d None r1) = Inr True
    else fst (acquireLeaderLease c t g d' None r1) = Inr True \<and> fst (renewLeaderLease c t g d None r1) = Inr False"
proof -
  have ttl: "normalizeTtl (Some ttl) defaultLeaseTtlSeconds = Inr ttl"
    using assms(2) by (auto simp: acquireLeaderLease_def normalizeTtl_def nullish_def sm_bind_def sm_lift_def Let_def split: if_splits)
  have dflt: "normalizeTtl None defaultLeaseTtlSeconds = Inr 15"
    by (simp add: normalizeTtl_def nullish_def defaultLeaseTtlSeconds_def)
  have got: "r1 = snd (rc_set c now (leaderLeaseKey g) (RText d) True ttl r)" "fst (rc_set c now (leaderLeaseKey g) (RText d) True ttl r)"
    using assms(2) ttl by (auto simp: acquireLeaderLease_def sm_bind_def sm_lift_def split_beta)
  have "look r1 t (leaderLeaseKey g) = (if t < now + 1000 * ttl then Some (RText d) else None)"
    using after_set(1)[OF assms(1), of now "leaderLeaseKey g" "RText d" True ttl r] got
      after_set(2)[OF assms(1,3), of "leaderLeaseKey g" "RText d" True ttl r "leaderLeaseKey g"] by simp
  then show ?thesis
    using assms(4) after_set(1)[OF assms(1), of t "leaderLeaseKey g" "RText d'" True 15 r1]
      after_expire(1)[OF assms(1), of t "leaderLeaseKey g" 15 r1]
    by (simp add: acquireLeaderLease_def renewLeaderLease_def releaseLeaderLease_def sm_bind_def sm_lift_def dflt
        split_beta after_read(1)[OF assms(1)])
qed

theorem leader_lease_exclusive_witness:
  "fst (acquireLeaderLease demoRedis 14999 ''g'' ''e'' None
     (snd (acquireLeaderLease demoRedis 0 ''g'' ''d'' (Some 15) Map.empty))) = Inr False"
proof -
  have "acquireLeaderLease demoRedis 0 ''g'' ''d'' (Some 15) Map.empty =
      (Inr True, snd (acquireLeaderLease demoRedis 0 ''g'' ''d'' (Some 15) Map.empty))"
    by (simp add: acquireLeaderLease_def normalizeTtl_def nullish_def sm_bind_def sm_lift_def demoRedis_def demoLook_def)
  from leader_lease_exclusive[OF demoRedis_ok this, of 14999 "''e''"] show ?thesis by simp
qed

end
