(* ===== verification/Simulation_Curve.thy ===== *)
theory Simulation_Curve
  imports HQ_Prelude Complex_Main "HOL-Library.Word"
begin

unbundle bit_operations_syntax

text \<open>
  The curve evaluator of \<open>packages/domain/src/simulationCurve.ts\<close>, shared by the control plane's
  preview and the client's simulation.

  Curve times, values and tangents are real numbers: the doubles of the source without rounding and
  without \<open>NaN\<close> and the infinities (the one test for \<open>NaN\<close>, in \<open>clampNumber\<close>, holds by typing). The
  noise generator is exact: its state is a 32-bit word, and the double it returns is the word divided
  by \<open>2^32\<close>.
\<close>

section \<open>Data\<close>

record curve_point =
  cp_time :: real
  cp_value :: real
  cp_inTangent :: real
  cp_outTangent :: real

datatype interpolation_kind = Linear | Step | Hermite | Bezier

record simulation_curve =
  cv_points :: "curve_point list"
  cv_interpolation :: interpolation_kind
  cv_loop :: bool

record curve_sample =
  sa_time :: real
  sa_value :: real

datatype telemetry_severity = Normal | Elevated | Degraded | Critical

record simulation_channel =
  ch_minimum :: real
  ch_maximum :: real
  ch_valueCurve :: "simulation_curve option"
  ch_criticalityCurve :: "simulation_curve option"
  ch_noise :: real
  ch_smoothing :: real
  ch_seed :: int

record curve_timeline =
  tl_periodSeconds :: real
  tl_timeScale :: real

section \<open>Arithmetic\<close>

text \<open>The operator \<open>%\<close>: the remainder has the sign of the dividend.\<close>

definition js_rem :: "real \<Rightarrow> real \<Rightarrow> real" where
  "js_rem a b = (let q = a / b in a - b * of_int (if q \<ge> 0 then \<lfloor>q\<rfloor> else \<lceil>q\<rceil>))"

definition positiveRemainder :: "real \<Rightarrow> real \<Rightarrow> real" where
  "positiveRemainder value width = js_rem (js_rem value width + width) width"

definition clampNumber :: "real \<Rightarrow> real \<Rightarrow> real \<Rightarrow> real" where
  "clampNumber value lowest highest = min (max value lowest) highest"

section \<open>Curves\<close>

text \<open>The loop of \<open>normalizeCurvePoints\<close> over the sorted points; \<open>normalized\<close> is built at its end.\<close>

definition pushPoint :: "curve_point list \<Rightarrow> curve_point \<Rightarrow> curve_point list" where
  "pushPoint normalized point =
     (if normalized \<noteq> [] \<and> cp_time (last normalized) = cp_time point
      then butlast normalized @ [point] else normalized @ [point])"

definition normalizeCurvePoints :: "curve_point list \<Rightarrow> curve_point list" where
  "normalizeCurvePoints points = foldl pushPoint [] (sort_key cp_time points)"

definition hermite :: "curve_point \<Rightarrow> curve_point \<Rightarrow> real \<Rightarrow> real \<Rightarrow> real" where
  "hermite p q progress segment =
     (let squared = progress * progress; cubed = squared * progress in
      (2 * cubed - 3 * squared + 1) * cp_value p +
      (cubed - 2 * squared + progress) * segment * cp_outTangent p +
      (- 2 * cubed + 3 * squared) * cp_value q +
      (cubed - squared) * segment * cp_inTangent q)"

definition bezier :: "curve_point \<Rightarrow> curve_point \<Rightarrow> real \<Rightarrow> real \<Rightarrow> real" where
  "bezier p q progress segment =
     (let control1 = cp_value p + (cp_outTangent p * segment) / 3;
          control2 = cp_value q - (cp_inTangent q * segment) / 3;
          inverse = 1 - progress in
      inverse * inverse * inverse * cp_value p +
      3 * inverse * inverse * progress * control1 +
      3 * inverse * progress * progress * control2 +
      progress * progress * progress * cp_value q)"

fun interpolate :: "interpolation_kind \<Rightarrow> curve_point \<Rightarrow> curve_point \<Rightarrow> real \<Rightarrow> real \<Rightarrow> real" where
  "interpolate Step p q progress segment = cp_value p"
| "interpolate Hermite p q progress segment = hermite p q progress segment"
| "interpolate Bezier p q progress segment = bezier p q progress segment"
| "interpolate Linear p q progress segment = cp_value p + (cp_value q - cp_value p) * progress"

text \<open>The \<open>while\<close> loop that finds the segment of a time.\<close>

function segmentIndex :: "curve_point list \<Rightarrow> real \<Rightarrow> nat \<Rightarrow> nat" where
  "segmentIndex points time index =
     (if index + 1 < length points \<and> \<not> cp_time (points ! (index + 1)) > time
      then segmentIndex points time (index + 1) else index)"
  by pat_completeness auto
termination by (relation "measure (\<lambda>(points, time, index). length points - index)") auto

declare segmentIndex.simps [simp del]

definition evaluateNormalizedCurve ::
  "curve_point list \<Rightarrow> interpolation_kind \<Rightarrow> bool \<Rightarrow> real \<Rightarrow> real option" where
  "evaluateNormalizedCurve points interpolation loop phase =
     (if points = [] then None
      else
        let first = hd points; final = last points in
        if length points = 1 then Some (cp_value first)
        else
          let width = cp_time final - cp_time first;
              time = (if loop \<and> width > 0
                      then cp_time first + positiveRemainder (phase - cp_time first) width else phase) in
          if time \<le> cp_time first then Some (cp_value first)
          else if time \<ge> cp_time final then Some (cp_value final)
          else
            let index = segmentIndex points time 0 in
            if index + 1 < length points
            then
              let p = points ! index; q = points ! (index + 1); segment = cp_time q - cp_time p in
              Some (interpolate interpolation p q ((time - cp_time p) / segment) segment)
            else Some (cp_value final))"

definition evaluateCurve :: "simulation_curve option \<Rightarrow> real \<Rightarrow> real option" where
  "evaluateCurve curve phase =
     (case curve of
        None \<Rightarrow> None
      | Some c \<Rightarrow> evaluateNormalizedCurve (normalizeCurvePoints (cv_points c)) (cv_interpolation c) (cv_loop c) phase)"

text \<open>The range of \<open>sampleCurve\<close> is a pair; \<open>None\<close> is the curve's own span.\<close>

definition sampleCurve :: "simulation_curve \<Rightarrow> real \<Rightarrow> (real \<times> real) option \<Rightarrow> curve_sample list" where
  "sampleCurve curve sampleCount bounds =
     (let count = \<lfloor>sampleCount\<rfloor>; points = normalizeCurvePoints (cv_points curve) in
      if count < 1 \<or> points = [] then []
      else
        let start = (case bounds of None \<Rightarrow> cp_time (hd points) | Some (a, b) \<Rightarrow> a);
            stop = (case bounds of None \<Rightarrow> cp_time (last points) | Some (a, b) \<Rightarrow> b) in
        concat (map (\<lambda>index.
          let time = (if count = 1 then start
                      else start + ((stop - start) * of_nat index) / (of_int count - 1)) in
          case evaluateNormalizedCurve points (cv_interpolation curve) (cv_loop curve) time of
            None \<Rightarrow> []
          | Some v \<Rightarrow> [\<lparr>sa_time = time, sa_value = v\<rparr>]) [0 ..< nat count]))"

section \<open>Monotone tangents\<close>

definition secantsOf :: "curve_point list \<Rightarrow> real list" where
  "secantsOf points = map (\<lambda>i. (cp_value (points ! (i + 1)) - cp_value (points ! i)) /
     (cp_time (points ! (i + 1)) - cp_time (points ! i))) [0 ..< length points - 1]"

text \<open>The first tangents; \<open>secants[-1]\<close> and \<open>secants[length]\<close> are \<open>undefined\<close>.\<close>

definition startTangent :: "real list \<Rightarrow> nat \<Rightarrow> real" where
  "startTangent secants index =
     (if index = 0 then (if 0 < length secants then secants ! 0 else 0)
      else if index < length secants then
        let before = secants ! (index - 1); after = secants ! index in
        if before = 0 \<or> after = 0 \<or> sgn before \<noteq> sgn after then 0 else (before + after) / 2
      else secants ! (index - 1))"

definition limitTangents :: "real list \<Rightarrow> nat \<Rightarrow> real list \<Rightarrow> real list" where
  "limitTangents secants index tangents =
     (let secant = secants ! index in
      if secant = 0 then tangents[index := 0, index + 1 := 0]
      else
        let alpha = tangents ! index / secant; beta = tangents ! (index + 1) / secant;
            radius = alpha * alpha + beta * beta in
        if radius > 9 then
          let scale = 3 / sqrt radius in
          tangents[index := scale * alpha * secant, index + 1 := scale * beta * secant]
        else tangents)"

definition monotoneTangents :: "curve_point list \<Rightarrow> curve_point list" where
  "monotoneTangents points =
     (let normalized = normalizeCurvePoints points in
      if length normalized < 2
      then map (\<lambda>p. p\<lparr>cp_inTangent := 0, cp_outTangent := 0\<rparr>) normalized
      else
        let secants = secantsOf normalized;
            tangents = fold (limitTangents secants) [0 ..< length secants]
                         (map (startTangent secants) [0 ..< length normalized])
        in map (\<lambda>i. (normalized ! i)\<lparr>cp_inTangent := tangents ! i, cp_outTangent := tangents ! i\<rparr>)
             [0 ..< length normalized])"

section \<open>Channels\<close>

definition deterministicState :: "int \<Rightarrow> int \<Rightarrow> 32 word" where
  "deterministicState seed index =
     (let s0 = word_of_int seed + word_of_int index * 0x9e3779b9;
          s1 = (s0 XOR drop_bit 16 s0) * 0x21f0aaad;
          s2 = (s1 XOR drop_bit 15 s1) * 0x735a2d97
      in s2 XOR drop_bit 15 s2)"

definition deterministicUnit :: "int \<Rightarrow> int \<Rightarrow> real" where
  "deterministicUnit seed index = of_nat (unat (deterministicState seed index)) / 2 ^ 32"

definition channelValue :: "simulation_channel \<Rightarrow> real \<Rightarrow> int \<Rightarrow> real option \<Rightarrow> real" where
  "channelValue channel phase index previous =
     (let extent = ch_maximum channel - ch_minimum channel;
          base = (case evaluateCurve (ch_valueCurve channel) phase of
                    None \<Rightarrow> ch_minimum channel + extent / 2 | Some v \<Rightarrow> v);
          amplitude = clampNumber (ch_noise channel) 0 1 * extent;
          noise = (deterministicUnit (ch_seed channel) index - 1 / 2) * 2 * amplitude;
          raw = clampNumber (base + noise) (ch_minimum channel) (ch_maximum channel) in
      case previous of
        None \<Rightarrow> raw
      | Some p \<Rightarrow> p + (raw - p) * (1 - clampNumber (ch_smoothing channel) 0 1))"

definition severityForCriticality :: "real \<Rightarrow> telemetry_severity" where
  "severityForCriticality level =
     (let clamped = clampNumber level 0 1 in
      if clamped < 1 / 4 then Normal
      else if clamped < 1 / 2 then Elevated
      else if clamped < 3 / 4 then Degraded
      else Critical)"

definition channelSeverity :: "simulation_channel \<Rightarrow> real \<Rightarrow> telemetry_severity" where
  "channelSeverity channel phase =
     (case evaluateCurve (ch_criticalityCurve channel) phase of
        None \<Rightarrow> Normal | Some criticality \<Rightarrow> severityForCriticality criticality)"

definition curvePhaseAt :: "curve_timeline \<Rightarrow> real \<Rightarrow> real" where
  "curvePhaseAt timeline elapsedMs =
     (let period = (if tl_periodSeconds timeline > 0 then tl_periodSeconds timeline else 1) in
      ((elapsedMs / 1000) * tl_timeScale timeline) / period)"

end
