(* ===== verification/Curve_Correct.thy ===== *)
theory Curve_Correct
  imports Simulation_Curve
begin

text \<open>
  Correctness of the curve evaluator: which points a curve passes through, that a looping curve
  repeats, that the two cubic forms agree, that monotone tangents never overshoot, and that a
  channel's readings stay in its range.
\<close>

section \<open>Normalized points\<close>

definition ascending_points :: "curve_point list \<Rightarrow> bool" where
  "ascending_points ps \<longleftrightarrow> sorted_wrt (\<lambda>p q. cp_time p < cp_time q) ps"

definition lastAt :: "real \<Rightarrow> curve_point list \<Rightarrow> curve_point" where
  "lastAt t ps = last (filter (\<lambda>q. cp_time q = t) ps)"

lemma lastAt_time: "q \<in> set ps \<Longrightarrow> cp_time (lastAt (cp_time q) ps) = cp_time q"
  using last_in_set[of "filter (\<lambda>r. cp_time r = cp_time q) ps"] by (auto simp: lastAt_def filter_empty_conv)

lemma pushed_points:
  assumes "sorted (map cp_time xs)"
  shows "ascending_points (foldl pushPoint [] xs) \<and>
    (xs \<noteq> [] \<longrightarrow> foldl pushPoint [] xs \<noteq> [] \<and> last (foldl pushPoint [] xs) = last xs) \<and>
    (\<forall>p. p \<in> set (foldl pushPoint [] xs) \<longleftrightarrow> (\<exists>q \<in> set xs. p = lastAt (cp_time q) xs))"
  using assms
proof (induction xs rule: rev_induct)
  case Nil
  then show ?case by (simp add: ascending_points_def)
next
  case (snoc x xs)
  let ?n = "foldl pushPoint [] xs" and ?m = "foldl pushPoint [] (xs @ [x])"
  have sorted: "sorted (map cp_time xs)" "\<And>y. y \<in> set xs \<Longrightarrow> cp_time y \<le> cp_time x"
    using snoc.prems by (auto simp: sorted_append)
  note ih = snoc.IH[OF sorted(1)]
  have m: "?m = pushPoint ?n x" by simp
  have snoc_at: "lastAt t (xs @ [x]) = (if t = cp_time x then x else lastAt t xs)" for t
    by (simp add: lastAt_def)
  have old: "cp_time p \<le> cp_time x" if "p \<in> set ?n" for p using ih that lastAt_time[of _ xs] sorted(2) by force
  show ?case
  proof (cases "xs \<noteq> [] \<and> cp_time (last xs) = cp_time x")
    case True
    then obtain init where n: "?n = init @ [last xs]" using ih by (metis append_butlast_last_id)
    then have m': "?m = init @ [x]" using True by (simp add: pushPoint_def)
    have asc: "ascending_points (init @ [last xs])" using ih n by simp
    then have "ascending_points (init @ [x])" using True by (simp add: ascending_points_def sorted_wrt_append)
    moreover have "p \<in> set (init @ [x]) \<longleftrightarrow> (\<exists>q \<in> set (xs @ [x]). p = lastAt (cp_time q) (xs @ [x]))" for p
    proof -
      have init: "p \<in> set init \<longleftrightarrow> (\<exists>q \<in> set xs. p = lastAt (cp_time q) xs) \<and> cp_time p \<noteq> cp_time x"
      proof -
        have "p \<in> set init \<or> p = last xs \<longleftrightarrow> (\<exists>q \<in> set xs. p = lastAt (cp_time q) xs)" using ih n by auto
        moreover have "p \<in> set init \<Longrightarrow> cp_time p < cp_time x"
          using asc True by (simp add: ascending_points_def sorted_wrt_append)
        ultimately show ?thesis using True by auto
      qed
      show ?thesis
      proof
        assume "p \<in> set (init @ [x])"
        then show "\<exists>q \<in> set (xs @ [x]). p = lastAt (cp_time q) (xs @ [x])"
          using init lastAt_time[of _ xs] by (auto simp: snoc_at)
      next
        assume "\<exists>q \<in> set (xs @ [x]). p = lastAt (cp_time q) (xs @ [x])"
        then show "p \<in> set (init @ [x])" using init lastAt_time[of _ xs] by (auto simp: snoc_at split: if_splits)
      qed
    qed
    ultimately show ?thesis using m' by auto
  next
    case False
    then have "\<not> (?n \<noteq> [] \<and> cp_time (last ?n) = cp_time x)" using ih by auto
    then have m': "?m = ?n @ [x]" by (auto simp: pushPoint_def[of ?n x])
    have less: "cp_time y < cp_time x" if "y \<in> set xs" for y
    proof -
      have "xs \<noteq> []" using that by auto
      then obtain zs where xs: "xs = zs @ [last xs]" by (metis append_butlast_last_id)
      have "sorted (map cp_time (zs @ [last xs]))" "y \<in> set (zs @ [last xs])" using sorted(1) that xs by simp_all
      then have "cp_time y \<le> cp_time (last xs)" "xs \<noteq> []" using that by (auto simp: sorted_append)
      then show ?thesis using False sorted(2)[of "last xs"] by (auto simp: less_le)
    qed
    have "cp_time p < cp_time x" if "p \<in> set ?n" for p using ih that lastAt_time[of _ xs] less by force
    then have "ascending_points (?n @ [x])" using ih by (simp add: ascending_points_def sorted_wrt_append)
    moreover have "p \<in> set (?n @ [x]) \<longleftrightarrow> (\<exists>q \<in> set (xs @ [x]). p = lastAt (cp_time q) (xs @ [x]))" for p
    proof -
      have "(\<exists>q \<in> set xs. p = lastAt (cp_time q) (xs @ [x])) \<longleftrightarrow> (\<exists>q \<in> set xs. p = lastAt (cp_time q) xs)"
        by (rule bex_cong) (auto simp: snoc_at dest: less)
      then show ?thesis using ih by (auto simp: snoc_at[of "cp_time x"])
    qed
    ultimately show ?thesis using m' by auto
  qed
qed

lemma normalize_ascending: "ascending_points (normalizeCurvePoints ps)"
  using pushed_points[of "sort_key cp_time ps"] by (simp add: normalizeCurvePoints_def)

lemma normalize_points:
  "p \<in> set (normalizeCurvePoints ps) \<longleftrightarrow> (\<exists>q \<in> set ps. p = lastAt (cp_time q) ps)"
  using pushed_points[of "sort_key cp_time ps"]
  by (simp add: normalizeCurvePoints_def lastAt_def sort_key_stable)

lemma ascending_nth:
  "ascending_points ps \<Longrightarrow> i < j \<Longrightarrow> j < length ps \<Longrightarrow> cp_time (ps ! i) < cp_time (ps ! j)"
  by (simp add: ascending_points_def sorted_wrt_iff_nth_less)

lemma ascending_nth_le:
  "ascending_points ps \<Longrightarrow> i \<le> j \<Longrightarrow> j < length ps \<Longrightarrow> cp_time (ps ! i) \<le> cp_time (ps ! j)"
  using ascending_nth[of ps i j] by (cases "i = j") auto

text \<open>Points in ascending order are normalized already.\<close>

lemma pushed_ascending: "ascending_points (ys @ xs) \<Longrightarrow> foldl pushPoint ys xs = ys @ xs"
proof (induction xs arbitrary: ys)
  case Nil
  then show ?case by simp
next
  case (Cons x xs)
  have "cp_time (last ys) < cp_time x" if "ys \<noteq> []"
    using Cons.prems that by (simp add: ascending_points_def sorted_wrt_append)
  then have "pushPoint ys x = ys @ [x]" by (auto simp: pushPoint_def)
  then show ?case using Cons by simp
qed

lemma normalize_id: "ascending_points ps \<Longrightarrow> normalizeCurvePoints ps = ps"
proof -
  assume asc: "ascending_points ps"
  then have "sorted (map cp_time ps)"
    by (auto simp: ascending_points_def sorted_map intro: sorted_wrt_mono_rel[rotated])
  then show ?thesis
    using pushed_ascending[of "[]" ps] asc by (simp add: normalizeCurvePoints_def sort_key_id_if_sorted)
qed

section \<open>Reading a curve\<close>

lemma segmentIndex_eq:
  assumes "ascending_points ps" and "i + 1 < length ps" and "cp_time (ps ! i) \<le> x" and "x < cp_time (ps ! (i + 1))"
    and "j \<le> i"
  shows "segmentIndex ps x j = i"
  using assms(5)
proof (induction "i - j" arbitrary: j)
  case 0
  then have "i = j" by simp
  then show ?case using assms(4) by (simp add: segmentIndex.simps[of ps x j])
next
  case (Suc k)
  have "j + 1 \<le> i" "i < length ps" using Suc.hyps(2) assms(2) by auto
  from ascending_nth_le[OF assms(1) this] have "cp_time (ps ! (j + 1)) \<le> x" using assms(3) by simp
  then show ?case using Suc assms(2) by (simp add: segmentIndex.simps[of ps x j])
qed

lemma interpolate_0 [simp]: "interpolate k p q 0 s = cp_value p"
  by (cases k) (simp_all add: hermite_def bezier_def)

lemma evaluate_segment:
  assumes "ascending_points ps" and "i + 1 < length ps" and "cp_time (ps ! i) \<le> x" and "x < cp_time (ps ! (i + 1))"
  shows "evaluateNormalizedCurve ps k False x =
    Some (interpolate k (ps ! i) (ps ! (i + 1)) ((x - cp_time (ps ! i)) / (cp_time (ps ! (i + 1)) - cp_time (ps ! i)))
      (cp_time (ps ! (i + 1)) - cp_time (ps ! i)))"
proof -
  have ne: "ps \<noteq> []" "length ps \<noteq> 1" using assms(2) by auto
  then have ends: "hd ps = ps ! 0" "last ps = ps ! (length ps - 1)" by (simp_all add: hd_conv_nth last_conv_nth)
  have end_le: "x < cp_time (ps ! (length ps - 1))"
  proof -
    have "i + 1 \<le> length ps - 1" "length ps - 1 < length ps" using assms(2) by auto
    from ascending_nth_le[OF assms(1) this] show ?thesis using assms(4) by simp
  qed
  have start_le: "cp_time (ps ! 0) \<le> cp_time (ps ! i)" using ascending_nth_le[OF assms(1), of 0 i] assms(2) by simp
  show ?thesis
  proof (cases "x \<le> cp_time (ps ! 0)")
    case True
    then have "x = cp_time (ps ! i)" using start_le assms(3) by simp
    moreover have "i = 0"
      using ascending_nth[OF assms(1), of 0 i] True assms(2,3) by (cases i) auto
    ultimately show ?thesis using ne ends by (simp add: evaluateNormalizedCurve_def Let_def)
  next
    case False
    then show ?thesis
      using ne ends end_le segmentIndex_eq[OF assms, of 0] assms(2) by (simp add: evaluateNormalizedCurve_def Let_def)
  qed
qed

lemma evaluate_last:
  "ps \<noteq> [] \<Longrightarrow> ascending_points ps \<Longrightarrow> cp_time (last ps) \<le> x \<Longrightarrow>
    evaluateNormalizedCurve ps k False x = Some (cp_value (last ps))"
  using ascending_nth[of ps 0 "length ps - 1"]
  by (cases "length ps = 1") (auto simp: evaluateNormalizedCurve_def Let_def hd_conv_nth last_conv_nth)

lemma evaluate_first:
  "ps \<noteq> [] \<Longrightarrow> x \<le> cp_time (hd ps) \<Longrightarrow> evaluateNormalizedCurve ps k False x = Some (cp_value (hd ps))"
  by (simp add: evaluateNormalizedCurve_def Let_def)

lemma evaluate_point:
  assumes "ascending_points ps" and "i < length ps"
  shows "evaluateNormalizedCurve ps k False (cp_time (ps ! i)) = Some (cp_value (ps ! i))"
proof (cases "i + 1 < length ps")
  case True
  then show ?thesis using evaluate_segment[OF assms(1) True, of "cp_time (ps ! i)"] ascending_nth[OF assms(1)] by simp
next
  case False
  then have "ps \<noteq> []" "i = length ps - 1" using assms(2) by auto
  then have "ps ! i = last ps" by (simp add: last_conv_nth)
  then show ?thesis using evaluate_last[OF \<open>ps \<noteq> []\<close> assms(1)] by simp
qed


text \<open>
  A curve passes through its points. Read at the time of any of its points, a curve that does not
  loop answers, under each of the four interpolations, the value of the point listed last for that
  time; before its first point and after its last it holds their values.
\<close>

theorem curve_passes_through_points:
  assumes "\<not> cv_loop c" and "p \<in> set (cv_points c)"
  shows "evaluateCurve (Some c) (cp_time p) = Some (cp_value (lastAt (cp_time p) (cv_points c))) \<and>
    ((\<forall>q \<in> set (cv_points c). cp_time p \<le> cp_time q) \<longrightarrow>
      (\<forall>x \<le> cp_time p. evaluateCurve (Some c) x = Some (cp_value (lastAt (cp_time p) (cv_points c))))) \<and>
    ((\<forall>q \<in> set (cv_points c). cp_time q \<le> cp_time p) \<longrightarrow>
      (\<forall>x \<ge> cp_time p. evaluateCurve (Some c) x = Some (cp_value (lastAt (cp_time p) (cv_points c)))))"
proof -
  let ?ps = "normalizeCurvePoints (cv_points c)" and ?p = "lastAt (cp_time p) (cv_points c)"
  note asc = normalize_ascending[of "cv_points c"]
  have p: "?p \<in> set ?ps" "cp_time ?p = cp_time p" and ne: "?ps \<noteq> []"
    using assms(2) normalize_points[of ?p "cv_points c"] lastAt_time by force+
  then obtain i where i: "i < length ?ps" "?ps ! i = ?p" by (auto simp: in_set_conv_nth)
  have times: "\<exists>q \<in> set (cv_points c). cp_time r = cp_time q" if "r \<in> set ?ps" for r
    using that normalize_points[of r] lastAt_time by fastforce
  have "?p = hd ?ps" if "\<forall>q \<in> set (cv_points c). cp_time p \<le> cp_time q"
  proof -
    have "cp_time p \<le> cp_time (?ps ! 0)" using times[of "?ps ! 0"] that ne by auto
    then have "i = 0" using ascending_nth[OF asc, of 0 i] i p(2) by (cases i) auto
    then show ?thesis using i ne by (simp add: hd_conv_nth)
  qed
  moreover have "?p = last ?ps" if "\<forall>q \<in> set (cv_points c). cp_time q \<le> cp_time p"
  proof -
    have "cp_time (last ?ps) \<le> cp_time p" using times[of "last ?ps"] that ne by auto
    then have "i = length ?ps - 1"
      using ascending_nth[OF asc, of i "length ?ps - 1"] i p(2) ne by (force simp: last_conv_nth)
    then show ?thesis using i ne by (simp add: last_conv_nth)
  qed
  ultimately show ?thesis
    using assms(1) evaluate_point[OF asc i(1)] i(2) p(2) evaluate_first[OF ne] evaluate_last[OF ne asc]
    by (auto simp: evaluateCurve_def)
qed

definition demoPoint :: "real \<Rightarrow> real \<Rightarrow> curve_point" where
  "demoPoint t v = \<lparr>cp_time = t, cp_value = v, cp_inTangent = 0, cp_outTangent = 0\<rparr>"

definition demoCurve :: simulation_curve where
  "demoCurve = \<lparr>cv_points = [demoPoint 2 5, demoPoint 0 1, demoPoint 2 7], cv_interpolation = Hermite, cv_loop = False\<rparr>"

theorem curve_passes_through_points_witness:
  "evaluateCurve (Some demoCurve) 2 = Some 7 \<and> evaluateCurve (Some demoCurve) 9 = Some 7"
  using curve_passes_through_points[of demoCurve "demoPoint 2 5"] by (simp add: demoCurve_def demoPoint_def lastAt_def)

section \<open>Looping\<close>

lemma js_rem_pos: "0 < b \<Longrightarrow> 0 \<le> a \<Longrightarrow> js_rem a b = a - b * of_int \<lfloor>a / b\<rfloor>"
  by (simp add: js_rem_def)

lemma floor_quotient:
  fixes a b :: real
  assumes "0 < b"
  shows "of_int \<lfloor>a / b\<rfloor> * b \<le> a" and "a < of_int \<lfloor>a / b\<rfloor> * b + b"
    and "a \<le> of_int \<lceil>a / b\<rceil> * b" and "of_int \<lceil>a / b\<rceil> * b - b < a"
proof -
  show "of_int \<lfloor>a / b\<rfloor> * b \<le> a"
    using of_int_floor_le[of "a / b"] by (simp only: pos_le_divide_eq[OF assms])
  have "a / b < of_int \<lfloor>a / b\<rfloor> + 1" by linarith
  then show "a < of_int \<lfloor>a / b\<rfloor> * b + b" by (simp only: pos_divide_less_eq[OF assms] distrib_right mult_1)
  show "a \<le> of_int \<lceil>a / b\<rceil> * b"
    using le_of_int_ceiling[of "a / b"] by (simp only: pos_divide_le_eq[OF assms])
  have "of_int \<lceil>a / b\<rceil> - 1 < a / b" by linarith
  then show "of_int \<lceil>a / b\<rceil> * b - b < a" by (simp only: pos_less_divide_eq[OF assms] left_diff_distrib mult_1)
qed

lemma js_rem_bounds:
  assumes "0 < b"
  shows "\<exists>k. js_rem a b = a - b * of_int k \<and> \<bar>js_rem a b\<bar> < b"
proof (cases "0 \<le> a / b")
  case True
  show ?thesis using True floor_quotient(1,2)[OF assms, of a] by (intro exI[of _ "\<lfloor>a / b\<rfloor>"]) (simp add: js_rem_def Let_def algebra_simps)
next
  case False
  show ?thesis using False floor_quotient(3,4)[OF assms, of a] by (intro exI[of _ "\<lceil>a / b\<rceil>"]) (simp add: js_rem_def Let_def algebra_simps)
qed

lemma positiveRemainder_eq:
  assumes "0 < s"
  shows "positiveRemainder v s = v - s * of_int \<lfloor>v / s\<rfloor>"
proof -
  obtain k where k: "js_rem v s = v - s * of_int k" "\<bar>js_rem v s\<bar> < s" using js_rem_bounds[OF assms] by blast
  let ?x = "js_rem v s + s"
  have "positiveRemainder v s = ?x - s * of_int \<lfloor>?x / s\<rfloor>"
    using k(2) assms by (simp add: positiveRemainder_def js_rem_pos)
  moreover have "?x / s = v / s + of_int (1 - k)" using k(1) assms by (simp add: field_simps)
  then have "\<lfloor>?x / s\<rfloor> = \<lfloor>v / s\<rfloor> + (1 - k)" by (simp only: floor_add_int)
  then have "of_int \<lfloor>?x / s\<rfloor> = (of_int \<lfloor>v / s\<rfloor> + (1 - of_int k) :: real)"
    by (simp only: of_int_add of_int_diff of_int_1)
  ultimately have "positiveRemainder v s = ?x - s * (of_int \<lfloor>v / s\<rfloor> + (1 - of_int k))" by simp
  then show ?thesis using k(1) by (simp add: algebra_simps)
qed

lemma positiveRemainder_bounds: "0 < s \<Longrightarrow> 0 \<le> positiveRemainder v s \<and> positiveRemainder v s < s"
  using floor_quotient(1,2)[of s v] by (simp add: positiveRemainder_eq algebra_simps)

lemma positiveRemainder_shift: "0 < s \<Longrightarrow> positiveRemainder (v + of_int k * s) s = positiveRemainder v s"
proof -
  assume s: "0 < s"
  have "(v + of_int k * s) / s = v / s + of_int k" using s by (simp add: field_simps)
  then have "\<lfloor>(v + of_int k * s) / s\<rfloor> = \<lfloor>v / s\<rfloor> + k" by (simp only: floor_add_int)
  then show ?thesis using s by (simp add: positiveRemainder_eq algebra_simps)
qed

text \<open>
  A looping curve repeats over its span, for negative phases too: its reading at a phase and at
  that phase moved by any whole number of spans is the same, and it is the reading of the same curve
  without looping at a time of its span.
\<close>

theorem looping_curve_is_periodic:
  assumes "cv_loop c" and "ps = normalizeCurvePoints (cv_points c)" and "2 \<le> length ps"
    and "width = cp_time (last ps) - cp_time (hd ps)"
  shows "evaluateCurve (Some c) (x + of_int k * width) = evaluateCurve (Some c) x \<and>
    (\<exists>t. cp_time (hd ps) \<le> t \<and> t < cp_time (last ps) \<and>
       evaluateCurve (Some c) x = evaluateCurve (Some (c\<lparr>cv_loop := False\<rparr>)) t)"
proof -
  have asc: "ascending_points ps" using assms(2) normalize_ascending by simp
  have ends: "hd ps = ps ! 0" "last ps = ps ! (length ps - 1)"
    using assms(3) by (cases ps; simp add: hd_conv_nth last_conv_nth)+
  have width: "0 < width" using ascending_nth[OF asc, of 0 "length ps - 1"] assms(3,4) ends by simp
  let ?t = "\<lambda>x. cp_time (hd ps) + positiveRemainder (x - cp_time (hd ps)) width"
  have loop: "evaluateNormalizedCurve ps m True x = evaluateNormalizedCurve ps m False (?t x)" for m x
    using width assms(3,4) by (auto simp: evaluateNormalizedCurve_def Let_def)
  have "x + of_int k * width - cp_time (hd ps) = (x - cp_time (hd ps)) + of_int k * width" by simp
  then have "?t (x + of_int k * width) = ?t x" by (simp only: positiveRemainder_shift[OF width])
  then have "evaluateCurve (Some c) (x + of_int k * width) = evaluateCurve (Some c) x"
    using assms(1) by (simp add: evaluateCurve_def loop flip: assms(2))
  moreover have "evaluateCurve (Some c) x = evaluateCurve (Some (c\<lparr>cv_loop := False\<rparr>)) (?t x)"
    using assms(1) by (simp add: evaluateCurve_def loop flip: assms(2))
  moreover have "cp_time (hd ps) \<le> ?t x" "?t x < cp_time (last ps)"
    using positiveRemainder_bounds[OF width, of "x - cp_time (hd ps)"] assms(4) by auto
  ultimately show ?thesis by blast
qed

lemma demo_points: "ascending_points [demoPoint 0 1, demoPoint 2 7]"
  by (simp add: ascending_points_def demoPoint_def)

theorem looping_curve_is_periodic_witness:
  "let c = \<lparr>cv_points = [demoPoint 0 1, demoPoint 2 7], cv_interpolation = Linear, cv_loop = True\<rparr> in
   evaluateCurve (Some c) (- 3 + of_int 2 * 2) = evaluateCurve (Some c) (- 3)"
proof -
  let ?c = "\<lparr>cv_points = [demoPoint 0 1, demoPoint 2 7], cv_interpolation = Linear, cv_loop = True\<rparr>"
  have ps: "normalizeCurvePoints (cv_points ?c) = [demoPoint 0 1, demoPoint 2 7]"
    using normalize_id[OF demo_points] by simp
  have "cv_loop ?c" "2 \<le> length [demoPoint 0 1, demoPoint 2 7]"
    "2 = cp_time (last [demoPoint 0 1, demoPoint 2 7]) - cp_time (hd [demoPoint 0 1, demoPoint 2 7])"
    by (simp_all add: demoPoint_def)
  from looping_curve_is_periodic[OF this(1) ps[symmetric] this(2,3), of "- 3" 2] show ?thesis by simp
qed

section \<open>The two cubic forms\<close>

lemma bezier_hermite: "bezier p q t s = hermite p q t s"
  by (simp add: bezier_def hermite_def Let_def field_simps power2_eq_square)

text \<open>
  C36: A Bezier curve and a Hermite curve with equal points and tangents agree at every phase.
\<close>

theorem bezier_agrees_with_hermite:
  "evaluateCurve (Some (c\<lparr>cv_interpolation := Bezier\<rparr>)) x = evaluateCurve (Some (c\<lparr>cv_interpolation := Hermite\<rparr>)) x"
proof -
  have "interpolate Bezier = interpolate Hermite" by (intro ext) (simp add: bezier_hermite)
  then show ?thesis by (simp add: evaluateCurve_def evaluateNormalizedCurve_def Let_def)
qed

section \<open>Sampling\<close>

lemma evaluate_Some: "ps \<noteq> [] \<Longrightarrow> \<exists>v. evaluateNormalizedCurve ps k loop x = Some v"
  by (simp add: evaluateNormalizedCurve_def Let_def)

text \<open>
  Sampling a curve of at least one point answers exactly the requested number of samples: the first
  at the start of the range, the last at its end, equally spaced, and each with the curve's own
  reading at its time.
\<close>

theorem sampleCurve_evenly_spaced:
  assumes "cv_points c \<noteq> []" and "1 \<le> n"
  shows "length (sampleCurve c (real n) (Some (a, b))) = n \<and>
    (\<forall>i < n. Some (sa_value (sampleCurve c (real n) (Some (a, b)) ! i)) =
        evaluateCurve (Some c) (sa_time (sampleCurve c (real n) (Some (a, b)) ! i)) \<and>
      (n = 1 \<longrightarrow> sa_time (sampleCurve c (real n) (Some (a, b)) ! i) = a) \<and>
      (2 \<le> n \<longrightarrow> sa_time (sampleCurve c (real n) (Some (a, b)) ! i) = a + (b - a) * real i / real (n - 1)))"
proof -
  let ?ps = "normalizeCurvePoints (cv_points c)"
  have "hd (cv_points c) \<in> set (cv_points c)" using assms(1) by simp
  with normalize_points[of _ "cv_points c"] have ne: "?ps \<noteq> []" by fastforce
  let ?t = "\<lambda>i. if n = 1 then a else a + (b - a) * real i / real (n - 1)"
  obtain f where f: "evaluateNormalizedCurve ?ps (cv_interpolation c) (cv_loop c) x = Some (f x)" for x
    using evaluate_Some[OF ne] by metis
  have "concat (map (\<lambda>i. [f i]) xs) = map f xs" for f :: "nat \<Rightarrow> curve_sample" and xs
    by (induction xs) auto
  moreover have "(if int n = 1 then a else a + (b - a) * real i / (real_of_int (int n) - 1)) = ?t i" for i
    using assms(2) by (auto simp: of_nat_diff)
  ultimately have "sampleCurve c (real n) (Some (a, b)) = map (\<lambda>i. \<lparr>sa_time = ?t i, sa_value = f (?t i)\<rparr>) [0 ..< n]"
    using assms(2) ne by (subst sampleCurve_def) (simp add: f Let_def del: of_nat_eq_1_iff)
  then obtain s where s: "s = map (\<lambda>i. \<lparr>sa_time = ?t i, sa_value = f (?t i)\<rparr>) [0 ..< n]"
    and eq: "sampleCurve c (real n) (Some (a, b)) = s" by blast
  show ?thesis unfolding eq by (cases "n = 1") (simp_all add: s f evaluateCurve_def)
qed

theorem sampleCurve_evenly_spaced_witness:
  "map sa_time (sampleCurve demoCurve 3 (Some (0, 4))) = [0, 2, 4]"
proof -
  let ?s = "sampleCurve demoCurve (real 3) (Some (0, 4))"
  have ne: "cv_points demoCurve \<noteq> []" by (simp add: demoCurve_def)
  from sampleCurve_evenly_spaced[OF ne, of 3 0 4]
  have "length ?s = 3" "sa_time (?s ! 0) = 0" "sa_time (?s ! 1) = 2" "sa_time (?s ! 2) = 4" by auto
  then have "map sa_time ?s = [0, 2, 4]" by (auto simp: list_eq_iff_nth_eq nth_Cons' less_Suc_eq numeral_3_eq_3 numeral_2_eq_2)
  then show ?thesis by simp
qed

section \<open>The noise generator\<close>

lemma xorshift_inj:
  fixes x y :: "'a::len word"
  assumes "x XOR drop_bit k x = y XOR drop_bit k y" and "0 < k"
  shows "x = y"
proof -
  let ?z = "x XOR y"
  have "drop_bit k ?z = drop_bit k x XOR drop_bit k y" by (simp add: drop_bit_xor)
  also have "\<dots> = ?z"
  proof -
    have "(x XOR drop_bit k x) XOR (y XOR drop_bit k x) = (y XOR drop_bit k y) XOR (y XOR drop_bit k x)"
      using assms(1) by simp
    then show ?thesis by (simp add: ac_simps)
  qed
  finally have "unat ?z div 2 ^ k = unat ?z" by (metis unat_drop_bit_eq drop_bit_eq_div)
  moreover have "unat ?z div 2 ^ k < unat ?z" if "0 < unat ?z"
    using that assms(2) one_less_power[of "2::nat" k] by (intro div_less_dividend) simp_all
  ultimately have "unat ?z = 0" by linarith
  then have "x XOR y = 0" by (simp add: unat_eq_zero)
  then have "(x XOR y) XOR y = 0 XOR y" by simp
  then show ?thesis by (simp add: xor.assoc)
qed

lemma odd_mult_inj:
  fixes x y c d :: "'a::len word"
  assumes "x * c = y * c" and "c * d = 1"
  shows "x = y"
proof -
  have "x * c * d = y * c * d" using assms(1) by simp
  then show ?thesis using assms(2) by (simp add: mult.assoc)
qed

lemma deterministicState_inj:
  assumes "deterministicState seed i = deterministicState seed' j"
  shows "word_of_int seed + word_of_int i * 0x9e3779b9 = (word_of_int seed' + word_of_int j * 0x9e3779b9 :: 32 word)"
proof -
  let ?s = "\<lambda>seed i. word_of_int seed + word_of_int i * 0x9e3779b9 :: 32 word"
  let ?a = "\<lambda>seed i. (?s seed i XOR drop_bit 16 (?s seed i)) * 0x21f0aaad"
  let ?b = "\<lambda>seed i. (?a seed i XOR drop_bit 15 (?a seed i)) * 0x735a2d97"
  have "?b seed i XOR drop_bit 15 (?b seed i) = ?b seed' j XOR drop_bit 15 (?b seed' j)"
    using assms by (simp only: deterministicState_def Let_def)
  then have "?b seed i = ?b seed' j" by (rule xorshift_inj) simp
  then have "?a seed i XOR drop_bit 15 (?a seed i) = ?a seed' j XOR drop_bit 15 (?a seed' j)"
    by (rule odd_mult_inj[where d = 2534613543]) simp
  then have "?a seed i = ?a seed' j" by (rule xorshift_inj) simp
  then have "?s seed i XOR drop_bit 16 (?s seed i) = ?s seed' j XOR drop_bit 16 (?s seed' j)"
    by (rule odd_mult_inj[where d = 859588901]) simp
  then show ?thesis by (rule xorshift_inj) simp
qed

text \<open>
  The noise of a channel is a unit value that never repeats within a series: it is at least 0 and
  below 1, it depends on the seed only through its low 32 bits, and two samples of one seed have the
  same noise exactly when their indices agree modulo \<open>2^32\<close>.
\<close>

theorem noise_never_repeats:
  "0 \<le> deterministicUnit seed i \<and> deterministicUnit seed i < 1 \<and>
   deterministicUnit (seed mod 2 ^ 32) i = deterministicUnit seed i \<and>
   (deterministicUnit seed i = deterministicUnit seed j \<longleftrightarrow> i mod 2 ^ 32 = j mod 2 ^ 32)"
proof (intro conjI)
  show "0 \<le> deterministicUnit seed i"
    unfolding deterministicUnit_def by (intro divide_nonneg_pos of_nat_0_le_iff) simp
  have "real (unat (deterministicState seed i)) < 2 ^ 32"
    using unsigned_less[of "deterministicState seed i", where 'a = nat]
    by (simp del: of_nat_unat add: of_nat_less_numeral_iff)
  then show "deterministicUnit seed i < 1" by (simp add: deterministicUnit_def)
  have "word_of_int (seed mod 2 ^ 32) = (word_of_int seed :: 32 word)"
    by (simp add: word_of_int_eq_iff take_bit_eq_mod)
  then show "deterministicUnit (seed mod 2 ^ 32) i = deterministicUnit seed i"
    by (simp add: deterministicUnit_def deterministicState_def)
  have words: "word_of_int i = (word_of_int j :: 32 word) \<longleftrightarrow> i mod 2 ^ 32 = j mod 2 ^ 32"
    by (simp add: word_of_int_eq_iff take_bit_eq_mod)
  show "deterministicUnit seed i = deterministicUnit seed j \<longleftrightarrow> i mod 2 ^ 32 = j mod 2 ^ 32"
  proof
    assume "deterministicUnit seed i = deterministicUnit seed j"
    then have "deterministicState seed i = deterministicState seed j"
      by (simp add: deterministicUnit_def word_unat_eq_iff del: of_nat_unat)
    from deterministicState_inj[OF this]
    have "word_of_int i * 0x9e3779b9 = (word_of_int j * 0x9e3779b9 :: 32 word)" by simp
    then have "word_of_int i = (word_of_int j :: 32 word)"
      by (rule odd_mult_inj[where d = 340573321]) simp
    then show "i mod 2 ^ 32 = j mod 2 ^ 32" by (simp only: words)
  next
    assume "i mod 2 ^ 32 = j mod 2 ^ 32"
    then have "word_of_int i = (word_of_int j :: 32 word)" by (simp only: words)
    then show "deterministicUnit seed i = deterministicUnit seed j"
      by (simp add: deterministicUnit_def deterministicState_def)
  qed
qed

section \<open>Readings of a channel\<close>

lemma clamp_bounds: "lo \<le> hi \<Longrightarrow> lo \<le> clampNumber v lo hi \<and> clampNumber v lo hi \<le> hi"
  by (simp add: clampNumber_def)

lemma convex_between:
  fixes lo hi a b w :: real
  assumes "lo \<le> a" "a \<le> hi" "lo \<le> b" "b \<le> hi" "0 \<le> w" "w \<le> 1"
  shows "lo \<le> a + (b - a) * w \<and> a + (b - a) * w \<le> hi"
proof -
  have eq: "a + (b - a) * w = (1 - w) * a + w * b" by (simp add: algebra_simps)
  have "(1 - w) * lo + w * lo \<le> (1 - w) * a + w * b" "(1 - w) * a + w * b \<le> (1 - w) * hi + w * hi"
    using assms by (auto intro!: add_mono mult_left_mono)
  then show ?thesis by (simp add: eq algebra_simps)
qed

text \<open>A series of readings, each smoothed against the one before it.\<close>

fun channelSeries :: "simulation_channel \<Rightarrow> (nat \<Rightarrow> real) \<Rightarrow> nat \<Rightarrow> real" where
  "channelSeries ch phase 0 = channelValue ch (phase 0) 0 None"
| "channelSeries ch phase (Suc n) =
     channelValue ch (phase (Suc n)) (int (Suc n)) (Some (channelSeries ch phase n))"

text \<open>
  The readings of a channel stay in its range, whatever its curve, noise, seed and smoothing: each
  reading of a series that starts fresh and smooths every reading against the one before lies between
  the channel's minimum and maximum.
\<close>

theorem channel_readings_in_range:
  assumes "ch_minimum ch \<le> ch_maximum ch"
  shows "ch_minimum ch \<le> channelSeries ch phase n \<and> channelSeries ch phase n \<le> ch_maximum ch"
proof (induction n)
  case 0
  then show ?case using clamp_bounds[OF assms] by (simp add: channelValue_def Let_def)
next
  case (Suc n)
  have "0 \<le> 1 - clampNumber (ch_smoothing ch) 0 1" "1 - clampNumber (ch_smoothing ch) 0 1 \<le> 1"
    using clamp_bounds[of 0 1 "ch_smoothing ch"] by auto
  then show ?case
    using Suc clamp_bounds[OF assms] by (auto simp: channelValue_def Let_def intro!: convex_between conjunct1[OF convex_between] conjunct2[OF convex_between])
qed

theorem channel_readings_in_range_witness:
  "let ch = \<lparr>ch_minimum = 0, ch_maximum = 10, ch_valueCurve = Some demoCurve, ch_criticalityCurve = None,
      ch_noise = 1 / 2, ch_smoothing = 1 / 4, ch_seed = 9\<rparr> in
   0 \<le> channelSeries ch real 5 \<and> channelSeries ch real 5 \<le> 10"
  using channel_readings_in_range[of "\<lparr>ch_minimum = 0, ch_maximum = 10, ch_valueCurve = Some demoCurve,
      ch_criticalityCurve = None, ch_noise = 1 / 2, ch_smoothing = 1 / 4, ch_seed = 9\<rparr>" real 5]
  by simp

end
