(* ===== verification/Curve_Monotone.thy ===== *)
theory Curve_Monotone
  imports Curve_Correct
begin

text \<open>
  The tangents of \<open>monotoneTangents\<close>: the limiting loop leaves every segment with tangents of its
  secant's sign and at most three times its size, and a cubic segment with such tangents is monotone.
\<close>

section \<open>The limiting loop\<close>

definition agrees :: "real \<Rightarrow> real \<Rightarrow> bool" where
  "agrees m t \<longleftrightarrow> 0 \<le> m * t \<and> (m = 0 \<longrightarrow> t = 0)"

definition limited :: "real \<Rightarrow> real \<Rightarrow> bool" where
  "limited m t \<longleftrightarrow> agrees m t \<and> \<bar>t\<bar> \<le> 3 * \<bar>m\<bar>"

lemma agrees_0 [simp]: "agrees m 0" and limited_0 [simp]: "limited m 0"
  by (simp_all add: limited_def agrees_def)

lemma agrees_shrink:
  assumes "agrees m t" and "0 \<le> c"
  shows "agrees m (c * t)"
proof -
  have "0 \<le> c * (m * t)" using assms by (simp add: agrees_def)
  then have "0 \<le> m * (c * t)" by (simp only: mult.left_commute)
  then show ?thesis using assms by (simp add: agrees_def)
qed

lemma limited_shrink:
  assumes "limited m t" and "0 \<le> c" and "c \<le> 1"
  shows "limited m (c * t)"
proof -
  have "\<bar>c * t\<bar> \<le> \<bar>t\<bar>" using assms(2,3) by (simp add: abs_mult mult_left_le_one_le)
  then show ?thesis using assms agrees_shrink[of m t c] by (auto simp: limited_def)
qed

text \<open>One turn of the loop scales both tangents of its segment by one factor.\<close>

lemma limitTangents_scales:
  assumes "agrees (secants ! i) (ts ! i)" and "agrees (secants ! i) (ts ! (i + 1))" and "i + 1 < length ts"
  obtains c where "0 \<le> c" and "c \<le> 1"
    and "limitTangents secants i ts = ts[i := c * ts ! i, i + 1 := c * ts ! (i + 1)]"
    and "limited (secants ! i) (c * ts ! i)" and "limited (secants ! i) (c * ts ! (i + 1))"
proof (cases "secants ! i = 0")
  case True
  then show ?thesis using that[of 0] by (simp add: limitTangents_def)
next
  case False
  define m where "m = secants ! i"
  define a b r where "a = ts ! i / m" and "b = ts ! (i + 1) / m" and "r = a * a + b * b"
  have m: "m \<noteq> 0" "ts ! i = a * m" "ts ! (i + 1) = b * m" using False by (simp_all add: m_def a_def b_def)
  have le: "\<bar>a\<bar> \<le> sqrt r" "\<bar>b\<bar> \<le> sqrt r"
    by (simp_all add: r_def flip: power2_eq_square)
  have inside: "limited m (c * (a * m))" "limited m (c * (b * m))" if "0 \<le> c" "c * sqrt r \<le> 3" for c
  proof -
    have "c * \<bar>a\<bar> \<le> 3" "c * \<bar>b\<bar> \<le> 3" using that le by (meson mult_left_mono order_trans)+
    then have "c * \<bar>a\<bar> * \<bar>m\<bar> \<le> 3 * \<bar>m\<bar>" "c * \<bar>b\<bar> * \<bar>m\<bar> \<le> 3 * \<bar>m\<bar>" by (simp_all add: mult_right_mono)
    then have "\<bar>c * (a * m)\<bar> \<le> 3 * \<bar>m\<bar>" "\<bar>c * (b * m)\<bar> \<le> 3 * \<bar>m\<bar>"
      using that(1) by (simp_all add: abs_mult mult.assoc)
    then show "limited m (c * (a * m))" "limited m (c * (b * m))"
      using agrees_shrink[OF assms(1) that(1)] agrees_shrink[OF assms(2) that(1)] m(2,3)
      by (simp_all add: limited_def flip: m_def)
  qed
  show ?thesis
  proof (cases "r > 9")
    case True
    then have r: "3 < sqrt r" by (simp add: real_less_rsqrt)
    let ?c = "3 / sqrt r"
    have c: "0 \<le> ?c" "?c \<le> 1" "?c * sqrt r \<le> 3"
      using r by (simp_all add: divide_le_eq_1 del: real_sqrt_gt_0_iff real_sqrt_ge_0_iff zero_le_divide_iff)
    have "limitTangents secants i ts = ts[i := ?c * a * m, i + 1 := ?c * b * m]"
      using True m(1) by (simp add: limitTangents_def Let_def a_def b_def r_def m_def)
    then show ?thesis using that[of ?c] c inside[OF c(1,3)] m by (simp add: mult.assoc m_def)
  next
    case small: False
    then have "sqrt r \<le> 3" by (simp add: real_le_lsqrt)
    then have "limited m (1 * (a * m))" "limited m (1 * (b * m))" using inside[of 1] by auto
    moreover have "limitTangents secants i ts = ts"
      using small m(1) by (simp add: limitTangents_def Let_def a_def b_def r_def m_def)
    moreover have "ts[i := 1 * ts ! i, i + 1 := 1 * ts ! (i + 1)] = ts" by simp
    ultimately show ?thesis using that[of 1] m(2,3) by (simp only: m_def mult_1)
  qed
qed

definition tangents_ok :: "real list \<Rightarrow> nat \<Rightarrow> real list \<Rightarrow> bool" where
  "tangents_ok secants k ts \<longleftrightarrow> length ts = length secants + 1 \<and>
     (\<forall>j < length secants. agrees (secants ! j) (ts ! j) \<and> agrees (secants ! j) (ts ! (j + 1))) \<and>
     (\<forall>j < k. limited (secants ! j) (ts ! j) \<and> limited (secants ! j) (ts ! (j + 1)))"

lemma limitTangents_keeps:
  assumes "tangents_ok secants k ts" and "k < length secants"
  shows "tangents_ok secants (Suc k) (limitTangents secants k ts)"
proof -
  have len: "length ts = length secants + 1"
    and ag: "\<And>j. j < length secants \<Longrightarrow> agrees (secants ! j) (ts ! j) \<and> agrees (secants ! j) (ts ! (j + 1))"
    and li: "\<And>j. j < k \<Longrightarrow> limited (secants ! j) (ts ! j) \<and> limited (secants ! j) (ts ! (j + 1))"
    using assms(1) by (auto simp: tangents_ok_def)
  obtain c where c: "0 \<le> c" "c \<le> 1"
    and eq: "limitTangents secants k ts = ts[k := c * ts ! k, k + 1 := c * ts ! (k + 1)]"
    and at: "limited (secants ! k) (c * ts ! k)" "limited (secants ! k) (c * ts ! (k + 1))"
    by (rule limitTangents_scales[of secants k ts]) (use ag[OF assms(2)] assms(2) len in auto)
  let ?u = "limitTangents secants k ts"
  have u: "?u ! j = (if j = k \<or> j = k + 1 then c * ts ! j else ts ! j)" if "j \<le> length secants" for j
    using that len assms(2) by (auto simp: eq nth_list_update)
  have "agrees (secants ! j) (?u ! j) \<and> agrees (secants ! j) (?u ! (j + 1))" if "j < length secants" for j
    using ag[OF that] that c(1) by (auto simp: u agrees_shrink)
  moreover have "limited (secants ! j) (?u ! j) \<and> limited (secants ! j) (?u ! (j + 1))" if "j < Suc k" for j
  proof (cases "j = k")
    case True
    then show ?thesis using at assms(2) by (simp add: u)
  next
    case False
    then show ?thesis using li[of j] that assms(2) c by (auto simp: u limited_shrink)
  qed
  ultimately show ?thesis using len by (simp add: tangents_ok_def eq)
qed

lemma limit_loop:
  assumes "tangents_ok secants 0 ts" and "k \<le> length secants"
  shows "tangents_ok secants k (fold (limitTangents secants) [0 ..< k] ts)"
  using assms(2) by (induction k) (auto simp: assms(1) limitTangents_keeps)

lemma start_ok: "secants \<noteq> [] \<Longrightarrow> tangents_ok secants 0 (map (startTangent secants) [0 ..< length secants + 1])"
proof -
  assume ne: "secants \<noteq> []"
  have same: "0 \<le> x * ((x + y) / 2) \<and> 0 \<le> y * ((x + y) / 2)" if "sgn x = sgn y" for x y :: real
    using that by (auto simp: sgn_real_def zero_le_mult_iff split: if_splits)
  have "agrees (secants ! j) (startTangent secants j)" if "j < length secants" for j
    using that same[of "secants ! (j - 1)" "secants ! j"] by (auto simp: startTangent_def agrees_def Let_def)
  moreover have "agrees (secants ! j) (startTangent secants (j + 1))" if "j < length secants" for j
    using that same[of "secants ! j" "secants ! (j + 1)"] by (auto simp: startTangent_def agrees_def Let_def)
  ultimately show ?thesis by (simp add: tangents_ok_def nth_append del: upt_Suc)
qed

section \<open>Monotone segments\<close>

text \<open>The slope of a cubic segment, as a combination of squares.\<close>

lemma slope_nonneg:
  fixes a b s :: real
  assumes "0 \<le> a" "a \<le> 3" "0 \<le> b" "b \<le> 3" "0 \<le> s" "s \<le> 1"
  shows "0 \<le> 6 * s * (1 - s) + a * (1 - s) * (1 - 3 * s) + b * s * (3 * s - 2)"
proof -
  have "9 * (6 * s * (1 - s) + a * (1 - s) * (1 - 3 * s) + b * s * (3 * s - 2)) =
    (3 - a) * (3 - b) * (6 * s * (1 - s)) + a * (3 - b) * (3 * (1 - s) * (1 - s)) +
    (3 - a) * b * (3 * s * s) + a * b * (3 * ((1 - 2 * s) * (1 - 2 * s)))"
    by (simp add: algebra_simps)
  moreover have "0 \<le> a * b * (3 * z)" if "0 \<le> z" for z using that assms by simp
  from this[OF zero_le_square] have "0 \<le> a * b * (3 * ((1 - 2 * s) * (1 - 2 * s)))" .
  moreover have "0 \<le> (3 - a) * (3 - b) * (6 * s * (1 - s))" "0 \<le> a * (3 - b) * (3 * (1 - s) * (1 - s))"
    "0 \<le> (3 - a) * b * (3 * s * s)"
    using assms by simp_all
  ultimately have "0 \<le> 9 * (6 * s * (1 - s) + a * (1 - s) * (1 - 3 * s) + b * s * (3 * s - 2))"
    by (simp only: add_nonneg_nonneg)
  then show ?thesis by (simp only: zero_le_mult_iff) simp
qed

definition blend :: "real \<Rightarrow> real \<Rightarrow> real \<Rightarrow> real" where
  "blend a b s = 3 * s ^ 2 - 2 * s ^ 3 + a * (s ^ 3 - 2 * s ^ 2 + s) + b * (s ^ 3 - s ^ 2)"

lemma blend_mono:
  assumes "0 \<le> a" "a \<le> 3" "0 \<le> b" "b \<le> 3" "0 \<le> s" "s \<le> t" "t \<le> 1"
  shows "blend a b s \<le> blend a b t"
proof (rule DERIV_nonneg_imp_nondecreasing[OF assms(6)])
  fix x assume x: "s \<le> x" "x \<le> t"
  have "(blend a b has_real_derivative (6 * x * (1 - x) + a * (1 - x) * (1 - 3 * x) + b * x * (3 * x - 2))) (at x)"
    unfolding blend_def by (auto intro!: derivative_eq_intros simp: algebra_simps power2_eq_square)
  moreover have "0 \<le> 6 * x * (1 - x) + a * (1 - x) * (1 - 3 * x) + b * x * (3 * x - 2)"
    using x assms by (intro slope_nonneg) auto
  ultimately show "\<exists>y. (blend a b has_real_derivative y) (at x) \<and> y \<ge> 0" by blast
qed


lemma limited_factor:
  assumes "limited m t"
  obtains a where "0 \<le> a" and "a \<le> 3" and "t = a * m"
proof (cases "m = 0")
  case True
  then show ?thesis using assms that[of 0] by (simp add: limited_def agrees_def)
next
  case False
  have "0 \<le> t / m" using assms by (auto simp: limited_def agrees_def zero_le_divide_iff zero_le_mult_iff)
  moreover have "\<bar>t / m\<bar> \<le> 3" using assms False by (simp add: limited_def pos_divide_le_eq)
  then have "t / m \<le> 3" by linarith
  ultimately show ?thesis using False that[of "t / m"] by simp
qed

lemma hermite_blend:
  assumes "cp_outTangent p = a * m" and "cp_inTangent q = b * m" and "cp_value q - cp_value p = m * h"
  shows "hermite p q s h = cp_value p + (cp_value q - cp_value p) * blend a b s"
proof -
  have q: "cp_value q = cp_value p + m * h" using assms(3) by simp
  show ?thesis
    by (simp add: hermite_def Let_def blend_def assms(1,2) q algebra_simps power2_eq_square power3_eq_cube)
qed

lemma blend_ends [simp]: "blend a b 0 = 0" "blend a b 1 = 1"
  by (simp_all add: blend_def)

section \<open>The points of the result\<close>

lemma monotone_points:
  "map cp_time (monotoneTangents ps) = map cp_time (normalizeCurvePoints ps)"
  "map cp_value (monotoneTangents ps) = map cp_value (normalizeCurvePoints ps)"
  by (auto simp: monotoneTangents_def Let_def intro: nth_equalityI)

lemma monotone_length: "length (monotoneTangents ps) = length (normalizeCurvePoints ps)"
  by (simp add: monotoneTangents_def Let_def)

lemma monotone_ascending: "ascending_points (monotoneTangents ps)"
proof -
  have "sorted_wrt (<) (map cp_time (monotoneTangents ps))"
    using normalize_ascending[of ps] by (simp add: monotone_points ascending_points_def sorted_wrt_map)
  then show ?thesis by (simp add: ascending_points_def sorted_wrt_map)
qed

lemma monotone_limited:
  assumes "qs = monotoneTangents ps" and "i + 1 < length qs"
    and "m = (cp_value (qs ! (i + 1)) - cp_value (qs ! i)) / (cp_time (qs ! (i + 1)) - cp_time (qs ! i))"
  shows "limited m (cp_outTangent (qs ! i))" and "limited m (cp_inTangent (qs ! (i + 1)))"
proof -
  let ?n = "normalizeCurvePoints ps"
  let ?s = "secantsOf ?n"
  let ?t = "fold (limitTangents ?s) [0 ..< length ?s] (map (startTangent ?s) [0 ..< length ?n])"
  have len: "length qs = length ?n" using assms(1) by (simp add: monotone_length)
  have n: "2 \<le> length ?n" and s: "length ?s + 1 = length ?n" "?s \<noteq> []"
    using assms(2) len by (auto simp: secantsOf_def)
  have ok: "tangents_ok ?s (length ?s) ?t" using limit_loop[OF start_ok[OF s(2)], of "length ?s"] s(1) by (simp del: upt_Suc)
  have qs: "qs ! j = (?n ! j)\<lparr>cp_inTangent := ?t ! j, cp_outTangent := ?t ! j\<rparr>" if "j < length ?n" for j
    using that n assms(1) by (simp add: monotoneTangents_def Let_def)
  have "[0 ..< length ?n - 1] ! i = i" using assms(2) len by (subst nth_upt) auto
  then have "m = ?s ! i" using assms(2,3) len by (simp add: qs secantsOf_def)
  then show "limited m (cp_outTangent (qs ! i))" "limited m (cp_inTangent (qs ! (i + 1)))"
    using ok assms(2) len s(1) qs[of i] qs[of "i + 1"] by (simp_all add: tangents_ok_def)
qed

lemma monotone_segment:
  assumes "qs = monotoneTangents ps" and "i + 1 < length qs"
  obtains a b where "0 \<le> a" and "a \<le> 3" and "0 \<le> b" and "b \<le> 3"
    and "\<And>x. cp_time (qs ! i) \<le> x \<Longrightarrow> x \<le> cp_time (qs ! (i + 1)) \<Longrightarrow>
      evaluateNormalizedCurve qs Hermite False x = Some (cp_value (qs ! i) +
        (cp_value (qs ! (i + 1)) - cp_value (qs ! i)) *
          blend a b ((x - cp_time (qs ! i)) / (cp_time (qs ! (i + 1)) - cp_time (qs ! i))))"
proof -
  let ?p = "qs ! i" and ?q = "qs ! (i + 1)"
  define h where "h = cp_time ?q - cp_time ?p"
  define m where "m = (cp_value ?q - cp_value ?p) / h"
  have asc: "ascending_points qs" using assms(1) monotone_ascending by simp
  have h: "0 < h" using ascending_nth[OF asc _ assms(2), of i] by (simp add: h_def)
  note lim = monotone_limited[OF assms, of m, unfolded m_def h_def, OF refl]
  obtain a where a: "0 \<le> a" "a \<le> 3" "cp_outTangent ?p = a * m"
    using limited_factor[OF lim(1)] by (auto simp: m_def h_def)
  obtain b where b: "0 \<le> b" "b \<le> 3" "cp_inTangent ?q = b * m"
    using limited_factor[OF lim(2)] by (auto simp: m_def h_def)
  have vals: "cp_value ?q - cp_value ?p = m * h" using h by (simp add: m_def)
  have "evaluateNormalizedCurve qs Hermite False x =
      Some (cp_value ?p + (cp_value ?q - cp_value ?p) * blend a b ((x - cp_time ?p) / h))"
    if "cp_time ?p \<le> x" "x \<le> cp_time ?q" for x
  proof (cases "x = cp_time ?q")
    case True
    then have "(x - cp_time ?p) / h = 1" using h by (simp add: h_def)
    then show ?thesis using True evaluate_point[OF asc assms(2)] by simp
  next
    case False
    then show ?thesis
      using evaluate_segment[OF asc assms(2) that(1)] that(2) hermite_blend[OF a(3) b(3) vals]
      by (simp add: h_def)
  qed
  then show ?thesis using that[OF a(1,2) b(1,2)] by (simp add: h_def)
qed

text \<open>
  C35: Monotone tangents never overshoot. The points of \<open>monotoneTangents\<close> keep the normalized points'
  times and values, and the Hermite curve through them is monotone between any two neighbouring
  points: where the values rise, later readings are no lower than earlier ones and all lie between
  the two values; where they fall, the same downwards. Between equal values it is flat.
\<close>

theorem monotone_tangents_never_overshoot:
  assumes "qs = monotoneTangents ps" and "c = \<lparr>cv_points = qs, cv_interpolation = Hermite, cv_loop = False\<rparr>"
    and "i + 1 < length qs" and "cp_time (qs ! i) \<le> x" and "x \<le> y" and "y \<le> cp_time (qs ! (i + 1))"
  shows "map cp_time qs = map cp_time (normalizeCurvePoints ps) \<and>
    map cp_value qs = map cp_value (normalizeCurvePoints ps) \<and>
    (\<exists>u v. evaluateCurve (Some c) x = Some u \<and> evaluateCurve (Some c) y = Some v \<and>
      (if cp_value (qs ! i) \<le> cp_value (qs ! (i + 1))
       then cp_value (qs ! i) \<le> u \<and> u \<le> v \<and> v \<le> cp_value (qs ! (i + 1))
       else cp_value (qs ! i) \<ge> u \<and> u \<ge> v \<and> v \<ge> cp_value (qs ! (i + 1))))"
proof -
  let ?p = "cp_value (qs ! i)" and ?d = "cp_value (qs ! (i + 1)) - cp_value (qs ! i)"
  let ?s = "\<lambda>x. (x - cp_time (qs ! i)) / (cp_time (qs ! (i + 1)) - cp_time (qs ! i))"
  have asc: "ascending_points qs" using assms(1) monotone_ascending by simp
  have h: "cp_time (qs ! i) < cp_time (qs ! (i + 1))" using ascending_nth[OF asc _ assms(3), of i] by simp
  obtain a b where ab: "0 \<le> a" "a \<le> 3" "0 \<le> b" "b \<le> 3"
    and ev: "\<And>z. cp_time (qs ! i) \<le> z \<Longrightarrow> z \<le> cp_time (qs ! (i + 1)) \<Longrightarrow>
      evaluateNormalizedCurve qs Hermite False z = Some (?p + ?d * blend a b (?s z))"
    by (rule monotone_segment[OF assms(1,3)]) (rule that)
  have s: "0 \<le> ?s x" "?s x \<le> ?s y" "?s y \<le> 1"
    using h assms(4-6) by (auto simp: divide_le_eq_1 intro: divide_right_mono)
  let ?u = "blend a b (?s x)" and ?v = "blend a b (?s y)"
  have "0 \<le> ?u" using blend_mono[OF ab, of 0 "?s x"] s by simp
  moreover have "?u \<le> ?v" using blend_mono[OF ab s] .
  moreover have "?v \<le> 1" using blend_mono[OF ab, of "?s y" 1] s by simp
  ultimately have ord: "if 0 \<le> ?d then 0 \<le> ?d * ?u \<and> ?d * ?u \<le> ?d * ?v \<and> ?d * ?v \<le> ?d
      else 0 \<ge> ?d * ?u \<and> ?d * ?u \<ge> ?d * ?v \<and> ?d * ?v \<ge> ?d"
    by (auto intro: mult_left_mono mult_left_mono_neg mult_nonpos_nonneg mult_left_le
        simp: mult_le_cancel_left1 not_le)
  have shift: "if p \<le> q then p \<le> p + U \<and> p + U \<le> p + V \<and> p + V \<le> q else p \<ge> p + U \<and> p + U \<ge> p + V \<and> p + V \<ge> q"
    if "if 0 \<le> q - p then 0 \<le> U \<and> U \<le> V \<and> V \<le> q - p else 0 \<ge> U \<and> U \<ge> V \<and> V \<ge> q - p" for p q U V :: real
    using that by (auto split: if_splits)
  have "evaluateCurve (Some c) z = evaluateNormalizedCurve qs Hermite False z" for z
    using assms(2) normalize_id[OF asc] by (simp add: evaluateCurve_def)
  then have "evaluateCurve (Some c) x = Some (?p + ?d * ?u)" "evaluateCurve (Some c) y = Some (?p + ?d * ?v)"
    using ev[of x] ev[of y] assms(4-6) by simp_all
  then show ?thesis using shift[OF ord] monotone_points[of ps] unfolding assms(1) by blast
qed

theorem monotone_tangents_never_overshoot_witness:
  "\<exists>u. evaluateCurve (Some \<lparr>cv_points = monotoneTangents [demoPoint 0 1, demoPoint 2 7],
     cv_interpolation = Hermite, cv_loop = False\<rparr>) 1 = Some u \<and> 1 \<le> u \<and> u \<le> 7"
proof -
  let ?qs = "monotoneTangents [demoPoint 0 1, demoPoint 2 7]"
  have n: "normalizeCurvePoints [demoPoint 0 1, demoPoint 2 7] = [demoPoint 0 1, demoPoint 2 7]"
    by (rule normalize_id[OF demo_points])
  have len: "length ?qs = 2" by (simp add: monotone_length n)
  have "map cp_time ?qs ! 0 = 0" "map cp_time ?qs ! 1 = 2" "map cp_value ?qs ! 0 = 1" "map cp_value ?qs ! 1 = 7"
    by (simp_all only: monotone_points n) (simp_all add: demoPoint_def)
  then have "cp_time (?qs ! 0) = 0" "cp_time (?qs ! 1) = 2" "cp_value (?qs ! 0) = 1" "cp_value (?qs ! 1) = 7"
    using len by simp_all
  then show ?thesis
    using monotone_tangents_never_overshoot[OF refl refl, of 0 "[demoPoint 0 1, demoPoint 2 7]" 1 1] len by auto
qed

end
