(* ===== verification/Virtual_Path.thy ===== *)
theory Virtual_Path
  imports HQ_Prelude
begin

text \<open>
  Virtual paths: \<open>packages/domain/src/virtualPath.ts\<close>. A string is the list of its UTF-16 code units.
  \<open>String.prototype.normalize('NFKC')\<close> rests on the Unicode tables and is an argument; \<open>decodeURIComponent\<close>
  is modelled.
\<close>

section \<open>Strings\<close>

type_synonym js_string = "nat list"

definition units :: "string \<Rightarrow> js_string" where
  "units s = map of_char s"

definition hexDigit :: "nat \<Rightarrow> nat option" where
  "hexDigit n = (if 48 \<le> n \<and> n \<le> 57 then Some (n - 48) else if 65 \<le> n \<and> n \<le> 70 then Some (n - 55)
     else if 97 \<le> n \<and> n \<le> 102 then Some (n - 87) else None)"

text \<open>One escape \<open>%XX\<close> at the front of a string, and the rest.\<close>

fun octet :: "js_string \<Rightarrow> (nat \<times> js_string) option" where
  "octet (c # a # b # s) =
     (if c = 37 then (case (hexDigit a, hexDigit b) of (Some x, Some y) \<Rightarrow> Some (16 * x + y, s) | _ \<Rightarrow> None) else None)"
| "octet _ = None"

text \<open>\<open>n\<close> continuation octets of a UTF-8 sequence, appended to the bits read so far.\<close>

fun continuation :: "nat \<Rightarrow> nat \<Rightarrow> js_string \<Rightarrow> (nat \<times> js_string) option" where
  "continuation 0 v s = Some (v, s)"
| "continuation (Suc n) v s =
     (case octet s of
        Some (b, s') \<Rightarrow> if 128 \<le> b \<and> b < 192 then continuation n (64 * v + (b - 128)) s' else None
      | None \<Rightarrow> None)"

definition utf16 :: "nat \<Rightarrow> js_string" where
  "utf16 cp = (if cp < 65536 then [cp] else [55296 + (cp - 65536) div 1024, 56320 + (cp - 65536) mod 1024])"

text \<open>The escapes of one code point: no overlong form, no surrogate, nothing above \<open>0x10FFFF\<close>.\<close>

definition codePoint :: "js_string \<Rightarrow> (nat \<times> js_string) option" where
  "codePoint s =
     (case octet s of
        None \<Rightarrow> None
      | Some (b, s') \<Rightarrow>
          if b < 128 then Some (b, s')
          else if 192 \<le> b \<and> b < 224 then
            (case continuation 1 (b - 192) s' of
               Some (v, r) \<Rightarrow> if 128 \<le> v then Some (v, r) else None | None \<Rightarrow> None)
          else if 224 \<le> b \<and> b < 240 then
            (case continuation 2 (b - 224) s' of
               Some (v, r) \<Rightarrow> if 2048 \<le> v \<and> \<not> (55296 \<le> v \<and> v < 57344) then Some (v, r) else None | None \<Rightarrow> None)
          else if 240 \<le> b \<and> b < 248 then
            (case continuation 3 (b - 240) s' of
               Some (v, r) \<Rightarrow> if 65536 \<le> v \<and> v \<le> 1114111 then Some (v, r) else None | None \<Rightarrow> None)
          else None)"

lemma octet_shorter: "octet s = Some (b, r) \<Longrightarrow> length r < length s"
  by (cases s rule: octet.cases) (auto split: if_splits option.splits)

lemma continuation_shorter: "continuation n v s = Some (w, r) \<Longrightarrow> length r \<le> length s"
proof (induction n v s rule: continuation.induct)
  case (2 n v s)
  then obtain b s' where o: "octet s = Some (b, s')" "128 \<le> b \<and> b < 192" by (auto split: option.splits if_splits)
  then have "length r \<le> length s'" using "2.prems" by (intro "2.IH"[of "(b, s')" b s']) auto
  then show ?case using octet_shorter[OF o(1)] by simp
qed simp

lemma codePoint_shorter: "codePoint s = Some (v, r) \<Longrightarrow> length r < length s"
  by (auto simp: codePoint_def split: option.splits if_splits prod.splits dest!: octet_shorter continuation_shorter)

function decodeURIComponent :: "js_string \<Rightarrow> js_string option" where
  "decodeURIComponent s =
     (case s of
        [] \<Rightarrow> Some []
      | c # s' \<Rightarrow>
          if c \<noteq> 37 then map_option (\<lambda>t. c # t) (decodeURIComponent s')
          else (case codePoint s of
                  None \<Rightarrow> None
                | Some (cp, r) \<Rightarrow> map_option (\<lambda>t. utf16 cp @ t) (decodeURIComponent r)))"
  by pat_completeness auto
termination by (relation "measure length") (auto dest: codePoint_shorter)

declare decodeURIComponent.simps [simp del]

lemma decode_simps [simp]:
  "decodeURIComponent [] = Some []"
  "c \<noteq> 37 \<Longrightarrow> decodeURIComponent (c # s) = map_option (\<lambda>t. c # t) (decodeURIComponent s)"
  "decodeURIComponent (37 # s) = (case codePoint (37 # s) of
     None \<Rightarrow> None | Some (cp, r) \<Rightarrow> map_option (\<lambda>t. utf16 cp @ t) (decodeURIComponent r))"
  by (simp_all add: decodeURIComponent.simps)

definition replaceAll :: "nat \<Rightarrow> nat \<Rightarrow> js_string \<Rightarrow> js_string" where
  "replaceAll a b s = map (\<lambda>c. if c = a then b else c) s"

fun split_at :: "nat \<Rightarrow> js_string \<Rightarrow> js_string list" where
  "split_at sep [] = [[]]"
| "split_at sep (c # s) = (if c = sep then [] # split_at sep s
     else (case split_at sep s of [] \<Rightarrow> [[c]] | w # ws \<Rightarrow> (c # w) # ws))"

fun joined :: "nat \<Rightarrow> js_string list \<Rightarrow> js_string" where
  "joined sep [] = []"
| "joined sep [w] = w"
| "joined sep (w # ws) = w @ sep # joined sep ws"

definition lastIndexOf :: "nat \<Rightarrow> js_string \<Rightarrow> int" where
  "lastIndexOf c s = (if c \<in> set s then int (length s) - 1 - int (length (takeWhile (\<lambda>x. x \<noteq> c) (rev s))) else - 1)"

section \<open>Virtual paths\<close>

datatype app_error = AppError string string

definition invalidPath :: "string \<Rightarrow> app_error" where
  "invalidPath message = AppError message ''INVALID_VIRTUAL_PATH''"

definition maximumVirtualPathLength :: nat where "maximumVirtualPathLength = 2048"

definition slash :: nat where "slash = 47"
definition backslash :: nat where "backslash = 92"

definition decodePath :: "js_string \<Rightarrow> app_error + js_string" where
  "decodePath value =
     (case decodeURIComponent value of
        None \<Rightarrow> Inl (invalidPath ''Virtual path encoding is invalid'') | Some d \<Rightarrow> Inr d)"

definition createVirtualPath :: "(js_string \<Rightarrow> js_string) \<Rightarrow> js_string \<Rightarrow> app_error + js_string" where
  "createVirtualPath nfkc value =
     (case decodePath value of
        Inl e \<Rightarrow> Inl e
      | Inr d \<Rightarrow>
          let decoded = replaceAll backslash slash (nfkc d) in
          if 0 \<in> set decoded \<or> length decoded > maximumVirtualPathLength
          then Inl (invalidPath ''Virtual path contains invalid characters'')
          else
            let segments = filter (\<lambda>w. w \<noteq> []) (split_at slash decoded) in
            if list_ex (\<lambda>w. w = units ''..'') segments
            then Inl (invalidPath ''Parent traversal is not allowed'')
            else Inr (slash # joined slash (filter (\<lambda>w. w \<noteq> units ''.'') segments)))"

definition joinVirtualPath :: "(js_string \<Rightarrow> js_string) \<Rightarrow> js_string \<Rightarrow> js_string \<Rightarrow> app_error + js_string" where
  "joinVirtualPath nfkc parent child =
     (if slash \<in> set child \<or> backslash \<in> set child
      then Inl (invalidPath ''A virtual path child must be a single segment'')
      else createVirtualPath nfkc (parent @ slash # child))"

definition getVirtualParent :: "(js_string \<Rightarrow> js_string) \<Rightarrow> js_string \<Rightarrow> app_error + js_string option" where
  "getVirtualParent nfkc path =
     (if path = [slash] then Inr None
      else
        let separatorIndex = lastIndexOf slash path in
        case createVirtualPath nfkc (if separatorIndex \<le> 0 then [slash] else take (nat separatorIndex) path) of
          Inl e \<Rightarrow> Inl e | Inr p \<Rightarrow> Inr (Some p))"

definition getVirtualPathSegments :: "js_string \<Rightarrow> js_string list" where
  "getVirtualPathSegments path = filter (\<lambda>w. w \<noteq> []) (split_at slash path)"

section \<open>Segments\<close>

lemma split_at_pieces: "w \<in> set (split_at sep s) \<Longrightarrow> sep \<notin> set w \<and> set w \<subseteq> set s"
proof (induction s arbitrary: w)
  case (Cons c s)
  have "split_at sep s \<noteq> []" by (cases s) (auto split: list.splits)
  then obtain v vs where vs: "split_at sep s = v # vs" by (cases "split_at sep s") auto
  then show ?case using Cons.prems Cons.IH[of v] Cons.IH[of w] by (auto split: if_splits)
qed simp

lemma split_at_word: "sep \<notin> set w \<Longrightarrow> split_at sep w = [w]"
  by (induction w) auto

lemma split_at_append: "sep \<notin> set w \<Longrightarrow> split_at sep (w @ sep # s) = w # split_at sep s"
  by (induction w) auto

lemma split_joined: "ws \<noteq> [] \<Longrightarrow> \<forall>w \<in> set ws. sep \<notin> set w \<Longrightarrow> split_at sep (joined sep ws) = ws"
  by (induction sep ws rule: joined.induct) (auto simp: split_at_word split_at_append)

lemma set_joined: "set (joined sep ws) \<subseteq> insert sep (\<Union> (set ` set ws))"
  by (induction sep ws rule: joined.induct) auto

definition segment_ok :: "js_string \<Rightarrow> bool" where
  "segment_ok w \<longleftrightarrow> w \<noteq> [] \<and> slash \<notin> set w \<and> backslash \<notin> set w \<and> 0 \<notin> set w \<and> w \<noteq> units ''.'' \<and> w \<noteq> units ''..''"

text \<open>The path of some segments, as \<open>createVirtualPath\<close> writes it.\<close>

definition pathOf :: "js_string list \<Rightarrow> js_string" where
  "pathOf ws = slash # joined slash ws"

lemma segments_pathOf:
  assumes "list_all segment_ok ws"
  shows "getVirtualPathSegments (pathOf ws) = ws"
proof (cases "ws = []")
  case False
  have "filter (\<lambda>w. w \<noteq> []) ws = ws" using assms by (simp add: filter_id_conv list_all_iff segment_ok_def)
  then show ?thesis
    using False assms split_joined[of ws slash]
    by (simp add: getVirtualPathSegments_def pathOf_def list_all_iff segment_ok_def)
qed (simp add: getVirtualPathSegments_def pathOf_def)

lemma decode_plain: "37 \<notin> set s \<Longrightarrow> decodeURIComponent s = Some s"
  by (induction s) auto

text \<open>Text that decoding and normalization leave alone, and that is not too long.\<close>

definition plain :: "(js_string \<Rightarrow> js_string) \<Rightarrow> js_string \<Rightarrow> bool" where
  "plain nfkc s \<longleftrightarrow> 37 \<notin> set s \<and> nfkc s = s \<and> length s \<le> maximumVirtualPathLength"

lemma create_plain:
  assumes "plain nfkc s" and "0 \<notin> set s" and "backslash \<notin> set s" and "list_all segment_ok (getVirtualPathSegments s)"
  shows "createVirtualPath nfkc s = Inr (pathOf (getVirtualPathSegments s))"
proof -
  have d: "decodePath s = Inr s" "nfkc s = s" using assms(1) by (simp_all add: decodePath_def decode_plain plain_def)
  have r: "replaceAll backslash slash s = s" using assms(3) unfolding replaceAll_def by (intro map_idI) auto
  have "\<not> list_ex (\<lambda>w. w = units ''..'') (getVirtualPathSegments s)"
    "filter (\<lambda>w. w \<noteq> units ''.'') (getVirtualPathSegments s) = getVirtualPathSegments s"
    using assms(4) by (auto simp: list_ex_iff list_all_iff segment_ok_def filter_id_conv)
  then show ?thesis
    using d r assms(1,2) by (simp add: createVirtualPath_def Let_def getVirtualPathSegments_def pathOf_def plain_def)
qed

lemma pathOf_units:
  assumes "list_all segment_ok ws"
  shows "0 \<notin> set (pathOf ws)" and "backslash \<notin> set (pathOf ws)"
  using assms set_joined[of slash ws] by (auto simp: pathOf_def list_all_iff segment_ok_def slash_def backslash_def)

text \<open>
  C39: A virtual path is in normal form. Whatever string it is created from and whatever normalization
  does, a created path is a slash and its segments joined by slashes, where no segment is empty, \<open>.\<close> or
  \<open>..\<close> and none contains a slash, a backslash or a null; the segments read back are those. Creating a
  path again from such a path gives the same path, if it contains no percent sign, is unchanged by
  normalization and is within the maximum length.
\<close>

theorem virtual_path_normal_form:
  assumes "createVirtualPath nfkc value = Inr path"
  shows "list_all segment_ok (getVirtualPathSegments path) \<and> path = pathOf (getVirtualPathSegments path) \<and>
    (plain nfkc path \<longrightarrow> createVirtualPath nfkc path = Inr path)"
proof -
  obtain d where d: "decodePath value = Inr d" using assms by (cases "decodePath value") (auto simp: createVirtualPath_def)
  let ?t = "replaceAll backslash slash (nfkc d)"
  let ?ws = "filter (\<lambda>w. w \<noteq> units ''.'') (filter (\<lambda>w. w \<noteq> []) (split_at slash ?t))"
  have path: "path = pathOf ?ws" and zero: "0 \<notin> set ?t"
    and dots: "\<not> list_ex (\<lambda>w. w = units ''..'') (filter (\<lambda>w. w \<noteq> []) (split_at slash ?t))"
    using assms d by (auto simp: createVirtualPath_def Let_def pathOf_def split: if_splits)
  have "backslash \<notin> set ?t" by (auto simp: replaceAll_def backslash_def slash_def)
  then have "segment_ok w" if "w \<in> set ?ws" for w
    using that zero dots split_at_pieces[of w slash ?t] by (auto simp: segment_ok_def list_ex_iff)
  then have ok: "list_all segment_ok ?ws" by (simp only: list_all_iff) blast
  have segs: "getVirtualPathSegments path = ?ws" using segments_pathOf[OF ok] path by simp
  moreover have "createVirtualPath nfkc path = Inr path" if "plain nfkc path"
    using create_plain[OF that] pathOf_units[OF ok] ok segs path by simp
  ultimately show ?thesis using ok path by simp
qed

lemmas path_eval = createVirtualPath_def decodePath_def codePoint_def hexDigit_def utf16_def replaceAll_def units_def
  slash_def backslash_def maximumVirtualPathLength_def Let_def

theorem virtual_path_normal_form_witness:
  "createVirtualPath (\<lambda>s. s) (units ''a//./b%2fc'') = Inr (units ''/a/b/c'') \<and>
   createVirtualPath (\<lambda>s. s) (units ''/a/b/c'') = Inr (units ''/a/b/c'')"
proof -
  have first: "createVirtualPath (\<lambda>s. s) (units ''a//./b%2fc'') = Inr (units ''/a/b/c'')" by (simp add: path_eval)
  moreover have "plain (\<lambda>s. s) (units ''/a/b/c'')" by (simp add: path_eval plain_def)
  ultimately show ?thesis using virtual_path_normal_form[OF first] by simp
qed

section \<open>Joining and climbing\<close>

lemma joined_snoc: "ws \<noteq> [] \<Longrightarrow> joined sep (ws @ [w]) = joined sep ws @ sep # w"
  by (induction sep ws rule: joined.induct) auto

lemma lastIndexOf_last: "c \<notin> set w \<Longrightarrow> lastIndexOf c (s @ c # w) = int (length s)"
  by (simp add: lastIndexOf_def takeWhile_append)

text \<open>
  Joining and climbing are inverse. For a path in normal form and a child that is one segment, all
  unchanged by decoding and normalization, joining gives the path of the segments with the child
  appended, and its parent is the path again; the root has no parent.
\<close>

theorem join_then_parent:
  assumes "list_all segment_ok ws" and "segment_ok child" and "plain nfkc (pathOf ws)"
    and "plain nfkc (pathOf ws @ slash # child)"
  shows "joinVirtualPath nfkc (pathOf ws) child = Inr (pathOf (ws @ [child])) \<and>
    getVirtualParent nfkc (pathOf (ws @ [child])) = Inr (Some (pathOf ws)) \<and>
    getVirtualParent nfkc (pathOf []) = Inr None"
proof -
  let ?s = "pathOf ws @ slash # child"
  have ok: "list_all segment_ok (ws @ [child])" using assms(1,2) by simp
  have child: "slash \<notin> set child" "backslash \<notin> set child" "0 \<notin> set child" "child \<noteq> []"
    using assms(2) by (auto simp: segment_ok_def)
  have segs: "getVirtualPathSegments ?s = ws @ [child]"
  proof (cases "ws = []")
    case True
    then show ?thesis using child by (simp add: pathOf_def getVirtualPathSegments_def split_at_word)
  next
    case False
    then have "?s = pathOf (ws @ [child])" by (simp add: pathOf_def joined_snoc)
    then show ?thesis using segments_pathOf[OF ok] by simp
  qed
  have "0 \<notin> set ?s" "backslash \<notin> set ?s"
    using pathOf_units[OF assms(1)] child by (simp_all add: slash_def backslash_def)
  then have "joinVirtualPath nfkc (pathOf ws) child = Inr (pathOf (ws @ [child]))"
    using create_plain[OF assms(4)] ok segs child(1,2) by (simp add: joinVirtualPath_def)
  moreover have "getVirtualParent nfkc (pathOf (ws @ [child])) = Inr (Some (pathOf ws))"
  proof -
    have climb: "createVirtualPath nfkc (pathOf ws) = Inr (pathOf ws)"
      using create_plain[OF assms(3)] pathOf_units[OF assms(1)] segments_pathOf[OF assms(1)] assms(1) by simp
    have "pathOf (ws @ [child]) = (if ws = [] then [] else pathOf ws) @ slash # child"
      by (simp add: pathOf_def joined_snoc)
    then have "lastIndexOf slash (pathOf (ws @ [child])) = int (length (if ws = [] then [] else pathOf ws))"
      "take (length (pathOf ws)) (pathOf (ws @ [child])) = pathOf ws \<or> ws = []" "pathOf (ws @ [child]) \<noteq> [slash]"
      using lastIndexOf_last[OF child(1)] child(4) by (auto simp: pathOf_def)
    moreover have "pathOf ws \<noteq> []" "pathOf [] = [slash]" by (simp_all add: pathOf_def)
    ultimately show ?thesis using climb by (cases "ws = []") (simp_all add: getVirtualParent_def Let_def)
  qed
  ultimately show ?thesis by (simp add: getVirtualParent_def pathOf_def)
qed

theorem join_then_parent_witness:
  "joinVirtualPath (\<lambda>s. s) (units ''/a'') (units ''b'') = Inr (units ''/a/b'') \<and>
   getVirtualParent (\<lambda>s. s) (units ''/a/b'') = Inr (Some (units ''/a''))"
proof -
  have eq: "pathOf [units ''a''] = units ''/a''" "pathOf ([units ''a''] @ [units ''b'']) = units ''/a/b''"
    by (simp_all add: pathOf_def slash_def units_def)
  have "list_all segment_ok [units ''a'']" "segment_ok (units ''b'')" "plain (\<lambda>s. s) (pathOf [units ''a''])"
    "plain (\<lambda>s. s) (pathOf [units ''a''] @ slash # units ''b'')"
    by (simp_all add: pathOf_def plain_def segment_ok_def path_eval)
  from join_then_parent[OF this] show ?thesis by (simp only: eq)
qed

text \<open>
  Both functions decode a path that is decoded already. A created path whose segment contains a percent
  sign has a parent that cannot be computed, and a child that is one segment as given may decode to two.
\<close>

theorem decoded_twice:
  "createVirtualPath (\<lambda>s. s) (units ''/100%25/x'') = Inr (units ''/100%/x'') \<and>
   getVirtualParent (\<lambda>s. s) (units ''/100%/x'') = Inl (invalidPath ''Virtual path encoding is invalid'') \<and>
   joinVirtualPath (\<lambda>s. s) (units ''/a'') (units ''b%2fc'') = Inr (units ''/a/b/c'')"
proof (intro conjI)
  show "createVirtualPath (\<lambda>s. s) (units ''/100%25/x'') = Inr (units ''/100%/x'')" by (simp add: path_eval)
  show "getVirtualParent (\<lambda>s. s) (units ''/100%/x'') = Inl (invalidPath ''Virtual path encoding is invalid'')"
    by (simp add: path_eval getVirtualParent_def lastIndexOf_def)
  show "joinVirtualPath (\<lambda>s. s) (units ''/a'') (units ''b%2fc'') = Inr (units ''/a/b/c'')"
    by (simp add: path_eval joinVirtualPath_def)
qed

end
