(* ===== verification/Explorer_Tree.thy ===== *)
theory Explorer_Tree
  imports Virtual_Path
begin

text \<open>
  The explorer: the nodes of \<open>packages/domain/src/explorer.ts\<close> and the functions of
  \<open>packages/domain/src/explorerTree.ts\<close>. The collator \<open>Intl.Collator('ru-RU')\<close> is an argument.
\<close>

section \<open>Nodes\<close>

datatype icon_hint = Folder | Document | Photo | Video | Audio | MapIcon | GraphIcon | CaseIcon

record node_base =
  nb_id :: js_string
  nb_name :: js_string
  nb_path :: js_string
  nb_modifiedAt :: "js_string option"
  nb_displaySize :: "nat option"
  nb_iconHint :: "icon_hint option"
  nb_tags :: "js_string list option"
  nb_pinnedOrder :: "int option"

datatype emulated_content =
    PersonDossier js_string | VehicleDossier js_string | TextBody js_string | ImageAsset js_string
  | VideoAsset js_string | GraphContent js_string | MapPreset js_string | TableContent js_string

datatype mount_status = Online | Offline | PermissionRequired | EmptyMount

datatype explorer_node =
    RealFile node_base js_string js_string nat
  | RealDirectory node_base js_string
  | EmulatedFile node_base js_string emulated_content
  | EmulatedDirectory node_base "explorer_node list" "js_string option"
  | Mount node_base js_string mount_status

fun base :: "explorer_node \<Rightarrow> node_base" where
  "base (RealFile b _ _ _) = b"
| "base (RealDirectory b _) = b"
| "base (EmulatedFile b _ _) = b"
| "base (EmulatedDirectory b _ _) = b"
| "base (Mount b _ _) = b"

abbreviation node_id :: "explorer_node \<Rightarrow> js_string" where "node_id n \<equiv> nb_id (base n)"
abbreviation node_path :: "explorer_node \<Rightarrow> js_string" where "node_path n \<equiv> nb_path (base n)"

fun isRealNode :: "explorer_node \<Rightarrow> bool" where
  "isRealNode (RealFile _ _ _ _) = True"
| "isRealNode (RealDirectory _ _) = True"
| "isRealNode _ = False"

fun getNodeKindOrder :: "explorer_node \<Rightarrow> int" where
  "getNodeKindOrder (Mount _ _ _) = 0"
| "getNodeKindOrder (RealDirectory _ _) = 1"
| "getNodeKindOrder (EmulatedDirectory _ _ _) = 1"
| "getNodeKindOrder (RealFile _ _ _ _) = 2"
| "getNodeKindOrder (EmulatedFile _ _ _) = 2"

fun flattenNodes :: "explorer_node list \<Rightarrow> explorer_node list" where
  "flattenNodes [] = []"
| "flattenNodes (EmulatedDirectory b cs p # ns) = EmulatedDirectory b cs p # flattenNodes cs @ flattenNodes ns"
| "flattenNodes (n # ns) = n # flattenNodes ns"

section \<open>Merging\<close>

record explorer_collision =
  ec_path :: js_string
  ec_visibleNodeId :: js_string
  ec_shadowedNodeId :: js_string

record merge_result =
  me_nodes :: "explorer_node list"
  me_collisions :: "explorer_collision list"

definition chooseCollisionWinner :: "explorer_node \<Rightarrow> explorer_node \<Rightarrow> explorer_node" where
  "chooseCollisionWinner left right =
     (if isRealNode left \<and> \<not> isRealNode right then left
      else if isRealNode right \<and> \<not> isRealNode left then right
      else left)"

definition maxSafeInteger :: int where "maxSafeInteger = 2 ^ 53 - 1"

definition compareNodes :: "(js_string \<Rightarrow> js_string \<Rightarrow> int) \<Rightarrow> explorer_node \<Rightarrow> explorer_node \<Rightarrow> int" where
  "compareNodes collate left right =
     (let pinned = (\<lambda>n. case nb_pinnedOrder (base n) of None \<Rightarrow> maxSafeInteger | Some p \<Rightarrow> p);
          pinnedDifference = pinned left - pinned right in
      if pinnedDifference \<noteq> 0 then pinnedDifference
      else
        let kindDifference = getNodeKindOrder left - getNodeKindOrder right in
        if kindDifference \<noteq> 0 then kindDifference
        else collate (nb_name (base left)) (nb_name (base right)))"

definition sortExplorerNodes :: "(js_string \<Rightarrow> js_string \<Rightarrow> int) \<Rightarrow> explorer_node list \<Rightarrow> explorer_node list" where
  "sortExplorerNodes collate nodes = js_sort (compareNodes collate) nodes"

definition mergeNode ::
  "(js_string, explorer_node) jsmap \<times> explorer_collision list \<Rightarrow> explorer_node \<Rightarrow>
   (js_string, explorer_node) jsmap \<times> explorer_collision list" where
  "mergeNode = (\<lambda>(byPath, collisions) node.
     case js_get byPath (node_path node) of
       None \<Rightarrow> (js_set (node_path node) node byPath, collisions)
     | Some current \<Rightarrow>
         let visible = chooseCollisionWinner current node;
             shadowed = (if node_id visible = node_id current then node else current)
         in (js_set (node_path node) visible byPath,
             collisions @ [\<lparr>ec_path = node_path node, ec_visibleNodeId = node_id visible,
                            ec_shadowedNodeId = node_id shadowed\<rparr>]))"

definition mergeExplorerNodes :: "(js_string \<Rightarrow> js_string \<Rightarrow> int) \<Rightarrow> explorer_node list list \<Rightarrow> merge_result" where
  "mergeExplorerNodes collate groups =
     (let (byPath, collisions) = foldl (\<lambda>st grp. foldl mergeNode st grp) ([], []) groups
      in \<lparr>me_nodes = sortExplorerNodes collate (map snd byPath), me_collisions = collisions\<rparr>)"

section \<open>The index\<close>

record explorer_index =
  ix_byId :: "(js_string, explorer_node) jsmap"
  ix_byPath :: "(js_string, explorer_node) jsmap"
  ix_childrenById :: "(js_string, js_string list) jsmap"

definition addChild ::
  "(js_string \<Rightarrow> js_string) \<Rightarrow> (js_string, explorer_node) jsmap \<Rightarrow> explorer_node \<Rightarrow>
   (js_string, js_string list) jsmap \<Rightarrow> app_error + (js_string, js_string list) jsmap" where
  "addChild nfkc byPath node children =
     (case getVirtualParent nfkc (node_path node) of
        Inl e \<Rightarrow> Inl e
      | Inr None \<Rightarrow> Inr children
      | Inr (Some parentPath) \<Rightarrow>
          (case js_get byPath parentPath of
             None \<Rightarrow> Inr children
           | Some parent \<Rightarrow>
               Inr (js_set (node_id parent)
                 ((case js_get children (node_id parent) of None \<Rightarrow> [] | Some ids \<Rightarrow> ids) @ [node_id node]) children)))"

fun addChildren ::
  "(js_string \<Rightarrow> js_string) \<Rightarrow> (js_string, explorer_node) jsmap \<Rightarrow> explorer_node list \<Rightarrow>
   (js_string, js_string list) jsmap \<Rightarrow> app_error + (js_string, js_string list) jsmap" where
  "addChildren nfkc byPath [] children = Inr children"
| "addChildren nfkc byPath (node # nodes) children =
     (case addChild nfkc byPath node children of
        Inl e \<Rightarrow> Inl e
      | Inr children' \<Rightarrow> addChildren nfkc byPath nodes children')"

definition buildExplorerIndex :: "(js_string \<Rightarrow> js_string) \<Rightarrow> explorer_node list \<Rightarrow> app_error + explorer_index" where
  "buildExplorerIndex nfkc nodes =
     (let flat = flattenNodes nodes;
          byId = foldl (\<lambda>m n. js_set (node_id n) n m) [] flat;
          byPath = foldl (\<lambda>m n. js_set (node_path n) n m) [] flat in
      case addChildren nfkc byPath (map snd byId) [] of
        Inl e \<Rightarrow> Inl e
      | Inr mutableChildren \<Rightarrow>
          Inr \<lparr>ix_byId = byId, ix_byPath = byPath, ix_childrenById = mutableChildren\<rparr>)"

section \<open>One node a path\<close>

text \<open>The first real node of a path, or its first node when none is real.\<close>

definition winner :: "explorer_node list \<Rightarrow> js_string \<Rightarrow> explorer_node option" where
  "winner nodes p = (case List.find (\<lambda>n. node_path n = p \<and> isRealNode n) nodes of
     Some n \<Rightarrow> Some n | None \<Rightarrow> List.find (\<lambda>n. node_path n = p) nodes)"

lemma find_snoc: "List.find P (xs @ [x]) = (case List.find P xs of Some y \<Rightarrow> Some y | None \<Rightarrow> if P x then Some x else None)"
  by (induction xs) auto

lemma merge_fold: "foldl (\<lambda>st grp. foldl mergeNode st grp) st groups = foldl mergeNode st (concat groups)"
  by (induction groups arbitrary: st) auto

lemma winner_None: "winner nodes p = None \<longleftrightarrow> p \<notin> node_path ` set nodes"
  by (auto simp: winner_def find_None_iff split: option.splits dest!: find_SomeD)

lemma winner_real: "winner nodes p = Some n \<Longrightarrow> isRealNode n \<longleftrightarrow> (\<exists>m \<in> set nodes. node_path m = p \<and> isRealNode m)"
  by (auto simp: winner_def find_None_iff split: option.splits dest!: find_SomeD)

lemma winner_path: "winner nodes p = Some n \<Longrightarrow> n \<in> set nodes \<and> node_path n = p"
  by (auto simp: winner_def split: option.splits dest!: find_SomeD)

lemma winner_snoc: "winner (nodes @ [x]) p =
    (if node_path x = p then (case winner nodes p of None \<Rightarrow> Some x | Some c \<Rightarrow> Some (chooseCollisionWinner c x))
     else winner nodes p)"
  by (auto simp: winner_def find_snoc chooseCollisionWinner_def find_None_iff split: option.splits dest!: find_SomeD)

lemma merge_state:
  "foldl mergeNode ([], []) nodes = (m, cs) \<Longrightarrow>
    distinct (map fst m) \<and> (\<forall>p. js_get m p = winner nodes p) \<and> length m + length cs = length nodes"
proof (induction nodes arbitrary: m cs rule: rev_induct)
  case Nil
  then show ?case by (simp add: winner_def)
next
  case (snoc x xs)
  obtain m0 cs0 where st: "foldl mergeNode ([], []) xs = (m0, cs0)" by (cases "foldl mergeNode ([], []) xs")
  note ih = snoc.IH[OF st]
  have len: "length (js_set k v m0) = (if js_get m0 k = None then Suc (length m0) else length m0)" for k v
    by (induction m0) auto
  show ?case
  proof (cases "js_get m0 (node_path x)")
    case None
    then have "m = js_set (node_path x) x m0" "cs = cs0" using snoc.prems st by (simp_all add: mergeNode_def)
    then show ?thesis using ih None len by (auto simp: jsmap_simps winner_snoc)
  next
    case (Some c)
    then have "m = js_set (node_path x) (chooseCollisionWinner c x) m0" "length cs = Suc (length cs0)"
      using snoc.prems st by (auto simp: mergeNode_def Let_def)
    then show ?thesis using ih Some len by (auto simp: jsmap_simps winner_snoc)
  qed
qed

text \<open>
  Merging shows one node a path. The merged nodes have distinct paths, and for every path some
  group offers exactly one node is shown: the first real node of the path in the order of the groups,
  or, when none is real, the first one; nothing else is shown. Each further node of a path is recorded
  as a collision.
\<close>

theorem merge_shows_one_node_a_path:
  "distinct (map node_path (me_nodes (mergeExplorerNodes collate groups))) \<and>
   (n \<in> set (me_nodes (mergeExplorerNodes collate groups)) \<longleftrightarrow> winner (concat groups) (node_path n) = Some n) \<and>
   node_path ` set (me_nodes (mergeExplorerNodes collate groups)) = node_path ` set (concat groups) \<and>
   length (me_nodes (mergeExplorerNodes collate groups)) + length (me_collisions (mergeExplorerNodes collate groups)) =
     length (concat groups)"
proof -
  obtain m cs where st: "foldl mergeNode ([], []) (concat groups) = (m, cs)" by (cases "foldl mergeNode ([], []) (concat groups)")
  note inv = merge_state[OF st]
  have res: "me_nodes (mergeExplorerNodes collate groups) = sortExplorerNodes collate (map snd m)"
    "me_collisions (mergeExplorerNodes collate groups) = cs"
    by (simp_all add: mergeExplorerNodes_def merge_fold st)
  have entry: "(p, x) \<in> set m \<longleftrightarrow> winner (concat groups) p = Some x" for p x
    using inv by (metis map_of_eq_Some_iff)
  then have paths: "map node_path (map snd m) = map fst m" using winner_path by fastforce
  have nodes: "x \<in> set (map snd m) \<longleftrightarrow> winner (concat groups) (node_path x) = Some x" for x
  proof -
    have "x \<in> set (map snd m) \<longleftrightarrow> (\<exists>p. (p, x) \<in> set m)" by force
    then show ?thesis using entry winner_path by blast
  qed
  have "mset (map node_path (sortExplorerNodes collate (map snd m))) = mset (map node_path (map snd m))"
    by (simp only: sortExplorerNodes_def mset_map mset_js_sort)
  then have "distinct (map node_path (sortExplorerNodes collate (map snd m)))"
    using inv paths by (metis mset_eq_imp_distinct_iff)
  moreover have "node_path ` set (map snd m) = node_path ` set (concat groups)"
  proof -
    have eq: "node_path ` set (map snd m) = fst ` set m" using paths by (metis set_map)
    have "p \<in> fst ` set m \<longleftrightarrow> p \<in> node_path ` set (concat groups)" for p
    proof -
      have "p \<in> fst ` set m \<longleftrightarrow> (\<exists>x. (p, x) \<in> set m)" by (simp add: image_iff Bex_def)
      also have "\<dots> \<longleftrightarrow> winner (concat groups) p \<noteq> None" unfolding entry by (rule not_None_eq[symmetric])
      finally show ?thesis unfolding winner_None by (simp only: not_not)
    qed
    then show ?thesis unfolding eq by (rule set_eqI)
  qed
  moreover have "set (sortExplorerNodes collate (map snd m)) = set (map snd m)"
    "length (sortExplorerNodes collate (map snd m)) = length m"
    by (simp_all only: sortExplorerNodes_def set_js_sort length_js_sort length_map)
  moreover have "length m + length cs = length (concat groups)" using inv by blast
  ultimately show ?thesis unfolding res using nodes by metis
qed

section \<open>Parents and children\<close>

text \<open>The parent a node is filed under, if its path has one that some node has.\<close>

definition parentOf :: "(js_string \<Rightarrow> js_string) \<Rightarrow> (js_string, explorer_node) jsmap \<Rightarrow> explorer_node \<Rightarrow> js_string option" where
  "parentOf nfkc byPath n = (case getVirtualParent nfkc (node_path n) of
     Inr (Some pp) \<Rightarrow> map_option node_id (js_get byPath pp) | _ \<Rightarrow> None)"

definition childIds :: "(js_string, js_string list) jsmap \<Rightarrow> js_string \<Rightarrow> js_string list" where
  "childIds children pid = (case js_get children pid of None \<Rightarrow> [] | Some ids \<Rightarrow> ids)"

lemma addChild_eq:
  "addChild nfkc byPath n children =
    (case getVirtualParent nfkc (node_path n) of
       Inl e \<Rightarrow> Inl e
     | Inr _ \<Rightarrow> Inr (case parentOf nfkc byPath n of None \<Rightarrow> children
         | Some pid \<Rightarrow> js_set pid (childIds children pid @ [node_id n]) children))"
  by (auto simp: addChild_def parentOf_def childIds_def split: sum.splits option.splits)

lemma addChildren_ids:
  "addChildren nfkc byPath nodes children = Inr children' \<Longrightarrow>
    childIds children' pid = childIds children pid @ map node_id (filter (\<lambda>n. parentOf nfkc byPath n = Some pid) nodes)"
proof (induction nodes arbitrary: children)
  case (Cons n nodes)
  then obtain c where c: "addChild nfkc byPath n children = Inr c" "addChildren nfkc byPath nodes c = Inr children'"
    by (auto split: sum.splits)
  have "childIds c pid = childIds children pid @ (if parentOf nfkc byPath n = Some pid then [node_id n] else [])"
    using c(1) by (auto simp: addChild_eq childIds_def jsmap_simps split: sum.splits option.splits)
  then show ?case using Cons.IH[OF c(2)] by simp
qed simp

lemma addChildren_fails:
  "(\<exists>e. addChildren nfkc byPath nodes children = Inl e) \<longleftrightarrow> (\<exists>n \<in> set nodes. \<exists>e. getVirtualParent nfkc (node_path n) = Inl e)"
  by (induction nodes arbitrary: children) (auto simp: addChild_eq split: sum.splits)

lemma byKey_last:
  "js_get (foldl (\<lambda>m n. js_set (key n) n m) m0 xs) k =
    (case List.find (\<lambda>n. key n = k) (rev xs) of None \<Rightarrow> js_get m0 k | Some n \<Rightarrow> Some n)"
  by (induction xs rule: rev_induct) (auto simp: jsmap_simps split: option.splits)

text \<open>
  The index files every node under its parent. Building the index fails exactly when the parent of
  some indexed node's path cannot be computed. Otherwise the node of an identifier and of a path is the
  last one of the flattened tree, and the children of an identifier are, in order and each once, the
  indexed nodes whose parent path is the path of a node with that identifier.
\<close>

theorem index_files_children:
  "case buildExplorerIndex nfkc nodes of
      Inl e \<Rightarrow> \<exists>n \<in> set (flattenNodes nodes). \<exists>e. getVirtualParent nfkc (node_path n) = Inl e
    | Inr ix \<Rightarrow>
        list_all (\<lambda>n. \<exists>r. getVirtualParent nfkc (node_path n) = Inr r) (map snd (ix_byId ix)) \<and>
        (\<forall>k. js_get (ix_byId ix) k = List.find (\<lambda>n. node_id n = k) (rev (flattenNodes nodes))) \<and>
        (\<forall>p. js_get (ix_byPath ix) p = List.find (\<lambda>n. node_path n = p) (rev (flattenNodes nodes))) \<and>
        (\<forall>pid. childIds (ix_childrenById ix) pid =
          map node_id (filter (\<lambda>n. parentOf nfkc (ix_byPath ix) n = Some pid) (map snd (ix_byId ix))) \<and>
          distinct (childIds (ix_childrenById ix) pid))"
proof -
  let ?flat = "flattenNodes nodes"
  define byId where "byId = foldl (\<lambda>m n. js_set (node_id n) n m) [] ?flat"
  define byPath where "byPath = foldl (\<lambda>m n. js_set (node_path n) n m) [] ?flat"
  have get: "js_get byId k = List.find (\<lambda>n. node_id n = k) (rev ?flat)"
    "js_get byPath k = List.find (\<lambda>n. node_path n = k) (rev ?flat)" for k
    by (simp_all add: byId_def byPath_def byKey_last split: option.splits)
  have dist: "distinct (map fst byId)"
  proof -
    have "distinct (map fst m0) \<Longrightarrow> distinct (map fst (foldl (\<lambda>m n. js_set (node_id n) n m) m0 xs))" for m0 xs
      by (induction xs arbitrary: m0) auto
    then show ?thesis by (simp add: byId_def)
  qed
  have entry: "n \<in> set ?flat \<and> node_id n = k" if "(k, n) \<in> set byId" for k n
    using that get(1)[of k] find_SomeD[of _ "rev ?flat" n] by (auto simp: map_of_eq_Some_iff[OF dist, symmetric])
  then have ids: "map node_id (map snd byId) = map fst byId" by fastforce
  show ?thesis
  proof (cases "addChildren nfkc byPath (map snd byId) []")
    case (Inl e)
    then have "\<exists>n \<in> set (map snd byId). \<exists>e. getVirtualParent nfkc (node_path n) = Inl e" using addChildren_fails by metis
    then have "\<exists>n \<in> set ?flat. \<exists>e. getVirtualParent nfkc (node_path n) = Inl e" using entry by fastforce
    then show ?thesis using Inl by (simp add: buildExplorerIndex_def Let_def byId_def byPath_def)
  next
    case (Inr children)
    have "childIds children pid = map node_id (filter (\<lambda>n. parentOf nfkc byPath n = Some pid) (map snd byId))" for pid
      using addChildren_ids[OF Inr, of pid] by (simp add: childIds_def)
    moreover have "list_all (\<lambda>n. \<exists>r. getVirtualParent nfkc (node_path n) = Inr r) (map snd byId)"
    proof -
      have "\<not> (\<exists>e. addChildren nfkc byPath (map snd byId) [] = Inl e)" using Inr by simp
      then have "\<not> (\<exists>n \<in> set (map snd byId). \<exists>e. getVirtualParent nfkc (node_path n) = Inl e)"
        by (simp only: addChildren_fails not_False_eq_True)
      then show ?thesis unfolding list_all_iff by (metis obj_sumE)
    qed
    moreover have "distinct (map node_id (filter P (map snd byId)))" for P
      using dist ids by (metis distinct_map_filter)
    ultimately show ?thesis
      using Inr get by (simp add: buildExplorerIndex_def Let_def byId_def[symmetric] byPath_def[symmetric])
  qed
qed

end
