(* ===== verification/Rendition_Ladder.thy ===== *)
theory Rendition_Ladder
  imports Presence_Store
begin

text \<open>
  The quality ladder (\<open>apps/control-plane/src/conversion/ladder.ts\<close>) and the renderer that fills a rung
  (\<open>conversion/renderer.ts\<close>).

  The ladder is a fixed table from a type's family to rungs. The renderer is modelled up to the two
  things that are not its code: running a process and asking the file system for a size are fields of
  \<open>render_env\<close>. Numbers parsed from \<open>ffprobe\<close> are natural numbers, where the program's are doubles; the
  two agree below \<open>2 ^ 53\<close>.
\<close>

section \<open>Text\<close>

text \<open>\<open>String.prototype.toLowerCase\<close> on Latin-1 code units.\<close>

definition js_lower :: "char \<Rightarrow> char" where
  "js_lower c =
     (let n = of_char c :: nat in
      if 65 \<le> n \<and> n \<le> 90 \<or> 192 \<le> n \<and> n \<le> 222 \<and> n \<noteq> 215 then char_of (n + 32) else c)"

definition js_toLowerCase :: "string \<Rightarrow> string" where
  "js_toLowerCase s = map js_lower s"

definition js_startsWith :: "string \<Rightarrow> string \<Rightarrow> bool" where
  "js_startsWith s p \<longleftrightarrow> take (length p) s = p"

section \<open>The ladder\<close>

record rendition_spec =
  sp_variant :: string
  sp_mimeType :: string
  sp_extension :: string
  sp_maxHeight :: nat
  sp_ffmpegArguments :: "string list"

definition videoScale :: "nat \<Rightarrow> string" where
  "videoScale maxHeight = ''scale=-2:'' @ [CHR 0x27] @ ''min('' @ decimal maxHeight @ '',ih)'' @ [CHR 0x27]"

definition videoRung :: "string \<Rightarrow> nat \<Rightarrow> rendition_spec" where
  "videoRung variant maxHeight =
     \<lparr>sp_variant = variant, sp_mimeType = ''video/mp4'', sp_extension = ''mp4'', sp_maxHeight = maxHeight,
      sp_ffmpegArguments =
        [''-vf'', videoScale maxHeight, ''-c:v'', ''libx264'', ''-preset'', ''veryfast'', ''-crf'', ''26'',
         ''-pix_fmt'', ''yuv420p'', ''-c:a'', ''aac'', ''-b:a'', ''128k'', ''-movflags'', ''+faststart'']\<rparr>"

definition imageThumbnail :: rendition_spec where
  "imageThumbnail =
     \<lparr>sp_variant = ''thumbnail'', sp_mimeType = ''image/jpeg'', sp_extension = ''jpg'', sp_maxHeight = 320,
      sp_ffmpegArguments = [''-vf'', videoScale 320, ''-frames:v'', ''1'', ''-q:v'', ''4'']\<rparr>"

definition videoLadder :: "rendition_spec list" where
  "videoLadder = [videoRung ''1080p'' 1080, videoRung ''720p'' 720, videoRung ''480p'' 480]"

definition imageLadder :: "rendition_spec list" where
  "imageLadder = [imageThumbnail]"

definition renditionLadderFor :: "string \<Rightarrow> rendition_spec list" where
  "renditionLadderFor mimeType =
     (let normalized = js_toLowerCase (js_trim mimeType) in
      if js_startsWith normalized ''video/'' then videoLadder
      else if js_startsWith normalized ''image/'' then imageLadder
      else [])"

definition renditionSpecFor :: "string \<Rightarrow> string \<Rightarrow> rendition_spec option" where
  "renditionSpecFor mimeType variant =
     List.find (\<lambda>spec. sp_variant spec = variant) (renditionLadderFor mimeType)"

definition renditionStorageKeyFor :: "string \<Rightarrow> string \<Rightarrow> rendition_spec \<Rightarrow> string" where
  "renditionStorageKeyFor groupId contentHash spec =
     ''renditions/'' @ groupId @ ''/'' @ contentHash @ ''/'' @ sp_variant spec @ ''.'' @ sp_extension spec"

definition ladderVariantsFor :: "string \<Rightarrow> string list" where
  "ladderVariantsFor mimeType = map sp_variant (renditionLadderFor mimeType)"

section \<open>The renderer\<close>

record render_request =
  rq_sourcePath :: string
  rq_outputPath :: string
  rq_spec :: rendition_spec

record render_result =
  rs_width :: nat
  rs_height :: nat
  rs_byteSize :: int

record process_result =
  pc_code :: "int option"
  pc_stdout :: string
  pc_stderr :: string
  pc_timedOut :: bool

text \<open>
  An error that reaches the worker: the renderer's own, which carries the detail a job records, another
  \<open>Error\<close> with its message, or a value that is no error.
\<close>

datatype pass_error = RenditionRenderError string | OtherError rt_error | NonErrorValue

record render_env =
  re_ffmpegPath :: string
  re_ffprobePath :: string
  re_timeoutMs :: nat
  re_run :: "string \<Rightarrow> string list \<Rightarrow> nat \<Rightarrow> process_result"
  re_stat :: "string \<Rightarrow> int option"

definition defaultTimeoutMs :: nat where "defaultTimeoutMs = 10 * 60 * 1000"

definition codeText :: "int option \<Rightarrow> string" where
  "codeText code = (case code of None \<Rightarrow> ''null''
     | Some n \<Rightarrow> if n < 0 then CHR ''-'' # decimal (nat (- n)) else decimal (nat n))"

definition fileSize :: "render_env \<Rightarrow> string \<Rightarrow> int" where
  "fileSize env path = (case re_stat env path of None \<Rightarrow> 0 | Some sz \<Rightarrow> sz)"

text \<open>The match of a line against \<open>^(\d+)x(\d+)$\<close>.\<close>

definition matchSize :: "string \<Rightarrow> (nat \<times> nat) option" where
  "matchSize line =
     (let w = takeWhile is_digit line; rest = dropWhile is_digit line in
      case rest of
        [] \<Rightarrow> None
      | c # h \<Rightarrow> if c = CHR ''x'' \<and> w \<noteq> [] \<and> h \<noteq> [] \<and> list_all is_digit h
                then Some (undecimal w, undecimal h) else None)"

fun firstSize :: "string list \<Rightarrow> (nat \<times> nat) option" where
  "firstSize [] = None"
| "firstSize (line # lines) =
     (case matchSize (js_trim line) of
        None \<Rightarrow> firstSize lines
      | Some (w, h) \<Rightarrow> if w > 0 \<and> h > 0 then Some (w, h) else firstSize lines)"

definition parseDimensions :: "string \<Rightarrow> (nat \<times> nat) option" where
  "parseDimensions output = firstSize (js_split (CHR 0x0A) output)"

definition ffmpegArgs :: "render_request \<Rightarrow> string list" where
  "ffmpegArgs request =
     [''-nostdin'', ''-hide_banner'', ''-loglevel'', ''error'', ''-y'', ''-i'', rq_sourcePath request] @
     sp_ffmpegArguments (rq_spec request) @ [rq_outputPath request]"

definition ffprobeArgs :: "render_request \<Rightarrow> string list" where
  "ffprobeArgs request =
     [''-v'', ''error'', ''-select_streams'', ''v:0'', ''-show_entries'', ''stream=width,height'', ''-of'',
      ''csv=p=0:s=x'', rq_outputPath request]"

definition renderRendition :: "render_env \<Rightarrow> render_request \<Rightarrow> pass_error + render_result" where
  "renderRendition env request =
     (let rendered = re_run env (re_ffmpegPath env) (ffmpegArgs request) (re_timeoutMs env) in
      if pc_timedOut rendered
      then Inl (RenditionRenderError
        (''ffmpeg exceeded its '' @ decimal (re_timeoutMs env) @ ''ms budget and was stopped''))
      else if pc_code rendered \<noteq> Some 0
      then Inl (RenditionRenderError
        (''ffmpeg exited with '' @ codeText (pc_code rendered) @ '': '' @ pc_stderr rendered))
      else
        let sz = fileSize env (rq_outputPath request) in
        if sz \<le> 0 then Inl (RenditionRenderError ''ffmpeg produced an empty file'')
        else
          let probed = re_run env (re_ffprobePath env) (ffprobeArgs request) (re_timeoutMs env) in
          if pc_timedOut probed \<or> pc_code probed \<noteq> Some 0
          then Inl (RenditionRenderError
            (''ffprobe exited with '' @ codeText (pc_code probed) @ '': '' @ pc_stderr probed))
          else
            case parseDimensions (pc_stdout probed) of
              None \<Rightarrow> Inl (RenditionRenderError
                (''ffprobe reported no picture size for the rendition: '' @ js_trim (pc_stdout probed)))
            | Some (w, h) \<Rightarrow> Inr \<lparr>rs_width = w, rs_height = h, rs_byteSize = sz\<rparr>)"

section \<open>What the ladder and the renderer promise\<close>

lemma ladder_cases:
  "renditionLadderFor m = videoLadder \<or> renditionLadderFor m = imageLadder \<or> renditionLadderFor m = []"
  by (simp add: renditionLadderFor_def Let_def)

lemma ladder_variants_distinct: "distinct (ladderVariantsFor m)"
  using ladder_cases[of m]
  by (auto simp: ladderVariantsFor_def videoLadder_def imageLadder_def videoRung_def)

lemma find_by_key:
  assumes "distinct (map k xs)" and "x \<in> set xs"
  shows "List.find (\<lambda>y. k y = k x) xs = Some x"
  using assms by (induction xs) (auto simp: rev_image_eqI)

lemma renditionSpecFor_iff:
  "renditionSpecFor m v = Some spec \<longleftrightarrow> spec \<in> set (renditionLadderFor m) \<and> sp_variant spec = v"
  using find_by_key[OF ladder_variants_distinct[unfolded ladderVariantsFor_def], of spec m]
  by (auto simp: renditionSpecFor_def dest: find_SomeD)

lemma renditionSpecFor_None: "renditionSpecFor m v = None \<longleftrightarrow> v \<notin> set (ladderVariantsFor m)"
  by (auto simp: renditionSpecFor_def ladderVariantsFor_def find_None_iff)

lemma firstSize_positive: "firstSize ls = Some (w, h) \<Longrightarrow> w > 0 \<and> h > 0"
  by (induction ls rule: firstSize.induct) (auto split: option.splits prod.splits if_splits)

lemma render_positive:
  assumes "renderRendition env rq = Inr r"
  shows "rs_width r > 0 \<and> rs_height r > 0 \<and> rs_byteSize r > 0"
  using assms firstSize_positive
  by (auto simp: renderRendition_def parseDimensions_def Let_def split: if_splits option.splits)

end
