(* ===== verification/Conversion_Queue.thy ===== *)
theory Conversion_Queue
  imports Rendition_Ladder
begin

text \<open>
  The conversion pipeline: the queue of \<open>apps/control-plane/src/conversion/store.ts\<close>, the worker of
  \<open>conversion/worker.ts\<close> and the two producers of \<open>material/service.ts\<close>.

  Each method of the store is one SQL statement, the function of the tables that the statement denotes,
  between the checks the method makes before it and the readers it applies after it. The tables are the
  fields of \<open>conv_db\<close>; those with a primary key the statements look rows up by are maps, jobs and
  renditions are lists of rows. Unique and check constraints of migrations 0001 and 0012 that a statement
  can violate are branches that throw and write nothing. \<open>FOR UPDATE SKIP LOCKED\<close> is the argument
  \<open>locked\<close> of \<open>claimNextJob\<close>: the jobs that other statements hold at that instant.

  Parameters, in \<open>conv_env\<close>: how the database reads a \<open>uuid\<close> and an array literal, its text collation, how
  the driver renders integers and booleans, and the two options of the store. Identifiers the program draws
  at random are arguments.
\<close>

section \<open>The tables\<close>

datatype job_state = PENDING | RUNNING | COMPLETED | FAILED

record job_row =
  j_id :: string
  j_groupId :: string
  j_materialId :: string
  j_versionId :: string
  j_kind :: string
  j_state :: job_state
  j_attempt :: nat
  j_leaseExpiresAt :: "int option"
  j_detail :: "string option"
  j_createdAt :: int
  j_updatedAt :: int

record rendition_row =
  r_id :: string
  r_groupId :: string
  r_materialId :: string
  r_versionId :: string
  r_variant :: string
  r_storageKey :: string
  r_mimeType :: string
  r_byteSize :: int
  r_width :: int
  r_height :: int
  r_createdAt :: int
  r_updatedAt :: int

record material_row =
  ma_groupId :: string
  ma_trashedAt :: "int option"

record version_row =
  vr_materialId :: string
  vr_contentHash :: string
  vr_mimeType :: string
  vr_byteSize :: int

record conv_db =
  cv_memberships :: "membership_row list"
  cv_deviceStatus :: "(string, device_status) jsmap"
  cv_materials :: "(string, material_row) jsmap"
  cv_versions :: "(string, version_row) jsmap"
  cv_objects :: "(string \<times> string, string) jsmap"
  cv_jobs :: "job_row list"
  cv_renditions :: "rendition_row list"

record conv_env =
  ce_uuid :: "string \<Rightarrow> string option"
  ce_textArray :: "string \<Rightarrow> string list option"
  ce_collate :: "string \<Rightarrow> string \<Rightarrow> int"
  ce_int :: "int \<Rightarrow> sql_value"
  ce_bool :: "bool \<Rightarrow> sql_value"
  ce_leaseMs :: int
  ce_maxAttempts :: nat

type_synonym 'a cdb = "(conv_db, rt_error, 'a) sm"

section \<open>Values\<close>

record job_claim =
  jc_jobId :: string
  jc_groupId :: string
  jc_materialId :: string
  jc_versionId :: string
  jc_variant :: string
  jc_attempt :: int
  jc_sourceStorageKey :: string
  jc_sourceContentHash :: string
  jc_sourceMimeType :: string
  jc_sourceByteSize :: int

record rendition_record =
  rr_versionId :: string
  rr_variant :: string
  rr_storageKey :: string
  rr_mimeType :: string
  rr_byteSize :: int
  rr_width :: int
  rr_height :: int

record completed_input =
  ci_storageKey :: string
  ci_mimeType :: string
  ci_byteSize :: int
  ci_width :: int
  ci_height :: int

definition defaultLeaseMs :: int where "defaultLeaseMs = 5 * 60 * 1000"
definition defaultMaxAttempts :: int where "defaultMaxAttempts = 3"
definition maxDetailLength :: nat where "maxDetailLength = 500"

definition positiveInteger :: "int \<Rightarrow> string \<Rightarrow> rt_error + int" where
  "positiveInteger v field =
     (if v \<le> 0 then Inl (PlainError (field @ '' must be a positive integer'')) else Inr v)"

text \<open>The constructor: the two options of the store with their defaults.\<close>

definition newConversionStore :: "conv_env \<Rightarrow> int option \<Rightarrow> int option \<Rightarrow> rt_error + conv_env" where
  "newConversionStore base leaseMs maxAttempts =
     (case positiveInteger (nullish leaseMs defaultLeaseMs) ''leaseMs'' of
        Inl e \<Rightarrow> Inl e
      | Inr lease \<Rightarrow>
     (case positiveInteger (nullish maxAttempts defaultMaxAttempts) ''maxAttempts'' of
        Inl e \<Rightarrow> Inl e
      | Inr attempts \<Rightarrow> Inr (base\<lparr>ce_leaseMs := lease, ce_maxAttempts := nat attempts\<rparr>)))"

definition requireIdentifier :: "string \<Rightarrow> string \<Rightarrow> rt_error + string" where
  "requireIdentifier v field =
     (let normalized = js_trim v in
      if length normalized = 0
      then Inl (PairedDeviceRuntimeError INVALID_ARGUMENT (field @ '' must not be empty.''))
      else Inr normalized)"

text \<open>\<open>replaceAll\<close> of one character by a string.\<close>

definition replaceChar :: "char \<Rightarrow> string \<Rightarrow> string \<Rightarrow> string" where
  "replaceChar c by s = concat (map (\<lambda>d. if d = c then by else [d]) s)"

definition escapeElement :: "string \<Rightarrow> string" where
  "escapeElement v =
     [CHR 0x22] @ replaceChar (CHR 0x22) [CHR 0x5C, CHR 0x22] (replaceChar (CHR 0x5C) [CHR 0x5C, CHR 0x5C] v)
     @ [CHR 0x22]"

definition toTextArrayLiteral :: "string list \<Rightarrow> string" where
  "toTextArrayLiteral vs = ''{'' @ joinWith '','' (map escapeElement vs) @ ''}''"

text \<open>\<open>replace(/\s+/gu, ' ')\<close>: a run of white space becomes one blank.\<close>

function collapseSpace :: "string \<Rightarrow> string" where
  "collapseSpace [] = []"
| "collapseSpace (c # cs) =
     (if is_js_space c then CHR '' '' # collapseSpace (dropWhile is_js_space cs) else c # collapseSpace cs)"
  by pat_completeness auto
termination
  by (relation "measure length") (auto simp: length_dropWhile_le le_imp_less_Suc)

definition boundedDetail :: "string \<Rightarrow> string" where
  "boundedDetail detail =
     (let collapsed = js_trim (collapseSpace detail) in
      if length collapsed = 0 then ''the renderer reported no detail''
      else if length collapsed > maxDetailLength
      then ''...'' @ drop (length collapsed - (maxDetailLength - 3)) collapsed
      else collapsed)"

fun stateName :: "job_state \<Rightarrow> string" where
  "stateName PENDING = ''PENDING''"
| "stateName RUNNING = ''RUNNING''"
| "stateName COMPLETED = ''COMPLETED''"
| "stateName FAILED = ''FAILED''"

definition toJobState :: "string \<Rightarrow> rt_error + job_state" where
  "toJobState v =
     (if v = ''PENDING'' then Inr PENDING
      else if v = ''RUNNING'' then Inr RUNNING
      else if v = ''COMPLETED'' then Inr COMPLETED
      else if v = ''FAILED'' then Inr FAILED
      else Inl (PlainError (''Unknown conversion job state: '' @ v)))"

definition readInteger :: "sql_value \<Rightarrow> string \<Rightarrow> rt_error + int" where
  "readInteger v field =
     (let bad = Inl (PlainError (''Expected an integer '' @ field)) in
      case v of
        SqlNumber n \<Rightarrow> Inr n
      | SqlText s \<Rightarrow>
          (case s of
             CHR ''-'' # ds \<Rightarrow> (if ds \<noteq> [] \<and> list_all is_digit ds then Inr (- int (undecimal ds)) else bad)
           | _ \<Rightarrow> (if s \<noteq> [] \<and> list_all is_digit s then Inr (int (undecimal s)) else bad))
      | _ \<Rightarrow> bad)"

definition readBoolean :: "sql_value \<Rightarrow> string \<Rightarrow> rt_error + bool" where
  "readBoolean v field =
     (case v of
        SqlBool b \<Rightarrow> Inr b
      | SqlText s \<Rightarrow> (if s = ''true'' then Inr True else if s = ''false'' then Inr False
                    else Inl (invalidField field))
      | _ \<Rightarrow> Inl (invalidField field))"

text \<open>A \<open>::text\<close> rendering of an integer.\<close>

definition intText :: "int \<Rightarrow> string" where
  "intText n = (if n < 0 then CHR ''-'' # decimal (nat (- n)) else decimal (nat n))"

definition driverError :: rt_error where
  "driverError = PlainError ''the database rejected the statement''"

definition uniqueViolation :: rt_error where
  "uniqueViolation = PairedDeviceRuntimeError ALREADY_EXISTS
     ''A record with the supplied unique identifier already exists.''"

section \<open>The producer\<close>

definition activeConvMember :: "conv_db \<Rightarrow> string \<Rightarrow> string \<Rightarrow> bool" where
  "activeConvMember db groupId deviceId \<longleftrightarrow>
     list_ex (\<lambda>m. mr_groupId m = groupId \<and> mr_deviceId m = deviceId \<and> mr_revokedAt m = None)
       (cv_memberships db) \<and>
     (case js_get (cv_deviceStatus db) deviceId of None \<Rightarrow> False | Some st \<Rightarrow> st \<noteq> REVOKED)"

definition assertMember :: "conv_env \<Rightarrow> bool \<Rightarrow> unit cdb" where
  "assertMember env active =
     sm_bind (sm_lift (readBoolean (ce_bool env active) ''member_active'')) (\<lambda>member_active.
     sm_require member_active (PairedDeviceRuntimeError PERMISSION_DENIED
       ''The authenticated device is no longer an active member of the group.''))"

text \<open>The CTE \<open>target\<close>: the version, reached through the caller's own membership.\<close>

definition versionTarget :: "conv_db \<Rightarrow> string \<Rightarrow> string \<Rightarrow> string \<Rightarrow> string \<Rightarrow> bool" where
  "versionTarget db groupId deviceId materialId versionId \<longleftrightarrow>
     activeConvMember db groupId deviceId \<and>
     (case (js_get (cv_versions db) versionId, js_get (cv_materials db) materialId) of
        (Some v, Some m) \<Rightarrow> vr_materialId v = materialId \<and> ma_groupId m = groupId \<and> ma_trashedAt m = None
      | _ \<Rightarrow> False)"

definition newJob :: "string \<Rightarrow> string \<Rightarrow> string \<Rightarrow> int \<Rightarrow> string \<times> string \<Rightarrow> job_row" where
  "newJob groupId materialId versionId now entry =
     \<lparr>j_id = fst entry, j_groupId = groupId, j_materialId = materialId, j_versionId = versionId,
      j_kind = snd entry, j_state = PENDING, j_attempt = 0, j_leaseExpiresAt = None, j_detail = None,
      j_createdAt = now, j_updatedAt = now\<rparr>"

text \<open>\<open>INSERT ... ON CONFLICT (version_id, kind) DO NOTHING\<close>, row by row.\<close>

definition hasJob :: "string \<Rightarrow> string \<Rightarrow> job_row list \<Rightarrow> bool" where
  "hasJob versionId kind jobs = list_ex (\<lambda>j. j_versionId j = versionId \<and> j_kind j = kind) jobs"

fun insertJobs :: "job_row list \<Rightarrow> job_row list \<Rightarrow> rt_error + job_row list \<times> string list" where
  "insertJobs [] jobs = Inr (jobs, [])"
| "insertJobs (j # js) jobs =
     (if hasJob (j_versionId j) (j_kind j) jobs then insertJobs js jobs
      else if list_ex (\<lambda>k. j_id k = j_id j) jobs then Inl uniqueViolation
      else case insertJobs js (jobs @ [j]) of
             Inl e \<Rightarrow> Inl e
           | Inr (jobs', kinds) \<Rightarrow> Inr (jobs', j_kind j # kinds))"

text \<open>\<open>[...new Set(xs)]\<close>: the first occurrence of each element.\<close>

definition js_unique :: "'a list \<Rightarrow> 'a list" where
  "js_unique xs = rev (remdups (rev xs))"

definition requestedVariants :: "string list \<Rightarrow> string list" where
  "requestedVariants variants = filter (\<lambda>v. length v > 0) (js_unique (map js_trim variants))"

definition enqueueRenditions ::
  "conv_env \<Rightarrow> (nat \<Rightarrow> string) \<Rightarrow> int \<Rightarrow> string \<Rightarrow> string \<Rightarrow> string \<Rightarrow> string \<Rightarrow> string list \<Rightarrow> string list cdb" where
  "enqueueRenditions env newId now groupId deviceId materialId versionId variants =
     (let requested = requestedVariants variants in
      if length requested = 0 then sm_return []
      else
        sm_bind (sm_lift (requireIdentifier materialId ''material_id'')) (\<lambda>mid.
        sm_bind (sm_lift (requireIdentifier versionId ''version_id'')) (\<lambda>vid.
        case (ce_uuid env mid, ce_uuid env vid, ce_textArray env (toTextArrayLiteral requested)) of
          (Some m, Some v, Some kinds) \<Rightarrow>
            sm_bind (sm_get (\<lambda>db. (activeConvMember db groupId deviceId,
                                   versionTarget db groupId deviceId m v, cv_jobs db))) (\<lambda>(member, present, jobs).
            sm_bind (sm_lift (insertJobs
               (if present
                then map (newJob groupId m v now) (zip (map newId [0 ..< length requested]) kinds)
                else []) jobs)) (\<lambda>(jobs', queued).
            sm_bind (sm_modify (cv_jobs_update (\<lambda>_. jobs'))) (\<lambda>_.
            sm_bind (assertMember env member) (\<lambda>_.
            sm_bind (sm_lift (readBoolean (ce_bool env present) ''version_present'')) (\<lambda>version_present.
            if \<not> version_present
            then sm_throw (PairedDeviceRuntimeError NOT_FOUND ''The material version does not exist.'')
            else sm_return (js_sort (ce_collate env) queued))))))
        | _ \<Rightarrow> sm_throw driverError)))"

section \<open>The read\<close>

definition toRendition :: "conv_env \<Rightarrow> rendition_row \<Rightarrow> rt_error + rendition_record" where
  "toRendition env row =
     (case readText (SqlText (r_versionId row)) ''version_id'' of Inl e \<Rightarrow> Inl e | Inr versionId \<Rightarrow>
     (case readText (SqlText (r_variant row)) ''variant'' of Inl e \<Rightarrow> Inl e | Inr variant \<Rightarrow>
     (case readText (SqlText (r_storageKey row)) ''storage_key'' of Inl e \<Rightarrow> Inl e | Inr storageKey \<Rightarrow>
     (case readText (SqlText (r_mimeType row)) ''mime_type'' of Inl e \<Rightarrow> Inl e | Inr mimeType \<Rightarrow>
     (case readBigInt (SqlText (intText (r_byteSize row))) ''byte_size'' of Inl e \<Rightarrow> Inl e | Inr byteSize \<Rightarrow>
     (case readInteger (SqlNumber (r_width row)) ''width'' of Inl e \<Rightarrow> Inl e | Inr width \<Rightarrow>
     (case readInteger (SqlNumber (r_height row)) ''height'' of Inl e \<Rightarrow> Inl e | Inr height \<Rightarrow>
        Inr \<lparr>rr_versionId = versionId, rr_variant = variant, rr_storageKey = storageKey, rr_mimeType = mimeType,
             rr_byteSize = byteSize, rr_width = width, rr_height = height\<rparr>)))))))"

definition visibleRendition ::
  "conv_db \<Rightarrow> string \<Rightarrow> string \<Rightarrow> string \<Rightarrow> string \<Rightarrow> string \<Rightarrow> rendition_row option" where
  "visibleRendition db groupId deviceId materialId versionId variant =
     List.find (\<lambda>r. r_materialId r = materialId \<and> r_versionId r = versionId \<and> r_variant r = variant \<and>
        activeConvMember db groupId deviceId \<and>
        (case js_get (cv_materials db) (r_materialId r) of None \<Rightarrow> False
         | Some m \<Rightarrow> ma_groupId m = groupId \<and> ma_trashedAt m = None)) (cv_renditions db)"

definition readRendition ::
  "conv_env \<Rightarrow> string \<Rightarrow> string \<Rightarrow> string \<Rightarrow> string \<Rightarrow> string \<Rightarrow> rendition_record option cdb" where
  "readRendition env groupId deviceId materialId versionId variant =
     (let normalizedVariant = js_trim variant in
      if length normalizedVariant = 0 then sm_return None
      else
        sm_bind (sm_lift (requireIdentifier materialId ''material_id'')) (\<lambda>mid.
        sm_bind (sm_lift (requireIdentifier versionId ''version_id'')) (\<lambda>vid.
        case (ce_uuid env mid, ce_uuid env vid) of
          (Some m, Some v) \<Rightarrow>
            sm_bind (sm_get (\<lambda>db. (activeConvMember db groupId deviceId,
                                   visibleRendition db groupId deviceId m v normalizedVariant)))
              (\<lambda>(member, rendition).
            sm_bind (assertMember env member) (\<lambda>_.
            case rendition of
              None \<Rightarrow> sm_return None
            | Some row \<Rightarrow> sm_bind (sm_lift (toRendition env row)) (\<lambda>r. sm_return (Some r))))
        | _ \<Rightarrow> sm_throw driverError)))"

section \<open>The worker's statements\<close>

definition jobSource :: "conv_db \<Rightarrow> job_row \<Rightarrow> (version_row \<times> string) option" where
  "jobSource db j =
     (case js_get (cv_versions db) (j_versionId j) of
        None \<Rightarrow> None
      | Some v \<Rightarrow> map_option (\<lambda>key. (v, key)) (js_get (cv_objects db) (j_groupId j, vr_contentHash v)))"

definition claimable :: "conv_env \<Rightarrow> int \<Rightarrow> conv_db \<Rightarrow> job_row \<Rightarrow> bool" where
  "claimable env now db j \<longleftrightarrow>
     (case js_get (cv_materials db) (j_materialId j) of None \<Rightarrow> False | Some m \<Rightarrow> ma_trashedAt m = None) \<and>
     jobSource db j \<noteq> None \<and>
     j_attempt j < ce_maxAttempts env \<and>
     (j_state j = PENDING \<or>
      j_state j = RUNNING \<and> (case j_leaseExpiresAt j of None \<Rightarrow> True | Some l \<Rightarrow> l \<le> now))"

text \<open>\<open>ORDER BY job.created_at, job.id ... SKIP LOCKED LIMIT 1\<close>.\<close>

definition nextJob :: "conv_env \<Rightarrow> string list \<Rightarrow> int \<Rightarrow> conv_db \<Rightarrow> job_row option" where
  "nextJob env locked now db =
     (case sort_key (\<lambda>j. (j_createdAt j, j_id j))
             (filter (\<lambda>j. claimable env now db j \<and> j_id j \<notin> set locked) (cv_jobs db)) of
        [] \<Rightarrow> None | j # _ \<Rightarrow> Some j)"

definition updateJob :: "string \<Rightarrow> (job_row \<Rightarrow> job_row) \<Rightarrow> conv_db \<Rightarrow> conv_db" where
  "updateJob jobId f db = db\<lparr>cv_jobs := map (\<lambda>j. if j_id j = jobId then f j else j) (cv_jobs db)\<rparr>"

definition claimedRow :: "conv_env \<Rightarrow> int \<Rightarrow> job_row \<Rightarrow> job_row" where
  "claimedRow env now j =
     j\<lparr>j_state := RUNNING, j_attempt := j_attempt j + 1, j_leaseExpiresAt := Some (now + ce_leaseMs env),
       j_detail := None, j_updatedAt := now\<rparr>"

definition readClaim :: "conv_env \<Rightarrow> job_row \<Rightarrow> version_row \<Rightarrow> string \<Rightarrow> rt_error + job_claim" where
  "readClaim env j v key =
     (case readText (SqlText (j_id j)) ''id'' of Inl e \<Rightarrow> Inl e | Inr jobId \<Rightarrow>
     (case readText (SqlText (j_groupId j)) ''group_id'' of Inl e \<Rightarrow> Inl e | Inr groupId \<Rightarrow>
     (case readText (SqlText (j_materialId j)) ''material_id'' of Inl e \<Rightarrow> Inl e | Inr materialId \<Rightarrow>
     (case readText (SqlText (j_versionId j)) ''version_id'' of Inl e \<Rightarrow> Inl e | Inr versionId \<Rightarrow>
     (case readText (SqlText (j_kind j)) ''kind'' of Inl e \<Rightarrow> Inl e | Inr kind \<Rightarrow>
     (case readInteger (ce_int env (int (j_attempt j))) ''attempt'' of Inl e \<Rightarrow> Inl e | Inr attempt \<Rightarrow>
     (case readText (SqlText key) ''storage_key'' of Inl e \<Rightarrow> Inl e | Inr storageKey \<Rightarrow>
     (case readText (SqlText (vr_contentHash v)) ''content_hash'' of Inl e \<Rightarrow> Inl e | Inr contentHash \<Rightarrow>
     (case readText (SqlText (vr_mimeType v)) ''mime_type'' of Inl e \<Rightarrow> Inl e | Inr mimeType \<Rightarrow>
     (case readBigInt (SqlText (intText (vr_byteSize v))) ''byte_size'' of Inl e \<Rightarrow> Inl e | Inr byteSize \<Rightarrow>
        Inr \<lparr>jc_jobId = jobId, jc_groupId = groupId, jc_materialId = materialId, jc_versionId = versionId,
             jc_variant = kind, jc_attempt = attempt, jc_sourceStorageKey = storageKey,
             jc_sourceContentHash = contentHash, jc_sourceMimeType = mimeType,
             jc_sourceByteSize = byteSize\<rparr>))))))))))"

definition claimNextJob :: "conv_env \<Rightarrow> string list \<Rightarrow> int \<Rightarrow> job_claim option cdb" where
  "claimNextJob env locked now =
     sm_bind (sm_get (\<lambda>db. map_option (\<lambda>j. (j, jobSource db j)) (nextJob env locked now db))) (\<lambda>picked.
     case picked of
       Some (j, Some (v, key)) \<Rightarrow>
         sm_bind (sm_modify (updateJob (j_id j) (claimedRow env now))) (\<lambda>_.
         sm_bind (sm_lift (readClaim env (claimedRow env now j) v key)) (\<lambda>claim.
         sm_return (Some claim)))
     | _ \<Rightarrow> sm_return None)"

text \<open>The CTE \<open>locked_job\<close>: the row the claim still owns.\<close>

definition ownedJob :: "job_claim \<Rightarrow> conv_db \<Rightarrow> job_row option" where
  "ownedJob claim db =
     List.find (\<lambda>j. j_id j = jc_jobId claim \<and> int (j_attempt j) = jc_attempt claim \<and> j_state j = RUNNING)
       (cv_jobs db)"

definition renditionRow :: "string \<Rightarrow> int \<Rightarrow> job_row \<Rightarrow> completed_input \<Rightarrow> rendition_row" where
  "renditionRow newId now j input =
     \<lparr>r_id = newId, r_groupId = j_groupId j, r_materialId = j_materialId j, r_versionId = j_versionId j,
      r_variant = j_kind j, r_storageKey = ci_storageKey input, r_mimeType = ci_mimeType input,
      r_byteSize = ci_byteSize input, r_width = ci_width input, r_height = ci_height input,
      r_createdAt = now, r_updatedAt = now\<rparr>"

text \<open>\<open>INSERT ... ON CONFLICT (version_id, variant) DO UPDATE\<close>, with the checks of migration 0012.\<close>

definition upsertRendition :: "rendition_row \<Rightarrow> rendition_row list \<Rightarrow> rt_error + rendition_row list" where
  "upsertRendition r rs =
     (if r_byteSize r \<le> 0 \<or> r_width r < 0 \<or> r_height r < 0 then Inl driverError
      else if list_ex (\<lambda>x. r_versionId x = r_versionId r \<and> r_variant x = r_variant r) rs
      then Inr (map (\<lambda>x. if r_versionId x = r_versionId r \<and> r_variant x = r_variant r
              then x\<lparr>r_storageKey := r_storageKey r, r_mimeType := r_mimeType r, r_byteSize := r_byteSize r,
                     r_width := r_width r, r_height := r_height r, r_updatedAt := r_updatedAt r\<rparr> else x) rs)
      else if list_ex (\<lambda>x. r_id x = r_id r) rs then Inl uniqueViolation
      else Inr (rs @ [r]))"

definition finishedRow :: "int \<Rightarrow> job_row \<Rightarrow> job_row" where
  "finishedRow now j =
     j\<lparr>j_state := COMPLETED, j_leaseExpiresAt := None, j_detail := None, j_updatedAt := now\<rparr>"

text \<open>The casts \<open>$7::bigint\<close>, \<open>$8::int\<close> and \<open>$9::int\<close>.\<close>

definition castsFit :: "completed_input \<Rightarrow> bool" where
  "castsFit input \<longleftrightarrow> \<bar>ci_byteSize input\<bar> < 2 ^ 63 \<and> \<bar>ci_width input\<bar> < 2 ^ 31 \<and> \<bar>ci_height input\<bar> < 2 ^ 31"

definition completeJob :: "conv_env \<Rightarrow> string \<Rightarrow> int \<Rightarrow> job_claim \<Rightarrow> completed_input \<Rightarrow> bool cdb" where
  "completeJob env newId now claim input =
     (if \<not> castsFit input then sm_throw driverError
      else
        sm_bind (sm_get (\<lambda>db. (ownedJob claim db, cv_renditions db))) (\<lambda>(owned, rs).
        case owned of
          None \<Rightarrow> sm_lift (readBoolean (ce_bool env False) ''completed'')
        | Some j \<Rightarrow>
            sm_bind (sm_lift (upsertRendition (renditionRow newId now j input) rs)) (\<lambda>rs'.
            sm_bind (sm_modify (\<lambda>db. (updateJob (j_id j) (finishedRow now) db)\<lparr>cv_renditions := rs'\<rparr>)) (\<lambda>_.
            sm_lift (readBoolean (ce_bool env True) ''completed'')))))"

definition failedRow :: "nat \<Rightarrow> string \<Rightarrow> int \<Rightarrow> job_row \<Rightarrow> job_row" where
  "failedRow ceiling detail now j =
     j\<lparr>j_state := (if j_attempt j \<ge> ceiling then FAILED else PENDING), j_leaseExpiresAt := None,
       j_detail := Some detail, j_updatedAt := now\<rparr>"

definition readJobState :: "sql_value \<Rightarrow> job_state option cdb" where
  "readJobState v =
     (case readOptionalText v of
        None \<Rightarrow> sm_return None
      | Some s \<Rightarrow> sm_bind (sm_lift (toJobState s)) (\<lambda>st. sm_return (Some st)))"

definition failJob :: "conv_env \<Rightarrow> int \<Rightarrow> job_claim \<Rightarrow> string \<Rightarrow> bool \<Rightarrow> job_state option cdb" where
  "failJob env now claim detail permanent =
     (let ceiling = (if permanent then 1 else ce_maxAttempts env);
          fail_row = failedRow ceiling (boundedDetail detail) now in
      sm_bind (sm_get (ownedJob claim)) (\<lambda>owned.
      case owned of
        None \<Rightarrow> readJobState SqlNull
      | Some j \<Rightarrow>
          sm_bind (sm_modify (updateJob (j_id j) fail_row)) (\<lambda>_.
          readJobState (SqlText (stateName (j_state (fail_row j)))))))"

section \<open>The worker\<close>

definition sm_try :: "('s, 'e, 'a) sm \<Rightarrow> ('e \<Rightarrow> ('s, 'f, 'a) sm) \<Rightarrow> ('s, 'f, 'a) sm" where
  "sm_try m handler = (\<lambda>s. case m s of (Inl e, t) \<Rightarrow> handler e t | (Inr a, t) \<Rightarrow> (Inr a, t))"

definition sm_mapError :: "('e \<Rightarrow> 'f) \<Rightarrow> ('s, 'e, 'a) sm \<Rightarrow> ('s, 'f, 'a) sm" where
  "sm_mapError f m = sm_try m (\<lambda>e. sm_throw (f e))"

definition errorMessage :: "rt_error \<Rightarrow> string" where
  "errorMessage e =
     (case e of
        PairedDeviceRuntimeError _ message \<Rightarrow> message
      | PlainError message \<Rightarrow> message
      | RequestIdError _ \<Rightarrow> ''request_id must not exceed '' @ decimal maxRequestIdLength @ '' characters'')"

definition describeFailure :: "pass_error \<Rightarrow> string" where
  "describeFailure error =
     (case error of
        RenditionRenderError detail \<Rightarrow> detail
      | OtherError e \<Rightarrow> errorMessage e
      | NonErrorValue \<Rightarrow> ''the conversion failed with a non-error value'')"

record conversion_failure =
  cf_jobId :: string
  cf_variant :: string
  cf_detail :: string
  cf_state :: "job_state option"

datatype run_outcome =
    Idle
  | Completed string string completed_input
  | Failed conversion_failure
  | Stale string string

text \<open>
  What one pass meets: the clock at its statements, the rows other statements hold, the identifier it
  draws, the temporary directory, the bucket, the renderer, and what other processes did to the tables
  while it was fetching, rendering and storing.
\<close>

record pass_io =
  io_claimAt :: int
  io_endAt :: int
  io_locked :: "string list"
  io_newId :: string
  io_mkdtemp :: "rt_error + string"
  io_download :: "string \<Rightarrow> string \<Rightarrow> pass_error + unit"
  io_render :: render_env
  io_upload :: "string \<Rightarrow> string \<Rightarrow> string \<Rightarrow> pass_error + unit"
  io_meanwhile :: "conv_db \<Rightarrow> conv_db"

definition defaultMaxSourceBytes :: int where "defaultMaxSourceBytes = 8 * 1024 * 1024 * 1024"

definition passFail :: "conv_env \<Rightarrow> int \<Rightarrow> job_claim \<Rightarrow> string \<Rightarrow> bool \<Rightarrow> run_outcome cdb" where
  "passFail env now claim detail permanent =
     sm_bind (failJob env now claim detail permanent) (\<lambda>state.
     sm_return (Failed \<lparr>cf_jobId = jc_jobId claim, cf_variant = jc_variant claim, cf_detail = detail,
                        cf_state = state\<rparr>))"

text \<open>The body of the \<open>try\<close> block, in the directory the pass created.\<close>

definition convert ::
  "conv_env \<Rightarrow> pass_io \<Rightarrow> job_claim \<Rightarrow> rendition_spec \<Rightarrow> string \<Rightarrow> (conv_db, pass_error, run_outcome) sm" where
  "convert env io claim spec directory =
     (let sourcePath = directory @ ''/source'';
          outputPath = directory @ ''/rendition.'' @ sp_extension spec in
      sm_bind (sm_modify (io_meanwhile io)) (\<lambda>_.
      sm_bind (sm_lift (io_download io (jc_sourceStorageKey claim) sourcePath)) (\<lambda>_.
      sm_bind (sm_lift (renderRendition (io_render io)
        \<lparr>rq_sourcePath = sourcePath, rq_outputPath = outputPath, rq_spec = spec\<rparr>)) (\<lambda>rendered.
      let storageKey = renditionStorageKeyFor (jc_groupId claim) (jc_sourceContentHash claim) spec;
          input = \<lparr>ci_storageKey = storageKey, ci_mimeType = sp_mimeType spec,
                   ci_byteSize = rs_byteSize rendered, ci_width = int (rs_width rendered),
                   ci_height = int (rs_height rendered)\<rparr> in
      sm_bind (sm_lift (io_upload io storageKey outputPath (sp_mimeType spec))) (\<lambda>_.
      sm_bind (sm_mapError OtherError (completeJob env (io_newId io) (io_endAt io) claim input)) (\<lambda>done.
      if \<not> done then sm_return (Stale (jc_jobId claim) (jc_variant claim))
      else sm_return (Completed (jc_jobId claim) (jc_variant claim) input)))))))"

definition runOnce :: "conv_env \<Rightarrow> int \<Rightarrow> pass_io \<Rightarrow> run_outcome cdb" where
  "runOnce env maxSourceBytes io =
     sm_bind (claimNextJob env (io_locked io) (io_claimAt io)) (\<lambda>claimed.
     case claimed of
       None \<Rightarrow> sm_return Idle
     | Some claim \<Rightarrow>
         (case renditionSpecFor (jc_sourceMimeType claim) (jc_variant claim) of
            None \<Rightarrow> passFail env (io_endAt io) claim
              (''no rendition rung named '' @ jc_variant claim @ '' for '' @ jc_sourceMimeType claim) True
          | Some spec \<Rightarrow>
              if jc_sourceByteSize claim > maxSourceBytes
              then passFail env (io_endAt io) claim
                (''source of '' @ intText (jc_sourceByteSize claim) @ '' bytes exceeds the '' @
                 intText maxSourceBytes @ ''-byte conversion ceiling'') True
              else
                sm_bind (sm_lift (io_mkdtemp io)) (\<lambda>directory.
                sm_try (convert env io claim spec directory)
                  (\<lambda>error. passFail env (io_endAt io) claim (describeFailure error) False))))"

text \<open>The drain: pass \<open>n\<close> meets \<open>ios n\<close>.\<close>

fun drainFrom :: "conv_env \<Rightarrow> int \<Rightarrow> (nat \<Rightarrow> pass_io) \<Rightarrow> nat \<Rightarrow> nat \<Rightarrow> run_outcome list cdb" where
  "drainFrom env maxSourceBytes ios taken 0 = sm_return []"
| "drainFrom env maxSourceBytes ios taken (Suc left) =
     sm_bind (runOnce env maxSourceBytes (ios taken)) (\<lambda>out.
     if out = Idle then sm_return []
     else sm_bind (drainFrom env maxSourceBytes ios (Suc taken) left) (\<lambda>rest. sm_return (out # rest)))"

definition runUntilIdle :: "conv_env \<Rightarrow> int \<Rightarrow> (nat \<Rightarrow> pass_io) \<Rightarrow> nat \<Rightarrow> run_outcome list cdb" where
  "runUntilIdle env maxSourceBytes ios maxJobs = drainFrom env maxSourceBytes ios 0 maxJobs"

section \<open>The producers\<close>

text \<open>\<open>queueRenditionLadder\<close> of an upload's completion: a queue that refuses does not fail the upload.\<close>

definition queueRenditionLadder ::
  "conv_env \<Rightarrow> (nat \<Rightarrow> string) \<Rightarrow> int \<Rightarrow> string \<Rightarrow> string \<Rightarrow> string \<Rightarrow> string \<Rightarrow> string \<Rightarrow> unit cdb" where
  "queueRenditionLadder env newId now groupId deviceId materialId versionId mimeType =
     (let variants = map sp_variant (renditionLadderFor mimeType) in
      if length variants = 0 then sm_return ()
      else sm_try (sm_bind (enqueueRenditions env newId now groupId deviceId materialId versionId variants)
                     (\<lambda>_. sm_return ())) (\<lambda>_. sm_return ()))"

text \<open>\<open>resolveRendition\<close> of a preview grant: the rendition if it is built, and otherwise its job.\<close>

definition resolveRendition ::
  "conv_env \<Rightarrow> (nat \<Rightarrow> string) \<Rightarrow> int \<Rightarrow> string \<Rightarrow> string \<Rightarrow> string \<Rightarrow> string \<Rightarrow> string \<Rightarrow> string \<Rightarrow>
   rendition_record option cdb" where
  "resolveRendition env newId now groupId deviceId materialId versionId mimeType variant =
     (let requested = js_trim variant in
      if length requested = 0 then sm_return None
      else
        sm_bind (readRendition env groupId deviceId materialId versionId requested) (\<lambda>existing.
        if existing \<noteq> None then sm_return existing
        else if renditionSpecFor mimeType requested = None then sm_return None
        else sm_try (sm_bind (enqueueRenditions env newId now groupId deviceId materialId versionId [requested])
                       (\<lambda>_. sm_return None)) (\<lambda>_. sm_return None)))"

section \<open>Reading a rendered integer back\<close>

lemma is_digit_cases: "is_digit c \<Longrightarrow> c \<in> set ''0123456789''"
proof -
  assume "is_digit c"
  then have "(of_char c :: nat) \<in> of_char ` set ''0123456789''" by (simp add: is_digit_def) presburger
  then show ?thesis by (auto simp del: set_simps)
qed

lemma readBigInt_digits:
  assumes "list_all is_digit (c # cs)"
  shows "readBigInt (SqlText (c # cs)) field = Inr (int (undecimal (c # cs)))"
proof -
  have "c \<in> set ''0123456789''" using assms by (intro is_digit_cases) simp
  then consider "c = CHR ''0''" | "c = CHR ''1''" | "c = CHR ''2''" | "c = CHR ''3''" | "c = CHR ''4''"
    | "c = CHR ''5''" | "c = CHR ''6''" | "c = CHR ''7''" | "c = CHR ''8''" | "c = CHR ''9''"
    by auto
  then show ?thesis using assms by cases (simp_all add: readBigInt_def)
qed

lemma readBigInt_intText: "readBigInt (SqlText (intText n)) field = Inr n"
proof (cases "n < 0")
  case True
  then show ?thesis
    using decimal_digits[of "nat (- n)"] decimal_nonempty[of "nat (- n)"]
    by (simp add: readBigInt_def intText_def list_all_iff)
next
  case False
  obtain c cs where d: "decimal (nat n) = c # cs" using decimal_nonempty[of "nat n"] by (cases "decimal (nat n)") auto
  have "\<forall>x \<in> set (c # cs). is_digit x" using decimal_digits[of "nat n"] d by simp
  moreover have "undecimal (c # cs) = nat n" using d undecimal_decimal[of "nat n"] by simp
  ultimately show ?thesis
    using False d readBigInt_digits[of c cs field] by (simp add: intText_def list_all_iff)
qed

end
