(* ===== verification/Conversion_Invariant.thy ===== *)
theory Conversion_Invariant
  imports Conversion_Queue
begin

text \<open>
  The conversion queue as a transition system: what each statement does to the tables, the step relation
  in which statements of any number of processes interleave, and the invariant of the reachable tables.
\<close>

section \<open>Effects of the statements\<close>

abbreviation jobKey :: "job_row \<Rightarrow> string \<times> string" where
  "jobKey j \<equiv> (j_versionId j, j_kind j)"

abbreviation renditionKey :: "rendition_row \<Rightarrow> string \<times> string" where
  "renditionKey r \<equiv> (r_versionId r, r_variant r)"

lemma set_sort_key_hd:
  "sort_key f xs = y # ys \<Longrightarrow> y \<in> set xs \<and> (\<forall>x \<in> set xs. f y \<le> f x)"
proof -
  assume s: "sort_key f xs = y # ys"
  have "set (y # ys) = set xs" using s by (metis set_sort)
  moreover have "sorted (map f (y # ys))" using s by (metis sorted_sort_key)
  ultimately show ?thesis by (metis (mono_tags) list.set_intros(1) list.simps(9) order_refl set_ConsD
      sorted_simps(2) image_eqI list.set_map)
qed

lemma nextJob_Some:
  assumes "nextJob env locked now db = Some j"
  shows "j \<in> set (cv_jobs db)" and "claimable env now db j" and "j_id j \<notin> set locked"
    and "\<And>k. k \<in> set (cv_jobs db) \<Longrightarrow> claimable env now db k \<Longrightarrow> j_id k \<notin> set locked \<Longrightarrow>
           (j_createdAt j, j_id j) \<le> (j_createdAt k, j_id k)"
proof -
  obtain ys where "sort_key (\<lambda>j. (j_createdAt j, j_id j))
      (filter (\<lambda>j. claimable env now db j \<and> j_id j \<notin> set locked) (cv_jobs db)) = j # ys"
    using assms by (auto simp: nextJob_def split: list.splits)
  from set_sort_key_hd[OF this]
  show "j \<in> set (cv_jobs db)" and "claimable env now db j" and "j_id j \<notin> set locked"
    and "\<And>k. k \<in> set (cv_jobs db) \<Longrightarrow> claimable env now db k \<Longrightarrow> j_id k \<notin> set locked \<Longrightarrow>
           (j_createdAt j, j_id j) \<le> (j_createdAt k, j_id k)"
    by auto
qed

lemma nextJob_None:
  "nextJob env locked now db = None \<longleftrightarrow>
     (\<forall>j \<in> set (cv_jobs db). claimable env now db j \<longrightarrow> j_id j \<in> set locked)"
proof -
  define ks where "ks = filter (\<lambda>j. claimable env now db j \<and> j_id j \<notin> set locked) (cv_jobs db)"
  have "nextJob env locked now db = None \<longleftrightarrow> sort_key (\<lambda>j. (j_createdAt j, j_id j)) ks = []"
    by (simp add: nextJob_def ks_def split: list.split)
  also have "\<dots> \<longleftrightarrow> ks = []" by (metis length_0_conv length_sort)
  finally show ?thesis by (auto simp: ks_def filter_empty_conv)
qed

lemma claimable_source: "claimable env now db j \<Longrightarrow> \<exists>v key. jobSource db j = Some (v, key)"
  by (auto simp: claimable_def)

lemma claimNextJob_cases:
  obtains "nextJob env locked now db = None" and "claimNextJob env locked now db = (Inr None, db)"
  | j v key where "nextJob env locked now db = Some j" and "jobSource db j = Some (v, key)"
      and "claimNextJob env locked now db =
        (case readClaim env (claimedRow env now j) v key of Inl e \<Rightarrow> Inl e | Inr c \<Rightarrow> Inr (Some c),
         updateJob (j_id j) (claimedRow env now) db)"
proof (cases "nextJob env locked now db")
  case None
  then show ?thesis using that(1) by (simp add: claimNextJob_def)
next
  case (Some j)
  obtain v key where src: "jobSource db j = Some (v, key)"
    using claimable_source[OF nextJob_Some(2)[OF Some]] by blast
  have "claimNextJob env locked now db =
        (case readClaim env (claimedRow env now j) v key of Inl e \<Rightarrow> Inl e | Inr c \<Rightarrow> Inr (Some c),
         updateJob (j_id j) (claimedRow env now) db)"
    by (simp add: claimNextJob_def Some src sm_bind_def sm_lift_def sm_modify_def sm_get_def sm_return_def split: sum.split)
  with Some src show ?thesis using that(2) by blast
qed

lemma readClaim_fields:
  assumes "readClaim env j v key = Inr c"
  shows "jc_jobId c = j_id j" and "jc_groupId c = j_groupId j" and "jc_versionId c = j_versionId j"
    and "jc_variant c = j_kind j" and "readInteger (ce_int env (int (j_attempt j))) ''attempt'' = Inr (jc_attempt c)"
    and "jc_sourceMimeType c = vr_mimeType v" and "jc_sourceContentHash c = vr_contentHash v"
    and "jc_sourceStorageKey c = key"
  using assms by (auto simp: readClaim_def readText_def split: sum.splits if_splits)

lemma ownedJob_Some:
  assumes "ownedJob c db = Some j"
  shows "j \<in> set (cv_jobs db)" and "j_id j = jc_jobId c" and "int (j_attempt j) = jc_attempt c"
    and "j_state j = RUNNING"
  using find_SomeD[OF assms[unfolded ownedJob_def]] by auto

lemma completeJob_cases:
  obtains (same) r where "completeJob env newId now c input db = (r, db)"
      and "r = Inr True \<Longrightarrow> readBoolean (ce_bool env False) ''completed'' = Inr True \<and> ownedJob c db = None"
  | (finished) j rs where "castsFit input" and "ownedJob c db = Some j"
      and "upsertRendition (renditionRow newId now j input) (cv_renditions db) = Inr rs"
      and "completeJob env newId now c input db =
        (readBoolean (ce_bool env True) ''completed'',
         (updateJob (j_id j) (finishedRow now) db)\<lparr>cv_renditions := rs\<rparr>)"
proof (cases "castsFit input")
  case False
  then show ?thesis using that(1) by (simp add: completeJob_def)
next
  case fit: True
  show ?thesis
  proof (cases "ownedJob c db")
    case None
    then show ?thesis using that(1) fit by (simp add: completeJob_def sm_lift_def)
  next
    case (Some j)
    show ?thesis
    proof (cases "upsertRendition (renditionRow newId now j input) (cv_renditions db)")
      case (Inl e)
      then show ?thesis using that(1) fit Some by (simp add: completeJob_def)
    next
      case (Inr rs)
      have "completeJob env newId now c input db =
        (readBoolean (ce_bool env True) ''completed'',
         (updateJob (j_id j) (finishedRow now) db)\<lparr>cv_renditions := rs\<rparr>)"
        using fit Some Inr by (simp add: completeJob_def) (simp add: sm_lift_def)
      with fit Some Inr show ?thesis using that(2) by blast
    qed
  qed
qed

lemma toJobState_stateName [simp]: "toJobState (stateName s) = Inr s"
  by (cases s) (simp_all add: toJobState_def)

lemma stateName_nonempty [simp]: "stateName s \<noteq> []"
  by (cases s) simp_all

lemma readJobState_simps [simp]:
  "readJobState SqlNull s = (Inr None, s)"
  "readJobState (SqlText (stateName st)) s = (Inr (Some st), s)"
  by (simp_all add: readJobState_def readOptionalText_def)

lemma failJob_eq:
  "failJob env now c detail permanent db =
     (case ownedJob c db of
        None \<Rightarrow> (Inr None, db)
      | Some j \<Rightarrow>
          let row = failedRow (if permanent then 1 else ce_maxAttempts env) (boundedDetail detail) now
          in (Inr (Some (j_state (row j))), updateJob (j_id j) row db))"
  by (simp add: failJob_def Let_def split: option.split)

lemma insertJobs_Inr:
  assumes "insertJobs new jobs = Inr (jobs', kinds)" and "distinct (map j_id jobs)" and "distinct (map jobKey jobs)"
  shows "\<exists>added. jobs' = jobs @ added \<and> set added \<subseteq> set new \<and> kinds = map j_kind added \<and>
     distinct (map j_id jobs') \<and> distinct (map jobKey jobs') \<and>
     jobKey ` set jobs' = jobKey ` set jobs \<union> jobKey ` set new"
  using assms
proof (induction new jobs arbitrary: jobs' kinds rule: insertJobs.induct)
  case (1 jobs)
  then show ?case by simp
next
  case (2 j js jobs)
  show ?case
  proof (cases "hasJob (j_versionId j) (j_kind j) jobs")
    case True
    then obtain added where ih: "jobs' = jobs @ added" "set added \<subseteq> set js" "kinds = map j_kind added"
       "distinct (map j_id jobs')" "distinct (map jobKey jobs')"
       "jobKey ` set jobs' = jobKey ` set jobs \<union> jobKey ` set js"
      using 2 by auto
    have "jobKey j \<in> jobKey ` set jobs"
      using True by (auto simp: hasJob_def list_ex_iff intro!: rev_image_eqI)
    then have "jobKey ` set jobs' = jobKey ` set jobs \<union> jobKey ` set (j # js)"
      using ih(6) by auto
    moreover have "set added \<subseteq> set (j # js)" using ih(2) by auto
    ultimately show ?thesis using ih(1,3-5) by (intro exI[of _ added] conjI)
  next
    case False
    then have fresh: "\<not> list_ex (\<lambda>k. j_id k = j_id j) jobs"
      using 2 by (auto split: if_splits)
    with False 2(3) obtain kinds' where rec: "insertJobs js (jobs @ [j]) = Inr (jobs', kinds')" "kinds = j_kind j # kinds'"
      by (auto split: sum.splits)
    have "distinct (map j_id (jobs @ [j]))" and "distinct (map jobKey (jobs @ [j]))"
      using 2(4,5) fresh False by (auto simp: list_ex_iff hasJob_def)
    with 2(2)[OF _ _ rec(1)] False fresh obtain added where "jobs' = (jobs @ [j]) @ added" "set added \<subseteq> set js"
      "kinds' = map j_kind added" "distinct (map j_id jobs')" "distinct (map jobKey jobs')"
      "jobKey ` set jobs' = jobKey ` set (jobs @ [j]) \<union> jobKey ` set js" by auto
    with rec(2) show ?thesis by (intro exI[of _ "j # added"]) auto
  qed
qed

lemma insertJobs_added:
  assumes "insertJobs new jobs = Inr (jobs', kinds)" and "distinct (map j_id jobs)" and "distinct (map jobKey jobs)"
  obtains added where "jobs' = jobs @ added" and "set added \<subseteq> set new" and "distinct (map j_id jobs')"
    and "distinct (map jobKey jobs')"
  using insertJobs_Inr[OF assms] by (elim exE conjE) (rule that)

section \<open>The step relation\<close>

text \<open>
  What the rest of the control plane does to the tables: anything to memberships, materials, versions and
  objects, and the cascade of a deleted version onto its jobs and renditions.
\<close>

definition cascade :: "(string \<Rightarrow> bool) \<Rightarrow> conv_db \<Rightarrow> conv_db \<Rightarrow> bool" where
  "cascade keep db db' \<longleftrightarrow>
     cv_jobs db' = filter (\<lambda>j. keep (j_versionId j)) (cv_jobs db) \<and>
     cv_renditions db' = filter (\<lambda>r. keep (r_versionId r)) (cv_renditions db)"

text \<open>
  A state is the tables and the job identifiers drawn so far. Statements of any number of processes
  interleave; a worker is the claims it presents, restricted by \<open>allowed\<close> where a theorem speaks of
  workers that are gone, and claims are made at the times \<open>during\<close> admits. Fresh identifiers do not repeat one drawn before, as random ones do not.
\<close>

type_synonym conv_state = "conv_db \<times> string set"

inductive conv_step :: "conv_env \<Rightarrow> (job_claim \<Rightarrow> bool) \<Rightarrow> (int \<Rightarrow> bool) \<Rightarrow> conv_state \<Rightarrow> conv_state \<Rightarrow> bool"
  for env allowed during where
  step_enqueue: "newId ` {..<length (requestedVariants vs)} \<inter> used = {} \<Longrightarrow>
     conv_step env allowed during (db, used)
       (snd (enqueueRenditions env newId now g d m v vs db), used \<union> newId ` {..<length (requestedVariants vs)})"
| step_claim: "during now \<Longrightarrow> conv_step env allowed during (db, used) (snd (claimNextJob env locked now db), used)"
| step_complete: "allowed c \<Longrightarrow>
     conv_step env allowed during (db, used) (snd (completeJob env newId now c input db), used)"
| step_fail: "allowed c \<Longrightarrow>
     conv_step env allowed during (db, used) (snd (failJob env now c detail permanent db), used)"
| step_elsewhere: "cascade keep db db' \<Longrightarrow> conv_step env allowed during (db, used) (db', used)"

text \<open>What a statement does to the jobs and the renditions, whatever its answer.\<close>

inductive queue_move :: "conv_env \<Rightarrow> (job_claim \<Rightarrow> bool) \<Rightarrow> (int \<Rightarrow> bool) \<Rightarrow> conv_state \<Rightarrow> conv_state \<Rightarrow> bool"
  for env allowed during where
  move_none: "used \<subseteq> used' \<Longrightarrow> queue_move env allowed during (db, used) (db, used')"
| move_add: "insertJobs (map (newJob g m v now) (zip ids kinds)) (cv_jobs db) = Inr (jobs', queued) \<Longrightarrow>
     set ids \<inter> used = {} \<Longrightarrow> set ids \<subseteq> used' \<Longrightarrow> used \<subseteq> used' \<Longrightarrow>
     queue_move env allowed during (db, used) (db\<lparr>cv_jobs := jobs'\<rparr>, used')"
| move_claim: "during now \<Longrightarrow> nextJob env locked now db = Some j \<Longrightarrow>
     queue_move env allowed during (db, used) (updateJob (j_id j) (claimedRow env now) db, used)"
| move_complete: "allowed c \<Longrightarrow> ownedJob c db = Some j \<Longrightarrow>
     upsertRendition (renditionRow newId now j input) (cv_renditions db) = Inr rs \<Longrightarrow>
     queue_move env allowed during (db, used) ((updateJob (j_id j) (finishedRow now) db)\<lparr>cv_renditions := rs\<rparr>, used)"
| move_fail: "allowed c \<Longrightarrow> ownedJob c db = Some j \<Longrightarrow>
     queue_move env allowed during (db, used)
       (updateJob (j_id j) (failedRow (if permanent then 1 else ce_maxAttempts env) detail now) db, used)"
| move_cascade: "cascade keep db db' \<Longrightarrow> queue_move env allowed during (db, used) (db', used)"

inductive_cases queue_moveE: "queue_move env allowed during (db, used) (db', used')"

lemma enqueue_result:
  obtains (kept) r where "enqueueRenditions env newId now g d m v vs db = (r, db)" and "r \<noteq> Inr [] \<Longrightarrow> \<exists>e. r = Inl e"
  | (added) mid vid kinds jobs' queued r where
      "insertJobs (map (newJob g mid vid now) (zip (map newId [0 ..< length (requestedVariants vs)]) kinds))
         (cv_jobs db) = Inr (jobs', queued)"
      and "versionTarget db g d mid vid"
      and "enqueueRenditions env newId now g d m v vs db = (r, db\<lparr>cv_jobs := jobs'\<rparr>)"
proof -
  let ?n = "length (requestedVariants vs)"
  let ?run = "enqueueRenditions env newId now g d m v vs db"
  consider (empty) "?n = 0" | (nomat) e where "?n \<noteq> 0" "requireIdentifier m ''material_id'' = Inl e"
    | (nover) mid e where "?n \<noteq> 0" "requireIdentifier m ''material_id'' = Inr mid"
        "requireIdentifier v ''version_id'' = Inl e"
    | (run) mid vid where "?n \<noteq> 0" "requireIdentifier m ''material_id'' = Inr mid"
        "requireIdentifier v ''version_id'' = Inr vid"
    by (cases "requireIdentifier m ''material_id''"; cases "requireIdentifier v ''version_id''") auto
  then show ?thesis
  proof cases
    case empty
    then show ?thesis using kept[of "Inr []"] by (simp add: enqueueRenditions_def Let_def)
  next
    case (nomat e)
    then show ?thesis using kept[of "Inl e"] by (simp add: enqueueRenditions_def Let_def)
  next
    case (nover mid e)
    then show ?thesis using kept[of "Inl e"] by (simp add: enqueueRenditions_def Let_def)
  next
    case (run mid vid)
    show ?thesis
    proof (cases "ce_uuid env mid = None \<or> ce_uuid env vid = None \<or>
        ce_textArray env (toTextArrayLiteral (requestedVariants vs)) = None")
      case True
      with run show ?thesis using kept[of "Inl driverError"]
        by (auto simp: enqueueRenditions_def Let_def split: option.splits)
    next
      case False
      then obtain mu vu kinds where dec: "ce_uuid env mid = Some mu" "ce_uuid env vid = Some vu"
        "ce_textArray env (toTextArrayLiteral (requestedVariants vs)) = Some kinds" by auto
      let ?new = "map (newJob g mu vu now) (zip (map newId [0 ..< ?n]) kinds)"
      show ?thesis
      proof (cases "versionTarget db g d mu vu")
        case target: True
        show ?thesis
        proof (cases "insertJobs ?new (cv_jobs db)")
          case (Inl e)
          then show ?thesis using kept[of "Inl e"] run dec target by (simp add: enqueueRenditions_def Let_def)
        next
          case (Inr p)
          obtain jobs' queued where p: "p = (jobs', queued)" by (cases p)
          have "snd ?run = db\<lparr>cv_jobs := jobs'\<rparr>"
            using run dec target Inr p
            by (simp add: enqueueRenditions_def Let_def assertMember_def sm_bind_def sm_lift_def sm_get_def sm_modify_def sm_require_def
                sm_return_def sm_throw_def split: sum.split)
          then show ?thesis using added[OF Inr[unfolded p] target] by (metis prod.collapse)
        qed
      next
        case False
        then have "snd ?run = db" and "fst ?run = Inr [] \<or> (\<exists>e. fst ?run = Inl e)"
          using run dec
          by (auto simp: enqueueRenditions_def Let_def assertMember_def sm_bind_def sm_lift_def sm_get_def sm_modify_def sm_require_def js_sort_def
                sm_return_def sm_throw_def split: sum.split)
        then show ?thesis using kept[of "fst ?run"] by (metis prod.collapse)
      qed
    qed
  qed
qed

lemma step_move:
  assumes "conv_step env allowed during (db, used) (db', used')"
  shows "queue_move env allowed during (db, used) (db', used')"
  using assms
proof (cases rule: conv_step.cases)
  case (step_enqueue newId vs now g d m v)
  show ?thesis
    by (rule enqueue_result[of env newId now g d m v vs db])
       (use step_enqueue in \<open>auto intro!: queue_move.intros simp: atLeast0LessThan\<close>)
next
  case (step_claim now locked)
  show ?thesis
    by (rule claimNextJob_cases[of env locked now db]) (use step_claim in \<open>auto intro: queue_move.intros\<close>)
next
  case (step_complete c newId now input)
  show ?thesis
    by (rule completeJob_cases[of env newId now c input db])
       (use step_complete in \<open>auto intro: queue_move.intros\<close>)
next
  case (step_fail c now detail permanent)
  show ?thesis
  proof (cases "ownedJob c db")
    case None
    with step_fail show ?thesis by (simp add: failJob_eq queue_move.intros)
  next
    case (Some j)
    with step_fail show ?thesis
      by (simp only: failJob_eq Let_def option.case snd_conv) (rule queue_move.move_fail)
  qed
next
  case (step_elsewhere keep)
  then show ?thesis by (auto intro: queue_move.intros)
qed

section \<open>The invariant\<close>

definition rendered :: "conv_db \<Rightarrow> string \<times> string \<Rightarrow> bool" where
  "rendered db k \<longleftrightarrow> k \<in> renditionKey ` set (cv_renditions db)"

text \<open>
  The life of a job: a waiting job has attempts left, a lease belongs to a running job and to no other, and
  a job is completed exactly when its rendition is recorded.
\<close>

definition job_ok :: "conv_env \<Rightarrow> conv_db \<Rightarrow> job_row \<Rightarrow> bool" where
  "job_ok env db j \<longleftrightarrow>
     j_attempt j \<le> ce_maxAttempts env \<and>
     (j_state j = RUNNING \<longleftrightarrow> j_leaseExpiresAt j \<noteq> None) \<and>
     (j_state j = PENDING \<longrightarrow> j_attempt j < ce_maxAttempts env) \<and>
     (j_state j \<noteq> PENDING \<longrightarrow> 0 < j_attempt j) \<and>
     (j_state j = COMPLETED \<longleftrightarrow> rendered db (jobKey j)) \<and>
     (j_state j = FAILED \<longrightarrow> j_detail j \<noteq> None)"

definition rendition_ok :: "rendition_row \<Rightarrow> bool" where
  "rendition_ok r \<longleftrightarrow> 0 < r_byteSize r \<and> 0 \<le> r_width r \<and> 0 \<le> r_height r"

definition conv_wf :: "conv_env \<Rightarrow> conv_state \<Rightarrow> bool" where
  "conv_wf env s \<longleftrightarrow>
     0 < ce_maxAttempts env \<and>
     distinct (map j_id (cv_jobs (fst s))) \<and> distinct (map jobKey (cv_jobs (fst s))) \<and>
     distinct (map renditionKey (cv_renditions (fst s))) \<and>
     j_id ` set (cv_jobs (fst s)) \<subseteq> snd s \<and>
     renditionKey ` set (cv_renditions (fst s)) \<subseteq> jobKey ` set (cv_jobs (fst s)) \<and>
     (\<forall>j \<in> set (cv_jobs (fst s)). job_ok env (fst s) j) \<and>
     (\<forall>r \<in> set (cv_renditions (fst s)). rendition_ok r)"

lemma updateJob_tables [simp]:
  "cv_renditions (updateJob i f db) = cv_renditions db"
  "cv_jobs (updateJob i f db) = map (\<lambda>j. if j_id j = i then f j else j) (cv_jobs db)"
  by (simp_all add: updateJob_def)

lemma map_update_same:
  assumes "\<And>j. g (f j) = g j"
  shows "map g (map (\<lambda>j. if j_id j = i then f j else j) jobs) = map g jobs"
  using assms by simp

lemma row_updates [simp]:
  "j_id (claimedRow env now j) = j_id j" "j_id (finishedRow now j) = j_id j" "j_id (failedRow n d now j) = j_id j"
  "j_versionId (claimedRow env now j) = j_versionId j" "j_versionId (finishedRow now j) = j_versionId j"
  "j_versionId (failedRow n d now j) = j_versionId j"
  "j_kind (claimedRow env now j) = j_kind j" "j_kind (finishedRow now j) = j_kind j"
  "j_kind (failedRow n d now j) = j_kind j"
  by (simp_all add: claimedRow_def finishedRow_def failedRow_def)

lemma distinct_key_unique:
  assumes "distinct (map k xs)" and "x \<in> set xs" and "y \<in> set xs" and "k x = k y"
  shows "x = y"
  using assms by (meson eq_key_imp_eq_value distinct_map inj_onD)

text \<open>One row changes, keeping its identity.\<close>

lemma wf_update:
  assumes wf: "conv_wf env (db, used)" and j: "j \<in> set (cv_jobs db)"
    and f: "\<And>k. j_id (f k) = j_id k" "\<And>k. jobKey (f k) = jobKey k"
    and keys: "renditionKey ` set rs = renditionKey ` set (cv_renditions db) \<union> K"
    and K: "K \<subseteq> {jobKey j}"
    and rs: "distinct (map renditionKey rs)" "\<forall>r \<in> set rs. rendition_ok r"
    and ok: "job_ok env ((updateJob (j_id j) f db)\<lparr>cv_renditions := rs\<rparr>) (f j)"
  shows "conv_wf env ((updateJob (j_id j) f db)\<lparr>cv_renditions := rs\<rparr>, used)"
proof -
  let ?db = "(updateJob (j_id j) f db)\<lparr>cv_renditions := rs\<rparr>"
  let ?jobs = "map (\<lambda>k. if j_id k = j_id j then f k else k) (cv_jobs db)"
  note w = wf[unfolded conv_wf_def fst_conv snd_conv]
  have ids: "map j_id ?jobs = map j_id (cv_jobs db)" and jks: "map jobKey ?jobs = map jobKey (cv_jobs db)"
    by (rule map_update_same, rule f)+
  have jk_set: "jobKey ` set ?jobs = jobKey ` set (cv_jobs db)" and id_set: "j_id ` set ?jobs = j_id ` set (cv_jobs db)"
    using arg_cong[OF jks, of set] arg_cong[OF ids, of set] by (simp_all only: set_map)
  have others: "job_ok env ?db k" if k: "k \<in> set (cv_jobs db)" and ne: "j_id k \<noteq> j_id j" for k
  proof -
    have "jobKey k \<noteq> jobKey j"
      using distinct_key_unique[of jobKey "cv_jobs db" k j] w k j ne by auto
    then have "rendered ?db (jobKey k) \<longleftrightarrow> rendered db (jobKey k)"
      using keys K by (auto simp: rendered_def)
    moreover have "job_ok env db k" using w k by blast
    ultimately show ?thesis by (simp add: job_ok_def)
  qed
  have "\<forall>k \<in> set ?jobs. job_ok env ?db k"
  proof
    fix k assume "k \<in> set ?jobs"
    then obtain i where i: "i \<in> set (cv_jobs db)" "k = (if j_id i = j_id j then f i else i)" by auto
    show "job_ok env ?db k"
    proof (cases "j_id i = j_id j")
      case True
      then have "i = j" using distinct_key_unique[of j_id "cv_jobs db" i j] w i(1) j by blast
      with ok i True show ?thesis by simp
    next
      case False
      with others i show ?thesis by simp
    qed
  qed
  moreover have "renditionKey ` set rs \<subseteq> jobKey ` set ?jobs"
    using keys K w j jk_set by auto
  moreover have "cv_jobs ?db = ?jobs" and "cv_renditions ?db = rs" by simp_all
  ultimately show ?thesis
    unfolding conv_wf_def fst_conv snd_conv using w rs by (simp only: ids jks id_set simp_thms)
qed

lemma upsertRendition_Inr:
  assumes "upsertRendition r rs = Inr rs'" and "distinct (map renditionKey rs)" and "\<forall>x \<in> set rs. rendition_ok x"
  shows "renditionKey ` set rs' = renditionKey ` set rs \<union> {renditionKey r}" and "distinct (map renditionKey rs')"
    and "\<forall>x \<in> set rs'. rendition_ok x"
proof -
  let ?hit = "\<lambda>x. r_versionId x = r_versionId r \<and> r_variant x = r_variant r"
  let ?put = "\<lambda>x. if ?hit x then x\<lparr>r_storageKey := r_storageKey r, r_mimeType := r_mimeType r,
     r_byteSize := r_byteSize r, r_width := r_width r, r_height := r_height r, r_updatedAt := r_updatedAt r\<rparr> else x"
  have ok: "rendition_ok r" using assms(1) by (auto simp: upsertRendition_def rendition_ok_def split: if_splits)
  consider (old) "list_ex ?hit rs" "rs' = map ?put rs" | (new) "\<not> list_ex ?hit rs" "rs' = rs @ [r]"
    using assms(1) by (auto simp: upsertRendition_def split: if_splits)
  then have "renditionKey ` set rs' = renditionKey ` set rs \<union> {renditionKey r} \<and>
     distinct (map renditionKey rs') \<and> (\<forall>x \<in> set rs'. rendition_ok x)"
  proof cases
    case old
    have keys: "map renditionKey rs' = map renditionKey rs" using old(2) by simp
    then have "renditionKey ` set rs' = renditionKey ` set rs" by (metis list.set_map)
    moreover have "renditionKey r \<in> renditionKey ` set rs"
      using old(1) by (auto simp: list_ex_iff intro!: rev_image_eqI)
    moreover have "\<forall>x \<in> set rs'. rendition_ok x"
      using assms(3) ok old(2) by (auto simp: rendition_ok_def)
    ultimately show ?thesis using assms(2) keys by (simp add: insert_absorb)
  next
    case new
    with assms(2,3) ok show ?thesis by (auto simp: list_ex_iff)
  qed
  then show "renditionKey ` set rs' = renditionKey ` set rs \<union> {renditionKey r}" and "distinct (map renditionKey rs')"
    and "\<forall>x \<in> set rs'. rendition_ok x" by auto
qed

lemma wf_update_jobs:
  assumes wf: "conv_wf env (db, used)" and j: "j \<in> set (cv_jobs db)"
    and f: "\<And>k. j_id (f k) = j_id k" "\<And>k. jobKey (f k) = jobKey k"
    and ok: "job_ok env db (f j)"
  shows "conv_wf env (updateJob (j_id j) f db, used)"
proof -
  have same: "(updateJob (j_id j) f db)\<lparr>cv_renditions := cv_renditions db\<rparr> = updateJob (j_id j) f db"
    by (simp add: updateJob_def)
  have row: "job_ok env ((updateJob (j_id j) f db)\<lparr>cv_renditions := cv_renditions db\<rparr>) (f j)"
    unfolding same using ok by (simp add: job_ok_def rendered_def)
  have "distinct (map renditionKey (cv_renditions db))" and "\<forall>r \<in> set (cv_renditions db). rendition_ok r"
    using wf by (simp_all add: conv_wf_def)
  from wf_update[OF wf j f _ _ this row, of "{}"] show ?thesis unfolding same by simp
qed

lemma move_wf:
  assumes "queue_move env allowed during (db, used) (db', used')" and wf: "conv_wf env (db, used)"
  shows "conv_wf env (db', used')"
  using assms(1)
proof (cases rule: queue_move.cases)
  case move_none
  with wf show ?thesis by (auto simp: conv_wf_def)
next
  case (move_add g m v now ids kinds jobs' queued)
  note w = wf[unfolded conv_wf_def fst_conv snd_conv]
  let ?new = "map (newJob g m v now) (zip ids kinds)"
  have "distinct (map j_id (cv_jobs db))" and "distinct (map jobKey (cv_jobs db))" using w by simp_all
  then obtain added where a: "jobs' = cv_jobs db @ added" "set added \<subseteq> set ?new"
    "distinct (map j_id jobs')" "distinct (map jobKey jobs')"
    by (rule insertJobs_added[OF move_add(2)])
  have new: "j_id j \<in> set ids \<and> j_state j = PENDING \<and> j_attempt j = 0 \<and> j_leaseExpiresAt j = None"
    if "j \<in> set added" for j
    using that a(2) by (auto simp: newJob_def dest!: subsetD dest: set_zip_leftD)
  have "job_ok env db' j" if "j \<in> set jobs'" for j
  proof (cases "j \<in> set (cv_jobs db)")
    case True
    with w have "job_ok env db j" by blast
    then show ?thesis using move_add(1) by (simp add: job_ok_def rendered_def)
  next
    case False
    with that a(1) have j: "j \<in> set added" by auto
    then have "jobKey j \<notin> jobKey ` set (cv_jobs db)" using a(1,4) by auto
    then have "\<not> rendered db' (jobKey j)" using w move_add(1) by (auto simp: rendered_def)
    with new[OF j] w show ?thesis by (simp add: job_ok_def)
  qed
  moreover have "j_id ` set jobs' \<subseteq> used'" using a(1) new w move_add(4,5) by auto
  ultimately show ?thesis using w a move_add(1) by (auto simp: conv_wf_def)
next
  case (move_claim now locked j)
  note n = nextJob_Some[OF move_claim(4)]
  have "job_ok env db j" using wf n(1) by (simp add: conv_wf_def)
  then have "job_ok env db (claimedRow env now j)"
    using n(2) by (auto simp: job_ok_def claimable_def claimedRow_def rendered_def)
  with wf_update_jobs[OF wf n(1), of "claimedRow env now"] move_claim show ?thesis by simp
next
  case (move_complete c j newId now input rs)
  note o = ownedJob_Some[OF move_complete(4)]
  have old: "job_ok env db j" using wf o(1) by (simp add: conv_wf_def)
  let ?r = "renditionRow newId now j input"
  have key: "renditionKey ?r = jobKey j" by (simp add: renditionRow_def)
  have "distinct (map renditionKey (cv_renditions db))" and "\<forall>r \<in> set (cv_renditions db). rendition_ok r"
    using wf by (simp_all add: conv_wf_def)
  note u = upsertRendition_Inr[OF move_complete(5) this, unfolded key]
  have "job_ok env ((updateJob (j_id j) (finishedRow now) db)\<lparr>cv_renditions := rs\<rparr>) (finishedRow now j)"
    using old o(4) u(1) by (auto simp: job_ok_def finishedRow_def rendered_def)
  from wf_update[OF wf o(1) _ _ u(1) _ u(2,3) this] move_complete show ?thesis by simp
next
  case (move_fail c j permanent detail now)
  note o = ownedJob_Some[OF move_fail(4)]
  let ?f = "failedRow (if permanent then 1 else ce_maxAttempts env) detail now"
  have "job_ok env db j" using wf o(1) by (simp add: conv_wf_def)
  then have "job_ok env db (?f j)"
    using o(4) wf by (auto simp: job_ok_def failedRow_def rendered_def conv_wf_def)
  with wf_update_jobs[OF wf o(1), of ?f] move_fail show ?thesis by simp
next
  case (move_cascade keep)
  then have t: "cv_jobs db' = filter (\<lambda>j. keep (j_versionId j)) (cv_jobs db)"
    "cv_renditions db' = filter (\<lambda>r. keep (r_versionId r)) (cv_renditions db)" by (simp_all add: cascade_def)
  have keys: "renditionKey ` set (cv_renditions db') \<subseteq> jobKey ` set (cv_jobs db')"
  proof
    fix k assume "k \<in> renditionKey ` set (cv_renditions db')"
    then obtain r where r: "r \<in> set (cv_renditions db)" "keep (r_versionId r)" "k = renditionKey r" using t by auto
    then have "renditionKey r \<in> jobKey ` set (cv_jobs db)" using wf by (auto simp: conv_wf_def)
    then obtain j where "j \<in> set (cv_jobs db)" "jobKey j = renditionKey r" by auto
    with r t show "k \<in> jobKey ` set (cv_jobs db')" by (auto intro!: image_eqI)
  qed
  have "job_ok env db' j" if "j \<in> set (cv_jobs db')" for j
  proof -
    have "keep (j_versionId j)" and "job_ok env db j" using that t wf by (auto simp: conv_wf_def)
    then show ?thesis using t by (auto simp: job_ok_def rendered_def)
  qed
  moreover have "distinct (map j_id (cv_jobs db'))" "distinct (map jobKey (cv_jobs db'))"
    "distinct (map renditionKey (cv_renditions db'))"
    using wf t by (simp_all add: conv_wf_def distinct_map_filter)
  ultimately show ?thesis using wf t keys move_cascade by (auto simp: conv_wf_def)
qed

lemma step_wf: "conv_wf env s \<Longrightarrow> conv_step env allowed during s t \<Longrightarrow> conv_wf env t"
  by (cases s; cases t) (metis move_wf step_move)

definition no_jobs :: "conv_env \<Rightarrow> conv_state \<Rightarrow> bool" where
  "no_jobs env s \<longleftrightarrow> 0 < ce_maxAttempts env \<and> cv_jobs (fst s) = [] \<and> cv_renditions (fst s) = []"

lemma no_jobs_wf: "no_jobs env s \<Longrightarrow> conv_wf env s"
  by (simp add: no_jobs_def conv_wf_def)

interpretation queue: invariant_system "no_jobs env" "conv_step env allowed during" "conv_wf env" for env allowed during
  by unfold_locales (auto intro: no_jobs_wf step_wf)

end
