(* ===== verification/Conversion_Correct.thy ===== *)
theory Conversion_Correct
  imports Conversion_Invariant
begin

text \<open>
  What the conversion queue promises: a stale worker changes nothing, a live lease is exclusive, a recorded
  rendition stands and can be read back, queueing is idempotent and stays in the caller's group, and a drain
  reaches an idle queue. One theorem shows what it does not promise: a job whose last attempt is abandoned
  is never settled.

  The locale \<open>row_law\<close> is the common shape of the first of these: a fact about the row of one job that
  claiming, completing and failing that row keep is kept by every history.
\<close>

section \<open>Facts about one job\<close>

definition holds_for :: "string \<Rightarrow> (job_row \<Rightarrow> bool) \<Rightarrow> conv_state \<Rightarrow> bool" where
  "holds_for i P s \<longleftrightarrow> i \<in> snd s \<and> (\<forall>j \<in> set (cv_jobs (fst s)). j_id j = i \<longrightarrow> P j)"

lemma holds_for_renditions: "holds_for i P (db\<lparr>cv_renditions := rs\<rparr>, used) = holds_for i P (db, used)"
  by (simp add: holds_for_def)

locale row_law =
  fixes env :: conv_env and allowed :: "job_claim \<Rightarrow> bool" and during :: "int \<Rightarrow> bool"
    and i :: string and P :: "job_row \<Rightarrow> bool"
  assumes claim_row: "P j \<Longrightarrow> during now \<Longrightarrow> claimable env now db j \<Longrightarrow> j_id j = i \<Longrightarrow> P (claimedRow env now j)"
    and finish_row: "P j \<Longrightarrow> allowed c \<Longrightarrow> ownedJob c db = Some j \<Longrightarrow> j_id j = i \<Longrightarrow> P (finishedRow now j)"
    and fail_row: "P j \<Longrightarrow> allowed c \<Longrightarrow> ownedJob c db = Some j \<Longrightarrow> j_id j = i \<Longrightarrow> P (failedRow n d now j)"
begin

lemma update_row:
  assumes wf: "conv_wf env (db, used)" and j: "j \<in> set (cv_jobs db)" and holds: "holds_for i P (db, used)"
    and P: "j_id j = i \<Longrightarrow> P j \<Longrightarrow> P (f j)" and f: "\<And>k. j_id (f k) = j_id k"
  shows "holds_for i P (updateJob (j_id j) f db, used)"
proof -
  have "P (if j_id k = j_id j then f k else k)" if k: "k \<in> set (cv_jobs db)" "j_id k = i" for k
  proof (cases "j_id k = j_id j")
    case True
    then have "k = j" using distinct_key_unique[of j_id "cv_jobs db" k j] wf k(1) j by (simp add: conv_wf_def)
    with P k holds show ?thesis by (simp add: holds_for_def)
  next
    case False
    with k holds show ?thesis by (simp add: holds_for_def)
  qed
  with holds f show ?thesis by (auto simp: holds_for_def)
qed

lemma move_row:
  assumes "queue_move env allowed during (db, used) (db', used')" and wf: "conv_wf env (db, used)"
    and holds: "holds_for i P (db, used)"
  shows "holds_for i P (db', used')"
  using assms(1)
proof (cases rule: queue_move.cases)
  case move_none
  with holds show ?thesis by (auto simp: holds_for_def)
next
  case (move_add g m v now ids kinds jobs' queued)
  have "distinct (map j_id (cv_jobs db))" and "distinct (map jobKey (cv_jobs db))" using wf by (simp_all add: conv_wf_def)
  then obtain added where a: "jobs' = cv_jobs db @ added" "set added \<subseteq> set (map (newJob g m v now) (zip ids kinds))"
    by (rule insertJobs_added[OF move_add(2)])
  have "j_id j \<notin> used" if "j \<in> set added" for j
    using that a(2) move_add(3) by (auto simp: newJob_def dest!: subsetD dest: set_zip_leftD)
  with holds a(1) move_add(1,5) show ?thesis by (auto simp: holds_for_def)
next
  case (move_claim now locked j)
  note n = nextJob_Some[OF move_claim(4)]
  show ?thesis unfolding move_claim(1,2)
    by (rule update_row[OF wf n(1) holds]) (use claim_row move_claim(3) n(2) in auto)
next
  case (move_complete c j newId now input rs)
  have "holds_for i P (updateJob (j_id j) (finishedRow now) db, used)"
    by (rule update_row[OF wf ownedJob_Some(1)[OF move_complete(4)] holds])
       (use finish_row[OF _ move_complete(3,4)] in auto)
  then show ?thesis unfolding move_complete(1,2) holds_for_renditions .
next
  case (move_fail c j permanent detail now)
  show ?thesis unfolding move_fail(1,2)
    by (rule update_row[OF wf ownedJob_Some(1)[OF move_fail(4)] holds])
       (use fail_row[OF _ move_fail(3,4)] in auto)
next
  case (move_cascade keep)
  with holds show ?thesis by (auto simp: holds_for_def cascade_def)
qed

lemma reaches_row:
  assumes "reaches (conv_step env allowed during) s t" and "conv_wf env s" and "holds_for i P s"
  shows "holds_for i P t \<and> conv_wf env t"
  using assms
proof (induction rule: reaches.induct)
  case (reach_step s t u)
  then have "conv_wf env t" and "holds_for i P t" by auto
  with reach_step.hyps(2) show ?case by (cases t; cases u) (metis move_row step_move step_wf)
qed simp

end

text \<open>An attempt number is never lowered.\<close>

interpretation fence: row_law env allowed during i "\<lambda>j. n \<le> j_attempt j" for env allowed during i n
  by unfold_locales (auto simp: claimedRow_def finishedRow_def failedRow_def)

text \<open>A lease stands while it is live and its holder has not reported.\<close>

interpretation lease: row_law env "\<lambda>c. jc_jobId c \<noteq> i" "\<lambda>t. t < until" i
    "\<lambda>j. j_state j = RUNNING \<and> j_leaseExpiresAt j = Some until" for env i until
  by unfold_locales (auto simp: claimable_def dest: ownedJob_Some)

text \<open>The last attempt of a job whose worker is gone.\<close>

interpretation abandoned: row_law env "\<lambda>c. \<not> (jc_jobId c = i \<and> jc_attempt c = int (ce_maxAttempts env))" during i
    "\<lambda>k. k = j \<and> j_state j = RUNNING \<and> j_attempt j = ce_maxAttempts env" for env during i j
  by unfold_locales (auto simp: claimable_def dest: ownedJob_Some)

text \<open>Completion is final.\<close>

interpretation settled: row_law env allowed during i
    "\<lambda>j. j_state j = COMPLETED \<and> jobKey j = key \<and> j_materialId j = m" for env allowed during i key m
  by unfold_locales (auto simp: claimable_def dest: ownedJob_Some)

section \<open>The fence\<close>

text \<open>The driver's integers and booleans are read back as they were stored.\<close>

definition driver_ok :: "conv_env \<Rightarrow> bool" where
  "driver_ok env \<longleftrightarrow> (\<forall>n field. readInteger (ce_int env n) field = Inr n) \<and>
     (\<forall>b field. readBoolean (ce_bool env b) field = Inr b)"

lemma assertMember_run:
  "driver_ok env \<Longrightarrow> assertMember env b s = (if b then (Inr (), s)
     else (Inl (PairedDeviceRuntimeError PERMISSION_DENIED
       ''The authenticated device is no longer an active member of the group.''), s))"
  by (simp add: assertMember_def driver_ok_def sm_require_def)

lemma claim_Some:
  assumes "claimNextJob env locked now db = (Inr (Some c), db')" and "driver_ok env"
  obtains j where "j \<in> set (cv_jobs db)" and "claimable env now db j" and "j_id j = jc_jobId c"
    and "jc_attempt c = int (j_attempt j) + 1" and "db' = updateJob (j_id j) (claimedRow env now) db"
    and "j_id j \<notin> set locked"
proof (rule claimNextJob_cases[of env locked now db])
  assume "claimNextJob env locked now db = (Inr None, db)"
  with assms(1) show ?thesis by simp
next
  fix j v key
  assume n: "nextJob env locked now db = Some j" and "jobSource db j = Some (v, key)"
    and r: "claimNextJob env locked now db =
        (case readClaim env (claimedRow env now j) v key of Inl e \<Rightarrow> Inl e | Inr c \<Rightarrow> Inr (Some c),
         updateJob (j_id j) (claimedRow env now) db)"
  then have rc: "readClaim env (claimedRow env now j) v key = Inr c" and db': "db' = updateJob (j_id j) (claimedRow env now) db"
    using assms(1) by (auto split: sum.splits)
  note f = readClaim_fields[OF rc]
  have "jc_attempt c = int (j_attempt j) + 1"
    using f(5) assms(2) by (simp add: driver_ok_def claimedRow_def)
  with nextJob_Some[OF n] f(1) db' show ?thesis using that by simp
qed

lemma claim_wf:
  "conv_wf env (db, used) \<Longrightarrow> claimNextJob env locked now db = (r, db') \<Longrightarrow> conv_wf env (db', used)"
  using step_wf[OF _ step_claim[of "\<lambda>_. True" now env "\<lambda>_. True" db used locked]] by simp

lemma updated_row:
  assumes "conv_wf env (db, used)" and "j \<in> set (cv_jobs db)" and "P (f j)" and "\<And>k. j_id (f k) = j_id k"
  shows "holds_for (j_id j) P (updateJob (j_id j) f db, used)"
proof -
  have "k = j" if "k \<in> set (cv_jobs db)" and "j_id k = j_id j" for k
    using distinct_key_unique[of j_id "cv_jobs db" k j] assms(1,2) that by (simp add: conv_wf_def)
  moreover have "j_id j \<in> used" using assms(1,2) by (auto simp: conv_wf_def)
  ultimately show ?thesis using assms(3,4) by (auto simp: holds_for_def)
qed

lemma not_owned:
  assumes "holds_for (jc_jobId c) P (db, used)"
    and "\<And>j. P j \<Longrightarrow> int (j_attempt j) = jc_attempt c \<Longrightarrow> j_state j \<noteq> RUNNING"
  shows "ownedJob c db = None"
proof (cases "ownedJob c db")
  case (Some j)
  note o = ownedJob_Some[OF Some]
  then have "P j" using assms(1) by (simp add: holds_for_def)
  with assms(2) o show ?thesis by blast
qed

lemma stale_claim_inert:
  assumes "ownedJob c db = None" and "driver_ok env"
  shows "completeJob env newId now c input db = (if castsFit input then Inr False else Inl driverError, db)"
    and "failJob env now c detail permanent db = (Inr None, db)"
  using assms by (simp_all add: completeJob_def failJob_eq driver_ok_def sm_lift_def)

text \<open>
  C21: The attempt number is a fencing token. A worker claims a job; later, after any history of the queue,
  another worker claims the same job. From then on, after any further history, whatever the first worker
  reports, a completion or a failure, changes no table, and it is told so.
\<close>

theorem stale_worker_changes_nothing:
  assumes wf: "conv_wf env (db0, used0)" and drv: "driver_ok env"
    and first: "claimNextJob env l1 n1 db0 = (Inr (Some c1), db1)"
    and between: "reaches (conv_step env a1 d1) (db1, used0) (db2, used2)"
    and second: "claimNextJob env l2 n2 db2 = (Inr (Some c2), db3)"
    and same: "jc_jobId c2 = jc_jobId c1"
    and after: "reaches (conv_step env a2 d2) (db3, used2) (db4, used4)"
  shows "completeJob env newId now c1 input db4 = (if castsFit input then Inr False else Inl driverError, db4) \<and>
    failJob env now c1 detail permanent db4 = (Inr None, db4)"
proof -
  obtain j1 where j1: "j1 \<in> set (cv_jobs db0)" "j_id j1 = jc_jobId c1" "jc_attempt c1 = int (j_attempt j1) + 1"
    "db1 = updateJob (j_id j1) (claimedRow env n1) db0"
    using claim_Some[OF first drv] by metis
  have "holds_for (j_id j1) (\<lambda>j. j_attempt j1 + 1 \<le> j_attempt j) (db1, used0)"
    unfolding j1(4) by (rule updated_row[OF wf j1(1)]) (simp_all add: claimedRow_def)
  from fence.reaches_row[OF between claim_wf[OF wf first] this]
  have h2: "holds_for (j_id j1) (\<lambda>j. j_attempt j1 + 1 \<le> j_attempt j) (db2, used2)" and wf2: "conv_wf env (db2, used2)"
    by auto
  obtain j2 where j2: "j2 \<in> set (cv_jobs db2)" "j_id j2 = jc_jobId c2" "db3 = updateJob (j_id j2) (claimedRow env n2) db2"
    using claim_Some[OF second drv] by metis
  have "j_attempt j1 + 1 \<le> j_attempt j2" using h2 j2 j1(2) same by (simp add: holds_for_def)
  then have "holds_for (j_id j2) (\<lambda>j. j_attempt j1 + 2 \<le> j_attempt j) (db3, used2)"
    unfolding j2(3) by (intro updated_row[OF wf2 j2(1)]) (simp_all add: claimedRow_def)
  from fence.reaches_row[OF after claim_wf[OF wf2 second] this]
  have "holds_for (jc_jobId c1) (\<lambda>j. j_attempt j1 + 2 \<le> j_attempt j) (db4, used4)" using j2(2) same by simp
  then have "ownedJob c1 db4 = None" by (rule not_owned) (use j1(3) in simp)
  from stale_claim_inert[OF this drv] show ?thesis by blast
qed

text \<open>
  A live lease is exclusive. After a worker claims a job, in every history in which claims are made before
  the lease runs out and nobody reports on that job, no other claim is a claim of that job.
\<close>

theorem live_lease_is_exclusive:
  assumes wf: "conv_wf env (db, used)" and drv: "driver_ok env"
    and claim: "claimNextJob env l1 n1 db = (Inr (Some c1), db1)"
    and history: "reaches (conv_step env (\<lambda>c. jc_jobId c \<noteq> jc_jobId c1) (\<lambda>t. t < n1 + ce_leaseMs env))
                    (db1, used) (db2, used2)"
    and again: "claimNextJob env l2 n2 db2 = (Inr (Some c2), db3)" and live: "n2 < n1 + ce_leaseMs env"
  shows "jc_jobId c2 \<noteq> jc_jobId c1"
proof
  assume same: "jc_jobId c2 = jc_jobId c1"
  obtain j1 where j1: "j1 \<in> set (cv_jobs db)" "j_id j1 = jc_jobId c1" "db1 = updateJob (j_id j1) (claimedRow env n1) db"
    using claim_Some[OF claim drv] by metis
  have "holds_for (j_id j1) (\<lambda>j. j_state j = RUNNING \<and> j_leaseExpiresAt j = Some (n1 + ce_leaseMs env)) (db1, used)"
    unfolding j1(3) by (rule updated_row[OF wf j1(1)]) (simp_all add: claimedRow_def)
  from lease.reaches_row[OF history claim_wf[OF wf claim]] this j1(2)
  have h: "holds_for (jc_jobId c1) (\<lambda>j. j_state j = RUNNING \<and> j_leaseExpiresAt j = Some (n1 + ce_leaseMs env)) (db2, used2)"
    by simp
  obtain j2 where "j2 \<in> set (cv_jobs db2)" "claimable env n2 db2 j2" "j_id j2 = jc_jobId c2"
    using claim_Some[OF again drv] by metis
  with h same live show False by (auto simp: holds_for_def claimable_def)
qed

text \<open>
  C27: A job whose last attempt is abandoned is never settled. When its worker dies without reporting, the row
  stays exactly as it is, \<open>RUNNING\<close> with an expired lease, in every later history: it cannot be claimed again,
  because its attempts are spent, and only a report writes \<open>FAILED\<close>. Queueing its variant again does nothing.
\<close>

theorem abandoned_last_attempt_never_settles:
  assumes wf: "conv_wf env (db, used)" and j: "j \<in> set (cv_jobs db)" "j_state j = RUNNING"
    "j_attempt j = ce_maxAttempts env"
    and history: "reaches (conv_step env (\<lambda>c. \<not> (jc_jobId c = j_id j \<and> jc_attempt c = int (ce_maxAttempts env))) during)
                    (db, used) (db', used')"
    and k: "k \<in> set (cv_jobs db')" "j_id k = j_id j"
  shows "k = j \<and> \<not> claimable env now db' k"
proof -
  have "holds_for (j_id j) (\<lambda>k. k = j \<and> j_state j = RUNNING \<and> j_attempt j = ce_maxAttempts env) (db, used)"
  proof -
    have "i = j" if "i \<in> set (cv_jobs db)" and "j_id i = j_id j" for i
      using distinct_key_unique[of j_id "cv_jobs db" i j] wf j(1) that by (simp add: conv_wf_def)
    then show ?thesis using wf j by (auto simp: holds_for_def conv_wf_def)
  qed
  from abandoned.reaches_row[OF history wf this] k have "k = j" by (auto simp: holds_for_def)
  with j(3) show ?thesis by (simp add: claimable_def)
qed

section \<open>Renditions\<close>

text \<open>
  C22: In every history from an empty queue, of any number of workers and producers, with versions deleted at
  any moment: identifiers and the pair of version and variant name one job; a waiting job has attempts left and
  no job has more than the maximum; a lease belongs to a running job; a job is completed exactly when the
  rendition of its version and variant is recorded, every rendition has its job, and a failure has its reason.
\<close>

theorem conversion_queue_invariant:
  "no_jobs env s \<Longrightarrow> reaches (conv_step env allowed during) s t \<Longrightarrow> conv_wf env t"
  by (rule queue.reachable_inv)

text \<open>A completion that counts.\<close>

lemma completed_facts:
  assumes wf: "conv_wf env (db, used)" and drv: "driver_ok env"
    and fin: "completeJob env newId now c input db = (Inr True, db1)"
  obtains j where "j \<in> set (cv_jobs db)" and "j_id j = jc_jobId c"
    and "db1 = (updateJob (j_id j) (finishedRow now) db)\<lparr>cv_renditions := cv_renditions db @ [renditionRow newId now j input]\<rparr>"
proof (rule completeJob_cases[of env newId now c input db])
  fix r assume "completeJob env newId now c input db = (r, db)"
    and "r = Inr True \<Longrightarrow> readBoolean (ce_bool env False) ''completed'' = Inr True \<and> ownedJob c db = None"
  with fin drv show ?thesis by (simp add: driver_ok_def)
next
  fix j rs
  assume o: "ownedJob c db = Some j" and u: "upsertRendition (renditionRow newId now j input) (cv_renditions db) = Inr rs"
    and e: "completeJob env newId now c input db = (readBoolean (ce_bool env True) ''completed'',
         (updateJob (j_id j) (finishedRow now) db)\<lparr>cv_renditions := rs\<rparr>)"
  note oj = ownedJob_Some[OF o]
  have "\<not> rendered db (jobKey j)" using wf oj(1,4) by (auto simp: conv_wf_def job_ok_def)
  then have "\<not> list_ex (\<lambda>x. r_versionId x = j_versionId j \<and> r_variant x = j_kind j) (cv_renditions db)"
    by (force simp: rendered_def list_ex_iff)
  then have "rs = cv_renditions db @ [renditionRow newId now j input]"
    using u by (auto simp: upsertRendition_def renditionRow_def split: if_splits)
  with e fin oj show ?thesis using that by simp
qed

definition recorded :: "string \<Rightarrow> rendition_row \<Rightarrow> conv_state \<Rightarrow> bool" where
  "recorded i r s \<longleftrightarrow> i \<in> snd s \<and>
     (\<forall>j \<in> set (cv_jobs (fst s)). j_id j = i \<longrightarrow> jobKey j = renditionKey r \<and> r \<in> set (cv_renditions (fst s)))"

lemma upsert_keeps:
  assumes "upsertRendition r rs = Inr rs'" and "x \<in> set rs" and "renditionKey x \<noteq> renditionKey r"
  shows "x \<in> set rs'"
  using assms by (auto simp: upsertRendition_def split: if_splits)

lemma move_recorded:
  assumes m: "queue_move env allowed during (db, used) (db', used')" and wf: "conv_wf env (db, used)"
    and rec: "recorded i r (db, used)" and over: "holds_for i (\<lambda>j. j_state j = COMPLETED) (db, used)"
  shows "recorded i r (db', used')"
proof -
  have keep: "recorded i r (updateJob k f db, used)" if "\<And>k. j_id (f k) = j_id k" "\<And>k. jobKey (f k) = jobKey k" for k f
    using rec that by (auto simp: recorded_def)
  show ?thesis using m
  proof (cases rule: queue_move.cases)
    case move_none
    with rec show ?thesis by (auto simp: recorded_def)
  next
    case (move_add g m v now ids kinds jobs' queued)
    have "distinct (map j_id (cv_jobs db))" and "distinct (map jobKey (cv_jobs db))" using wf by (simp_all add: conv_wf_def)
    then obtain added where a: "jobs' = cv_jobs db @ added" "set added \<subseteq> set (map (newJob g m v now) (zip ids kinds))"
      by (rule insertJobs_added[OF move_add(2)])
    have "j_id j \<notin> used" if "j \<in> set added" for j
      using that a(2) move_add(3) by (auto simp: newJob_def dest!: subsetD dest: set_zip_leftD)
    with rec a(1) move_add(1,5) show ?thesis by (auto simp: recorded_def)
  next
    case (move_claim now locked j)
    show ?thesis unfolding move_claim(1,2) by (rule keep) simp_all
  next
    case (move_complete c j newId now input rs)
    note o = ownedJob_Some[OF move_complete(4)]
    have "r \<in> set rs" if k: "k \<in> set (cv_jobs db)" "j_id k = i" for k
    proof (rule upsert_keeps[OF move_complete(5)])
      show "r \<in> set (cv_renditions db)" using rec k by (auto simp: recorded_def)
      have "j \<noteq> k" using over k o(4) by (auto simp: holds_for_def)
      then have "jobKey j \<noteq> jobKey k"
        using distinct_key_unique[of jobKey "cv_jobs db" j k] wf o(1) k(1) by (auto simp: conv_wf_def)
      moreover have "jobKey k = renditionKey r" using rec k by (simp add: recorded_def)
      ultimately show "renditionKey r \<noteq> renditionKey (renditionRow newId now j input)" by (auto simp: renditionRow_def)
    qed
    with rec show ?thesis unfolding move_complete(1,2) by (auto simp: recorded_def)
  next
    case (move_fail c j permanent detail now)
    show ?thesis unfolding move_fail(1,2) by (rule keep) simp_all
  next
    case (move_cascade keep)
    with rec show ?thesis by (fastforce simp: recorded_def cascade_def)
  qed
qed

lemma recorded_stands:
  assumes "reaches (conv_step env allowed during) s t" and "conv_wf env s" and "recorded i r s"
    and "holds_for i (\<lambda>j. j_state j = COMPLETED \<and> jobKey j = key \<and> j_materialId j = m) s"
  shows "recorded i r t \<and> conv_wf env t \<and> holds_for i (\<lambda>j. j_state j = COMPLETED \<and> jobKey j = key \<and> j_materialId j = m) t"
  using assms
proof (induction rule: reaches.induct)
  case (reach_step s t u)
  then have t: "conv_wf env t" "recorded i r t"
    "holds_for i (\<lambda>j. j_state j = COMPLETED \<and> jobKey j = key \<and> j_materialId j = m) t" by auto
  then have over: "holds_for i (\<lambda>j. j_state j = COMPLETED) t" by (auto simp: holds_for_def)
  obtain db used db' used' where tu: "t = (db, used)" "u = (db', used')" by (cases t; cases u)
  have m: "queue_move env allowed during (db, used) (db', used')"
    using step_move reach_step.hyps(2) tu by simp
  show ?case
    using move_recorded[OF m t(1)[unfolded tu] t(2)[unfolded tu] over[unfolded tu]]
      settled.move_row[OF m t(1)[unfolded tu] t(3)[unfolded tu]] move_wf[OF m t(1)[unfolded tu]] tu(2) by simp
qed simp

lemma find_unique:
  assumes "x \<in> set xs" and "P x" and "\<And>y. y \<in> set xs \<Longrightarrow> P y \<Longrightarrow> y = x"
  shows "List.find P xs = Some x"
proof (cases "List.find P xs")
  case None
  from find_NoneD[OF this assms(1)] assms(2) show ?thesis by blast
next
  case (Some y)
  from find_SomeD[OF this] assms(3)[of y] Some show ?thesis by simp
qed

text \<open>
  C23: What a completed job recorded is what a preview is served. After a completion the store accepted, in every
  later history and for as long as the job's version exists, any active member of the material's group
  that asks for the version and the variant while the material is not in the trash reads exactly the key,
  the type, the size and the dimensions of that completion; no later report replaces them. (For a
  material in the trash the query finds nothing.)
\<close>

theorem completed_rendition_is_served:
  assumes wf: "conv_wf env (db, used)" and drv: "driver_ok env"
    and fin: "completeJob env newId now c input db = (Inr True, db1)"
    and history: "reaches (conv_step env allowed during) (db1, used) (db2, used2)"
    and j: "j \<in> set (cv_jobs db2)" "j_id j = jc_jobId c"
    and member: "activeConvMember db2 g d"
    and material: "js_get (cv_materials db2) (j_materialId j) = Some m" "ma_groupId m = g" "ma_trashedAt m = None"
    and ids: "js_trim mid \<noteq> []" "ce_uuid env (js_trim mid) = Some (j_materialId j)"
      "js_trim vid \<noteq> []" "ce_uuid env (js_trim vid) = Some (j_versionId j)" "js_trim var = j_kind j"
    and texts: "j_versionId j \<noteq> []" "j_kind j \<noteq> []" "ci_storageKey input \<noteq> []" "ci_mimeType input \<noteq> []"
  shows "readRendition env g d mid vid var db2 =
    (Inr (Some \<lparr>rr_versionId = j_versionId j, rr_variant = j_kind j, rr_storageKey = ci_storageKey input,
       rr_mimeType = ci_mimeType input, rr_byteSize = ci_byteSize input, rr_width = ci_width input,
       rr_height = ci_height input\<rparr>), db2)"
proof -
  obtain j0 where j0: "j0 \<in> set (cv_jobs db)" "j_id j0 = jc_jobId c"
    "db1 = (updateJob (j_id j0) (finishedRow now) db)\<lparr>cv_renditions := cv_renditions db @ [renditionRow newId now j0 input]\<rparr>"
    by (rule completed_facts[OF wf drv fin])
  let ?r = "renditionRow newId now j0 input"
  have wf1: "conv_wf env (db1, used)"
    using step_wf[OF wf step_complete[of "\<lambda>_. True" c env "\<lambda>_. True" db used newId now input]] fin by simp
  have "holds_for (j_id j0) (\<lambda>j. j_state j = COMPLETED \<and> jobKey j = jobKey j0 \<and> j_materialId j = j_materialId j0)
      (updateJob (j_id j0) (finishedRow now) db, used)"
    by (rule updated_row[OF wf j0(1)]) (simp_all add: finishedRow_def)
  then have h: "holds_for (j_id j0) (\<lambda>j. j_state j = COMPLETED \<and> jobKey j = jobKey j0 \<and> j_materialId j = j_materialId j0)
      (db1, used)"
    unfolding j0(3) holds_for_renditions .
  then have "recorded (j_id j0) ?r (db1, used)"
    using j0(3) by (auto simp: recorded_def holds_for_def renditionRow_def)
  from recorded_stands[OF history wf1 this h] j j0(2)
  have r: "?r \<in> set (cv_renditions db2)" and key: "jobKey j = jobKey j0" "j_materialId j = j_materialId j0"
    and wf2: "conv_wf env (db2, used2)"
    by (auto simp: recorded_def holds_for_def)
  have "visibleRendition db2 g d (j_materialId j) (j_versionId j) (j_kind j) = Some ?r"
    unfolding visibleRendition_def
  proof (rule find_unique[OF r])
    fix y assume "y \<in> set (cv_renditions db2)" and "r_materialId y = j_materialId j \<and> r_versionId y = j_versionId j \<and>
      r_variant y = j_kind j \<and> activeConvMember db2 g d \<and> (case js_get (cv_materials db2) (r_materialId y) of
      None \<Rightarrow> False | Some m \<Rightarrow> ma_groupId m = g \<and> ma_trashedAt m = None)"
    then show "y = ?r"
      using distinct_key_unique[of renditionKey "cv_renditions db2" y ?r] wf2 r key
      by (simp add: conv_wf_def renditionRow_def)
  qed (use member material key in \<open>simp add: renditionRow_def\<close>)
  moreover have "toRendition env ?r = Inr \<lparr>rr_versionId = j_versionId j, rr_variant = j_kind j,
       rr_storageKey = ci_storageKey input, rr_mimeType = ci_mimeType input, rr_byteSize = ci_byteSize input,
       rr_width = ci_width input, rr_height = ci_height input\<rparr>"
    using texts key by (simp add: toRendition_def renditionRow_def readText_def readInteger_def readBigInt_intText)
  ultimately show ?thesis
    using ids texts(2) member drv
    by (simp add: readRendition_def Let_def requireIdentifier_def assertMember_run sm_bind_Inr)
qed

section \<open>A small instance\<close>

text \<open>
  One material of one group, with one version, and the jobs a test needs. The array literal is read the way
  PostgreSQL documents quoted elements: a backslash takes the next character, an unescaped quote closes.
\<close>

fun readElement :: "string \<Rightarrow> (string \<times> string) option" where
  "readElement [] = None"
| "readElement [c] = (if c = CHR 0x22 then Some ([], []) else None)"
| "readElement (c # d # cs) =
     (if c = CHR 0x22 then Some ([], d # cs)
      else if c = CHR 0x5C then map_option (\<lambda>(x, r). (d # x, r)) (readElement cs)
      else map_option (\<lambda>(x, r). (c # x, r)) (readElement (d # cs)))"

lemma readElement_shorter: "readElement s = Some (x, r) \<Longrightarrow> length r < length s"
  by (induction s arbitrary: x r rule: readElement.induct) (auto split: if_splits)

function readElements :: "string \<Rightarrow> string list option" where
  "readElements s =
     (case s of
        [] \<Rightarrow> None
      | q # cs \<Rightarrow>
          if q \<noteq> CHR 0x22 then None
          else case readElement cs of
            None \<Rightarrow> None
          | Some (x, r) \<Rightarrow>
              if r = ''}'' then Some [x]
              else if r \<noteq> [] \<and> hd r = CHR '','' then map_option (\<lambda>xs. x # xs) (readElements (tl r))
              else None)"
  by pat_completeness auto
termination
  by (relation "measure length") (auto dest!: readElement_shorter simp: length_tl intro: le_less_trans diff_le_self)

declare readElements.simps [simp del]

definition readTextArrayLiteral :: "string \<Rightarrow> string list option" where
  "readTextArrayLiteral s =
     (if s = ''{}'' then Some [] else if s \<noteq> [] \<and> hd s = CHR ''{'' then readElements (tl s) else None)"

definition escaped :: "string \<Rightarrow> string" where
  "escaped v = concat (map (\<lambda>c. if c = CHR 0x22 \<or> c = CHR 0x5C then [CHR 0x5C, c] else [c]) v)"

lemma escapeElement_eq: "escapeElement v = CHR 0x22 # escaped v @ [CHR 0x22]"
  by (induction v) (auto simp: escapeElement_def replaceChar_def escaped_def)

lemma readElement_escaped: "readElement (escaped v @ CHR 0x22 # r) = Some (v, r)"
proof (induction v)
  case Nil
  then show ?case by (cases r) (simp_all add: escaped_def)
next
  case (Cons c v)
  obtain e es where rest: "escaped v @ CHR 0x22 # r = e # es" by (cases "escaped v @ CHR 0x22 # r") auto
  have "escaped (c # v) @ CHR 0x22 # r =
      (if c = CHR 0x22 \<or> c = CHR 0x5C then [CHR 0x5C, c] else [c]) @ escaped v @ CHR 0x22 # r"
    by (simp add: escaped_def)
  then show ?case using Cons rest by auto
qed

lemma readElements_literal:
  "vs \<noteq> [] \<Longrightarrow> readElements (joinWith '','' (map escapeElement vs) @ ''}'') = Some vs"
proof (induction vs rule: induct_list012)
  case (3 x y zs)
  then show ?case
    by (subst readElements.simps) (simp add: escapeElement_eq[of x] readElement_escaped)
qed (auto simp: readElements.simps escapeElement_eq readElement_escaped)

lemma text_array_round_trip: "readTextArrayLiteral (toTextArrayLiteral vs) = Some vs"
proof (cases vs)
  case (Cons x xs)
  have "toTextArrayLiteral vs \<noteq> ''{}''"
    using Cons by (cases xs) (auto simp: toTextArrayLiteral_def escapeElement_eq)
  then show ?thesis using Cons readElements_literal[of vs] by (simp add: readTextArrayLiteral_def toTextArrayLiteral_def)
qed (simp add: readTextArrayLiteral_def toTextArrayLiteral_def)

definition demoConv :: conv_env where
  "demoConv = \<lparr>ce_uuid = Some, ce_textArray = readTextArrayLiteral,
     ce_collate = (\<lambda>a b. if a \<le> b then - 1 else 1), ce_int = SqlNumber, ce_bool = SqlBool, ce_leaseMs = 100,
     ce_maxAttempts = 2\<rparr>"

lemma demoConv_simps [simp]:
  "ce_maxAttempts demoConv = 2" "ce_leaseMs demoConv = 100" "ce_int demoConv = SqlNumber" "ce_bool demoConv = SqlBool"
  "ce_uuid demoConv = Some" "ce_textArray demoConv = readTextArrayLiteral"
  by (simp_all add: demoConv_def)

lemma driver_ok_demo: "driver_ok demoConv"
  by (simp add: driver_ok_def readInteger_def readBoolean_def)

definition demoTables :: "job_row list \<Rightarrow> conv_db" where
  "demoTables jobs = \<lparr>cv_memberships = [\<lparr>mr_groupId = ''g'', mr_deviceId = ''d'', mr_role = VIEWER, mr_revokedAt = None\<rparr>],
     cv_deviceStatus = [(''d'', ONLINE)], cv_materials = [(''m'', \<lparr>ma_groupId = ''g'', ma_trashedAt = None\<rparr>)],
     cv_versions = [(''v'', \<lparr>vr_materialId = ''m'', vr_contentHash = ''h'', vr_mimeType = ''video/mp4'', vr_byteSize = 9\<rparr>)],
     cv_objects = [((''g'', ''h''), ''k'')], cv_jobs = jobs, cv_renditions = []\<rparr>"

definition demoJob :: job_row where
  "demoJob = newJob ''g'' ''m'' ''v'' 0 (''j'', ''720p'')"

definition demoClaim :: "int \<Rightarrow> job_claim" where
  "demoClaim n = \<lparr>jc_jobId = ''j'', jc_groupId = ''g'', jc_materialId = ''m'', jc_versionId = ''v'',
     jc_variant = ''720p'', jc_attempt = n, jc_sourceStorageKey = ''k'', jc_sourceContentHash = ''h'',
     jc_sourceMimeType = ''video/mp4'', jc_sourceByteSize = 9\<rparr>"

lemmas demo_defs = demoTables_def demoJob_def newJob_def demoClaim_def

lemma demo_wf: "conv_wf demoConv (demoTables [demoJob], {''j''})"
  by (simp add: conv_wf_def demo_defs job_ok_def rendered_def)

lemmas claim_eval = claimNextJob_def nextJob_def claimable_def jobSource_def claimedRow_def updateJob_def
  readClaim_def readText_def readInteger_def

lemma demo_claim:
  assumes "j_id j = ''j''" "j_groupId j = ''g''" "j_materialId j = ''m''" "j_versionId j = ''v''" "j_kind j = ''720p''"
    "j_attempt j < 2" "j_state j = PENDING \<or> j_state j = RUNNING \<and> (\<exists>l. j_leaseExpiresAt j = Some l \<and> l \<le> now)"
  shows "claimNextJob demoConv [] now (demoTables [j]) =
    (Inr (Some (demoClaim (int (j_attempt j) + 1))), demoTables [claimedRow demoConv now j])"
  using assms readBigInt_intText[of 9] by (auto simp: claim_eval demoTables_def demoClaim_def)

theorem stale_worker_changes_nothing_witness:
  "claimNextJob demoConv [] 0 (demoTables [demoJob]) =
     (Inr (Some (demoClaim 1)), demoTables [claimedRow demoConv 0 demoJob]) \<and>
   claimNextJob demoConv [] 200 (demoTables [claimedRow demoConv 0 demoJob]) =
     (Inr (Some (demoClaim 2)), demoTables [claimedRow demoConv 200 (claimedRow demoConv 0 demoJob)]) \<and>
   failJob demoConv 300 (demoClaim 1) ''late'' False
     (demoTables [claimedRow demoConv 200 (claimedRow demoConv 0 demoJob)]) =
     (Inr None, demoTables [claimedRow demoConv 200 (claimedRow demoConv 0 demoJob)])"
proof -
  have 1: "claimNextJob demoConv [] 0 (demoTables [demoJob]) =
      (Inr (Some (demoClaim 1)), demoTables [claimedRow demoConv 0 demoJob])"
    by (subst demo_claim) (simp_all add: demoJob_def newJob_def)
  have 2: "claimNextJob demoConv [] 200 (demoTables [claimedRow demoConv 0 demoJob]) =
      (Inr (Some (demoClaim 2)), demoTables [claimedRow demoConv 200 (claimedRow demoConv 0 demoJob)])"
    by (subst demo_claim) (simp_all add: demoJob_def newJob_def claimedRow_def)
  have "jc_jobId (demoClaim 2) = jc_jobId (demoClaim 1)" by (simp add: demoClaim_def)
  from stale_worker_changes_nothing[OF demo_wf driver_ok_demo 1 reach_refl 2 this reach_refl] 1 2
  show ?thesis by blast
qed

theorem live_lease_is_exclusive_witness:
  "\<nexists>db3. claimNextJob demoConv [] 50 (demoTables [claimedRow demoConv 0 demoJob]) = (Inr (Some (demoClaim 2)), db3)"
proof
  have 1: "claimNextJob demoConv [] 0 (demoTables [demoJob]) =
      (Inr (Some (demoClaim 1)), demoTables [claimedRow demoConv 0 demoJob])"
    by (subst demo_claim) (simp_all add: demoJob_def newJob_def)
  assume "\<exists>db3. claimNextJob demoConv [] 50 (demoTables [claimedRow demoConv 0 demoJob]) = (Inr (Some (demoClaim 2)), db3)"
  then obtain db3 where 2: "claimNextJob demoConv [] 50 (demoTables [claimedRow demoConv 0 demoJob]) = (Inr (Some (demoClaim 2)), db3)" ..
  from live_lease_is_exclusive[OF demo_wf driver_ok_demo 1 reach_refl 2] show False by (simp add: demoClaim_def)
qed

theorem abandoned_last_attempt_never_settles_witness:
  "\<not> claimable demoConv 900 (demoTables [claimedRow demoConv 200 (claimedRow demoConv 0 demoJob)])
     (claimedRow demoConv 200 (claimedRow demoConv 0 demoJob))"
proof -
  let ?j = "claimedRow demoConv 200 (claimedRow demoConv 0 demoJob)"
  have "claimNextJob demoConv [] 0 (demoTables [demoJob]) =
      (Inr (Some (demoClaim 1)), demoTables [claimedRow demoConv 0 demoJob])"
    by (subst demo_claim) (simp_all add: demoJob_def newJob_def)
  from claim_wf[OF demo_wf this]
  have 1: "conv_wf demoConv (demoTables [claimedRow demoConv 0 demoJob], {''j''})" .
  have "claimNextJob demoConv [] 200 (demoTables [claimedRow demoConv 0 demoJob]) =
      (Inr (Some (demoClaim 2)), demoTables [?j])"
    by (subst demo_claim) (simp_all add: demoJob_def newJob_def claimedRow_def)
  from claim_wf[OF 1 this] have wf: "conv_wf demoConv (demoTables [?j], {''j''})" .
  have "?j \<in> set (cv_jobs (demoTables [?j]))" by (simp add: demoTables_def)
  moreover have "j_state ?j = RUNNING" "j_attempt ?j = ce_maxAttempts demoConv"
    by (simp_all add: claimedRow_def demoJob_def newJob_def)
  ultimately show ?thesis
    using abandoned_last_attempt_never_settles[OF wf _ _ _ reach_refl] by blast
qed

theorem conversion_queue_invariant_witness:
  "conv_wf demoConv (snd (enqueueRenditions demoConv (\<lambda>_. ''j'') 0 ''g'' ''d'' ''m'' ''v'' [''720p''] (demoTables [])),
     {} \<union> (\<lambda>_. ''j'') ` {..<length (requestedVariants [''720p''])})"
proof -
  have "no_jobs demoConv (demoTables [], {})" by (simp add: no_jobs_def demoTables_def)
  moreover have "reaches (conv_step demoConv (\<lambda>_. True) (\<lambda>_. True)) (demoTables [], {})
     (snd (enqueueRenditions demoConv (\<lambda>_. ''j'') 0 ''g'' ''d'' ''m'' ''v'' [''720p''] (demoTables [])),
      {} \<union> (\<lambda>_. ''j'') ` {..<length (requestedVariants [''720p''])})"
    by (rule reach_step[where step = "conv_step demoConv (\<lambda>_. True) (\<lambda>_. True)", OF reach_refl], rule step_enqueue) simp
  ultimately show ?thesis by (rule conversion_queue_invariant)
qed

definition demoInput :: completed_input where
  "demoInput = \<lparr>ci_storageKey = ''s'', ci_mimeType = ''video/mp4'', ci_byteSize = 7, ci_width = 1280, ci_height = 720\<rparr>"

theorem completed_rendition_is_served_witness:
  "\<exists>db1. completeJob demoConv ''r'' 10 (demoClaim 1) demoInput (demoTables [claimedRow demoConv 0 demoJob]) = (Inr True, db1) \<and>
     readRendition demoConv ''g'' ''d'' ''m'' ''v'' ''720p'' db1 =
       (Inr (Some \<lparr>rr_versionId = ''v'', rr_variant = ''720p'', rr_storageKey = ''s'', rr_mimeType = ''video/mp4'',
          rr_byteSize = 7, rr_width = 1280, rr_height = 720\<rparr>), db1)"
proof -
  let ?j = "claimedRow demoConv 0 demoJob"
  let ?k = "finishedRow 10 ?j"
  let ?db1 = "(demoTables [?k])\<lparr>cv_renditions := [renditionRow ''r'' 10 ?j demoInput]\<rparr>"
  have "claimNextJob demoConv [] 0 (demoTables [demoJob]) = (Inr (Some (demoClaim 1)), demoTables [?j])"
    by (subst demo_claim) (simp_all add: demoJob_def newJob_def)
  from claim_wf[OF demo_wf this] have wf: "conv_wf demoConv (demoTables [?j], {''j''})" .
  have fin: "completeJob demoConv ''r'' 10 (demoClaim 1) demoInput (demoTables [?j]) = (Inr True, ?db1)"
    by (simp add: completeJob_def castsFit_def demoInput_def ownedJob_def upsertRendition_def renditionRow_def
        demo_defs updateJob_def claimedRow_def readBoolean_def) (simp add: sm_lift_def)
  have k: "?k \<in> set (cv_jobs ?db1)" "j_id ?k = jc_jobId (demoClaim 1)" "activeConvMember ?db1 ''g'' ''d''"
    "js_get (cv_materials ?db1) (j_materialId ?k) = Some \<lparr>ma_groupId = ''g'', ma_trashedAt = None\<rparr>"
    "j_versionId ?k = ''v''" "j_kind ?k = ''720p''" "j_materialId ?k = ''m''"
    by (simp_all add: demo_defs finishedRow_def claimedRow_def activeConvMember_def)
  have trims: "js_trim ''m'' = ''m''" "js_trim ''v'' = ''v''" "js_trim ''720p'' = ''720p''"
    by (simp_all add: js_trim_def is_js_space_def)
  from completed_rendition_is_served[OF wf driver_ok_demo fin reach_refl k(1-4), of "''m''" "''v''" "''720p''"] fin k trims
  show ?thesis by (intro exI[of _ ?db1]) (simp add: demoInput_def)
qed

end
