(* ===== verification/Conversion_Worker.thy ===== *)
theory Conversion_Worker
  imports Conversion_Correct
begin

text \<open>
  The producer and the consumer of the conversion queue: queueing is idempotent and confined to the caller's
  group, a drain that nobody disturbs ends with nothing left to claim, and a recorded failure is one bounded line.
\<close>

section \<open>Queueing\<close>

lemma insertJobs_known:
  assumes "\<And>j. j \<in> set new \<Longrightarrow> jobKey j \<in> jobKey ` set jobs"
  shows "insertJobs new jobs = Inr (jobs, [])"
  using assms
proof (induction new)
  case (Cons j new)
  have "jobKey j \<in> jobKey ` set jobs" using Cons.prems[of j] by simp
  then have "hasJob (j_versionId j) (j_kind j) jobs" by (auto simp: hasJob_def list_ex_iff)
  with Cons show ?case by simp
qed simp

lemma insertJobs_keys:
  assumes "insertJobs new jobs = Inr (jobs', kinds)" and "distinct (map j_id jobs)" and "distinct (map jobKey jobs)"
  shows "jobKey ` set jobs' = jobKey ` set jobs \<union> jobKey ` set new"
  using insertJobs_Inr[OF assms] by (elim exE conjE)

lemma enqueue_run:
  assumes "driver_ok env" and "requestedVariants vs \<noteq> []"
    and "requireIdentifier m ''material_id'' = Inr mid" and "requireIdentifier v ''version_id'' = Inr vid"
    and "ce_uuid env mid = Some mu" and "ce_uuid env vid = Some vu"
    and "ce_textArray env (toTextArrayLiteral (requestedVariants vs)) = Some kinds"
  shows "enqueueRenditions env newId now g d m v vs db =
    (if \<not> activeConvMember db g d then
       (Inl (PairedDeviceRuntimeError PERMISSION_DENIED
         ''The authenticated device is no longer an active member of the group.''), db)
     else if \<not> versionTarget db g d mu vu then
       (Inl (PairedDeviceRuntimeError NOT_FOUND ''The material version does not exist.''), db)
     else case insertJobs (map (newJob g mu vu now) (zip (map newId [0 ..< length (requestedVariants vs)]) kinds))
            (cv_jobs db) of
         Inl e \<Rightarrow> (Inl e, db)
       | Inr (jobs', queued) \<Rightarrow> (Inr (js_sort (ce_collate env) queued), db\<lparr>cv_jobs := jobs'\<rparr>))"
proof -
  have target: "versionTarget db g d mu vu \<Longrightarrow> activeConvMember db g d" by (simp add: versionTarget_def)
  show ?thesis
    using assms target
    by (cases "insertJobs (map (newJob g mu vu now) (zip (map newId [0 ..< length (requestedVariants vs)]) kinds))
            (cv_jobs db)")
       (auto simp: enqueueRenditions_def Let_def sm_bind_def sm_lift_def sm_get_def sm_modify_def assertMember_run
         driver_ok_def[THEN iffD1, THEN conjunct2, rule_format] split: if_splits)
qed

text \<open>The two branches that reach no statement.\<close>

lemma enqueue_Inr_nonempty:
  assumes "enqueueRenditions env newId now g d m v vs db = (Inr q, db1)" and "requestedVariants vs \<noteq> []"
  obtains mu vu kinds where "requireIdentifier m ''material_id'' = Inr (js_trim m)"
    and "requireIdentifier v ''version_id'' = Inr (js_trim v)"
    and "ce_uuid env (js_trim m) = Some mu" and "ce_uuid env (js_trim v) = Some vu"
    and "ce_textArray env (toTextArrayLiteral (requestedVariants vs)) = Some kinds"
proof -
  have "js_trim m \<noteq> []" and "js_trim v \<noteq> []"
    using assms by (auto simp: enqueueRenditions_def Let_def requireIdentifier_def split: if_splits)
  then have ids: "requireIdentifier m ''material_id'' = Inr (js_trim m)" "requireIdentifier v ''version_id'' = Inr (js_trim v)"
    by (simp_all add: requireIdentifier_def)
  with assms have "ce_uuid env (js_trim m) \<noteq> None \<and> ce_uuid env (js_trim v) \<noteq> None \<and>
      ce_textArray env (toTextArrayLiteral (requestedVariants vs)) \<noteq> None"
    by (auto simp: enqueueRenditions_def Let_def split: option.splits)
  with ids show ?thesis using that by auto
qed

text \<open>
  Queueing is idempotent and confined to the caller's group. After a call that was accepted, repeating it,
  with new identifiers and at any later time, queues nothing and changes no table; the version has exactly one
  job for each requested variant; and every job the call added belongs to the caller's group, to which the
  caller is an active member, and to an existing version of a material that is not in the trash.
\<close>

theorem enqueue_idempotent:
  assumes wf: "conv_wf env (db, used)" and drv: "driver_ok env"
    and arrays: "\<And>vs. ce_textArray env (toTextArrayLiteral vs) = Some vs"
    and first: "enqueueRenditions env id1 n1 g d m v vs db = (Inr q, db1)"
  shows "enqueueRenditions env id2 n2 g d m v vs db1 = (Inr [], db1) \<and>
    (\<forall>x \<in> set (requestedVariants vs). \<exists>!j. j \<in> set (cv_jobs db1) \<and>
       Some (j_versionId j) = ce_uuid env (js_trim v) \<and> j_kind j = x) \<and>
    (\<forall>j \<in> set (cv_jobs db1) - set (cv_jobs db).
       j_groupId j = g \<and> versionTarget db g d (j_materialId j) (j_versionId j))"
proof (cases "requestedVariants vs = []")
  case True
  with first show ?thesis by (simp add: enqueueRenditions_def)
next
  case False
  let ?req = "requestedVariants vs"
  from first False obtain mu vu kinds where ids: "requireIdentifier m ''material_id'' = Inr (js_trim m)"
    "requireIdentifier v ''version_id'' = Inr (js_trim v)" "ce_uuid env (js_trim m) = Some mu"
    "ce_uuid env (js_trim v) = Some vu" "ce_textArray env (toTextArrayLiteral ?req) = Some kinds"
    by (rule enqueue_Inr_nonempty)
  have kinds: "kinds = ?req" using ids(5) arrays by simp
  note run = enqueue_run[OF drv False ids, unfolded kinds]
  let ?new = "\<lambda>i n. map (newJob g mu vu n) (zip (map i [0 ..< length ?req]) ?req)"
  have keys: "jobKey ` set (?new i n) = Pair vu ` set ?req" for i n
  proof -
    have "map jobKey (?new i n) = map (Pair vu) ?req" by (rule nth_equalityI) (simp_all add: newJob_def)
    then show ?thesis by (metis list.set_map)
  qed
  have act: "activeConvMember db g d" and target: "versionTarget db g d mu vu"
    using first run[of id1 n1 g d db] by (auto split: if_splits)
  then obtain jobs' queued where ins: "insertJobs (?new id1 n1) (cv_jobs db) = Inr (jobs', queued)"
    and db1: "db1 = db\<lparr>cv_jobs := jobs'\<rparr>"
    using first run[of id1 n1 g d db] by (auto split: sum.splits)
  have d: "distinct (map j_id (cv_jobs db))" "distinct (map jobKey (cv_jobs db))" using wf by (simp_all add: conv_wf_def)
  obtain added where added: "jobs' = cv_jobs db @ added" "set added \<subseteq> set (?new id1 n1)" "distinct (map jobKey jobs')"
    by (rule insertJobs_added[OF ins d])
  note allKeys = insertJobs_keys[OF ins d]
  have known: "Pair vu ` set ?req \<subseteq> jobKey ` set jobs'" unfolding allKeys keys by (rule Un_upper2)
  have "insertJobs (?new id2 n2) jobs' = Inr (jobs', [])"
  proof (rule insertJobs_known)
    fix j assume "j \<in> set (?new id2 n2)"
    then have "jobKey j \<in> jobKey ` set (?new id2 n2)" by (rule imageI)
    then show "jobKey j \<in> jobKey ` set jobs'" unfolding keys by (rule subsetD[OF known])
  qed
  then have again: "enqueueRenditions env id2 n2 g d m v vs db1 = (Inr [], db1)"
    using run[of id2 n2 g d db1] act target db1
    by (simp add: activeConvMember_def versionTarget_def js_sort_def)
  have one: "\<exists>!j. j \<in> set jobs' \<and> j_versionId j = vu \<and> j_kind j = x" if x: "x \<in> set ?req" for x
  proof -
    from x known obtain j where j: "j \<in> set jobs'" "jobKey j = (vu, x)" by auto
    have "k = j" if "k \<in> set jobs' \<and> j_versionId k = vu \<and> j_kind k = x" for k
      by (rule distinct_key_unique[OF added(3)]) (use that j in auto)
    with j show ?thesis by auto
  qed
  have "j_groupId j = g \<and> versionTarget db g d (j_materialId j) (j_versionId j)"
    if "j \<in> set jobs' - set (cv_jobs db)" for j
  proof -
    have "j \<in> set (?new id1 n1)" using that added(1,2) by auto
    then show ?thesis using target by (auto simp: newJob_def)
  qed
  with again one ids(4) db1 show ?thesis by simp
qed

theorem enqueue_idempotent_witness:
  "\<exists>q db1. enqueueRenditions demoConv (\<lambda>_. ''j'') 0 ''g'' ''d'' ''m'' ''v'' [''720p'', '' 720p ''] (demoTables []) = (Inr q, db1) \<and>
     q = [''720p''] \<and> enqueueRenditions demoConv (\<lambda>_. ''k'') 1 ''g'' ''d'' ''m'' ''v'' [''720p'', '' 720p ''] db1 = (Inr [], db1)"
proof -
  let ?vs = "[''720p'', '' 720p '']"
  have trims: "js_trim ''m'' = ''m''" "js_trim ''v'' = ''v''" "js_trim ''720p'' = ''720p''" "js_trim '' 720p '' = ''720p''"
    by (simp_all add: js_trim_def is_js_space_def)
  have req: "requestedVariants ?vs = [''720p'']" by (simp add: requestedVariants_def js_unique_def trims)
  have first: "enqueueRenditions demoConv (\<lambda>_. ''j'') 0 ''g'' ''d'' ''m'' ''v'' ?vs (demoTables []) =
      (Inr [''720p''], demoTables [demoJob])"
    by (subst enqueue_run[OF driver_ok_demo, where mid = "''m''" and vid = "''v''" and mu = "''m''" and vu = "''v''"
          and kinds = "[''720p'']"])
       (simp_all add: req requireIdentifier_def trims text_array_round_trip activeConvMember_def versionTarget_def
         demoTables_def hasJob_def js_sort_def demoJob_def newJob_def)
  have wf: "conv_wf demoConv (demoTables [], {})" by (simp add: conv_wf_def demoTables_def)
  have "ce_textArray demoConv (toTextArrayLiteral vs) = Some vs" for vs by (simp add: text_array_round_trip)
  from enqueue_idempotent[OF wf driver_ok_demo this first] first show ?thesis by blast
qed

section \<open>The drain\<close>

definition attemptsLeft :: "conv_env \<Rightarrow> conv_db \<Rightarrow> nat" where
  "attemptsLeft env db = sum_list (map (\<lambda>j. ce_maxAttempts env - j_attempt j) (cv_jobs db))"

text \<open>The columns a claim reads are not empty.\<close>

definition texts_ok :: "conv_db \<Rightarrow> bool" where
  "texts_ok db \<longleftrightarrow>
     (\<forall>j \<in> set (cv_jobs db). j_id j \<noteq> [] \<and> j_groupId j \<noteq> [] \<and> j_materialId j \<noteq> [] \<and> j_versionId j \<noteq> [] \<and> j_kind j \<noteq> []) \<and>
     (\<forall>i v. js_get (cv_versions db) i = Some v \<longrightarrow> vr_contentHash v \<noteq> [] \<and> vr_mimeType v \<noteq> []) \<and>
     (\<forall>i s. js_get (cv_objects db) i = Some s \<longrightarrow> s \<noteq> [])"

text \<open>A pass that meets a temporary directory and no other process. Bucket and renderer may fail in any way.\<close>

definition quiet :: "pass_io \<Rightarrow> bool" where
  "quiet io \<longleftrightarrow> io_locked io = [] \<and> io_meanwhile io = id \<and> (\<exists>directory. io_mkdtemp io = Inr directory)"

definition pass_inv :: "conv_env \<Rightarrow> string set \<Rightarrow> nat \<Rightarrow> conv_db \<Rightarrow> bool" where
  "pass_inv env used n db \<longleftrightarrow> conv_wf env (db, used) \<and> texts_ok db \<and> attemptsLeft env db = n"

lemma sm_wp_try [wp_intros]:
  "sm_wp m Q (\<lambda>e. sm_wp (h e) Q E) s \<Longrightarrow> sm_wp (sm_try m h) Q E s"
  by (auto simp: sm_wp_def sm_try_def split: prod.splits sum.splits)

lemma sm_wp_mapError [wp_intros]: "sm_wp m Q (\<lambda>e. E (f e)) s \<Longrightarrow> sm_wp (sm_mapError f m) Q E s"
  by (auto simp: sm_wp_def sm_mapError_def sm_try_def split: prod.splits sum.splits)

lemma sm_wp_liftI [wp_intros]:
  "(\<And>e. r = Inl e \<Longrightarrow> E e s) \<Longrightarrow> (\<And>a. r = Inr a \<Longrightarrow> Q a s) \<Longrightarrow> sm_wp (sm_lift r) Q E s"
  by (simp add: wp_simps split: sum.split)

lemma update_keeps:
  assumes "\<And>j. j_attempt (f j) = j_attempt j" "\<And>j. j_id (f j) = j_id j" "\<And>j. j_groupId (f j) = j_groupId j"
    "\<And>j. j_materialId (f j) = j_materialId j" "\<And>j. jobKey (f j) = jobKey j"
  shows "attemptsLeft env (updateJob i f db) = attemptsLeft env db" and "texts_ok db \<Longrightarrow> texts_ok (updateJob i f db)"
proof -
  have "map (\<lambda>j. ce_maxAttempts env - j_attempt j) (map (\<lambda>j. if j_id j = i then f j else j) (cv_jobs db)) =
      map (\<lambda>j. ce_maxAttempts env - j_attempt j) (cv_jobs db)"
    by (rule map_update_same) (simp add: assms)
  then show "attemptsLeft env (updateJob i f db) = attemptsLeft env db" by (simp only: attemptsLeft_def updateJob_tables)
  assume "texts_ok db"
  with assms show "texts_ok (updateJob i f db)" by (auto simp: texts_ok_def updateJob_def)
qed

lemma renditions_aside:
  "texts_ok (db\<lparr>cv_renditions := rs\<rparr>) = texts_ok db" "attemptsLeft env (db\<lparr>cv_renditions := rs\<rparr>) = attemptsLeft env db"
  by (simp_all add: texts_ok_def attemptsLeft_def)

lemma failJob_keeps: "pass_inv env used n db \<Longrightarrow> sm_wp (failJob env now c d p) (\<lambda>_. pass_inv env used n) (\<lambda>_ _. False) db"
proof -
  assume i: "pass_inv env used n db"
  let ?f = "failedRow (if p then 1 else ce_maxAttempts env) (boundedDetail d) now"
  have "pass_inv env used n (snd (failJob env now c d p db))"
  proof -
    have "conv_wf env (snd (failJob env now c d p db), used)"
      using i step_wf[OF _ step_fail[of "\<lambda>_. True" c env "\<lambda>_. True" db used now d p]] by (simp add: pass_inv_def)
    moreover have "texts_ok (snd (failJob env now c d p db)) \<and> attemptsLeft env (snd (failJob env now c d p db)) = n"
    proof (cases "ownedJob c db")
      case (Some j)
      have "attemptsLeft env (updateJob (j_id j) ?f db) = attemptsLeft env db" and "texts_ok (updateJob (j_id j) ?f db)"
        using i by (auto intro!: update_keeps simp: failedRow_def pass_inv_def)
      with Some i show ?thesis by (simp only: failJob_eq Let_def option.case snd_conv pass_inv_def simp_thms)
    qed (use i in \<open>simp add: failJob_eq pass_inv_def\<close>)
    ultimately show ?thesis by (simp add: pass_inv_def)
  qed
  moreover have "\<exists>r. fst (failJob env now c d p db) = Inr r"
    by (auto simp: failJob_eq Let_def split: option.split)
  ultimately show ?thesis by (auto simp: sm_wp_def split: prod.splits sum.splits)
qed

lemma completeJob_keeps: "pass_inv env used n db \<Longrightarrow> pass_inv env used n (snd (completeJob env newId now c input db))"
proof -
  assume i: "pass_inv env used n db"
  have "conv_wf env (snd (completeJob env newId now c input db), used)"
    using i step_wf[OF _ step_complete[of "\<lambda>_. True" c env "\<lambda>_. True" db used newId now input]] by (simp add: pass_inv_def)
  moreover have "texts_ok (snd (completeJob env newId now c input db)) \<and>
     attemptsLeft env (snd (completeJob env newId now c input db)) = n"
  proof (rule completeJob_cases[of env newId now c input db])
    fix j rs
    assume e: "completeJob env newId now c input db = (readBoolean (ce_bool env True) ''completed'',
         (updateJob (j_id j) (finishedRow now) db)\<lparr>cv_renditions := rs\<rparr>)"
    have "texts_ok (updateJob (j_id j) (finishedRow now) db)" "attemptsLeft env (updateJob (j_id j) (finishedRow now) db) = n"
      using update_keeps[of "finishedRow now"] i by (simp_all add: finishedRow_def pass_inv_def)
    then show ?thesis unfolding e snd_conv renditions_aside by simp
  qed (use i in \<open>simp add: pass_inv_def\<close>)
  ultimately show ?thesis by (simp add: pass_inv_def)
qed

lemma passFail_keeps:
  "pass_inv env used n db \<Longrightarrow> sm_wp (passFail env now c d p) (\<lambda>out t. out \<noteq> Idle \<and> pass_inv env used n t) (\<lambda>_ _. False) db"
  unfolding passFail_def
  by (intro wp_intros sm_wp_mono[OF failJob_keeps]) auto

lemma convert_keeps:
  assumes "pass_inv env used n db" and "io_meanwhile io = id"
  shows "sm_wp (convert env io c spec dir) (\<lambda>out t. out \<noteq> Idle \<and> pass_inv env used n t) (\<lambda>_. pass_inv env used n) db"
proof -
  have fin: "sm_wp (completeJob env i now c input) (\<lambda>_. pass_inv env used n) (\<lambda>_. pass_inv env used n) db" for i now input
    using completeJob_keeps[OF assms(1)] by (simp add: sm_wp_state)
  show ?thesis
    unfolding convert_def
    by (intro wp_intros) (use assms in \<open>auto intro!: sm_wp_mono[OF fin] simp: wp_simps\<close>)
qed

lemma readClaim_texts:
  assumes "texts_ok db" and "j \<in> set (cv_jobs db)" and "jobSource db j = Some (v, key)" and "driver_ok env"
  shows "\<exists>c. readClaim env (claimedRow env now j) v key = Inr c"
proof -
  have "vr_contentHash v \<noteq> [] \<and> vr_mimeType v \<noteq> [] \<and> key \<noteq> []"
    using assms(1,3) by (auto simp: texts_ok_def jobSource_def split: option.splits)
  moreover have "j_id j \<noteq> [] \<and> j_groupId j \<noteq> [] \<and> j_materialId j \<noteq> [] \<and> j_versionId j \<noteq> [] \<and> j_kind j \<noteq> []"
    using assms(1,2) by (simp add: texts_ok_def)
  moreover have "readInteger (ce_int env (int (Suc (j_attempt j)))) ''attempt'' = Inr (int (Suc (j_attempt j)))"
    using assms(4) by (simp only: driver_ok_def)
  ultimately show ?thesis
    by (simp add: readClaim_def readText_def claimedRow_def readBigInt_intText)
qed

lemma attempts_claimed:
  assumes "distinct (map j_id jobs)" and "j \<in> set jobs" and "j_attempt j < n"
  shows "sum_list (map (\<lambda>k. n - j_attempt k) jobs) =
    Suc (sum_list (map (\<lambda>k. n - j_attempt k) (map (\<lambda>k. if j_id k = j_id j then claimedRow env now k else k) jobs)))"
  using assms
proof (induction jobs)
  case (Cons k jobs)
  show ?case
  proof (cases "k = j")
    case True
    have "map (\<lambda>k. if j_id k = j_id j then claimedRow env now k else k) jobs = jobs"
      using Cons.prems(1) True by (auto intro!: map_idI dest: image_eqI[of _ j_id, OF sym])
    then show ?thesis using True Cons.prems(3) by (simp add: claimedRow_def)
  next
    case False
    then have "j_id k \<noteq> j_id j" using Cons.prems by auto
    with Cons False show ?thesis by simp
  qed
qed simp

lemma claim_keeps:
  assumes i: "pass_inv env used n db" and drv: "driver_ok env" and j: "nextJob env locked now db = Some j"
  obtains c m where "n = Suc m" and "claimNextJob env locked now db = (Inr (Some c), updateJob (j_id j) (claimedRow env now) db)"
    and "pass_inv env used m (updateJob (j_id j) (claimedRow env now) db)"
proof (rule claimNextJob_cases[of env locked now db])
  assume "nextJob env locked now db = None"
  with j show ?thesis by simp
next
  fix k v key
  assume k: "nextJob env locked now db = Some k" and src: "jobSource db k = Some (v, key)"
    and e: "claimNextJob env locked now db = (case readClaim env (claimedRow env now k) v key of
        Inl e \<Rightarrow> Inl e | Inr c \<Rightarrow> Inr (Some c), updateJob (j_id k) (claimedRow env now) db)"
  have kj: "k = j" using k j by simp
  note nj = nextJob_Some[OF k]
  let ?db = "updateJob (j_id j) (claimedRow env now) db"
  have wf: "conv_wf env (db, used)" and texts: "texts_ok db" and n: "attemptsLeft env db = n"
    using i by (simp_all add: pass_inv_def)
  obtain c where "readClaim env (claimedRow env now k) v key = Inr c"
    using readClaim_texts[OF texts nj(1) src drv] by blast
  with e kj have run: "claimNextJob env locked now db = (Inr (Some c), ?db)" by simp
  have "distinct (map j_id (cv_jobs db))" and "j_attempt k < ce_maxAttempts env"
    using wf nj(2) by (simp_all add: conv_wf_def claimable_def)
  from attempts_claimed[OF this(1) nj(1) this(2), of env now]
  have "attemptsLeft env db = Suc (attemptsLeft env ?db)"
    unfolding attemptsLeft_def updateJob_tables kj .
  moreover have "texts_ok ?db" using texts by (auto simp: texts_ok_def updateJob_def claimedRow_def)
  moreover have "conv_wf env (?db, used)" by (rule claim_wf[OF wf run])
  ultimately show ?thesis using that run n by (simp add: pass_inv_def)
qed

lemma sm_wp_bind_run: "m s = (Inr a, t) \<Longrightarrow> sm_wp (f a) Q E t \<Longrightarrow> sm_wp (sm_bind m f) Q E s"
  by (simp add: sm_wp_def sm_bind_def)

text \<open>One quiet pass: idle, or one attempt spent.\<close>

lemma runOnce_quiet:
  assumes i: "pass_inv env used n db" and drv: "driver_ok env" and io: "quiet io"
  shows "(runOnce env limit io db = (Inr Idle, db) \<and> (\<forall>j \<in> set (cv_jobs db). \<not> claimable env (io_claimAt io) db j)) \<or>
    (\<exists>out db' m. runOnce env limit io db = (Inr out, db') \<and> out \<noteq> Idle \<and> n = Suc m \<and> pass_inv env used m db')"
proof (cases "nextJob env (io_locked io) (io_claimAt io) db")
  case None
  then have "runOnce env limit io db = (Inr Idle, db)"
    by (simp add: runOnce_def claimNextJob_def sm_bind_def sm_get_def sm_return_def)
  moreover have "\<forall>j \<in> set (cv_jobs db). \<not> claimable env (io_claimAt io) db j"
    using None[unfolded nextJob_None] io by (simp add: quiet_def)
  ultimately show ?thesis by blast
next
  case (Some j)
  obtain c m where n: "n = Suc m"
    and run: "claimNextJob env (io_locked io) (io_claimAt io) db = (Inr (Some c), updateJob (j_id j) (claimedRow env (io_claimAt io)) db)"
    and inv: "pass_inv env used m (updateJob (j_id j) (claimedRow env (io_claimAt io)) db)"
    by (rule claim_keeps[OF i drv Some])
  obtain dir where io': "io_meanwhile io = id" "io_mkdtemp io = Inr dir" using io by (auto simp: quiet_def)
  let ?db = "updateJob (j_id j) (claimedRow env (io_claimAt io)) db"
  have "sm_wp (runOnce env limit io) (\<lambda>out t. out \<noteq> Idle \<and> pass_inv env used m t) (\<lambda>_ _. False) db"
  proof -
    have body: "sm_wp (sm_try (convert env io c spec dir) (\<lambda>error. passFail env (io_endAt io) c (describeFailure error) False))
        (\<lambda>out t. out \<noteq> Idle \<and> pass_inv env used m t) (\<lambda>_ _. False) ?db" for spec
      by (intro sm_wp_try sm_wp_mono[OF convert_keeps[OF inv io'(1)]]) (auto intro: passFail_keeps)
    have dir: "sm_lift (io_mkdtemp io) ?db = (Inr dir, ?db)" by (simp add: sm_lift_def io'(2))
    show ?thesis
      unfolding runOnce_def
      apply (rule sm_wp_bind_run, rule run, simp only: option.case)
      apply (intro sm_wp_optionI sm_wp_ifI)
        apply (rule passFail_keeps[OF inv])
       apply (rule passFail_keeps[OF inv])
      apply (rule sm_wp_bind_run, rule dir, rule body)
      done
  qed
  then show ?thesis using n by (auto simp: sm_wp_def split: prod.splits sum.splits)
qed

text \<open>
  C26: An undisturbed drain reaches an idle queue. However the bucket and the renderer behave, a drain allowed more
  passes than the queue has attempts left returns, ran at most one pass for each of those attempts, and leaves
  nothing claimable at the moment of its last poll.
\<close>

theorem drain_reaches_idle:
  assumes wf: "conv_wf env (db, used)" and texts: "texts_ok db" and drv: "driver_ok env" and io: "\<And>n. quiet (ios n)"
    and enough: "attemptsLeft env db < maxJobs"
  shows "\<exists>outs db'. runUntilIdle env limit ios maxJobs db = (Inr outs, db') \<and> Idle \<notin> set outs \<and>
    length outs \<le> attemptsLeft env db \<and>
    (\<forall>j \<in> set (cv_jobs db'). \<not> claimable env (io_claimAt (ios (length outs))) db' j)"
proof -
  have "\<exists>outs db'. drainFrom env limit ios taken left db = (Inr outs, db') \<and> Idle \<notin> set outs \<and> length outs \<le> n \<and>
      (\<forall>j \<in> set (cv_jobs db'). \<not> claimable env (io_claimAt (ios (taken + length outs))) db' j)"
    if "pass_inv env used n db" and "n < left" for taken left n db
    using that
  proof (induction left arbitrary: taken n db)
    case (Suc left)
    from runOnce_quiet[OF Suc.prems(1) drv io, of limit taken]
    consider (idle) "runOnce env limit (ios taken) db = (Inr Idle, db)"
        "\<forall>j \<in> set (cv_jobs db). \<not> claimable env (io_claimAt (ios taken)) db j"
      | (ran) out db' m where "runOnce env limit (ios taken) db = (Inr out, db')" "out \<noteq> Idle" "n = Suc m"
        "pass_inv env used m db'"
      by blast
    then show ?case
    proof cases
      case idle
      then show ?thesis by (auto simp: sm_bind_Inr)
    next
      case ran
      from Suc.IH[OF ran(4), of "Suc taken"] Suc.prems(2) ran(3) obtain outs db'' where
        "drainFrom env limit ios (Suc taken) left db' = (Inr outs, db'')" "Idle \<notin> set outs" "length outs \<le> m"
        "\<forall>j \<in> set (cv_jobs db''). \<not> claimable env (io_claimAt (ios (Suc taken + length outs))) db'' j" by auto
      then show ?thesis using ran(1-3)
        by (intro exI[of _ "out # outs"] exI[of _ db'']) (simp add: sm_bind_Inr)
    qed
  qed simp
  from this[of "attemptsLeft env db" db maxJobs 0] wf texts enough show ?thesis
    by (simp add: pass_inv_def runUntilIdle_def)
qed

section \<open>The recorded reason\<close>

lemma collapseSpace_space: "c \<in> set (collapseSpace s) \<Longrightarrow> is_js_space c \<Longrightarrow> c = CHR '' ''"
  by (induction s rule: collapseSpace.induct) (auto split: if_splits)

lemma set_js_trim: "set (js_trim s) \<subseteq> set s"
  by (auto simp: js_trim_def dest!: set_dropWhileD)

text \<open>
  A recorded failure is one bounded line. Whatever the renderer said, the detail is not empty, has at most five
  hundred characters and no white space but blanks; a reason that fits is kept whole, and of a longer one it is the
  end that is kept, behind an ellipsis.
\<close>

theorem boundedDetail_line:
  "boundedDetail d \<noteq> [] \<and> length (boundedDetail d) \<le> 500 \<and>
   (\<forall>c \<in> set (boundedDetail d). is_js_space c \<longrightarrow> c = CHR '' '') \<and>
   (let line = js_trim (collapseSpace d) in
      (line \<noteq> [] \<and> length line \<le> 500 \<longrightarrow> boundedDetail d = line) \<and>
      (500 < length line \<longrightarrow> length (boundedDetail d) = 500 \<and>
         (\<exists>front. line = front @ drop 3 (boundedDetail d)) \<and> take 3 (boundedDetail d) = ''...''))"
proof -
  let ?line = "js_trim (collapseSpace d)"
  have blank: "\<forall>c \<in> set ?line. is_js_space c \<longrightarrow> c = CHR '' ''"
    using set_js_trim[of "collapseSpace d"] collapseSpace_space[of _ d] by blast
  consider (empty) "?line = []" | (short) "?line \<noteq> []" "length ?line \<le> 500" | (long) "500 < length ?line" by force
  then show ?thesis
  proof cases
    case empty
    then show ?thesis by (simp add: boundedDetail_def is_js_space_def Let_def)
  next
    case short
    with blank show ?thesis by (simp add: boundedDetail_def maxDetailLength_def Let_def)
  next
    case long
    then have d: "boundedDetail d = ''...'' @ drop (length ?line - 497) ?line"
      by (auto simp: boundedDetail_def maxDetailLength_def Let_def)
    have "\<forall>c \<in> set (drop (length ?line - 497) ?line). is_js_space c \<longrightarrow> c = CHR '' ''"
      using blank by (meson in_set_dropD)
    then show ?thesis using long d
      by (auto simp: is_js_space_def[of "CHR ''.''"] Let_def intro!: exI[of _ "take (length ?line - 497) ?line"])
  qed
qed

theorem boundedDetail_line_witness: "boundedDetail '' no  frame '' = ''no frame''"
proof -
  have "js_trim (collapseSpace '' no  frame '') = ''no frame''" by (simp add: js_trim_def is_js_space_def)
  then show ?thesis using boundedDetail_line[of "'' no  frame ''"] by (simp add: Let_def)
qed

definition demoPass :: "nat \<Rightarrow> pass_io" where
  "demoPass n = \<lparr>io_claimAt = int n * 200, io_endAt = int n * 200 + 10, io_locked = [], io_newId = ''r'',
     io_mkdtemp = Inr ''/t'', io_download = (\<lambda>_ _. Inl NonErrorValue),
     io_render = \<lparr>re_ffmpegPath = ''ffmpeg'', re_ffprobePath = ''ffprobe'', re_timeoutMs = 90,
       re_run = (\<lambda>_ _ _. \<lparr>pc_code = None, pc_stdout = [], pc_stderr = [], pc_timedOut = True\<rparr>), re_stat = (\<lambda>_. None)\<rparr>,
     io_upload = (\<lambda>_ _ _. Inr ()), io_meanwhile = id\<rparr>"

theorem drain_reaches_idle_witness:
  "\<exists>outs db'. runUntilIdle demoConv 100 demoPass 3 (demoTables [demoJob]) = (Inr outs, db') \<and> length outs \<le> 2 \<and>
    (\<forall>j \<in> set (cv_jobs db'). \<not> claimable demoConv (io_claimAt (demoPass (length outs))) db' j)"
proof -
  have left: "attemptsLeft demoConv (demoTables [demoJob]) = 2" by (simp add: attemptsLeft_def demo_defs)
  have texts: "texts_ok (demoTables [demoJob])"
    by (auto simp: texts_ok_def demo_defs split: if_splits)
  have "quiet (demoPass n)" for n by (simp add: quiet_def demoPass_def)
  from drain_reaches_idle[where ios = demoPass, OF demo_wf texts driver_ok_demo this, of 3 100] left show ?thesis by auto
qed

end
