(* ===== verification/Group_Feed.thy ===== *)
theory Group_Feed
  imports Event_Log
begin

text \<open>
  The group's event feed for a client that polls: the cadence
  (\<open>apps/hq/src/application/sync/groupEventFeed.ts\<close>), the channel that owns the applied position
  (\<open>infrastructure/controlPlane/ControlPlaneGroupChannel.ts\<close>), the poller
  (\<open>infrastructure/controlPlane/GroupEventPoller.ts\<close>) and the call it makes, \<open>readGroupEvents\<close> of the control
  plane's \<open>sync/service.ts\<close> (from the page size on; the authentication before it is that of the runtime).

  The poller is cut where it awaits: a timer fires, a read settles, a snapshot settles. An abort controller
  is a number; \<open>pl_aborted\<close> lists the aborted ones. The subscribers of the channel are what it handed out,
  \<open>ch_heard\<close>; they are taken not to throw.
\<close>

section \<open>The cadence\<close>

datatype group_event_delivery = Socket | Poll

datatype poll_outcome = Applied bool | Quiet | PollFailed | Resynced

record poll_state =
  gp_visible :: bool
  gp_quietPolls :: nat
  gp_catchingUp :: bool

definition foregroundMs :: nat where "foregroundMs = 5000"
definition hiddenMs :: nat where "hiddenMs = 15000"
definition idleFloorMs :: nat where "idleFloorMs = 30000"
definition idleCeilingMs :: nat where "idleCeilingMs = 60000"
definition quietPollsBeforeFloor :: nat where "quietPollsBeforeFloor = 4"
definition quietPollsBeforeCeiling :: nat where "quietPollsBeforeCeiling = 8"

lemmas cadence_defs = foregroundMs_def hiddenMs_def idleFloorMs_def idleCeilingMs_def
  quietPollsBeforeFloor_def quietPollsBeforeCeiling_def

definition pollingPlaybackLeadMs :: nat where
  "pollingPlaybackLeadMs = foregroundMs + 1000"

definition initialGroupPollState :: "bool \<Rightarrow> poll_state" where
  "initialGroupPollState visible = \<lparr>gp_visible = visible, gp_quietPolls = 0, gp_catchingUp = True\<rparr>"

definition groupPollDelayMs :: "poll_state \<Rightarrow> nat" where
  "groupPollDelayMs st =
     (if gp_catchingUp st then 0
      else if gp_visible st then foregroundMs
      else if gp_quietPolls st \<ge> quietPollsBeforeCeiling then idleCeilingMs
      else if gp_quietPolls st \<ge> quietPollsBeforeFloor then idleFloorMs
      else hiddenMs)"

fun nextGroupPollState :: "poll_state \<Rightarrow> poll_outcome \<Rightarrow> poll_state" where
  "nextGroupPollState st (Applied hasMore) = st\<lparr>gp_quietPolls := 0, gp_catchingUp := hasMore\<rparr>"
| "nextGroupPollState st Resynced = st\<lparr>gp_quietPolls := 0, gp_catchingUp := True\<rparr>"
| "nextGroupPollState st _ =
     st\<lparr>gp_quietPolls := min (gp_quietPolls st + 1) quietPollsBeforeCeiling, gp_catchingUp := False\<rparr>"

definition withGroupPollVisibility :: "poll_state \<Rightarrow> bool \<Rightarrow> poll_state" where
  "withGroupPollVisibility st visible =
     (if gp_visible st = visible then st
      else if visible then st\<lparr>gp_visible := visible, gp_quietPolls := 0\<rparr>
      else st\<lparr>gp_visible := visible\<rparr>)"

definition playbackLeadForDelivery :: "group_event_delivery \<Rightarrow> nat \<Rightarrow> nat" where
  "playbackLeadForDelivery delivery configuredLeadMs =
     (if delivery = Poll then max configuredLeadMs pollingPlaybackLeadMs else configuredLeadMs)"

section \<open>The channel\<close>

record channel =
  ch_applied :: int
  ch_heard :: "group_event list"

definition channelAccept :: "int \<Rightarrow> channel \<Rightarrow> bool \<times> channel" where
  "channelAccept n ch = (if n \<le> ch_applied ch then (False, ch) else (True, ch\<lparr>ch_applied := n\<rparr>))"

definition channelDeliver :: "group_event \<Rightarrow> channel \<Rightarrow> channel" where
  "channelDeliver event ch =
     (case channelAccept (ev_sequence event) ch of
        (False, ch') \<Rightarrow> ch'
      | (True, ch') \<Rightarrow> ch'\<lparr>ch_heard := ch_heard ch' @ [event]\<rparr>)"

definition rewindTo :: "int \<Rightarrow> channel \<Rightarrow> channel" where
  "rewindTo n ch = ch\<lparr>ch_applied := (if n < 0 then 0 else n)\<rparr>"

section \<open>The page the control plane answers\<close>

record event_page =
  pg_events :: "group_event list"
  pg_earliest :: int
  pg_hasMore :: bool
  pg_resyncRequired :: bool

definition lastSequence :: "group_event list \<Rightarrow> int option" where
  "lastSequence events = (if events = [] then None else Some (ev_sequence (last events)))"

definition readGroupEvents ::
  "(string \<Rightarrow> int \<Rightarrow> int \<Rightarrow> ('s, rt_error, realtime_replay) sm) \<Rightarrow> string \<Rightarrow> int \<Rightarrow> int \<Rightarrow>
   ('s, rt_error, event_page) sm" where
  "readGroupEvents replay groupId afterSequence requestedLimit =
     (case normalizePageSize requestedLimit (nat defaultRealtimeReplayLimit) (nat defaultRealtimeReplayLimit) of
        Inl _ \<Rightarrow> sm_throw (PairedDeviceRuntimeError INVALID_ARGUMENT ''limit must be between 1 and 512.'')
      | Inr limit \<Rightarrow>
          sm_bind (replay groupId afterSequence (int limit)) (\<lambda>page.
          case decideReplay afterSequence (rp_earliestSequence page) of
            Resync earliest \<Rightarrow>
              sm_return \<lparr>pg_events = [], pg_earliest = earliest, pg_hasMore = False, pg_resyncRequired = True\<rparr>
          | Replay \<Rightarrow>
              sm_bind (case lastSequence (rp_events page) of
                         None \<Rightarrow> sm_return False
                       | Some l \<Rightarrow>
                           if length (rp_events page) \<ge> limit
                           then sm_bind (replay groupId l 1) (\<lambda>probe. sm_return (rp_events probe \<noteq> []))
                           else sm_return False) (\<lambda>hasMore.
              sm_return \<lparr>pg_events = rp_events page,
                pg_earliest = (case rp_earliestSequence page of None \<Rightarrow> 0 | Some e \<Rightarrow> e),
                pg_hasMore = hasMore, pg_resyncRequired = False\<rparr>)))"

section \<open>The poller\<close>

datatype poll_work = Reading nat int | Resyncing nat int

record poller =
  pl_started :: bool
  pl_inFlight :: bool
  pl_state :: poll_state
  pl_tick :: "nat option"
  pl_subscribed :: bool
  pl_controller :: "nat option"
  pl_nextController :: nat
  pl_aborted :: "nat list"
  pl_resyncCount :: nat
  pl_onResync :: bool
  pl_work :: "poll_work option"
  pl_channel :: channel
  pl_statuses :: "(int \<times> nat) list"

definition newPoller :: "bool \<Rightarrow> bool \<Rightarrow> channel \<Rightarrow> poller" where
  "newPoller onResync visible ch =
     \<lparr>pl_started = False, pl_inFlight = False, pl_state = initialGroupPollState visible, pl_tick = None,
      pl_subscribed = False, pl_controller = None, pl_nextController = 0, pl_aborted = [], pl_resyncCount = 0,
      pl_onResync = onResync, pl_work = None, pl_channel = ch, pl_statuses = []\<rparr>"

definition pollerEmit :: "poller \<Rightarrow> poller" where
  "pollerEmit p = p\<lparr>pl_statuses := pl_statuses p @ [(ch_applied (pl_channel p), pl_resyncCount p)]\<rparr>"

definition pollerArm :: "poller \<Rightarrow> poller" where
  "pollerArm p =
     (if \<not> pl_started p \<or> pl_inFlight p then p\<lparr>pl_tick := None\<rparr>
      else p\<lparr>pl_tick := Some (groupPollDelayMs (pl_state p))\<rparr>)"

definition pollerStart :: "bool \<Rightarrow> poller \<Rightarrow> poller" where
  "pollerStart visible p =
     (if pl_started p then p
      else pollerArm (pollerEmit
        (p\<lparr>pl_started := True, pl_state := initialGroupPollState visible, pl_subscribed := True\<rparr>)))"

definition pollerStop :: "poller \<Rightarrow> poller" where
  "pollerStop p =
     p\<lparr>pl_started := False, pl_tick := None, pl_subscribed := False,
       pl_aborted := (case pl_controller p of None \<Rightarrow> pl_aborted p | Some c \<Rightarrow> c # pl_aborted p),
       pl_controller := None\<rparr>"

definition onVisibilityChanged :: "bool \<Rightarrow> poller \<Rightarrow> poller" where
  "onVisibilityChanged visible p =
     (if \<not> pl_started p then p
      else if gp_visible (pl_state p) = visible then p
      else pollerArm (p\<lparr>pl_state := withGroupPollVisibility (pl_state p) visible\<rparr>))"

text \<open>The timer's callback and the part of \<open>#tick\<close> before its first await.\<close>

definition pollerTick :: "poller \<Rightarrow> poller" where
  "pollerTick p =
     (if pl_tick p = None then p
      else
        let p' = p\<lparr>pl_tick := None\<rparr> in
        if \<not> pl_started p' \<or> pl_inFlight p' then p'
        else p'\<lparr>pl_inFlight := True, pl_controller := Some (pl_nextController p'),
                pl_nextController := pl_nextController p' + 1,
                pl_work := Some (Reading (pl_nextController p') (ch_applied (pl_channel p')))\<rparr>)"

definition isAborted :: "nat \<Rightarrow> poller \<Rightarrow> bool" where
  "isAborted c p \<longleftrightarrow> c \<in> set (pl_aborted p)"

text \<open>The rest of \<open>#tick\<close>, once an outcome is known.\<close>

definition settleTick :: "nat \<Rightarrow> poll_outcome \<Rightarrow> poller \<Rightarrow> poller" where
  "settleTick c outcome p =
     (let p' = p\<lparr>pl_inFlight := False, pl_work := None,
                 pl_controller := (if pl_controller p = Some c then None else pl_controller p)\<rparr> in
      if isAborted c p' \<or> \<not> pl_started p' then p'
      else pollerArm (pollerEmit (p'\<lparr>pl_state := nextGroupPollState (pl_state p') outcome\<rparr>)))"

definition readSettles :: "rt_error + event_page \<Rightarrow> poller \<Rightarrow> poller" where
  "readSettles result p =
     (case pl_work p of
        Some (Reading c requestedAfterSequence) \<Rightarrow>
          (case result of
             Inl _ \<Rightarrow> settleTick c PollFailed p
           | Inr page \<Rightarrow>
               if isAborted c p \<or> \<not> pl_started p then settleTick c PollFailed p
               else if pg_resyncRequired page
               then let p' = p\<lparr>pl_resyncCount := pl_resyncCount p + 1\<rparr> in
                    if pl_onResync p then p'\<lparr>pl_work := Some (Resyncing c (pg_earliest page))\<rparr>
                    else settleTick c Resynced
                           (p'\<lparr>pl_channel := rewindTo (max 0 (pg_earliest page - 1)) (pl_channel p')\<rparr>)
               else settleTick c (if pg_events page = [] then Quiet else Applied (pg_hasMore page))
                      (p\<lparr>pl_channel := fold channelDeliver (pg_events page) (pl_channel p)\<rparr>))
      | _ \<Rightarrow> p)"

text \<open>The snapshot collaborator answers: an error, no snapshot, or the sequence of one.\<close>

definition resyncSettles :: "rt_error + int option \<Rightarrow> poller \<Rightarrow> poller" where
  "resyncSettles result p =
     (case pl_work p of
        Some (Resyncing c earliest) \<Rightarrow>
          let fallback = max 0 (earliest - 1);
              target = (case result of Inr (Some n) \<Rightarrow> n | _ \<Rightarrow> fallback) in
          settleTick c Resynced
            (if isAborted c p then p else p\<lparr>pl_channel := rewindTo target (pl_channel p)\<rparr>)
      | _ \<Rightarrow> p)"

text \<open>What can happen to a poller.\<close>

datatype feed_event =
    FStart bool | FStop | FVisible bool | FTick | FRead "rt_error + event_page" | FResync "rt_error + int option"

fun feedDo :: "feed_event \<Rightarrow> poller \<Rightarrow> poller" where
  "feedDo (FStart visible) p = pollerStart visible p"
| "feedDo FStop p = pollerStop p"
| "feedDo (FVisible visible) p = onVisibilityChanged visible p"
| "feedDo FTick p = pollerTick p"
| "feedDo (FRead result) p = readSettles result p"
| "feedDo (FResync result) p = resyncSettles result p"

definition feedRun :: "feed_event list \<Rightarrow> poller \<Rightarrow> poller" where
  "feedRun events p = fold feedDo events p"

end
