(* ===== verification/Group_Feed_Correct.thy ===== *)
theory Group_Feed_Correct
  imports Group_Feed
begin

text \<open>
  What the polled feed promises, alone and over the control plane's log: its cadence never hammers a failing
  server, a stopped feed is silent and a running one is never deaf, merged feeds hand out the log once and in
  order, and a feed inside the retained window catches up. Two theorems show what it does not promise: a snapshot
  older than the window makes it ask for ever without delay, and a feed restarted during a read is deaf.
\<close>

section \<open>The cadence\<close>

datatype cadence_event = Outcome poll_outcome | Visibility bool

fun cadenceDo :: "cadence_event \<Rightarrow> poll_state \<Rightarrow> poll_state" where
  "cadenceDo (Outcome outcome) st = nextGroupPollState st outcome"
| "cadenceDo (Visibility visible) st = withGroupPollVisibility st visible"

definition cadence_ok :: "poll_state \<Rightarrow> bool" where
  "cadence_ok st \<longleftrightarrow> gp_quietPolls st \<le> 8"

lemma cadenceDo_ok: "cadence_ok st \<Longrightarrow> cadence_ok (cadenceDo e st)"
proof (cases e)
  case (Outcome outcome)
  then show "cadence_ok st \<Longrightarrow> cadence_ok (cadenceDo e st)"
    by (cases outcome) (auto simp: cadence_ok_def quietPollsBeforeCeiling_def)
qed (auto simp: cadence_ok_def withGroupPollVisibility_def)

interpretation cadence: invariant_system "\<lambda>st. \<exists>v. st = initialGroupPollState v" "\<lambda>st t. \<exists>e. t = cadenceDo e st" cadence_ok
  by unfold_locales (auto simp: initialGroupPollState_def cadence_ok_def cadenceDo_ok[unfolded cadence_ok_def])

lemma cadence_history: "cadence_ok (fold cadenceDo es (initialGroupPollState v))"
  by (rule fold_preserves[where P = cadence_ok], erule cadenceDo_ok) (simp add: cadence_ok_def initialGroupPollState_def)

text \<open>
  The cadence of the polled feed is bounded. In every history of outcomes and of visibility: the next tick is due
  at once, or after five, fifteen, thirty or sixty seconds; at once only while the log is known to hold more; a visible
  tab never waits longer than five seconds, which the playback lead of a polled delivery covers by a second; and after
  an empty page, and after a failed call just as well, it waits at least five.
\<close>

theorem feed_cadence_bounded:
  fixes es v outcome
  defines "st \<equiv> fold cadenceDo es (initialGroupPollState v)"
  shows "gp_quietPolls st \<le> 8 \<and> groupPollDelayMs st \<in> {0, 5000, 15000, 30000, 60000} \<and>
    (groupPollDelayMs st = 0 \<longleftrightarrow> gp_catchingUp st) \<and>
    (gp_visible st \<longrightarrow> groupPollDelayMs st + 1000 \<le> playbackLeadForDelivery Poll lead) \<and>
    5000 \<le> groupPollDelayMs (nextGroupPollState st Quiet) \<and> 5000 \<le> groupPollDelayMs (nextGroupPollState st PollFailed)"
  using cadence_history[of es v]
  by (simp add: st_def cadence_ok_def groupPollDelayMs_def playbackLeadForDelivery_def pollingPlaybackLeadMs_def cadence_defs le_max_iff_disj)

theorem feed_cadence_bounded_witness:
  "5000 \<le> groupPollDelayMs (nextGroupPollState (fold cadenceDo [Outcome (Applied True), Visibility False] (initialGroupPollState True)) PollFailed)"
  using feed_cadence_bounded[of "[Outcome (Applied True), Visibility False]" True 40] by blast

section \<open>Life of a poller\<close>

definition workController :: "poll_work \<Rightarrow> nat" where
  "workController w = (case w of Reading c _ \<Rightarrow> c | Resyncing c _ \<Rightarrow> c)"

lemmas poller_defs = pollerStart_def pollerStop_def pollerArm_def pollerEmit_def onVisibilityChanged_def pollerTick_def
  readSettles_def resyncSettles_def settleTick_def isAborted_def workController_def Let_def

text \<open>A read in flight carries the poller's controller, or an aborted one.\<close>

definition work_ok :: "poller \<Rightarrow> bool" where
  "work_ok p \<longleftrightarrow> (\<forall>w. pl_work p = Some w \<longrightarrow>
     pl_controller p = Some (workController w) \<or> isAborted (workController w) p)"

lemma feedDo_work: "work_ok p \<Longrightarrow> work_ok (feedDo e p)"
  by (cases e) (auto simp: work_ok_def poller_defs split: option.splits poll_work.splits sum.splits)

lemma feedRun_work: "work_ok (feedRun es (newPoller r v ch))"
  unfolding feedRun_def
  by (rule fold_preserves[where P = work_ok], erule feedDo_work) (simp add: work_ok_def newPoller_def)

text \<open>What stays put once a feed has been stopped.\<close>

definition silent :: "channel \<Rightarrow> (int \<times> nat) list \<Rightarrow> poller \<Rightarrow> bool" where
  "silent ch statuses p \<longleftrightarrow> \<not> pl_started p \<and> pl_tick p = None \<and> pl_channel p = ch \<and> pl_statuses p = statuses \<and>
     (\<forall>w. pl_work p = Some w \<longrightarrow> isAborted (workController w) p)"

lemma feedDo_silent: "silent ch sts p \<Longrightarrow> (\<And>v. e \<noteq> FStart v) \<Longrightarrow> silent ch sts (feedDo e p)"
  by (cases e) (auto simp: silent_def poller_defs split: option.splits poll_work.splits sum.splits)

text \<open>
  A stopped feed is silent. Whatever happened before, and whatever settles afterwards, a page that was in flight, a
  snapshot, a timer or a change of visibility: until it is started again a stopped feed hands out no event, moves no
  position, reports no status and arms no timer.
\<close>

theorem stopped_feed_is_silent:
  fixes before onResync visible ch
  defines "p \<equiv> feedRun before (newPoller onResync visible ch)"
  assumes "\<And>v. FStart v \<notin> set later"
  shows "pl_channel (feedRun (FStop # later) p) = pl_channel p \<and> pl_statuses (feedRun (FStop # later) p) = pl_statuses p \<and>
    pl_tick (feedRun (FStop # later) p) = None"
proof -
  have "silent (pl_channel p) (pl_statuses p) (pollerStop p)"
    using feedRun_work[of before onResync visible ch]
    by (auto simp: p_def silent_def work_ok_def pollerStop_def isAborted_def split: option.splits)
  then have "silent (pl_channel p) (pl_statuses p) (fold feedDo later (pollerStop p))"
    by (intro fold_preserves[where P = "silent (pl_channel p) (pl_statuses p)"]) (auto intro: feedDo_silent dest: assms(2)[THEN notE])
  then show ?thesis by (simp add: feedRun_def silent_def)
qed

theorem stopped_feed_is_silent_witness:
  "pl_statuses (feedRun [FStop, FRead (Inl (PlainError [])), FTick] (feedRun [FStart True, FTick] (newPoller True True \<lparr>ch_applied = 0, ch_heard = []\<rparr>))) =
   pl_statuses (feedRun [FStart True, FTick] (newPoller True True \<lparr>ch_applied = 0, ch_heard = []\<rparr>))"
  using stopped_feed_is_silent[of "[FRead (Inl (PlainError [])), FTick]" "[FStart True, FTick]" True True "\<lparr>ch_applied = 0, ch_heard = []\<rparr>"]
  by simp

text \<open>A running feed: exactly one of a timer and a read.\<close>

definition attentive :: "poller \<Rightarrow> bool" where
  "attentive p \<longleftrightarrow> pl_started p \<and> pl_aborted p = [] \<and> (pl_inFlight p \<longleftrightarrow> pl_work p \<noteq> None) \<and>
     (pl_tick p \<noteq> None \<longleftrightarrow> pl_work p = None)"

lemma feedDo_attentive: "attentive p \<Longrightarrow> e \<noteq> FStop \<Longrightarrow> attentive (feedDo e p)"
  by (cases e) (auto simp: attentive_def poller_defs split: option.splits poll_work.splits sum.splits)

text \<open>
  A running feed is never deaf. From its start on, and until it is stopped, a feed has at every moment either a
  timer armed or one read in flight, never both: no failure, no resynchronization and no change of visibility leaves it
  waiting for nothing or reading twice at once.
\<close>

theorem running_feed_is_never_deaf:
  assumes "FStop \<notin> set events"
  shows "let p = feedRun (FStart visible # events) (newPoller onResync visible0 ch) in
    pl_started p \<and> (pl_tick p \<noteq> None \<longleftrightarrow> pl_work p = None)"
proof -
  have "attentive (pollerStart visible (newPoller onResync visible0 ch))"
    by (simp add: attentive_def newPoller_def poller_defs)
  then have "attentive (fold feedDo events (pollerStart visible (newPoller onResync visible0 ch)))"
    by (intro fold_preserves[where P = attentive]) (use assms in \<open>auto intro: feedDo_attentive\<close>)
  then show ?thesis by (simp add: feedRun_def attentive_def Let_def)
qed

theorem running_feed_is_never_deaf_witness:
  "let p = feedRun [FStart True, FTick, FRead (Inl (PlainError []))] (newPoller True True \<lparr>ch_applied = 0, ch_heard = []\<rparr>) in
    pl_started p \<and> (pl_tick p \<noteq> None \<longleftrightarrow> pl_work p = None)"
  by (rule running_feed_is_never_deaf) simp

text \<open>
  A feed restarted during a read is deaf. Stopping aborts the read but leaves it in flight; starting again arms no
  timer because of it, and when it settles its continuation is that of the aborted run and arms none either. The feed
  is started, with no timer and no read.
\<close>

theorem restart_during_read_is_deaf:
  "let p = feedRun [FStart True, FTick, FStop, FStart True, FRead result] (newPoller onResync True ch) in
    pl_started p \<and> pl_tick p = None \<and> pl_work p = None"
  by (cases result) (auto simp: feedRun_def newPoller_def poller_defs)

section \<open>The channel\<close>

text \<open>A log: ascending sequences.\<close>

definition ascending :: "group_event list \<Rightarrow> bool" where
  "ascending es \<longleftrightarrow> sorted_wrt (\<lambda>x y. ev_sequence x < ev_sequence y) es"

definition newer :: "int \<Rightarrow> group_event list \<Rightarrow> group_event list" where
  "newer c es = filter (\<lambda>e. c < ev_sequence e) es"

definition slice :: "int \<Rightarrow> int \<Rightarrow> group_event list \<Rightarrow> group_event list" where
  "slice a b es = filter (\<lambda>e. a < ev_sequence e \<and> ev_sequence e \<le> b) es"

lemma ascending_Cons: "ascending (e # es) \<longleftrightarrow> (\<forall>x \<in> set es. ev_sequence e < ev_sequence x) \<and> ascending es"
  by (simp add: ascending_def)

lemma ascending_filter: "ascending es \<Longrightarrow> ascending (filter P es)"
  by (simp add: ascending_def sorted_wrt_filter)

lemma ascending_to_last: "ascending es \<Longrightarrow> e \<in> set es \<Longrightarrow> ev_sequence e \<le> ev_sequence (last es)"
proof (induction es)
  case (Cons x es)
  show ?case
  proof (cases "es = []")
    case True
    with Cons.prems show ?thesis by simp
  next
    case False
    then have "last es \<in> set es" by simp
    with Cons False show ?thesis by (auto simp: ascending_Cons less_imp_le)
  qed
qed simp

text \<open>Of a page the channel hands out what is newer than its position, and moves to the last of it.\<close>

lemma deliver_page:
  assumes "ascending es"
  shows "fold channelDeliver es ch =
    ch\<lparr>ch_applied := (if newer (ch_applied ch) es = [] then ch_applied ch else ev_sequence (last es)),
       ch_heard := ch_heard ch @ newer (ch_applied ch) es\<rparr>"
  using assms
proof (induction es arbitrary: ch)
  case Nil
  then show ?case by (simp add: newer_def)
next
  case (Cons e es)
  then have e: "\<forall>x \<in> set es. ev_sequence e < ev_sequence x" and rest: "ascending es" by (simp_all add: ascending_Cons)
  show ?case
  proof (cases "ev_sequence e \<le> ch_applied ch")
    case True
    have "fold channelDeliver (e # es) ch = fold channelDeliver es ch"
      using True by (simp add: channelDeliver_def channelAccept_def)
    moreover have "newer (ch_applied ch) (e # es) = newer (ch_applied ch) es" using True by (simp add: newer_def)
    moreover have "es \<noteq> []" if "newer (ch_applied ch) es \<noteq> []" using that by (auto simp: newer_def)
    ultimately show ?thesis using Cons.IH[OF rest, of ch] by auto
  next
    case False
    let ?ch = "ch\<lparr>ch_applied := ev_sequence e, ch_heard := ch_heard ch @ [e]\<rparr>"
    have "fold channelDeliver (e # es) ch = fold channelDeliver es ?ch"
      using False by (simp add: channelDeliver_def channelAccept_def)
    moreover have "newer (ev_sequence e) es = es" using e by (simp add: newer_def)
    moreover have "newer (ch_applied ch) (e # es) = e # es"
      unfolding newer_def by (rule filter_True) (use e False in auto)
    ultimately show ?thesis using Cons.IH[OF rest, of ?ch] by simp
  qed
qed

text \<open>
  Pages of one log as intervals, delivered one after the other by any number of feeds: a feed reads from a position
  the channel had, so a page does not start above the position the channel has when it arrives.
\<close>

fun gapless :: "int \<Rightarrow> (int \<times> int) list \<Rightarrow> bool" where
  "gapless c [] = True"
| "gapless c ((a, b) # ps) = (a \<le> c \<and> gapless (max c b) ps)"

fun reached :: "int \<Rightarrow> (int \<times> int) list \<Rightarrow> int" where
  "reached c [] = c"
| "reached c ((a, b) # ps) = reached (max c b) ps"

definition deliverPages :: "group_event list \<Rightarrow> (int \<times> int) list \<Rightarrow> channel \<Rightarrow> channel" where
  "deliverPages es ps ch = fold (\<lambda>(a, b). fold channelDeliver (slice a b es)) ps ch"

definition stands_at :: "int \<Rightarrow> group_event list \<Rightarrow> channel \<Rightarrow> bool" where
  "stands_at c es ch \<longleftrightarrow> (\<forall>e \<in> set es. ch_applied ch < ev_sequence e \<longleftrightarrow> c < ev_sequence e)"

lemma reached_mono: "c \<le> reached c ps"
proof (induction ps arbitrary: c)
  case (Cons p ps)
  obtain a b where "p = (a, b)" by (cases p)
  then show ?case using Cons.IH[of "max c b"] by simp
qed simp

lemma slice_append:
  assumes "ascending es" and "c \<le> d" and "d \<le> r"
  shows "slice c d es @ slice d r es = slice c r es"
  using assms
proof (induction es)
  case (Cons e es)
  have none: "slice c d es = []" if "d < ev_sequence e"
    using Cons.prems(1) that by (force simp: slice_def ascending_Cons filter_empty_conv)
  have ih: "slice c d es @ slice d r es = slice c r es" using Cons by (simp add: ascending_Cons)
  show ?case
  proof (cases "d < ev_sequence e")
    case True
    with none ih Cons.prems(2,3) show ?thesis by (simp add: slice_def)
  next
    case False
    with ih Cons.prems(2,3) show ?thesis by (auto simp: slice_def)
  qed
qed (simp add: slice_def)

lemma deliver_slice:
  assumes asc: "ascending es" and at: "stands_at c es ch" and a: "a \<le> c"
  shows "ch_heard (fold channelDeliver (slice a b es) ch) = ch_heard ch @ slice c (max c b) es"
    and "stands_at (max c b) es (fold channelDeliver (slice a b es) ch)"
proof -
  have s: "ascending (slice a b es)" using asc by (simp add: slice_def ascending_filter)
  have new: "newer (ch_applied ch) (slice a b es) = slice c (max c b) es"
    unfolding newer_def slice_def filter_filter
    by (rule filter_cong[OF refl]) (use at a in \<open>auto simp: stands_at_def\<close>)
  show "ch_heard (fold channelDeliver (slice a b es) ch) = ch_heard ch @ slice c (max c b) es"
    unfolding deliver_page[OF s] new by simp
  show "stands_at (max c b) es (fold channelDeliver (slice a b es) ch)"
  proof (cases "slice c (max c b) es = []")
    case True
    then have "\<not> (c < ev_sequence e \<and> ev_sequence e \<le> max c b)" if "e \<in> set es" for e
      using that by (auto simp: slice_def filter_empty_conv)
    with True at show ?thesis unfolding deliver_page[OF s] new by (force simp: stands_at_def)
  next
    case False
    let ?l = "last (slice a b es)"
    have ne: "slice a b es \<noteq> []" using False new by (auto simp: newer_def)
    then have l: "?l \<in> set es" "ev_sequence ?l \<le> b" using last_in_set[OF ne] by (auto simp: slice_def)
    have top: "ev_sequence e \<le> ev_sequence ?l" if "e \<in> set es" "a < ev_sequence e" "ev_sequence e \<le> b" for e
      by (rule ascending_to_last[OF s]) (use that in \<open>simp add: slice_def\<close>)
    obtain x where x: "x \<in> set es" "c < ev_sequence x" "ev_sequence x \<le> max c b"
      using False by (auto simp: slice_def filter_empty_conv)
    then have "c < ev_sequence ?l" using top[of x] a by linarith
    then have "ev_sequence ?l < ev_sequence e \<longleftrightarrow> max c b < ev_sequence e" if "e \<in> set es" for e
      using top[OF that] l(2) a by (cases "ev_sequence e \<le> b") auto
    with False show ?thesis unfolding deliver_page[OF s] new by (simp add: stands_at_def)
  qed
qed

text \<open>
  C29: Feeds merged into one channel hand out the log once and in order. Let a socket and pollers, of any number of
  planes, deliver pages of one log in any interleaving, each page a run of the log read from a position the channel
  had reached. What the subscribers hear is exactly the log from the first position to the furthest one reached: no
  event twice, none missing, none out of order, whatever pages repeat each other.
\<close>

theorem merged_feeds_hear_the_log:
  assumes "ascending es" and "gapless (ch_applied ch) pages"
  shows "ch_heard (deliverPages es pages ch) =
    ch_heard ch @ slice (ch_applied ch) (reached (ch_applied ch) pages) es"
proof -
  have "ch_heard (deliverPages es pages ch) = ch_heard ch @ slice c (reached c pages) es"
    if "gapless c pages" and "stands_at c es ch" for c
    using that
  proof (induction pages arbitrary: c ch)
    case Nil
    have "slice c c es = []" by (auto simp: slice_def)
    then show ?case by (simp add: deliverPages_def)
  next
    case (Cons p pages)
    obtain a b where p: "p = (a, b)" by (cases p)
    then have a: "a \<le> c" and rest: "gapless (max c b) pages" using Cons.prems(1) by simp_all
    let ?ch = "fold channelDeliver (slice a b es) ch"
    note d = deliver_slice[OF assms(1) Cons.prems(2) a, of b]
    have "ch_heard (deliverPages es pages ?ch) = ch_heard ?ch @ slice (max c b) (reached (max c b) pages) es"
      by (rule Cons.IH[OF rest d(2)])
    also have "\<dots> = ch_heard ch @ slice c (reached (max c b) pages) es"
      using d(1) slice_append[OF assms(1), of c "max c b" "reached (max c b) pages"] reached_mono[of "max c b" pages]
      by simp
    finally show ?case by (simp add: deliverPages_def p)
  qed
  from this[OF assms(2)] show ?thesis by (simp add: stands_at_def)
qed

definition sampleEvent :: "int \<Rightarrow> group_event" where
  "sampleEvent n = \<lparr>ev_sequence = n, ev_kind = PRESENCE_UPDATED, ev_group = None, ev_device = None, ev_presence = None,
     ev_documentId = None, ev_documentDelta = None, ev_sessionCommand = None, ev_actorDeviceId = None,
     ev_hybridLogicalClock = 0, ev_occurredAt = 0\<rparr>"

theorem merged_feeds_hear_the_log_witness:
  "ch_heard (deliverPages [sampleEvent 1, sampleEvent 2] [(0, 1), (0, 2), (0, 1)] \<lparr>ch_applied = 0, ch_heard = []\<rparr>) =
    [sampleEvent 1, sampleEvent 2]"
  using merged_feeds_hear_the_log[of "[sampleEvent 1, sampleEvent 2]" "\<lparr>ch_applied = 0, ch_heard = []\<rparr>" "[(0, 1), (0, 2), (0, 1)]"]
  by (simp add: ascending_def sampleEvent_def slice_def)

section \<open>The feed over the control plane's log\<close>

text \<open>The in-memory store answers the poller; its log does not move meanwhile.\<close>

definition memLog :: "string \<Rightarrow> mem_store \<Rightarrow> group_event list" where
  "memLog g st = (case js_get (mem_eventsByGroup st) g of None \<Rightarrow> [] | Some es \<Rightarrow> es)"

definition serverAnswer :: "string \<Rightarrow> mem_store \<Rightarrow> poller \<Rightarrow> rt_error + event_page" where
  "serverAnswer g st p =
     (case pl_work p of
        Some (Reading c after) \<Rightarrow> fst (readGroupEvents memReplay g after 0 st)
      | _ \<Rightarrow> Inl (PlainError []))"

text \<open>A round: the timer fires, the page arrives, and where it asks for one the snapshot arrives.\<close>

definition feedRound :: "string \<Rightarrow> mem_store \<Rightarrow> rt_error + int option \<Rightarrow> poller \<Rightarrow> poller" where
  "feedRound g st snapshot p =
     (let q = pollerTick p in resyncSettles snapshot (readSettles (serverAnswer g st q) q))"

lemma memReplay_log:
  assumes "0 < n" and "n \<le> 512"
  shows "memReplay g c n st = (Inr \<lparr>rp_events = take (nat n) (newer c (memLog g st)),
    rp_earliestSequence = (case memLog g st of [] \<Rightarrow> None | e # _ \<Rightarrow> Some (ev_sequence e))\<rparr>, st)"
  using assms by (simp add: memReplay_def requireReplayLimit_def defaultRealtimeReplayLimit_def memLog_def newer_def Let_def
    cong: list.case_cong option.case_cong)

definition pendingPage :: "int \<Rightarrow> group_event list \<Rightarrow> group_event list" where
  "pendingPage c log = take 512 (newer c log)"

definition morePending :: "int \<Rightarrow> group_event list \<Rightarrow> bool" where
  "morePending c log \<longleftrightarrow> length (pendingPage c log) \<ge> 512 \<and> newer (ev_sequence (last (pendingPage c log))) log \<noteq> []"

definition in_window :: "int \<Rightarrow> group_event list \<Rightarrow> bool" where
  "in_window c log \<longleftrightarrow> log = [] \<or> ev_sequence (hd log) - 1 \<le> c"

lemma answer_resync:
  assumes "\<not> in_window c (memLog g st)"
  shows "fst (readGroupEvents memReplay g c 0 st) =
    Inr \<lparr>pg_events = [], pg_earliest = ev_sequence (hd (memLog g st)), pg_hasMore = False, pg_resyncRequired = True\<rparr>"
proof -
  obtain e es where "memLog g st = e # es" and "c < ev_sequence e - 1"
    using assms by (cases "memLog g st") (auto simp: in_window_def)
  then show ?thesis
    by (simp add: readGroupEvents_def normalizePageSize_def defaultRealtimeReplayLimit_def memReplay_log sm_bind_def
      sm_return_def decideReplay_def)
qed

lemma answer_page:
  assumes "in_window c (memLog g st)"
  shows "\<exists>earliest. fst (readGroupEvents memReplay g c 0 st) =
    Inr \<lparr>pg_events = pendingPage c (memLog g st), pg_earliest = earliest, pg_hasMore = morePending c (memLog g st),
      pg_resyncRequired = False\<rparr>"
proof -
  have "decideReplay c (case memLog g st of [] \<Rightarrow> None | e # _ \<Rightarrow> Some (ev_sequence e)) = Replay"
    using assms by (cases "memLog g st") (auto simp: in_window_def decideReplay_def)
  then show ?thesis
    by (simp add: readGroupEvents_def normalizePageSize_def defaultRealtimeReplayLimit_def memReplay_log sm_bind_def
      sm_return_def lastSequence_def pendingPage_def morePending_def)
qed

definition waiting :: "poller \<Rightarrow> bool" where
  "waiting p \<longleftrightarrow> pl_started p \<and> pl_aborted p = [] \<and> \<not> pl_inFlight p \<and> pl_work p = None \<and> pl_tick p \<noteq> None"

lemma start_waiting:
  fixes v r v0 ch
  defines "p \<equiv> feedRun [FStart v] (newPoller r v0 ch)"
  shows "waiting p" and "pl_channel p = ch" and "pl_tick p = Some 0" and "pl_resyncCount p = 0" and "pl_onResync p = r"
  by (simp_all add: p_def feedRun_def newPoller_def poller_defs waiting_def initialGroupPollState_def groupPollDelayMs_def)

text \<open>A round of a waiting feed whose position is retained, and of one whose position is not.\<close>

lemma feedRound_page:
  fixes p g st
  defines "page \<equiv> pendingPage (ch_applied (pl_channel p)) (memLog g st)"
  assumes w: "waiting p" and c: "in_window (ch_applied (pl_channel p)) (memLog g st)"
  shows "waiting (feedRound g st snap p)"
    and "pl_channel (feedRound g st snap p) = fold channelDeliver page (pl_channel p)"
    and "pl_resyncCount (feedRound g st snap p) = pl_resyncCount p"
    and "pl_onResync (feedRound g st snap p) = pl_onResync p"
    and "pl_tick (feedRound g st snap p) = Some 0 \<longleftrightarrow>
      page \<noteq> [] \<and> morePending (ch_applied (pl_channel p)) (memLog g st)"
proof -
  obtain earliest where a: "fst (readGroupEvents memReplay g (ch_applied (pl_channel p)) 0 st) =
    Inr \<lparr>pg_events = page, pg_earliest = earliest, pg_hasMore = morePending (ch_applied (pl_channel p)) (memLog g st),
      pg_resyncRequired = False\<rparr>"
    using answer_page[OF c] unfolding page_def by blast
  note s = w[unfolded waiting_def] a feedRound_def serverAnswer_def poller_defs waiting_def
  show "waiting (feedRound g st snap p)" using s by (auto simp: s)
  show "pl_channel (feedRound g st snap p) = fold channelDeliver page (pl_channel p)" using s by (auto simp: s)
  show "pl_resyncCount (feedRound g st snap p) = pl_resyncCount p" using s by (auto simp: s)
  show "pl_onResync (feedRound g st snap p) = pl_onResync p" using s by (auto simp: s)
  show "pl_tick (feedRound g st snap p) = Some 0 \<longleftrightarrow> page \<noteq> [] \<and> morePending (ch_applied (pl_channel p)) (memLog g st)"
    using s by (auto simp: s groupPollDelayMs_def cadence_defs)
qed

lemma feedRound_resync:
  assumes w: "waiting p" and c: "\<not> in_window (ch_applied (pl_channel p)) (memLog g st)" and r: "pl_onResync p"
  shows "waiting (feedRound g st (Inr (Some k)) p)"
    and "pl_channel (feedRound g st (Inr (Some k)) p) = rewindTo k (pl_channel p)"
    and "pl_resyncCount (feedRound g st (Inr (Some k)) p) = Suc (pl_resyncCount p)"
    and "pl_onResync (feedRound g st (Inr (Some k)) p)"
    and "pl_tick (feedRound g st (Inr (Some k)) p) = Some 0"
proof -
  note s = w[unfolded waiting_def] r answer_resync[OF c] feedRound_def serverAnswer_def poller_defs waiting_def
  show "waiting (feedRound g st (Inr (Some k)) p)" using s by (auto simp: s)
  show "pl_channel (feedRound g st (Inr (Some k)) p) = rewindTo k (pl_channel p)" using s by (auto simp: s)
  show "pl_resyncCount (feedRound g st (Inr (Some k)) p) = Suc (pl_resyncCount p)" using s by (auto simp: s)
  show "pl_onResync (feedRound g st (Inr (Some k)) p)" using s by (auto simp: s)
  show "pl_tick (feedRound g st (Inr (Some k)) p) = Some 0" using s by (auto simp: s groupPollDelayMs_def)
qed

text \<open>
  A snapshot below the retained window makes the feed ask for ever. Let a group's log retain events above
  \<open>k + 1\<close> only, and let its document snapshot have been taken at \<open>k\<close>. A feed that starts below the
  window is told to resynchronize, moves to \<open>k\<close>, and is told so again: after every round it has heard nothing, stands
  at \<open>k\<close>, and its next request is due with no delay. The fallback, the edge of the window, is never taken.
\<close>

theorem stale_snapshot_resyncs_forever:
  assumes "memLog g st \<noteq> []" and "0 \<le> k" and "k < ev_sequence (hd (memLog g st)) - 1"
    and "ch_applied ch < ev_sequence (hd (memLog g st)) - 1"
  shows "let p = (feedRound g st (Inr (Some k)) ^^ Suc n) (feedRun [FStart v] (newPoller True v0 ch)) in
    pl_tick p = Some 0 \<and> pl_resyncCount p = Suc n \<and> pl_channel p = ch\<lparr>ch_applied := k\<rparr>"
proof -
  let ?p = "\<lambda>n. (feedRound g st (Inr (Some k)) ^^ n) (feedRun [FStart v] (newPoller True v0 ch))"
  have out: "\<not> in_window k (memLog g st)" "\<not> in_window (ch_applied ch) (memLog g st)"
    using assms by (simp_all add: in_window_def)
  have rew: "rewindTo k (c\<lparr>ch_applied := k\<rparr>) = c\<lparr>ch_applied := k\<rparr>" "rewindTo k c = c\<lparr>ch_applied := k\<rparr>" for c :: channel
    using assms(2) by (simp_all add: rewindTo_def)
  have "waiting (?p (Suc n)) \<and> pl_tick (?p (Suc n)) = Some 0 \<and> pl_resyncCount (?p (Suc n)) = Suc n \<and>
    pl_onResync (?p (Suc n)) \<and> pl_channel (?p (Suc n)) = ch\<lparr>ch_applied := k\<rparr>" for n
  proof (induction n)
    case 0
    note s = start_waiting[of v True v0 ch]
    have c: "\<not> in_window (ch_applied (pl_channel (?p 0))) (memLog g st)" using s(2) out(2) by simp
    have "waiting (?p 0)" "pl_onResync (?p 0)" using s by simp_all
    from feedRound_resync[OF this(1) c this(2), of k] s rew show ?case by simp
  next
    case (Suc n)
    then have c: "\<not> in_window (ch_applied (pl_channel (?p (Suc n)))) (memLog g st)" using out(1) by simp
    from feedRound_resync[OF _ c, of k] Suc rew show ?case by simp
  qed
  from this[of n] show ?thesis by (simp only: Let_def)
qed

definition sampleLog :: mem_store where
  "sampleLog = \<lparr>mem_eventsByGroup = [(''g'', [sampleEvent 10, sampleEvent 11])], mem_sequenceByGroup = [(''g'', 11)], mem_historyLimit = 2\<rparr>"

lemma sampleLog_log: "memLog ''g'' sampleLog = [sampleEvent 10, sampleEvent 11]"
  by (simp add: memLog_def sampleLog_def)

theorem stale_snapshot_resyncs_forever_witness:
  "pl_tick ((feedRound ''g'' sampleLog (Inr (Some 3)) ^^ Suc 6) (feedRun [FStart True] (newPoller True True \<lparr>ch_applied = 0, ch_heard = []\<rparr>))) = Some 0"
  using stale_snapshot_resyncs_forever[of "''g''" sampleLog 3 "\<lparr>ch_applied = 0, ch_heard = []\<rparr>" 6 True True]
  by (simp add: sampleLog_log sampleEvent_def Let_def del: funpow.simps)

text \<open>The first page handed out, what is pending is what lies beyond it.\<close>

lemma beyond_page:
  assumes asc: "ascending es" and ne: "es \<noteq> []" and n: "0 < n"
  shows "newer (ev_sequence (last (take n es))) es = drop n es"
proof -
  let ?l = "ev_sequence (last (take n es))"
  have split: "ascending (take n es @ drop n es)" using asc by simp
  then have page: "ascending (take n es)" and above: "\<forall>x \<in> set (take n es). \<forall>y \<in> set (drop n es). ev_sequence x < ev_sequence y"
    unfolding ascending_def sorted_wrt_append by blast+
  have l: "last (take n es) \<in> set (take n es)" using ne n by (intro last_in_set) (simp add: take_eq_Nil)
  have "filter (\<lambda>e. ?l < ev_sequence e) (take n es) = []"
    using ascending_to_last[OF page] by (force simp: filter_empty_conv)
  moreover have "filter (\<lambda>e. ?l < ev_sequence e) (drop n es) = drop n es"
    by (rule filter_True) (use above l in auto)
  ultimately have "filter (\<lambda>e. ?l < ev_sequence e) (take n es @ drop n es) = drop n es"
    by (simp only: filter_append append_Nil)
  then show ?thesis by (simp only: newer_def append_take_drop_id)
qed

lemma newer_twice: "c \<le> d \<Longrightarrow> newer d (newer c es) = newer d es"
  unfolding newer_def filter_filter by (rule filter_cong) auto

lemma newer_after_page:
  assumes asc: "ascending es" and ne: "newer c es \<noteq> []"
  shows "newer (ev_sequence (last (pendingPage c es))) es = drop 512 (newer c es)"
    and "c < ev_sequence (last (pendingPage c es))"
proof -
  have "pendingPage c es \<noteq> []" using ne by (simp add: pendingPage_def)
  then have "last (pendingPage c es) \<in> set (newer c es)"
    using last_in_set in_set_takeD unfolding pendingPage_def by metis
  then show less: "c < ev_sequence (last (pendingPage c es))" by (simp add: newer_def)
  have "ascending (newer c es)" using asc unfolding newer_def by (rule ascending_filter)
  from beyond_page[OF this ne, of 512] newer_twice[of c "ev_sequence (last (pendingPage c es))" es] less
  show "newer (ev_sequence (last (pendingPage c es))) es = drop 512 (newer c es)"
    by (simp add: pendingPage_def)
qed

lemma newer_page: "newer c (pendingPage c es) = pendingPage c es"
  unfolding newer_def by (rule filter_True) (auto simp: pendingPage_def newer_def dest: in_set_takeD)

text \<open>One round over what is pending: the page is heard, and the position moves past it.\<close>

lemma deliver_pending:
  assumes asc: "ascending es"
  defines "ch' \<equiv> \<lambda>ch. fold channelDeliver (pendingPage (ch_applied ch) es) ch"
  shows "ch_heard (ch' ch) = ch_heard ch @ take 512 (newer (ch_applied ch) es)"
    and "newer (ch_applied (ch' ch)) es = drop 512 (newer (ch_applied ch) es)"
    and "ch_applied ch \<le> ch_applied (ch' ch)"
proof -
  let ?c = "ch_applied ch"
  have page: "ascending (pendingPage ?c es)"
    using ascending_filter[OF asc] unfolding pendingPage_def newer_def ascending_def by (rule sorted_wrt_take)
  note d = deliver_page[OF page, of ch, unfolded newer_page]
  show "ch_heard (ch' ch) = ch_heard ch @ take 512 (newer ?c es)" unfolding ch'_def d by (simp add: pendingPage_def)
  have "newer (ch_applied (ch' ch)) es = drop 512 (newer ?c es) \<and> ?c \<le> ch_applied (ch' ch)"
  proof (cases "newer ?c es = []")
    case True
    then have "pendingPage ?c es = []" by (simp add: pendingPage_def)
    with True show ?thesis unfolding ch'_def d by simp
  next
    case False
    then have "pendingPage ?c es \<noteq> []" by (simp add: pendingPage_def)
    with newer_after_page[OF asc False] show ?thesis unfolding ch'_def d by simp
  qed
  then show "newer (ch_applied (ch' ch)) es = drop 512 (newer ?c es)" and "?c \<le> ch_applied (ch' ch)" by simp_all
qed

lemma more_pending:
  assumes "ascending es"
  shows "pendingPage c es \<noteq> [] \<and> morePending c es \<longleftrightarrow> 512 < length (newer c es)"
proof (cases "newer c es = []")
  case False
  from newer_after_page(1)[OF assms False] show ?thesis by (auto simp: morePending_def pendingPage_def)
qed (simp add: pendingPage_def)

text \<open>
  C28: A feed inside the window catches up. Let a feed start at a position the log still continues, and let nobody
  publish while it reads and every read succeed. After \<open>n\<close> rounds its subscribers have heard exactly the first 512
  times \<open>n\<close> events beyond that position, or all there are, in order and each once, it was never told to resynchronize,
  and its next request is due at once exactly while the log holds more: it drains the backlog at full speed and then
  falls back to its cadence.
\<close>

theorem feed_catches_up:
  assumes "ascending (memLog g st)" and "in_window (ch_applied ch) (memLog g st)"
  shows "let p = (feedRound g st snapshot ^^ Suc n) (feedRun [FStart v] (newPoller r v0 ch));
      pending = newer (ch_applied ch) (memLog g st) in
    ch_heard (pl_channel p) = ch_heard ch @ take (Suc n * 512) pending \<and> pl_resyncCount p = 0 \<and> pl_tick p \<noteq> None \<and>
    (pl_tick p = Some 0 \<longleftrightarrow> Suc n * 512 < length pending)"
proof -
  let ?log = "memLog g st" and ?pending = "newer (ch_applied ch) (memLog g st)"
  let ?p = "\<lambda>n. (feedRound g st snapshot ^^ n) (feedRun [FStart v] (newPoller r v0 ch))"
  have window: "in_window d ?log" if "in_window c ?log" and "c \<le> d" for c d
    using that by (auto simp: in_window_def)
  have reach: "waiting (?p n) \<and> pl_resyncCount (?p n) = 0 \<and> ch_heard (pl_channel (?p n)) = ch_heard ch @ take (n * 512) ?pending \<and>
    newer (ch_applied (pl_channel (?p n))) ?log = drop (n * 512) ?pending \<and> in_window (ch_applied (pl_channel (?p n))) ?log" for n
  proof (induction n)
    case 0
    then show ?case using start_waiting[of v r v0 ch] assms(2) by simp
  next
    case (Suc n)
    then have w: "waiting (?p n)" and i: "in_window (ch_applied (pl_channel (?p n))) ?log" by simp_all
    have step: "?p (Suc n) = feedRound g st snapshot (?p n)" by simp
    note f = feedRound_page[OF w i, of snapshot] and d = deliver_pending[OF assms(1), of "pl_channel (?p n)"]
    have "take (n * 512) ?pending @ take 512 (drop (n * 512) ?pending) = take (Suc n * 512) ?pending"
      by (simp only: take_add[symmetric] mult_Suc add.commute)
    then show ?case using Suc f d window[OF i d(3)] unfolding step by (simp add: add.commute)
  qed
  have w: "waiting (?p n)" and i: "in_window (ch_applied (pl_channel (?p n))) ?log" using reach[of n] by simp_all
  have "pl_tick (?p (Suc n)) = Some 0 \<longleftrightarrow> 512 < length (drop (n * 512) ?pending)"
    using feedRound_page(5)[OF w i, of snapshot] more_pending[OF assms(1)] reach[of n] by simp
  also have "\<dots> \<longleftrightarrow> Suc n * 512 < length ?pending" by auto
  finally have t: "pl_tick (?p (Suc n)) = Some 0 \<longleftrightarrow> Suc n * 512 < length ?pending" .
  have "pl_tick (?p (Suc n)) \<noteq> None" using conjunct1[OF reach[of "Suc n"]] unfolding waiting_def by blast
  with t reach[of "Suc n"] show ?thesis unfolding Let_def by (intro conjI) blast+
qed

text \<open>A backlog of a thousand events is drained in two rounds.\<close>

definition longLog :: mem_store where
  "longLog = \<lparr>mem_eventsByGroup = [(''g'', map sampleEvent [1 .. 1000])], mem_sequenceByGroup = [(''g'', 1000)], mem_historyLimit = 1000\<rparr>"

lemma longLog_log: "memLog ''g'' longLog = map sampleEvent [1 .. 1000]"
  by (simp add: memLog_def longLog_def del: upto_rec_numeral)

lemma longLog_facts:
  "ascending (memLog ''g'' longLog)" "in_window 0 (memLog ''g'' longLog)"
  "newer 0 (memLog ''g'' longLog) = map sampleEvent [1 .. 1000]"
proof -
  show "ascending (memLog ''g'' longLog)"
    unfolding longLog_log ascending_def sorted_wrt_map by (rule sorted_wrt_mono_rel[OF _ sorted_wrt_upto]) (simp add: sampleEvent_def)
  have "[1 .. 1000] = 1 # [2 .. (1000 :: int)]" by (subst upto_rec1) simp_all
  then show "in_window 0 (memLog ''g'' longLog)" unfolding longLog_log in_window_def by (simp add: sampleEvent_def)
  show "newer 0 (memLog ''g'' longLog) = map sampleEvent [1 .. 1000]"
    unfolding longLog_log newer_def by (rule filter_True) (auto simp: sampleEvent_def)
qed

theorem feed_catches_up_witness:
  "let p = (feedRound ''g'' longLog (Inr None) ^^ Suc 0) (feedRun [FStart True] (newPoller True True \<lparr>ch_applied = 0, ch_heard = []\<rparr>));
       q = (feedRound ''g'' longLog (Inr None) ^^ Suc 1) (feedRun [FStart True] (newPoller True True \<lparr>ch_applied = 0, ch_heard = []\<rparr>)) in
   length (ch_heard (pl_channel p)) = 512 \<and> pl_tick p = Some 0 \<and>
   ch_heard (pl_channel q) = map sampleEvent [1 .. 1000] \<and> pl_tick q \<noteq> Some 0"
proof -
  note catches = feed_catches_up[of "''g''" longLog "\<lparr>ch_applied = 0, ch_heard = []\<rparr>" _ "Inr None" True True True,
    unfolded Let_def channel.simps, OF longLog_facts(1,2), unfolded longLog_facts(3)]
  show ?thesis
    unfolding Let_def using catches[of 0] catches[of 1] by (simp del: funpow.simps upto_rec_numeral)
qed

end
