(* ===== verification/Session_Command.thy ===== *)
theory Session_Command
  imports Event_Log Complex_Main
begin

text \<open>
  A playback command on its way through the group: the target as one string and the transport
  (\<open>apps/hq/src/infrastructure/controlPlane/GroupPlaybackSyncTransport.ts\<close>), the wire codec (\<open>groupEventCodec.ts\<close>,
  \<open>ControlPlaneClient.ts\<close>), the handler \<open>publishSessionCommand\<close> of the control plane's \<open>sync/service.ts\<close>, and the
  data of \<open>infrastructure/media/PlaybackSyncCoordinator.ts\<close> with its validation.

  A JavaScript number that may be no number is a \<open>js_number\<close>; a finite one is a real, a double without rounding.
  Epochs and sequences are integers: every one of them is checked to be a safe integer where it enters.
\<close>

section \<open>Numbers\<close>

datatype js_number = Fin real | PosInf | NegInf | NaN

definition isFinite :: "js_number \<Rightarrow> bool" where
  "isFinite x = (case x of Fin _ \<Rightarrow> True | _ \<Rightarrow> False)"

definition isNonNegativeFinite :: "js_number \<Rightarrow> bool" where
  "isNonNegativeFinite x = (case x of Fin r \<Rightarrow> r \<ge> 0 | _ \<Rightarrow> False)"

definition isPositiveFinite :: "js_number \<Rightarrow> bool" where
  "isPositiveFinite x = (case x of Fin r \<Rightarrow> r > 0 | _ \<Rightarrow> False)"

definition nonNegativeFinite :: "js_number \<Rightarrow> js_number" where
  "nonNegativeFinite x = (if isNonNegativeFinite x then x else Fin 0)"

definition positiveFinite :: "js_number \<Rightarrow> js_number" where
  "positiveFinite x = (if isPositiveFinite x then x else Fin 1)"

text \<open>Subtraction, the order and the truth of numbers as the language has them.\<close>

fun js_sub :: "js_number \<Rightarrow> js_number \<Rightarrow> js_number" where
  "js_sub (Fin x) (Fin y) = Fin (x - y)"
| "js_sub NaN _ = NaN"
| "js_sub _ NaN = NaN"
| "js_sub PosInf PosInf = NaN"
| "js_sub NegInf NegInf = NaN"
| "js_sub PosInf _ = PosInf"
| "js_sub NegInf _ = NegInf"
| "js_sub (Fin _) PosInf = NegInf"
| "js_sub (Fin _) NegInf = PosInf"

definition js_positive :: "js_number \<Rightarrow> bool" where
  "js_positive x = (case x of Fin r \<Rightarrow> r > 0 | PosInf \<Rightarrow> True | _ \<Rightarrow> False)"

definition js_le_zero :: "js_number \<Rightarrow> bool" where
  "js_le_zero x = (case x of Fin r \<Rightarrow> r \<le> 0 | NegInf \<Rightarrow> True | _ \<Rightarrow> False)"

definition js_or :: "js_number \<Rightarrow> js_number \<Rightarrow> js_number" where
  "js_or x y = (if x = Fin 0 \<or> x = NaN then y else x)"

definition maxSafeInteger :: int where "maxSafeInteger = 9007199254740991"

definition isSafeInteger :: "int \<Rightarrow> bool" where
  "isSafeInteger n \<longleftrightarrow> \<bar>n\<bar> \<le> maxSafeInteger"

section \<open>Targets\<close>

datatype source_kind = DEMO_VIDEO | LOCAL_MATERIAL

record playback_target =
  tg_cameraId :: string
  tg_sourceKind :: source_kind
  tg_materialId :: "string option"

fun kindName :: "source_kind \<Rightarrow> string" where
  "kindName DEMO_VIDEO = ''DEMO_VIDEO''"
| "kindName LOCAL_MATERIAL = ''LOCAL_MATERIAL''"

text \<open>\<open>/^[0-9a-f]{8}-[0-9a-f]{4}-[1-8][0-9a-f]{3}-[89ab][0-9a-f]{3}-[0-9a-f]{12}$/iu\<close>, position by position.\<close>

definition isMaterialId :: "string \<Rightarrow> bool" where
  "isMaterialId s \<longleftrightarrow> length s = 36 \<and>
     list_all (\<lambda>(i, c).
       if i \<in> {8, 13, 18, 23} then c = CHR ''-''
       else if i = 14 then c \<in> set ''12345678''
       else if i = 19 then c \<in> set ''89abAB''
       else hex_value c \<noteq> None) (zip [0..<36] s)"

definition isPlaybackSyncTarget :: "playback_target \<Rightarrow> bool" where
  "isPlaybackSyncTarget t \<longleftrightarrow>
     tg_cameraId t \<noteq> [] \<and> length (tg_cameraId t) \<le> 128 \<and>
     (case tg_sourceKind t of
        DEMO_VIDEO \<Rightarrow> tg_materialId t = None
      | LOCAL_MATERIAL \<Rightarrow> (case tg_materialId t of None \<Rightarrow> False | Some m \<Rightarrow> isMaterialId m))"

definition orEmpty :: "string option \<Rightarrow> string" where
  "orEmpty m = (case m of None \<Rightarrow> [] | Some s \<Rightarrow> s)"

definition targetKey :: "playback_target \<Rightarrow> string" where
  "targetKey t = tg_cameraId t @ '':'' @ kindName (tg_sourceKind t) @ '':'' @ orEmpty (tg_materialId t)"

definition encodeTarget :: "playback_target \<Rightarrow> string" where
  "encodeTarget t = joinWith ''|'' [tg_cameraId t, kindName (tg_sourceKind t), orEmpty (tg_materialId t)]"

definition decodeTarget :: "string \<Rightarrow> playback_target option" where
  "decodeTarget target =
     (case js_split (CHR ''|'') target of
        [cameraId, sourceKind, materialId] \<Rightarrow>
          if cameraId = [] then None
          else if sourceKind = ''DEMO_VIDEO''
          then Some \<lparr>tg_cameraId = cameraId, tg_sourceKind = DEMO_VIDEO, tg_materialId = None\<rparr>
          else if sourceKind = ''LOCAL_MATERIAL''
          then if materialId = [] then None
               else Some \<lparr>tg_cameraId = cameraId, tg_sourceKind = LOCAL_MATERIAL, tg_materialId = Some materialId\<rparr>
          else None
      | _ \<Rightarrow> None)"

section \<open>Commands\<close>

datatype sync_action = PLAY | PAUSE | SEEK | SET_RATE | SELECT

record sync_command =
  sc_epoch :: int
  sc_sequence :: int
  sc_action :: sync_action
  sc_target :: playback_target
  sc_positionSeconds :: js_number
  sc_playbackRate :: js_number
  sc_executeAtMs :: js_number
  sc_issuedAtMs :: js_number
  sc_issuedByDeviceId :: string

record allocation =
  al_epoch :: int
  al_sequence :: int

definition isPlaybackSyncCommand :: "sync_command \<Rightarrow> bool" where
  "isPlaybackSyncCommand c \<longleftrightarrow>
     isSafeInteger (sc_epoch c) \<and> sc_epoch c > 0 \<and> isSafeInteger (sc_sequence c) \<and> sc_sequence c > 0 \<and>
     isPlaybackSyncTarget (sc_target c) \<and>
     isNonNegativeFinite (sc_positionSeconds c) \<and> isPositiveFinite (sc_playbackRate c) \<and>
     isPositiveFinite (sc_executeAtMs c) \<and> isPositiveFinite (sc_issuedAtMs c) \<and>
     sc_issuedByDeviceId c \<noteq> [] \<and> length (sc_issuedByDeviceId c) \<le> 128"

section \<open>The command on the wire\<close>

text \<open>The messages, with the fields the conversions read.\<close>

datatype wire_action =
    WUnspecified | WNavigate | WSelect | WPlay | WPause | WSeek | WSetRate | WSetScene | WUnrecognized int

record timestamp =
  ts_seconds :: int
  ts_nanos :: int

record wire_command =
  wc_epoch :: int
  wc_sequence :: int
  wc_action :: wire_action
  wc_target :: string
  wc_positionSeconds :: js_number
  wc_playbackRate :: js_number
  wc_executeAt :: "timestamp option"
  wc_issuedByDeviceId :: "string option"

datatype group_action = GUnspecified | GNavigate | GSelect | GPlay | GPause | GSeek | GSetRate | GSetScene

record group_command =
  gs_epoch :: int
  gs_sequence :: int
  gs_action :: group_action
  gs_target :: string
  gs_positionSeconds :: js_number
  gs_playbackRate :: js_number
  gs_executeAtMs :: js_number
  gs_issuedByDeviceId :: string

fun toGroupSessionAction :: "wire_action \<Rightarrow> group_action" where
  "toGroupSessionAction WNavigate = GNavigate"
| "toGroupSessionAction WSelect = GSelect"
| "toGroupSessionAction WPlay = GPlay"
| "toGroupSessionAction WPause = GPause"
| "toGroupSessionAction WSeek = GSeek"
| "toGroupSessionAction WSetRate = GSetRate"
| "toGroupSessionAction WSetScene = GSetScene"
| "toGroupSessionAction _ = GUnspecified"

fun fromGroupSessionAction :: "group_action \<Rightarrow> wire_action" where
  "fromGroupSessionAction GNavigate = WNavigate"
| "fromGroupSessionAction GSelect = WSelect"
| "fromGroupSessionAction GPlay = WPlay"
| "fromGroupSessionAction GPause = WPause"
| "fromGroupSessionAction GSeek = WSeek"
| "fromGroupSessionAction GSetRate = WSetRate"
| "fromGroupSessionAction GSetScene = WSetScene"
| "fromGroupSessionAction GUnspecified = WUnspecified"

definition toEpochMs :: "timestamp option \<Rightarrow> js_number" where
  "toEpochMs t = (case t of None \<Rightarrow> Fin 0 | Some s \<Rightarrow> Fin (of_int (ts_seconds s * 1000 + ts_nanos s div 1000000)))"

text \<open>\<open>BigInt\<close> of a number that is none throws.\<close>

definition toWireTimestamp :: "js_number \<Rightarrow> rt_error + timestamp" where
  "toWireTimestamp epochMs =
     (case epochMs of
        Fin x \<Rightarrow> (let seconds = \<lfloor>x / 1000\<rfloor> in
                  Inr \<lparr>ts_seconds = seconds, ts_nanos = \<lfloor>(x - of_int seconds * 1000) * 1000000 + 1 / 2\<rfloor>\<rparr>)
      | _ \<Rightarrow> Inl (PlainError ''The number cannot be converted to a BigInt because it is not an integer''))"

definition toGroupSessionCommand :: "wire_command \<Rightarrow> group_command" where
  "toGroupSessionCommand c =
     \<lparr>gs_epoch = wc_epoch c, gs_sequence = wc_sequence c, gs_action = toGroupSessionAction (wc_action c),
      gs_target = wc_target c, gs_positionSeconds = wc_positionSeconds c, gs_playbackRate = wc_playbackRate c,
      gs_executeAtMs = toEpochMs (wc_executeAt c), gs_issuedByDeviceId = orEmpty (wc_issuedByDeviceId c)\<rparr>"

record publication =
  pb_action :: group_action
  pb_target :: string
  pb_positionSeconds :: "js_number option"
  pb_playbackRate :: "js_number option"
  pb_executeAtMs :: "js_number option"

text \<open>The command \<open>ControlPlaneClient.publishSessionCommand\<close> sends; the session it sends it in is the caller's.\<close>

definition orZero :: "js_number option \<Rightarrow> js_number" where
  "orZero x = (case x of None \<Rightarrow> Fin 0 | Some n \<Rightarrow> n)"

definition clientCommand :: "publication \<Rightarrow> rt_error + wire_command" where
  "clientCommand p =
     (case (case pb_executeAtMs p of None \<Rightarrow> Inr None | Some x \<Rightarrow> map_sum id Some (toWireTimestamp x)) of
        Inl e \<Rightarrow> Inl e
      | Inr executeAt \<Rightarrow>
          Inr \<lparr>wc_epoch = 0, wc_sequence = 0, wc_action = fromGroupSessionAction (pb_action p), wc_target = pb_target p,
               wc_positionSeconds = orZero (pb_positionSeconds p), wc_playbackRate = orZero (pb_playbackRate p),
               wc_executeAt = executeAt, wc_issuedByDeviceId = None\<rparr>)"

section \<open>The handler of the control plane\<close>

definition requireResourceId :: "string option \<Rightarrow> string \<Rightarrow> rt_error + string" where
  "requireResourceId v field =
     (case v of
        None \<Rightarrow> Inl (PairedDeviceRuntimeError INVALID_ARGUMENT (field @ '' must not be empty.''))
      | Some s \<Rightarrow>
          if js_trim s = [] then Inl (PairedDeviceRuntimeError INVALID_ARGUMENT (field @ '' must not be empty.''))
          else Inr (js_trim s))"

definition serviceContextActor :: "authenticated_device \<Rightarrow> string option \<Rightarrow> ('s, rt_error, unit) sm" where
  "serviceContextActor au actor =
     sm_require (orEmpty actor = [] \<or> orEmpty actor = pd_id (au_device au))
       (PairedDeviceRuntimeError PERMISSION_DENIED
          ''The mutation context actor does not match the authenticated device.'')"

definition assertAuthenticatedGroup :: "authenticated_device \<Rightarrow> string \<Rightarrow> ('s, rt_error, unit) sm" where
  "assertAuthenticatedGroup au groupId =
     sm_require (g_id (au_group au) = groupId)
       (PairedDeviceRuntimeError PERMISSION_DENIED ''The authenticated device does not belong to the requested group.'')"

definition assertEditor :: "authenticated_device \<Rightarrow> ('s, rt_error, unit) sm" where
  "assertEditor au =
     sm_require (au_role au \<noteq> VIEWER)
       (PairedDeviceRuntimeError PERMISSION_DENIED ''A viewer cannot publish to the group.'')"

definition assertSessionAuthority :: "authenticated_device \<Rightarrow> ('s, rt_error, unit) sm" where
  "assertSessionAuthority au =
     sm_require (g_authorityMode (au_group au) = LEADER \<longrightarrow> g_leaderDeviceId (au_group au) = pd_id (au_device au))
       (PairedDeviceRuntimeError FAILED_PRECONDITION
          ''Only the group leader can issue session commands while the group is under leader authority.'')"

definition toMutationReceiptContext :: "string option \<Rightarrow> rt_error + string option" where
  "toMutationReceiptContext requestId =
     (case normalizeRequestId requestId of
        Inr r \<Rightarrow> Inr r
      | Inl _ \<Rightarrow> Inl (PairedDeviceRuntimeError INVALID_ARGUMENT
                   ''request_id must not exceed 200 characters''))"

record session_request =
  rq_requestId :: "string option"
  rq_actorDeviceId :: "string option"
  rq_groupId :: "string option"
  rq_command :: "wire_command option"

definition sessionCommandOf :: "authenticated_device \<Rightarrow> wire_command option \<Rightarrow> wire_command" where
  "sessionCommandOf au requested =
     \<lparr>wc_epoch = g_revision (au_group au), wc_sequence = 0,
      wc_action = (case requested of None \<Rightarrow> WUnspecified | Some r \<Rightarrow> wc_action r),
      wc_target = (case requested of None \<Rightarrow> [] | Some r \<Rightarrow> wc_target r),
      wc_positionSeconds = (case requested of None \<Rightarrow> Fin 0 | Some r \<Rightarrow> wc_positionSeconds r),
      wc_playbackRate = (case requested of None \<Rightarrow> Fin 0 | Some r \<Rightarrow> wc_playbackRate r),
      wc_executeAt = (case requested of None \<Rightarrow> None | Some r \<Rightarrow> wc_executeAt r),
      wc_issuedByDeviceId = Some (pd_id (au_device au))\<rparr>"

text \<open>
  The handler over what it calls: who is authenticated, the rate limiter, the append of the event store, which answers
  the sequence of the event, and the hub.
\<close>

definition publishSessionCommand ::
  "('s, rt_error, authenticated_device) sm \<Rightarrow> (string \<Rightarrow> string \<Rightarrow> ('s, rt_error, unit) sm) \<Rightarrow>
   (string \<Rightarrow> string option \<Rightarrow> wire_command \<Rightarrow> ('s, rt_error, int) sm) \<Rightarrow>
   (string \<Rightarrow> int \<Rightarrow> wire_command \<Rightarrow> ('s, rt_error, unit) sm) \<Rightarrow>
   session_request \<Rightarrow> ('s, rt_error, wire_command) sm" where
  "publishSessionCommand authenticate allowed appendEvent deliver request =
     sm_bind authenticate (\<lambda>au.
     sm_bind (serviceContextActor au (rq_actorDeviceId request)) (\<lambda>_.
     sm_bind (sm_lift (requireResourceId (rq_groupId request) ''group_id'')) (\<lambda>groupId.
     sm_bind (assertAuthenticatedGroup au groupId) (\<lambda>_.
     sm_bind (assertEditor au) (\<lambda>_.
     sm_bind (assertSessionAuthority au) (\<lambda>_.
     sm_bind (allowed groupId (pd_id (au_device au))) (\<lambda>_.
     sm_bind (sm_lift (toMutationReceiptContext (rq_requestId request))) (\<lambda>mutation.
     let command = sessionCommandOf au (rq_command request) in
     sm_bind (appendEvent groupId mutation command) (\<lambda>sequence.
     sm_bind (deliver groupId sequence command) (\<lambda>_.
     sm_return (command\<lparr>wc_sequence := sequence\<rparr>)))))))))))"

section \<open>The transport\<close>

definition toAllocation :: "group_command \<Rightarrow> allocation option" where
  "toAllocation c =
     (if \<not> isSafeInteger (gs_epoch c) \<or> gs_epoch c \<le> 0 then None
      else if \<not> isSafeInteger (gs_sequence c) \<or> gs_sequence c \<le> 0 then None
      else Some \<lparr>al_epoch = gs_epoch c, al_sequence = gs_sequence c\<rparr>)"

fun actionToGroup :: "sync_action \<Rightarrow> group_action" where
  "actionToGroup PLAY = GPlay"
| "actionToGroup PAUSE = GPause"
| "actionToGroup SEEK = GSeek"
| "actionToGroup SET_RATE = GSetRate"
| "actionToGroup SELECT = GSelect"

fun toPlaybackSyncAction :: "group_action \<Rightarrow> sync_action option" where
  "toPlaybackSyncAction GPlay = Some PLAY"
| "toPlaybackSyncAction GPause = Some PAUSE"
| "toPlaybackSyncAction GSeek = Some SEEK"
| "toPlaybackSyncAction GSetRate = Some SET_RATE"
| "toPlaybackSyncAction GSelect = Some SELECT"
| "toPlaybackSyncAction _ = None"

text \<open>\<open>occurredAt\<close> is what \<open>Date.parse\<close> reads from the instant of the event.\<close>

definition toPlaybackSyncCommand :: "group_command \<Rightarrow> js_number \<Rightarrow> sync_command option" where
  "toPlaybackSyncCommand c occurredAt =
     (case toPlaybackSyncAction (gs_action c) of
        None \<Rightarrow> None
      | Some action \<Rightarrow>
          (case decodeTarget (gs_target c) of
             None \<Rightarrow> None
           | Some target \<Rightarrow>
               (case toAllocation c of
                  None \<Rightarrow> None
                | Some al \<Rightarrow>
                    Some \<lparr>sc_epoch = al_epoch al, sc_sequence = al_sequence al, sc_action = action, sc_target = target,
                      sc_positionSeconds = gs_positionSeconds c,
                      sc_playbackRate = (if js_positive (gs_playbackRate c) then gs_playbackRate c else Fin 1),
                      sc_executeAtMs = gs_executeAtMs c,
                      sc_issuedAtMs = (if occurredAt = NaN then gs_executeAtMs c else occurredAt),
                      sc_issuedByDeviceId = gs_issuedByDeviceId c\<rparr>)))"

definition commandPublication :: "sync_command \<Rightarrow> publication" where
  "commandPublication c =
     \<lparr>pb_action = actionToGroup (sc_action c), pb_target = encodeTarget (sc_target c),
      pb_positionSeconds = Some (sc_positionSeconds c), pb_playbackRate = Some (sc_playbackRate c),
      pb_executeAtMs = Some (sc_executeAtMs c)\<rparr>"

text \<open>The call a publication makes, if any: a closed transport answers nothing and calls nothing.\<close>

definition transportPublishes :: "bool \<Rightarrow> sync_command \<Rightarrow> publication option" where
  "transportPublishes isClosed c = (if isClosed then None else Some (commandPublication c))"

text \<open>What the transport answers a publication with, once the call has settled, and whether it reports a failure.\<close>

definition publishSettles :: "rt_error + group_command \<Rightarrow> allocation option \<times> bool" where
  "publishSettles result = (case result of Inl _ \<Rightarrow> (None, True) | Inr published \<Rightarrow> (toAllocation published, False))"

text \<open>What the transport hands the coordinator for an event of the log.\<close>

definition transportReceives :: "bool \<Rightarrow> string \<Rightarrow> event_kind \<Rightarrow> group_command option \<Rightarrow> js_number \<Rightarrow> sync_command option" where
  "transportReceives isClosed deviceId kind command occurredAt =
     (if isClosed \<or> kind \<noteq> SESSION_COMMAND then None
      else case command of
        None \<Rightarrow> None
      | Some c \<Rightarrow> if gs_issuedByDeviceId c = deviceId then None else toPlaybackSyncCommand c occurredAt)"

end
