(* ===== verification/Session_Command_Correct.thy ===== *)
theory Session_Command_Correct
  imports Session_Command
begin

text \<open>
  What the path of a playback command promises: a target survives the wire where it holds no separator, keys are
  unambiguous for every valid target, an instant crosses the wire to the millisecond, authority and role are
  enforced. And what it does not: the command the control plane appends carries the sequence zero, and every receiver
  drops it.
\<close>

section \<open>Targets\<close>

lemma js_split_none: "d \<notin> set s \<Longrightarrow> js_split d s = [s]"
  by (induction s) auto

lemma js_split_part: "d \<notin> set s \<Longrightarrow> js_split d (s @ d # t) = s # js_split d t"
  by (induction s) auto

lemma js_split_length: "length (js_split d s) = Suc (count_list s d)"
  by (induction s) (auto split: list.splits)

lemma kindName_plain: "CHR ''|'' \<notin> set (kindName k)" "CHR '':'' \<notin> set (kindName k)" "kindName k \<noteq> []"
  by (cases k; simp)+

lemma materialId_alphabet:
  assumes "isMaterialId s"
  shows "CHR ''|'' \<notin> set s" and "CHR '':'' \<notin> set s" and "s \<noteq> []"
proof -
  have plain: "hex_value (CHR ''|'') = None" "hex_value (CHR '':'') = None" by (simp_all add: hex_value_def)
  have bad: "c \<notin> set s" if "hex_value c = None" "c \<noteq> CHR ''-''" "c \<notin> set ''12345678''" "c \<notin> set ''89abAB''" for c
  proof
    assume "c \<in> set s"
    then obtain i where i: "i < length s" "s ! i = c" by (auto simp: in_set_conv_nth)
    moreover have "length s = 36" using assms by (simp add: isMaterialId_def)
    ultimately have "(i, c) \<in> set (zip [0..<36] s)" unfolding set_zip by (intro CollectI exI[of _ i]) auto
    then have "if i \<in> {8, 13, 18, 23} then c = CHR ''-'' else if i = 14 then c \<in> set ''12345678''
        else if i = 19 then c \<in> set ''89abAB'' else hex_value c \<noteq> None"
      using assms unfolding isMaterialId_def list_all_iff by fast
    with that show False by presburger
  qed
  show "CHR ''|'' \<notin> set s" by (rule bad) (simp_all add: plain)
  show "CHR '':'' \<notin> set s" by (rule bad) (simp_all add: plain)
  show "s \<noteq> []" using assms by (auto simp: isMaterialId_def)
qed

lemma encodeTarget_split:
  assumes "isPlaybackSyncTarget t" and "CHR ''|'' \<notin> set (tg_cameraId t)"
  shows "js_split (CHR ''|'') (encodeTarget t) = [tg_cameraId t, kindName (tg_sourceKind t), orEmpty (tg_materialId t)]"
proof -
  have m: "CHR ''|'' \<notin> set (orEmpty (tg_materialId t))"
    using assms(1) materialId_alphabet(1)
    by (auto simp: isPlaybackSyncTarget_def orEmpty_def split: option.splits source_kind.splits)
  show ?thesis
    by (simp add: encodeTarget_def js_split_part[OF assms(2)] js_split_part[OF kindName_plain(1)] js_split_none[OF m])
qed

text \<open>
  C20: A target survives the wire unless its camera is named with a separator. Of the targets the coordinator accepts,
  the ones whose camera identifier holds no vertical bar are read back as they were written, and the others, which it
  accepts just as well, are read as no target at all: a command for such a camera is dropped by every receiver.
\<close>

theorem target_round_trip:
  assumes "isPlaybackSyncTarget t"
  shows "decodeTarget (encodeTarget t) = (if CHR ''|'' \<in> set (tg_cameraId t) then None else Some t)"
proof (cases "CHR ''|'' \<in> set (tg_cameraId t)")
  case True
  have "2 < count_list (encodeTarget t) (CHR ''|'')"
    using True count_list_0_iff[of "tg_cameraId t" "CHR ''|''"] by (simp add: encodeTarget_def)
  then have "length (js_split (CHR ''|'') (encodeTarget t)) \<noteq> 3" by (simp add: js_split_length)
  with True show ?thesis by (auto simp: decodeTarget_def split: list.splits)
next
  case False
  with encodeTarget_split[OF assms False] assms materialId_alphabet(3) show ?thesis
    by (cases t; cases "tg_sourceKind t")
      (auto simp: decodeTarget_def isPlaybackSyncTarget_def orEmpty_def split: option.splits)
qed

theorem target_round_trip_witness:
  "decodeTarget (encodeTarget \<lparr>tg_cameraId = ''K|17'', tg_sourceKind = DEMO_VIDEO, tg_materialId = None\<rparr>) = None"
  using target_round_trip[of "\<lparr>tg_cameraId = ''K|17'', tg_sourceKind = DEMO_VIDEO, tg_materialId = None\<rparr>"]
  by (simp add: isPlaybackSyncTarget_def)

text \<open>Two valid targets share a key only when they are equal, whatever their cameras are named.\<close>

lemma split_last_unique:
  assumes "a @ d # x = b @ d # y" and "d \<notin> set x" and "d \<notin> set y"
  shows "a = b \<and> x = y"
proof -
  have first: "p = q \<and> r = s" if "p @ d # r = q @ d # s" "d \<notin> set p" "d \<notin> set q" for p q r s
    using that
  proof (induction p arbitrary: q)
    case Nil
    then show ?case by (cases q) auto
  next
    case (Cons c p)
    then show ?case by (cases q) auto
  qed
  have "rev x @ d # rev a = rev y @ d # rev b" using arg_cong[OF assms(1), of rev] by simp
  from first[OF this] assms(2,3) show ?thesis by simp
qed

lemma kindName_inject: "kindName k = kindName l \<Longrightarrow> k = l"
  by (cases k; cases l) simp_all

theorem targetKey_injective:
  assumes "isPlaybackSyncTarget t" and "isPlaybackSyncTarget u" and "targetKey t = targetKey u"
  shows "t = u"
proof -
  have m: "CHR '':'' \<notin> set (orEmpty (tg_materialId x))" if "isPlaybackSyncTarget x" for x
    using that materialId_alphabet(2)
    by (auto simp: isPlaybackSyncTarget_def orEmpty_def split: option.splits source_kind.splits)
  have k: "(tg_cameraId t @ '':'' @ kindName (tg_sourceKind t)) @ CHR '':'' # orEmpty (tg_materialId t) =
      (tg_cameraId u @ '':'' @ kindName (tg_sourceKind u)) @ CHR '':'' # orEmpty (tg_materialId u)"
    using assms(3) by (simp add: targetKey_def)
  note first = split_last_unique[OF k m[OF assms(1)] m[OF assms(2)]]
  then have "tg_cameraId t @ CHR '':'' # kindName (tg_sourceKind t) = tg_cameraId u @ CHR '':'' # kindName (tg_sourceKind u)"
    by simp
  note second = split_last_unique[OF this kindName_plain(2) kindName_plain(2)]
  have "tg_materialId t = tg_materialId u"
    using first second assms(1,2) materialId_alphabet(3) kindName_inject
    by (auto simp: isPlaybackSyncTarget_def orEmpty_def split: option.splits source_kind.splits)
  with second kindName_inject show ?thesis by (cases t; cases u) auto
qed

section \<open>Instants\<close>

text \<open>A whole millisecond crosses the wire exactly, and its nanoseconds stay below a second.\<close>

lemma instant_round_trip:
  assumes "toWireTimestamp (Fin (of_int n)) = Inr t"
  shows "toEpochMs (Some t) = Fin (of_int n)" and "0 \<le> ts_nanos t" and "ts_nanos t < 1000000000"
proof -
  have s: "\<lfloor>(of_int n :: real) / 1000\<rfloor> = n div 1000"
    using floor_divide_of_int_eq[of n 1000, where 'a = real] by simp
  have "n = n div 1000 * 1000 + n mod 1000" by simp
  then have whole: "(of_int n :: real) = of_int (n div 1000) * 1000 + of_int (n mod 1000)"
    by (metis of_int_add of_int_mult of_int_numeral)
  have "(of_int n - of_int (n div 1000) * 1000 :: real) * 1000000 = of_int ((n mod 1000) * 1000000)"
    using whole by simp
  then have "\<lfloor>(of_int n - of_int (n div 1000) * 1000 :: real) * 1000000 + 1 / 2\<rfloor> = (n mod 1000) * 1000000"
    by (simp only: floor_eq_iff) simp
  then have t: "t = \<lparr>ts_seconds = n div 1000, ts_nanos = (n mod 1000) * 1000000\<rparr>"
    using assms by (simp add: toWireTimestamp_def Let_def s)
  show "toEpochMs (Some t) = Fin (of_int n)" by (simp add: t toEpochMs_def)
  show "0 \<le> ts_nanos t" by (simp add: t)
  have "n mod 1000 < 1000" by simp
  then show "ts_nanos t < 1000000000" unfolding t by simp
qed

section \<open>Publications\<close>

text \<open>
  The log of a group, as the commands appended to it with the sequence of their events. What the
  event store answers to an append is left open: it appends under some number, answers a request it has
  seen before with the number of then, or fails.
\<close>

type_synonym command_log = "(int \<times> wire_command) list"

datatype log_answer = Appends int | Replays int | Refuses rt_error

definition appendCommand ::
  "log_answer \<Rightarrow> string \<Rightarrow> string option \<Rightarrow> wire_command \<Rightarrow> (command_log, rt_error, int) sm" where
  "appendCommand answer groupId mutation c entries =
     (case answer of
        Appends n \<Rightarrow> (Inr n, entries @ [(n, c)])
      | Replays n \<Rightarrow> (Inr n, entries)
      | Refuses e \<Rightarrow> (Inl e, entries))"

definition publishInto ::
  "log_answer \<Rightarrow> authenticated_device \<Rightarrow> session_request \<Rightarrow> (command_log, rt_error, wire_command) sm" where
  "publishInto answer au =
     publishSessionCommand (sm_return au) (\<lambda>_ _. sm_return ()) (appendCommand answer) (\<lambda>_ _ _. sm_return ())"

definition publications :: "(log_answer \<times> authenticated_device \<times> session_request) list \<Rightarrow> command_log" where
  "publications history = fold (\<lambda>(answer, au, rq) entries. snd (publishInto answer au rq entries)) history []"

lemma publishInto_cases:
  "(\<exists>e. publishInto answer au rq entries = (Inl e, entries)) \<or>
   (let c = sessionCommandOf au (rq_command rq) in
      au_role au \<noteq> VIEWER \<and> (g_authorityMode (au_group au) = LEADER \<longrightarrow> g_leaderDeviceId (au_group au) = pd_id (au_device au)) \<and>
      (\<exists>n. (answer = Appends n \<and> publishInto answer au rq entries = (Inr (c\<lparr>wc_sequence := n\<rparr>), entries @ [(n, c)])) \<or>
         (answer = Replays n \<and> publishInto answer au rq entries = (Inr (c\<lparr>wc_sequence := n\<rparr>), entries))))"
  unfolding publishInto_def publishSessionCommand_def serviceContextActor_def assertAuthenticatedGroup_def
    assertEditor_def assertSessionAuthority_def
  by (cases answer) (auto simp: sm_bind_def sm_return_def sm_require_def sm_throw_def sm_lift_def appendCommand_def Let_def
    split: sum.splits)

lemma publications_snoc:
  "publications (history @ [(answer, au, rq)]) = snd (publishInto answer au rq (publications history))"
  by (simp add: publications_def)

text \<open>
  C16: A playback command published to the group reaches nobody. Whatever devices publish whatever commands, and
  whatever the event store answers, every command that a publication appends to the log carries the sequence zero, not
  the one of its event. Every other device's transport reads the command from the log, finds no positive sequence, and
  hands its coordinator nothing.
\<close>

theorem published_command_reaches_nobody:
  assumes "(n, c) \<in> set (publications history)"
  shows "wc_sequence c = 0 \<and> transportReceives isClosed device SESSION_COMMAND (Some (toGroupSessionCommand c)) occurredAt = None"
proof -
  have "\<forall>(n, c) \<in> set (publications history). wc_sequence c = 0"
  proof (induction history rule: rev_induct)
    case (snoc x xs)
    obtain answer au rq where x: "x = (answer, au, rq)" by (cases x)
    show ?case
      using publishInto_cases[of answer au rq "publications xs"] snoc
      unfolding x publications_snoc by (auto simp: Let_def sessionCommandOf_def)
  qed (simp add: publications_def)
  with assms have "wc_sequence c = 0" by auto
  then show ?thesis
    by (simp add: transportReceives_def toPlaybackSyncCommand_def toAllocation_def toGroupSessionCommand_def split: option.split)
qed

definition samplePublisher :: authenticated_device where
  "samplePublisher =
     \<lparr>au_group = \<lparr>g_id = ''g'', g_name = ''Stage'', g_authorityMode = LEADER, g_leaderDeviceId = ''a'', g_revision = 4,
        g_createdAt = 0, g_updatedAt = 0\<rparr>,
      au_device = \<lparr>pd_id = ''a'', pd_name = ''Desk'', pd_publicKey = [], pd_role = EDITOR, pd_status = ONLINE,
        pd_platform = ''linux'', pd_applicationVersion = ''1'', pd_createdAt = 0, pd_lastSeenAt = 0\<rparr>,
      au_role = EDITOR, au_sessionId = ''s'', au_accessTokenId = ''t''\<rparr>"

definition samplePublication :: session_request where
  "samplePublication = \<lparr>rq_requestId = None, rq_actorDeviceId = None, rq_groupId = Some ''g'',
     rq_command = Some \<lparr>wc_epoch = 0, wc_sequence = 0, wc_action = WPlay, wc_target = ''K-17|DEMO_VIDEO|'',
       wc_positionSeconds = Fin 12, wc_playbackRate = Fin 1, wc_executeAt = Some \<lparr>ts_seconds = 9, ts_nanos = 0\<rparr>,
       wc_issuedByDeviceId = None\<rparr>\<rparr>"

lemma samplePublication_appended:
  "publications [(Appends 1, samplePublisher, samplePublication)] = [(1, sessionCommandOf samplePublisher (rq_command samplePublication))]"
  by (simp add: publications_def publishInto_def publishSessionCommand_def samplePublisher_def samplePublication_def
    serviceContextActor_def assertAuthenticatedGroup_def assertEditor_def assertSessionAuthority_def requireResourceId_def
    toMutationReceiptContext_def normalizeRequestId_def orEmpty_def js_trim_def is_js_space_def appendCommand_def Let_def
    sm_bind_def sm_return_def sm_require_def sm_throw_def sm_lift_def sessionCommandOf_def)

theorem published_command_reaches_nobody_witness:
  "transportReceives False ''b'' SESSION_COMMAND
     (Some (toGroupSessionCommand (sessionCommandOf samplePublisher (rq_command samplePublication)))) (Fin 1) = None"
proof -
  have "(1, sessionCommandOf samplePublisher (rq_command samplePublication)) \<in> set (publications [(Appends 1, samplePublisher, samplePublication)])"
    by (simp add: samplePublication_appended)
  from published_command_reaches_nobody[OF this] show ?thesis by blast
qed

text \<open>The publisher alone is answered with what was allocated: the revision of the group and the place in the log.\<close>

theorem publisher_learns_the_allocation:
  assumes "fst (publishInto answer au rq entries) = Inr c" and "answer \<in> {Appends n, Replays n}"
    and "isSafeInteger (g_revision (au_group au))" and "0 < g_revision (au_group au)" and "isSafeInteger n" and "0 < n"
  shows "toAllocation (toGroupSessionCommand c) = Some \<lparr>al_epoch = g_revision (au_group au), al_sequence = n\<rparr>"
    and "au_role au \<noteq> VIEWER"
    and "g_authorityMode (au_group au) = LEADER \<Longrightarrow> g_leaderDeviceId (au_group au) = pd_id (au_device au)"
  using publishInto_cases[of answer au rq entries] assms
  by (auto simp: Let_def toAllocation_def toGroupSessionCommand_def sessionCommandOf_def isSafeInteger_def)

end
