(* ===== verification/Playback_Sync.thy ===== *)
theory Playback_Sync
  imports Session_Command
begin

text \<open>
  The coordinator of \<open>apps/hq/src/infrastructure/media/PlaybackSyncCoordinator.ts\<close>. Commands are objects and are
  compared by identity, so a command is held with the number of its object. A timer is a number, with the key its
  callback deletes and the command it executes; the armed ones are \<open>co_timers\<close>. What the coordinator calls is
  recorded: \<open>co_executed\<close> is what \<open>onCommand\<close> was given, \<open>co_sent\<close> what the transport was given.

  A clock is a pair: what \<open>now\<close> answers, a finite number, and what \<open>clockOffsetMs\<close> answers. The collation of
  device identifiers is an argument. A publication without position or rate is one with zero or one.
\<close>

definition defaultExecutionDelayMs :: real where "defaultExecutionDelayMs = 40"
definition maximumExecutionDelayMs :: real where "maximumExecutionDelayMs = 30000"

definition validatedExecutionDelay :: "js_number option \<Rightarrow> real" where
  "validatedExecutionDelay v =
     (case v of
        Some (Fin x) \<Rightarrow> (if x \<in> \<int> \<and> 0 \<le> x \<and> x \<le> maximumExecutionDelayMs then x else defaultExecutionDelayMs)
      | _ \<Rightarrow> defaultExecutionDelayMs)"

record sync_config =
  cf_deviceId :: string
  cf_authority :: authority_mode
  cf_leaderDeviceId :: "string option"
  cf_executionDelayMs :: real
  cf_localeCompare :: "string \<Rightarrow> string \<Rightarrow> int"

record command_input =
  in_action :: sync_action
  in_target :: playback_target
  in_positionSeconds :: "js_number option"
  in_playbackRate :: "js_number option"

type_synonym command_object = "nat \<times> sync_command"
type_synonym sync_clock = "real \<times> js_number"

record armed_timer =
  tm_id :: nat
  tm_key :: string
  tm_command :: command_object
  tm_delay :: js_number

record coordinator =
  co_lastSequence :: "(string, int) jsmap"
  co_latest :: "(string, command_object) jsmap"
  co_cancel :: "(string, nat) jsmap"
  co_sequence :: int
  co_closed :: bool
  co_timers :: "armed_timer list"
  co_nextObject :: nat
  co_nextTimer :: nat
  co_executed :: "command_object list"
  co_sent :: "command_object list"

definition newCoordinator :: coordinator where
  "newCoordinator = \<lparr>co_lastSequence = [], co_latest = [], co_cancel = [], co_sequence = 0, co_closed = False,
     co_timers = [], co_nextObject = 0, co_nextTimer = 0, co_executed = [], co_sent = []\<rparr>"

definition groupNow :: "sync_clock \<Rightarrow> real" where
  "groupNow clk = fst clk + (case snd clk of Fin x \<Rightarrow> x | _ \<Rightarrow> 0)"

definition compareCommands :: "(string \<Rightarrow> string \<Rightarrow> int) \<Rightarrow> sync_command \<Rightarrow> sync_command \<Rightarrow> js_number" where
  "compareCommands collate l r =
     js_or (Fin (of_int (sc_epoch l - sc_epoch r)))
       (js_or (js_sub (sc_issuedAtMs l) (sc_issuedAtMs r))
          (js_or (Fin (of_int (sc_sequence l - sc_sequence r)))
             (Fin (of_int (collate (sc_issuedByDeviceId l) (sc_issuedByDeviceId r))))))"

text \<open>\<open>cancelByTarget.get(key)?.()\<close> and the deletion after it.\<close>

definition cancelTarget :: "string \<Rightarrow> coordinator \<Rightarrow> coordinator" where
  "cancelTarget key st =
     st\<lparr>co_timers := (case js_get (co_cancel st) key of
                        None \<Rightarrow> co_timers st | Some i \<Rightarrow> filter (\<lambda>t. tm_id t \<noteq> i) (co_timers st)),
        co_cancel := js_delete key (co_cancel st)\<rparr>"

definition acceptCommand :: "sync_config \<Rightarrow> command_object \<Rightarrow> coordinator \<Rightarrow> bool \<times> coordinator" where
  "acceptCommand cf obj st =
     (let key = targetKey (sc_target (snd obj)) in
      if (case js_get (co_latest st) key of
            None \<Rightarrow> False
          | Some previous \<Rightarrow> js_le_zero (compareCommands (cf_localeCompare cf) (snd obj) (snd previous)))
      then (False, st)
      else (True, cancelTarget key (st\<lparr>co_latest := js_set key obj (co_latest st)\<rparr>)))"

text \<open>\<open>Math.max(0, executeAtMs - groupNow)\<close>\<close>

definition delayUntil :: "js_number \<Rightarrow> sync_clock \<Rightarrow> js_number" where
  "delayUntil executeAtMs clk =
     (case js_sub executeAtMs (Fin (groupNow clk)) of Fin d \<Rightarrow> Fin (max 0 d) | NegInf \<Rightarrow> Fin 0 | x \<Rightarrow> x)"

definition scheduleCommand :: "sync_clock \<Rightarrow> command_object \<Rightarrow> coordinator \<Rightarrow> coordinator" where
  "scheduleCommand clk obj st =
     (let key = targetKey (sc_target (snd obj)); i = co_nextTimer st in
      st\<lparr>co_timers := co_timers st @ [\<lparr>tm_id = i, tm_key = key, tm_command = obj,
                                       tm_delay = delayUntil (sc_executeAtMs (snd obj)) clk\<rparr>],
         co_nextTimer := i + 1, co_cancel := js_set key i (co_cancel st)\<rparr>)"

text \<open>The callback of a timer that is due.\<close>

definition fireTimer :: "nat \<Rightarrow> coordinator \<Rightarrow> coordinator" where
  "fireTimer i st =
     (case filter (\<lambda>t. tm_id t = i) (co_timers st) of
        [] \<Rightarrow> st
      | t # _ \<Rightarrow>
          let st' = st\<lparr>co_timers := filter (\<lambda>t. tm_id t \<noteq> i) (co_timers st),
                       co_cancel := js_delete (tm_key t) (co_cancel st)\<rparr> in
          if co_closed st' \<or> map_option fst (js_get (co_latest st') (tm_key t)) \<noteq> Some (fst (tm_command t)) then st'
          else st'\<lparr>co_executed := co_executed st' @ [tm_command t]\<rparr>)"

definition localCommand :: "sync_config \<Rightarrow> sync_clock \<Rightarrow> command_input \<Rightarrow> coordinator \<Rightarrow> sync_command" where
  "localCommand cf clk inp st =
     \<lparr>sc_epoch = 1, sc_sequence = co_sequence st + 1, sc_action = in_action inp, sc_target = in_target inp,
      sc_positionSeconds = nonNegativeFinite (case in_positionSeconds inp of None \<Rightarrow> Fin 0 | Some x \<Rightarrow> x),
      sc_playbackRate = positiveFinite (case in_playbackRate inp of None \<Rightarrow> Fin 1 | Some x \<Rightarrow> x),
      sc_executeAtMs = Fin (groupNow clk + cf_executionDelayMs cf), sc_issuedAtMs = Fin (groupNow clk),
      sc_issuedByDeviceId = cf_deviceId cf\<rparr>"

text \<open>The clock is read when the command is made and again when it is scheduled.\<close>

definition publishCommand ::
  "sync_config \<Rightarrow> sync_clock \<Rightarrow> sync_clock \<Rightarrow> command_input \<Rightarrow> coordinator \<Rightarrow> command_object option \<times> coordinator" where
  "publishCommand cf clk clk' inp st =
     (if co_closed st \<or> \<not> isPlaybackSyncTarget (in_target inp) then (None, st)
      else if cf_authority cf = LEADER \<and> cf_leaderDeviceId cf \<noteq> Some (cf_deviceId cf) then (None, st)
      else
        let command = localCommand cf clk inp st;
            obj = (co_nextObject st, command);
            st1 = st\<lparr>co_nextObject := co_nextObject st + 1, co_sequence := sc_sequence command,
                     co_lastSequence := js_set (cf_deviceId cf) (sc_sequence command) (co_lastSequence st)\<rparr> in
        case acceptCommand cf obj st1 of
          (False, st2) \<Rightarrow> (None, st2)
        | (True, st2) \<Rightarrow> (Some obj, scheduleCommand clk' obj (st2\<lparr>co_sent := co_sent st2 @ [obj]\<rparr>)))"

text \<open>The transport has answered the publication of an object with an allocation.\<close>

definition adoptAllocation :: "sync_config \<Rightarrow> sync_clock \<Rightarrow> command_object \<Rightarrow> allocation \<Rightarrow> coordinator \<Rightarrow> coordinator" where
  "adoptAllocation cf clk previous al st =
     (let key = targetKey (sc_target (snd previous)) in
      if co_closed st \<or> map_option fst (js_get (co_latest st) key) \<noteq> Some (fst previous) then st
      else if \<not> isSafeInteger (al_epoch al) \<or> al_epoch al \<le> 0 then st
      else if \<not> isSafeInteger (al_sequence al) \<or> al_sequence al \<le> 0 then st
      else
        let obj = (co_nextObject st, (snd previous)\<lparr>sc_epoch := al_epoch al, sc_sequence := al_sequence al\<rparr>);
            known = (case js_get (co_lastSequence st) (cf_deviceId cf) of None \<Rightarrow> 0 | Some n \<Rightarrow> n) in
        scheduleCommand clk obj (cancelTarget key
          (st\<lparr>co_nextObject := co_nextObject st + 1, co_latest := js_set key obj (co_latest st),
              co_sequence := max (co_sequence st) (al_sequence al),
              co_lastSequence := js_set (cf_deviceId cf) (max known (al_sequence al)) (co_lastSequence st)\<rparr>)))"

definition receiveCommand :: "sync_config \<Rightarrow> sync_clock \<Rightarrow> sync_command \<Rightarrow> coordinator \<Rightarrow> coordinator" where
  "receiveCommand cf clk command st =
     (if co_closed st \<or> sc_issuedByDeviceId command = cf_deviceId cf then st
      else if \<not> isPlaybackSyncCommand command then st
      else if cf_authority cf = LEADER \<and> Some (sc_issuedByDeviceId command) \<noteq> cf_leaderDeviceId cf then st
      else
        let lastSequence = (case js_get (co_lastSequence st) (sc_issuedByDeviceId command) of None \<Rightarrow> 0 | Some n \<Rightarrow> n) in
        if sc_sequence command \<le> lastSequence then st
        else
          let obj = (co_nextObject st, command);
              st1 = st\<lparr>co_nextObject := co_nextObject st + 1,
                       co_lastSequence := js_set (sc_issuedByDeviceId command) (sc_sequence command) (co_lastSequence st)\<rparr> in
          case acceptCommand cf obj st1 of
            (False, st2) \<Rightarrow> st2
          | (True, st2) \<Rightarrow> scheduleCommand clk obj st2)"

definition closeCoordinator :: "coordinator \<Rightarrow> coordinator" where
  "closeCoordinator st =
     (if co_closed st then st
      else st\<lparr>co_closed := True,
              co_timers := filter (\<lambda>t. tm_id t \<notin> set (js_values (co_cancel st))) (co_timers st),
              co_cancel := []\<rparr>)"

text \<open>What can happen to a coordinator.\<close>

datatype sync_event =
    SPublish sync_clock sync_clock command_input
  | SAdopt sync_clock nat allocation
  | SReceive sync_clock sync_command
  | SFire nat
  | SClose

text \<open>An answer is to a command that was sent: \<open>SAdopt\<close> counts the publications.\<close>

fun syncDo :: "sync_config \<Rightarrow> sync_event \<Rightarrow> coordinator \<Rightarrow> coordinator" where
  "syncDo cf (SPublish clk clk' inp) st = snd (publishCommand cf clk clk' inp st)"
| "syncDo cf (SAdopt clk n al) st =
     (if n < length (co_sent st) then adoptAllocation cf clk (co_sent st ! n) al st else st)"
| "syncDo cf (SReceive clk command) st = receiveCommand cf clk command st"
| "syncDo cf (SFire i) st = fireTimer i st"
| "syncDo cf SClose st = closeCoordinator st"

definition syncRun :: "sync_config \<Rightarrow> sync_event list \<Rightarrow> coordinator \<Rightarrow> coordinator" where
  "syncRun cf events st = fold (syncDo cf) events st"

end
