(* ===== verification/Playback_Sync_Correct.thy ===== *)
theory Playback_Sync_Correct
  imports Playback_Sync
begin

text \<open>
  What the playback coordinator promises in every history, alone and against another screen: the timers follow the
  latest command of a target, and screens that hear the same commands in any interleaving agree. And where it fails:
  the second local command for a target is refused once the first has been adopted, and an adoption that comes after
  the command has run makes it run again.
\<close>

section \<open>Timers follow the latest command\<close>

definition identified :: "command_object set \<Rightarrow> bool" where
  "identified objs \<longleftrightarrow> (\<forall>x \<in> objs. \<forall>y \<in> objs. fst x = fst y \<longrightarrow> x = y)"

definition objects :: "coordinator \<Rightarrow> command_object set" where
  "objects st = ran (js_get (co_latest st)) \<union> set (co_sent st)"

definition timers_ok :: "coordinator \<Rightarrow> bool" where
  "timers_ok st \<longleftrightarrow>
     distinct (map tm_id (co_timers st)) \<and> (\<forall>t \<in> set (co_timers st). tm_id t < co_nextTimer st) \<and>
     (\<forall>t \<in> set (co_timers st). js_get (co_cancel st) (tm_key t) = Some (tm_id t) \<and>
        js_get (co_latest st) (tm_key t) = Some (tm_command t)) \<and>
     (\<forall>k i. js_get (co_cancel st) k = Some i \<longrightarrow> (\<exists>t \<in> set (co_timers st). tm_id t = i \<and> tm_key t = k)) \<and>
     (co_closed st \<longrightarrow> co_timers st = [])"

definition latest_ok :: "coordinator \<Rightarrow> bool" where
  "latest_ok st \<longleftrightarrow>
     (\<forall>k obj. js_get (co_latest st) k = Some obj \<longrightarrow> targetKey (sc_target (snd obj)) = k \<and>
        (co_closed st \<or> obj \<in> set (co_executed st) \<or> (\<exists>t \<in> set (co_timers st). tm_command t = obj)))"

definition objects_ok :: "coordinator \<Rightarrow> bool" where
  "objects_ok st \<longleftrightarrow> identified (objects st) \<and> (\<forall>obj \<in> objects st. fst obj < co_nextObject st) \<and>
     (\<forall>obj \<in> set (co_sent st). sc_epoch (snd obj) = 1)"

definition coord_ok :: "coordinator \<Rightarrow> bool" where
  "coord_ok st \<longleftrightarrow> timers_ok st \<and> latest_ok st \<and> objects_ok st"

lemma timers_okD:
  assumes "timers_ok st"
  shows "distinct (map tm_id (co_timers st))"
    and "t \<in> set (co_timers st) \<Longrightarrow> tm_id t < co_nextTimer st"
    and "t \<in> set (co_timers st) \<Longrightarrow> js_get (co_cancel st) (tm_key t) = Some (tm_id t)"
    and "t \<in> set (co_timers st) \<Longrightarrow> js_get (co_latest st) (tm_key t) = Some (tm_command t)"
    and "js_get (co_cancel st) k = Some i \<Longrightarrow> \<exists>t \<in> set (co_timers st). tm_id t = i \<and> tm_key t = k"
    and "co_closed st \<Longrightarrow> co_timers st = []"
  using assms unfolding timers_ok_def by blast+

lemma timer_id_unique:
  "timers_ok st \<Longrightarrow> t \<in> set (co_timers st) \<Longrightarrow> u \<in> set (co_timers st) \<Longrightarrow> tm_id t = tm_id u \<Longrightarrow> t = u"
  using timers_okD(1) by (auto simp: distinct_map dest: inj_onD)

lemma timer_key_unique:
  "timers_ok st \<Longrightarrow> t \<in> set (co_timers st) \<Longrightarrow> u \<in> set (co_timers st) \<Longrightarrow> tm_key t = tm_key u \<Longrightarrow> t = u"
  using timers_okD(3)[of st t] timers_okD(3)[of st u] timer_id_unique by auto

text \<open>The timer of a key is the one the cancellation of the key names.\<close>

lemma cancelTarget_timers:
  assumes "timers_ok st"
  shows "co_timers (cancelTarget key st) = filter (\<lambda>t. tm_key t \<noteq> key) (co_timers st)"
proof (cases "js_get (co_cancel st) key")
  case None
  then have "\<forall>t \<in> set (co_timers st). tm_key t \<noteq> key" using timers_okD(3)[OF assms] by fastforce
  then have "filter (\<lambda>t. tm_key t \<noteq> key) (co_timers st) = co_timers st" by (simp add: filter_True)
  with None show ?thesis by (simp add: cancelTarget_def)
next
  case (Some i)
  then obtain u where u: "u \<in> set (co_timers st)" "tm_id u = i" "tm_key u = key" using timers_okD(5)[OF assms] by blast
  have "tm_id t \<noteq> i \<longleftrightarrow> tm_key t \<noteq> key" if "t \<in> set (co_timers st)" for t
    using timer_id_unique[OF assms that u(1)] timer_key_unique[OF assms that u(1)] u by metis
  then have "filter (\<lambda>t. tm_id t \<noteq> i) (co_timers st) = filter (\<lambda>t. tm_key t \<noteq> key) (co_timers st)"
    by (intro filter_cong) auto
  with Some show ?thesis by (simp add: cancelTarget_def)
qed

text \<open>A fresh command takes its target over: it becomes the latest, and the only armed one.\<close>

definition takesOver :: "string \<Rightarrow> command_object \<Rightarrow> js_number \<Rightarrow> coordinator \<Rightarrow> coordinator \<Rightarrow> bool" where
  "takesOver key obj d st st' \<longleftrightarrow>
     \<not> co_closed st \<and> fst obj = co_nextObject st \<and> targetKey (sc_target (snd obj)) = key \<and>
     js_get (co_latest st') = (js_get (co_latest st))(key \<mapsto> obj) \<and>
     js_get (co_cancel st') = (js_get (co_cancel st))(key \<mapsto> co_nextTimer st) \<and>
     co_timers st' = filter (\<lambda>t. tm_key t \<noteq> key) (co_timers st) @
       [\<lparr>tm_id = co_nextTimer st, tm_key = key, tm_command = obj, tm_delay = d\<rparr>] \<and>
     co_nextTimer st' = Suc (co_nextTimer st) \<and> co_nextObject st' = Suc (co_nextObject st) \<and>
     \<not> co_closed st' \<and> co_executed st' = co_executed st \<and>
     (co_sent st' = co_sent st \<or> co_sent st' = co_sent st @ [obj] \<and> sc_epoch (snd obj) = 1)"

lemma takesOverD:
  assumes "takesOver key obj d st st'"
  shows "co_timers st' = filter (\<lambda>t. tm_key t \<noteq> key) (co_timers st) @
      [\<lparr>tm_id = co_nextTimer st, tm_key = key, tm_command = obj, tm_delay = d\<rparr>]"
    and "js_get (co_latest st') = (js_get (co_latest st))(key \<mapsto> obj)"
    and "js_get (co_cancel st') = (js_get (co_cancel st))(key \<mapsto> co_nextTimer st)"
    and "co_nextTimer st' = Suc (co_nextTimer st)" and "co_nextObject st' = Suc (co_nextObject st)"
    and "\<not> co_closed st" and "\<not> co_closed st'" and "co_executed st' = co_executed st"
    and "fst obj = co_nextObject st" and "targetKey (sc_target (snd obj)) = key"
    and "co_sent st' = co_sent st \<or> co_sent st' = co_sent st @ [obj] \<and> sc_epoch (snd obj) = 1"
  using assms unfolding takesOver_def by blast+

lemma takesOver_timers:
  assumes ok: "timers_ok st" and t: "takesOver key obj d st st'"
  shows "timers_ok st'"
proof -
  note o = timers_okD[OF ok] and d = takesOverD[OF t]
  have fresh: "co_nextTimer st \<notin> tm_id ` set (co_timers st)" using o(2) by (metis imageE less_irrefl)
  have "distinct (map tm_id (co_timers st'))"
    unfolding d(1) using o(1) fresh by (auto simp: distinct_map intro: inj_on_subset)
  moreover have "\<forall>u \<in> set (co_timers st'). tm_id u < co_nextTimer st'"
    unfolding d(1) d(4) using o(2) by (auto intro: less_SucI)
  moreover have "\<forall>u \<in> set (co_timers st'). js_get (co_cancel st') (tm_key u) = Some (tm_id u) \<and>
      js_get (co_latest st') (tm_key u) = Some (tm_command u)"
    unfolding d(1-3) using o(3,4) by auto
  moreover have "\<exists>u \<in> set (co_timers st'). tm_id u = i \<and> tm_key u = k" if "js_get (co_cancel st') k = Some i" for k i
    using that o(5)[of k i] unfolding d(1,3) by (cases "k = key") auto
  ultimately show ?thesis using d(7) unfolding timers_ok_def by blast
qed

lemma takesOver_latest:
  assumes ok: "latest_ok st" and t: "takesOver key obj d st st'" and tm: "timers_ok st"
  shows "latest_ok st'"
proof -
  note d = takesOverD[OF t]
  have "targetKey (sc_target (snd x)) = k \<and> (x \<in> set (co_executed st') \<or> (\<exists>u \<in> set (co_timers st'). tm_command u = x))"
    if "js_get (co_latest st') k = Some x" for k x
  proof (cases "k = key")
    case True
    with that d(10) show ?thesis unfolding d(1,2) by auto
  next
    case False
    then have l: "js_get (co_latest st) k = Some x" using that unfolding d(2) by simp
    have "tm_key u = k" if "u \<in> set (co_timers st)" "tm_command u = x" for u
      using timers_okD(4)[OF tm that(1)] l ok that(2) unfolding latest_ok_def by metis
    with l False ok d(6) show ?thesis unfolding latest_ok_def d(1,8) by fastforce
  qed
  then show ?thesis by (simp add: latest_ok_def)
qed

lemma takesOver_objects:
  assumes ok: "objects_ok st" and t: "takesOver key obj d st st'"
  shows "objects_ok st'"
proof -
  have sub: "objects st' \<subseteq> insert obj (objects st)"
    using t by (auto simp: objects_def takesOver_def ran_def)
  have fresh: "fst x < fst obj" if "x \<in> objects st" for x using ok t that by (auto simp: objects_ok_def takesOver_def)
  have "identified (insert obj (objects st))"
    using ok fresh by (auto simp: identified_def objects_ok_def dest: fresh)
  then have "identified (objects st')" using sub by (auto simp: identified_def)
  moreover have "fst x < co_nextObject st'" if "x \<in> objects st'" for x
    using sub that fresh[of x] t by (auto simp: takesOver_def)
  ultimately show ?thesis using ok t by (auto simp: objects_ok_def takesOver_def)
qed

lemma takesOver_ok: "coord_ok st \<Longrightarrow> takesOver key obj d st st' \<Longrightarrow> coord_ok st'"
  unfolding coord_ok_def using takesOver_timers takesOver_latest takesOver_objects by (elim conjE) (intro conjI; assumption?; blast)

text \<open>Accepting and scheduling a fresh command is a takeover.\<close>

lemma install_takesOver:
  assumes "timers_ok st" and "\<not> co_closed st" and "fst obj = co_nextObject st" and "targetKey (sc_target (snd obj)) = key"
    and "s = [] \<or> s = [obj] \<and> sc_epoch (snd obj) = 1"
  shows "takesOver key obj (delayUntil (sc_executeAtMs (snd obj)) clk) st
    (scheduleCommand clk obj ((cancelTarget key (st\<lparr>co_nextObject := co_nextObject st + 1, co_sequence := n, co_lastSequence := m,
       co_latest := js_set key obj (co_latest st)\<rparr>))\<lparr>co_sent := co_sent st @ s\<rparr>))"
proof -
  have "co_timers (cancelTarget key (st\<lparr>co_nextObject := co_nextObject st + 1, co_sequence := n, co_lastSequence := m,
      co_latest := js_set key obj (co_latest st)\<rparr>)) = co_timers (cancelTarget key st)"
    by (simp add: cancelTarget_def split: option.split)
  with assms show ?thesis
    unfolding takesOver_def
    by (auto simp: scheduleCommand_def Let_def cancelTarget_timers jsmap_simps fun_eq_iff) (auto simp: cancelTarget_def jsmap_simps)
qed

lemma install_takesOver_unsent:
  assumes "timers_ok st" and "\<not> co_closed st" and "fst obj = co_nextObject st" and "targetKey (sc_target (snd obj)) = key"
  shows "takesOver key obj (delayUntil (sc_executeAtMs (snd obj)) clk) st
    (scheduleCommand clk obj (cancelTarget key (st\<lparr>co_nextObject := co_nextObject st + 1, co_sequence := n, co_lastSequence := m,
       co_latest := js_set key obj (co_latest st)\<rparr>)))"
proof -
  let ?c = "cancelTarget key (st\<lparr>co_nextObject := co_nextObject st + 1, co_sequence := n, co_lastSequence := m,
       co_latest := js_set key obj (co_latest st)\<rparr>)"
  have "co_sent ?c = co_sent st" by (simp add: cancelTarget_def)
  then have "?c\<lparr>co_sent := co_sent st @ []\<rparr> = ?c" by (cases ?c) simp
  with install_takesOver[OF assms, of "[]" clk, where n = n and m = m] show ?thesis by simp
qed

lemma co_sent_cancelTarget [simp]: "co_sent (cancelTarget k s) = co_sent s"
  by (simp add: cancelTarget_def)

text \<open>What one event does to a coordinator: nothing that matters here, or a takeover.\<close>

definition unmoved :: "coordinator \<Rightarrow> coordinator \<Rightarrow> bool" where
  "unmoved st st' \<longleftrightarrow> (\<exists>n m k. st' = st\<lparr>co_sequence := n, co_lastSequence := m, co_nextObject := co_nextObject st + k\<rparr>)"

lemma unmoved_refl: "unmoved st st"
  unfolding unmoved_def by (rule exI[of _ "co_sequence st"], rule exI[of _ "co_lastSequence st"], rule exI[of _ 0]) simp

lemma unmoved_ok: "coord_ok st \<Longrightarrow> unmoved st st' \<Longrightarrow> coord_ok st'"
  unfolding unmoved_def coord_ok_def timers_ok_def latest_ok_def objects_ok_def objects_def by (elim exE) (auto intro: trans_less_add1)

text \<open>A command beats the latest of its target.\<close>

definition beatsLatest :: "sync_config \<Rightarrow> sync_command \<Rightarrow> coordinator \<Rightarrow> bool" where
  "beatsLatest cf c st \<longleftrightarrow>
     (\<forall>previous. js_get (co_latest st) (targetKey (sc_target c)) = Some previous \<longrightarrow>
        \<not> js_le_zero (compareCommands (cf_localeCompare cf) c (snd previous)))"

lemma beatsLatest_update [simp]:
  "beatsLatest cf c (st\<lparr>co_nextObject := a\<rparr>) = beatsLatest cf c st"
  "beatsLatest cf c (st\<lparr>co_sequence := b\<rparr>) = beatsLatest cf c st"
  "beatsLatest cf c (st\<lparr>co_lastSequence := d\<rparr>) = beatsLatest cf c st"
  by (simp_all add: beatsLatest_def)

lemma acceptCommand_beats:
  "acceptCommand cf obj st =
     (if beatsLatest cf (snd obj) st
      then (True, cancelTarget (targetKey (sc_target (snd obj))) (st\<lparr>co_latest := js_set (targetKey (sc_target (snd obj))) obj (co_latest st)\<rparr>))
      else (False, st))"
  by (auto simp: acceptCommand_def beatsLatest_def Let_def split: option.splits)

definition mayPublish :: "sync_config \<Rightarrow> command_input \<Rightarrow> coordinator \<Rightarrow> bool" where
  "mayPublish cf inp st \<longleftrightarrow> \<not> co_closed st \<and> isPlaybackSyncTarget (in_target inp) \<and>
     \<not> (cf_authority cf = LEADER \<and> cf_leaderDeviceId cf \<noteq> Some (cf_deviceId cf))"

definition localObject :: "sync_config \<Rightarrow> sync_clock \<Rightarrow> command_input \<Rightarrow> coordinator \<Rightarrow> command_object" where
  "localObject cf clk inp st = (co_nextObject st, localCommand cf clk inp st)"

lemma publishCommand_cases:
  assumes ok: "timers_ok st"
  shows "fst (publishCommand cf clk clk' inp st) =
      (if mayPublish cf inp st \<and> beatsLatest cf (snd (localObject cf clk inp st)) st then Some (localObject cf clk inp st) else None)"
    and "mayPublish cf inp st \<and> beatsLatest cf (snd (localObject cf clk inp st)) st \<Longrightarrow>
      takesOver (targetKey (in_target inp)) (localObject cf clk inp st) (delayUntil (sc_executeAtMs (snd (localObject cf clk inp st))) clk') st
        (snd (publishCommand cf clk clk' inp st)) \<and> co_sent (snd (publishCommand cf clk clk' inp st)) = co_sent st @ [localObject cf clk inp st]"
    and "\<not> (mayPublish cf inp st \<and> beatsLatest cf (snd (localObject cf clk inp st)) st) \<Longrightarrow> unmoved st (snd (publishCommand cf clk clk' inp st))"
proof -
  note p = publishCommand_def mayPublish_def localObject_def Let_def acceptCommand_beats
  have target: "sc_target (localCommand cf clk inp st) = in_target inp" "sc_epoch (localCommand cf clk inp st) = 1"
    by (simp_all add: localCommand_def)
  show "fst (publishCommand cf clk clk' inp st) =
      (if mayPublish cf inp st \<and> beatsLatest cf (snd (localObject cf clk inp st)) st then Some (localObject cf clk inp st) else None)"
    by (simp add: p)
  show "unmoved st (snd (publishCommand cf clk clk' inp st))"
    if "\<not> (mayPublish cf inp st \<and> beatsLatest cf (snd (localObject cf clk inp st)) st)"
  proof (cases "mayPublish cf inp st")
    case True
    with that have "\<not> beatsLatest cf (localCommand cf clk inp st) st" by (simp add: localObject_def)
    with True have "snd (publishCommand cf clk clk' inp st) = st\<lparr>co_nextObject := co_nextObject st + 1,
        co_sequence := sc_sequence (localCommand cf clk inp st),
        co_lastSequence := js_set (cf_deviceId cf) (sc_sequence (localCommand cf clk inp st)) (co_lastSequence st)\<rparr>"
      by (auto simp: p)
    then show ?thesis unfolding unmoved_def
      by (intro exI[of _ "sc_sequence (localCommand cf clk inp st)"]
          exI[of _ "js_set (cf_deviceId cf) (sc_sequence (localCommand cf clk inp st)) (co_lastSequence st)"] exI[of _ 1]) simp
  next
    case False
    then have "snd (publishCommand cf clk clk' inp st) = st" by (auto simp: p)
    then show ?thesis using unmoved_refl by simp
  qed
  assume a: "mayPublish cf inp st \<and> beatsLatest cf (snd (localObject cf clk inp st)) st"
  from a have "snd (publishCommand cf clk clk' inp st) =
      scheduleCommand clk' (localObject cf clk inp st) ((cancelTarget (targetKey (in_target inp)) (st\<lparr>co_nextObject := co_nextObject st + 1,
        co_sequence := sc_sequence (snd (localObject cf clk inp st)),
        co_lastSequence := js_set (cf_deviceId cf) (sc_sequence (snd (localObject cf clk inp st))) (co_lastSequence st),
        co_latest := js_set (targetKey (in_target inp)) (localObject cf clk inp st) (co_latest st)\<rparr>))\<lparr>co_sent := co_sent st @ [localObject cf clk inp st]\<rparr>)"
    by (auto simp: p target)
  then show "takesOver (targetKey (in_target inp)) (localObject cf clk inp st) (delayUntil (sc_executeAtMs (snd (localObject cf clk inp st))) clk') st
      (snd (publishCommand cf clk clk' inp st)) \<and> co_sent (snd (publishCommand cf clk clk' inp st)) = co_sent st @ [localObject cf clk inp st]"
    using install_takesOver[OF ok, of "localObject cf clk inp st" "targetKey (in_target inp)" "[localObject cf clk inp st]" clk'] a target
    by (simp add: localObject_def mayPublish_def scheduleCommand_def Let_def)
qed

lemma receiveCommand_cases:
  assumes ok: "timers_ok st"
  shows "unmoved st (receiveCommand cf clk c st) \<or>
    (isPlaybackSyncCommand c \<and> beatsLatest cf c st \<and>
     takesOver (targetKey (sc_target c)) (co_nextObject st, c) (delayUntil (sc_executeAtMs c) clk) st (receiveCommand cf clk c st) \<and>
     co_sent (receiveCommand cf clk c st) = co_sent st)"
proof -
  let ?seen = "case js_get (co_lastSequence st) (sc_issuedByDeviceId c) of None \<Rightarrow> 0 | Some n \<Rightarrow> n"
  let ?taken = "\<not> (co_closed st \<or> sc_issuedByDeviceId c = cf_deviceId cf) \<and> isPlaybackSyncCommand c \<and>
    \<not> (cf_authority cf = LEADER \<and> Some (sc_issuedByDeviceId c) \<noteq> cf_leaderDeviceId cf) \<and> \<not> sc_sequence c \<le> ?seen"
  let ?m = "js_set (sc_issuedByDeviceId c) (sc_sequence c) (co_lastSequence st)"
  let ?st = "st\<lparr>co_nextObject := co_nextObject st + 1, co_lastSequence := ?m\<rparr>"
  show ?thesis
  proof (cases ?taken)
    case False
    then have "receiveCommand cf clk c st = st" by (auto simp: receiveCommand_def Let_def)
    then show ?thesis using unmoved_refl by simp
  next
    case True
    then have r: "receiveCommand cf clk c st = (if beatsLatest cf c st
        then scheduleCommand clk (co_nextObject st, c) (cancelTarget (targetKey (sc_target c))
          (?st\<lparr>co_latest := js_set (targetKey (sc_target c)) (co_nextObject st, c) (co_latest st)\<rparr>)) else ?st)"
      by (auto simp: receiveCommand_def acceptCommand_beats Let_def)
    show ?thesis
    proof (cases "beatsLatest cf c st")
      case False
      then show ?thesis unfolding r unmoved_def
        by (intro disjI1 exI[of _ "co_sequence st"] exI[of _ ?m] exI[of _ 1]) simp
    next
      case True
      show ?thesis
        using install_takesOver_unsent[OF ok, where obj = "(co_nextObject st, c)" and key = "targetKey (sc_target c)" and clk = clk and n = "co_sequence st" and m = ?m] \<open>?taken\<close> True
        by (simp add: r scheduleCommand_def Let_def)
    qed
  qed
qed

definition adoptable :: "command_object \<Rightarrow> allocation \<Rightarrow> coordinator \<Rightarrow> bool" where
  "adoptable previous al st \<longleftrightarrow> \<not> co_closed st \<and>
     map_option fst (js_get (co_latest st) (targetKey (sc_target (snd previous)))) = Some (fst previous) \<and>
     isSafeInteger (al_epoch al) \<and> 0 < al_epoch al \<and> isSafeInteger (al_sequence al) \<and> 0 < al_sequence al"

definition adoptedObject :: "command_object \<Rightarrow> allocation \<Rightarrow> coordinator \<Rightarrow> command_object" where
  "adoptedObject previous al st =
     (co_nextObject st, (snd previous)\<lparr>sc_epoch := al_epoch al, sc_sequence := al_sequence al\<rparr>)"

lemma adoptAllocation_cases:
  assumes ok: "timers_ok st"
  shows "\<not> adoptable previous al st \<Longrightarrow> adoptAllocation cf clk previous al st = st"
    and "adoptable previous al st \<Longrightarrow>
      takesOver (targetKey (sc_target (snd previous))) (adoptedObject previous al st)
        (delayUntil (sc_executeAtMs (snd previous)) clk) st (adoptAllocation cf clk previous al st) \<and>
      co_sent (adoptAllocation cf clk previous al st) = co_sent st"
proof -
  show "adoptAllocation cf clk previous al st = st" if "\<not> adoptable previous al st"
    using that by (auto simp: adoptAllocation_def adoptable_def Let_def)
  assume a: "adoptable previous al st"
  let ?k = "targetKey (sc_target (snd previous))"
  let ?m = "js_set (cf_deviceId cf)
    (max (case js_get (co_lastSequence st) (cf_deviceId cf) of None \<Rightarrow> 0 | Some n \<Rightarrow> n) (al_sequence al)) (co_lastSequence st)"
  have reorder: "st\<lparr>co_nextObject := x, co_latest := l, co_sequence := n, co_lastSequence := m\<rparr> =
      st\<lparr>co_nextObject := x, co_sequence := n, co_lastSequence := m, co_latest := l\<rparr>" for x l n m
    by (cases st) simp
  have "adoptAllocation cf clk previous al st = scheduleCommand clk (adoptedObject previous al st) (cancelTarget ?k
      (st\<lparr>co_nextObject := co_nextObject st + 1, co_sequence := max (co_sequence st) (al_sequence al), co_lastSequence := ?m,
        co_latest := js_set ?k (adoptedObject previous al st) (co_latest st)\<rparr>))"
    using a by (auto simp: adoptAllocation_def adoptable_def adoptedObject_def Let_def reorder)
  then show "takesOver ?k (adoptedObject previous al st) (delayUntil (sc_executeAtMs (snd previous)) clk) st
      (adoptAllocation cf clk previous al st) \<and> co_sent (adoptAllocation cf clk previous al st) = co_sent st"
    using install_takesOver_unsent[OF ok, where obj = "adoptedObject previous al st" and key = ?k and clk = clk and n = "max (co_sequence st) (al_sequence al)" and m = ?m] a
    by (simp add: adoptedObject_def adoptable_def scheduleCommand_def Let_def)
qed

text \<open>A timer that is due executes its command, and a closed coordinator has none.\<close>

lemma fireTimer_armed:
  assumes ok: "timers_ok st" and t: "t \<in> set (co_timers st)"
  shows "fireTimer (tm_id t) st = st\<lparr>co_timers := filter (\<lambda>u. tm_id u \<noteq> tm_id t) (co_timers st),
    co_cancel := js_delete (tm_key t) (co_cancel st), co_executed := co_executed st @ [tm_command t]\<rparr>"
proof -
  have "filter (\<lambda>u. tm_id u = tm_id t) (co_timers st) \<noteq> []" using t by (auto simp: filter_empty_conv)
  then obtain u us where u: "filter (\<lambda>u. tm_id u = tm_id t) (co_timers st) = u # us" by (cases "filter (\<lambda>u. tm_id u = tm_id t) (co_timers st)") auto
  then have "u \<in> set (filter (\<lambda>u. tm_id u = tm_id t) (co_timers st))" by simp
  then have "u \<in> set (co_timers st)" "tm_id u = tm_id t" by simp_all
  then have [simp]: "u = t" using timer_id_unique[OF ok _ t] by blast
  have "\<not> co_closed st" using timers_okD(6)[OF ok] t by auto
  then show ?thesis using timers_okD(4)[OF ok t] u by (cases "tm_command t") (simp add: fireTimer_def Let_def)
qed

lemma fireTimer_idle: "\<forall>t \<in> set (co_timers st). tm_id t \<noteq> i \<Longrightarrow> fireTimer i st = st"
  by (simp add: fireTimer_def filter_empty_conv)

lemma fireTimer_ok:
  assumes ok: "coord_ok st"
  shows "coord_ok (fireTimer i st)"
proof (cases "\<exists>t \<in> set (co_timers st). tm_id t = i")
  case False
  with fireTimer_idle ok show ?thesis by metis
next
  case True
  then obtain t where t: "t \<in> set (co_timers st)" "tm_id t = i" by blast
  have tm: "timers_ok st" using ok by (simp add: coord_ok_def)
  note f = fireTimer_armed[OF tm t(1), unfolded t(2)]
  have keys: "tm_key u \<noteq> tm_key t" if "u \<in> set (co_timers st)" "tm_id u \<noteq> i" for u
    using timer_key_unique[OF tm that(1) t(1)] that(2) t(2) by blast
  have "timers_ok (fireTimer i st)"
    unfolding timers_ok_def
  proof (intro conjI)
    show "distinct (map tm_id (co_timers (fireTimer i st)))" unfolding f using timers_okD(1)[OF tm] by (simp add: distinct_map_filter)
    show "\<forall>u \<in> set (co_timers (fireTimer i st)). tm_id u < co_nextTimer (fireTimer i st)"
      unfolding f using timers_okD(2)[OF tm] by simp
    show "\<forall>u \<in> set (co_timers (fireTimer i st)). js_get (co_cancel (fireTimer i st)) (tm_key u) = Some (tm_id u) \<and>
        js_get (co_latest (fireTimer i st)) (tm_key u) = Some (tm_command u)"
      unfolding f using timers_okD(3,4)[OF tm] keys by (simp add: jsmap_simps)
    show "\<forall>k j. js_get (co_cancel (fireTimer i st)) k = Some j \<longrightarrow> (\<exists>u \<in> set (co_timers (fireTimer i st)). tm_id u = j \<and> tm_key u = k)"
    proof (intro allI impI)
      fix k j
      assume "js_get (co_cancel (fireTimer i st)) k = Some j"
      then have k: "k \<noteq> tm_key t" "js_get (co_cancel st) k = Some j" unfolding f by (auto simp: jsmap_simps split: if_splits)
      then obtain u where u: "u \<in> set (co_timers st)" "tm_id u = j" "tm_key u = k" using timers_okD(5)[OF tm] by blast
      then have "tm_id u \<noteq> i" using timer_id_unique[OF tm u(1) t(1)] t(2) k(1) by auto
      with u show "\<exists>u \<in> set (co_timers (fireTimer i st)). tm_id u = j \<and> tm_key u = k" unfolding f by auto
    qed
    show "co_closed (fireTimer i st) \<longrightarrow> co_timers (fireTimer i st) = []" unfolding f using timers_okD(6)[OF tm] t by auto
  qed
  moreover have "latest_ok (fireTimer i st)"
    unfolding latest_ok_def
  proof (intro allI impI)
    fix k x
    assume "js_get (co_latest (fireTimer i st)) k = Some x"
    then have "js_get (co_latest st) k = Some x" unfolding f by simp
    then have "targetKey (sc_target (snd x)) = k \<and>
        (co_closed st \<or> x \<in> set (co_executed st) \<or> (\<exists>u \<in> set (co_timers st). tm_command u = x))"
      using ok unfolding coord_ok_def latest_ok_def by blast
    then show "targetKey (sc_target (snd x)) = k \<and> (co_closed (fireTimer i st) \<or> x \<in> set (co_executed (fireTimer i st)) \<or>
        (\<exists>u \<in> set (co_timers (fireTimer i st)). tm_command u = x))"
      unfolding f using timer_id_unique[OF tm _ t(1)] t(2) by auto
  qed
  moreover have "objects_ok (fireTimer i st)"
    using ok unfolding f objects_ok_def objects_def coord_ok_def by simp
  ultimately show ?thesis by (simp add: coord_ok_def)
qed

lemma closeCoordinator_timers: "timers_ok st \<Longrightarrow> co_timers (closeCoordinator st) = []"
proof -
  assume ok: "timers_ok st"
  have "tm_id t \<in> set (js_values (co_cancel st))" if "t \<in> set (co_timers st)" for t
    using map_of_SomeD[OF timers_okD(3)[OF ok that]] by force
  then have "filter (\<lambda>t. tm_id t \<notin> set (js_values (co_cancel st))) (co_timers st) = []"
    by (simp add: filter_empty_conv)
  then show ?thesis using timers_okD(6)[OF ok] by (simp add: closeCoordinator_def)
qed

lemma closeCoordinator_ok:
  assumes ok: "coord_ok st"
  shows "coord_ok (closeCoordinator st)"
proof (cases "co_closed st")
  case True
  with ok show ?thesis by (simp add: closeCoordinator_def)
next
  case False
  have "co_timers (closeCoordinator st) = []" using ok closeCoordinator_timers by (simp add: coord_ok_def)
  with False ok show ?thesis
    by (auto simp: coord_ok_def timers_ok_def latest_ok_def objects_ok_def objects_def closeCoordinator_def)
qed

lemma syncDo_ok:
  assumes ok: "coord_ok st"
  shows "coord_ok (syncDo cf e st)"
proof -
  have tm: "timers_ok st" using ok by (simp add: coord_ok_def)
  show ?thesis
  proof (cases e)
    case (SPublish clk clk' inp)
    show ?thesis
    proof (cases "mayPublish cf inp st \<and> beatsLatest cf (snd (localObject cf clk inp st)) st")
      case True
      from takesOver_ok[OF ok publishCommand_cases(2)[OF tm True, THEN conjunct1]] SPublish show ?thesis by simp
    next
      case False
      from unmoved_ok[OF ok publishCommand_cases(3)[OF tm False]] SPublish show ?thesis by simp
    qed
  next
    case (SAdopt clk n al)
    show ?thesis
    proof (cases "adoptable (co_sent st ! n) al st")
      case True
      from takesOver_ok[OF ok adoptAllocation_cases(2)[OF tm True, THEN conjunct1]] SAdopt ok show ?thesis by simp
    next
      case False
      from adoptAllocation_cases(1)[OF tm False] SAdopt ok show ?thesis by simp
    qed
  next
    case (SReceive clk c)
    then show ?thesis using receiveCommand_cases[OF tm, where cf = cf and clk = clk and c = c] takesOver_ok[OF ok] unmoved_ok[OF ok] by auto
  qed (use fireTimer_ok closeCoordinator_ok ok in auto)
qed

lemma newCoordinator_ok: "coord_ok newCoordinator"
  by (simp add: newCoordinator_def coord_ok_def timers_ok_def latest_ok_def objects_ok_def objects_def identified_def)

lemma syncRun_ok: "coord_ok st \<Longrightarrow> coord_ok (syncRun cf es st)"
  unfolding syncRun_def by (rule fold_preserves[where P = coord_ok]) (auto intro: syncDo_ok)

interpretation coordinator: invariant_system "\<lambda>st. st = newCoordinator" "\<lambda>st t. \<exists>cf e. t = syncDo cf e st" coord_ok
  by unfold_locales (auto intro: newCoordinator_ok syncDo_ok)

text \<open>Nothing happens to a coordinator that is closed and has no timer.\<close>

lemma closed_stays:
  assumes "co_closed st" and "co_timers st = []"
  shows "syncRun cf events st = st"
proof -
  have "syncDo cf e st = st" for e
    using assms by (cases e)
      (simp_all add: publishCommand_def adoptAllocation_def receiveCommand_def fireTimer_def closeCoordinator_def Let_def)
  then show ?thesis unfolding syncRun_def by (induction events) simp_all
qed

text \<open>
  C17: The timers follow the latest command. In every history of publications, adoptions, commands of others, timers and
  a closing: a target has at most one timer armed, and it holds the very command that is the latest of that target, so
  a command that has been superseded or renumbered never runs; and while the coordinator is open, the latest command of
  every target is armed or has run already, so none is forgotten. A closed coordinator has no timer, so what was
  still armed at the closing never runs, and nothing that happens later changes it.
\<close>

theorem timers_follow_the_latest:
  "let st = syncRun cf events newCoordinator in
   distinct (map tm_key (co_timers st)) \<and>
   (\<forall>t \<in> set (co_timers st). js_get (co_latest st) (tm_key t) = Some (tm_command t)) \<and>
   (\<not> co_closed st \<longrightarrow> (\<forall>key obj. js_get (co_latest st) key = Some obj \<longrightarrow>
      obj \<in> set (co_executed st) \<or> obj \<in> tm_command ` set (co_timers st))) \<and>
   (co_closed st \<longrightarrow> co_timers st = [] \<and> (\<forall>more. syncRun cf more st = st))"
proof -
  let ?st = "syncRun cf events newCoordinator"
  have ok: "timers_ok ?st" "latest_ok ?st"
    using syncRun_ok[OF newCoordinator_ok] by (simp_all add: coord_ok_def)
  have one: "distinct (map tm_key (co_timers ?st))"
    using timers_okD(1)[OF ok(1)] timer_key_unique[OF ok(1)] by (auto simp: distinct_map inj_on_def)
  have closed: "co_closed ?st \<longrightarrow> co_timers ?st = []"
    using timers_okD(4,6)[OF ok(1)] by blast
  have holds: "\<forall>t \<in> set (co_timers ?st). js_get (co_latest ?st) (tm_key t) = Some (tm_command t)"
    using timers_okD(4,6)[OF ok(1)] by blast
  have latest: "\<not> co_closed ?st \<longrightarrow> (\<forall>key obj. js_get (co_latest ?st) key = Some obj \<longrightarrow>
      obj \<in> set (co_executed ?st) \<or> obj \<in> tm_command ` set (co_timers ?st))"
    using ok(2) unfolding latest_ok_def by blast
  show ?thesis unfolding Let_def
    using one closed holds latest closed_stays by blast
qed

text \<open>A screen with which the theorems are applied.\<close>

definition sampleCollation :: "string \<Rightarrow> string \<Rightarrow> int" where
  "sampleCollation a b = int (length a) - int (length b)"

definition sampleScreen :: "string \<Rightarrow> sync_config" where
  "sampleScreen d = \<lparr>cf_deviceId = d, cf_authority = MULTI_AUTHORITY, cf_leaderDeviceId = None, cf_executionDelayMs = 40,
     cf_localeCompare = sampleCollation\<rparr>"

definition sampleInput :: command_input where
  "sampleInput = \<lparr>in_action = PLAY, in_target = \<lparr>tg_cameraId = ''K-17'', tg_sourceKind = DEMO_VIDEO, tg_materialId = None\<rparr>,
     in_positionSeconds = Some (Fin 12), in_playbackRate = None\<rparr>"

lemmas sample_defs = sampleScreen_def sampleInput_def syncRun_def newCoordinator_def publishCommand_def localCommand_def acceptCommand_def
  scheduleCommand_def cancelTarget_def adoptAllocation_def targetKey_def orEmpty_def isPlaybackSyncTarget_def isSafeInteger_def
  maxSafeInteger_def Let_def

text \<open>A second command for the same target five milliseconds later: one timer, of the second.\<close>

definition sampleEvents :: "sync_event list" where
  "sampleEvents = [SPublish (0, NaN) (0, NaN) sampleInput, SPublish (5, NaN) (5, NaN) sampleInput]"

lemma sample_timers:
  "map (\<lambda>t. sc_issuedAtMs (snd (tm_command t))) (co_timers (syncRun (sampleScreen ''c'') sampleEvents newCoordinator)) = [Fin 5]"
  by (simp add: sampleEvents_def sample_defs compareCommands_def groupNow_def js_or_def js_le_zero_def jsmap_simps)

theorem timers_follow_the_latest_witness:
  "\<exists>t. co_timers (syncRun (sampleScreen ''c'') sampleEvents newCoordinator) = [t] \<and>
     sc_issuedAtMs (snd (tm_command t)) = Fin 5 \<and>
     js_get (co_latest (syncRun (sampleScreen ''c'') sampleEvents newCoordinator)) (tm_key t) = Some (tm_command t)"
proof -
  obtain t where t: "co_timers (syncRun (sampleScreen ''c'') sampleEvents newCoordinator) = [t]"
    "sc_issuedAtMs (snd (tm_command t)) = Fin 5"
    using sample_timers by (auto simp: map_eq_Cons_conv)
  then show ?thesis
    using timers_follow_the_latest[of "sampleScreen ''c''" sampleEvents] unfolding Let_def by auto
qed

section \<open>Adoption\<close>

text \<open>A later epoch beats an earlier one whatever else the commands say.\<close>

lemma lower_epoch_loses:
  "sc_epoch c < sc_epoch previous \<Longrightarrow> js_le_zero (compareCommands collate c previous)"
  by (simp add: compareCommands_def js_or_def js_le_zero_def)

text \<open>A target led by a command of the group: its epoch is a revision above one, where every local command has one.\<close>

definition ledByGroup :: "string \<Rightarrow> coordinator \<Rightarrow> bool" where
  "ledByGroup key st \<longleftrightarrow> (\<exists>obj. js_get (co_latest st) key = Some obj \<and> 2 \<le> sc_epoch (snd obj))"

lemma takesOver_led:
  assumes led: "ledByGroup key st" and t: "takesOver k obj d st st'" and b: "beatsLatest cf (snd obj) st"
  shows "ledByGroup key st'"
proof (cases "k = key")
  case True
  from led obtain x where x: "js_get (co_latest st) key = Some x" "2 \<le> sc_epoch (snd x)" by (auto simp: ledByGroup_def)
  then have "\<not> sc_epoch (snd obj) < sc_epoch (snd x)"
    using b takesOverD(10)[OF t] True lower_epoch_loses[of "snd obj" "snd x" "cf_localeCompare cf"] by (auto simp: beatsLatest_def)
  with x(2) show ?thesis using takesOverD(2)[OF t] True by (simp add: ledByGroup_def)
next
  case False
  with led show ?thesis using takesOverD(2)[OF t] by (simp add: ledByGroup_def)
qed

lemma unmoved_led: "unmoved st st' \<Longrightarrow> ledByGroup key st' = ledByGroup key st"
  by (auto simp: unmoved_def ledByGroup_def)

text \<open>An answer to a local command cannot rename the command of the group: that is another object.\<close>

lemma adopt_led:
  assumes ok: "coord_ok st" and led: "ledByGroup key st" and sent: "previous \<in> set (co_sent st)"
  shows "ledByGroup key (adoptAllocation cf clk previous al st)"
proof (cases "adoptable previous al st")
  case False
  with led show ?thesis using adoptAllocation_cases(1) ok by (metis coord_ok_def)
next
  case True
  have tm: "timers_ok st" using ok by (simp add: coord_ok_def)
  let ?k = "targetKey (sc_target (snd previous))"
  obtain x where x: "js_get (co_latest st) ?k = Some x" "fst x = fst previous" using True by (auto simp: adoptable_def)
  have "x \<in> objects st" "previous \<in> objects st" using x(1) sent by (auto simp: objects_def intro: ranI)
  then have "x = previous" using ok x(2) by (auto simp: coord_ok_def objects_ok_def identified_def)
  then have "sc_epoch (snd x) = 1" using ok sent by (auto simp: coord_ok_def objects_ok_def)
  then have "?k \<noteq> key" using led x(1) by (auto simp: ledByGroup_def)
  with led show ?thesis
    using takesOverD(2) adoptAllocation_cases(2)[OF tm True, where cf = cf and clk = clk] by (fastforce simp: ledByGroup_def)
qed

lemma syncDo_led:
  assumes ok: "coord_ok st" and led: "ledByGroup key st"
  shows "ledByGroup key (syncDo cf e st)"
proof -
  have tm: "timers_ok st" using ok by (simp add: coord_ok_def)
  show ?thesis
  proof (cases e)
    case (SPublish clk clk' inp)
    show ?thesis
    proof (cases "mayPublish cf inp st \<and> beatsLatest cf (snd (localObject cf clk inp st)) st")
      case True
      from takesOver_led[OF led publishCommand_cases(2)[OF tm True, THEN conjunct1] True[THEN conjunct2]] SPublish show ?thesis by simp
    next
      case False
      then show ?thesis using publishCommand_cases(3)[OF tm False, where clk' = clk'] unmoved_led led SPublish by simp
    qed
  next
    case (SAdopt clk n al)
    then show ?thesis using adopt_led[OF ok led] led by simp
  next
    case (SReceive clk c)
    then show ?thesis using receiveCommand_cases[OF tm, where cf = cf and clk = clk and c = c] takesOver_led[OF led] unmoved_led led by auto
  next
    case (SFire i)
    have "co_latest (fireTimer i st) = co_latest st" by (auto simp: fireTimer_def Let_def split: list.split)
    with led SFire show ?thesis by (simp add: ledByGroup_def)
  next
    case SClose
    have "co_latest (closeCoordinator st) = co_latest st" by (simp add: closeCoordinator_def)
    with led SClose show ?thesis by (simp add: ledByGroup_def)
  qed
qed

lemma syncRun_led: "coord_ok st \<Longrightarrow> ledByGroup key st \<Longrightarrow> ledByGroup key (syncRun cf es st)"
proof (induction es arbitrary: st)
  case (Cons e es)
  then have "ledByGroup key (syncRun cf es (syncDo cf e st))" using syncDo_ok syncDo_led by blast
  then show ?case by (simp add: syncRun_def)
qed (simp add: syncRun_def)

text \<open>
  C19: A local command after an adopted one is refused. Once the latest command of a target carries an epoch above one,
  as an adopted one does in every group a second device has joined, nothing that happens afterwards lets a local
  command for that target through: its epoch is always one, it loses the comparison, and the publication answers
  nothing and sends nothing.
\<close>

theorem adopted_target_refuses_local:
  fixes before later cf
  assumes "js_get (co_latest (syncRun cf before newCoordinator)) (targetKey (in_target inp)) = Some obj" and "2 \<le> sc_epoch (snd obj)"
  defines "st \<equiv> syncRun cf later (syncRun cf before newCoordinator)"
  shows "fst (publishCommand cf clk clk' inp st) = None \<and> co_sent (snd (publishCommand cf clk clk' inp st)) = co_sent st"
proof -
  have ok: "coord_ok (syncRun cf before newCoordinator)" by (rule syncRun_ok[OF newCoordinator_ok])
  then have tm: "timers_ok st" using syncRun_ok by (simp add: st_def coord_ok_def)
  have "ledByGroup (targetKey (in_target inp)) st"
    unfolding st_def by (rule syncRun_led[OF ok]) (use assms(1,2) in \<open>simp add: ledByGroup_def\<close>)
  then obtain x where "js_get (co_latest st) (targetKey (in_target inp)) = Some x" "2 \<le> sc_epoch (snd x)"
    by (auto simp: ledByGroup_def)
  moreover have "sc_epoch (snd (localObject cf clk inp st)) = 1" "sc_target (snd (localObject cf clk inp st)) = in_target inp"
    by (simp_all add: localObject_def localCommand_def)
  ultimately have no: "\<not> beatsLatest cf (snd (localObject cf clk inp st)) st"
    using lower_epoch_loses[of "snd (localObject cf clk inp st)" "snd x" "cf_localeCompare cf"] by (auto simp: beatsLatest_def)
  then have n: "\<not> (mayPublish cf inp st \<and> beatsLatest cf (snd (localObject cf clk inp st)) st)" by blast
  have "fst (publishCommand cf clk clk' inp st) = None" using no publishCommand_cases(1)[OF tm] by simp
  moreover have "co_sent (snd (publishCommand cf clk clk' inp st)) = co_sent st"
    using publishCommand_cases(3)[OF tm n, where clk' = clk'] by (auto simp: unmoved_def)
  ultimately show ?thesis by blast
qed

theorem adopted_target_refuses_local_witness:
  "fst (publishCommand (sampleScreen ''c'') (9, NaN) (9, NaN) sampleInput
     (syncRun (sampleScreen ''c'') [SFire 1] (syncRun (sampleScreen ''c'')
        [SPublish (0, NaN) (0, NaN) sampleInput, SAdopt (1, NaN) 0 \<lparr>al_epoch = 2, al_sequence = 7\<rparr>] newCoordinator))) = None"
proof -
  obtain obj where "js_get (co_latest (syncRun (sampleScreen ''c'')
      [SPublish (0, NaN) (0, NaN) sampleInput, SAdopt (1, NaN) 0 \<lparr>al_epoch = 2, al_sequence = 7\<rparr>] newCoordinator))
      (targetKey (in_target sampleInput)) = Some obj" and "2 \<le> sc_epoch (snd obj)"
    by (simp add: sample_defs)
  from adopted_target_refuses_local[OF this] show ?thesis by blast
qed

text \<open>A takeover arms one timer, and firing it executes the command.\<close>

lemma takesOver_fires:
  assumes ok: "coord_ok st" and t: "takesOver key obj d st st'"
  shows "co_executed (fireTimer (co_nextTimer st) st') = co_executed st @ [obj]"
    and "co_sent (fireTimer (co_nextTimer st) st') = co_sent st'"
    and "js_get (co_latest (fireTimer (co_nextTimer st) st')) key = Some obj"
    and "co_nextTimer (fireTimer (co_nextTimer st) st') = Suc (co_nextTimer st)"
    and "\<not> co_closed (fireTimer (co_nextTimer st) st')"
proof -
  note d = takesOverD[OF t]
  have tm: "timers_ok st'" using takesOver_ok[OF ok t] by (simp add: coord_ok_def)
  have u: "\<lparr>tm_id = co_nextTimer st, tm_key = key, tm_command = obj, tm_delay = d\<rparr> \<in> set (co_timers st')"
    unfolding d(1) by simp
  note f = fireTimer_armed[OF tm u]
  show "co_executed (fireTimer (co_nextTimer st) st') = co_executed st @ [obj]" using f d(8) by simp
  show "co_sent (fireTimer (co_nextTimer st) st') = co_sent st'" using f by simp
  show "js_get (co_latest (fireTimer (co_nextTimer st) st')) key = Some obj" using f d(2) by simp
  show "co_nextTimer (fireTimer (co_nextTimer st) st') = Suc (co_nextTimer st)" using f d(4) by simp
  show "\<not> co_closed (fireTimer (co_nextTimer st) st')" using f d(7) by simp
qed

definition validAllocation :: "allocation \<Rightarrow> bool" where
  "validAllocation al \<longleftrightarrow> isSafeInteger (al_epoch al) \<and> 0 < al_epoch al \<and> isSafeInteger (al_sequence al) \<and> 0 < al_sequence al"

text \<open>
  An adoption that comes late runs the command again. Publish a command in any state; let its timer fire before the
  answer of the server arrives, which it does whenever the round trip takes longer than the lead, forty milliseconds
  by default; let the answer arrive. The adoption arms a second timer for the renumbered command, and when it fires the
  same action, on the same target and at the same position, is executed a second time.
\<close>

theorem late_adoption_executes_twice:
  fixes before cf
  defines "st \<equiv> syncRun cf before newCoordinator"
  assumes "publishCommand cf clk clk' inp st = (Some obj, st')" and "validAllocation al"
  shows "\<exists>obj'. sc_action (snd obj') = in_action inp \<and> sc_target (snd obj') = in_target inp \<and>
    sc_positionSeconds (snd obj') = sc_positionSeconds (snd obj) \<and> sc_executeAtMs (snd obj') = sc_executeAtMs (snd obj) \<and>
    co_executed (syncRun cf [SFire (co_nextTimer st), SAdopt late (length (co_sent st)) al, SFire (Suc (co_nextTimer st))] st') =
      co_executed st @ [obj, obj']"
proof -
  have ok: "coord_ok st" unfolding st_def by (rule syncRun_ok[OF newCoordinator_ok])
  then have tm: "timers_ok st" by (simp add: coord_ok_def)
  let ?key = "targetKey (in_target inp)" and ?o = "localObject cf clk inp st"
  have obj: "obj = ?o" and may: "mayPublish cf inp st \<and> beatsLatest cf (snd ?o) st"
    using publishCommand_cases(1)[OF tm, where cf = cf and inp = inp and clk = clk and clk' = clk'] assms(2) by (auto split: if_splits)
  have t: "takesOver ?key ?o (delayUntil (sc_executeAtMs (snd ?o)) clk') st st'" and sent: "co_sent st' = co_sent st @ [?o]"
    using publishCommand_cases(2)[OF tm may, where clk' = clk'] assms(2) by auto
  have ok': "coord_ok (fireTimer (co_nextTimer st) st')" by (rule fireTimer_ok[OF takesOver_ok[OF ok t]])
  let ?st1 = "fireTimer (co_nextTimer st) st'"
  note f = takesOver_fires[OF ok t]
  have target: "sc_target (snd ?o) = in_target inp" "sc_action (snd ?o) = in_action inp"
    by (simp_all add: localObject_def localCommand_def)
  have a: "adoptable ?o al ?st1" using f(3,5) assms(3) by (simp add: adoptable_def validAllocation_def target)
  have "timers_ok ?st1" using ok' by (simp add: coord_ok_def)
  note t2 = adoptAllocation_cases(2)[OF this a, where cf = cf and clk = late, unfolded target(1), THEN conjunct1]
  have run: "syncRun cf [SFire (co_nextTimer st), SAdopt late (length (co_sent st)) al, SFire (Suc (co_nextTimer st))] st' =
      fireTimer (co_nextTimer ?st1) (adoptAllocation cf late ?o al ?st1)"
    using f(2,4) sent by (simp add: syncRun_def)
  show ?thesis
    unfolding run takesOver_fires(1)[OF ok' t2] f(1) obj
    by (rule exI[of _ "adoptedObject ?o al ?st1"]) (simp add: adoptedObject_def target)
qed

theorem late_adoption_executes_twice_witness:
  "\<exists>st'. length (co_executed (syncRun (sampleScreen ''c'') [SFire 0, SAdopt (99, NaN) 0 \<lparr>al_epoch = 2, al_sequence = 7\<rparr>, SFire 1] st')) = 2 \<and>
     st' = snd (publishCommand (sampleScreen ''c'') (0, NaN) (0, NaN) sampleInput (syncRun (sampleScreen ''c'') [] newCoordinator))"
proof -
  obtain obj st' where p: "publishCommand (sampleScreen ''c'') (0, NaN) (0, NaN) sampleInput (syncRun (sampleScreen ''c'') [] newCoordinator) = (Some obj, st')"
    by (simp add: sample_defs)
  have "validAllocation \<lparr>al_epoch = 2, al_sequence = 7\<rparr>" by (simp add: validAllocation_def isSafeInteger_def maxSafeInteger_def)
  from late_adoption_executes_twice[OF p this, of "(99, NaN)"]
  have "length (co_executed (syncRun (sampleScreen ''c'') [SFire 0, SAdopt (99, NaN) 0 \<lparr>al_epoch = 2, al_sequence = 7\<rparr>, SFire 1] st')) = 2"
    by (auto simp: syncRun_def newCoordinator_def)
  with p show ?thesis by (intro exI[of _ st']) simp
qed

end
