(* ===== verification/Playback_Agreement.thy ===== *)
theory Playback_Agreement
  imports Playback_Sync_Correct
begin

text \<open>
  Screens that hear the same playback commands hold the same latest command for every target, in whatever order the
  commands of different devices arrive and whatever timers fire in between.
\<close>

section \<open>Screens agree\<close>

text \<open>What the language documents of a collation: it is consistent with itself and transitive.\<close>

definition collation :: "(string \<Rightarrow> string \<Rightarrow> int) \<Rightarrow> bool" where
  "collation cmp \<longleftrightarrow> (\<forall>a b. sgn (cmp a b) = - sgn (cmp b a)) \<and> (\<forall>a b c. cmp a b \<le> 0 \<longrightarrow> cmp b c \<le> 0 \<longrightarrow> cmp a c \<le> 0)"

definition finiteIssue :: "sync_command \<Rightarrow> bool" where
  "finiteIssue c \<longleftrightarrow> (\<exists>x. sc_issuedAtMs c = Fin x)"

definition notLater :: "(string \<Rightarrow> string \<Rightarrow> int) \<Rightarrow> sync_command \<Rightarrow> sync_command \<Rightarrow> bool" where
  "notLater cmp l r \<longleftrightarrow> js_le_zero (compareCommands cmp l r)"

lemma notLater_lex:
  assumes "sc_issuedAtMs l = Fin x" and "sc_issuedAtMs r = Fin y"
  shows "notLater cmp l r \<longleftrightarrow> sc_epoch l < sc_epoch r \<or> sc_epoch l = sc_epoch r \<and> (x < y \<or> x = y \<and>
    (sc_sequence l < sc_sequence r \<or> sc_sequence l = sc_sequence r \<and> cmp (sc_issuedByDeviceId l) (sc_issuedByDeviceId r) \<le> 0))"
  using assms by (auto simp: notLater_def compareCommands_def js_or_def js_le_zero_def)

lemma notLater_total:
  assumes "collation cmp" and "finiteIssue l" and "finiteIssue r" and "\<not> notLater cmp l r"
  shows "notLater cmp r l"
proof -
  obtain x y where i: "sc_issuedAtMs l = Fin x" "sc_issuedAtMs r = Fin y" using assms(2,3) by (auto simp: finiteIssue_def)
  have "sgn (cmp (sc_issuedByDeviceId l) (sc_issuedByDeviceId r)) = - sgn (cmp (sc_issuedByDeviceId r) (sc_issuedByDeviceId l))"
    using assms(1) unfolding collation_def by blast
  then have "\<not> cmp (sc_issuedByDeviceId l) (sc_issuedByDeviceId r) \<le> 0 \<Longrightarrow> cmp (sc_issuedByDeviceId r) (sc_issuedByDeviceId l) \<le> 0"
    by (auto simp: sgn_if split: if_splits)
  with assms(4) show ?thesis unfolding notLater_lex[OF i] notLater_lex[OF i(2) i(1)]
    by (cases "sc_epoch l" "sc_epoch r" rule: linorder_cases; cases x y rule: linorder_cases;
        cases "sc_sequence l" "sc_sequence r" rule: linorder_cases) simp_all
qed

lemma notLater_trans:
  assumes "collation cmp" and "finiteIssue a" and "finiteIssue b" and "finiteIssue c"
    and "notLater cmp a b" and "notLater cmp b c"
  shows "notLater cmp a c"
proof -
  obtain x y z where i: "sc_issuedAtMs a = Fin x" "sc_issuedAtMs b = Fin y" "sc_issuedAtMs c = Fin z"
    using assms(2-4) by (auto simp: finiteIssue_def)
  have "cmp (sc_issuedByDeviceId a) (sc_issuedByDeviceId b) \<le> 0 \<Longrightarrow> cmp (sc_issuedByDeviceId b) (sc_issuedByDeviceId c) \<le> 0 \<Longrightarrow>
      cmp (sc_issuedByDeviceId a) (sc_issuedByDeviceId c) \<le> 0"
    using assms(1) unfolding collation_def by blast
  with assms(5,6) show ?thesis
    unfolding notLater_lex[OF i(1,2)] notLater_lex[OF i(2,3)] notLater_lex[OF i(1,3)] by (elim disjE conjE) simp_all
qed

text \<open>The commands a screen hears in a history of deliveries and timers.\<close>

definition heardCommands :: "sync_event list \<Rightarrow> sync_command list" where
  "heardCommands es = concat (map (\<lambda>e. case e of SReceive clk c \<Rightarrow> [c] | _ \<Rightarrow> []) es)"

definition listensOnly :: "sync_event list \<Rightarrow> bool" where
  "listensOnly es \<longleftrightarrow> list_all (\<lambda>e. case e of SReceive _ _ \<Rightarrow> True | SFire _ \<Rightarrow> True | _ \<Rightarrow> False) es"

text \<open>A device numbers its commands in the order it sends them, and they arrive in that order.\<close>

definition numberedInOrder :: "sync_command list \<Rightarrow> bool" where
  "numberedInOrder cs \<longleftrightarrow> sorted_wrt (\<lambda>c d. sc_issuedByDeviceId c = sc_issuedByDeviceId d \<longrightarrow> sc_sequence c < sc_sequence d) cs"

definition forScreen :: "sync_config \<Rightarrow> sync_command \<Rightarrow> bool" where
  "forScreen cf c \<longleftrightarrow> isPlaybackSyncCommand c \<and> sc_issuedByDeviceId c \<noteq> cf_deviceId cf"

text \<open>What a listening screen has reached after some commands.\<close>

definition standsAtLatest :: "(string \<Rightarrow> string \<Rightarrow> int) \<Rightarrow> sync_command list \<Rightarrow> coordinator \<Rightarrow> bool" where
  "standsAtLatest cmp cs st \<longleftrightarrow> coord_ok st \<and> \<not> co_closed st \<and>
     (\<forall>d n. js_get (co_lastSequence st) d = Some n \<longrightarrow> (\<exists>c \<in> set cs. sc_issuedByDeviceId c = d \<and> sc_sequence c = n)) \<and>
     (\<forall>obj k. js_get (co_latest st) k = Some obj \<longrightarrow> snd obj \<in> set cs) \<and>
     (\<forall>c \<in> set cs. \<exists>obj. js_get (co_latest st) (targetKey (sc_target c)) = Some obj \<and> notLater cmp c (snd obj))"

lemma valid_finite: "isPlaybackSyncCommand c \<Longrightarrow> finiteIssue c"
  by (auto simp: isPlaybackSyncCommand_def isPositiveFinite_def finiteIssue_def split: js_number.splits)

lemma notLater_refl: "collation cmp \<Longrightarrow> finiteIssue c \<Longrightarrow> notLater cmp c c"
  using notLater_total by blast

text \<open>A command that is heard is taken up: it becomes the latest of its target unless a later one is.\<close>

lemma receive_fields:
  fixes clk cf c st
  assumes "\<not> co_closed st" and "forScreen cf c" and "cf_authority cf = MULTI_AUTHORITY"
    and "\<And>n. js_get (co_lastSequence st) (sc_issuedByDeviceId c) = Some n \<Longrightarrow> n < sc_sequence c"
  defines "st' \<equiv> receiveCommand cf clk c st"
  shows "co_lastSequence st' = js_set (sc_issuedByDeviceId c) (sc_sequence c) (co_lastSequence st)" (is ?seq)
    and "js_get (co_latest st') = (if beatsLatest cf c st
      then (js_get (co_latest st))(targetKey (sc_target c) \<mapsto> (co_nextObject st, c)) else js_get (co_latest st))" (is ?latest)
    and "co_closed st' = co_closed st" (is ?closed)
proof -
  have "0 < sc_sequence c" using assms(2) by (simp add: forScreen_def isPlaybackSyncCommand_def)
  then have new: "\<not> sc_sequence c \<le> (case js_get (co_lastSequence st) (sc_issuedByDeviceId c) of None \<Rightarrow> 0 | Some n \<Rightarrow> n)"
    using assms(4) by (auto split: option.split)
  show ?seq ?latest ?closed
    using assms(1-3) new
    by (auto simp: st'_def receiveCommand_def forScreen_def acceptCommand_beats scheduleCommand_def cancelTarget_def Let_def
      fun_eq_iff jsmap_simps)
qed

lemma receive_stands:
  assumes col: "collation (cf_localeCompare cf)" and auth: "cf_authority cf = MULTI_AUTHORITY"
    and at: "standsAtLatest (cf_localeCompare cf) cs st" and c: "forScreen cf c"
    and valid: "\<forall>x \<in> set cs. forScreen cf x" and order: "numberedInOrder (cs @ [c])"
  shows "standsAtLatest (cf_localeCompare cf) (cs @ [c]) (receiveCommand cf clk c st)"
proof -
  let ?cmp = "cf_localeCompare cf" and ?st = "receiveCommand cf clk c st" and ?k = "targetKey (sc_target c)"
  have ok: "coord_ok st" and open_: "\<not> co_closed st"
    and lastSeq: "\<And>d n. js_get (co_lastSequence st) d = Some n \<Longrightarrow> \<exists>x \<in> set cs. sc_issuedByDeviceId x = d \<and> sc_sequence x = n"
    and among: "\<And>obj k. js_get (co_latest st) k = Some obj \<Longrightarrow> snd obj \<in> set cs"
    and best: "\<And>x. x \<in> set cs \<Longrightarrow> \<exists>obj. js_get (co_latest st) (targetKey (sc_target x)) = Some obj \<and> notLater ?cmp x (snd obj)"
    using at unfolding standsAtLatest_def by blast+
  have "n < sc_sequence c" if "js_get (co_lastSequence st) (sc_issuedByDeviceId c) = Some n" for n
    using lastSeq[OF that] order by (auto simp: numberedInOrder_def sorted_wrt_append)
  note r = receive_fields[OF open_ c auth this, where clk = clk]
  have fin: "finiteIssue x" if "x \<in> set (cs @ [c])" for x
    using that valid c valid_finite by (auto simp: forScreen_def)
  have "coord_ok ?st" using syncDo_ok[OF ok, of cf "SReceive clk c"] by simp
  moreover have "\<not> co_closed ?st" using r(3) open_ by simp
  moreover have "\<exists>x \<in> set (cs @ [c]). sc_issuedByDeviceId x = d \<and> sc_sequence x = n"
    if "js_get (co_lastSequence ?st) d = Some n" for d n
  proof (cases "d = sc_issuedByDeviceId c")
    case True
    with that have "n = sc_sequence c" by (simp add: r(1) jsmap_simps)
    with True show ?thesis by simp
  next
    case False
    with that have "js_get (co_lastSequence st) d = Some n" by (simp add: r(1) jsmap_simps)
    with lastSeq show ?thesis by fastforce
  qed
  moreover have "snd obj \<in> set (cs @ [c])" if "js_get (co_latest ?st) k = Some obj" for obj k
    using that among[of k obj] by (auto simp: r(2) split: if_splits)
  moreover have "\<exists>obj. js_get (co_latest ?st) (targetKey (sc_target x)) = Some obj \<and> notLater ?cmp x (snd obj)"
    if x: "x \<in> set (cs @ [c])" for x
  proof (cases "beatsLatest cf c st")
    case True
    have keep: "notLater ?cmp x c" if same: "targetKey (sc_target x) = ?k"
    proof (cases "x \<in> set cs")
      case True
      then obtain obj where o: "js_get (co_latest st) ?k = Some obj" "notLater ?cmp x (snd obj)" using best[OF True] same by auto
      then have "\<not> notLater ?cmp c (snd obj)" using \<open>beatsLatest cf c st\<close> by (auto simp: beatsLatest_def notLater_def)
      with o(2) among[OF o(1)] fin x show ?thesis
        using notLater_total[OF col, of c "snd obj"] notLater_trans[OF col, of x "snd obj" c] by simp
    next
      case False
      with x fin notLater_refl[OF col] show ?thesis by simp
    qed
    show ?thesis
    proof (cases "targetKey (sc_target x) = ?k")
      case True
      with keep \<open>beatsLatest cf c st\<close> show ?thesis by (simp add: r(2))
    next
      case False
      then have "x \<in> set cs" using x by auto
      with best False \<open>beatsLatest cf c st\<close> show ?thesis by (simp add: r(2))
    qed
  next
    case False
    then obtain obj where "js_get (co_latest st) ?k = Some obj" "notLater ?cmp c (snd obj)"
      by (auto simp: beatsLatest_def notLater_def)
    with best x False show ?thesis by (cases obj) (auto simp: r(2))
  qed
  ultimately show ?thesis unfolding standsAtLatest_def by blast
qed

lemma fire_stands: "standsAtLatest cmp cs st \<Longrightarrow> standsAtLatest cmp cs (fireTimer i st)"
proof -
  assume at: "standsAtLatest cmp cs st"
  have "co_latest (fireTimer i st) = co_latest st" "co_lastSequence (fireTimer i st) = co_lastSequence st"
    "co_closed (fireTimer i st) = co_closed st"
    by (auto simp: fireTimer_def Let_def split: list.split)
  with at fireTimer_ok show ?thesis by (simp add: standsAtLatest_def)
qed

lemma listening_stands:
  assumes "collation (cf_localeCompare cf)" and "cf_authority cf = MULTI_AUTHORITY" and "listensOnly es"
    and "\<forall>c \<in> set (heardCommands es). forScreen cf c" and "numberedInOrder (heardCommands es)"
  shows "standsAtLatest (cf_localeCompare cf) (heardCommands es) (syncRun cf es newCoordinator)"
  using assms(3-5)
proof (induction es rule: rev_induct)
  case Nil
  show ?case using newCoordinator_ok by (simp add: standsAtLatest_def heardCommands_def syncRun_def newCoordinator_def)
next
  case (snoc e es)
  have step: "syncRun cf (es @ [e]) newCoordinator = syncDo cf e (syncRun cf es newCoordinator)" by (simp add: syncRun_def)
  have h: "heardCommands (es @ [e]) = heardCommands es @ (case e of SReceive clk c \<Rightarrow> [c] | _ \<Rightarrow> [])"
    by (simp add: heardCommands_def)
  have before: "standsAtLatest (cf_localeCompare cf) (heardCommands es) (syncRun cf es newCoordinator)"
    using snoc by (simp add: listensOnly_def h numberedInOrder_def sorted_wrt_append)
  show ?case
  proof (cases e)
    case (SReceive clk c)
    have all: "\<forall>x \<in> set (heardCommands es @ [c]). forScreen cf x" and order: "numberedInOrder (heardCommands es @ [c])"
      using snoc.prems(2,3) h SReceive by simp_all
    have "standsAtLatest (cf_localeCompare cf) (heardCommands es @ [c]) (receiveCommand cf clk c (syncRun cf es newCoordinator))"
      by (rule receive_stands[OF assms(1,2) before _ _ order]) (use all in simp_all)
    moreover have "heardCommands (es @ [e]) = heardCommands es @ [c]"
      "syncRun cf (es @ [e]) newCoordinator = receiveCommand cf clk c (syncRun cf es newCoordinator)"
      unfolding h step using SReceive by simp_all
    ultimately show ?thesis by (simp only:)
  next
    case (SFire i)
    then have "heardCommands (es @ [e]) = heardCommands es"
      "syncRun cf (es @ [e]) newCoordinator = fireTimer i (syncRun cf es newCoordinator)"
      unfolding h step by simp_all
    with fire_stands[OF before] show ?thesis by (simp only:)
  qed (use snoc.prems(1) in \<open>simp_all add: listensOnly_def\<close>)
qed

text \<open>
  C18: Screens that hear the same commands agree. Let two screens of a group in which everyone may act receive the same
  commands of others, each in an interleaving of its own that keeps the order in which each device numbered its own,
  with timers firing anywhere in between. If no two commands for one target compare equal, both screens hold the same
  latest command for every target.
\<close>

theorem screens_agree:
  assumes "collation cmp" and "cf_localeCompare a = cmp" and "cf_localeCompare b = cmp"
    and "cf_authority a = MULTI_AUTHORITY" and "cf_authority b = MULTI_AUTHORITY"
    and "listensOnly es" and "listensOnly fs" and "set (heardCommands es) = set (heardCommands fs)"
    and "\<forall>c \<in> set (heardCommands es). forScreen a c \<and> forScreen b c"
    and "numberedInOrder (heardCommands es)" and "numberedInOrder (heardCommands fs)"
    and "\<forall>c \<in> set (heardCommands es). \<forall>d \<in> set (heardCommands es).
      targetKey (sc_target c) = targetKey (sc_target d) \<longrightarrow> notLater cmp c d \<longrightarrow> notLater cmp d c \<longrightarrow> c = d"
  shows "map_option snd (js_get (co_latest (syncRun a es newCoordinator)) key) =
    map_option snd (js_get (co_latest (syncRun b fs newCoordinator)) key)"
proof -
  have A: "standsAtLatest cmp (heardCommands es) (syncRun a es newCoordinator)"
    using listening_stands[of a es] assms by simp
  have B: "standsAtLatest cmp (heardCommands es) (syncRun b fs newCoordinator)"
    using listening_stands[of b fs] assms by (simp add: standsAtLatest_def)
  have half: "\<exists>y. js_get (co_latest t) key = Some y \<and> notLater cmp (snd x) (snd y) \<and> snd y \<in> set (heardCommands es) \<and>
      snd x \<in> set (heardCommands es) \<and> targetKey (sc_target (snd x)) = key \<and> targetKey (sc_target (snd y)) = key"
    if s: "standsAtLatest cmp (heardCommands es) s" and t: "standsAtLatest cmp (heardCommands es) t"
      and l: "js_get (co_latest s) key = Some x" for s t x
  proof -
    have x: "snd x \<in> set (heardCommands es)" "targetKey (sc_target (snd x)) = key"
      using s l unfolding standsAtLatest_def coord_ok_def latest_ok_def by blast+
    then obtain y where y: "js_get (co_latest t) key = Some y" "notLater cmp (snd x) (snd y)"
      using t unfolding standsAtLatest_def by metis
    then have "snd y \<in> set (heardCommands es)" "targetKey (sc_target (snd y)) = key"
      using t y(1) unfolding standsAtLatest_def coord_ok_def latest_ok_def by blast+
    with x y show ?thesis by blast
  qed
  show ?thesis
  proof (cases "js_get (co_latest (syncRun a es newCoordinator)) key")
    case None
    then have "js_get (co_latest (syncRun b fs newCoordinator)) key = None" using half[OF B A] by (metis not_None_eq option.discI)
    with None show ?thesis by simp
  next
    case (Some x)
    from half[OF A B Some] obtain y where y: "js_get (co_latest (syncRun b fs newCoordinator)) key = Some y"
      "notLater cmp (snd x) (snd y)" "snd y \<in> set (heardCommands es)" "snd x \<in> set (heardCommands es)"
      "targetKey (sc_target (snd x)) = key" "targetKey (sc_target (snd y)) = key" by blast
    have "notLater cmp (snd y) (snd x)" using half[OF B A y(1)] Some by auto
    with y assms(12) have "snd x = snd y" by metis
    with Some y(1) show ?thesis by simp
  qed
qed

definition sampleCommand :: "string \<Rightarrow> real \<Rightarrow> sync_command" where
  "sampleCommand d ms = \<lparr>sc_epoch = 1, sc_sequence = 1, sc_action = PLAY,
     sc_target = \<lparr>tg_cameraId = ''K-17'', tg_sourceKind = DEMO_VIDEO, tg_materialId = None\<rparr>,
     sc_positionSeconds = Fin 0, sc_playbackRate = Fin 1, sc_executeAtMs = Fin (ms + 40), sc_issuedAtMs = Fin ms,
     sc_issuedByDeviceId = d\<rparr>"

definition sampleDelivery :: "string \<Rightarrow> real \<Rightarrow> sync_event" where
  "sampleDelivery d ms = SReceive (0, NaN) (sampleCommand d ms)"

theorem screens_agree_witness:
  "map_option snd (js_get (co_latest (syncRun (sampleScreen ''c'') [sampleDelivery ''a'' 5, sampleDelivery ''b'' 9] newCoordinator)) ''K-17:DEMO_VIDEO:'') =
   map_option snd (js_get (co_latest (syncRun (sampleScreen ''d'') [sampleDelivery ''b'' 9, sampleDelivery ''a'' 5] newCoordinator)) ''K-17:DEMO_VIDEO:'')"
proof (rule screens_agree[where cmp = sampleCollation])
  show "collation sampleCollation" by (auto simp: collation_def sampleCollation_def sgn_if)
qed (auto simp: sampleDelivery_def sampleScreen_def listensOnly_def heardCommands_def forScreen_def sampleCommand_def isPlaybackSyncCommand_def
  isSafeInteger_def maxSafeInteger_def isPlaybackSyncTarget_def isNonNegativeFinite_def isPositiveFinite_def numberedInOrder_def
  notLater_def compareCommands_def js_or_def js_le_zero_def)

end
