(* ===== verification/Upload_Plan.thy ===== *)
theory Upload_Plan
  imports Conversion_Queue
begin

text \<open>
  The pure part of the material library, \<open>apps/control-plane/src/material/store.ts\<close>: the plan that
  splits an upload into parts, the size of a part, the storage key of a content, and the checks every
  method makes on its arguments before it issues a statement.

  \<open>bigint\<close> values are \<open>int\<close>, as in the program; the conversions to \<open>number\<close> are guarded by the
  program's own \<open>MAX_SAFE_INTEGER\<close> test. The loop of \<open>planUploadParts\<close> runs forever on a chunk of size
  zero or less, so its model is a \<open>partial_function\<close> whose value \<open>None\<close> is a run that does not return;
  that it returns for every positive chunk is proved.
\<close>

section \<open>Constants\<close>

definition defaultUploadChunkSize :: int where "defaultUploadChunkSize = 8 * 1024 * 1024"
definition defaultUploadConcurrency :: int where "defaultUploadConcurrency = 4"
definition defaultUploadSessionLifetimeMs :: int where "defaultUploadSessionLifetimeMs = 24 * 60 * 60 * 1000"
definition maxWatchBatch :: int where "maxWatchBatch = 256"
definition maxUploadParts :: int where "maxUploadParts = 1000"
definition maxMetadataEntries :: nat where "maxMetadataEntries = 100"
definition maxMetadataKeyLength :: nat where "maxMetadataKeyLength = 200"
definition maxMetadataValueLength :: nat where "maxMetadataValueLength = 4000"
definition maxTagCount :: nat where "maxTagCount = 64"
definition maxTagLength :: nat where "maxTagLength = 120"
definition maxDisplayNameLength :: nat where "maxDisplayNameLength = 500"

abbreviation invalidArgument :: "string \<Rightarrow> rt_error" where
  "invalidArgument message \<equiv> PairedDeviceRuntimeError INVALID_ARGUMENT message"

section \<open>The plan of an upload\<close>

datatype upload_part_plan = Multipart | WholeObject (maxObjectBytes: int)

definition multipartUploadPlan :: upload_part_plan where "multipartUploadPlan = Multipart"

record upload_part_record =
  up_partNumber :: int
  up_offset :: int
  up_length :: int

text \<open>The body of the loop, from an offset and a part number to the parts that are still to be pushed.\<close>

partial_function (option) planFrom :: "int \<Rightarrow> int \<Rightarrow> int \<Rightarrow> int \<Rightarrow> upload_part_record list option" where
  "planFrom totalSize chunk offset partNumber =
     (if offset < totalSize
      then let len = (if totalSize - offset < chunk then totalSize - offset else chunk) in
           Option.bind (planFrom totalSize chunk (offset + len) (partNumber + 1)) (\<lambda>rest.
           Some (\<lparr>up_partNumber = partNumber, up_offset = offset, up_length = len\<rparr> # rest))
      else Some [])"

declare planFrom.simps [code]

definition planUploadParts :: "int \<Rightarrow> int \<Rightarrow> upload_part_plan \<Rightarrow> (rt_error + upload_part_record list) option" where
  "planUploadParts totalSize chunkSize plan =
     (case plan of
        WholeObject limit \<Rightarrow>
          if totalSize > limit
          then Some (Inl (invalidArgument (''total_size exceeds the '' @ intText limit @
                 '' bytes this object store accepts in a single upload request.'')))
          else Some (Inr [\<lparr>up_partNumber = 1, up_offset = 0, up_length = totalSize\<rparr>])
      | Multipart \<Rightarrow> map_option Inr (planFrom totalSize chunkSize 0 1))"

definition chunkSizeFor :: "int \<Rightarrow> int \<Rightarrow> rt_error + int" where
  "chunkSizeFor totalSize preferredChunkSize =
     (let cap = maxUploadParts in
      if totalSize \<le> preferredChunkSize * cap then Inr preferredChunkSize
      else let required = (totalSize + cap - 1) div cap in
           if required > 2 ^ 53 - 1
           then Inl (invalidArgument ''total_size is larger than this service can accept.'')
           else Inr required)"

definition storageKeyFor :: "string \<Rightarrow> string \<Rightarrow> string" where
  "storageKeyFor groupId contentHash = ''materials/'' @ groupId @ ''/'' @ contentHash"

section \<open>Checks on arguments\<close>

definition requireBoundedText :: "string \<Rightarrow> string \<Rightarrow> rt_error + string" where
  "requireBoundedText v field =
     (let normalized = js_trim v in
      if length normalized = 0 then Inl (invalidArgument (field @ '' must not be empty.''))
      else if length normalized > maxDisplayNameLength
      then Inl (invalidArgument (field @ '' must not exceed '' @ decimal maxDisplayNameLength @ '' characters.''))
      else Inr normalized)"

definition is_alnum :: "char \<Rightarrow> bool" where
  "is_alnum c \<longleftrightarrow> (let n = of_char c :: nat in
     48 \<le> n \<and> n \<le> 57 \<or> 65 \<le> n \<and> n \<le> 90 \<or> 97 \<le> n \<and> n \<le> 122)"

text \<open>\<open>/^[A-Za-z0-9][A-Za-z0-9:._-]{7,199}$/u\<close>.\<close>

definition contentHashPattern :: "string \<Rightarrow> bool" where
  "contentHashPattern s =
     (case s of
        [] \<Rightarrow> False
      | c # cs \<Rightarrow> is_alnum c \<and> list_all (\<lambda>d. is_alnum d \<or> d \<in> set '':._-'') cs \<and>
                  7 \<le> length cs \<and> length cs \<le> 199)"

definition requireContentHash :: "string \<Rightarrow> rt_error + string" where
  "requireContentHash v =
     (let normalized = js_trim v in
      if \<not> contentHashPattern normalized
      then Inl (invalidArgument
        (''content_hash must be 8 to 200 characters of letters, digits, and '' @ [CHR 0x22] @ '':._-'' @ [CHR 0x22] @ ''.''))
      else Inr normalized)"

definition requireByteSize :: "int \<Rightarrow> rt_error + int" where
  "requireByteSize v =
     (if v \<le> 0
      then Inl (invalidArgument ''total_size must be greater than zero; a material with no bytes cannot be stored.'')
      else Inr v)"

text \<open>The entries of a record, in the order \<open>Object.entries\<close> gives them.\<close>

fun checkMetadataEntries :: "(string \<times> string) list \<Rightarrow> rt_error option" where
  "checkMetadataEntries [] = None"
| "checkMetadataEntries ((key, v) # entries) =
     (if length key = 0 \<or> length key > maxMetadataKeyLength
      then Some (invalidArgument (''metadata keys must be 1 to '' @ decimal maxMetadataKeyLength @ '' characters.''))
      else if length v > maxMetadataValueLength
      then Some (invalidArgument (''metadata values must not exceed '' @ decimal maxMetadataValueLength @ '' characters.''))
      else checkMetadataEntries entries)"

definition requireMetadata :: "(string \<times> string) list \<Rightarrow> rt_error + (string \<times> string) list" where
  "requireMetadata entries =
     (if length entries > maxMetadataEntries
      then Inl (invalidArgument (''metadata must not exceed '' @ decimal maxMetadataEntries @ '' entries.''))
      else case checkMetadataEntries entries of Some e \<Rightarrow> Inl e | None \<Rightarrow> Inr entries)"

text \<open>The default order of \<open>Array.prototype.sort\<close>: code unit by code unit.\<close>

fun codeUnitCompare :: "string \<Rightarrow> string \<Rightarrow> int" where
  "codeUnitCompare [] [] = 0"
| "codeUnitCompare [] (_ # _) = -1"
| "codeUnitCompare (_ # _) [] = 1"
| "codeUnitCompare (a # as) (b # bs) =
     (if (of_char a :: nat) < of_char b then -1 else if (of_char b :: nat) < of_char a then 1
      else codeUnitCompare as bs)"

definition requireTags :: "string list \<Rightarrow> rt_error + string list" where
  "requireTags tags =
     (let normalized = js_unique (filter (\<lambda>t. length t > 0) (map js_trim tags)) in
      if length normalized > maxTagCount
      then Inl (invalidArgument (''a material must not carry more than '' @ decimal maxTagCount @ '' tags.''))
      else if list_ex (\<lambda>t. length t > maxTagLength) normalized
      then Inl (invalidArgument (''a tag must not exceed '' @ decimal maxTagLength @ '' characters.''))
      else Inr (js_sort codeUnitCompare normalized))"

record completed_part_input =
  cp_partNumber :: int
  cp_etag :: string
  cp_checksum :: string

fun checkCompletedParts :: "int list \<Rightarrow> completed_part_input list \<Rightarrow> rt_error option" where
  "checkCompletedParts seen [] = None"
| "checkCompletedParts seen (part # parts) =
     (if \<not> isSafeInteger (cp_partNumber part) \<or> cp_partNumber part < 1
      then Some (invalidArgument ''every completed part must carry a positive part number.'')
      else if cp_partNumber part \<in> set seen
      then Some (invalidArgument ''a completed part number must not be repeated.'')
      else checkCompletedParts (cp_partNumber part # seen) parts)"

definition requireCompletedParts :: "completed_part_input list \<Rightarrow> rt_error + completed_part_input list" where
  "requireCompletedParts parts =
     (case checkCompletedParts [] parts of Some e \<Rightarrow> Inl e | None \<Rightarrow> Inr parts)"

text \<open>\<open>JSON.stringify\<close> of strings, of an array of strings and of a record of strings.\<close>

definition hex_lower :: "nat \<Rightarrow> char" where
  "hex_lower d = (if d < 10 then char_of (48 + d) else char_of (87 + d))"

definition json_char :: "char \<Rightarrow> string" where
  "json_char c =
     (let n = of_char c :: nat in
      if n = 34 then [CHR 0x5C, CHR 0x22]
      else if n = 92 then [CHR 0x5C, CHR 0x5C]
      else if n = 8 then [CHR 0x5C, CHR ''b'']
      else if n = 9 then [CHR 0x5C, CHR ''t'']
      else if n = 10 then [CHR 0x5C, CHR ''n'']
      else if n = 12 then [CHR 0x5C, CHR ''f'']
      else if n = 13 then [CHR 0x5C, CHR ''r'']
      else if n < 32 then [CHR 0x5C] @ ''u00'' @ [hex_lower (n div 16), hex_lower (n mod 16)]
      else [c])"

definition json_string :: "string \<Rightarrow> string" where
  "json_string s = [CHR 0x22] @ concat (map json_char s) @ [CHR 0x22]"

definition json_strings :: "string list \<Rightarrow> string" where
  "json_strings xs = ''['' @ joinWith '','' (map json_string xs) @ '']''"

definition json_record :: "(string \<times> string) list \<Rightarrow> string" where
  "json_record entries = ''{'' @ joinWith '','' (map (\<lambda>(k, v). json_string k @ '':'' @ json_string v) entries) @ ''}''"

section \<open>The loop returns\<close>

lemma planFrom_stop [simp]: "\<not> offset < totalSize \<Longrightarrow> planFrom totalSize chunk offset partNumber = Some []"
  by (simp add: planFrom.simps)

text \<open>What is pushed from an offset on: full chunks, and the remainder last.\<close>

definition partAt :: "int \<Rightarrow> int \<Rightarrow> int \<Rightarrow> upload_part_record" where
  "partAt totalSize chunk i =
     \<lparr>up_partNumber = i + 1, up_offset = i * chunk, up_length = min chunk (totalSize - i * chunk)\<rparr>"

definition partCount :: "int \<Rightarrow> int \<Rightarrow> int" where
  "partCount totalSize chunk = (totalSize + chunk - 1) div chunk"

lemma partCount_covers:
  assumes "0 < chunk" shows "i < partCount totalSize chunk \<longleftrightarrow> i * chunk < totalSize"
proof -
  define q where "q = (totalSize + chunk - 1) div chunk"
  have eq: "totalSize + chunk - 1 = q * chunk + (totalSize + chunk - 1) mod chunk" by (simp add: q_def)
  have m: "0 \<le> (totalSize + chunk - 1) mod chunk" "(totalSize + chunk - 1) mod chunk < chunk"
    using assms by simp_all
  show ?thesis
  proof (cases "i < q")
    case True
    then have "(i + 1) * chunk \<le> q * chunk" using assms by (intro mult_right_mono) auto
    with eq m have "i * chunk < totalSize" by (simp add: algebra_simps)
    with True show ?thesis by (simp add: partCount_def q_def[symmetric])
  next
    case False
    then have "q * chunk \<le> i * chunk" using assms by (intro mult_right_mono) auto
    with eq m have "\<not> i * chunk < totalSize" by linarith
    with False show ?thesis by (simp add: partCount_def q_def[symmetric])
  qed
qed

lemma partCount_nonneg: "0 < chunk \<Longrightarrow> 0 \<le> totalSize \<Longrightarrow> 0 \<le> partCount totalSize chunk"
  by (simp add: partCount_def pos_imp_zdiv_nonneg_iff)

lemma planFrom_parts:
  assumes "0 < chunk" and "i \<le> partCount totalSize chunk"
  shows "planFrom totalSize chunk (min totalSize (i * chunk)) (i + 1)
    = Some (map (partAt totalSize chunk) [i .. partCount totalSize chunk - 1])"
  using assms(2)
proof (induction "nat (partCount totalSize chunk - i)" arbitrary: i)
  case 0
  then have "i = partCount totalSize chunk" by simp
  then have "totalSize \<le> i * chunk" using partCount_covers[OF assms(1), of i totalSize] by simp
  with \<open>i = partCount totalSize chunk\<close> show ?case by simp
next
  case (Suc k)
  then have less: "i < partCount totalSize chunk" by simp
  then have below: "i * chunk < totalSize" using partCount_covers[OF assms(1)] by blast
  have IH: "planFrom totalSize chunk (min totalSize ((i + 1) * chunk)) (i + 1 + 1)
      = Some (map (partAt totalSize chunk) [i + 1 .. partCount totalSize chunk - 1])"
    using Suc.hyps(2) less by (intro Suc.hyps(1)) simp_all
  have len: "(if totalSize - i * chunk < chunk then totalSize - i * chunk else chunk)
      = min chunk (totalSize - i * chunk)" by simp
  have off: "i * chunk + min chunk (totalSize - i * chunk) = min totalSize ((i + 1) * chunk)"
    by (simp add: min_def algebra_simps)
  have upto: "[i .. partCount totalSize chunk - 1] = i # [i + 1 .. partCount totalSize chunk - 1]"
    using less by (simp add: upto_rec1)
  have "planFrom totalSize chunk (i * chunk) (i + 1) = Some (partAt totalSize chunk i #
      map (partAt totalSize chunk) [i + 1 .. partCount totalSize chunk - 1])"
    by (subst planFrom.simps) (simp only: below if_True Let_def len off IH partAt_def bind.bind_lunit)
  moreover have "min totalSize (i * chunk) = i * chunk" using below by simp
  ultimately show ?case by (simp only: upto list.map)
qed

lemma planFrom_returns:
  assumes "0 < chunk" and "0 \<le> totalSize"
  shows "planFrom totalSize chunk 0 1 = Some (map (partAt totalSize chunk) [0 .. partCount totalSize chunk - 1])"
  using planFrom_parts[OF assms(1) partCount_nonneg[OF assms]] assms(2) by simp

section \<open>What a plan promises\<close>

text \<open>
  A plan covers an object: its parts are numbered from one, each begins where the one before it ended,
  none is empty or longer than the chunk, and the last ends at the end of the object.
\<close>

fun covers :: "int \<Rightarrow> int \<Rightarrow> int \<Rightarrow> int \<Rightarrow> upload_part_record list \<Rightarrow> bool" where
  "covers totalSize chunk number offset [] \<longleftrightarrow> offset = totalSize"
| "covers totalSize chunk number offset (p # ps) \<longleftrightarrow>
     up_partNumber p = number \<and> up_offset p = offset \<and> 0 < up_length p \<and> up_length p \<le> chunk \<and>
     covers totalSize chunk (number + 1) (offset + up_length p) ps"

lemma covers_parts:
  assumes "0 < chunk" and "0 \<le> i" and "i \<le> partCount totalSize chunk"
  shows "covers totalSize chunk (i + 1) (min totalSize (i * chunk))
    (map (partAt totalSize chunk) [i .. partCount totalSize chunk - 1])"
  using assms(2,3)
proof (induction "nat (partCount totalSize chunk - i)" arbitrary: i)
  case 0
  then have "i = partCount totalSize chunk" by simp
  then have "totalSize \<le> i * chunk" using partCount_covers[OF assms(1), of i totalSize] by simp
  with \<open>i = partCount totalSize chunk\<close> show ?case by simp
next
  case (Suc k)
  then have less: "i < partCount totalSize chunk" by simp
  then have below: "i * chunk < totalSize" using partCount_covers[OF assms(1)] by blast
  have IH: "covers totalSize chunk (i + 1 + 1) (min totalSize ((i + 1) * chunk))
      (map (partAt totalSize chunk) [i + 1 .. partCount totalSize chunk - 1])"
    using Suc.hyps(2) Suc.prems less by (intro Suc.hyps(1)) simp_all
  have off: "i * chunk + min chunk (totalSize - i * chunk) = min totalSize ((i + 1) * chunk)"
    by (simp add: min_def algebra_simps)
  have here: "min totalSize (i * chunk) = i * chunk" using below by simp
  have upto: "[i .. partCount totalSize chunk - 1] = i # [i + 1 .. partCount totalSize chunk - 1]"
    using less by (simp add: upto_rec1)
  show ?case
    using IH below assms(1)
    by (simp only: upto list.map covers.simps here) (simp add: partAt_def off)
qed

lemma partCount_bounded:
  assumes "0 < chunk" and "totalSize \<le> chunk * n" shows "partCount totalSize chunk \<le> n"
proof (rule ccontr)
  assume "\<not> ?thesis"
  then have "n * chunk < totalSize" using partCount_covers[OF assms(1), of n totalSize] by simp
  with assms(2) show False by (simp add: mult.commute)
qed

lemma chunkSizeFor_enough:
  assumes "chunkSizeFor totalSize preferred = Inr chunk" and "0 < preferred"
  shows "0 < chunk \<and> totalSize \<le> chunk * maxUploadParts \<and> chunk \<le> max preferred (2 ^ 53 - 1)"
proof (cases "totalSize \<le> preferred * maxUploadParts")
  case True
  with assms show ?thesis by (simp add: chunkSizeFor_def)
next
  case False
  define required where "required = (totalSize + maxUploadParts - 1) div maxUploadParts"
  have big: "preferred * 1000 < totalSize" using False by (simp add: maxUploadParts_def)
  have "chunk = required" and "required \<le> 2 ^ 53 - 1"
    using assms(1) False by (simp_all add: chunkSizeFor_def Let_def required_def[symmetric] split: if_splits)
  moreover have "totalSize \<le> required * 1000" "preferred < required"
    using big partCount_covers[of 1000 preferred totalSize] partCount_covers[of 1000 required totalSize]
    by (simp_all add: required_def maxUploadParts_def partCount_def)
  ultimately show ?thesis using assms(2) by (simp add: maxUploadParts_def)
qed

text \<open>
  C12: The plan of a multipart upload. For a positive total and a positive preferred chunk, if the service accepts
  the size then planning returns, and the plan covers the object exactly: parts numbered from one, each
  starting where the previous ended, none empty, none longer than the chunk, the last ending at the total;
  and there are at most a thousand of them, which is what the object store's multipart upload accepts.
\<close>

theorem upload_plan_covers:
  assumes "0 < totalSize" and "0 < preferred" and "chunkSizeFor totalSize preferred = Inr chunk"
  shows "\<exists>parts. planUploadParts totalSize chunk Multipart = Some (Inr parts) \<and>
    covers totalSize chunk 1 0 parts \<and> parts \<noteq> [] \<and> int (length parts) \<le> maxUploadParts"
proof -
  define n where "n = partCount totalSize chunk"
  define parts where "parts = map (partAt totalSize chunk) [0 .. n - 1]"
  have chunk: "0 < chunk" "totalSize \<le> chunk * maxUploadParts"
    using chunkSizeFor_enough[OF assms(3,2)] by simp_all
  have n: "0 < n" using partCount_covers[OF chunk(1), of 0 totalSize] assms(1) by (simp add: n_def)
  have "planUploadParts totalSize chunk Multipart = Some (Inr parts)"
    using assms(1) chunk(1) by (simp add: planUploadParts_def planFrom_returns parts_def n_def)
  moreover have "covers totalSize chunk 1 0 parts"
    using covers_parts[OF chunk(1), of 0 totalSize] n assms(1) by (simp add: parts_def n_def min_def)
  moreover have "int (length parts) \<le> maxUploadParts"
    using partCount_bounded[OF chunk] n by (simp add: parts_def n_def)
  moreover have "parts \<noteq> []" using n by (simp add: parts_def)
  ultimately show ?thesis by blast
qed

theorem upload_plan_covers_witness:
  "\<exists>parts. planUploadParts 20000000 8388608 Multipart = Some (Inr parts) \<and>
    covers 20000000 8388608 1 0 parts \<and> parts \<noteq> [] \<and> int (length parts) \<le> maxUploadParts"
  by (rule upload_plan_covers[where preferred = defaultUploadChunkSize])
     (simp_all add: defaultUploadChunkSize_def chunkSizeFor_def maxUploadParts_def)

end
