(* ===== verification/Material_Library.thy ===== *)
theory Material_Library
  imports Upload_Plan
begin

text \<open>
  The material library of a group, \<open>DurableMaterialStore\<close> of
  \<open>apps/control-plane/src/material/store.ts\<close>, on the tables of migration 0001.

  Each method is its argument checks, the claim of its receipt, one SQL statement and the reading of the
  row the statement answers with. A statement is the function of the tables it denotes: its CTEs read the
  tables as they were before it, its writes take effect together, and a violated constraint makes it
  throw and write nothing. The tables other services share (memberships, device status, receipts) are
  those of \<open>Event_Log\<close>, and the receipt guard is the one defined there. A table is a map from its primary
  key to the rest of the row; \<open>upload_parts\<close> and \<open>material_tag_links\<close> are lists of rows.

  Parameters, in \<open>lib_env\<close>: how the database reads a \<open>uuid\<close>, stores a JSON object and collates text, the
  receipt guard's hash, and the three options of the store. Identifiers drawn with \<open>newId\<close> and the instants
  read from the clock are arguments. Dates are milliseconds; the readers of a date column are the identity.
  Cursors of the two paged listings are not modelled.
\<close>

section \<open>The tables\<close>

datatype material_category = CATEGORY_UNSPECIFIED | VIDEO | CAMERA | IMAGE | AUDIO | DOCUMENT | MAP | INTERCEPT
  | DOSSIER | REPORT | ARCHIVE | TECHNICAL | OTHER

datatype material_status = MATERIAL_UPLOADING | PROCESSING | READY | MATERIAL_FAILED | TRASHED | QUARANTINED

datatype upload_state = PENDING | UPLOADING | VERIFYING | COMPLETED | CANCELLED | FAILED

record object_row =
  ob_byteSize :: int
  ob_storageKey :: string
  ob_referenceCount :: int
  ob_createdAt :: int

record lib_material =
  lm_groupId :: string
  lm_displayName :: string
  lm_category :: material_category
  lm_mimeType :: string
  lm_byteSize :: int
  lm_contentHash :: string
  lm_status :: material_status
  lm_currentVersionId :: "string option"
  lm_metadata :: "(string \<times> string) list"
  lm_revision :: int
  lm_createdAt :: int
  lm_updatedAt :: int
  lm_trashedAt :: "int option"

record lib_version =
  lv_materialId :: string
  lv_sequence :: int
  lv_contentHash :: string
  lv_mimeType :: string
  lv_byteSize :: int
  lv_originalFileName :: string
  lv_createdByDeviceId :: "string option"
  lv_createdAt :: int

record upload_session =
  us_groupId :: string
  us_materialId :: "string option"
  us_versionId :: "string option"
  us_state :: upload_state
  us_totalSize :: int
  us_receivedSize :: int
  us_chunkSize :: int
  us_maxConcurrency :: int
  us_expiresAt :: int
  us_storageUploadId :: "string option"
  us_createdAt :: int
  us_updatedAt :: int

record part_row =
  pt_uploadId :: string
  pt_partNumber :: int
  pt_offset :: int
  pt_length :: int
  pt_etag :: "string option"
  pt_checksum :: "string option"
  pt_completedAt :: "int option"

record tag_link =
  tl_materialId :: string
  tl_groupId :: string
  tl_tagValue :: string

text \<open>The columns of \<open>mutation_receipts\<close> that the library writes beside those of the publication log.\<close>

record receipt_columns =
  rx_resourceId :: "string option"
  rx_revision :: "int option"

record library_db =
  lb_shared :: event_db
  lb_receiptColumns :: "(mutation_scope \<times> string, receipt_columns) jsmap"
  lb_objects :: "(string \<times> string, object_row) jsmap"
  lb_materials :: "(string, lib_material) jsmap"
  lb_versions :: "(string, lib_version) jsmap"
  lb_sessions :: "(string, upload_session) jsmap"
  lb_parts :: "part_row list"
  lb_tags :: "(string \<times> string, int) jsmap"
  lb_links :: "tag_link list"

record lib_env =
  le_events :: ev_env
  le_receipts :: bool
  le_uuid :: "string \<Rightarrow> string option"
  le_jsonb :: "(string \<times> string) list \<Rightarrow> (string \<times> string) list"
  le_collate :: "string \<Rightarrow> string \<Rightarrow> int"
  le_uploadChunkSize :: int
  le_uploadConcurrency :: int
  le_uploadSessionLifetimeMs :: int

type_synonym 'a lib = "(library_db, rt_error, 'a) sm"

definition positiveSafeInteger :: "int \<Rightarrow> string \<Rightarrow> rt_error + int" where
  "positiveSafeInteger v name =
     (if \<not> isSafeInteger v \<or> v \<le> 0 then Inl (PlainError (name @ '' must be a positive safe integer'')) else Inr v)"

text \<open>The constructor: the options of the store with their defaults.\<close>

definition newMaterialStore :: "lib_env \<Rightarrow> int option \<Rightarrow> int option \<Rightarrow> int option \<Rightarrow> rt_error + lib_env" where
  "newMaterialStore base chunkSize concurrency lifetimeMs =
     (case positiveSafeInteger (nullish chunkSize defaultUploadChunkSize) ''uploadChunkSize'' of
        Inl e \<Rightarrow> Inl e
      | Inr chunk \<Rightarrow>
     (case positiveSafeInteger (nullish concurrency defaultUploadConcurrency) ''uploadConcurrency'' of
        Inl e \<Rightarrow> Inl e
      | Inr width \<Rightarrow>
     (case positiveSafeInteger (nullish lifetimeMs defaultUploadSessionLifetimeMs) ''uploadSessionLifetimeMs'' of
        Inl e \<Rightarrow> Inl e
      | Inr lifetime \<Rightarrow> Inr (base\<lparr>le_uploadChunkSize := chunk, le_uploadConcurrency := width,
                                  le_uploadSessionLifetimeMs := lifetime\<rparr>))))"

section \<open>Records and their readers\<close>

record material_record =
  mt_id :: string
  mt_groupId :: string
  mt_displayName :: string
  mt_category :: material_category
  mt_mimeType :: string
  mt_byteSize :: int
  mt_contentHash :: string
  mt_status :: material_status
  mt_currentVersionId :: "string option"
  mt_metadata :: "(string \<times> string) list"
  mt_tags :: "string list"
  mt_revision :: int
  mt_createdAt :: int
  mt_updatedAt :: int
  mt_trashedAt :: "int option"

record version_record =
  mv_id :: string
  mv_materialId :: string
  mv_sequence :: int
  mv_contentHash :: string
  mv_mimeType :: string
  mv_byteSize :: int
  mv_originalFileName :: string
  mv_createdAt :: int
  mv_createdByDeviceId :: "string option"

record session_record =
  se_id :: string
  se_groupId :: string
  se_materialId :: "string option"
  se_versionId :: "string option"
  se_state :: upload_state
  se_totalSize :: int
  se_receivedSize :: int
  se_chunkSize :: int
  se_maxConcurrency :: int
  se_expiresAt :: int
  se_storageUploadId :: "string option"

abbreviation bigintText :: "int \<Rightarrow> string \<Rightarrow> rt_error + int" where
  "bigintText n field \<equiv> readBigInt (SqlText (intText n)) field"

abbreviation optionalColumn :: "string option \<Rightarrow> string option" where
  "optionalColumn c \<equiv> Option.bind c (\<lambda>s. readOptionalText (SqlText s))"

text \<open>
  \<open>toMaterial\<close>, \<open>toVersion\<close> and \<open>toSession\<close> on the JSON a statement builds of a row: text columns go through
  \<open>readText\<close>, which refuses an empty one, and \<open>bigint\<close> columns through their text rendering.
\<close>

definition toMaterial :: "string \<Rightarrow> lib_material \<Rightarrow> string list \<Rightarrow> rt_error + material_record" where
  "toMaterial i m tags =
     (case readText (SqlText i) ''id'' of Inl e \<Rightarrow> Inl e | Inr mid \<Rightarrow>
     (case readText (SqlText (lm_groupId m)) ''group_id'' of Inl e \<Rightarrow> Inl e | Inr groupId \<Rightarrow>
     (case readText (SqlText (lm_displayName m)) ''display_name'' of Inl e \<Rightarrow> Inl e | Inr displayName \<Rightarrow>
     (case readText (SqlText (lm_mimeType m)) ''mime_type'' of Inl e \<Rightarrow> Inl e | Inr mimeType \<Rightarrow>
     (case bigintText (lm_byteSize m) ''byte_size'' of Inl e \<Rightarrow> Inl e | Inr byteSize \<Rightarrow>
     (case readText (SqlText (lm_contentHash m)) ''content_hash'' of Inl e \<Rightarrow> Inl e | Inr contentHash \<Rightarrow>
     (case bigintText (lm_revision m) ''revision'' of Inl e \<Rightarrow> Inl e | Inr revision \<Rightarrow>
        Inr \<lparr>mt_id = mid, mt_groupId = groupId, mt_displayName = displayName, mt_category = lm_category m,
             mt_mimeType = mimeType, mt_byteSize = byteSize, mt_contentHash = contentHash,
             mt_status = lm_status m, mt_currentVersionId = optionalColumn (lm_currentVersionId m),
             mt_metadata = lm_metadata m, mt_tags = tags, mt_revision = revision,
             mt_createdAt = lm_createdAt m, mt_updatedAt = lm_updatedAt m, mt_trashedAt = lm_trashedAt m\<rparr>)))))))"

definition toVersion :: "string \<Rightarrow> lib_version \<Rightarrow> rt_error + version_record" where
  "toVersion i v =
     (case readText (SqlText i) ''id'' of Inl e \<Rightarrow> Inl e | Inr vid \<Rightarrow>
     (case readText (SqlText (lv_materialId v)) ''material_id'' of Inl e \<Rightarrow> Inl e | Inr materialId \<Rightarrow>
     (case bigintText (lv_sequence v) ''sequence'' of Inl e \<Rightarrow> Inl e | Inr sequence \<Rightarrow>
     (case readText (SqlText (lv_contentHash v)) ''content_hash'' of Inl e \<Rightarrow> Inl e | Inr contentHash \<Rightarrow>
     (case readText (SqlText (lv_mimeType v)) ''mime_type'' of Inl e \<Rightarrow> Inl e | Inr mimeType \<Rightarrow>
     (case bigintText (lv_byteSize v) ''byte_size'' of Inl e \<Rightarrow> Inl e | Inr byteSize \<Rightarrow>
     (case readText (SqlText (lv_originalFileName v)) ''original_file_name'' of Inl e \<Rightarrow> Inl e | Inr fileName \<Rightarrow>
        Inr \<lparr>mv_id = vid, mv_materialId = materialId, mv_sequence = sequence, mv_contentHash = contentHash,
             mv_mimeType = mimeType, mv_byteSize = byteSize, mv_originalFileName = fileName,
             mv_createdAt = lv_createdAt v, mv_createdByDeviceId = optionalColumn (lv_createdByDeviceId v)\<rparr>)))))))"

definition toSession :: "string \<Rightarrow> upload_session \<Rightarrow> rt_error + session_record" where
  "toSession i s =
     (case readText (SqlText i) ''id'' of Inl e \<Rightarrow> Inl e | Inr sid \<Rightarrow>
     (case readText (SqlText (us_groupId s)) ''group_id'' of Inl e \<Rightarrow> Inl e | Inr groupId \<Rightarrow>
     (case bigintText (us_totalSize s) ''total_size'' of Inl e \<Rightarrow> Inl e | Inr totalSize \<Rightarrow>
     (case bigintText (us_receivedSize s) ''received_size'' of Inl e \<Rightarrow> Inl e | Inr receivedSize \<Rightarrow>
     (case readBigInt (SqlNumber (us_chunkSize s)) ''chunk_size'' of Inl e \<Rightarrow> Inl e | Inr chunkSize \<Rightarrow>
     (case readBigInt (SqlNumber (us_maxConcurrency s)) ''max_concurrency'' of Inl e \<Rightarrow> Inl e | Inr concurrency \<Rightarrow>
        Inr \<lparr>se_id = sid, se_groupId = groupId, se_materialId = optionalColumn (us_materialId s),
             se_versionId = optionalColumn (us_versionId s), se_state = us_state s, se_totalSize = totalSize,
             se_receivedSize = receivedSize, se_chunkSize = chunkSize, se_maxConcurrency = concurrency,
             se_expiresAt = us_expiresAt s, se_storageUploadId = optionalColumn (us_storageUploadId s)\<rparr>))))))"

definition toPart :: "part_row \<Rightarrow> upload_part_record" where
  "toPart p = \<lparr>up_partNumber = pt_partNumber p, up_offset = pt_offset p, up_length = pt_length p\<rparr>"

text \<open>\<open>storedTagsJson\<close> and \<open>requestedTagsJson\<close>.\<close>

definition storedTags :: "lib_env \<Rightarrow> library_db \<Rightarrow> string \<Rightarrow> string list" where
  "storedTags env db materialId =
     js_sort (le_collate env) (map tl_tagValue (filter (\<lambda>l. tl_materialId l = materialId) (lb_links db)))"

definition requestedTags :: "lib_env \<Rightarrow> string list \<Rightarrow> string list" where
  "requestedTags env tags = js_sort (le_collate env) (js_unique tags)"

section \<open>The spine of the mutations\<close>

text \<open>A computation on the shared tables, run on the library's state.\<close>

definition on_shared :: "'a db \<Rightarrow> 'a lib" where
  "on_shared m s = (case m (lb_shared s) of (r, shared) \<Rightarrow> (r, s\<lparr>lb_shared := shared\<rparr>))"

text \<open>The CTEs \<open>mutation_gate\<close>, \<open>editor\<close> and \<open>active_member\<close>.\<close>

definition mutationGate :: "guard_claim option \<Rightarrow> library_db \<Rightarrow> bool" where
  "mutationGate receipt s = gateOpen receipt (lb_shared s)"

definition activeEditor :: "guard_claim option \<Rightarrow> string \<Rightarrow> string \<Rightarrow> library_db \<Rightarrow> bool" where
  "activeEditor receipt groupId deviceId s \<longleftrightarrow>
     mutationGate receipt s \<and> actorAuthorized groupId deviceId (lb_shared s)"

definition activeMember :: "string \<Rightarrow> string \<Rightarrow> library_db \<Rightarrow> bool" where
  "activeMember groupId deviceId s \<longleftrightarrow>
     list_ex (\<lambda>m. mr_groupId m = groupId \<and> mr_deviceId m = deviceId \<and> mr_revokedAt m = None)
       (db_memberships (lb_shared s)) \<and>
     (case js_get (db_deviceStatus (lb_shared s)) deviceId of None \<Rightarrow> False | Some st \<Rightarrow> st \<noteq> REVOKED)"

text \<open>The CTE \<open>locked_material\<close>: the row, reached through the caller's own group.\<close>

definition lockedMaterial :: "guard_claim option \<Rightarrow> string \<Rightarrow> string \<Rightarrow> string \<Rightarrow> library_db \<Rightarrow> lib_material option" where
  "lockedMaterial receipt groupId deviceId materialId s =
     (if activeEditor receipt groupId deviceId s
      then case js_get (lb_materials s) materialId of
             None \<Rightarrow> None
           | Some m \<Rightarrow> (if lm_groupId m = groupId then Some m else None)
      else None)"

definition lockedSession :: "guard_claim option \<Rightarrow> string \<Rightarrow> string \<Rightarrow> string \<Rightarrow> library_db \<Rightarrow> upload_session option" where
  "lockedSession receipt groupId deviceId uploadId s =
     (if activeEditor receipt groupId deviceId s
      then case js_get (lb_sessions s) uploadId of
             None \<Rightarrow> None
           | Some u \<Rightarrow> (if us_groupId u = groupId then Some u else None)
      else None)"

definition openStates :: "upload_state set" where "openStates = {PENDING, UPLOADING, VERIFYING}"

text \<open>The CTE \<open>completed_receipt\<close>.\<close>

definition completedReceipt ::
  "guard_claim option \<Rightarrow> string \<Rightarrow> string \<Rightarrow> int option \<Rightarrow> int \<Rightarrow> library_db \<Rightarrow> library_db" where
  "completedReceipt receipt groupId resourceId revision now s =
     (case receipt of
        None \<Rightarrow> s
      | Some c \<Rightarrow>
          (let key = (gc_scope c, gc_requestIdHash c) in
           case js_get (db_receipts (lb_shared s)) key of
             None \<Rightarrow> s
           | Some r \<Rightarrow> s\<lparr>
               lb_shared := (lb_shared s)\<lparr>db_receipts :=
                 js_set key (r\<lparr>rr_groupId := Some groupId, rr_completedAt := Some now\<rparr>) (db_receipts (lb_shared s))\<rparr>,
               lb_receiptColumns := js_set key \<lparr>rx_resourceId = Some resourceId, rx_revision = revision\<rparr>
                 (lb_receiptColumns s)\<rparr>))"

text \<open>
  \<open>INSERT INTO material_objects ... ON CONFLICT DO UPDATE\<close>: one more reference, or a new row.
  \<open>reference_count\<close> is an \<open>integer\<close>, \<open>storage_key\<close> is unique.
\<close>

definition maxInteger :: int where "maxInteger = 2147483647"

definition claimObject ::
  "string \<Rightarrow> string \<Rightarrow> int \<Rightarrow> string \<Rightarrow> int \<Rightarrow> library_db \<Rightarrow> rt_error + (string \<times> string, object_row) jsmap" where
  "claimObject groupId contentHash byteSize storageKey now s =
     (case js_get (lb_objects s) (groupId, contentHash) of
        Some ob \<Rightarrow>
          if ob_referenceCount ob \<ge> maxInteger then Inl driverError
          else Inr (js_set (groupId, contentHash) (ob\<lparr>ob_referenceCount := ob_referenceCount ob + 1\<rparr>) (lb_objects s))
      | None \<Rightarrow>
          if list_ex (\<lambda>ob. ob_storageKey ob = storageKey) (js_values (lb_objects s)) then Inl uniqueViolation
          else Inr (lb_objects s @ [((groupId, contentHash),
                 \<lparr>ob_byteSize = byteSize, ob_storageKey = storageKey, ob_referenceCount = 1, ob_createdAt = now\<rparr>)]))"

definition newParts :: "string \<Rightarrow> upload_part_record list \<Rightarrow> part_row list" where
  "newParts uploadId parts =
     map (\<lambda>p. \<lparr>pt_uploadId = uploadId, pt_partNumber = up_partNumber p, pt_offset = up_offset p,
              pt_length = up_length p, pt_etag = None, pt_checksum = None, pt_completedAt = None\<rparr>) parts"

definition requireReceipts :: "lib_env \<Rightarrow> unit lib" where
  "requireReceipts env = sm_require (le_receipts env) (PairedDeviceRuntimeError FAILED_PRECONDITION
     ''This control plane cannot answer retried material mutations: no receipt guard is configured.'')"

text \<open>\<open>mutation\<close> is the optional receipt context of a call, with its own optional request identifier.\<close>

definition claim ::
  "lib_env \<Rightarrow> mutation_scope \<Rightarrow> string option option \<Rightarrow> int \<Rightarrow> (string \<times> string) list \<Rightarrow> guard_claim option lib" where
  "claim env scope mutation now fs =
     (case mutation of
        None \<Rightarrow> sm_return None
      | Some requestId \<Rightarrow>
          sm_bind (requireReceipts env) (\<lambda>_. on_shared (guardClaim (le_events env) scope requestId now fs)))"

text \<open>\<open>resolveRefused\<close>, with the columns of the receipt a replay reads: \<open>resource_id\<close> and \<open>revision\<close>.\<close>

definition resolveRefused ::
  "lib_env \<Rightarrow> guard_claim \<Rightarrow> rt_error \<Rightarrow> int \<Rightarrow> (string option \<times> int option) lib" where
  "resolveRefused env receipt failure now =
     sm_bind (requireReceipts env) (\<lambda>_.
     sm_bind (on_shared (guardResolveRefused receipt failure now)) (\<lambda>_.
     sm_bind (sm_get (\<lambda>s. js_get (lb_receiptColumns s) (gc_scope receipt, gc_requestIdHash receipt))) (\<lambda>cols.
     sm_return (case cols of
        None \<Rightarrow> (None, None)
      | Some c \<Rightarrow> (optionalColumn (rx_resourceId c), rx_revision c)))))"

definition requireRecordedResource :: "string option \<Rightarrow> string lib" where
  "requireRecordedResource resourceId =
     (case resourceId of
        None \<Rightarrow> sm_throw (PairedDeviceRuntimeError FAILED_PRECONDITION
          ''The recorded mutation is missing resource_id and can no longer be replayed.'')
      | Some r \<Rightarrow> sm_return r)"

definition notInGroup :: rt_error where
  "notInGroup = PairedDeviceRuntimeError PERMISSION_DENIED
     ''The authenticated device does not belong to the requested group.''"

definition assertAuthenticatedGroup :: "string \<Rightarrow> string \<Rightarrow> unit lib" where
  "assertAuthenticatedGroup authenticatedGroupId groupId =
     sm_require (authenticatedGroupId = groupId) notInGroup"

definition assertLibraryMember :: "bool \<Rightarrow> unit lib" where
  "assertLibraryMember member_active = sm_require member_active (PairedDeviceRuntimeError PERMISSION_DENIED
     ''The authenticated device is no longer an active member of the group.'')"

definition notALibraryEditor :: rt_error where
  "notALibraryEditor = PairedDeviceRuntimeError PERMISSION_DENIED
     ''Only an active group editor can change the material library.''"

definition assertEditor :: "bool \<Rightarrow> unit lib" where
  "assertEditor editor_active = sm_require editor_active notALibraryEditor"

abbreviation notFound :: "string \<Rightarrow> rt_error" where
  "notFound message \<equiv> PairedDeviceRuntimeError NOT_FOUND message"

abbreviation failedPrecondition :: "string \<Rightarrow> rt_error" where
  "failedPrecondition message \<equiv> PairedDeviceRuntimeError FAILED_PRECONDITION message"

text \<open>A client's identifier, as the database reads it in a \<open>uuid\<close> position of a statement.\<close>

definition bindUuid :: "lib_env \<Rightarrow> string \<Rightarrow> string lib" where
  "bindUuid env i = (case le_uuid env i of None \<Rightarrow> sm_throw driverError | Some u \<Rightarrow> sm_return u)"

section \<open>Reads\<close>

definition visibleMaterial :: "string \<Rightarrow> string \<Rightarrow> string \<Rightarrow> library_db \<Rightarrow> lib_material option" where
  "visibleMaterial groupId deviceId materialId s =
     (if activeMember groupId deviceId s
      then case js_get (lb_materials s) materialId of
             None \<Rightarrow> None
           | Some m \<Rightarrow> (if lm_groupId m = groupId then Some m else None)
      else None)"

definition getMaterial ::
  "lib_env \<Rightarrow> string \<Rightarrow> string \<Rightarrow> string \<Rightarrow> (material_record \<times> version_record option) lib" where
  "getMaterial env groupId deviceId materialId =
     sm_bind (sm_lift (requireIdentifier materialId ''material_id'')) (\<lambda>normalizedId.
     sm_bind (bindUuid env normalizedId) (\<lambda>mid.
     sm_bind (sm_get id) (\<lambda>s.
     sm_bind (assertLibraryMember (activeMember groupId deviceId s)) (\<lambda>_.
     case visibleMaterial groupId deviceId mid s of
       None \<Rightarrow> sm_throw (notFound ''The material does not exist.'')
     | Some m \<Rightarrow>
         sm_bind (sm_lift (toMaterial mid m (storedTags env s mid))) (\<lambda>material.
         case Option.bind (lm_currentVersionId m)
                (\<lambda>vid. map_option (Pair vid) (js_get (lb_versions s) vid)) of
           None \<Rightarrow> sm_return (material, None)
         | Some (vid, v) \<Rightarrow>
             sm_bind (sm_lift (toVersion vid v)) (\<lambda>version. sm_return (material, Some version)))))))"

definition visibleSession :: "string \<Rightarrow> string \<Rightarrow> string \<Rightarrow> library_db \<Rightarrow> upload_session option" where
  "visibleSession groupId deviceId uploadId s =
     (if activeMember groupId deviceId s
      then case js_get (lb_sessions s) uploadId of
             None \<Rightarrow> None
           | Some u \<Rightarrow> (if us_groupId u = groupId then Some u else None)
      else None)"

definition getUploadStatus ::
  "lib_env \<Rightarrow> string \<Rightarrow> string \<Rightarrow> string \<Rightarrow> (session_record \<times> int list) lib" where
  "getUploadStatus env groupId deviceId uploadId =
     sm_bind (sm_lift (requireIdentifier uploadId ''upload_id'')) (\<lambda>normalizedId.
     sm_bind (bindUuid env normalizedId) (\<lambda>uid.
     sm_bind (sm_get id) (\<lambda>s.
     sm_bind (assertLibraryMember (activeMember groupId deviceId s)) (\<lambda>_.
     case visibleSession groupId deviceId uid s of
       None \<Rightarrow> sm_throw (notFound ''The upload session does not exist.'')
     | Some u \<Rightarrow>
         sm_bind (sm_lift (toSession uid u)) (\<lambda>session.
         sm_return (session, sort (map pt_partNumber
           (filter (\<lambda>p. pt_uploadId p = uid \<and> pt_completedAt p \<noteq> None) (lb_parts s)))))))))"

record object_location =
  ol_materialId :: string
  ol_versionId :: string
  ol_storageKey :: string
  ol_contentHash :: string
  ol_mimeType :: string
  ol_byteSize :: int

definition toLocation :: "string \<Rightarrow> lib_version \<Rightarrow> object_row \<Rightarrow> rt_error + object_location" where
  "toLocation vid v ob =
     (case readText (SqlText (lv_materialId v)) ''material_id'' of Inl e \<Rightarrow> Inl e | Inr materialId \<Rightarrow>
     (case readText (SqlText vid) ''version_id'' of Inl e \<Rightarrow> Inl e | Inr versionId \<Rightarrow>
     (case readText (SqlText (ob_storageKey ob)) ''storage_key'' of Inl e \<Rightarrow> Inl e | Inr storageKey \<Rightarrow>
     (case readText (SqlText (lv_contentHash v)) ''content_hash'' of Inl e \<Rightarrow> Inl e | Inr contentHash \<Rightarrow>
     (case readText (SqlText (lv_mimeType v)) ''mime_type'' of Inl e \<Rightarrow> Inl e | Inr mimeType \<Rightarrow>
     (case bigintText (lv_byteSize v) ''byte_size'' of Inl e \<Rightarrow> Inl e | Inr byteSize \<Rightarrow>
        Inr \<lparr>ol_materialId = materialId, ol_versionId = versionId, ol_storageKey = storageKey,
             ol_contentHash = contentHash, ol_mimeType = mimeType, ol_byteSize = byteSize\<rparr>))))))"

text \<open>The CTE \<open>resolved_version\<close>, joined with its object.\<close>

definition resolvedLocation ::
  "string \<Rightarrow> string option \<Rightarrow> lib_material \<Rightarrow> library_db \<Rightarrow> (string \<times> lib_version \<times> object_row) option" where
  "resolvedLocation materialId versionId m s =
     Option.bind (case versionId of None \<Rightarrow> lm_currentVersionId m | Some v \<Rightarrow> Some v) (\<lambda>vid.
     Option.bind (js_get (lb_versions s) vid) (\<lambda>v.
     if lv_materialId v \<noteq> materialId then None
     else map_option (\<lambda>ob. (vid, v, ob)) (js_get (lb_objects s) (lm_groupId m, lv_contentHash v))))"

definition readObjectLocation ::
  "lib_env \<Rightarrow> string \<Rightarrow> string \<Rightarrow> string \<Rightarrow> string option \<Rightarrow> object_location lib" where
  "readObjectLocation env groupId deviceId materialId versionId =
     sm_bind (sm_lift (requireIdentifier materialId ''material_id'')) (\<lambda>normalizedMaterialId.
     sm_bind (case versionId of
                None \<Rightarrow> sm_return None
              | Some v \<Rightarrow> (if length (js_trim v) = 0 then sm_return None
                          else sm_bind (sm_lift (requireIdentifier v ''version_id'')) (\<lambda>n. sm_return (Some n))))
       (\<lambda>normalizedVersionId.
     sm_bind (bindUuid env normalizedMaterialId) (\<lambda>mid.
     sm_bind (case normalizedVersionId of
                None \<Rightarrow> sm_return None
              | Some n \<Rightarrow> sm_bind (bindUuid env n) (\<lambda>vid. sm_return (Some vid))) (\<lambda>vid.
     sm_bind (sm_get id) (\<lambda>s.
     sm_bind (assertLibraryMember (activeMember groupId deviceId s)) (\<lambda>_.
     case visibleMaterial groupId deviceId mid s of
       None \<Rightarrow> sm_throw (notFound ''The material does not exist.'')
     | Some m \<Rightarrow>
         (case resolvedLocation mid vid m s of
            None \<Rightarrow> sm_throw (failedPrecondition ''The material has no stored version to grant access to.'')
          | Some (v, version, ob) \<Rightarrow> sm_lift (toLocation v version ob))))))))"

datatype material_event_kind = MATERIAL_CREATED | MATERIAL_UPDATED | MATERIAL_TRASHED

record material_event =
  mev_materialId :: string
  mev_kind :: material_event_kind
  mev_revision :: int
  mev_occurredAt :: int
  mev_sequence :: int

definition toMaterialEvent :: "string \<times> lib_material \<Rightarrow> material_event" where
  "toMaterialEvent = (\<lambda>(mid, m).
     \<lparr>mev_materialId = mid,
      mev_kind = (if lm_trashedAt m \<noteq> None then MATERIAL_TRASHED
                  else if lm_createdAt m = lm_updatedAt m then MATERIAL_CREATED else MATERIAL_UPDATED),
      mev_revision = lm_revision m, mev_occurredAt = lm_updatedAt m, mev_sequence = lm_updatedAt m\<rparr>)"

text \<open>\<open>ORDER BY updated_at ASC, id ASC\<close>.\<close>

definition changeOrder :: "lib_env \<Rightarrow> string \<times> lib_material \<Rightarrow> string \<times> lib_material \<Rightarrow> int" where
  "changeOrder env a b =
     (if lm_updatedAt (snd a) < lm_updatedAt (snd b) then -1
      else if lm_updatedAt (snd b) < lm_updatedAt (snd a) then 1
      else le_collate env (fst a) (fst b))"

definition readMaterialEvents ::
  "lib_env \<Rightarrow> string \<Rightarrow> string \<Rightarrow> string \<Rightarrow> int \<Rightarrow> int \<Rightarrow> material_event list lib" where
  "readMaterialEvents env authenticatedGroupId deviceId groupId afterSequence limit =
     sm_bind (sm_lift (requireIdentifier groupId ''group_id'')) (\<lambda>normalizedGroupId.
     sm_bind (assertAuthenticatedGroup authenticatedGroupId normalizedGroupId) (\<lambda>_.
     let batch = min (max limit 1) maxWatchBatch in
     sm_bind (sm_require (\<bar>afterSequence\<bar> < 2 ^ 63) driverError) (\<lambda>_.
     sm_bind (sm_get id) (\<lambda>s.
     sm_bind (assertLibraryMember (activeMember authenticatedGroupId deviceId s)) (\<lambda>_.
     sm_return (map toMaterialEvent (take (nat batch) (js_sort (changeOrder env)
       (filter (\<lambda>(i, m). lm_groupId m = authenticatedGroupId \<and> lm_updatedAt m \<ge> afterSequence)
         (lb_materials s))))))))))"

definition readVersion :: "lib_env \<Rightarrow> string \<Rightarrow> string \<Rightarrow> string \<Rightarrow> version_record lib" where
  "readVersion env groupId deviceId versionId =
     sm_bind (sm_get id) (\<lambda>s.
     sm_bind (assertLibraryMember (activeMember groupId deviceId s)) (\<lambda>_.
     case js_get (lb_versions s) versionId of
       None \<Rightarrow> sm_throw (notFound ''The material version does not exist.'')
     | Some v \<Rightarrow>
         (case visibleMaterial groupId deviceId (lv_materialId v) s of
            None \<Rightarrow> sm_throw (notFound ''The material version does not exist.'')
          | Some _ \<Rightarrow> sm_lift (toVersion versionId v))))"

definition readUploadParts :: "string \<Rightarrow> upload_part_record list lib" where
  "readUploadParts uploadId =
     sm_get (\<lambda>s. map toPart (sort_key pt_partNumber
       (filter (\<lambda>p. pt_uploadId p = uploadId \<and> pt_completedAt p = None) (lb_parts s))))"

section \<open>Beginning an upload\<close>

record begin_input =
  bi_groupId :: string
  bi_materialId :: "string option"
  bi_displayName :: string
  bi_originalFileName :: string
  bi_category :: material_category
  bi_mimeType :: string
  bi_totalSize :: int
  bi_contentHash :: string
  bi_metadata :: "(string \<times> string) list option"
  bi_partPlan :: "upload_part_plan option"

record begin_outcome =
  bo_material :: material_record
  bo_session :: session_record
  bo_parts :: "upload_part_record list"
  bo_storageKey :: string
  bo_deduplicated :: bool

text \<open>The parameters of the two statements that open an upload.\<close>

record upload_params =
  pp_groupId :: string
  pp_deviceId :: string
  pp_now :: int
  pp_materialId :: string
  pp_versionId :: string
  pp_uploadId :: string
  pp_contentHash :: string
  pp_totalSize :: int
  pp_storageKey :: string
  pp_displayName :: string
  pp_originalFileName :: string
  pp_category :: material_category
  pp_mimeType :: string
  pp_metadata :: "(string \<times> string) list"
  pp_chunkSize :: int
  pp_parts :: "upload_part_record list"

definition newSession ::
  "lib_env \<Rightarrow> upload_params \<Rightarrow> string option \<Rightarrow> upload_state \<Rightarrow> int \<Rightarrow> upload_session" where
  "newSession env p versionId state received =
     \<lparr>us_groupId = pp_groupId p, us_materialId = Some (pp_materialId p), us_versionId = versionId,
      us_state = state, us_totalSize = pp_totalSize p, us_receivedSize = received,
      us_chunkSize = pp_chunkSize p, us_maxConcurrency = le_uploadConcurrency env,
      us_expiresAt = pp_now p + le_uploadSessionLifetimeMs env, us_storageUploadId = None,
      us_createdAt = pp_now p, us_updatedAt = pp_now p\<rparr>"

definition newMaterial :: "lib_env \<Rightarrow> upload_params \<Rightarrow> object_row option \<Rightarrow> lib_material" where
  "newMaterial env p existing =
     \<lparr>lm_groupId = pp_groupId p, lm_displayName = pp_displayName p, lm_category = pp_category p,
      lm_mimeType = pp_mimeType p,
      lm_byteSize = (case existing of None \<Rightarrow> pp_totalSize p | Some ob \<Rightarrow> ob_byteSize ob),
      lm_contentHash = pp_contentHash p,
      lm_status = (if existing \<noteq> None then READY else MATERIAL_UPLOADING),
      lm_currentVersionId = (if existing \<noteq> None then Some (pp_versionId p) else None),
      lm_metadata = le_jsonb env (pp_metadata p), lm_revision = 1, lm_createdAt = pp_now p,
      lm_updatedAt = pp_now p, lm_trashedAt = None\<rparr>"

definition newVersion :: "upload_params \<Rightarrow> lib_material \<Rightarrow> lib_version" where
  "newVersion p m =
     \<lparr>lv_materialId = pp_materialId p, lv_sequence = lm_revision m, lv_contentHash = lm_contentHash m,
      lv_mimeType = lm_mimeType m, lv_byteSize = lm_byteSize m, lv_originalFileName = pp_originalFileName p,
      lv_createdByDeviceId = Some (pp_deviceId p), lv_createdAt = pp_now p\<rparr>"

abbreviation has_key :: "('k, 'v) jsmap \<Rightarrow> 'k \<Rightarrow> bool" where
  "has_key m k \<equiv> js_get m k \<noteq> None"

definition bindSizes :: "lib_env \<Rightarrow> upload_params \<Rightarrow> rt_error + unit" where
  "bindSizes env p =
     (if pp_chunkSize p > maxInteger \<or> le_uploadConcurrency env > maxInteger then Inl driverError else Inr ())"

text \<open>What the statement writes for an active editor.\<close>

definition beginRows ::
  "lib_env \<Rightarrow> upload_params \<Rightarrow> guard_claim option \<Rightarrow> library_db \<Rightarrow> rt_error + library_db" where
  "beginRows env p receipt s =
     (let existing = js_get (lb_objects s) (pp_groupId p, pp_contentHash p); dedup = existing \<noteq> None;
          m = newMaterial env p existing in
      case claimObject (pp_groupId p) (pp_contentHash p) (pp_totalSize p) (pp_storageKey p) (pp_now p) s of
        Inl e \<Rightarrow> Inl e
      | Inr objects \<Rightarrow>
          if has_key (lb_materials s) (pp_materialId p) \<or> dedup \<and> has_key (lb_versions s) (pp_versionId p) \<or>
             has_key (lb_sessions s) (pp_uploadId p)
          then Inl uniqueViolation
          else Inr (completedReceipt receipt (pp_groupId p) (pp_uploadId p) None (pp_now p)
            (s\<lparr>lb_objects := objects,
               lb_materials := lb_materials s @ [(pp_materialId p, m)],
               lb_versions := lb_versions s @ (if dedup then [(pp_versionId p, newVersion p m)] else []),
               lb_sessions := lb_sessions s @ [(pp_uploadId p,
                 if dedup then newSession env p (Some (pp_versionId p)) COMPLETED (pp_totalSize p)
                 else newSession env p None PENDING 0)],
               lb_parts := lb_parts s @ (if dedup then [] else newParts (pp_uploadId p) (pp_parts p))\<rparr>)))"

text \<open>The row of the statement: the two flags, and the state before the writes when they were made.\<close>

definition beginStatement ::
  "lib_env \<Rightarrow> upload_params \<Rightarrow> guard_claim option \<Rightarrow> (bool \<times> bool \<times> library_db) lib" where
  "beginStatement env p receipt s =
     (case bindSizes env p of
        Inl e \<Rightarrow> (Inl e, s)
      | Inr _ \<Rightarrow>
          if \<not> activeEditor receipt (pp_groupId p) (pp_deviceId p) s
          then (Inr (mutationGate receipt s, False, s), s)
          else case beginRows env p receipt s of
                 Inl e \<Rightarrow> (Inl e, s)
               | Inr t \<Rightarrow> (Inr (True, True, s), t))"

definition replayMaterial ::
  "lib_env \<Rightarrow> string \<Rightarrow> string \<Rightarrow> int \<Rightarrow> guard_claim \<Rightarrow> material_record lib" where
  "replayMaterial env groupId deviceId now receipt =
     sm_bind (resolveRefused env receipt (failedPrecondition ''The material could not be changed.'') now)
       (\<lambda>(resourceId, _).
     sm_bind (requireRecordedResource resourceId) (\<lambda>materialId.
     sm_bind (getMaterial env groupId deviceId materialId) (\<lambda>(material, _). sm_return material)))"

definition replayBeginUpload ::
  "lib_env \<Rightarrow> string \<Rightarrow> string \<Rightarrow> int \<Rightarrow> guard_claim \<Rightarrow> begin_outcome lib" where
  "replayBeginUpload env groupId deviceId now receipt =
     sm_bind (resolveRefused env receipt (failedPrecondition ''The material upload could not be started.'') now)
       (\<lambda>(resourceId, _).
     sm_bind (requireRecordedResource resourceId) (\<lambda>uploadId.
     sm_bind (getUploadStatus env groupId deviceId uploadId) (\<lambda>(session, _).
     case se_materialId session of
       None \<Rightarrow> sm_throw (failedPrecondition
         ''The recorded upload no longer names a material and cannot be replayed.'')
     | Some materialId \<Rightarrow>
         sm_bind (getMaterial env groupId deviceId materialId) (\<lambda>(material, _).
         sm_bind (readUploadParts uploadId) (\<lambda>parts.
         sm_return \<lparr>bo_material = material, bo_session = session, bo_parts = parts,
                    bo_storageKey = storageKeyFor (mt_groupId material) (mt_contentHash material),
                    bo_deduplicated = (length parts = 0)\<rparr>)))))"

text \<open>A loop that does not return is a call that never answers.\<close>

definition doesNotReturn :: rt_error where
  "doesNotReturn = PlainError ''the call does not return''"

definition planned :: "int \<Rightarrow> int \<Rightarrow> upload_part_plan option \<Rightarrow> rt_error + upload_part_record list" where
  "planned totalSize chunkSize plan =
     (case planUploadParts totalSize chunkSize (nullish plan multipartUploadPlan) of
        None \<Rightarrow> Inl doesNotReturn
      | Some r \<Rightarrow> r)"

definition readBegun :: "lib_env \<Rightarrow> upload_params \<Rightarrow> library_db \<Rightarrow> begin_outcome lib" where
  "readBegun env p prior =
     (let existing = js_get (lb_objects prior) (pp_groupId p, pp_contentHash p); dedup = existing \<noteq> None in
      sm_bind (sm_lift (toMaterial (pp_materialId p) (newMaterial env p existing)
        (storedTags env prior (pp_materialId p)))) (\<lambda>material.
      sm_bind (sm_lift (toSession (pp_uploadId p)
        (if dedup then newSession env p (Some (pp_versionId p)) COMPLETED (pp_totalSize p)
         else newSession env p None PENDING 0))) (\<lambda>session.
      sm_bind (sm_lift (readText (SqlText
        (case existing of None \<Rightarrow> pp_storageKey p | Some ob \<Rightarrow> ob_storageKey ob)) ''storage_key'')) (\<lambda>key.
      sm_return \<lparr>bo_material = material, bo_session = session,
                 bo_parts = (if dedup then [] else sort_key up_partNumber (pp_parts p)),
                 bo_storageKey = key, bo_deduplicated = dedup\<rparr>))))"

text \<open>The checks of \<open>beginUpload\<close> before it claims its receipt, and what they normalize.\<close>

record begin_checks =
  bc_groupId :: string
  bc_displayName :: string
  bc_originalFileName :: string
  bc_mimeType :: string
  bc_contentHash :: string
  bc_totalSize :: int
  bc_metadata :: "(string \<times> string) list"
  bc_materialId :: string
  bc_chunkSize :: int
  bc_parts :: "upload_part_record list"

definition beginChecks :: "lib_env \<Rightarrow> string \<Rightarrow> string \<Rightarrow> begin_input \<Rightarrow> rt_error + begin_checks" where
  "beginChecks env authenticatedGroupId newMaterialId input =
     (case requireIdentifier (bi_groupId input) ''group_id'' of Inl e \<Rightarrow> Inl e | Inr groupId \<Rightarrow>
      if authenticatedGroupId \<noteq> groupId then Inl notInGroup else
     (case requireBoundedText (bi_displayName input) ''display_name'' of Inl e \<Rightarrow> Inl e | Inr displayName \<Rightarrow>
     (case requireBoundedText (bi_originalFileName input) ''original_file_name'' of Inl e \<Rightarrow> Inl e | Inr fileName \<Rightarrow>
     (case requireBoundedText (bi_mimeType input) ''mime_type'' of Inl e \<Rightarrow> Inl e | Inr mimeType \<Rightarrow>
     (case requireContentHash (bi_contentHash input) of Inl e \<Rightarrow> Inl e | Inr contentHash \<Rightarrow>
     (case requireByteSize (bi_totalSize input) of Inl e \<Rightarrow> Inl e | Inr totalSize \<Rightarrow>
     (case requireMetadata (nullish (bi_metadata input) []) of Inl e \<Rightarrow> Inl e | Inr metadata \<Rightarrow>
     (case (case bi_materialId input of
              None \<Rightarrow> Inr newMaterialId
            | Some i \<Rightarrow> (if length (js_trim i) = 0 then Inr newMaterialId
                        else requireIdentifier i ''material_id'')) of Inl e \<Rightarrow> Inl e | Inr materialId \<Rightarrow>
     (case chunkSizeFor totalSize (le_uploadChunkSize env) of Inl e \<Rightarrow> Inl e | Inr chunkSize \<Rightarrow>
     (case planned totalSize chunkSize (bi_partPlan input) of Inl e \<Rightarrow> Inl e | Inr parts \<Rightarrow>
        Inr \<lparr>bc_groupId = groupId, bc_displayName = displayName, bc_originalFileName = fileName,
             bc_mimeType = mimeType, bc_contentHash = contentHash, bc_totalSize = totalSize,
             bc_metadata = metadata, bc_materialId = materialId, bc_chunkSize = chunkSize,
             bc_parts = parts\<rparr>))))))))))"

definition beginFields :: "begin_checks \<Rightarrow> (string \<times> string) list" where
  "beginFields k =
     [(''group_id'', bc_groupId k), (''material_id'', bc_materialId k), (''content_hash'', bc_contentHash k),
      (''total_size'', intText (bc_totalSize k)), (''display_name'', bc_displayName k)]"

definition beginParams ::
  "begin_input \<Rightarrow> begin_checks \<Rightarrow> string \<Rightarrow> int \<Rightarrow> string \<Rightarrow> string \<Rightarrow> string \<Rightarrow> upload_params" where
  "beginParams input k deviceId now materialId uploadId versionId =
     \<lparr>pp_groupId = bc_groupId k, pp_deviceId = deviceId, pp_now = now, pp_materialId = materialId,
      pp_versionId = versionId, pp_uploadId = uploadId, pp_contentHash = bc_contentHash k,
      pp_totalSize = bc_totalSize k, pp_storageKey = storageKeyFor (bc_groupId k) (bc_contentHash k),
      pp_displayName = bc_displayName k, pp_originalFileName = bc_originalFileName k,
      pp_category = bi_category input, pp_mimeType = bc_mimeType k, pp_metadata = bc_metadata k,
      pp_chunkSize = bc_chunkSize k, pp_parts = bc_parts k\<rparr>"

definition beginUpload ::
  "lib_env \<Rightarrow> string \<Rightarrow> string \<Rightarrow> int \<Rightarrow> int \<Rightarrow> string \<Rightarrow> string \<Rightarrow> string \<Rightarrow> begin_input \<Rightarrow>
   string option option \<Rightarrow> begin_outcome lib" where
  "beginUpload env authenticatedGroupId deviceId now resolvedAt newMaterialId uploadId versionId input mutation =
     sm_bind (sm_lift (beginChecks env authenticatedGroupId newMaterialId input)) (\<lambda>k.
     sm_bind (claim env BEGIN_MATERIAL_UPLOAD mutation now (beginFields k)) (\<lambda>receipt.
     if map_option gc_claimed receipt = Some False
     then replayBeginUpload env authenticatedGroupId deviceId resolvedAt (the receipt)
     else
       sm_bind (bindUuid env (bc_materialId k)) (\<lambda>mid.
       let p = beginParams input k deviceId now mid uploadId versionId in
       sm_bind (beginStatement env p receipt) (\<lambda>(receipt_claimed, editor_active, prior).
       if receipt \<noteq> None \<and> \<not> receipt_claimed
       then replayBeginUpload env authenticatedGroupId deviceId resolvedAt (the receipt)
       else sm_bind (assertEditor editor_active) (\<lambda>_. readBegun env p prior)))))"

section \<open>Completing and cancelling an upload\<close>

text \<open>The CTEs \<open>completable_session\<close> with its material, and \<open>verified_material\<close>.\<close>

definition completableSession ::
  "guard_claim option \<Rightarrow> string \<Rightarrow> string \<Rightarrow> string \<Rightarrow> library_db \<Rightarrow> (upload_session \<times> string) option" where
  "completableSession receipt groupId deviceId uploadId s =
     Option.bind (lockedSession receipt groupId deviceId uploadId s) (\<lambda>u.
     if us_state u \<in> openStates then map_option (Pair u) (us_materialId u) else None)"

definition verifiedMaterial ::
  "guard_claim option \<Rightarrow> string \<Rightarrow> string \<Rightarrow> string \<Rightarrow> string \<Rightarrow> library_db \<Rightarrow>
   (upload_session \<times> string \<times> lib_material) option" where
  "verifiedMaterial receipt groupId deviceId uploadId contentHash s =
     Option.bind (completableSession receipt groupId deviceId uploadId s) (\<lambda>(u, mid).
     Option.bind (js_get (lb_materials s) mid) (\<lambda>m.
     if lm_contentHash m = contentHash then Some (u, mid, m) else None))"

definition completeParts :: "string \<Rightarrow> completed_part_input list \<Rightarrow> int \<Rightarrow> part_row list \<Rightarrow> part_row list" where
  "completeParts uploadId supplied now rows =
     map (\<lambda>r. if pt_uploadId r = uploadId
              then case List.find (\<lambda>c. cp_partNumber c = pt_partNumber r) supplied of
                     None \<Rightarrow> r
                   | Some c \<Rightarrow> r\<lparr>pt_etag := Some (cp_etag c), pt_checksum := Some (cp_checksum c),
                                pt_completedAt := Some now\<rparr>
              else r) rows"

definition completedVersion :: "string \<Rightarrow> int \<Rightarrow> upload_session \<Rightarrow> string \<Rightarrow> lib_material \<Rightarrow> lib_version" where
  "completedVersion deviceId now u mid m =
     \<lparr>lv_materialId = mid, lv_sequence = lm_revision m + 1, lv_contentHash = lm_contentHash m,
      lv_mimeType = lm_mimeType m, lv_byteSize = us_totalSize u, lv_originalFileName = lm_displayName m,
      lv_createdByDeviceId = Some deviceId, lv_createdAt = now\<rparr>"

definition completedMaterial :: "string \<Rightarrow> int \<Rightarrow> lib_material \<Rightarrow> lib_material" where
  "completedMaterial vid now m =
     m\<lparr>lm_status := READY, lm_currentVersionId := Some vid, lm_revision := lm_revision m + 1, lm_updatedAt := now\<rparr>"

text \<open>\<open>UNIQUE (material_id, sequence)\<close> and the primary key of \<open>material_versions\<close>.\<close>

definition versionConflict :: "string \<Rightarrow> lib_version \<Rightarrow> library_db \<Rightarrow> bool" where
  "versionConflict vid v s \<longleftrightarrow> has_key (lb_versions s) vid \<or>
     list_ex (\<lambda>w. lv_materialId w = lv_materialId v \<and> lv_sequence w = lv_sequence v) (js_values (lb_versions s))"

definition completeRows ::
  "string \<Rightarrow> int \<Rightarrow> string \<Rightarrow> string \<Rightarrow> completed_part_input list \<Rightarrow> guard_claim option \<Rightarrow>
   upload_session \<times> string \<times> lib_material \<Rightarrow> library_db \<Rightarrow> rt_error + library_db" where
  "completeRows deviceId now uploadId versionId parts receipt = (\<lambda>(u, mid, m) s.
     let vid = nullish (us_versionId u) versionId; fresh = (us_versionId u = None);
         v = completedVersion deviceId now u mid m; m' = completedMaterial vid now m in
     if list_ex (\<lambda>c. cp_partNumber c > maxInteger) parts then Inl driverError
     else if fresh \<and> versionConflict versionId v s then Inl uniqueViolation
     else Inr (completedReceipt receipt (lm_groupId m) uploadId (Some (lm_revision m')) now
       (s\<lparr>lb_parts := completeParts uploadId parts now (lb_parts s),
          lb_sessions := js_set uploadId (u\<lparr>us_state := COMPLETED, us_receivedSize := us_totalSize u,
            us_versionId := Some vid, us_updatedAt := now\<rparr>) (lb_sessions s),
          lb_versions := lb_versions s @ (if fresh then [(versionId, v)] else []),
          lb_materials := js_set mid m' (lb_materials s)\<rparr>)))"

definition replayCompleteUpload ::
  "lib_env \<Rightarrow> string \<Rightarrow> string \<Rightarrow> int \<Rightarrow> guard_claim \<Rightarrow> (material_record \<times> version_record) lib" where
  "replayCompleteUpload env groupId deviceId now receipt =
     sm_bind (resolveRefused env receipt (failedPrecondition ''The material upload could not be completed.'') now)
       (\<lambda>(resourceId, _).
     sm_bind (requireRecordedResource resourceId) (\<lambda>uploadId.
     sm_bind (getUploadStatus env groupId deviceId uploadId) (\<lambda>(session, _).
     case (se_materialId session, se_versionId session) of
       (Some materialId, Some versionId) \<Rightarrow>
         sm_bind (getMaterial env groupId deviceId materialId) (\<lambda>(material, _).
         sm_bind (readVersion env groupId deviceId versionId) (\<lambda>version.
         sm_return (material, version)))
     | _ \<Rightarrow> sm_throw (failedPrecondition
         ''The recorded upload no longer names a version and cannot be replayed.''))))"

definition completeStatement ::
  "string \<Rightarrow> string \<Rightarrow> int \<Rightarrow> string \<Rightarrow> string \<Rightarrow> string \<Rightarrow> completed_part_input list \<Rightarrow> guard_claim option \<Rightarrow>
   library_db lib" where
  "completeStatement groupId deviceId now uploadId versionId contentHash parts receipt s =
     (case verifiedMaterial receipt groupId deviceId uploadId contentHash s of
        None \<Rightarrow> (Inr s, s)
      | Some vm \<Rightarrow>
          (case completeRows deviceId now uploadId versionId parts receipt vm s of
             Inl e \<Rightarrow> (Inl e, s)
           | Inr t \<Rightarrow> (Inr s, t)))"

text \<open>The material and version the row of the statement holds: the inserted version, or the one the session named.\<close>

definition readCompleted ::
  "lib_env \<Rightarrow> string \<Rightarrow> int \<Rightarrow> string \<Rightarrow> upload_session \<times> string \<times> lib_material \<Rightarrow> library_db \<Rightarrow>
   (material_record \<times> version_record) lib" where
  "readCompleted env deviceId now versionId = (\<lambda>(u, mid, m) prior.
     let vid = nullish (us_versionId u) versionId;
         version = (if us_versionId u = None then Some (completedVersion deviceId now u mid m)
                    else js_get (lb_versions prior) vid) in
     case version of
       None \<Rightarrow> sm_throw (failedPrecondition ''The material upload could not be completed.'')
     | Some v \<Rightarrow>
         sm_bind (sm_lift (toMaterial mid (completedMaterial vid now m) (storedTags env prior mid))) (\<lambda>material.
         sm_bind (sm_lift (toVersion vid v)) (\<lambda>r. sm_return (material, r))))"

definition completeUpload ::
  "lib_env \<Rightarrow> string \<Rightarrow> string \<Rightarrow> int \<Rightarrow> int \<Rightarrow> string \<Rightarrow> string \<Rightarrow> string \<Rightarrow> completed_part_input list \<Rightarrow>
   string option option \<Rightarrow> (material_record \<times> version_record) lib" where
  "completeUpload env groupId deviceId now resolvedAt versionId uploadId contentHash parts mutation =
     sm_bind (sm_lift (requireIdentifier uploadId ''upload_id'')) (\<lambda>normalizedUploadId.
     sm_bind (sm_lift (requireContentHash contentHash)) (\<lambda>normalizedHash.
     sm_bind (sm_lift (requireCompletedParts parts)) (\<lambda>completedParts.
     sm_bind (claim env COMPLETE_MATERIAL_UPLOAD mutation now
        [(''upload_id'', normalizedUploadId), (''content_hash'', normalizedHash),
         (''part_count'', decimal (length completedParts))]) (\<lambda>receipt.
     if map_option gc_claimed receipt = Some False
     then replayCompleteUpload env groupId deviceId resolvedAt (the receipt)
     else
       sm_bind (bindUuid env normalizedUploadId) (\<lambda>uid.
       sm_bind (completeStatement groupId deviceId now uid versionId normalizedHash completedParts receipt) (\<lambda>prior.
       if receipt \<noteq> None \<and> \<not> mutationGate receipt prior
       then replayCompleteUpload env groupId deviceId resolvedAt (the receipt)
       else
         sm_bind (assertEditor (activeEditor receipt groupId deviceId prior)) (\<lambda>_.
         if lockedSession receipt groupId deviceId uid prior = None
         then sm_throw (notFound ''The upload session does not exist.'')
         else if completableSession receipt groupId deviceId uid prior = None
         then sm_throw (failedPrecondition ''The upload session is no longer open for completion.'')
         else case verifiedMaterial receipt groupId deviceId uid normalizedHash prior of
                None \<Rightarrow> sm_throw (failedPrecondition
                  ''content_hash does not match the content this upload reserved.'')
              | Some vm \<Rightarrow> readCompleted env deviceId now versionId vm prior)))))))"

definition cancelStatement ::
  "string \<Rightarrow> string \<Rightarrow> int \<Rightarrow> string \<Rightarrow> guard_claim option \<Rightarrow> library_db lib" where
  "cancelStatement groupId deviceId now uploadId receipt s =
     (case lockedSession receipt groupId deviceId uploadId s of
        None \<Rightarrow> (Inr s, s)
      | Some u \<Rightarrow>
          if us_state u \<in> openStates
          then (Inr s, completedReceipt receipt groupId uploadId None now
                 (s\<lparr>lb_sessions := js_set uploadId (u\<lparr>us_state := CANCELLED, us_updatedAt := now\<rparr>) (lb_sessions s)\<rparr>))
          else (Inr s, s))"

definition replayCancelUpload :: "lib_env \<Rightarrow> int \<Rightarrow> guard_claim \<Rightarrow> (string \<times> string option) lib" where
  "replayCancelUpload env now receipt =
     sm_bind (resolveRefused env receipt (failedPrecondition ''The upload session could not be cancelled.'') now)
       (\<lambda>(resourceId, _).
     sm_bind (requireRecordedResource resourceId) (\<lambda>uploadId. sm_return (uploadId, None)))"

definition cancelUpload ::
  "lib_env \<Rightarrow> string \<Rightarrow> string \<Rightarrow> int \<Rightarrow> int \<Rightarrow> string \<Rightarrow> string option option \<Rightarrow> (string \<times> string option) lib" where
  "cancelUpload env groupId deviceId now resolvedAt uploadId mutation =
     sm_bind (sm_lift (requireIdentifier uploadId ''upload_id'')) (\<lambda>normalizedUploadId.
     sm_bind (claim env CANCEL_MATERIAL_UPLOAD mutation now [(''upload_id'', normalizedUploadId)]) (\<lambda>receipt.
     if map_option gc_claimed receipt = Some False
     then replayCancelUpload env resolvedAt (the receipt)
     else
       sm_bind (bindUuid env normalizedUploadId) (\<lambda>uid.
       sm_bind (cancelStatement groupId deviceId now uid receipt) (\<lambda>prior.
       if receipt \<noteq> None \<and> \<not> mutationGate receipt prior
       then replayCancelUpload env resolvedAt (the receipt)
       else
         sm_bind (assertEditor (activeEditor receipt groupId deviceId prior)) (\<lambda>_.
         case lockedSession receipt groupId deviceId uid prior of
           None \<Rightarrow> sm_throw (notFound ''The upload session does not exist.'')
         | Some u \<Rightarrow>
             if us_state u \<in> openStates then sm_return (uid, optionalColumn (us_materialId u))
             else sm_throw (failedPrecondition
               ''The upload session has already finished and cannot be cancelled.''))))))"

text \<open>\<open>attachStorageUploadId\<close>: written once, while the session is open.\<close>

definition attachStorageUploadId ::
  "lib_env \<Rightarrow> string \<Rightarrow> string \<Rightarrow> int \<Rightarrow> string \<Rightarrow> string \<Rightarrow> unit lib" where
  "attachStorageUploadId env groupId deviceId now uploadId storageUploadId =
     sm_bind (sm_lift (requireIdentifier uploadId ''upload_id'')) (\<lambda>normalizedUploadId.
     sm_bind (sm_lift (requireBoundedText storageUploadId ''storage_upload_id'')) (\<lambda>remoteId.
     sm_bind (bindUuid env normalizedUploadId) (\<lambda>uid.
     sm_bind (sm_get id) (\<lambda>s.
     let target = (case lockedSession None groupId deviceId uid s of
            None \<Rightarrow> None
          | Some u \<Rightarrow> (if us_storageUploadId u = None \<and> us_state u \<in> openStates then Some u else None)) in
     sm_bind (case target of
                None \<Rightarrow> sm_return ()
              | Some u \<Rightarrow> sm_modify (lb_sessions_update (\<lambda>_.
                  js_set uid (u\<lparr>us_storageUploadId := Some remoteId, us_updatedAt := now\<rparr>) (lb_sessions s)))) (\<lambda>_.
     sm_bind (assertEditor (activeEditor None groupId deviceId s)) (\<lambda>_.
     sm_require (target \<noteq> None) (failedPrecondition
       ''The upload session cannot record a storage upload id: it is closed or already carries one.'')))))))"

section \<open>A new version\<close>

record version_input =
  vi_groupId :: string
  vi_materialId :: string
  vi_originalFileName :: string
  vi_mimeType :: string
  vi_totalSize :: int
  vi_contentHash :: string
  vi_partPlan :: "upload_part_plan option"

record version_outcome =
  vo_material :: material_record
  vo_version :: version_record
  vo_session :: session_record
  vo_parts :: "upload_part_record list"
  vo_storageKey :: string

text \<open>The CTE \<open>eligible_material\<close>.\<close>

definition eligibleMaterial ::
  "guard_claim option \<Rightarrow> string \<Rightarrow> string \<Rightarrow> string \<Rightarrow> library_db \<Rightarrow> lib_material option" where
  "eligibleMaterial receipt groupId deviceId materialId s =
     Option.bind (lockedMaterial receipt groupId deviceId materialId s)
       (\<lambda>m. if lm_trashedAt m = None then Some m else None)"

definition versionedMaterial :: "upload_params \<Rightarrow> lib_material \<Rightarrow> lib_material" where
  "versionedMaterial p m =
     m\<lparr>lm_status := MATERIAL_UPLOADING, lm_contentHash := pp_contentHash p, lm_mimeType := pp_mimeType p,
       lm_byteSize := pp_totalSize p, lm_currentVersionId := Some (pp_versionId p),
       lm_revision := lm_revision m + 1, lm_updatedAt := pp_now p\<rparr>"

definition versionRows ::
  "lib_env \<Rightarrow> upload_params \<Rightarrow> guard_claim option \<Rightarrow> lib_material \<Rightarrow> library_db \<Rightarrow> rt_error + library_db" where
  "versionRows env p receipt m s =
     (let m' = versionedMaterial p m; v = newVersion p m' in
      case claimObject (lm_groupId m) (pp_contentHash p) (pp_totalSize p) (pp_storageKey p) (pp_now p) s of
        Inl e \<Rightarrow> Inl e
      | Inr objects \<Rightarrow>
          if versionConflict (pp_versionId p) v s \<or> has_key (lb_sessions s) (pp_uploadId p)
          then Inl uniqueViolation
          else Inr (completedReceipt receipt (lm_groupId m) (pp_uploadId p) (Some (lm_revision m')) (pp_now p)
            (s\<lparr>lb_objects := objects,
               lb_materials := js_set (pp_materialId p) m' (lb_materials s),
               lb_versions := lb_versions s @ [(pp_versionId p, v)],
               lb_sessions := lb_sessions s @ [(pp_uploadId p, newSession env p (Some (pp_versionId p)) PENDING 0)],
               lb_parts := lb_parts s @ newParts (pp_uploadId p) (pp_parts p)\<rparr>)))"

definition versionStatement :: "lib_env \<Rightarrow> upload_params \<Rightarrow> guard_claim option \<Rightarrow> library_db lib" where
  "versionStatement env p receipt s =
     (case bindSizes env p of
        Inl e \<Rightarrow> (Inl e, s)
      | Inr _ \<Rightarrow>
         (case eligibleMaterial receipt (pp_groupId p) (pp_deviceId p) (pp_materialId p) s of
            None \<Rightarrow> (Inr s, s)
          | Some m \<Rightarrow>
              (case versionRows env p receipt m s of
                 Inl e \<Rightarrow> (Inl e, s)
               | Inr t \<Rightarrow> (Inr s, t))))"

definition replayCreateMaterialVersion ::
  "lib_env \<Rightarrow> string \<Rightarrow> string \<Rightarrow> int \<Rightarrow> guard_claim \<Rightarrow> version_outcome lib" where
  "replayCreateMaterialVersion env groupId deviceId now receipt =
     sm_bind (resolveRefused env receipt (failedPrecondition ''The material version could not be created.'') now)
       (\<lambda>(resourceId, _).
     sm_bind (requireRecordedResource resourceId) (\<lambda>uploadId.
     sm_bind (getUploadStatus env groupId deviceId uploadId) (\<lambda>(session, _).
     case (se_materialId session, se_versionId session) of
       (Some materialId, Some versionId) \<Rightarrow>
         sm_bind (getMaterial env groupId deviceId materialId) (\<lambda>(material, _).
         sm_bind (readVersion env groupId deviceId versionId) (\<lambda>version.
         sm_bind (readUploadParts uploadId) (\<lambda>parts.
         sm_return \<lparr>vo_material = material, vo_version = version, vo_session = session, vo_parts = parts,
                    vo_storageKey = storageKeyFor (mt_groupId material) (mv_contentHash version)\<rparr>)))
     | _ \<Rightarrow> sm_throw (failedPrecondition
         ''The recorded upload no longer names a version and cannot be replayed.''))))"

definition readVersioned :: "lib_env \<Rightarrow> upload_params \<Rightarrow> lib_material \<Rightarrow> library_db \<Rightarrow> version_outcome lib" where
  "readVersioned env p m prior =
     (let m' = versionedMaterial p m in
      sm_bind (sm_lift (toMaterial (pp_materialId p) m' (storedTags env prior (pp_materialId p)))) (\<lambda>material.
      sm_bind (sm_lift (toVersion (pp_versionId p) (newVersion p m'))) (\<lambda>version.
      sm_bind (sm_lift (toSession (pp_uploadId p) (newSession env p (Some (pp_versionId p)) PENDING 0))) (\<lambda>session.
      sm_return \<lparr>vo_material = material, vo_version = version, vo_session = session,
                 vo_parts = sort_key up_partNumber (pp_parts p),
                 vo_storageKey = nullish (readOptionalText (SqlText
                   (case js_get (lb_objects prior) (lm_groupId m, pp_contentHash p) of
                      None \<Rightarrow> pp_storageKey p | Some ob \<Rightarrow> ob_storageKey ob))) (pp_storageKey p)\<rparr>))))"

definition createMaterialVersion ::
  "lib_env \<Rightarrow> string \<Rightarrow> string \<Rightarrow> int \<Rightarrow> int \<Rightarrow> string \<Rightarrow> string \<Rightarrow> version_input \<Rightarrow> string option option \<Rightarrow>
   version_outcome lib" where
  "createMaterialVersion env authenticatedGroupId deviceId now resolvedAt uploadId versionId input mutation =
     sm_bind (sm_lift (requireIdentifier (vi_groupId input) ''group_id'')) (\<lambda>groupId.
     sm_bind (assertAuthenticatedGroup authenticatedGroupId groupId) (\<lambda>_.
     sm_bind (sm_lift (requireIdentifier (vi_materialId input) ''material_id'')) (\<lambda>materialId.
     sm_bind (sm_lift (requireBoundedText (vi_originalFileName input) ''original_file_name'')) (\<lambda>originalFileName.
     sm_bind (sm_lift (requireBoundedText (vi_mimeType input) ''mime_type'')) (\<lambda>mimeType.
     sm_bind (sm_lift (requireContentHash (vi_contentHash input))) (\<lambda>contentHash.
     sm_bind (sm_lift (requireByteSize (vi_totalSize input))) (\<lambda>totalSize.
     sm_bind (sm_lift (chunkSizeFor totalSize (le_uploadChunkSize env))) (\<lambda>chunkSize.
     sm_bind (sm_lift (planned totalSize chunkSize (vi_partPlan input))) (\<lambda>parts.
     let storageKey = storageKeyFor groupId contentHash in
     sm_bind (claim env CREATE_MATERIAL_VERSION mutation now
        [(''group_id'', groupId), (''material_id'', materialId), (''content_hash'', contentHash),
         (''total_size'', intText totalSize), (''original_file_name'', originalFileName)]) (\<lambda>receipt.
     if map_option gc_claimed receipt = Some False
     then replayCreateMaterialVersion env authenticatedGroupId deviceId resolvedAt (the receipt)
     else
       sm_bind (bindUuid env materialId) (\<lambda>mid.
       let p = \<lparr>pp_groupId = groupId, pp_deviceId = deviceId, pp_now = now, pp_materialId = mid,
                pp_versionId = versionId, pp_uploadId = uploadId, pp_contentHash = contentHash,
                pp_totalSize = totalSize, pp_storageKey = storageKey, pp_displayName = [],
                pp_originalFileName = originalFileName, pp_category = CATEGORY_UNSPECIFIED,
                pp_mimeType = mimeType, pp_metadata = [], pp_chunkSize = chunkSize, pp_parts = parts\<rparr> in
       sm_bind (versionStatement env p receipt) (\<lambda>prior.
       if receipt \<noteq> None \<and> \<not> mutationGate receipt prior
       then replayCreateMaterialVersion env authenticatedGroupId deviceId resolvedAt (the receipt)
       else
         sm_bind (assertEditor (activeEditor receipt groupId deviceId prior)) (\<lambda>_.
         if lockedMaterial receipt groupId deviceId mid prior = None
         then sm_throw (notFound ''The material does not exist.'')
         else case eligibleMaterial receipt groupId deviceId mid prior of
                None \<Rightarrow> sm_throw (failedPrecondition ''A trashed material cannot receive a new version.'')
              | Some m \<Rightarrow> readVersioned env p m prior)))))))))))))"

section \<open>Metadata, trash and purge\<close>

text \<open>The shared tail of the mutations that answer with the material they changed.\<close>

definition readMutatedMaterial ::
  "lib_env \<Rightarrow> string \<Rightarrow> string \<Rightarrow> int \<Rightarrow> guard_claim option \<Rightarrow> string \<Rightarrow> string \<Rightarrow>
   (library_db \<Rightarrow> (lib_material \<times> string list) option) \<Rightarrow> library_db \<Rightarrow> material_record lib" where
  "readMutatedMaterial env groupId deviceId resolvedAt receipt materialId ineligibleMessage updated prior =
     (if receipt \<noteq> None \<and> \<not> mutationGate receipt prior
      then replayMaterial env groupId deviceId resolvedAt (the receipt)
      else
        sm_bind (assertEditor (activeEditor receipt groupId deviceId prior)) (\<lambda>_.
        if lockedMaterial receipt groupId deviceId materialId prior = None
        then sm_throw (notFound ''The material does not exist.'')
        else case updated prior of
               None \<Rightarrow> sm_throw (failedPrecondition ineligibleMessage)
             | Some (m, tags) \<Rightarrow> sm_lift (toMaterial materialId m tags)))"

record metadata_input =
  xi_groupId :: string
  xi_materialId :: string
  xi_displayName :: string
  xi_category :: material_category
  xi_metadata :: "(string \<times> string) list"
  xi_tags :: "string list"

fun categoryName :: "material_category \<Rightarrow> string" where
  "categoryName CATEGORY_UNSPECIFIED = ''UNSPECIFIED''"
| "categoryName VIDEO = ''VIDEO''"
| "categoryName CAMERA = ''CAMERA''"
| "categoryName IMAGE = ''IMAGE''"
| "categoryName AUDIO = ''AUDIO''"
| "categoryName DOCUMENT = ''DOCUMENT''"
| "categoryName MAP = ''MAP''"
| "categoryName INTERCEPT = ''INTERCEPT''"
| "categoryName DOSSIER = ''DOSSIER''"
| "categoryName REPORT = ''REPORT''"
| "categoryName ARCHIVE = ''ARCHIVE''"
| "categoryName TECHNICAL = ''TECHNICAL''"
| "categoryName OTHER = ''OTHER''"

definition describedMaterial ::
  "lib_env \<Rightarrow> string \<Rightarrow> material_category \<Rightarrow> (string \<times> string) list \<Rightarrow> int \<Rightarrow> lib_material \<Rightarrow> lib_material" where
  "describedMaterial env displayName category metadata now m =
     m\<lparr>lm_displayName := displayName, lm_category := category, lm_metadata := le_jsonb env metadata,
       lm_revision := lm_revision m + 1, lm_updatedAt := now\<rparr>"

text \<open>\<open>upserted_tags\<close>: \<open>ON CONFLICT DO NOTHING\<close> in the group's vocabulary.\<close>

definition declareTag :: "string \<Rightarrow> int \<Rightarrow> string \<Rightarrow> (string \<times> string, int) jsmap \<Rightarrow> (string \<times> string, int) jsmap" where
  "declareTag groupId now tag vocabulary =
     (if has_key vocabulary (groupId, tag) then vocabulary else vocabulary @ [((groupId, tag), now)])"

text \<open>\<open>unlinked_tags\<close> and \<open>linked_tags\<close>: the links of one material become the requested set.\<close>

definition relink :: "string \<Rightarrow> string \<Rightarrow> string list \<Rightarrow> tag_link list \<Rightarrow> tag_link list" where
  "relink materialId groupId tags links =
     filter (\<lambda>l. tl_materialId l \<noteq> materialId \<or> tl_tagValue l \<in> set tags) links @
     map (\<lambda>t. \<lparr>tl_materialId = materialId, tl_groupId = groupId, tl_tagValue = t\<rparr>)
       (filter (\<lambda>t. \<not> list_ex (\<lambda>l. tl_materialId l = materialId \<and> tl_tagValue l = t) links) (js_unique tags))"

definition updateRows ::
  "string \<Rightarrow> lib_material \<Rightarrow> string list \<Rightarrow> int \<Rightarrow> guard_claim option \<Rightarrow> library_db \<Rightarrow> library_db" where
  "updateRows materialId m' tags now receipt s =
     completedReceipt receipt (lm_groupId m') materialId (Some (lm_revision m')) now
       (s\<lparr>lb_tags := fold (declareTag (lm_groupId m') now) (js_unique tags) (lb_tags s),
          lb_links := relink materialId (lm_groupId m') tags (lb_links s),
          lb_materials := js_set materialId m' (lb_materials s)\<rparr>)"

definition updateMaterialMetadata ::
  "lib_env \<Rightarrow> string \<Rightarrow> string \<Rightarrow> int \<Rightarrow> int \<Rightarrow> metadata_input \<Rightarrow> string option option \<Rightarrow> material_record lib" where
  "updateMaterialMetadata env authenticatedGroupId deviceId now resolvedAt input mutation =
     sm_bind (sm_lift (requireIdentifier (xi_groupId input) ''group_id'')) (\<lambda>groupId.
     sm_bind (assertAuthenticatedGroup authenticatedGroupId groupId) (\<lambda>_.
     sm_bind (sm_lift (requireIdentifier (xi_materialId input) ''material_id'')) (\<lambda>materialId.
     sm_bind (sm_lift (requireBoundedText (xi_displayName input) ''display_name'')) (\<lambda>displayName.
     sm_bind (sm_lift (requireMetadata (xi_metadata input))) (\<lambda>metadata.
     sm_bind (sm_lift (requireTags (xi_tags input))) (\<lambda>tags.
     sm_bind (claim env UPDATE_MATERIAL_METADATA mutation now
        [(''group_id'', groupId), (''material_id'', materialId), (''display_name'', displayName),
         (''category'', categoryName (xi_category input)), (''metadata'', json_record metadata),
         (''tags'', json_strings tags)]) (\<lambda>receipt.
     if map_option gc_claimed receipt = Some False
     then replayMaterial env authenticatedGroupId deviceId resolvedAt (the receipt)
     else
       sm_bind (bindUuid env materialId) (\<lambda>mid.
       sm_bind (sm_get id) (\<lambda>prior.
       let locked = lockedMaterial receipt groupId deviceId mid prior;
           described = describedMaterial env displayName (xi_category input) metadata now in
       sm_bind (case locked of
                  None \<Rightarrow> sm_return ()
                | Some m \<Rightarrow> sm_modify (updateRows mid (described m) tags now receipt)) (\<lambda>_.
       readMutatedMaterial env authenticatedGroupId deviceId resolvedAt receipt mid
         ''Unable to update the material metadata.''
         (\<lambda>_. map_option (\<lambda>m. (described m, requestedTags env tags)) locked) prior))))))))))"

definition trashEligible ::
  "guard_claim option \<Rightarrow> string \<Rightarrow> string \<Rightarrow> string \<Rightarrow> bool \<Rightarrow> library_db \<Rightarrow> lib_material option" where
  "trashEligible receipt groupId deviceId materialId trashing s =
     Option.bind (lockedMaterial receipt groupId deviceId materialId s)
       (\<lambda>m. if (lm_trashedAt m = None) = trashing then Some m else None)"

definition trashedMaterial :: "bool \<Rightarrow> int \<Rightarrow> lib_material \<Rightarrow> lib_material" where
  "trashedMaterial trashing now m =
     m\<lparr>lm_trashedAt := (if trashing then Some now else None),
       lm_status := (if trashing then TRASHED
                     else if lm_currentVersionId m = None then MATERIAL_UPLOADING else READY),
       lm_revision := lm_revision m + 1, lm_updatedAt := now\<rparr>"

definition trashRows ::
  "string \<Rightarrow> lib_material \<Rightarrow> int \<Rightarrow> guard_claim option \<Rightarrow> library_db \<Rightarrow> library_db" where
  "trashRows materialId m' now receipt s =
     completedReceipt receipt (lm_groupId m') materialId (Some (lm_revision m')) now
       (s\<lparr>lb_materials := js_set materialId m' (lb_materials s)\<rparr>)"

definition setTrashState ::
  "lib_env \<Rightarrow> string \<Rightarrow> string \<Rightarrow> int \<Rightarrow> int \<Rightarrow> string \<Rightarrow> string \<Rightarrow> bool \<Rightarrow> string option option \<Rightarrow> material_record lib" where
  "setTrashState env authenticatedGroupId deviceId now resolvedAt groupId materialId trashing mutation =
     sm_bind (sm_lift (requireIdentifier groupId ''group_id'')) (\<lambda>normalizedGroupId.
     sm_bind (assertAuthenticatedGroup authenticatedGroupId normalizedGroupId) (\<lambda>_.
     sm_bind (sm_lift (requireIdentifier materialId ''material_id'')) (\<lambda>normalizedMaterialId.
     sm_bind (claim env (if trashing then TRASH_MATERIAL else RESTORE_MATERIAL) mutation now
        [(''group_id'', normalizedGroupId), (''material_id'', normalizedMaterialId)]) (\<lambda>receipt.
     if map_option gc_claimed receipt = Some False
     then replayMaterial env authenticatedGroupId deviceId resolvedAt (the receipt)
     else
       sm_bind (bindUuid env normalizedMaterialId) (\<lambda>mid.
       sm_bind (sm_get id) (\<lambda>prior.
       let eligible = trashEligible receipt normalizedGroupId deviceId mid trashing prior in
       sm_bind (case eligible of
                  None \<Rightarrow> sm_return ()
                | Some m \<Rightarrow> sm_modify (trashRows mid (trashedMaterial trashing now m) now receipt)) (\<lambda>_.
       readMutatedMaterial env authenticatedGroupId deviceId resolvedAt receipt mid
         (if trashing then ''The material is already in the trash.''
          else ''The material is not in the trash and cannot be restored.'')
         (\<lambda>s. map_option (\<lambda>m. (trashedMaterial trashing now m, storedTags env s mid)) eligible) prior)))))))"

definition moveToTrash ::
  "lib_env \<Rightarrow> string \<Rightarrow> string \<Rightarrow> int \<Rightarrow> int \<Rightarrow> string \<Rightarrow> string \<Rightarrow> string option option \<Rightarrow> material_record lib" where
  "moveToTrash env authenticatedGroupId deviceId now resolvedAt groupId materialId mutation =
     setTrashState env authenticatedGroupId deviceId now resolvedAt groupId materialId True mutation"

definition restoreMaterial ::
  "lib_env \<Rightarrow> string \<Rightarrow> string \<Rightarrow> int \<Rightarrow> int \<Rightarrow> string \<Rightarrow> string \<Rightarrow> string option option \<Rightarrow> material_record lib" where
  "restoreMaterial env authenticatedGroupId deviceId now resolvedAt groupId materialId mutation =
     setTrashState env authenticatedGroupId deviceId now resolvedAt groupId materialId False mutation"

text \<open>\<open>held_references\<close>: the versions of the material with a content, and one more for a content no version has.\<close>

definition versionsHolding :: "string \<Rightarrow> string \<Rightarrow> (string, lib_version) jsmap \<Rightarrow> nat" where
  "versionsHolding materialId contentHash versions =
     length (filter (\<lambda>v. lv_materialId v = materialId \<and> lv_contentHash v = contentHash) (js_values versions))"

definition heldReferences :: "string \<Rightarrow> lib_material \<Rightarrow> string \<Rightarrow> (string, lib_version) jsmap \<Rightarrow> nat" where
  "heldReferences materialId m contentHash versions =
     (let n = versionsHolding materialId contentHash versions in
      if n = 0 \<and> lm_contentHash m = contentHash then 1 else n)"

text \<open>\<open>released_object\<close> and \<open>dropped_object\<close>, over the objects of the material's group.\<close>

definition releaseObject ::
  "string \<Rightarrow> lib_material \<Rightarrow> (string, lib_version) jsmap \<Rightarrow> (string \<times> string) \<times> object_row \<Rightarrow>
   ((string \<times> string) \<times> object_row) option" where
  "releaseObject materialId m versions = (\<lambda>((g, h), ob).
     let holds = int (heldReferences materialId m h versions) in
     if g \<noteq> lm_groupId m \<or> holds = 0 then Some ((g, h), ob)
     else if ob_referenceCount ob > holds
     then Some ((g, h), ob\<lparr>ob_referenceCount := ob_referenceCount ob - holds\<rparr>)
     else None)"

text \<open>
  The deletion cascades: the versions and the tag links of the material go with it, and the sessions
  that named it or one of its versions name nothing.
\<close>

definition forgetMaterial :: "string \<Rightarrow> (string, lib_version) jsmap \<Rightarrow> upload_session \<Rightarrow> upload_session" where
  "forgetMaterial materialId versions u =
     u\<lparr>us_materialId := (if us_materialId u = Some materialId then None else us_materialId u),
       us_versionId := Option.bind (us_versionId u) (\<lambda>vid.
         case js_get versions vid of
           None \<Rightarrow> Some vid
         | Some v \<Rightarrow> (if lv_materialId v = materialId then None else Some vid))\<rparr>"

definition purgeRows :: "string \<Rightarrow> lib_material \<Rightarrow> int \<Rightarrow> guard_claim option \<Rightarrow> library_db \<Rightarrow> library_db" where
  "purgeRows materialId m now receipt s =
     completedReceipt receipt (lm_groupId m) materialId (Some (lm_revision m)) now
       (s\<lparr>lb_objects := List.map_filter (releaseObject materialId m (lb_versions s)) (lb_objects s),
          lb_materials := js_delete materialId (lb_materials s),
          lb_versions := filter (\<lambda>(i, v). lv_materialId v \<noteq> materialId) (lb_versions s),
          lb_sessions := js_map_values (forgetMaterial materialId (lb_versions s)) (lb_sessions s),
          lb_links := filter (\<lambda>l. tl_materialId l \<noteq> materialId) (lb_links s)\<rparr>)"

definition droppedObject :: "string \<Rightarrow> lib_material \<Rightarrow> library_db \<Rightarrow> bool" where
  "droppedObject materialId m s =
     list_ex (\<lambda>row. releaseObject materialId m (lb_versions s) row = None) (lb_objects s)"

record purged_material =
  pm_materialId :: string
  pm_revision :: int
  pm_objectRemoved :: bool

definition replayPurge :: "lib_env \<Rightarrow> int \<Rightarrow> guard_claim \<Rightarrow> purged_material lib" where
  "replayPurge env now receipt =
     sm_bind (resolveRefused env receipt (failedPrecondition ''The material could not be purged.'') now)
       (\<lambda>(resourceId, revision).
     sm_bind (requireRecordedResource resourceId) (\<lambda>materialId.
     sm_return \<lparr>pm_materialId = materialId, pm_revision = nullish revision 0, pm_objectRemoved = False\<rparr>))"

definition purgeable ::
  "guard_claim option \<Rightarrow> string \<Rightarrow> string \<Rightarrow> string \<Rightarrow> library_db \<Rightarrow> lib_material option" where
  "purgeable receipt groupId deviceId materialId s =
     Option.bind (lockedMaterial receipt groupId deviceId materialId s)
       (\<lambda>m. if lm_trashedAt m \<noteq> None then Some m else None)"

definition purgeMaterial ::
  "lib_env \<Rightarrow> string \<Rightarrow> string \<Rightarrow> int \<Rightarrow> int \<Rightarrow> string \<Rightarrow> string \<Rightarrow> string \<Rightarrow> string option option \<Rightarrow>
   purged_material lib" where
  "purgeMaterial env authenticatedGroupId deviceId now resolvedAt groupId materialId confirmation mutation =
     sm_bind (sm_lift (requireIdentifier groupId ''group_id'')) (\<lambda>normalizedGroupId.
     sm_bind (assertAuthenticatedGroup authenticatedGroupId normalizedGroupId) (\<lambda>_.
     sm_bind (sm_lift (requireIdentifier materialId ''material_id'')) (\<lambda>normalizedMaterialId.
     sm_bind (sm_require (js_trim confirmation = normalizedMaterialId) (invalidArgument
        ''confirmation must repeat the identifier of the material being purged.'')) (\<lambda>_.
     sm_bind (claim env PURGE_MATERIAL mutation now
        [(''group_id'', normalizedGroupId), (''material_id'', normalizedMaterialId)]) (\<lambda>receipt.
     if map_option gc_claimed receipt = Some False
     then replayPurge env resolvedAt (the receipt)
     else
       sm_bind (bindUuid env normalizedMaterialId) (\<lambda>mid.
       sm_bind (sm_get id) (\<lambda>prior.
       let target = purgeable receipt normalizedGroupId deviceId mid prior in
       sm_bind (case target of None \<Rightarrow> sm_return () | Some m \<Rightarrow> sm_modify (purgeRows mid m now receipt)) (\<lambda>_.
       if receipt \<noteq> None \<and> \<not> mutationGate receipt prior
       then replayPurge env resolvedAt (the receipt)
       else
         sm_bind (assertEditor (activeEditor receipt normalizedGroupId deviceId prior)) (\<lambda>_.
         if lockedMaterial receipt normalizedGroupId deviceId mid prior = None
         then sm_throw (notFound ''The material does not exist.'')
         else case target of
                None \<Rightarrow> sm_throw (failedPrecondition ''Move the material to the trash before purging it.'')
              | Some m \<Rightarrow>
                  sm_bind (sm_lift (readText (SqlText mid) ''material_id'')) (\<lambda>i.
                  sm_return \<lparr>pm_materialId = i, pm_revision = lm_revision m,
                             pm_objectRemoved = droppedObject mid m prior\<rparr>))))))))))"

end
