(* ===== verification/Material_Steps.thy ===== *)
theory Material_Steps
  imports Material_Library
begin

text \<open>
  What a method of the material library does to the tables: at most one write, and only for an active
  editor. \<open>lib_write\<close> lists the writes as a step relation with the guards of the statements (\<open>admits\<close>
  bounds the materials that may receive a new version), \<open>lib_call\<close> the calls with their arguments, and one lemma a method shows that running it claims its receipt and
  then makes at most one of these steps. Invariants of the library are proved over the step relation.
\<close>

section \<open>The writes\<close>

text \<open>The receipt that a request names, if it carries a request identifier.\<close>

definition requestReceipt ::
  "lib_env \<Rightarrow> mutation_scope \<Rightarrow> string option option \<Rightarrow> (mutation_scope \<times> string) option" where
  "requestReceipt env scope mutation =
     (case mutation of
        Some requestId \<Rightarrow>
          (case normalizeRequestId requestId of
             Inr (Some rid) \<Rightarrow> Some (scope, ee_hashReceipt (le_events env) (encodeRequestIdPayload scope rid))
           | _ \<Rightarrow> None)
      | None \<Rightarrow> None)"

text \<open>
  What a claim may change: at most one receipt, the one under \<open>key\<close>, which was not completed and is not
  completed by the claim. No other receipt and no other table differs.
\<close>

definition receiptsOnly :: "(mutation_scope \<times> string) option \<Rightarrow> library_db \<Rightarrow> library_db \<Rightarrow> bool" where
  "receiptsOnly key s t \<longleftrightarrow> t = s \<or>
     (\<exists>k row. key = Some k \<and> rr_completedAt row = None \<and>
        (\<forall>r. js_get (db_receipts (lb_shared s)) k = Some r \<longrightarrow> rr_completedAt r = None) \<and>
        t = s\<lparr>lb_shared := (lb_shared s)\<lparr>db_receipts := js_set k row (db_receipts (lb_shared s))\<rparr>\<rparr>)"

lemma receiptsOnly_refl [simp]: "receiptsOnly key s s"
  by (simp add: receiptsOnly_def)

lemma receiptsOnlyE:
  assumes "receiptsOnly key s t"
  obtains r where "t = s\<lparr>lb_shared := (lb_shared s)\<lparr>db_receipts := r\<rparr>\<rparr>"
proof (cases "t = s")
  case True
  then show thesis using that[of "db_receipts (lb_shared s)"] by simp
next
  case False
  then show thesis using assms that unfolding receiptsOnly_def by blast
qed

text \<open>What the argument checks establish of the parameters of a statement that opens an upload.\<close>

definition prepared :: "upload_params \<Rightarrow> bool" where
  "prepared p \<longleftrightarrow> pp_storageKey p = storageKeyFor (pp_groupId p) (pp_contentHash p) \<and>
     contentHashPattern (pp_contentHash p) \<and> 0 < pp_totalSize p"

inductive lib_write :: "lib_env \<Rightarrow> (string \<Rightarrow> bool) \<Rightarrow> string \<Rightarrow> string \<Rightarrow> library_db \<Rightarrow> library_db \<Rightarrow> bool"
  for env admits groupId deviceId where
  write_begin: "activeEditor receipt groupId deviceId s \<Longrightarrow> prepared p \<Longrightarrow> pp_groupId p = groupId \<Longrightarrow>
    beginRows env p receipt s = Inr t \<Longrightarrow> lib_write env admits groupId deviceId s t"
| write_complete: "verifiedMaterial receipt groupId deviceId uploadId contentHash s = Some vm \<Longrightarrow>
    completeRows deviceId now uploadId versionId parts receipt vm s = Inr t \<Longrightarrow> lib_write env admits groupId deviceId s t"
| write_cancel: "lockedSession receipt groupId deviceId uploadId s = Some u \<Longrightarrow> us_state u \<in> openStates \<Longrightarrow>
    t = completedReceipt receipt groupId uploadId None now
      (s\<lparr>lb_sessions := js_set uploadId (u\<lparr>us_state := CANCELLED, us_updatedAt := now\<rparr>) (lb_sessions s)\<rparr>) \<Longrightarrow>
    lib_write env admits groupId deviceId s t"
| write_attach: "lockedSession None groupId deviceId uploadId s = Some u \<Longrightarrow> us_storageUploadId u = None \<Longrightarrow>
    us_state u \<in> openStates \<Longrightarrow>
    t = s\<lparr>lb_sessions := js_set uploadId (u\<lparr>us_storageUploadId := Some remoteId, us_updatedAt := now\<rparr>) (lb_sessions s)\<rparr> \<Longrightarrow>
    lib_write env admits groupId deviceId s t"
| write_version: "eligibleMaterial receipt groupId deviceId (pp_materialId p) s = Some m \<Longrightarrow> prepared p \<Longrightarrow>
    pp_groupId p = groupId \<Longrightarrow> admits (pp_materialId p) \<Longrightarrow> versionRows env p receipt m s = Inr t \<Longrightarrow> lib_write env admits groupId deviceId s t"
| write_update: "lockedMaterial receipt groupId deviceId materialId s = Some m \<Longrightarrow>
    t = updateRows materialId (describedMaterial env displayName category metadata now m) tags now receipt s \<Longrightarrow>
    lib_write env admits groupId deviceId s t"
| write_trash: "trashEligible receipt groupId deviceId materialId trashing s = Some m \<Longrightarrow>
    t = trashRows materialId (trashedMaterial trashing now m) now receipt s \<Longrightarrow> lib_write env admits groupId deviceId s t"
| write_purge: "purgeable receipt groupId deviceId materialId s = Some m \<Longrightarrow>
    t = purgeRows materialId m now receipt s \<Longrightarrow> lib_write env admits groupId deviceId s t"

text \<open>A claim, then at most one write.\<close>

definition effect :: "lib_env \<Rightarrow> (mutation_scope \<times> string) option \<Rightarrow> (string \<Rightarrow> bool) \<Rightarrow> string \<Rightarrow> string \<Rightarrow>
    library_db \<Rightarrow> library_db \<Rightarrow> bool" where
  "effect env key admits groupId deviceId s t \<longleftrightarrow>
     (\<exists>s'. receiptsOnly key s s' \<and> (t = s' \<or> lib_write env admits groupId deviceId s' t))"

lemma effect_claim: "receiptsOnly key s t \<Longrightarrow> effect env key A g d s t"
  unfolding effect_def by blast

lemma effect_write: "receiptsOnly key s s' \<Longrightarrow> lib_write env A g d s' t \<Longrightarrow> effect env key A g d s t"
  unfolding effect_def by blast

section \<open>Claims and reads\<close>

lemma sm_wp_on_shared:
  "sm_wp (on_shared m) Q E s =
     sm_wp m (\<lambda>a x. Q a (s\<lparr>lb_shared := x\<rparr>)) (\<lambda>e x. E e (s\<lparr>lb_shared := x\<rparr>)) (lb_shared s)"
  by (simp add: sm_wp_def on_shared_def split: prod.split sum.split)

text \<open>The one receipt a claim may write.\<close>

lemma guardClaim_receipts:
  "sm_wp (guardClaim ev scope requestId now fs) (\<lambda>_ y. y = x \<or>
      (\<exists>rid row. normalizeRequestId requestId = Inr (Some rid) \<and> rr_completedAt row = None \<and>
        (\<forall>r. js_get (db_receipts x) (scope, ee_hashReceipt ev (encodeRequestIdPayload scope rid)) = Some r \<longrightarrow>
          rr_completedAt r = None) \<and>
        y = x\<lparr>db_receipts := js_set (scope, ee_hashReceipt ev (encodeRequestIdPayload scope rid)) row (db_receipts x)\<rparr>))
     (\<lambda>_ y. y = x) x"
proof -
  have hash: "h = ee_hashReceipt ev p" if "guardHash ev p = Inr h" for p h
    using that by (simp add: guardHash_def Let_def split: if_splits)
  define Q where "Q y \<longleftrightarrow> y = x \<or> (\<exists>rid row. normalizeRequestId requestId = Inr (Some rid) \<and> rr_completedAt row = None \<and>
      (\<forall>r. js_get (db_receipts x) (scope, ee_hashReceipt ev (encodeRequestIdPayload scope rid)) = Some r \<longrightarrow>
        rr_completedAt r = None) \<and>
      y = x\<lparr>db_receipts := js_set (scope, ee_hashReceipt ev (encodeRequestIdPayload scope rid)) row (db_receipts x)\<rparr>)" for y
  have same: "Q x" by (simp add: Q_def)
  have claimed: "Q (x\<lparr>db_receipts := js_set (scope, ee_hashReceipt ev (encodeRequestIdPayload scope rid)) row (db_receipts x)\<rparr>)"
    if "normalizeRequestId requestId = Inr (Some rid)" "rr_completedAt row = None"
      "\<And>r. js_get (db_receipts x) (scope, ee_hashReceipt ev (encodeRequestIdPayload scope rid)) = Some r \<Longrightarrow>
        rr_completedAt r = None" for rid row
    using that unfolding Q_def by blast
  show ?thesis
    unfolding guardClaim_def Q_def[symmetric]
    by (auto simp: wp_simps Let_def same dest!: hash intro!: claimed split: sum.splits option.splits)
qed

lemma resolveGuard_reads: "snd (guardResolveRefused c e now x) = x"
  by (auto simp: guardResolveRefused_def sm_bind_def monad_defs split: option.splits)

lemma claim_wp:
  assumes "\<And>r t. receiptsOnly (requestReceipt env scope mutation) s t \<Longrightarrow> Q r t" and "\<And>e. E e s"
  shows "sm_wp (claim env scope mutation now fs) Q E s"
proof (cases mutation)
  case None
  then show ?thesis using assms by (simp add: claim_def wp_simps)
next
  case (Some requestId)
  have "sm_wp (on_shared (guardClaim (le_events env) scope requestId now fs)) Q E s"
    unfolding sm_wp_on_shared
    by (rule sm_wp_mono[OF guardClaim_receipts])
       (use assms in \<open>auto simp: receiptsOnly_def requestReceipt_def Some intro!: assms(1)\<close>)
  with Some assms(2) show ?thesis by (simp add: claim_def requireReceipts_def wp_simps)
qed

text \<open>Methods that only read: their state is the one they began with.\<close>

definition reads :: "'a lib \<Rightarrow> bool" where
  "reads m \<longleftrightarrow> (\<forall>s. snd (m s) = s)"

named_theorems reads_intros \<open>computations of the library that only read\<close>

lemma reads_wp: "reads m \<Longrightarrow> (\<And>a. Q a s) \<Longrightarrow> (\<And>e. E e s) \<Longrightarrow> sm_wp m Q E s"
  by (cases "m s") (auto simp: reads_def sm_wp_def split: sum.split dest: spec[of _ s])

lemma reads_basic [reads_intros]:
  "reads (sm_return a)" "reads (sm_throw e)" "reads (sm_get g)" "reads (sm_require b e')" "reads (sm_lift r)"
  by (simp_all add: reads_def monad_defs)

lemma reads_bind [reads_intros]: "reads m \<Longrightarrow> (\<And>a. reads (f a)) \<Longrightarrow> reads (sm_bind m f)"
  unfolding reads_def sm_bind_def by (auto split: prod.splits sum.splits) (metis snd_conv)+

lemma reads_cases [reads_intros]:
  "(b \<Longrightarrow> reads m) \<Longrightarrow> (\<not> b \<Longrightarrow> reads n) \<Longrightarrow> reads (if b then m else n)"
  "reads k \<Longrightarrow> (\<And>x. reads (f x)) \<Longrightarrow> reads (case opt of None \<Rightarrow> k | Some x \<Rightarrow> f x)"
  "(\<And>x y. reads (h x y)) \<Longrightarrow> reads (case pr of (x, y) \<Rightarrow> h x y)"
  by (auto split: option.split prod.split)

lemma reads_on_shared [reads_intros]: "(\<And>x. snd (m x) = x) \<Longrightarrow> reads (on_shared m)"
  by (simp add: reads_def on_shared_def split: prod.split) (metis snd_conv library_db.surjective library_db.update_convs(1))

lemma reads_resolveRefused [reads_intros]: "reads (resolveRefused env c e now)"
  unfolding resolveRefused_def requireReceipts_def by (intro reads_intros resolveGuard_reads)

lemma reads_bindUuid [reads_intros]: "reads (bindUuid env i)"
  unfolding bindUuid_def by (intro reads_intros)

lemma reads_getMaterial [reads_intros]: "reads (getMaterial env g d i)"
  unfolding getMaterial_def assertLibraryMember_def by (intro reads_intros)

lemma reads_getUploadStatus [reads_intros]: "reads (getUploadStatus env g d i)"
  unfolding getUploadStatus_def assertLibraryMember_def by (intro reads_intros)

lemma reads_readVersion [reads_intros]: "reads (readVersion env g d i)"
  unfolding readVersion_def assertLibraryMember_def by (intro reads_intros)

lemma reads_replays [reads_intros]:
  "reads (requireRecordedResource r)"
  "reads (readUploadParts i)"
  "reads (replayMaterial env g d now c)"
  "reads (replayBeginUpload env g d now c)"
  "reads (replayCompleteUpload env g d now c)"
  "reads (replayCreateMaterialVersion env g d now c)"
  "reads (replayCancelUpload env now c)"
  "reads (replayPurge env now c)"
  unfolding requireRecordedResource_def readUploadParts_def replayMaterial_def replayBeginUpload_def
    replayCompleteUpload_def replayCreateMaterialVersion_def replayCancelUpload_def replayPurge_def
  by (intro reads_intros)+

section \<open>Every method is a claim and at most one write\<close>

text \<open>
  Rules that walk a method in its order: argument checks keep the state, the claim changes receipts
  only, and after the statement nothing is written.
\<close>

named_theorems call_intros \<open>weakest preconditions along a method of the library\<close>

lemma call_lift [call_intros]:
  "(\<And>a. r = Inr a \<Longrightarrow> sm_wp (f a) Q E s) \<Longrightarrow> (\<And>e. E e s) \<Longrightarrow> sm_wp (sm_bind (sm_lift r) f) Q E s"
  by (simp add: wp_simps split: sum.split)

lemma call_require [call_intros]:
  "(b \<Longrightarrow> sm_wp (f ()) Q E s) \<Longrightarrow> E e s \<Longrightarrow> sm_wp (sm_bind (sm_require b e) f) Q E s"
  by (simp add: wp_simps)

lemma call_group [call_intros]:
  "(a = g \<Longrightarrow> sm_wp (f ()) Q E s) \<Longrightarrow> (\<And>e. E e s) \<Longrightarrow> sm_wp (sm_bind (assertAuthenticatedGroup a g) f) Q E s"
  by (simp add: assertAuthenticatedGroup_def wp_simps)

lemma call_claim [call_intros]:
  "(\<And>r t. receiptsOnly (requestReceipt env scope mutation) s t \<Longrightarrow> sm_wp (f r) Q E t) \<Longrightarrow> (\<And>e. E e s) \<Longrightarrow>
   sm_wp (sm_bind (claim env scope mutation now fs) f) Q E s"
  by (simp add: wp_simps claim_wp)

lemma call_uuid [call_intros]:
  "(\<And>u. le_uuid env i = Some u \<Longrightarrow> sm_wp (f u) Q E s) \<Longrightarrow> (\<And>e. E e s) \<Longrightarrow> sm_wp (sm_bind (bindUuid env i) f) Q E s"
  by (simp add: bindUuid_def wp_simps split: option.split)

lemma call_get [call_intros]: "sm_wp (f s) Q E s \<Longrightarrow> sm_wp (sm_bind (sm_get id) f) Q E s"
  by (simp add: wp_simps)

lemma call_if [call_intros]:
  "(b \<Longrightarrow> sm_wp m Q E s) \<Longrightarrow> (\<not> b \<Longrightarrow> sm_wp n Q E s) \<Longrightarrow> sm_wp (if b then m else n) Q E s"
  by simp

lemma call_Let [call_intros]: "sm_wp (f a) Q E s \<Longrightarrow> sm_wp (let x = a in f x) Q E s"
  by simp

text \<open>What the checks establish.\<close>

lemma requireContentHash_pattern: "requireContentHash v = Inr h \<Longrightarrow> contentHashPattern h"
  by (simp add: requireContentHash_def Let_def split: if_splits)

lemma requireByteSize_pos: "requireByteSize v = Inr n \<Longrightarrow> 0 < n"
  by (simp add: requireByteSize_def split: if_splits)

lemma reads_answers [reads_intros]:
  "reads (readBegun env p s)"
  "reads (readCompleted env d now v vm s)"
  "reads (readVersioned env p m s)"
  "reads (assertEditor b)"
  unfolding readBegun_def readCompleted_def readVersioned_def assertEditor_def Let_def
  by (cases vm; auto intro!: reads_intros simp del: split_paired_All)+

lemma beginStatement_effect:
  assumes "receiptsOnly key s s'" and "prepared p" and "pp_groupId p = g" and "pp_deviceId p = d"
  shows "effect env key A g d s (snd (beginStatement env p receipt s'))"
proof (cases "bindSizes env p")
  case (Inl e)
  then show ?thesis using assms(1) by (simp add: beginStatement_def effect_claim)
next
  case (Inr u)
  show ?thesis
  proof (cases "activeEditor receipt g d s'")
    case True
    then show ?thesis
      using Inr assms by (cases "beginRows env p receipt s'")
        (auto simp: beginStatement_def intro: effect_claim effect_write[OF assms(1)] write_begin)
  next
    case False
    with Inr assms show ?thesis by (simp add: beginStatement_def effect_claim)
  qed
qed

lemma completeStatement_effect:
  assumes "receiptsOnly key s s'"
  shows "effect env key A g d s (snd (completeStatement g d now uid vid h parts receipt s'))"
proof (cases "verifiedMaterial receipt g d uid h s'")
  case None
  with assms show ?thesis by (simp add: completeStatement_def effect_claim)
next
  case (Some vm)
  then show ?thesis
    using assms by (cases "completeRows d now uid vid parts receipt vm s'")
      (auto simp: completeStatement_def intro: effect_claim effect_write[OF assms] write_complete)
qed

lemma cancelStatement_effect:
  assumes "receiptsOnly key s s'"
  shows "effect env key A g d s (snd (cancelStatement g d now uid receipt s'))"
  using assms
  by (auto simp: cancelStatement_def split: option.split intro: effect_claim effect_write[OF assms] write_cancel)

lemma versionStatement_effect:
  assumes "receiptsOnly key s s'" and "prepared p" and "pp_groupId p = g" and "pp_deviceId p = d" and "A (pp_materialId p)"
  shows "effect env key A g d s (snd (versionStatement env p receipt s'))"
proof (cases "bindSizes env p")
  case (Inl e)
  then show ?thesis using assms(1) by (simp add: versionStatement_def effect_claim)
next
  case (Inr u)
  show ?thesis
  proof (cases "eligibleMaterial receipt g d (pp_materialId p) s'")
    case None
    with Inr assms show ?thesis by (simp add: versionStatement_def effect_claim)
  next
    case (Some m)
    then show ?thesis
      using Inr assms by (cases "versionRows env p receipt m s'")
        (auto simp: versionStatement_def intro: effect_claim effect_write[OF assms(1)] write_version)
  qed
qed

text \<open>After the statement only reads follow.\<close>

lemma call_statement:
  assumes "P (snd (m s))" and "\<And>a. reads (f a)"
  shows "sm_wp (sm_bind m f) (\<lambda>_. P) (\<lambda>_. P) s"
proof (cases "m s")
  case (Pair r t)
  then show ?thesis
    using assms by (cases r) (auto simp: sm_wp_def sm_bind_def reads_def split: prod.split sum.split, (metis snd_conv)+)
qed

lemma beginChecks_prepared:
  assumes "beginChecks env g newId input = Inr k"
  shows "bc_groupId k = g" and "contentHashPattern (bc_contentHash k)" and "0 < bc_totalSize k"
  using assms requireContentHash_pattern requireByteSize_pos
  by (auto simp: beginChecks_def split: sum.splits if_splits)

lemma beginUpload_effect:
  "effect env (requestReceipt env BEGIN_MATERIAL_UPLOAD mutation) A g d s (snd (beginUpload env g d now later newId uploadId versionId input mutation s))"
  unfolding sm_wp_state[symmetric] beginUpload_def
  by (intro call_intros effect_claim receiptsOnly_refl call_statement beginStatement_effect reads_intros reads_wp;
      assumption?)
     (simp_all add: prepared_def beginParams_def beginChecks_prepared)

lemma completeUpload_effect:
  "effect env (requestReceipt env COMPLETE_MATERIAL_UPLOAD mutation) A g d s (snd (completeUpload env g d now later versionId uploadId contentHash parts mutation s))"
  unfolding sm_wp_state[symmetric] completeUpload_def
  by (intro call_intros effect_claim receiptsOnly_refl call_statement completeStatement_effect
        reads_intros reads_wp; assumption?)

lemma cancelUpload_effect:
  "effect env (requestReceipt env CANCEL_MATERIAL_UPLOAD mutation) A g d s (snd (cancelUpload env g d now later uploadId mutation s))"
  unfolding sm_wp_state[symmetric] cancelUpload_def
  by (intro call_intros effect_claim receiptsOnly_refl call_statement cancelStatement_effect
        reads_intros reads_wp; assumption?)

lemma requireIdentifier_trims: "requireIdentifier v f = Inr i \<Longrightarrow> i = js_trim v"
  by (simp add: requireIdentifier_def Let_def split: if_splits)

lemma createMaterialVersion_effect:
  assumes "\<And>i. le_uuid env (js_trim (vi_materialId input)) = Some i \<Longrightarrow> A i"
  shows "effect env (requestReceipt env CREATE_MATERIAL_VERSION mutation) A g d s (snd (createMaterialVersion env g d now later uploadId versionId input mutation s))"
  unfolding sm_wp_state[symmetric] createMaterialVersion_def
  by (intro call_intros effect_claim receiptsOnly_refl
        call_statement versionStatement_effect reads_intros reads_wp; assumption?)
     (auto simp: prepared_def requireContentHash_pattern requireByteSize_pos intro: assms dest: requireIdentifier_trims)

text \<open>A statement written as an optional update of the tables.\<close>

lemma optional_write_effect:
  assumes "receiptsOnly key s s'" and "\<And>x. target = Some x \<Longrightarrow> lib_write env A g d s' (f x s')"
  shows "effect env key A g d s (snd ((case target of None \<Rightarrow> sm_return () | Some x \<Rightarrow> sm_modify (f x)) s'))"
  using assms by (cases target) (auto simp: monad_defs intro: effect_claim effect_write)

lemma attachStorageUploadId_effect:
  "effect env None A g d s (snd (attachStorageUploadId env g d now uploadId storageUploadId s))"
  unfolding sm_wp_state[symmetric] attachStorageUploadId_def
  by (intro call_intros effect_claim receiptsOnly_refl call_statement optional_write_effect
        reads_intros reads_wp; assumption?)
     (auto intro: write_attach split: option.splits if_splits)

lemma reads_readMutated [reads_intros]: "reads (readMutatedMaterial env g d later c i msg f s)"
  unfolding readMutatedMaterial_def by (intro reads_intros)

lemma updateMaterialMetadata_effect:
  "effect env (requestReceipt env UPDATE_MATERIAL_METADATA mutation) A g d s (snd (updateMaterialMetadata env g d now later input mutation s))"
  unfolding sm_wp_state[symmetric] updateMaterialMetadata_def
  by (intro call_intros effect_claim receiptsOnly_refl call_statement optional_write_effect
        reads_intros reads_wp; assumption?)
     (auto intro: write_update)

lemma setTrashState_effect:
  "effect env (requestReceipt env (if trashing then TRASH_MATERIAL else RESTORE_MATERIAL) mutation) A g d s (snd (setTrashState env g d now later groupId materialId trashing mutation s))"
  unfolding sm_wp_state[symmetric] setTrashState_def
  by (intro call_intros effect_claim receiptsOnly_refl call_statement optional_write_effect
        reads_intros reads_wp; assumption?)
     (auto intro: write_trash)

lemma purgeMaterial_effect:
  "effect env (requestReceipt env PURGE_MATERIAL mutation) A g d s (snd (purgeMaterial env g d now later groupId materialId confirmation mutation s))"
  unfolding sm_wp_state[symmetric] purgeMaterial_def
  by (intro call_intros effect_claim receiptsOnly_refl call_statement optional_write_effect
        reads_intros reads_wp; assumption?)
     (auto intro: write_purge)

section \<open>Calls\<close>

text \<open>The mutating calls, with the device that makes them, the instants they read and the identifiers they draw.\<close>

datatype lib_call =
    BeginUpload string string string begin_input
  | CompleteUpload string string string "completed_part_input list"
  | CancelUpload string
  | AttachStorageUploadId string string
  | CreateMaterialVersion string string version_input
  | UpdateMaterialMetadata metadata_input
  | MoveToTrash string string
  | RestoreMaterial string string
  | PurgeMaterial string string string

record caller =
  ca_groupId :: string
  ca_deviceId :: string
  ca_now :: int
  ca_resolvedAt :: int
  ca_mutation :: "string option option"

fun runCall :: "lib_env \<Rightarrow> caller \<Rightarrow> lib_call \<Rightarrow> library_db \<Rightarrow> library_db" where
  "runCall env c (BeginUpload newMaterialId uploadId versionId input) s =
     snd (beginUpload env (ca_groupId c) (ca_deviceId c) (ca_now c) (ca_resolvedAt c) newMaterialId uploadId
       versionId input (ca_mutation c) s)"
| "runCall env c (CompleteUpload versionId uploadId contentHash parts) s =
     snd (completeUpload env (ca_groupId c) (ca_deviceId c) (ca_now c) (ca_resolvedAt c) versionId uploadId
       contentHash parts (ca_mutation c) s)"
| "runCall env c (CancelUpload uploadId) s =
     snd (cancelUpload env (ca_groupId c) (ca_deviceId c) (ca_now c) (ca_resolvedAt c) uploadId (ca_mutation c) s)"
| "runCall env c (AttachStorageUploadId uploadId storageUploadId) s =
     snd (attachStorageUploadId env (ca_groupId c) (ca_deviceId c) (ca_now c) uploadId storageUploadId s)"
| "runCall env c (CreateMaterialVersion uploadId versionId input) s =
     snd (createMaterialVersion env (ca_groupId c) (ca_deviceId c) (ca_now c) (ca_resolvedAt c) uploadId versionId
       input (ca_mutation c) s)"
| "runCall env c (UpdateMaterialMetadata input) s =
     snd (updateMaterialMetadata env (ca_groupId c) (ca_deviceId c) (ca_now c) (ca_resolvedAt c) input
       (ca_mutation c) s)"
| "runCall env c (MoveToTrash groupId materialId) s =
     snd (moveToTrash env (ca_groupId c) (ca_deviceId c) (ca_now c) (ca_resolvedAt c) groupId materialId
       (ca_mutation c) s)"
| "runCall env c (RestoreMaterial groupId materialId) s =
     snd (restoreMaterial env (ca_groupId c) (ca_deviceId c) (ca_now c) (ca_resolvedAt c) groupId materialId
       (ca_mutation c) s)"
| "runCall env c (PurgeMaterial groupId materialId confirmation) s =
     snd (purgeMaterial env (ca_groupId c) (ca_deviceId c) (ca_now c) (ca_resolvedAt c) groupId materialId
       confirmation (ca_mutation c) s)"

text \<open>The material a call may give a new version.\<close>

fun admitted :: "lib_env \<Rightarrow> lib_call \<Rightarrow> string \<Rightarrow> bool" where
  "admitted env (CreateMaterialVersion uploadId versionId input) i \<longleftrightarrow>
     le_uuid env (js_trim (vi_materialId input)) = Some i"
| "admitted env _ i \<longleftrightarrow> False"

text \<open>The receipt a call may claim; \<open>attachStorageUploadId\<close> takes no request identifier.\<close>

fun callReceipt :: "lib_env \<Rightarrow> caller \<Rightarrow> lib_call \<Rightarrow> (mutation_scope \<times> string) option" where
  "callReceipt env c (BeginUpload _ _ _ _) = requestReceipt env BEGIN_MATERIAL_UPLOAD (ca_mutation c)"
| "callReceipt env c (CompleteUpload _ _ _ _) = requestReceipt env COMPLETE_MATERIAL_UPLOAD (ca_mutation c)"
| "callReceipt env c (CancelUpload _) = requestReceipt env CANCEL_MATERIAL_UPLOAD (ca_mutation c)"
| "callReceipt env c (AttachStorageUploadId _ _) = None"
| "callReceipt env c (CreateMaterialVersion _ _ _) = requestReceipt env CREATE_MATERIAL_VERSION (ca_mutation c)"
| "callReceipt env c (UpdateMaterialMetadata _) = requestReceipt env UPDATE_MATERIAL_METADATA (ca_mutation c)"
| "callReceipt env c (MoveToTrash _ _) = requestReceipt env TRASH_MATERIAL (ca_mutation c)"
| "callReceipt env c (RestoreMaterial _ _) = requestReceipt env RESTORE_MATERIAL (ca_mutation c)"
| "callReceipt env c (PurgeMaterial _ _ _) = requestReceipt env PURGE_MATERIAL (ca_mutation c)"

lemma runCall_effect:
  "effect env (callReceipt env c call) (admitted env call) (ca_groupId c) (ca_deviceId c) s (runCall env c call s)"
  using setTrashState_effect[where trashing = True, simplified] setTrashState_effect[where trashing = False, simplified]
  by (cases call)
     (simp_all add: beginUpload_effect completeUpload_effect cancelUpload_effect attachStorageUploadId_effect
       createMaterialVersion_effect updateMaterialMetadata_effect moveToTrash_def restoreMaterial_def
       setTrashState_effect purgeMaterial_effect)

lemma lib_write_authorized: "lib_write env A g d s t \<Longrightarrow> actorAuthorized g d (lb_shared s)"
  by (induction rule: lib_write.induct)
     (auto simp: activeEditor_def verifiedMaterial_def completableSession_def lockedSession_def lockedMaterial_def
       eligibleMaterial_def trashEligible_def purgeable_def split: if_splits option.splits bind_splits)

text \<open>
  C13: Only an active editor changes the library. Whatever the call, its arguments and its request
  identifier, if the caller's device holds no unrevoked editor or administrator membership of the group,
  or its own status is revoked, every table is as it was, but for at most one receipt: the receipt of
  this call's scope and request identifier, if it carries one and that receipt was not completed, may be
  claimed, and is not completed.
\<close>

theorem only_editors_change_the_library:
  assumes "(\<forall>m \<in> set (db_memberships (lb_shared s)).
        mr_groupId m = ca_groupId c \<and> mr_deviceId m = ca_deviceId c \<longrightarrow>
        mr_revokedAt m \<noteq> None \<or> mr_role m \<notin> {EDITOR, ADMIN}) \<or>
      js_get (db_deviceStatus (lb_shared s)) (ca_deviceId c) \<in> {None, Some REVOKED}"
  shows "receiptsOnly (callReceipt env c call) s (runCall env c call s)"
proof -
  have no: "\<not> actorAuthorized (ca_groupId c) (ca_deviceId c) (lb_shared s)"
    using assms by (auto simp: actorAuthorized_def list_ex_iff)
  obtain s' where s': "receiptsOnly (callReceipt env c call) s s'"
    and t: "runCall env c call s = s' \<or> lib_write env (admitted env call) (ca_groupId c) (ca_deviceId c) s' (runCall env c call s)"
    using runCall_effect[of env c call s] unfolding effect_def by blast
  have "\<not> actorAuthorized (ca_groupId c) (ca_deviceId c) (lb_shared s')"
    using no s' by (auto elim!: receiptsOnlyE simp: actorAuthorized_def)
  with t s' lib_write_authorized show ?thesis by metis
qed

definition demoLibEnv :: lib_env where
  "demoLibEnv = \<lparr>le_events = \<lparr>ee_toBinary = (\<lambda>_. []), ee_fromBinary = (\<lambda>_. Inl driverError), ee_bigint = SqlBigint,
       ee_bytea = SqlBytes, ee_foreignKeyError = driverError, ee_hashReceipt = (\<lambda>s. s), ee_receiptLifetimeMs = 1000, ee_historyLimit = 10\<rparr>,
     le_receipts = True, le_uuid = (\<lambda>i. if js_trim i = [] then None else Some (js_trim i)), le_jsonb = (\<lambda>e. e), le_collate = codeUnitCompare,
     le_uploadChunkSize = 10, le_uploadConcurrency = 4, le_uploadSessionLifetimeMs = 100\<rparr>"

definition emptyLibrary :: "event_db \<Rightarrow> library_db" where
  "emptyLibrary shared = \<lparr>lb_shared = shared, lb_receiptColumns = [], lb_objects = [], lb_materials = [],
     lb_versions = [], lb_sessions = [], lb_parts = [], lb_tags = [], lb_links = []\<rparr>"

definition demoShared :: "device_role \<Rightarrow> event_db" where
  "demoShared role = \<lparr>db_groups = [''g''], db_sequences = [], db_events = [], db_snapshots = [],
     db_memberships = [\<lparr>mr_groupId = ''g'', mr_deviceId = ''d'', mr_role = role, mr_revokedAt = None\<rparr>],
     db_deviceStatus = [(''d'', ONLINE)], db_receipts = []\<rparr>"

definition demoCaller :: caller where
  "demoCaller = \<lparr>ca_groupId = ''g'', ca_deviceId = ''d'', ca_now = 5, ca_resolvedAt = 6, ca_mutation = None\<rparr>"

theorem only_editors_change_the_library_witness:
  "receiptsOnly (Some (TRASH_MATERIAL, ee_hashReceipt (le_events demoLibEnv) (encodeRequestIdPayload TRASH_MATERIAL ''r'')))
     (emptyLibrary (demoShared VIEWER))
     (runCall demoLibEnv (demoCaller\<lparr>ca_mutation := Some (Some ''r'')\<rparr>) (MoveToTrash ''g'' ''m'')
       (emptyLibrary (demoShared VIEWER)))"
proof -
  let ?c = "demoCaller\<lparr>ca_mutation := Some (Some ''r'')\<rparr>"
  have "normalizeRequestId (Some ''r'') = Inr (Some ''r'')" by code_simp
  then have key: "callReceipt demoLibEnv ?c (MoveToTrash ''g'' ''m'') =
      Some (TRASH_MATERIAL, ee_hashReceipt (le_events demoLibEnv) (encodeRequestIdPayload TRASH_MATERIAL ''r''))"
    by (simp add: requestReceipt_def)
  have "receiptsOnly (callReceipt demoLibEnv ?c (MoveToTrash ''g'' ''m'')) (emptyLibrary (demoShared VIEWER))
      (runCall demoLibEnv ?c (MoveToTrash ''g'' ''m'') (emptyLibrary (demoShared VIEWER)))"
    by (rule only_editors_change_the_library) (simp add: emptyLibrary_def demoShared_def)
  then show ?thesis unfolding key .
qed

end
