(* ===== verification/Material_Invariant.thy ===== *)
theory Material_Invariant
  imports Material_Steps
begin

text \<open>
  The invariant of the material library, over the writes of \<open>Material_Steps\<close>. The schema does not relate
  \<open>materials.current_version_id\<close> to \<open>material_versions\<close>; the invariant does: a material's current version
  exists and is one of its own, a version belongs to an existing material and carries a sequence number its
  revision has reached, no two versions of a material share a number, and a session names a material and
  a version that exist and belong together.
\<close>

section \<open>The tables as maps\<close>

lemma map_of_insert: "js_get m k = None \<Longrightarrow> map_of (m @ [(k, v)]) = (map_of m)(k \<mapsto> v)"
  by (simp add: map_add_def fun_eq_iff split: option.split)

lemma map_of_js_set: "map_of (js_set k v m) = (map_of m)(k \<mapsto> v)"
  by (rule update_conv')

lemma distinct_insert: "distinct (map fst m) \<Longrightarrow> js_get m k = None \<Longrightarrow> distinct (map fst (m @ [(k, v)]))"
  by (auto simp: map_of_eq_None_iff)

lemma js_get_values: "distinct (map fst m) \<Longrightarrow> v \<in> set (js_values m) \<longleftrightarrow> (\<exists>k. js_get m k = Some v)"
  by (auto simp: image_iff) (metis map_of_SomeD snd_conv)

text \<open>A receipt is completed without touching the library's tables.\<close>

lemma completedReceipt_tables [simp]:
  "lb_objects (completedReceipt c g i r now s) = lb_objects s"
  "lb_materials (completedReceipt c g i r now s) = lb_materials s"
  "lb_versions (completedReceipt c g i r now s) = lb_versions s"
  "lb_sessions (completedReceipt c g i r now s) = lb_sessions s"
  "lb_parts (completedReceipt c g i r now s) = lb_parts s"
  "lb_tags (completedReceipt c g i r now s) = lb_tags s"
  "lb_links (completedReceipt c g i r now s) = lb_links s"
  by (simp_all add: completedReceipt_def Let_def split: option.split)

section \<open>The invariant\<close>

type_synonym materials_map = "string \<rightharpoonup> lib_material"
type_synonym versions_map = "string \<rightharpoonup> lib_version"
type_synonym sessions_map = "string \<rightharpoonup> upload_session"

definition materialsOk :: "materials_map \<Rightarrow> versions_map \<Rightarrow> bool" where
  "materialsOk M V \<longleftrightarrow> (\<forall>i m. M i = Some m \<longrightarrow> 1 \<le> lm_revision m \<and>
     (\<forall>vid. lm_currentVersionId m = Some vid \<longrightarrow> (\<exists>v. V vid = Some v \<and> lv_materialId v = i)))"

definition versionsOk :: "materials_map \<Rightarrow> versions_map \<Rightarrow> bool" where
  "versionsOk M V \<longleftrightarrow> (\<forall>i v. V i = Some v \<longrightarrow>
     (\<exists>m. M (lv_materialId v) = Some m \<and> 1 \<le> lv_sequence v \<and> lv_sequence v \<le> lm_revision m))"

definition sequencesOk :: "versions_map \<Rightarrow> bool" where
  "sequencesOk V \<longleftrightarrow> (\<forall>i j v w. V i = Some v \<longrightarrow> V j = Some w \<longrightarrow> lv_materialId v = lv_materialId w \<longrightarrow>
     lv_sequence v = lv_sequence w \<longrightarrow> i = j)"

definition sessionOk :: "materials_map \<Rightarrow> versions_map \<Rightarrow> upload_session \<Rightarrow> bool" where
  "sessionOk M V u \<longleftrightarrow>
     (\<forall>i. us_materialId u = Some i \<longrightarrow> (\<exists>m. M i = Some m \<and> lm_groupId m = us_groupId u)) \<and>
     (\<forall>i. us_versionId u = Some i \<longrightarrow> (\<exists>v. V i = Some v \<and> us_materialId u = Some (lv_materialId v)))"

definition sessionsOk :: "materials_map \<Rightarrow> versions_map \<Rightarrow> sessions_map \<Rightarrow> bool" where
  "sessionsOk M V S \<longleftrightarrow> (\<forall>i u. S i = Some u \<longrightarrow> sessionOk M V u)"

definition objectsOk :: "(string \<times> string \<rightharpoonup> object_row) \<Rightarrow> bool" where
  "objectsOk B \<longleftrightarrow> (\<forall>g h ob. B (g, h) = Some ob \<longrightarrow> 1 \<le> ob_referenceCount ob \<and> ob_storageKey ob = storageKeyFor g h)"

definition library_wf :: "library_db \<Rightarrow> bool" where
  "library_wf s \<longleftrightarrow>
     distinct (map fst (lb_objects s)) \<and> distinct (map fst (lb_materials s)) \<and>
     distinct (map fst (lb_versions s)) \<and> distinct (map fst (lb_sessions s)) \<and>
     materialsOk (map_of (lb_materials s)) (map_of (lb_versions s)) \<and>
     versionsOk (map_of (lb_materials s)) (map_of (lb_versions s)) \<and>
     sequencesOk (map_of (lb_versions s)) \<and>
     sessionsOk (map_of (lb_materials s)) (map_of (lb_versions s)) (map_of (lb_sessions s)) \<and>
     objectsOk (map_of (lb_objects s))"

lemma library_wf_tables:
  assumes "lb_objects t = lb_objects s" "lb_materials t = lb_materials s" "lb_versions t = lb_versions s"
    "lb_sessions t = lb_sessions s"
  shows "library_wf t = library_wf s"
  using assms by (simp add: library_wf_def)

lemma library_wf_receiptsOnly: "receiptsOnly key s t \<Longrightarrow> library_wf t = library_wf s"
  by (rule library_wf_tables) (auto elim!: receiptsOnlyE)

lemma library_wf_completedReceipt [simp]: "library_wf (completedReceipt c g i r now s) = library_wf s"
  by (rule library_wf_tables) simp_all

subsection \<open>One table at a time\<close>

lemma materialsOk_set:
  assumes "materialsOk M V" and "1 \<le> lm_revision m"
    and "\<And>vid. lm_currentVersionId m = Some vid \<Longrightarrow> \<exists>v. V vid = Some v \<and> lv_materialId v = i"
  shows "materialsOk (M(i \<mapsto> m)) V"
  using assms by (simp add: materialsOk_def)

lemma materialsOk_version: "materialsOk M V \<Longrightarrow> V vid = None \<Longrightarrow> materialsOk M (V(vid \<mapsto> v))"
  unfolding materialsOk_def by (metis fun_upd_other option.distinct(1))

lemma versionsOk_set:
  assumes "versionsOk M V" and "\<And>m'. M i = Some m' \<Longrightarrow> lm_revision m' \<le> lm_revision m"
  shows "versionsOk (M(i \<mapsto> m)) V"
  unfolding versionsOk_def
proof (intro allI impI)
  fix k v assume "V k = Some v"
  then obtain n where n: "M (lv_materialId v) = Some n" "1 \<le> lv_sequence v" "lv_sequence v \<le> lm_revision n"
    using assms(1) unfolding versionsOk_def by blast
  show "\<exists>m'. (M(i \<mapsto> m)) (lv_materialId v) = Some m' \<and> 1 \<le> lv_sequence v \<and> lv_sequence v \<le> lm_revision m'"
    using n assms(2)[of n] by (cases "lv_materialId v = i") auto
qed

lemma versionsOk_version:
  assumes "versionsOk M V" and "M (lv_materialId v) = Some m" and "1 \<le> lv_sequence v" and "lv_sequence v \<le> lm_revision m"
  shows "versionsOk M (V(vid \<mapsto> v))"
  using assms by (simp add: versionsOk_def)

lemma sequencesOk_version:
  assumes "sequencesOk V"
    and "\<And>i w. V i = Some w \<Longrightarrow> lv_materialId w = lv_materialId v \<Longrightarrow> lv_sequence w \<noteq> lv_sequence v"
  shows "sequencesOk (V(vid \<mapsto> v))"
  unfolding sequencesOk_def
proof (intro allI impI)
  fix i j x y
  assume *: "(V(vid \<mapsto> v)) i = Some x" "(V(vid \<mapsto> v)) j = Some y" "lv_materialId x = lv_materialId y"
    "lv_sequence x = lv_sequence y"
  show "i = j"
  proof (cases "i = vid \<or> j = vid")
    case True
    then show ?thesis using * assms(2)[of i x] assms(2)[of j y] by (auto split: if_splits)
  next
    case False
    then show ?thesis using * assms(1) unfolding sequencesOk_def by simp
  qed
qed

lemma sessionOk_material:
  assumes "sessionOk M V u" and "\<And>m'. M i = Some m' \<Longrightarrow> lm_groupId m' = lm_groupId m"
  shows "sessionOk (M(i \<mapsto> m)) V u"
  using assms by (auto simp: sessionOk_def)

lemma sessionOk_version: "sessionOk M V u \<Longrightarrow> V vid = None \<Longrightarrow> sessionOk M (V(vid \<mapsto> v)) u"
  by (auto simp: sessionOk_def)

lemma sessionsOk_material:
  assumes "sessionsOk M V S" and "\<And>m'. M i = Some m' \<Longrightarrow> lm_groupId m' = lm_groupId m"
  shows "sessionsOk (M(i \<mapsto> m)) V S"
  using assms sessionOk_material unfolding sessionsOk_def by metis

lemma sessionsOk_version: "sessionsOk M V S \<Longrightarrow> V vid = None \<Longrightarrow> sessionsOk M (V(vid \<mapsto> v)) S"
  using sessionOk_version unfolding sessionsOk_def by metis

lemma sessionsOk_session: "sessionsOk M V S \<Longrightarrow> sessionOk M V u \<Longrightarrow> sessionsOk M V (S(uid \<mapsto> u))"
  by (simp add: sessionsOk_def)

lemma claimObject_ok:
  assumes "claimObject g h n key now s = Inr objects" and "key = storageKeyFor g h"
    and "objectsOk (map_of (lb_objects s))" and "distinct (map fst (lb_objects s))"
  shows "objectsOk (map_of objects) \<and> distinct (map fst objects)"
proof (cases "js_get (lb_objects s) (g, h)")
  case None
  then have "objects = lb_objects s @ [((g, h),
      \<lparr>ob_byteSize = n, ob_storageKey = key, ob_referenceCount = 1, ob_createdAt = now\<rparr>)]"
    using assms(1) by (simp add: claimObject_def split: if_splits)
  moreover have "distinct (map fst objects)"
    unfolding calculation by (rule distinct_insert[OF assms(4) None])
  moreover have "map_of objects = (map_of (lb_objects s))((g, h) \<mapsto>
      \<lparr>ob_byteSize = n, ob_storageKey = key, ob_referenceCount = 1, ob_createdAt = now\<rparr>)"
    unfolding calculation(1) by (rule map_of_insert[OF None])
  ultimately show ?thesis using assms(2,3) by (simp add: objectsOk_def)
next
  case (Some ob)
  then have "objects = js_set (g, h) (ob\<lparr>ob_referenceCount := ob_referenceCount ob + 1\<rparr>) (lb_objects s)"
    using assms(1) by (simp add: claimObject_def split: if_splits)
  moreover have "1 \<le> ob_referenceCount ob" "ob_storageKey ob = storageKeyFor g h"
    using Some assms(3) unfolding objectsOk_def by blast+
  ultimately show ?thesis using assms(3,4) by (simp add: map_of_js_set objectsOk_def)
qed

subsection \<open>Every write keeps it\<close>

text \<open>The parts of the invariant, to take apart and to put together.\<close>

lemma library_wfD:
  assumes "library_wf s"
  shows "distinct (map fst (lb_objects s))" and "distinct (map fst (lb_materials s))"
    and "distinct (map fst (lb_versions s))" and "distinct (map fst (lb_sessions s))"
    and "materialsOk (map_of (lb_materials s)) (map_of (lb_versions s))"
    and "versionsOk (map_of (lb_materials s)) (map_of (lb_versions s))"
    and "sequencesOk (map_of (lb_versions s))"
    and "sessionsOk (map_of (lb_materials s)) (map_of (lb_versions s)) (map_of (lb_sessions s))"
    and "objectsOk (map_of (lb_objects s))"
  using assms by (simp_all add: library_wf_def)

lemma fresh_material_unused:
  assumes "library_wf s" and "js_get (lb_materials s) i = None"
  shows "js_get (lb_versions s) vid = Some v \<Longrightarrow> lv_materialId v \<noteq> i"
    and "js_get (lb_sessions s) uid = Some u \<Longrightarrow> us_materialId u \<noteq> Some i"
  using library_wfD(6)[OF assms(1)] library_wfD(8)[OF assms(1)] assms(2)
  unfolding versionsOk_def sessionsOk_def sessionOk_def by force+

lemma newMaterial_simps [simp]:
  "lm_groupId (newMaterial env p x) = pp_groupId p" "lm_revision (newMaterial env p x) = 1"
  "lm_contentHash (newMaterial env p x) = pp_contentHash p"
  "lm_currentVersionId (newMaterial env p x) = (if x \<noteq> None then Some (pp_versionId p) else None)"
  by (simp_all add: newMaterial_def)

lemma newVersion_simps [simp]:
  "lv_materialId (newVersion p m) = pp_materialId p" "lv_sequence (newVersion p m) = lm_revision m"
  "lv_contentHash (newVersion p m) = lm_contentHash m"
  by (simp_all add: newVersion_def)

lemma newSession_simps [simp]:
  "us_groupId (newSession env p v st n) = pp_groupId p" "us_materialId (newSession env p v st n) = Some (pp_materialId p)"
  "us_versionId (newSession env p v st n) = v" "us_state (newSession env p v st n) = st"
  by (simp_all add: newSession_def)

text \<open>What a successful statement of \<open>beginUpload\<close> wrote.\<close>

lemma beginRows_cases:
  assumes "beginRows env p receipt s = Inr t"
  obtains existing objects where "existing = js_get (lb_objects s) (pp_groupId p, pp_contentHash p)"
    and "claimObject (pp_groupId p) (pp_contentHash p) (pp_totalSize p) (pp_storageKey p) (pp_now p) s = Inr objects"
    and "js_get (lb_materials s) (pp_materialId p) = None"
    and "existing \<noteq> None \<Longrightarrow> js_get (lb_versions s) (pp_versionId p) = None"
    and "js_get (lb_sessions s) (pp_uploadId p) = None"
    and "lb_objects t = objects"
    and "lb_materials t = lb_materials s @ [(pp_materialId p, newMaterial env p existing)]"
    and "lb_versions t = lb_versions s @
      (if existing \<noteq> None then [(pp_versionId p, newVersion p (newMaterial env p existing))] else [])"
    and "lb_sessions t = lb_sessions s @ [(pp_uploadId p,
      if existing \<noteq> None then newSession env p (Some (pp_versionId p)) COMPLETED (pp_totalSize p)
      else newSession env p None PENDING 0)]"
  using assms unfolding beginRows_def Let_def
  by (cases "js_get (lb_objects s) (pp_groupId p, pp_contentHash p)")
     (auto split: sum.splits if_splits)

lemma begin_keeps:
  assumes wf: "library_wf s" and "prepared p" and "beginRows env p receipt s = Inr t"
  shows "library_wf t"
  using assms(3)
proof (rule beginRows_cases)
  fix existing objects
  let ?M = "map_of (lb_materials s)" and ?V = "map_of (lb_versions s)" and ?S = "map_of (lb_sessions s)"
    and ?i = "pp_materialId p" and ?m = "newMaterial env p existing" and ?v = "pp_versionId p"
  assume claimed: "claimObject (pp_groupId p) (pp_contentHash p) (pp_totalSize p) (pp_storageKey p) (pp_now p) s
      = Inr objects"
    and M: "?M ?i = None" and V: "existing \<noteq> None \<Longrightarrow> ?V ?v = None" and S: "?S (pp_uploadId p) = None"
    and t: "lb_objects t = objects" "lb_materials t = lb_materials s @ [(?i, ?m)]"
      "lb_versions t = lb_versions s @ (if existing \<noteq> None then [(?v, newVersion p ?m)] else [])"
      "lb_sessions t = lb_sessions s @ [(pp_uploadId p,
        if existing \<noteq> None then newSession env p (Some ?v) COMPLETED (pp_totalSize p)
        else newSession env p None PENDING 0)]"
  let ?u = "if existing \<noteq> None then newSession env p (Some ?v) COMPLETED (pp_totalSize p)
        else newSession env p None PENDING 0"
  let ?V' = "if existing \<noteq> None then ?V(?v \<mapsto> newVersion p ?m) else ?V"
  note wf = library_wfD[OF wf] and unused = fresh_material_unused[OF assms(1) M]
  have "map_of (lb_versions t) = ?V'"
    unfolding t by (cases "existing = None") (simp_all add: map_of_insert V del: map_of_append)
  then have maps: "map_of (lb_materials t) = ?M(?i \<mapsto> ?m)" "map_of (lb_versions t) = ?V'"
    "map_of (lb_sessions t) = ?S(pp_uploadId p \<mapsto> ?u)"
    unfolding t by (simp_all only: map_of_insert M S)
  have keys: "distinct (map fst (lb_materials t))" "distinct (map fst (lb_versions t))" "distinct (map fst (lb_sessions t))"
    unfolding t using M V S wf(2-4) by (auto simp: map_of_eq_None_iff)
  have objs: "objectsOk (map_of objects) \<and> distinct (map fst objects)"
    using claimObject_ok[OF claimed] assms(2) wf by (simp add: prepared_def)
  have "materialsOk ?M ?V'" using materialsOk_version[OF wf(5)] V wf(5) by simp
  then have 1: "materialsOk (?M(?i \<mapsto> ?m)) ?V'"
    by (rule materialsOk_set) (auto split: if_splits)
  have "versionsOk (?M(?i \<mapsto> ?m)) ?V" using wf(6) M by (intro versionsOk_set) auto
  then have 2: "versionsOk (?M(?i \<mapsto> ?m)) ?V'" by (auto intro!: versionsOk_version)
  have 3: "sequencesOk ?V'" using wf(7) unused(1) by (auto intro!: sequencesOk_version)
  have "sessionsOk (?M(?i \<mapsto> ?m)) ?V ?S" using wf(8) M by (intro sessionsOk_material) auto
  then have "sessionsOk (?M(?i \<mapsto> ?m)) ?V' ?S" using V sessionsOk_version by auto
  then have 4: "sessionsOk (?M(?i \<mapsto> ?m)) ?V' (?S(pp_uploadId p \<mapsto> ?u))"
    by (rule sessionsOk_session) (auto simp: sessionOk_def)
  show ?thesis unfolding library_wf_def maps t(1) using keys objs 1 2 3 4 by blast
qed

text \<open>A material changed in place, and a session changed in place.\<close>

lemma material_set_keeps:
  assumes wf: "library_wf s" and m: "js_get (lb_materials s) i = Some m"
    and "lm_groupId m' = lm_groupId m" and "lm_revision m \<le> lm_revision m'"
    and cur: "lm_currentVersionId m' = lm_currentVersionId m \<or>
      (\<exists>vid v. lm_currentVersionId m' = Some vid \<and> js_get (lb_versions s) vid = Some v \<and> lv_materialId v = i)"
  shows "library_wf (s\<lparr>lb_materials := js_set i m' (lb_materials s)\<rparr>)"
proof -
  note D = library_wfD[OF wf]
  have "1 \<le> lm_revision m" "\<And>vid. lm_currentVersionId m = Some vid \<Longrightarrow>
      \<exists>v. js_get (lb_versions s) vid = Some v \<and> lv_materialId v = i"
    using D(5) m unfolding materialsOk_def by blast+
  then have 1: "materialsOk ((map_of (lb_materials s))(i \<mapsto> m')) (map_of (lb_versions s))"
    using D(5) assms(4) cur by (intro materialsOk_set) auto
  have 2: "versionsOk ((map_of (lb_materials s))(i \<mapsto> m')) (map_of (lb_versions s))"
    using D(6) m assms(4) by (intro versionsOk_set) auto
  have 3: "sessionsOk ((map_of (lb_materials s))(i \<mapsto> m')) (map_of (lb_versions s)) (map_of (lb_sessions s))"
    using D(8) m assms(3) by (intro sessionsOk_material) auto
  show ?thesis using D 1 2 3 by (simp add: library_wf_def map_of_js_set)
qed

lemma session_set_keeps:
  assumes wf: "library_wf s" and u: "js_get (lb_sessions s) i = Some u"
    and "us_groupId u' = us_groupId u" "us_materialId u' = us_materialId u" "us_versionId u' = us_versionId u"
  shows "library_wf (s\<lparr>lb_sessions := js_set i u' (lb_sessions s)\<rparr>)"
proof -
  note D = library_wfD[OF wf]
  have "sessionOk (map_of (lb_materials s)) (map_of (lb_versions s)) u"
    using D(8) u unfolding sessionsOk_def by blast
  then have "sessionOk (map_of (lb_materials s)) (map_of (lb_versions s)) u'"
    using assms(3-5) by (simp add: sessionOk_def)
  then have "sessionsOk (map_of (lb_materials s)) (map_of (lb_versions s)) ((map_of (lb_sessions s))(i \<mapsto> u'))"
    by (rule sessionsOk_session[OF D(8)])
  then show ?thesis using D by (simp add: library_wf_def map_of_js_set)
qed

text \<open>The guards name rows that exist.\<close>

lemma lockedMaterialD: "lockedMaterial receipt g d i s = Some m \<Longrightarrow> js_get (lb_materials s) i = Some m \<and> lm_groupId m = g"
  by (auto simp: lockedMaterial_def split: if_splits option.splits)

lemma lockedSessionD: "lockedSession receipt g d i s = Some u \<Longrightarrow> js_get (lb_sessions s) i = Some u \<and> us_groupId u = g"
  by (auto simp: lockedSession_def split: if_splits option.splits)

lemma eligibleMaterialD:
  "eligibleMaterial receipt g d i s = Some m \<Longrightarrow>
   js_get (lb_materials s) i = Some m \<and> lm_groupId m = g \<and> lm_trashedAt m = None"
  using lockedMaterialD by (auto simp: eligibleMaterial_def split: if_splits bind_splits)

lemma verifiedMaterialD:
  assumes "verifiedMaterial receipt g d uid h s = Some (u, i, m)"
  shows "js_get (lb_sessions s) uid = Some u" and "us_groupId u = g" and "us_state u \<in> openStates"
    and "us_materialId u = Some i" and "js_get (lb_materials s) i = Some m" and "lm_contentHash m = h"
  using assms lockedSessionD
  by (fastforce simp: verifiedMaterial_def completableSession_def split: if_splits bind_splits)+

lemma no_conflictD:
  assumes "\<not> versionConflict vid v s" and "library_wf s"
  shows "js_get (lb_versions s) vid = None"
    and "js_get (lb_versions s) i = Some w \<Longrightarrow> lv_materialId w = lv_materialId v \<Longrightarrow> lv_sequence w \<noteq> lv_sequence v"
  using assms js_get_values[OF library_wfD(3)[OF assms(2)], of w]
  by (auto simp: versionConflict_def list_ex_iff)

text \<open>A material whose current version becomes the one just inserted.\<close>

lemma version_insert_keeps:
  assumes wf: "library_wf s" and m: "js_get (lb_materials s) i = Some m"
    and m': "lm_groupId m' = lm_groupId m" "lm_revision m' = lm_revision m + 1" "lm_currentVersionId m' = Some vid"
    and v: "lv_materialId v = i" "lv_sequence v = lm_revision m + 1" and fresh: "\<not> versionConflict vid v s"
  shows "library_wf (s\<lparr>lb_materials := js_set i m' (lb_materials s), lb_versions := lb_versions s @ [(vid, v)]\<rparr>)"
proof -
  let ?M = "map_of (lb_materials s)" and ?V = "map_of (lb_versions s)" and ?S = "map_of (lb_sessions s)"
  note D = library_wfD[OF wf]
  have V: "?V vid = None" using no_conflictD(1)[OF fresh wf] .
  have rev: "1 \<le> lm_revision m" using D(5) m unfolding materialsOk_def by blast
  have "materialsOk ?M (?V(vid \<mapsto> v))" using D(5) V by (rule materialsOk_version)
  then have 1: "materialsOk (?M(i \<mapsto> m')) (?V(vid \<mapsto> v))" using rev m' v by (intro materialsOk_set) auto
  have "versionsOk (?M(i \<mapsto> m')) ?V" using D(6) m m'(2) by (intro versionsOk_set) auto
  then have 2: "versionsOk (?M(i \<mapsto> m')) (?V(vid \<mapsto> v))"
    by (rule versionsOk_version[where m = m']) (use v m' rev in auto)
  have 3: "sequencesOk (?V(vid \<mapsto> v))" using D(7) no_conflictD(2)[OF fresh wf] by (rule sequencesOk_version)
  have "sessionsOk ?M (?V(vid \<mapsto> v)) ?S" using D(8) V by (rule sessionsOk_version)
  then have 4: "sessionsOk (?M(i \<mapsto> m')) (?V(vid \<mapsto> v)) ?S" using m m'(1) by (intro sessionsOk_material) auto
  show ?thesis
    using D 1 2 3 4 distinct_insert[OF D(3) V] by (simp add: library_wf_def map_of_js_set map_of_insert[OF V] del: map_of_append)
qed

text \<open>A session that names a material and a version of it.\<close>

lemma session_put_keeps:
  assumes wf: "library_wf s" and "js_get (lb_materials s) i = Some m" and "js_get (lb_versions s) vid = Some v"
    and "lv_materialId v = i" and "us_groupId u = lm_groupId m" "us_materialId u = Some i" "us_versionId u = Some vid"
  shows "library_wf (s\<lparr>lb_sessions := js_set uid u (lb_sessions s)\<rparr>)"
proof -
  note D = library_wfD[OF wf]
  have "sessionOk (map_of (lb_materials s)) (map_of (lb_versions s)) u" using assms by (simp add: sessionOk_def)
  then have "sessionsOk (map_of (lb_materials s)) (map_of (lb_versions s)) ((map_of (lb_sessions s))(uid \<mapsto> u))"
    by (rule sessionsOk_session[OF D(8)])
  then show ?thesis using D by (simp add: library_wf_def map_of_js_set)
qed

lemma js_set_new: "js_get m k = None \<Longrightarrow> js_set k v m = m @ [(k, v)]"
  by (induction m) (auto split: if_splits)

lemma complete_keeps:
  assumes wf: "library_wf s" and ver: "verifiedMaterial receipt g d uid h s = Some vm"
    and rows: "completeRows d now uid vid parts receipt vm s = Inr t"
  shows "library_wf t"
proof -
  obtain u i m where vm: "vm = (u, i, m)" by (cases vm)
  note D = verifiedMaterialD[OF ver[unfolded vm]]
  let ?vid = "nullish (us_versionId u) vid"
  let ?m' = "completedMaterial ?vid now m" and ?v = "completedVersion d now u i m"
  let ?u' = "u\<lparr>us_state := COMPLETED, us_receivedSize := us_totalSize u, us_versionId := Some ?vid, us_updatedAt := now\<rparr>"
  have m': "lm_groupId ?m' = lm_groupId m" "lm_revision ?m' = lm_revision m + 1" "lm_currentVersionId ?m' = Some ?vid"
    and v: "lv_materialId ?v = i" "lv_sequence ?v = lm_revision m + 1"
    by (simp_all add: completedMaterial_def completedVersion_def)
  have sok: "sessionOk (map_of (lb_materials s)) (map_of (lb_versions s)) u"
    using library_wfD(8)[OF wf] D(1) unfolding sessionsOk_def by blast
  have grp: "us_groupId u = lm_groupId m" using sok D(4,5) by (auto simp: sessionOk_def)
  show ?thesis
  proof (cases "us_versionId u")
    case None
    then have fresh: "\<not> versionConflict vid ?v s"
      and tabs: "lb_objects t = lb_objects s" "lb_materials t = js_set i ?m' (lb_materials s)"
        "lb_versions t = lb_versions s @ [(vid, ?v)]" "lb_sessions t = js_set uid ?u' (lb_sessions s)"
      using rows by (auto simp: completeRows_def vm Let_def nullish_def split: if_splits)
    let ?s1 = "s\<lparr>lb_materials := js_set i ?m' (lb_materials s), lb_versions := lb_versions s @ [(vid, ?v)]\<rparr>"
    have nv: "?vid = vid" using None by (simp add: nullish_def)
    have w1: "library_wf ?s1"
      by (rule version_insert_keeps[OF wf D(5)]) (use m' v fresh nv in auto)
    have gv: "js_get (lb_versions ?s1) vid = Some ?v"
      using no_conflictD(1)[OF fresh wf] by (simp add: map_add_def)
    have "library_wf (?s1\<lparr>lb_sessions := js_set uid ?u' (lb_sessions ?s1)\<rparr>)"
      by (rule session_put_keeps[OF w1 _ gv, where i = i and m = ?m'])
         (use m' v D grp nv in \<open>auto simp: map_of_js_set\<close>)
    then show ?thesis by (rule iffD1[OF library_wf_tables, rotated -1]) (simp_all add: tabs)
  next
    case (Some w)
    then have nv: "?vid = w" by (simp add: nullish_def)
    have tabs: "lb_objects t = lb_objects s" "lb_materials t = js_set i ?m' (lb_materials s)"
        "lb_versions t = lb_versions s" "lb_sessions t = js_set uid ?u' (lb_sessions s)"
      using rows Some by (auto simp: completeRows_def vm Let_def nullish_def split: if_splits)
    obtain x where x: "js_get (lb_versions s) w = Some x" "lv_materialId x = i"
      using sok Some D(4) by (auto simp: sessionOk_def)
    let ?s1 = "s\<lparr>lb_materials := js_set i ?m' (lb_materials s)\<rparr>"
    have "library_wf ?s1" by (rule material_set_keeps[OF wf D(5)]) (use m' x nv in auto)
    then have "library_wf (?s1\<lparr>lb_sessions := js_set uid ?u' (lb_sessions ?s1)\<rparr>)"
      by (rule session_put_keeps[where i = i and m = ?m' and v = x])
         (use m' x D grp nv in \<open>auto simp: map_of_js_set\<close>)
    then show ?thesis by (rule iffD1[OF library_wf_tables, rotated -1]) (simp_all add: tabs)
  qed
qed

lemma version_keeps:
  assumes wf: "library_wf s" and el: "eligibleMaterial receipt g d (pp_materialId p) s = Some m"
    and pr: "prepared p" "pp_groupId p = g" and rows: "versionRows env p receipt m s = Inr t"
  shows "library_wf t"
proof -
  note D = eligibleMaterialD[OF el]
  let ?i = "pp_materialId p" and ?m' = "versionedMaterial p m" and ?v = "newVersion p (versionedMaterial p m)"
  let ?u = "newSession env p (Some (pp_versionId p)) PENDING 0"
  have m': "lm_groupId ?m' = lm_groupId m" "lm_revision ?m' = lm_revision m + 1"
    "lm_currentVersionId ?m' = Some (pp_versionId p)" by (simp_all add: versionedMaterial_def)
  obtain objects where ob: "claimObject (lm_groupId m) (pp_contentHash p) (pp_totalSize p) (pp_storageKey p) (pp_now p) s
      = Inr objects"
    and fresh: "\<not> versionConflict (pp_versionId p) ?v s" and S: "js_get (lb_sessions s) (pp_uploadId p) = None"
    and tabs: "lb_objects t = objects" "lb_materials t = js_set ?i ?m' (lb_materials s)"
      "lb_versions t = lb_versions s @ [(pp_versionId p, ?v)]"
      "lb_sessions t = lb_sessions s @ [(pp_uploadId p, ?u)]"
    using rows by (auto simp: versionRows_def Let_def split: sum.splits if_splits)
  let ?s1 = "s\<lparr>lb_materials := js_set ?i ?m' (lb_materials s), lb_versions := lb_versions s @ [(pp_versionId p, ?v)]\<rparr>"
  let ?s2 = "?s1\<lparr>lb_sessions := js_set (pp_uploadId p) ?u (lb_sessions ?s1)\<rparr>"
  have w1: "library_wf ?s1" by (rule version_insert_keeps[OF wf]) (use D m' fresh in auto)
  have gv: "js_get (lb_versions ?s1) (pp_versionId p) = Some ?v"
    using no_conflictD(1)[OF fresh wf] by (simp add: map_add_def)
  have s2: "library_wf ?s2"
    by (rule session_put_keeps[OF w1 _ gv, where i = ?i and m = ?m']) (use m' D pr in \<open>auto simp: map_of_js_set\<close>)
  have "objectsOk (map_of objects) \<and> distinct (map fst objects)"
    using claimObject_ok[OF ob] pr D library_wfD(1,9)[OF wf] by (simp add: prepared_def)
  then have "library_wf (?s2\<lparr>lb_objects := objects\<rparr>)" using library_wfD[OF s2] by (simp add: library_wf_def)
  then show ?thesis by (rule iffD1[OF library_wf_tables, rotated -1]) (simp_all add: tabs js_set_new[OF S])
qed

text \<open>A purge: rows filtered out of keyed tables.\<close>

lemma map_of_filter:
  "distinct (map fst m) \<Longrightarrow> map_of (filter (\<lambda>(k, v). P v) m) k = (case map_of m k of None \<Rightarrow> None | Some v \<Rightarrow> if P v then Some v else None)"
proof (induction m)
  case (Cons a m)
  then show ?case by (cases a) (auto simp: map_of_eq_None_iff dest: map_of_SomeD split: option.splits)
qed simp

lemma map_filter_Cons: "List.map_filter f (x # xs) = (case f x of None \<Rightarrow> List.map_filter f xs | Some y \<Rightarrow> y # List.map_filter f xs)"
  by (simp add: List.map_filter_def split: option.split)

lemma map_filter_keys:
  assumes "\<And>k v y. f (k, v) = Some y \<Longrightarrow> fst y = k"
  shows "set (map fst (List.map_filter f m)) \<subseteq> set (map fst m)"
    and "distinct (map fst m) \<Longrightarrow> distinct (map fst (List.map_filter f m))"
proof -
  show 1: "set (map fst (List.map_filter f m)) \<subseteq> set (map fst m)" for m
    using assms by (induction m) (auto simp: map_filter_Cons List.map_filter_def split: option.splits)
  show "distinct (map fst m) \<Longrightarrow> distinct (map fst (List.map_filter f m))"
  proof (induction m)
    case (Cons a m)
    show ?case
    proof (cases "f a")
      case None
      then show ?thesis using Cons by (simp add: map_filter_Cons)
    next
      case (Some y)
      then have "fst y = fst a" using assms[of "fst a" "snd a" y] by simp
      then show ?thesis using Cons Some 1[of m] by (auto simp: map_filter_Cons)
    qed
  qed (simp add: List.map_filter_def)
qed

lemma map_of_map_filter:
  assumes "\<And>k v y. f (k, v) = Some y \<Longrightarrow> fst y = k" and "distinct (map fst m)"
  shows "map_of (List.map_filter f m) k = Option.bind (map_of m k) (\<lambda>v. map_option snd (f (k, v)))"
  using assms(2)
proof (induction m)
  case (Cons a m)
  obtain i v where a: "a = (i, v)" by (cases a)
  show ?case
  proof (cases "f a")
    case None
    have "map_of m i = None" using Cons.prems a by (simp add: map_of_eq_None_iff)
    then show ?thesis using Cons None a by (auto simp: map_filter_Cons)
  next
    case (Some y)
    then have "fst y = i" using assms(1) a by blast
    then show ?thesis using Cons Some a by (cases y) (auto simp: map_filter_Cons)
  qed
qed (simp add: List.map_filter_def)

lemma releaseObject_key: "releaseObject i m vs (k, ob) = Some y \<Longrightarrow> fst y = k"
  by (cases k) (auto simp: releaseObject_def Let_def split: if_splits)

lemma releaseObject_row:
  "releaseObject i m vs (k, ob) = Some (k', ob') \<Longrightarrow> 1 \<le> ob_referenceCount ob \<Longrightarrow>
   1 \<le> ob_referenceCount ob' \<and> ob_storageKey ob' = ob_storageKey ob"
  by (cases k) (auto simp: releaseObject_def Let_def split: if_splits)

lemma forgetMaterial_simps [simp]:
  "us_groupId (forgetMaterial i vs u) = us_groupId u" "us_state (forgetMaterial i vs u) = us_state u"
  "us_materialId (forgetMaterial i vs u) = (if us_materialId u = Some i then None else us_materialId u)"
  by (simp_all add: forgetMaterial_def)

lemma purge_keeps:
  assumes wf: "library_wf s" and "purgeable receipt g d i s = Some m"
  shows "library_wf (purgeRows i m now receipt s)"
proof -
  let ?M = "map_of (lb_materials s)" and ?V = "map_of (lb_versions s)" and ?S = "map_of (lb_sessions s)"
  let ?M' = "?M(i := None)"
    and ?V' = "\<lambda>k. case ?V k of None \<Rightarrow> None | Some v \<Rightarrow> if lv_materialId v \<noteq> i then Some v else None"
    and ?S' = "\<lambda>k. map_option (forgetMaterial i (lb_versions s)) (?S k)"
  let ?O' = "List.map_filter (releaseObject i m (lb_versions s)) (lb_objects s)"
  note D = library_wfD[OF wf]
  have 1: "materialsOk ?M' ?V'" unfolding materialsOk_def
  proof (intro allI impI)
    fix j n assume "?M' j = Some n"
    then have "?M j = Some n" "j \<noteq> i" by (auto split: if_splits)
    then have "1 \<le> lm_revision n" and "\<And>vid. lm_currentVersionId n = Some vid \<Longrightarrow> \<exists>v. ?V vid = Some v \<and> lv_materialId v = j"
      using D(5) unfolding materialsOk_def by blast+
    then show "1 \<le> lm_revision n \<and>
        (\<forall>vid. lm_currentVersionId n = Some vid \<longrightarrow> (\<exists>v. ?V' vid = Some v \<and> lv_materialId v = j))"
      using \<open>j \<noteq> i\<close> by (fastforce split: option.split)
  qed
  have 2: "versionsOk ?M' ?V'" using D(6) unfolding versionsOk_def by (auto split: option.splits if_splits)
  have 3: "sequencesOk ?V'" using D(7) unfolding sequencesOk_def by (auto split: option.splits if_splits)
  have 4: "sessionsOk ?M' ?V' ?S'" unfolding sessionsOk_def
  proof (intro allI impI)
    fix k u' assume "?S' k = Some u'"
    then obtain u where u: "?S k = Some u" "u' = forgetMaterial i (lb_versions s) u" by auto
    then have ok: "sessionOk ?M ?V u" using D(8) unfolding sessionsOk_def by blast
    show "sessionOk ?M' ?V' u'" unfolding sessionOk_def
    proof (intro conjI allI impI)
      fix j assume "us_materialId u' = Some j"
      then show "\<exists>n. ?M' j = Some n \<and> lm_groupId n = us_groupId u'"
        using ok u(2) by (auto simp: sessionOk_def split: if_splits)
    next
      fix j assume "us_versionId u' = Some j"
      then have j: "us_versionId u = Some j" "\<And>v. ?V j = Some v \<Longrightarrow> lv_materialId v \<noteq> i"
        using u(2) by (auto simp: forgetMaterial_def split: bind_splits option.splits if_splits)
      obtain v where "?V j = Some v" "us_materialId u = Some (lv_materialId v)"
        using ok j(1) by (auto simp: sessionOk_def)
      then show "\<exists>v. ?V' j = Some v \<and> us_materialId u' = Some (lv_materialId v)"
        using j(2)[of v] u(2) by simp
    qed
  qed
  have 5: "objectsOk (map_of ?O')" unfolding objectsOk_def
  proof (intro allI impI)
    fix a h ob' assume "map_of ?O' (a, h) = Some ob'"
    then obtain ob where "map_of (lb_objects s) (a, h) = Some ob"
      and "releaseObject i m (lb_versions s) ((a, h), ob) = Some ((a, h), ob')"
      using releaseObject_key
      by (fastforce simp: map_of_map_filter[where f = "releaseObject i m (lb_versions s)", OF releaseObject_key D(1)]
          split: bind_splits)
    then show "1 \<le> ob_referenceCount ob' \<and> ob_storageKey ob' = storageKeyFor a h"
      using D(9) releaseObject_row unfolding objectsOk_def by metis
  qed
  have keys: "distinct (map fst ?O')" by (rule map_filter_keys(2)[OF releaseObject_key D(1)])
  have dv: "distinct (map fst (filter (\<lambda>(j, v). lv_materialId v \<noteq> i) (lb_versions s)))"
    using D(3) by (rule distinct_map_filter)
  have maps: "map_of (js_delete i (lb_materials s)) = ?M'"
    "map_of (filter (\<lambda>(j, v). lv_materialId v \<noteq> i) (lb_versions s)) = ?V'"
    "map_of (js_map_values (forgetMaterial i (lb_versions s)) (lb_sessions s)) = ?S'"
    by (simp_all add: fun_eq_iff js_get_delete js_get_map_values map_of_filter[OF D(3), of "\<lambda>v. lv_materialId v \<noteq> i"])
  show ?thesis
    using D 1 2 3 4 5 keys dv unfolding purgeRows_def
    by (simp add: library_wf_def maps del: map_of_filter)
qed

lemma lib_write_keeps: "lib_write env A g d s t \<Longrightarrow> library_wf s \<Longrightarrow> library_wf t"
proof (induction rule: lib_write.induct)
  case (write_begin receipt s p t)
  then show ?case using begin_keeps by blast
next
  case (write_complete receipt uid s h vm now vid parts t)
  then show ?case using complete_keeps by blast
next
  case (write_cancel receipt uid s u t now)
  then show ?case using session_set_keeps[OF _ conjunct1[OF lockedSessionD]] by simp
next
  case (write_attach uid s u t remote now)
  then show ?case using session_set_keeps[OF _ conjunct1[OF lockedSessionD]] by simp
next
  case (write_version receipt p s m t)
  then show ?case using version_keeps by blast
next
  case (write_update receipt i s m t name category metadata now tags)
  then have "library_wf (s\<lparr>lb_materials := js_set i (describedMaterial env name category metadata now m) (lb_materials s)\<rparr>)"
    by (intro material_set_keeps[OF _ conjunct1[OF lockedMaterialD]]) (auto simp: describedMaterial_def)
  then show ?case
    using write_update by (auto simp: updateRows_def elim!: iffD1[OF library_wf_tables, rotated -1])
next
  case (write_trash receipt i trashing s m t now)
  then have "lockedMaterial receipt g d i s = Some m" by (auto simp: trashEligible_def split: bind_splits if_splits)
  then show ?case using write_trash
    by (auto simp: trashRows_def trashedMaterial_def intro!: material_set_keeps[OF _ conjunct1[OF lockedMaterialD]])
next
  case (write_purge receipt i s m t now)
  then show ?case using purge_keeps by blast
qed

section \<open>Reachable libraries\<close>

text \<open>
  A library grows from empty tables by calls of the store, of any caller with any arguments, and by what
  other services write to the tables they share with it.
\<close>

inductive library_step :: "lib_env \<Rightarrow> library_db \<Rightarrow> library_db \<Rightarrow> bool" for env where
  step_call: "library_step env s (runCall env c call s)"
| step_shared: "library_step env s (s\<lparr>lb_shared := x\<rparr>)"

lemma runCall_keeps:
  assumes "library_wf s" shows "library_wf (runCall env c call s)"
proof -
  obtain s' where s': "receiptsOnly (callReceipt env c call) s s'" and "runCall env c call s = s' \<or>
      lib_write env (admitted env call) (ca_groupId c) (ca_deviceId c) s' (runCall env c call s)"
    using runCall_effect[of env c call s] unfolding effect_def by blast
  then show ?thesis using library_wf_receiptsOnly[OF s'] assms lib_write_keeps by metis
qed

interpretation library: invariant_system "\<lambda>s. \<exists>x. s = emptyLibrary x" "library_step env" library_wf for env
proof unfold_locales
  show "library_wf s" if "\<exists>x. s = emptyLibrary x" for s
    using that by (auto simp: library_wf_def emptyLibrary_def materialsOk_def versionsOk_def sequencesOk_def
      sessionsOk_def objectsOk_def)
  show "library_wf t" if "library_wf s" "library_step env s t" for s t
    using that(2,1)
  proof cases
    case (step_call c call)
    then show ?thesis using that(1) runCall_keeps by simp
  next
    case (step_shared x)
    then show ?thesis using that(1) by (simp add: library_wf_def)
  qed
qed

end
