(* ===== verification/Material_References.thy ===== *)
theory Material_References
  imports Material_Invariant
begin

text \<open>
  Reference counts. \<open>material_objects.reference_count\<close> stands between a purge and bytes another material
  needs. What a material holds of a content is what its purge releases (\<open>heldReferences\<close>): a reference a
  version, or one for a first upload that no version accounts for yet. The count covers the holders as long
  as a material receives no new version while its first upload is open, and then every version's bytes stay
  locatable; without that discipline a purge can drop an object that another material's version names.
\<close>

section \<open>Sums over keyed tables\<close>

lemma sum_js_set:
  fixes F :: "'k \<times> 'v \<Rightarrow> int"
  assumes "js_get m k = Some v" and "distinct (map fst m)"
  shows "sum_list (map F (js_set k v' m)) = sum_list (map F m) - F (k, v) + F (k, v')"
  using assms
proof (induction m)
  case (Cons a m)
  obtain i w where a: "a = (i, w)" by (cases a)
  show ?case
  proof (cases "i = k")
    case True
    then show ?thesis using Cons.prems a by simp
  next
    case False
    then have "sum_list (map F (js_set k v' m)) = sum_list (map F m) - F (k, v) + F (k, v')"
      using Cons a by auto
    then show ?thesis using False a by simp
  qed
qed simp

lemma js_delete_absent: "js_get m k = None \<Longrightarrow> js_delete k m = m"
  by (simp add: map_of_eq_None_iff delete_id)

lemma sum_js_delete:
  fixes F :: "'k \<times> 'v \<Rightarrow> int"
  assumes "js_get m k = Some v" and "distinct (map fst m)"
  shows "sum_list (map F (js_delete k m)) = sum_list (map F m) - F (k, v)"
  using assms
proof (induction m)
  case (Cons a m)
  obtain i w where a: "a = (i, w)" by (cases a)
  show ?case
  proof (cases "i = k")
    case True
    then have "js_get m k = None" using Cons.prems(2) a by (simp add: map_of_eq_None_iff)
    then show ?thesis using True Cons.prems a by (simp add: js_delete_absent)
  next
    case False
    then show ?thesis using Cons a by auto
  qed
qed simp

section \<open>What a count has to cover\<close>

definition refCount :: "library_db \<Rightarrow> string \<Rightarrow> string \<Rightarrow> int" where
  "refCount s g h = (case js_get (lb_objects s) (g, h) of None \<Rightarrow> 0 | Some ob \<Rightarrow> ob_referenceCount ob)"

definition materialHolds :: "string \<Rightarrow> string \<Rightarrow> (string, lib_version) jsmap \<Rightarrow> string \<times> lib_material \<Rightarrow> int" where
  "materialHolds g h versions = (\<lambda>(i, m). if lm_groupId m = g then int (heldReferences i m h versions) else 0)"

definition holders :: "library_db \<Rightarrow> string \<Rightarrow> string \<Rightarrow> int" where
  "holders s g h = sum_list (map (materialHolds g h (lb_versions s)) (lb_materials s))"

definition covered :: "library_db \<Rightarrow> bool" where
  "covered s \<longleftrightarrow> (\<forall>g h. holders s g h \<le> refCount s g h)"

text \<open>An open upload that has no version yet: the first upload of its material.\<close>

definition firstUpload :: "library_db \<Rightarrow> string \<Rightarrow> string \<Rightarrow> bool" where
  "firstUpload s uid i \<longleftrightarrow> (\<exists>u. js_get (lb_sessions s) uid = Some u \<and> us_state u \<in> openStates \<and>
     us_versionId u = None \<and> us_materialId u = Some i)"

text \<open>A first upload is the only one of its material, which has no version.\<close>

definition firstUploadsOk :: "library_db \<Rightarrow> bool" where
  "firstUploadsOk s \<longleftrightarrow> (\<forall>uid i. firstUpload s uid i \<longrightarrow>
     (\<forall>vid v. js_get (lb_versions s) vid = Some v \<longrightarrow> lv_materialId v \<noteq> i) \<and>
     (\<forall>uid'. firstUpload s uid' i \<longrightarrow> uid' = uid))"

lemma held_other: "lv_materialId v \<noteq> i \<Longrightarrow> heldReferences i m h (versions @ [(vid, v)]) = heldReferences i m h versions"
  by (simp add: heldReferences_def versionsHolding_def)

lemma versionsHolding_insert:
  "versionsHolding i h (versions @ [(vid, v)]) =
     versionsHolding i h versions + (if lv_materialId v = i \<and> lv_contentHash v = h then 1 else 0)"
  by (simp add: versionsHolding_def)

lemma versionsHolding_none:
  assumes "\<And>vid v. js_get versions vid = Some v \<Longrightarrow> lv_materialId v \<noteq> i" and "distinct (map fst versions)"
  shows "versionsHolding i h versions = 0"
proof -
  have "\<forall>v \<in> set (js_values versions). lv_materialId v \<noteq> i"
    using assms(1) js_get_values[OF assms(2)] by blast
  then show ?thesis unfolding versionsHolding_def by (simp add: filter_empty_conv)
qed

lemma materialHolds_cong:
  "lm_groupId m' = lm_groupId m \<Longrightarrow> lm_contentHash m' = lm_contentHash m \<Longrightarrow>
   materialHolds g h versions (i, m') = materialHolds g h versions (i, m)"
  by (simp add: materialHolds_def heldReferences_def)

lemma holders_insert_version:
  assumes "js_get ms i = Some m" and "distinct (map fst ms)" and "lv_materialId v = i"
  shows "sum_list (map (materialHolds g h (versions @ [(vid, v)])) ms) =
    sum_list (map (materialHolds g h versions) ms) - materialHolds g h versions (i, m)
      + materialHolds g h (versions @ [(vid, v)]) (i, m)"
  using assms
proof (induction ms)
  case (Cons a ms)
  obtain j n where a: "a = (j, n)" by (cases a)
  show ?case
  proof (cases "j = i")
    case True
    then have "\<forall>b \<in> set ms. fst b \<noteq> i" using Cons.prems(2) a by auto
    then have "materialHolds g h (versions @ [(vid, v)]) b = materialHolds g h versions b" if "b \<in> set ms" for b
      using assms(3) that by (cases b) (auto simp: materialHolds_def held_other)
    then have "sum_list (map (materialHolds g h (versions @ [(vid, v)])) ms) = sum_list (map (materialHolds g h versions) ms)"
      by (intro arg_cong[where f = sum_list] map_cong) simp_all
    then show ?thesis using True Cons.prems(1) a by simp
  next
    case False
    then show ?thesis using Cons a assms(3) by (auto simp: materialHolds_def held_other)
  qed
qed simp

lemma claimObject_count:
  assumes "claimObject g h n key now s = Inr objects"
  shows "(case js_get objects (g', h') of None \<Rightarrow> 0 | Some ob \<Rightarrow> ob_referenceCount ob) =
    refCount s g' h' + (if g' = g \<and> h' = h then 1 else 0)"
proof (cases "js_get (lb_objects s) (g, h)")
  case None
  then have "objects = lb_objects s @ [((g, h),
      \<lparr>ob_byteSize = n, ob_storageKey = key, ob_referenceCount = 1, ob_createdAt = now\<rparr>)]"
    using assms by (simp add: claimObject_def split: if_splits)
  then have "map_of objects = (map_of (lb_objects s))((g, h) \<mapsto>
      \<lparr>ob_byteSize = n, ob_storageKey = key, ob_referenceCount = 1, ob_createdAt = now\<rparr>)"
    using map_of_insert[OF None] by metis
  then show ?thesis using None by (auto simp: refCount_def)
next
  case (Some ob)
  then have "objects = js_set (g, h) (ob\<lparr>ob_referenceCount := ob_referenceCount ob + 1\<rparr>) (lb_objects s)"
    using assms by (simp add: claimObject_def split: if_splits)
  then show ?thesis using Some by (auto simp: map_of_js_set refCount_def split: option.split)
qed

section \<open>Every write keeps the count above the holders\<close>

lemma holders_tables:
  "lb_materials t = lb_materials s \<Longrightarrow> lb_versions t = lb_versions s \<Longrightarrow> holders t g h = holders s g h"
  by (simp add: holders_def)

lemma refCount_tables: "lb_objects t = lb_objects s \<Longrightarrow> refCount t g h = refCount s g h"
  by (simp add: refCount_def)

lemma holders_set:
  assumes "js_get (lb_materials s) i = Some m" and "distinct (map fst (lb_materials s))"
    and "lb_materials t = js_set i m' (lb_materials s)" and "lb_versions t = lb_versions s"
    and "lm_groupId m' = lm_groupId m" and "lm_contentHash m' = lm_contentHash m"
  shows "holders t g h = holders s g h"
  using sum_js_set[OF assms(1,2), of "materialHolds g h (lb_versions s)" m'] materialHolds_cong[OF assms(5,6)]
  by (simp add: holders_def assms(3,4))

lemma covered_mono:
  assumes "covered s" and "\<And>g h. holders t g h - refCount t g h \<le> holders s g h - refCount s g h"
  shows "covered t"
  using assms unfolding covered_def by (smt (verit))

lemma firstUploadsOk_mono:
  assumes "firstUploadsOk s" and "lb_versions t = lb_versions s"
    and "\<And>uid i. firstUpload t uid i \<Longrightarrow> firstUpload s uid i"
  shows "firstUploadsOk t"
  using assms unfolding firstUploadsOk_def by metis

lemma firstUpload_set:
  assumes "lb_sessions t = js_set uid u (lb_sessions s)" and "js_get (lb_sessions s) uid = Some u0"
    and "us_state u \<in> openStates \<Longrightarrow> us_versionId u = None \<Longrightarrow>
      us_state u0 \<in> openStates \<and> us_versionId u0 = None \<and> us_materialId u0 = us_materialId u"
    and "firstUpload t k i"
  shows "firstUpload s k i"
  using assms by (auto simp: firstUpload_def map_of_js_set split: if_splits)

lemma newMaterial_holds:
  assumes "versionsHolding i h versions = 0" and "i = pp_materialId p"
  shows "materialHolds g h versions (i, newMaterial env p None) =
      (if g = pp_groupId p \<and> h = pp_contentHash p then 1 else 0)"
    and "materialHolds g h (versions @ [(vid, newVersion p (newMaterial env p x))]) (i, newMaterial env p x) =
      (if g = pp_groupId p \<and> h = pp_contentHash p then 1 else 0)"
  using assms by (auto simp: materialHolds_def heldReferences_def versionsHolding_insert)

lemma begin_covers:
  assumes wf: "library_wf s" and cov: "covered s" and rows: "beginRows env p receipt s = Inr t"
  shows "covered t"
  using rows
proof (rule beginRows_cases)
  fix existing objects
  let ?i = "pp_materialId p" and ?m = "newMaterial env p existing"
  assume cl: "claimObject (pp_groupId p) (pp_contentHash p) (pp_totalSize p) (pp_storageKey p) (pp_now p) s = Inr objects"
    and M: "js_get (lb_materials s) ?i = None" and tO: "lb_objects t = objects"
    and tM: "lb_materials t = lb_materials s @ [(?i, ?m)]"
    and tV: "lb_versions t = lb_versions s @ (if existing \<noteq> None then [(pp_versionId p, newVersion p ?m)] else [])"
  have none: "versionsHolding ?i h (lb_versions s) = 0" for h
    by (rule versionsHolding_none[OF fresh_material_unused(1)[OF wf M] library_wfD(3)[OF wf]])
  have old: "map (materialHolds g h (lb_versions t)) (lb_materials s) = map (materialHolds g h (lb_versions s)) (lb_materials s)"
    for g h
  proof (rule map_cong[OF refl])
    fix b assume "b \<in> set (lb_materials s)"
    then have "fst b \<noteq> ?i" using M by (metis image_eqI map_of_eq_None_iff)
    then show "materialHolds g h (lb_versions t) b = materialHolds g h (lb_versions s) b"
      by (cases b) (simp add: tV materialHolds_def held_other)
  qed
  have new: "materialHolds g h (lb_versions t) (?i, ?m) = (if g = pp_groupId p \<and> h = pp_contentHash p then 1 else 0)" for g h
    using newMaterial_holds[OF none refl] by (cases existing) (simp_all add: tV)
  have "holders t g h = holders s g h + (if g = pp_groupId p \<and> h = pp_contentHash p then 1 else 0)" for g h
    unfolding holders_def tM map_append sum_list.append old by (simp add: new)
  moreover have "refCount t g h = refCount s g h + (if g = pp_groupId p \<and> h = pp_contentHash p then 1 else 0)" for g h
    using claimObject_count[OF cl] by (simp add: refCount_def tO)
  ultimately show ?thesis using cov by (intro covered_mono[OF cov]) simp
qed

lemma begin_firstUploads:
  assumes wf: "library_wf s" and ok: "firstUploadsOk s" and rows: "beginRows env p receipt s = Inr t"
  shows "firstUploadsOk t"
  using rows
proof (rule beginRows_cases)
  fix existing objects
  let ?i = "pp_materialId p" and ?m = "newMaterial env p existing" and ?uid = "pp_uploadId p"
  assume M: "js_get (lb_materials s) ?i = None" and V: "existing \<noteq> None \<Longrightarrow> js_get (lb_versions s) (pp_versionId p) = None"
    and S: "js_get (lb_sessions s) ?uid = None"
    and tV: "lb_versions t = lb_versions s @ (if existing \<noteq> None then [(pp_versionId p, newVersion p ?m)] else [])"
    and tS: "lb_sessions t = lb_sessions s @ [(?uid,
      if existing \<noteq> None then newSession env p (Some (pp_versionId p)) COMPLETED (pp_totalSize p)
      else newSession env p None PENDING 0)]"
  note unused = fresh_material_unused[OF wf M]
  have up: "firstUpload t uid i \<longleftrightarrow> (if uid = ?uid then existing = None \<and> i = ?i else firstUpload s uid i)" for uid i
    using S by (auto simp: firstUpload_def tS map_add_def openStates_def split: option.split)
  have vers: "lv_materialId v \<noteq> i" if "firstUpload s uid i" "js_get (lb_versions t) vid = Some v" for uid i vid v
  proof -
    have "i \<noteq> ?i" using that(1) unused(2) by (auto simp: firstUpload_def)
    moreover have "js_get (lb_versions s) vid = Some v \<or> lv_materialId v = ?i"
      using that(2) V by (auto simp: tV map_add_def split: option.splits if_splits)
    ultimately show ?thesis using ok that(1) unfolding firstUploadsOk_def by blast
  qed
  show ?thesis unfolding firstUploadsOk_def
  proof (intro allI impI conjI)
    fix uid i vid v assume up1: "firstUpload t uid i" and v: "js_get (lb_versions t) vid = Some v"
    show "lv_materialId v \<noteq> i"
    proof (cases "uid = ?uid")
      case True
      then have "existing = None" "i = ?i" using up1 up by simp_all
      then show ?thesis using v unused(1) by (simp add: tV)
    next
      case False
      then show ?thesis using up1 up v vers by simp
    qed
  next
    fix uid i uid' assume two: "firstUpload t uid i" "firstUpload t uid' i"
    have other: "i \<noteq> ?i" if "firstUpload s k i" for k using that unused(2) by (auto simp: firstUpload_def)
    show "uid' = uid"
    proof (cases "uid = ?uid \<or> uid' = ?uid")
      case True
      then show ?thesis using two up other by (metis (full_types))
    next
      case False
      then show ?thesis using two up ok unfolding firstUploadsOk_def by simp
    qed
  qed
qed

lemma complete_covers:
  assumes wf: "library_wf s" and cov: "covered s" and ok: "firstUploadsOk s"
    and ver: "verifiedMaterial receipt g d uid h s = Some vm"
    and rows: "completeRows d now uid vid parts receipt vm s = Inr t"
  shows "covered t \<and> firstUploadsOk t"
proof -
  obtain u i m where vm: "vm = (u, i, m)" by (cases vm)
  note D = verifiedMaterialD[OF ver[unfolded vm]] and dist = library_wfD(2)[OF wf]
  let ?vid = "nullish (us_versionId u) vid"
  let ?m' = "completedMaterial ?vid now m" and ?v = "completedVersion d now u i m"
  let ?u' = "u\<lparr>us_state := COMPLETED, us_receivedSize := us_totalSize u, us_versionId := Some ?vid, us_updatedAt := now\<rparr>"
  let ?vs = "if us_versionId u = None then lb_versions s @ [(vid, ?v)] else lb_versions s"
  have tabs: "lb_objects t = lb_objects s" "lb_materials t = js_set i ?m' (lb_materials s)"
        "lb_versions t = ?vs" "lb_sessions t = js_set uid ?u' (lb_sessions s)"
    using rows by (auto simp: completeRows_def vm Let_def split: if_splits)
  have m': "lm_groupId ?m' = lm_groupId m" "lm_contentHash ?m' = lm_contentHash m"
    and v: "lv_materialId ?v = i" "lv_contentHash ?v = lm_contentHash m"
    by (simp_all add: completedMaterial_def completedVersion_def)
  have ups: "firstUpload s k j" if "firstUpload t k j" for k j
    by (rule firstUpload_set[OF tabs(4) D(1) _ that]) (simp add: openStates_def)
  have notThis: "\<not> firstUpload t uid j" for j by (simp add: firstUpload_def tabs(4) map_of_js_set openStates_def)
  show ?thesis
  proof (cases "us_versionId u")
    case Some
    then have vs: "lb_versions t = lb_versions s" using tabs(3) by simp
    have "holders t a b = holders s a b" for a b by (rule holders_set[OF D(5) dist tabs(2) vs m'])
    then have "covered t" by (intro covered_mono[OF cov]) (simp add: refCount_tables[OF tabs(1)])
    then show ?thesis using firstUploadsOk_mono[OF ok vs ups] by blast
  next
    case None
    then have first: "firstUpload s uid i" using D by (simp add: firstUpload_def)
    then have unv: "js_get (lb_versions s) k = Some w \<Longrightarrow> lv_materialId w \<noteq> i" for k w
      using ok unfolding firstUploadsOk_def by blast
    have none: "versionsHolding i b (lb_versions s) = 0" for b
      by (rule versionsHolding_none[OF unv library_wfD(3)[OF wf]])
    have vs: "lb_versions t = lb_versions s @ [(vid, ?v)]" using tabs(3) None by simp
    let ?t1 = "s\<lparr>lb_versions := lb_versions s @ [(vid, ?v)]\<rparr>"
    have same: "materialHolds a b (lb_versions s @ [(vid, ?v)]) (i, m) = materialHolds a b (lb_versions s) (i, m)" for a b
      using none v by (auto simp: materialHolds_def heldReferences_def versionsHolding_insert)
    have "holders ?t1 a b = holders s a b" for a b
      using holders_insert_version[where ms = "lb_materials s" and versions = "lb_versions s" and vid = vid, OF D(5) dist v(1)]
      by (simp add: holders_def same)
    moreover have "holders t a b = holders ?t1 a b" for a b
      using holders_set[where s = ?t1 and t = t, OF _ _ _ _ m'] D(5) dist tabs(2) vs by simp
    ultimately have "covered t" by (intro covered_mono[OF cov]) (simp add: refCount_tables[OF tabs(1)])
    moreover have "firstUploadsOk t" unfolding firstUploadsOk_def
    proof (intro allI impI conjI)
      fix k j x w assume up: "firstUpload t k j" and x: "js_get (lb_versions t) x = Some w"
      have "j \<noteq> i" using up ups notThis first ok unfolding firstUploadsOk_def by metis
      moreover have "js_get (lb_versions s) x = Some w \<or> w = ?v"
        using x by (auto simp: vs map_add_def split: option.splits if_splits)
      ultimately show "lv_materialId w \<noteq> j" using up ups ok v(1) unfolding firstUploadsOk_def by metis
    next
      fix k j k' assume "firstUpload t k j" "firstUpload t k' j"
      then show "k' = k" using ups ok unfolding firstUploadsOk_def by blast
    qed
    ultimately show ?thesis by blast
  qed
qed

lemma version_covers:
  assumes wf: "library_wf s" and cov: "covered s" and ok: "firstUploadsOk s"
    and el: "eligibleMaterial receipt g d (pp_materialId p) s = Some m"
    and free: "\<And>uid. \<not> firstUpload s uid (pp_materialId p)"
    and rows: "versionRows env p receipt m s = Inr t"
  shows "covered t \<and> firstUploadsOk t"
proof -
  note D = eligibleMaterialD[OF el] and dist = library_wfD(2)[OF wf]
  let ?i = "pp_materialId p" and ?m' = "versionedMaterial p m" and ?v = "newVersion p (versionedMaterial p m)"
    and ?h = "pp_contentHash p"
  let ?u = "newSession env p (Some (pp_versionId p)) PENDING 0"
  let ?vs = "lb_versions s @ [(pp_versionId p, ?v)]"
  obtain objects where cl: "claimObject (lm_groupId m) ?h (pp_totalSize p) (pp_storageKey p) (pp_now p) s = Inr objects"
    and S: "js_get (lb_sessions s) (pp_uploadId p) = None" and fresh: "\<not> versionConflict (pp_versionId p) ?v s"
    and tabs: "lb_objects t = objects" "lb_materials t = js_set ?i ?m' (lb_materials s)"
      "lb_versions t = ?vs" "lb_sessions t = lb_sessions s @ [(pp_uploadId p, ?u)]"
    using rows by (auto simp: versionRows_def Let_def split: sum.splits if_splits)
  have v: "lv_materialId ?v = ?i" "lv_contentHash ?v = ?h" and m': "lm_groupId ?m' = lm_groupId m" "lm_contentHash ?m' = ?h"
    by (simp_all add: versionedMaterial_def)
  have row: "materialHolds a b ?vs (?i, ?m') \<le> materialHolds a b (lb_versions s) (?i, m)
      + (if a = lm_groupId m \<and> b = ?h then 1 else 0)" for a b
    using v m' by (auto simp: materialHolds_def heldReferences_def versionsHolding_insert Let_def)
  have hold: "holders t a b \<le> holders s a b + (if a = lm_groupId m \<and> b = ?h then 1 else 0)" for a b
    using row[of a b] sum_js_set[of "lb_materials s" ?i m "materialHolds a b ?vs" ?m'] D dist
      holders_insert_version[where ms = "lb_materials s" and versions = "lb_versions s" and vid = "pp_versionId p"
        and g = a and h = b and m = m, OF _ dist v(1)]
    by (simp add: holders_def tabs)
  have ref: "refCount t a b = refCount s a b + (if a = lm_groupId m \<and> b = ?h then 1 else 0)" for a b
    using claimObject_count[OF cl] by (simp add: refCount_def tabs)
  have "holders t a b - refCount t a b \<le> holders s a b - refCount s a b" for a b
    using hold[of a b] ref[of a b] by (simp split: if_splits)
  then have "covered t" by (rule covered_mono[OF cov])
  moreover have ups: "firstUpload s k j" if "firstUpload t k j" for k j
    using that S by (auto simp: firstUpload_def tabs(4) map_add_def split: option.splits if_splits)
  have "firstUploadsOk t" unfolding firstUploadsOk_def
  proof (intro allI impI conjI)
    fix k j x w assume up: "firstUpload t k j" and x: "js_get (lb_versions t) x = Some w"
    have "js_get (lb_versions s) x = Some w \<or> w = ?v"
      using x by (auto simp: tabs(3) map_add_def split: option.splits if_splits)
    then show "lv_materialId w \<noteq> j" using ups[OF up] ok free v(1) unfolding firstUploadsOk_def by metis
  next
    fix k j k' assume "firstUpload t k j" "firstUpload t k' j"
    then show "k' = k" using ups ok unfolding firstUploadsOk_def by blast
  qed
  ultimately show ?thesis by blast
qed

lemma held_filter:
  "j \<noteq> i \<Longrightarrow> heldReferences j n h (filter (\<lambda>(k, v). lv_materialId v \<noteq> i) vs) = heldReferences j n h vs"
proof -
  assume "j \<noteq> i"
  then have "versionsHolding j h (filter (\<lambda>(k, v). lv_materialId v \<noteq> i) vs) = versionsHolding j h vs"
    by (induction vs) (auto simp: versionsHolding_def)
  then show ?thesis by (simp add: heldReferences_def)
qed

lemma purge_covers:
  assumes wf: "library_wf s" and cov: "covered s" and ok: "firstUploadsOk s"
    and pu: "purgeable receipt g d i s = Some m"
  shows "covered (purgeRows i m now receipt s) \<and> firstUploadsOk (purgeRows i m now receipt s)"
proof -
  let ?t = "purgeRows i m now receipt s" and ?vs = "filter (\<lambda>(k, v). lv_materialId v \<noteq> i) (lb_versions s)"
    and ?rel = "releaseObject i m (lb_versions s)"
  note dist = library_wfD[OF wf]
  have M: "js_get (lb_materials s) i = Some m"
    using pu lockedMaterialD by (auto simp: purgeable_def split: bind_splits if_splits)
  have tabs: "lb_materials ?t = js_delete i (lb_materials s)" "lb_versions ?t = ?vs"
    "lb_objects ?t = List.map_filter ?rel (lb_objects s)"
    "lb_sessions ?t = js_map_values (forgetMaterial i (lb_versions s)) (lb_sessions s)"
    by (simp_all add: purgeRows_def)
  have "materialHolds a b ?vs row = materialHolds a b (lb_versions s) row" if "row \<in> set (js_delete i (lb_materials s))" for a b row
  proof -
    have "fst row \<noteq> i" using that by (auto simp: AList.delete_eq)
    then show ?thesis by (cases row) (simp add: materialHolds_def held_filter)
  qed
  then have "map (materialHolds a b ?vs) (js_delete i (lb_materials s)) =
      map (materialHolds a b (lb_versions s)) (js_delete i (lb_materials s))" for a b
    by (intro map_cong) simp_all
  then have hold: "holders ?t a b = holders s a b - materialHolds a b (lb_versions s) (i, m)" for a b
    unfolding holders_def tabs using sum_js_delete[OF M dist(2)] by metis
  have ref: "refCount ?t a b \<ge> refCount s a b - materialHolds a b (lb_versions s) (i, m) \<or>
      refCount ?t a b = 0 \<and> refCount s a b \<le> materialHolds a b (lb_versions s) (i, m)" for a b
  proof -
    have look: "js_get (lb_objects ?t) (a, b) = Option.bind (js_get (lb_objects s) (a, b)) (\<lambda>ob. map_option snd (?rel ((a, b), ob)))"
      unfolding tabs by (rule map_of_map_filter[OF releaseObject_key dist(1)])
    show ?thesis
    proof (cases "js_get (lb_objects s) (a, b)")
      case None
      then show ?thesis using look by (simp add: refCount_def materialHolds_def)
    next
      case (Some ob)
      then have "js_get (lb_objects ?t) (a, b) = map_option snd (?rel ((a, b), ob))" using look by simp
      then show ?thesis using Some by (auto simp: refCount_def materialHolds_def releaseObject_def Let_def)
    qed
  qed
  have "holders ?t a b \<le> refCount ?t a b" for a b
    using ref[of a b] hold[of a b] cov unfolding covered_def by (smt (verit))
  then have "covered ?t" by (simp add: covered_def)
  moreover have ups: "firstUpload s k j \<and> j \<noteq> i" if up: "firstUpload ?t k j" for k j
  proof -
    obtain u where u: "js_get (lb_sessions s) k = Some u" and state: "us_state u \<in> openStates"
      and ver: "us_versionId (forgetMaterial i (lb_versions s) u) = None" and mat: "us_materialId u = Some j" "j \<noteq> i"
      using up unfolding firstUpload_def tabs js_get_map_values by (auto split: if_splits)
    have sok: "sessionOk (map_of (lb_materials s)) (map_of (lb_versions s)) u"
      using dist(8) u unfolding sessionsOk_def by blast
    have "us_versionId u = None"
    proof (rule ccontr)
      assume "us_versionId u \<noteq> None"
      then obtain w where w: "us_versionId u = Some w" by blast
      then obtain x where x: "js_get (lb_versions s) w = Some x" "us_materialId u = Some (lv_materialId x)"
        using sok by (auto simp: sessionOk_def)
      then have "lv_materialId x \<noteq> i" using mat by simp
      then show False using ver w x by (simp add: forgetMaterial_def)
    qed
    then show ?thesis using u state mat by (auto simp: firstUpload_def)
  qed
  have "firstUploadsOk ?t" unfolding firstUploadsOk_def
  proof (intro allI impI conjI)
    fix k j x w assume up: "firstUpload ?t k j" and x: "js_get (lb_versions ?t) x = Some w"
    have "js_get (lb_versions s) x = Some w"
      using x map_of_filter[OF dist(3), of "\<lambda>v. lv_materialId v \<noteq> i" x] by (auto simp: tabs split: option.splits if_splits)
    then show "lv_materialId w \<noteq> j" using ups[OF up] ok unfolding firstUploadsOk_def by blast
  next
    fix k j k' assume "firstUpload ?t k j" "firstUpload ?t k' j"
    then show "k' = k" using ups ok unfolding firstUploadsOk_def by blast
  qed
  ultimately show ?thesis by blast
qed

text \<open>A session that is no first upload does not become one by being changed in place.\<close>

lemma session_write_covers:
  assumes "covered s" and "firstUploadsOk s" and "js_get (lb_sessions s) uid = Some u"
    and "lb_sessions t = js_set uid u' (lb_sessions s)"
    and "us_state u' \<in> openStates \<Longrightarrow> us_state u \<in> openStates"
    and "us_versionId u' = us_versionId u" "us_materialId u' = us_materialId u"
    and "lb_objects t = lb_objects s" "lb_materials t = lb_materials s" "lb_versions t = lb_versions s"
  shows "covered t \<and> firstUploadsOk t"
proof
  show "covered t"
    by (rule covered_mono[OF assms(1)]) (simp add: holders_tables[OF assms(9,10)] refCount_tables[OF assms(8)])
  show "firstUploadsOk t"
    by (rule firstUploadsOk_mono[OF assms(2,10)], rule firstUpload_set[OF assms(4,3)])
       (use assms(5-7) in auto)
qed

lemma material_write_covers:
  assumes "covered s" and "firstUploadsOk s" and "js_get (lb_materials s) i = Some m" and "distinct (map fst (lb_materials s))"
    and "lb_materials t = js_set i m' (lb_materials s)" and "lm_groupId m' = lm_groupId m" "lm_contentHash m' = lm_contentHash m"
    and "lb_objects t = lb_objects s" "lb_sessions t = lb_sessions s" "lb_versions t = lb_versions s"
  shows "covered t \<and> firstUploadsOk t"
proof
  show "covered t"
    using holders_set[OF assms(3,4,5,10,6,7)] by (intro covered_mono[OF assms(1)]) (simp add: refCount_tables[OF assms(8)])
  show "firstUploadsOk t"
    by (rule firstUploadsOk_mono[OF assms(2,10)]) (simp add: firstUpload_def assms(9))
qed

lemma lib_write_covers:
  assumes "lib_write env A g d s t" and "library_wf s" and "covered s" and "firstUploadsOk s"
    and "\<And>i uid. A i \<Longrightarrow> \<not> firstUpload s uid i"
  shows "covered t \<and> firstUploadsOk t"
  using assms
proof (induction rule: lib_write.induct)
  case (write_begin receipt s p t)
  then show ?case using begin_covers begin_firstUploads by blast
next
  case (write_complete receipt uid s h vm now vid parts t)
  then show ?case using complete_covers by blast
next
  case (write_cancel receipt uid s u t now)
  then show ?case
    by (intro session_write_covers[where s = s and uid = uid and u = u and u' = "u\<lparr>us_state := CANCELLED, us_updatedAt := now\<rparr>"]) (auto dest: lockedSessionD)
next
  case (write_attach uid s u t now remote)
  then show ?case
    by (intro session_write_covers[where s = s and uid = uid and u = u
          and u' = "u\<lparr>us_storageUploadId := Some remote, us_updatedAt := now\<rparr>"]) (auto dest: lockedSessionD)
next
  case (write_version receipt p s m t)
  then show ?case using version_covers by blast
next
  case (write_update receipt i s m t name category metadata now tags)
  then show ?case
    by (intro material_write_covers[where s = s and i = i and m = m
          and m' = "describedMaterial env name category metadata now m"])
       (auto dest: lockedMaterialD library_wfD(2) simp: updateRows_def describedMaterial_def)
next
  case (write_trash receipt i trashing s m t now)
  then have "lockedMaterial receipt g d i s = Some m" by (auto simp: trashEligible_def split: bind_splits if_splits)
  then show ?case using write_trash
    by (intro material_write_covers[where s = s and i = i and m = m
          and m' = "trashedMaterial trashing now m"])
       (auto dest: lockedMaterialD library_wfD(2) simp: trashRows_def trashedMaterial_def)
next
  case (write_purge receipt i s m t now)
  then show ?case using purge_covers by blast
qed

section \<open>Orderly histories\<close>

text \<open>The discipline: a call gives no new version to a material whose first upload is still open.\<close>

inductive orderly_step :: "lib_env \<Rightarrow> library_db \<Rightarrow> library_db \<Rightarrow> bool" for env where
  orderly_call: "(\<And>i uid. admitted env call i \<Longrightarrow> \<not> firstUpload s uid i) \<Longrightarrow> orderly_step env s (runCall env c call s)"
| orderly_shared: "orderly_step env s (s\<lparr>lb_shared := x\<rparr>)"

definition accounted :: "library_db \<Rightarrow> bool" where
  "accounted s \<longleftrightarrow> library_wf s \<and> covered s \<and> firstUploadsOk s"

lemma accounted_shared: "accounted (s\<lparr>lb_shared := x\<rparr>) = accounted s"
  by (simp add: accounted_def library_wf_def covered_def holders_def refCount_def firstUploadsOk_def firstUpload_def)

lemma accounted_call:
  assumes "accounted s" and free: "\<And>i uid. admitted env call i \<Longrightarrow> \<not> firstUpload s uid i"
  shows "accounted (runCall env c call s)"
proof -
  obtain s' where s': "receiptsOnly (callReceipt env c call) s s'" and "runCall env c call s = s' \<or>
      lib_write env (admitted env call) (ca_groupId c) (ca_deviceId c) s' (runCall env c call s)"
    using runCall_effect[of env c call s] unfolding effect_def by blast
  moreover have "accounted s'" using s' assms(1) accounted_shared by (auto elim!: receiptsOnlyE)
  moreover have "firstUpload s' uid i = firstUpload s uid i" for uid i
    using s' by (auto elim!: receiptsOnlyE simp: firstUpload_def)
  ultimately show ?thesis using free lib_write_covers lib_write_keeps unfolding accounted_def by metis
qed

interpretation orderly: invariant_system "\<lambda>s. \<exists>x. s = emptyLibrary x" "orderly_step env" accounted for env
proof unfold_locales
  show "accounted s" if "\<exists>x. s = emptyLibrary x" for s
    using that library.initial_inv[OF that]
    by (auto simp: accounted_def emptyLibrary_def covered_def holders_def refCount_def firstUploadsOk_def firstUpload_def)
  show "accounted t" if "accounted s" "orderly_step env s t" for s t
    using that(2,1)
  proof cases
    case (orderly_call call c)
    then show ?thesis using that(1) accounted_call by blast
  next
    case (orderly_shared x)
    then show ?thesis using that(1) accounted_shared by blast
  qed
qed

lemma held_positive:
  assumes "js_get versions vid = Some v"
  shows "0 < heldReferences (lv_materialId v) m (lv_contentHash v) versions"
proof -
  have "v \<in> set (filter (\<lambda>w. lv_materialId w = lv_materialId v \<and> lv_contentHash w = lv_contentHash v) (js_values versions))"
    using map_of_SomeD[OF assms] by (force simp: image_iff)
  then have "0 < versionsHolding (lv_materialId v) (lv_contentHash v) versions"
    unfolding versionsHolding_def by (rule length_pos_if_in_set)
  then show ?thesis by (simp add: heldReferences_def)
qed

lemma holders_nonneg_row:
  assumes "js_get (lb_materials s) i = Some m"
  shows "int (heldReferences i m h (lb_versions s)) \<le> holders s (lm_groupId m) h"
proof -
  have nonneg: "0 \<le> sum_list (map (materialHolds g h vs) ms)" for g vs ms
    by (rule sum_list_nonneg) (auto simp: materialHolds_def)
  have "materialHolds g h vs (i, m) \<le> sum_list (map (materialHolds g h vs) ms)" if "js_get ms i = Some m" for g vs ms
    using that
  proof (induction ms)
    case (Cons a ms)
    have "0 \<le> materialHolds g h vs a" by (cases a) (simp add: materialHolds_def)
    then show ?case using Cons nonneg[of g vs ms] by (cases a) (auto split: if_splits)
  qed simp
  from this[OF assms, of "lm_groupId m" "lb_versions s"]
  show ?thesis by (simp add: holders_def materialHolds_def)
qed

end
