(* ===== verification/Material_Retry.thy ===== *)
theory Material_Retry
  imports Material_References
begin

text \<open>
  Retried mutations of the material library, on the example of \<open>beginUpload\<close>: the receipt a successful
  call completes, the claim a retry makes on it, and the answer the retry reads back.
\<close>

section \<open>The first call\<close>

definition receiptKey :: "lib_env \<Rightarrow> mutation_scope \<Rightarrow> string \<Rightarrow> mutation_scope \<times> string" where
  "receiptKey env scope rid = (scope, ee_hashReceipt (le_events env) (encodeRequestIdPayload scope rid))"

definition fingerprintOf :: "lib_env \<Rightarrow> mutation_scope \<Rightarrow> (string \<times> string) list \<Rightarrow> string" where
  "fingerprintOf env scope fs = ee_hashReceipt (le_events env) (encodeFingerprintPayload scope fs)"

definition claimOf :: "lib_env \<Rightarrow> mutation_scope \<Rightarrow> string \<Rightarrow> (string \<times> string) list \<Rightarrow> bool \<Rightarrow> guard_claim" where
  "claimOf env scope rid fs claimed =
     \<lparr>gc_scope = scope, gc_requestIdHash = snd (receiptKey env scope rid),
      gc_fingerprint = fingerprintOf env scope fs, gc_claimed = claimed\<rparr>"

lemma guardHash_value: "guardHash ev payload = Inr h \<Longrightarrow> h = ee_hashReceipt ev payload"
  by (simp add: guardHash_def Let_def split: if_splits)

definition guardedRow :: "ev_env \<Rightarrow> string \<Rightarrow> int \<Rightarrow> receipt_row option \<Rightarrow> receipt_row" where
  "guardedRow ev fingerprint now stored =
     (case stored of
        None \<Rightarrow> \<lparr>rr_fingerprint = fingerprint, rr_claimedAt = now, rr_expiresAt = now + ee_receiptLifetimeMs ev,
                 rr_completedAt = None, rr_groupId = None, rr_sequence = None\<rparr>
      | Some r \<Rightarrow> r\<lparr>rr_claimedAt := now, rr_expiresAt := now + ee_receiptLifetimeMs ev, rr_fingerprint := fingerprint\<rparr>)"

lemma guardClaim_run:
  assumes "normalizeRequestId requestId = Inr (Some rid)"
    and "guardHash ev (encodeRequestIdPayload scope rid) = Inr h" and "guardHash ev (encodeFingerprintPayload scope fs) = Inr f"
  shows "guardClaim ev scope requestId now fs x =
    (let stored = js_get (db_receipts x) (scope, h); claimed = (\<forall>r. stored = Some r \<longrightarrow> rr_completedAt r = None) in
     (Inr (Some \<lparr>gc_scope = scope, gc_requestIdHash = h, gc_fingerprint = f, gc_claimed = claimed\<rparr>),
      if claimed then x\<lparr>db_receipts := js_set (scope, h) (guardedRow ev f now stored) (db_receipts x)\<rparr> else x))"
  using assms
  by (cases "js_get (db_receipts x) (scope, h)") (simp_all add: guardClaim_def guardedRow_def monad_defs sm_bind_def Let_def)

lemma claim_hashes:
  assumes "claim env scope (Some requestId) now fs s = (Inr r, s1)" and "normalizeRequestId requestId = Inr (Some rid)"
  shows "le_receipts env"
    and "guardHash (le_events env) (encodeRequestIdPayload scope rid) = Inr (snd (receiptKey env scope rid))"
    and "guardHash (le_events env) (encodeFingerprintPayload scope fs) = Inr (fingerprintOf env scope fs)"
proof -
  show rc: "le_receipts env"
    using assms(1) by (auto simp: claim_def requireReceipts_def sm_bind_def monad_defs split: if_splits)
  have run: "on_shared (guardClaim (le_events env) scope requestId now fs) s = (Inr r, s1)"
    using assms(1) rc by (simp add: claim_def requireReceipts_def)
  have "\<exists>h f. guardHash (le_events env) (encodeRequestIdPayload scope rid) = Inr h \<and>
      guardHash (le_events env) (encodeFingerprintPayload scope fs) = Inr f"
    using run assms(2)
    by (cases "guardHash (le_events env) (encodeRequestIdPayload scope rid)";
        cases "guardHash (le_events env) (encodeFingerprintPayload scope fs)")
       (auto simp: on_shared_def guardClaim_def)
  then show "guardHash (le_events env) (encodeRequestIdPayload scope rid) = Inr (snd (receiptKey env scope rid))"
    and "guardHash (le_events env) (encodeFingerprintPayload scope fs) = Inr (fingerprintOf env scope fs)"
    using guardHash_value by (auto simp: receiptKey_def fingerprintOf_def)
qed

lemma claim_uncompleted:
  assumes cl: "claim env scope (Some requestId) now fs s = (Inr r, s1)"
    and norm: "normalizeRequestId requestId = Inr (Some rid)"
    and un: "\<And>row. js_get (db_receipts (lb_shared s)) (receiptKey env scope rid) = Some row \<Longrightarrow> rr_completedAt row = None"
  shows "r = Some (claimOf env scope rid fs True)"
    and "\<exists>row. rr_fingerprint row = fingerprintOf env scope fs \<and> rr_completedAt row = None \<and>
      rr_expiresAt row = now + ee_receiptLifetimeMs (le_events env) \<and>
      s1 = s\<lparr>lb_shared := (lb_shared s)\<lparr>db_receipts := js_set (receiptKey env scope rid) row (db_receipts (lb_shared s))\<rparr>\<rparr>"
proof -
  let ?key = "receiptKey env scope rid" and ?f = "fingerprintOf env scope fs"
  let ?row = "guardedRow (le_events env) ?f now (js_get (db_receipts (lb_shared s)) ?key)"
  note H = claim_hashes[OF cl norm]
  have key: "(scope, snd ?key) = ?key" by (simp add: receiptKey_def)
  have "claim env scope (Some requestId) now fs s =
      (Inr (Some (claimOf env scope rid fs True)),
       s\<lparr>lb_shared := (lb_shared s)\<lparr>db_receipts := js_set ?key ?row (db_receipts (lb_shared s))\<rparr>\<rparr>)"
    using H un by (simp add: claim_def requireReceipts_def on_shared_def guardClaim_run[OF norm H(2,3)] claimOf_def key)
  then have *: "r = Some (claimOf env scope rid fs True)"
    "s1 = s\<lparr>lb_shared := (lb_shared s)\<lparr>db_receipts := js_set ?key ?row (db_receipts (lb_shared s))\<rparr>\<rparr>"
    using cl by simp_all
  show "r = Some (claimOf env scope rid fs True)" by (rule *(1))
  have "rr_fingerprint ?row = ?f \<and> rr_completedAt ?row = None \<and>
      rr_expiresAt ?row = now + ee_receiptLifetimeMs (le_events env)"
    using un by (simp add: guardedRow_def split: option.split)
  then show "\<exists>row. rr_fingerprint row = ?f \<and> rr_completedAt row = None \<and>
      rr_expiresAt row = now + ee_receiptLifetimeMs (le_events env) \<and>
      s1 = s\<lparr>lb_shared := (lb_shared s)\<lparr>db_receipts := js_set ?key row (db_receipts (lb_shared s))\<rparr>\<rparr>"
    using *(2) by blast
qed

text \<open>A claim on a completed receipt is refused and writes nothing.\<close>

lemma claim_completed:
  assumes "le_receipts env" and norm: "normalizeRequestId requestId = Inr (Some rid)"
    and H: "guardHash (le_events env) (encodeRequestIdPayload scope rid) = Inr (snd (receiptKey env scope rid))"
      "guardHash (le_events env) (encodeFingerprintPayload scope fs) = Inr (fingerprintOf env scope fs)"
    and "js_get (db_receipts (lb_shared s)) (receiptKey env scope rid) = Some row" and "rr_completedAt row \<noteq> None"
  shows "claim env scope (Some requestId) now fs s = (Inr (Some (claimOf env scope rid fs False)), s)"
proof -
  have key: "(scope, snd (receiptKey env scope rid)) = receiptKey env scope rid" by (simp add: receiptKey_def)
  show ?thesis
    using assms(1,5,6)
    by (auto simp: claim_def requireReceipts_def on_shared_def guardClaim_run[OF norm H] claimOf_def key Let_def)
qed

text \<open>What the refused claim of an identical request resolves to.\<close>

lemma resolveRefused_completed:
  assumes "le_receipts env" and "js_get (db_receipts (lb_shared s)) (receiptKey env scope rid) = Some row"
    and "rr_completedAt row \<noteq> None" and "later < rr_expiresAt row" and "rr_fingerprint row = fingerprintOf env scope fs"
    and "fingerprintOf env scope fs \<noteq> []"
    and "js_get (lb_receiptColumns s) (receiptKey env scope rid) = Some \<lparr>rx_resourceId = Some i, rx_revision = n\<rparr>"
    and "i \<noteq> []"
  shows "resolveRefused env (claimOf env scope rid fs c) failure later s = (Inr (Some i, n), s)"
proof -
  have key: "(scope, snd (receiptKey env scope rid)) = receiptKey env scope rid" by (simp add: receiptKey_def)
  show ?thesis
    using assms by (simp add: resolveRefused_def requireReceipts_def on_shared_def guardResolveRefused_def claimOf_def key
      sm_bind_def sm_get_def sm_return_def sm_require_def readOptionalText_def)
qed

section \<open>What later calls leave of a completed receipt\<close>

text \<open>
  Calls of the library by anyone, and writes of other services to the shared tables, which never touch
  the receipt of a material request.
\<close>

inductive later_step :: "lib_env \<Rightarrow> (mutation_scope \<times> string) \<Rightarrow> library_db \<Rightarrow> library_db \<Rightarrow> bool" for env key where
  later_call: "later_step env key s (runCall env c call s)"
| later_shared: "js_get (db_receipts x) key = js_get (db_receipts (lb_shared s)) key \<Longrightarrow>
    later_step env key s (s\<lparr>lb_shared := x\<rparr>)"

definition receiptKept :: "(mutation_scope \<times> string) \<Rightarrow> library_db \<Rightarrow> library_db \<Rightarrow> bool" where
  "receiptKept key s t \<longleftrightarrow> js_get (db_receipts (lb_shared t)) key = js_get (db_receipts (lb_shared s)) key \<and>
     js_get (lb_receiptColumns t) key = js_get (lb_receiptColumns s) key"

definition receiptDone :: "(mutation_scope \<times> string) \<Rightarrow> library_db \<Rightarrow> bool" where
  "receiptDone key s \<longleftrightarrow>
     (\<exists>row. js_get (db_receipts (lb_shared s)) key = Some row \<and> rr_completedAt row \<noteq> None)"

lemma completedReceipt_keeps:
  assumes "mutationGate receipt s" and "receiptDone key s"
    and "lb_shared x = lb_shared s" and "lb_receiptColumns x = lb_receiptColumns s"
  shows "receiptKept key s (completedReceipt receipt g i n now x)"
  using assms
  by (auto simp: receiptKept_def receiptDone_def completedReceipt_def mutationGate_def gateOpen_def Let_def js_get_set
      split: option.splits)

lemma gate_guards:
  "activeEditor receipt g d s \<Longrightarrow> mutationGate receipt s"
  "lockedSession receipt g d i s = Some u \<Longrightarrow> mutationGate receipt s"
  "lockedMaterial receipt g d i s = Some m \<Longrightarrow> mutationGate receipt s"
  "eligibleMaterial receipt g d i s = Some m \<Longrightarrow> mutationGate receipt s"
  "trashEligible receipt g d i b s = Some m \<Longrightarrow> mutationGate receipt s"
  "purgeable receipt g d i s = Some m \<Longrightarrow> mutationGate receipt s"
  "verifiedMaterial receipt g d i h s = Some vm \<Longrightarrow> mutationGate receipt s"
  by (auto simp: activeEditor_def lockedSession_def lockedMaterial_def eligibleMaterial_def trashEligible_def
      purgeable_def verifiedMaterial_def completableSession_def split: if_splits option.splits bind_splits)

lemma lib_write_receipt:
  assumes "lib_write env A g d s t" and "receiptDone key s"
  shows "receiptKept key s t"
  using assms(1)
proof cases
  case (write_begin receipt p)
  then show ?thesis using assms(2) gate_guards
    by (auto simp: beginRows_def Let_def split: sum.splits if_splits intro!: completedReceipt_keeps)
next
  case (write_complete receipt uploadId contentHash vm now versionId parts)
  then show ?thesis using assms(2) gate_guards
    by (cases vm) (auto simp: completeRows_def Let_def split: if_splits intro!: completedReceipt_keeps)
next
  case (write_cancel receipt uploadId u now)
  then show ?thesis using assms(2) gate_guards by (auto intro!: completedReceipt_keeps)
next
  case (write_attach uploadId u now remoteId)
  then show ?thesis by (simp add: receiptKept_def)
next
  case (write_version receipt p m)
  then show ?thesis using assms(2) gate_guards
    by (auto simp: versionRows_def Let_def split: sum.splits if_splits intro!: completedReceipt_keeps)
next
  case (write_update receipt materialId m displayName category metadata now tags)
  then show ?thesis using assms(2) gate_guards by (auto simp: updateRows_def intro!: completedReceipt_keeps)
next
  case (write_trash receipt materialId trashing m now)
  then show ?thesis using assms(2) gate_guards by (auto simp: trashRows_def intro!: completedReceipt_keeps)
next
  case (write_purge receipt materialId m now)
  then show ?thesis using assms(2) gate_guards by (auto simp: purgeRows_def Let_def intro!: completedReceipt_keeps)
qed

lemma later_receipt:
  assumes "reaches (later_step env key) s t" and "receiptDone key s"
  shows "receiptKept key s t"
  using assms
proof (induction rule: reaches.induct)
  case (reach_refl s)
  then show ?case by (simp add: receiptKept_def)
next
  case (reach_step s t u)
  have kept: "receiptKept key s t" by (rule reach_step.IH[OF reach_step.prems])
  then have done': "receiptDone key t" using reach_step.prems by (simp add: receiptKept_def receiptDone_def)
  have "receiptKept key t u"
    using \<open>later_step env key t u\<close>
  proof cases
    case (later_call c call)
    obtain x where x: "receiptsOnly (callReceipt env c call) t x"
      and u: "u = x \<or> lib_write env (admitted env call) (ca_groupId c) (ca_deviceId c) x u"
      using runCall_effect[of env c call t] later_call unfolding effect_def by blast
    have claimed: "receiptKept key t x"
      using x done' by (auto simp: receiptsOnly_def receiptKept_def receiptDone_def js_get_set)
    then have "receiptDone key x" using done' by (simp add: receiptKept_def receiptDone_def)
    then have "u = x \<or> receiptKept key x u" using u lib_write_receipt by blast
    then show ?thesis using claimed by (auto simp: receiptKept_def)
  qed (simp add: receiptKept_def)
  then show ?case using kept by (simp add: receiptKept_def)
qed

section \<open>A successful \<open>beginUpload\<close>\<close>

lemma bindUuid_Inr: "bindUuid env i s = (Inr u, t) \<longleftrightarrow> le_uuid env i = Some u \<and> t = s"
  by (auto simp: bindUuid_def monad_defs split: option.splits)

lemma reads_Inr: "reads m \<Longrightarrow> m s = (Inr a, t) \<Longrightarrow> t = s"
  unfolding reads_def by (metis snd_conv)

lemma beginUpload_success:
  assumes run: "beginUpload env g d now later newId uid vid input (Some requestId) s = (Inr out, t)"
    and norm: "normalizeRequestId requestId = Inr (Some rid)"
    and un: "\<And>row. js_get (db_receipts (lb_shared s)) (receiptKey env BEGIN_MATERIAL_UPLOAD rid) = Some row \<Longrightarrow>
      rr_completedAt row = None"
  obtains k mid s1 where "beginChecks env g newId input = Inr k" and "le_uuid env (bc_materialId k) = Some mid"
    and "claim env BEGIN_MATERIAL_UPLOAD (Some requestId) now (beginFields k) s =
      (Inr (Some (claimOf env BEGIN_MATERIAL_UPLOAD rid (beginFields k) True)), s1)"
    and "actorAuthorized g d (lb_shared s1)"
    and "beginRows env (beginParams input k d now mid uid vid)
      (Some (claimOf env BEGIN_MATERIAL_UPLOAD rid (beginFields k) True)) s1 = Inr t"
    and "readBegun env (beginParams input k d now mid uid vid) s1 t = (Inr out, t)"
proof -
  obtain k where k: "beginChecks env g newId input = Inr k"
    using run by (cases "beginChecks env g newId input") (simp_all add: beginUpload_def)
  let ?f = "beginFields k"
  obtain r s1 where cl: "claim env BEGIN_MATERIAL_UPLOAD (Some requestId) now ?f s = (Inr r, s1)"
    using run k by (auto simp: beginUpload_def sm_bind_eq_Inr_iff)
  let ?c = "claimOf env BEGIN_MATERIAL_UPLOAD rid ?f True"
  have r: "r = Some ?c" using claim_uncompleted(1)[OF cl norm un] by simp
  obtain row where row: "rr_completedAt row = None"
    "s1 = s\<lparr>lb_shared := (lb_shared s)\<lparr>db_receipts := js_set (receiptKey env BEGIN_MATERIAL_UPLOAD rid) row
        (db_receipts (lb_shared s))\<rparr>\<rparr>"
    using claim_uncompleted(2)[OF cl norm un] by blast
  have gate: "mutationGate (Some ?c) s1"
    using row by (simp add: mutationGate_def gateOpen_def claimOf_def receiptKey_def js_get_set)
  have claimed: "gc_claimed ?c" by (simp add: claimOf_def)
  obtain mid where mid: "le_uuid env (bc_materialId k) = Some mid"
    and rest: "sm_bind (beginStatement env (beginParams input k d now mid uid vid) (Some ?c))
        (\<lambda>(receipt_claimed, editor_active, prior).
          if Some ?c \<noteq> None \<and> \<not> receipt_claimed then replayBeginUpload env g d later (the (Some ?c))
          else sm_bind (assertEditor editor_active) (\<lambda>_. readBegun env (beginParams input k d now mid uid vid) prior)) s1
        = (Inr out, t)"
    using run k cl r claimed
    by (auto simp: beginUpload_def sm_bind_eq_Inr_iff bindUuid_Inr Let_def)
  let ?p = "beginParams input k d now mid uid vid"
  have pg: "pp_groupId ?p = g" "pp_deviceId ?p = d" using beginChecks_prepared(1)[OF k] by (simp_all add: beginParams_def)
  have sizes: "bindSizes env ?p = Inr ()"
    using rest by (cases "bindSizes env ?p") (auto simp: beginStatement_def sm_bind_def)
  have ed: "activeEditor (Some ?c) g d s1"
    using rest sizes pg gate by (auto simp: beginStatement_def sm_bind_def assertEditor_def monad_defs split: if_splits)
  obtain t' where t': "beginRows env ?p (Some ?c) s1 = Inr t'"
    using rest sizes pg ed by (cases "beginRows env ?p (Some ?c) s1") (auto simp: beginStatement_def sm_bind_def)
  have "readBegun env ?p s1 t' = (Inr out, t)"
    using rest sizes pg ed t' by (simp add: beginStatement_def sm_bind_def assertEditor_def sm_require_def sm_return_def)
  moreover have "t' = t" using reads_Inr[OF reads_answers(1) calculation] by simp
  ultimately show thesis using that[OF k mid cl[unfolded r] _ _] ed t' by (simp add: activeEditor_def)
qed

text \<open>The tables the statement leaves, receipt included.\<close>

lemma completedReceipt_shared:
  assumes "js_get (db_receipts (lb_shared s)) (gc_scope c, gc_requestIdHash c) = Some row"
  shows "lb_shared (completedReceipt (Some c) g i n now s) = (lb_shared s)\<lparr>db_receipts :=
      js_set (gc_scope c, gc_requestIdHash c) (row\<lparr>rr_groupId := Some g, rr_completedAt := Some now\<rparr>) (db_receipts (lb_shared s))\<rparr>"
    and "lb_receiptColumns (completedReceipt (Some c) g i n now s) =
      js_set (gc_scope c, gc_requestIdHash c) \<lparr>rx_resourceId = Some i, rx_revision = n\<rparr> (lb_receiptColumns s)"
  using assms by (simp_all add: completedReceipt_def Let_def)

lemma beginRows_rest:
  assumes "beginRows env p (Some c) s = Inr t"
    and "js_get (db_receipts (lb_shared s)) (gc_scope c, gc_requestIdHash c) = Some row"
  shows "lb_parts t = lb_parts s @ (if js_get (lb_objects s) (pp_groupId p, pp_contentHash p) \<noteq> None then []
      else newParts (pp_uploadId p) (pp_parts p))"
    and "lb_links t = lb_links s"
    and "lb_shared t = (lb_shared s)\<lparr>db_receipts := js_set (gc_scope c, gc_requestIdHash c)
      (row\<lparr>rr_groupId := Some (pp_groupId p), rr_completedAt := Some (pp_now p)\<rparr>) (db_receipts (lb_shared s))\<rparr>"
    and "lb_receiptColumns t = js_set (gc_scope c, gc_requestIdHash c)
      \<lparr>rx_resourceId = Some (pp_uploadId p), rx_revision = None\<rparr> (lb_receiptColumns s)"
proof -
  obtain x where t: "t = completedReceipt (Some c) (pp_groupId p) (pp_uploadId p) None (pp_now p) x"
    and x: "lb_shared x = lb_shared s" "lb_receiptColumns x = lb_receiptColumns s" "lb_links x = lb_links s"
      "lb_parts x = lb_parts s @ (if js_get (lb_objects s) (pp_groupId p, pp_contentHash p) \<noteq> None then []
        else newParts (pp_uploadId p) (pp_parts p))"
    using assms(1) by (auto simp: beginRows_def Let_def split: sum.splits if_splits)
  have row: "js_get (db_receipts (lb_shared x)) (gc_scope c, gc_requestIdHash c) = Some row" using assms(2) x by simp
  show "lb_parts t = lb_parts s @ (if js_get (lb_objects s) (pp_groupId p, pp_contentHash p) \<noteq> None then []
      else newParts (pp_uploadId p) (pp_parts p))" and "lb_links t = lb_links s"
    by (simp_all add: t x)
  show "lb_shared t = (lb_shared s)\<lparr>db_receipts := js_set (gc_scope c, gc_requestIdHash c)
      (row\<lparr>rr_groupId := Some (pp_groupId p), rr_completedAt := Some (pp_now p)\<rparr>) (db_receipts (lb_shared s))\<rparr>"
    and "lb_receiptColumns t = js_set (gc_scope c, gc_requestIdHash c)
      \<lparr>rx_resourceId = Some (pp_uploadId p), rx_revision = None\<rparr> (lb_receiptColumns s)"
    using completedReceipt_shared[OF row] by (simp_all add: t x)
qed


section \<open>The retry\<close>

text \<open>The readers accept rows whose text columns are not empty.\<close>

lemma toVersion_ok:
  assumes "i \<noteq> []" "lv_materialId v \<noteq> []" "lv_contentHash v \<noteq> []" "lv_mimeType v \<noteq> []" "lv_originalFileName v \<noteq> []"
  shows "\<exists>r. toVersion i v = Inr r"
  using assms by (simp add: toVersion_def readText_def readBigInt_intText)

lemma toMaterial_texts:
  assumes "toMaterial i m tags = Inr r"
  shows "i \<noteq> []" "lm_contentHash m \<noteq> []" "lm_mimeType m \<noteq> []" "mt_groupId r = lm_groupId m" "mt_contentHash r = lm_contentHash m"
    "mt_id r = i"
  using assms by (auto simp: toMaterial_def readText_def split: sum.splits if_splits)

lemma toSession_fields:
  assumes "toSession i u = Inr r"
  shows "i \<noteq> []" "se_materialId r = optionalColumn (us_materialId u)" "se_id r = i"
  using assms by (auto simp: toSession_def readText_def split: sum.splits if_splits)

lemma getUploadStatus_run:
  assumes "js_trim uid = uid" "uid \<noteq> []" "le_uuid env uid = Some uid" "activeMember g d s"
    and "js_get (lb_sessions s) uid = Some u" "us_groupId u = g" "toSession uid u = Inr r"
  shows "\<exists>ps. getUploadStatus env g d uid s = (Inr (r, ps), s)"
  using assms by (simp add: getUploadStatus_def requireIdentifier_def bindUuid_def assertLibraryMember_def visibleSession_def)

lemma getMaterial_run:
  assumes "js_trim mid = mid" "mid \<noteq> []" "le_uuid env mid = Some mid" "activeMember g d s"
    and "js_get (lb_materials s) mid = Some m" "lm_groupId m = g" "toMaterial mid m (storedTags env s mid) = Inr r"
    and "\<And>vid v. lm_currentVersionId m = Some vid \<Longrightarrow> js_get (lb_versions s) vid = Some v \<Longrightarrow> \<exists>w. toVersion vid v = Inr w"
  shows "\<exists>w. getMaterial env g d mid s = (Inr (r, w), s)"
proof (cases "Option.bind (lm_currentVersionId m) (\<lambda>vid. map_option (Pair vid) (js_get (lb_versions s) vid))")
  case None
  then show ?thesis using assms(1-7)
    by (simp add: getMaterial_def requireIdentifier_def bindUuid_def assertLibraryMember_def visibleMaterial_def)
next
  case (Some x)
  then obtain vid v where x: "x = (vid, v)" "lm_currentVersionId m = Some vid" "js_get (lb_versions s) vid = Some v"
    by (auto split: bind_splits)
  obtain w where "toVersion vid v = Inr w" using assms(8)[OF x(2,3)] by blast
  then show ?thesis using assms(1-7) x
    by (simp add: getMaterial_def requireIdentifier_def bindUuid_def assertLibraryMember_def visibleMaterial_def)
qed

lemma authorized_member: "actorAuthorized g d (lb_shared s) \<Longrightarrow> activeMember g d s"
  by (auto simp: actorAuthorized_def activeMember_def list_ex_iff split: option.splits)

lemma beginChecks_proposed:
  assumes "bi_materialId input = Some i" and "js_trim i \<noteq> []"
  shows "beginChecks env g newId input = beginChecks env g newId' input"
proof -
  have "(case bi_materialId input of None \<Rightarrow> Inr n
         | Some i \<Rightarrow> (if length (js_trim i) = 0 then Inr n else requireIdentifier i ''material_id'')) =
      requireIdentifier i ''material_id''" for n
    using assms by simp
  then show ?thesis unfolding beginChecks_def by (simp only:)
qed

lemma beginChecks_fileName: "beginChecks env g newId input = Inr k \<Longrightarrow> bc_originalFileName k \<noteq> []"
  by (auto simp: beginChecks_def requireBoundedText_def Let_def split: sum.splits if_splits)

lemma normalized_hash: "guardHash ev payload = Inr h \<Longrightarrow> h \<noteq> []"
  by (auto simp: guardHash_def Let_def js_trim_def split: if_splits)

lemma readUploadParts_new:
  assumes "\<forall>r \<in> set rows. pt_uploadId r \<noteq> uid"
  shows "map toPart (sort_key pt_partNumber (filter (\<lambda>p. pt_uploadId p = uid \<and> pt_completedAt p = None)
      (rows @ newParts uid parts))) = sort_key up_partNumber parts"
proof -
  have "filter (\<lambda>p. pt_uploadId p = uid \<and> pt_completedAt p = None) (rows @ newParts uid parts) = newParts uid parts"
    using assms by (auto simp: newParts_def filter_empty_conv filter_map o_def)
  moreover have "map toPart (sort_key pt_partNumber (newParts uid ps)) = sort_key up_partNumber ps" for ps
  proof -
    let ?row = "\<lambda>p. \<lparr>pt_uploadId = uid, pt_partNumber = up_partNumber p, pt_offset = up_offset p,
              pt_length = up_length p, pt_etag = None, pt_checksum = None, pt_completedAt = None\<rparr>"
    have ins: "insort_key pt_partNumber (?row p) (map ?row qs) = map ?row (insort_key up_partNumber p qs)" for p qs
      by (induction qs) simp_all
    have srt: "sort_key pt_partNumber (map ?row ps) = map ?row (sort_key up_partNumber ps)"
      by (induction ps) (simp_all add: ins)
    have "map toPart (map ?row qs) = qs" for qs by (induction qs) (simp_all add: toPart_def)
    then show ?thesis unfolding newParts_def srt by this
  qed
  ultimately show ?thesis by simp
qed

lemma planned_nonempty:
  assumes "planned n chunk plan = Inr parts" and "0 < n" shows "parts \<noteq> []"
proof (cases "nullish plan multipartUploadPlan")
  case Multipart
  then have "planFrom n chunk 0 1 = Some parts"
    using assms(1) by (cases "planFrom n chunk 0 1") (simp_all add: planned_def planUploadParts_def)
  then show ?thesis using assms(2) planFrom.simps[of n chunk 0 1] by (auto simp: Let_def split: bind_splits)
next
  case (WholeObject limit)
  then show ?thesis using assms(1) by (auto simp: planned_def planUploadParts_def split: if_splits)
qed

lemma beginChecks_parts: "beginChecks env g newId input = Inr k \<Longrightarrow> bc_parts k \<noteq> []"
  using planned_nonempty requireByteSize_pos by (auto simp: beginChecks_def split: sum.splits if_splits)

text \<open>What the answer of a successful call holds.\<close>

lemma readBegun_Inr:
  assumes "readBegun env p x t = (Inr out, t')"
  defines "existing \<equiv> js_get (lb_objects x) (pp_groupId p, pp_contentHash p)"
  shows "toMaterial (pp_materialId p) (newMaterial env p existing) (storedTags env x (pp_materialId p)) = Inr (bo_material out)"
    and "toSession (pp_uploadId p) (if existing \<noteq> None then newSession env p (Some (pp_versionId p)) COMPLETED (pp_totalSize p)
        else newSession env p None PENDING 0) = Inr (bo_session out)"
    and "bo_parts out = (if existing \<noteq> None then [] else sort_key up_partNumber (pp_parts p))"
    and "bo_storageKey out = (case existing of None \<Rightarrow> pp_storageKey p | Some ob \<Rightarrow> ob_storageKey ob)"
    and "bo_deduplicated out = (existing \<noteq> None)"
  using assms(1)
  by (auto simp: readBegun_def Let_def existing_def[symmetric] sm_bind_eq_Inr_iff sm_lift_def sm_return_def readText_def
      split: if_splits)

text \<open>How the \<open>uuid\<close> type prints a value: a form without white space that it reads back as it is.\<close>

definition canonicalUuids :: "lib_env \<Rightarrow> bool" where
  "canonicalUuids env \<longleftrightarrow> (\<forall>i u. le_uuid env i = Some u \<longrightarrow> le_uuid env u = Some u \<and> js_trim u = u \<and> u \<noteq> [])"

text \<open>The tables a successful statement leaves, as the retry reads them.\<close>

lemma begun_tables:
  assumes rows: "beginRows env p (Some c) s = Inr t"
    and row: "js_get (db_receipts (lb_shared s)) (gc_scope c, gc_requestIdHash c) = Some row"
    and auth: "actorAuthorized g d (lb_shared s)"
  defines "existing \<equiv> js_get (lb_objects s) (pp_groupId p, pp_contentHash p)"
  shows "js_get (lb_materials t) (pp_materialId p) = Some (newMaterial env p existing)"
    and "js_get (lb_sessions t) (pp_uploadId p) = Some (if existing \<noteq> None
      then newSession env p (Some (pp_versionId p)) COMPLETED (pp_totalSize p) else newSession env p None PENDING 0)"
    and "existing \<noteq> None \<Longrightarrow> js_get (lb_versions t) (pp_versionId p) = Some (newVersion p (newMaterial env p existing))"
    and "lb_parts t = lb_parts s @ (if existing \<noteq> None then [] else newParts (pp_uploadId p) (pp_parts p))"
    and "storedTags env t i = storedTags env s i"
    and "activeMember g d t"
proof -
  show "js_get (lb_materials t) (pp_materialId p) = Some (newMaterial env p existing)"
    and "js_get (lb_sessions t) (pp_uploadId p) = Some (if existing \<noteq> None
      then newSession env p (Some (pp_versionId p)) COMPLETED (pp_totalSize p) else newSession env p None PENDING 0)"
    and "existing \<noteq> None \<Longrightarrow> js_get (lb_versions t) (pp_versionId p) = Some (newVersion p (newMaterial env p existing))"
    using rows by (rule beginRows_cases; (simp add: existing_def map_of_insert del: map_of_append)?)+
  note rest = beginRows_rest[OF rows row]
  show "lb_parts t = lb_parts s @ (if existing \<noteq> None then [] else newParts (pp_uploadId p) (pp_parts p))"
    using rest(1) by (simp only: existing_def)
  show "storedTags env t i = storedTags env s i" by (simp add: storedTags_def rest(2))
  show "activeMember g d t" using auth by (intro authorized_member) (simp add: rest(3) actorAuthorized_def)
qed

text \<open>What the retry reads is what the first call answered.\<close>

lemma begun_reads:
  assumes rows: "beginRows env p (Some c) s = Inr t"
    and row: "js_get (db_receipts (lb_shared s)) (gc_scope c, gc_requestIdHash c) = Some row"
    and auth: "actorAuthorized (pp_groupId p) d (lb_shared s)" and answer: "readBegun env p s t = (Inr out, t)"
    and mid: "js_trim (pp_materialId p) = pp_materialId p" "pp_materialId p \<noteq> []"
      "le_uuid env (pp_materialId p) = Some (pp_materialId p)"
    and uid: "js_trim (pp_uploadId p) = pp_uploadId p" "pp_uploadId p \<noteq> []" "le_uuid env (pp_uploadId p) = Some (pp_uploadId p)"
    and texts: "pp_versionId p \<noteq> []" "pp_originalFileName p \<noteq> []" and fresh: "\<forall>q \<in> set (lb_parts s). pt_uploadId q \<noteq> pp_uploadId p"
  shows "\<exists>ps. getUploadStatus env (pp_groupId p) d (pp_uploadId p) t = (Inr (bo_session out, ps), t)"
    and "\<exists>w. getMaterial env (pp_groupId p) d (pp_materialId p) t = (Inr (bo_material out, w), t)"
    and "se_materialId (bo_session out) = Some (pp_materialId p)"
    and "readUploadParts (pp_uploadId p) t = (Inr (bo_parts out), t)"
proof -
  define existing where "existing = js_get (lb_objects s) (pp_groupId p, pp_contentHash p)"
  note tabs = begun_tables[OF rows row auth, folded existing_def] and ans = readBegun_Inr[OF answer, folded existing_def]
  show "\<exists>ps. getUploadStatus env (pp_groupId p) d (pp_uploadId p) t = (Inr (bo_session out, ps), t)"
    by (rule getUploadStatus_run[OF uid tabs(6,2)]) (use ans(2) in \<open>simp_all split: if_splits\<close>)
  show "\<exists>w. getMaterial env (pp_groupId p) d (pp_materialId p) t = (Inr (bo_material out, w), t)"
  proof (rule getMaterial_run[OF mid tabs(6,1)])
    show "toMaterial (pp_materialId p) (newMaterial env p existing) (storedTags env t (pp_materialId p)) = Inr (bo_material out)"
      using ans(1) tabs(5) by simp
    fix i v assume cur: "lm_currentVersionId (newMaterial env p existing) = Some i" and v: "js_get (lb_versions t) i = Some v"
    have "existing \<noteq> None" "i = pp_versionId p" using cur by (auto split: if_splits)
    then have "v = newVersion p (newMaterial env p existing)" using tabs(3) v by simp
    then show "\<exists>w. toVersion i v = Inr w"
      using toMaterial_texts[OF ans(1)] texts mid(2) \<open>i = pp_versionId p\<close>
      by (intro toVersion_ok) (simp_all add: newVersion_def)
  qed simp
  show "se_materialId (bo_session out) = Some (pp_materialId p)"
    using toSession_fields[OF ans(2)] mid(2) by (cases existing) (simp_all add: readOptionalText_def)
  show "readUploadParts (pp_uploadId p) t = (Inr (bo_parts out), t)"
    using readUploadParts_new[OF fresh, of "pp_parts p"] fresh ans(3)
    by (cases existing) (simp_all add: readUploadParts_def sm_get_def tabs(4) filter_empty_conv)
qed

text \<open>The rows that the answer to a \<open>beginUpload\<close> shows are as they were.\<close>

definition sameUpload :: "lib_env \<Rightarrow> string \<Rightarrow> string \<Rightarrow> string \<Rightarrow> string \<Rightarrow> library_db \<Rightarrow> library_db \<Rightarrow> bool" where
  "sameUpload env g d mid uid s t \<longleftrightarrow> activeMember g d t \<and>
     js_get (lb_materials t) mid = js_get (lb_materials s) mid \<and>
     js_get (lb_sessions t) uid = js_get (lb_sessions s) uid \<and>
     (\<forall>m vid. js_get (lb_materials s) mid = Some m \<longrightarrow> lm_currentVersionId m = Some vid \<longrightarrow>
        js_get (lb_versions t) vid = js_get (lb_versions s) vid) \<and>
     filter (\<lambda>p. pt_uploadId p = uid) (lb_parts t) = filter (\<lambda>p. pt_uploadId p = uid) (lb_parts s) \<and>
     storedTags env t mid = storedTags env s mid"

lemma sameUpload_reads:
  assumes "sameUpload env g d mid uid s t"
  shows "js_trim uid = uid \<Longrightarrow> le_uuid env uid = Some uid \<Longrightarrow> getUploadStatus env g d uid s = (Inr r, s) \<Longrightarrow>
      getUploadStatus env g d uid t = (Inr r, t)"
    and "js_trim mid = mid \<Longrightarrow> le_uuid env mid = Some mid \<Longrightarrow> getMaterial env g d mid s = (Inr w, s) \<Longrightarrow>
      getMaterial env g d mid t = (Inr w, t)"
    and "readUploadParts uid s = (Inr ps, s) \<Longrightarrow> readUploadParts uid t = (Inr ps, t)"
proof -
  note D = assms[unfolded sameUpload_def]
  have parts: "filter (\<lambda>p. pt_uploadId p = uid \<and> P p) (lb_parts t) = filter (\<lambda>p. pt_uploadId p = uid \<and> P p) (lb_parts s)" for P
  proof -
    have "filter (\<lambda>p. pt_uploadId p = uid) (lb_parts t) = filter (\<lambda>p. pt_uploadId p = uid) (lb_parts s)" using D by simp
    from arg_cong[OF this, of "filter P"] show ?thesis by simp
  qed
  show "getUploadStatus env g d uid t = (Inr r, t)" if "js_trim uid = uid" "le_uuid env uid = Some uid"
    "getUploadStatus env g d uid s = (Inr r, s)"
  proof -
    have "uid \<noteq> []"
    proof
      assume "uid = []"
      then show False using that by (simp add: getUploadStatus_def requireIdentifier_def)
    qed
    with that D show ?thesis
      by (simp add: getUploadStatus_def requireIdentifier_def bindUuid_def assertLibraryMember_def visibleSession_def
          parts sm_bind_def monad_defs split: option.splits if_splits sum.splits) auto
  qed
  show "getMaterial env g d mid t = (Inr w, t)" if "js_trim mid = mid" "le_uuid env mid = Some mid"
    "getMaterial env g d mid s = (Inr w, s)"
  proof -
    have "mid \<noteq> []"
    proof
      assume "mid = []"
      then show False using that by (simp add: getMaterial_def requireIdentifier_def)
    qed
    with that have "\<exists>m. js_get (lb_materials s) mid = Some m \<and> activeMember g d s"
      by (simp add: getMaterial_def requireIdentifier_def bindUuid_def assertLibraryMember_def visibleMaterial_def
          sm_bind_def monad_defs split: option.splits if_splits)
    then obtain m where m: "js_get (lb_materials s) mid = Some m" and "activeMember g d s" by blast
    have "Option.bind (lm_currentVersionId m) (\<lambda>vid. map_option (Pair vid) (js_get (lb_versions t) vid)) =
        Option.bind (lm_currentVersionId m) (\<lambda>vid. map_option (Pair vid) (js_get (lb_versions s) vid))"
      using D m by (cases "lm_currentVersionId m") simp_all
    then show ?thesis
      using that D m \<open>activeMember g d s\<close> \<open>mid \<noteq> []\<close>
      by (simp add: getMaterial_def requireIdentifier_def bindUuid_def assertLibraryMember_def visibleMaterial_def
          sm_bind_def monad_defs split: option.splits if_splits sum.splits) (auto split: prod.splits sum.splits)
  qed
  show "readUploadParts uid t = (Inr ps, t)" if "readUploadParts uid s = (Inr ps, s)"
    using that D by (simp add: readUploadParts_def sm_get_def parts)
qed

text \<open>The two parts of the answer that a retry derives instead of reading.\<close>

lemma begun_derived:
  assumes answer: "readBegun env p s t = (Inr out, t)" and "library_wf s" and "pp_parts p \<noteq> []"
    and "pp_storageKey p = storageKeyFor (pp_groupId p) (pp_contentHash p)"
  shows "bo_storageKey out = storageKeyFor (mt_groupId (bo_material out)) (mt_contentHash (bo_material out))"
    and "bo_deduplicated out = (length (bo_parts out) = 0)"
proof -
  define existing where "existing = js_get (lb_objects s) (pp_groupId p, pp_contentHash p)"
  note ans = readBegun_Inr[OF answer, folded existing_def]
  have "ob_storageKey ob = storageKeyFor (pp_groupId p) (pp_contentHash p)" if "existing = Some ob" for ob
    using that library_wfD(9)[OF assms(2)] unfolding existing_def objectsOk_def by blast
  then show "bo_storageKey out = storageKeyFor (mt_groupId (bo_material out)) (mt_contentHash (bo_material out))"
    using ans(4) toMaterial_texts[OF ans(1)] assms(4) by (cases existing) simp_all
  show "bo_deduplicated out = (length (bo_parts out) = 0)"
    using ans(3,5) assms(3) by (cases existing) simp_all
qed

text \<open>
  C5: A retried upload begins once. A \<open>beginUpload\<close> that names a request identifier and its material's
  identifier succeeds. The same request, made again after any later calls of the library by anyone and any
  later writes of other services that leave its receipt alone, changes nothing, whatever identifiers it draws.
  If its receipt has not expired, its device is an active member, and the material with its current version
  and tags, the session and its parts are still as the first call left them, it is answered with the same
  material, session and parts and the same verdict on deduplication. Each call is taken as a whole.
\<close>

theorem retried_begin_replays:
  assumes first: "beginUpload env g d now later newId uid vid input (Some requestId) s = (Inr out, t)"
    and norm: "normalizeRequestId requestId = Inr (Some rid)"
    and un: "\<And>row. js_get (db_receipts (lb_shared s)) (receiptKey env BEGIN_MATERIAL_UPLOAD rid) = Some row \<Longrightarrow>
      rr_completedAt row = None"
    and proposed: "bi_materialId input = Some proposal" "js_trim proposal \<noteq> []"
    and ids: "canonicalUuids env" "le_uuid env uid = Some uid" "vid \<noteq> []"
      "\<forall>p \<in> set (lb_parts s). pt_uploadId p \<noteq> uid"
    and wf: "library_wf s"
    and continued: "reaches (later_step env (receiptKey env BEGIN_MATERIAL_UPLOAD rid)) t t'"
  shows "snd (beginUpload env g d now' later' newId' uid' vid' input (Some requestId) t') = t' \<and>
    (later' < now + ee_receiptLifetimeMs (le_events env) \<longrightarrow>
     sameUpload env g d (mt_id (bo_material out)) (se_id (bo_session out)) t t' \<longrightarrow>
     fst (beginUpload env g d now' later' newId' uid' vid' input (Some requestId) t') = Inr out)"
proof -
  let ?sc = BEGIN_MATERIAL_UPLOAD
  obtain k mid s1 where k: "beginChecks env g newId input = Inr k" and mid: "le_uuid env (bc_materialId k) = Some mid"
    and cl: "claim env ?sc (Some requestId) now (beginFields k) s = (Inr (Some (claimOf env ?sc rid (beginFields k) True)), s1)"
    and auth: "actorAuthorized g d (lb_shared s1)"
    and rows: "beginRows env (beginParams input k d now mid uid vid) (Some (claimOf env ?sc rid (beginFields k) True)) s1 = Inr t"
    and answer: "readBegun env (beginParams input k d now mid uid vid) s1 t = (Inr out, t)"
    using beginUpload_success[OF first norm un] by metis
  let ?c = "claimOf env ?sc rid (beginFields k) True" and ?p = "beginParams input k d now mid uid vid"
    and ?key = "receiptKey env ?sc rid" and ?f = "fingerprintOf env ?sc (beginFields k)"
    and ?again = "claimOf env ?sc rid (beginFields k) False"
  note H = claim_hashes[OF cl norm]
  obtain row where row: "rr_fingerprint row = ?f" "rr_expiresAt row = now + ee_receiptLifetimeMs (le_events env)"
    and s1: "s1 = s\<lparr>lb_shared := (lb_shared s)\<lparr>db_receipts := js_set ?key row (db_receipts (lb_shared s))\<rparr>\<rparr>"
    using claim_uncompleted(2)[OF cl norm un] by blast
  have key: "(gc_scope ?c, gc_requestIdHash ?c) = ?key" by (simp add: claimOf_def receiptKey_def)
  have row1: "js_get (db_receipts (lb_shared s1)) (gc_scope ?c, gc_requestIdHash ?c) = Some row"
    by (simp add: s1 key js_get_set)
  note rest = beginRows_rest[OF rows row1, unfolded key]
  let ?done = "row\<lparr>rr_groupId := Some (pp_groupId ?p), rr_completedAt := Some (pp_now ?p)\<rparr>"
  have recorded: "js_get (db_receipts (lb_shared t)) ?key = Some ?done" by (simp add: rest(3) js_get_set)
  then have kept: "receiptKept ?key t t'" using later_receipt[OF continued] by (simp add: receiptDone_def)
  then have recorded': "js_get (db_receipts (lb_shared t')) ?key = Some ?done"
    and columns': "js_get (lb_receiptColumns t') ?key = Some \<lparr>rx_resourceId = Some (pp_uploadId ?p), rx_revision = None\<rparr>"
    using recorded by (simp_all add: receiptKept_def rest(4) js_get_set)
  have refused: "claim env ?sc (Some requestId) now' (beginFields k) t' = (Inr (Some ?again), t')"
    by (rule claim_completed[OF H(1) norm H(2,3) recorded']) simp
  have "beginChecks env g newId' input = Inr k" using k beginChecks_proposed[OF proposed] by metis
  moreover have "gc_claimed ?again = False" by (simp add: claimOf_def)
  ultimately have retry: "beginUpload env g d now' later' newId' uid' vid' input (Some requestId) t' =
      replayBeginUpload env g d later' ?again t'"
    by (simp add: beginUpload_def sm_bind_def sm_lift_def refused)
  have unchanged: "snd (replayBeginUpload env g d later' ?again t') = t'"
    using reads_replays(4) unfolding reads_def by blast
  have p: "pp_groupId ?p = g" "pp_materialId ?p = mid" "pp_uploadId ?p = uid" "pp_versionId ?p = vid"
    "pp_parts ?p = bc_parts k" "pp_originalFileName ?p = bc_originalFileName k"
    "pp_storageKey ?p = storageKeyFor (pp_groupId ?p) (pp_contentHash ?p)"
    using beginChecks_prepared(1)[OF k] by (simp_all add: beginParams_def)
  have canon: "js_trim mid = mid" "mid \<noteq> []" "le_uuid env mid = Some mid" "js_trim uid = uid" "uid \<noteq> []"
    using ids(1,2) mid unfolding canonicalUuids_def by blast+
  have wf1: "library_wf s1" and parts1: "lb_parts s1 = lb_parts s" using wf by (simp_all add: s1 library_wf_def)
  have reads1: "\<exists>ps. getUploadStatus env g d uid t = (Inr (bo_session out, ps), t)"
      "\<exists>w. getMaterial env g d mid t = (Inr (bo_material out, w), t)"
      "se_materialId (bo_session out) = Some mid" "readUploadParts uid t = (Inr (bo_parts out), t)"
    using begun_reads[OF rows row1 _ answer] auth canon ids beginChecks_fileName[OF k] by (simp_all add: p parts1)
  have named: "mt_id (bo_material out) = mid" "se_id (bo_session out) = uid"
    using toMaterial_texts(6)[OF readBegun_Inr(1)[OF answer]] toSession_fields(3)[OF readBegun_Inr(2)[OF answer]]
    by (simp_all add: p)
  have derived: "bo_storageKey out = storageKeyFor (mt_groupId (bo_material out)) (mt_contentHash (bo_material out))"
      "bo_deduplicated out = (length (bo_parts out) = 0)"
    using begun_derived[OF answer wf1] beginChecks_parts[OF k] p(5,7) by simp_all
  have "fst (replayBeginUpload env g d later' ?again t') = Inr out"
    if alive: "later' < now + ee_receiptLifetimeMs (le_events env)" and same: "sameUpload env g d mid uid t t'"
  proof -
    have resolved: "resolveRefused env ?again failure later' t' = (Inr (Some uid, None), t')" for failure
      by (rule resolveRefused_completed[OF H(1) recorded' _ _ _ _ columns'[unfolded p(3)]])
         (use row alive normalized_hash[OF H(3)] canon in simp_all)
    obtain ps w where at_t: "getUploadStatus env g d uid t = (Inr (bo_session out, ps), t)"
      "getMaterial env g d mid t = (Inr (bo_material out, w), t)"
      using reads1 by blast
    note sameUpload_reads(1)[OF same canon(4) ids(2) at_t(1)] sameUpload_reads(2)[OF same canon(1,3) at_t(2)]
      sameUpload_reads(3)[OF same reads1(4)]
    then show ?thesis
      using derived reads1(3) by (simp add: replayBeginUpload_def sm_bind_def resolved requireRecordedResource_def)
  qed
  then show ?thesis using retry unchanged named by simp
qed

definition demoRetryInput :: "string option \<Rightarrow> begin_input" where
  "demoRetryInput materialId = \<lparr>bi_groupId = ''g'', bi_materialId = materialId, bi_displayName = ''clip'',
     bi_originalFileName = ''clip'', bi_category = VIDEO, bi_mimeType = ''v/mp4'', bi_totalSize = 25,
     bi_contentHash = ''sha-0001'', bi_metadata = None, bi_partPlan = None\<rparr>"

definition demoFirst :: "string option \<Rightarrow> (rt_error + begin_outcome) \<times> library_db" where
  "demoFirst materialId = beginUpload demoLibEnv ''g'' ''d'' 5 6 ''a'' ''u1'' ''v1'' (demoRetryInput materialId)
     (Some (Some ''req'')) (emptyLibrary (demoShared EDITOR))"

lemma demoFirst_returns: "case fst (demoFirst (Some ''m'')) of Inl e \<Rightarrow> False | Inr out \<Rightarrow> length (bo_parts out) = 3"
  by code_simp

text \<open>Between the call and its retry another device's upload has begun.\<close>

definition demoBetween :: lib_call where
  "demoBetween = BeginUpload ''b'' ''u3'' ''v3'' (demoRetryInput (Some ''m2''))"

lemma demoFirst_same:
  "case demoFirst (Some ''m'') of (r, t) \<Rightarrow>
     (case r of
        Inl e \<Rightarrow> False
      | Inr out \<Rightarrow> mt_id (bo_material out) = ''m'' \<and> se_id (bo_session out) = ''u1'' \<and>
          map_option lm_currentVersionId (js_get (lb_materials t) ''m'') = Some None \<and>
          (let t' = runCall demoLibEnv demoCaller demoBetween t in
           length (lb_materials t') = 2 \<and> activeMember ''g'' ''d'' t' \<and>
           js_get (lb_materials t') ''m'' = js_get (lb_materials t) ''m'' \<and>
           js_get (lb_sessions t') ''u1'' = js_get (lb_sessions t) ''u1'' \<and>
           filter (\<lambda>p. pt_uploadId p = ''u1'') (lb_parts t') = filter (\<lambda>p. pt_uploadId p = ''u1'') (lb_parts t) \<and>
           storedTags demoLibEnv t' ''m'' = storedTags demoLibEnv t ''m''))"
  by code_simp

theorem retried_begin_replays_witness:
  "case demoFirst (Some ''m'') of (r, t) \<Rightarrow>
     let t' = runCall demoLibEnv demoCaller demoBetween t in
     length (lb_materials t') = 2 \<and>
     beginUpload demoLibEnv ''g'' ''d'' 50 60 ''b'' ''u2'' ''v2'' (demoRetryInput (Some ''m'')) (Some (Some ''req'')) t' = (r, t')"
proof -
  let ?s = "emptyLibrary (demoShared EDITOR)"
  obtain out t where first: "demoFirst (Some ''m'') = (Inr out, t)"
    using demoFirst_returns by (cases "demoFirst (Some ''m'')"; cases "fst (demoFirst (Some ''m''))") auto
  let ?t' = "runCall demoLibEnv demoCaller demoBetween t"
    and ?retry = "beginUpload demoLibEnv ''g'' ''d'' 50 60 ''b'' ''u2'' ''v2'' (demoRetryInput (Some ''m'')) (Some (Some ''req''))"
  note facts = demoFirst_same[unfolded first Let_def, simplified]
  have "snd (?retry ?t') = ?t' \<and>
      (60 < 5 + ee_receiptLifetimeMs (le_events demoLibEnv) \<longrightarrow>
       sameUpload demoLibEnv ''g'' ''d'' (mt_id (bo_material out)) (se_id (bo_session out)) t ?t' \<longrightarrow>
       fst (?retry ?t') = Inr out)"
  proof (rule retried_begin_replays)
    show "beginUpload demoLibEnv ''g'' ''d'' 5 6 ''a'' ''u1'' ''v1'' (demoRetryInput (Some ''m'')) (Some (Some ''req'')) ?s
        = (Inr out, t)" using first by (simp add: demoFirst_def)
    show "normalizeRequestId (Some ''req'') = Inr (Some ''req'')" by code_simp
    show "library_wf ?s" by (rule library.initial_inv) blast
    show "canonicalUuids demoLibEnv" by (auto simp: canonicalUuids_def demoLibEnv_def)
    show "bi_materialId (demoRetryInput (Some ''m'')) = Some ''m''" by (simp add: demoRetryInput_def)
    show "js_trim ''m'' \<noteq> []" "le_uuid demoLibEnv ''u1'' = Some ''u1''" by code_simp+
    show "reaches (later_step demoLibEnv (receiptKey demoLibEnv BEGIN_MATERIAL_UPLOAD ''req'')) t ?t'"
      by (rule reaches.reach_step, rule reaches.reach_refl, rule later_call)
  qed (simp_all add: emptyLibrary_def demoShared_def)
  moreover have "sameUpload demoLibEnv ''g'' ''d'' (mt_id (bo_material out)) (se_id (bo_session out)) t ?t'"
    using facts by (auto simp: sameUpload_def)
  ultimately have "fst (?retry ?t') = Inr out" "snd (?retry ?t') = ?t'" by (simp_all add: demoLibEnv_def)
  then have "?retry ?t' = (Inr out, ?t')" by (metis prod.collapse)
  then show ?thesis using facts by (simp add: first Let_def)
qed

text \<open>
  A retry the code cannot recognize. A \<open>beginUpload\<close> with a request identifier that leaves the
  material's identifier to the server succeeds, and the same request, made again, is refused as a reuse of
  the identifier for another payload: the identifier the server drew is part of the fingerprint.
\<close>

theorem retry_without_material_is_refused:
  "case demoFirst None of (r, t) \<Rightarrow>
     (case r of Inl e \<Rightarrow> False | Inr out \<Rightarrow> mt_id (bo_material out) = ''a'') \<and>
     fst (beginUpload demoLibEnv ''g'' ''d'' 50 60 ''b'' ''u2'' ''v2'' (demoRetryInput None) (Some (Some ''req'')) t) =
       Inl payloadMismatch"
  by code_simp

end
