(* ===== verification/Material_Correct.thy ===== *)
theory Material_Correct
  imports Material_Retry
begin

text \<open>
  The properties of the material library: the invariant and the reference counts of the reachable
  libraries, retries of \<open>BeginUpload\<close>, the version numbers, and executions that show where the code does
  not do what its comments say.
\<close>

section \<open>Demonstration histories\<close>

definition demoBegin :: "string option \<Rightarrow> string \<Rightarrow> begin_input" where
  "demoBegin materialId contentHash = \<lparr>bi_groupId = ''g'', bi_materialId = materialId, bi_displayName = ''clip'',
     bi_originalFileName = ''clip'', bi_category = VIDEO, bi_mimeType = ''v/mp4'', bi_totalSize = 25,
     bi_contentHash = contentHash, bi_metadata = None, bi_partPlan = None\<rparr>"

definition demoVersion :: "string \<Rightarrow> string \<Rightarrow> version_input" where
  "demoVersion materialId contentHash = \<lparr>vi_groupId = ''g'', vi_materialId = materialId,
     vi_originalFileName = ''clip'', vi_mimeType = ''v/mp4'', vi_totalSize = 25, vi_contentHash = contentHash,
     vi_partPlan = None\<rparr>"

text \<open>Calls of one editor, in order, on an empty library.\<close>

definition runCalls :: "lib_call list \<Rightarrow> library_db" where
  "runCalls calls = fold (runCall demoLibEnv demoCaller) calls (emptyLibrary (demoShared EDITOR))"

lemma runCalls_reaches: "reaches (library_step demoLibEnv) (emptyLibrary (demoShared EDITOR)) (runCalls calls)"
  unfolding runCalls_def
  by (rule fold_reaches[where P = "\<lambda>_. True"])
     (auto intro: reach_step[OF reach_refl] step_call)

definition plainCall :: "lib_call \<Rightarrow> bool" where
  "plainCall call = (case call of CreateMaterialVersion u v i \<Rightarrow> False | _ \<Rightarrow> True)"

lemma runCalls_orderly:
  assumes "list_all plainCall calls"
  shows "reaches (orderly_step demoLibEnv) (emptyLibrary (demoShared EDITOR)) (runCalls calls)"
  unfolding runCalls_def
proof (rule fold_reaches[where P = "\<lambda>_. True"])
  fix call s assume "call \<in> set calls"
  then have "plainCall call" using assms by (simp add: list_all_iff)
  then have "\<not> admitted env call i" for env i by (cases call) (simp_all add: plainCall_def)
  then show "reaches (orderly_step demoLibEnv) s (runCall demoLibEnv demoCaller call s) \<and> True"
    by (auto intro!: reach_step[OF reach_refl] orderly_call)
qed simp

definition uploaded :: library_db where
  "uploaded = runCalls [BeginUpload ''a'' ''u1'' ''v0'' (demoBegin None ''sha-0001''),
     CompleteUpload ''v1'' ''u1'' ''sha-0001'' []]"

definition uploadedMaterial :: lib_material where
  "uploadedMaterial = \<lparr>lm_groupId = ''g'', lm_displayName = ''clip'', lm_category = VIDEO, lm_mimeType = ''v/mp4'',
     lm_byteSize = 25, lm_contentHash = ''sha-0001'', lm_status = READY, lm_currentVersionId = Some ''v1'',
     lm_metadata = [], lm_revision = 2, lm_createdAt = 5, lm_updatedAt = 5, lm_trashedAt = None\<rparr>"

definition uploadedVersion :: lib_version where
  "uploadedVersion = \<lparr>lv_materialId = ''a'', lv_sequence = 2, lv_contentHash = ''sha-0001'', lv_mimeType = ''v/mp4'',
     lv_byteSize = 25, lv_originalFileName = ''clip'', lv_createdByDeviceId = Some ''d'', lv_createdAt = 5\<rparr>"

lemma uploaded_tables:
  "js_get (lb_materials uploaded) ''a'' = Some uploadedMaterial"
  "js_get (lb_versions uploaded) ''v1'' = Some uploadedVersion"
  by code_simp+

section \<open>The invariant\<close>

text \<open>
  C11: The pointers the schema does not check. In every library that calls of the store can produce, the
  current version of a material exists and is a version of that material, with a sequence number the
  material's revision has reached, whatever calls failed, were retried or were refused on the way, and
  whatever other services wrote to the tables they share.
\<close>

theorem current_version_is_its_own:
  assumes "reaches (library_step env) (emptyLibrary x) s"
    and "js_get (lb_materials s) i = Some m" and "lm_currentVersionId m = Some vid"
  shows "\<exists>v. js_get (lb_versions s) vid = Some v \<and> lv_materialId v = i \<and> lv_sequence v \<le> lm_revision m"
proof -
  have wf: "library_wf s" using library.reachable_inv assms(1) by blast
  obtain v where v: "js_get (lb_versions s) vid = Some v" "lv_materialId v = i"
    using library_wfD(5)[OF wf] assms(2,3) unfolding materialsOk_def by blast
  then have "lv_sequence v \<le> lm_revision m"
    using library_wfD(6)[OF wf] assms(2) unfolding versionsOk_def by fastforce
  with v show ?thesis by blast
qed

theorem current_version_is_its_own_witness:
  "\<exists>v. js_get (lb_versions uploaded) ''v1'' = Some v \<and> lv_materialId v = ''a'' \<and> lv_sequence v \<le> 2"
  using current_version_is_its_own[OF runCalls_reaches uploaded_tables(1)[unfolded uploaded_def], of "''v1''"]
  by (simp add: uploadedMaterial_def uploaded_def)

text \<open>
  C4: No purge takes bytes a version still names. In every library grown by calls that give a material no
  new version while its first upload is open, every version of every material resolves to a stored object
  of its content, under the key derived from the group and the content, with at least as many references
  as its material holds: completing, cancelling, trashing, restoring and purging other materials of the
  same content included.
\<close>

theorem version_keeps_its_object:
  assumes "reaches (orderly_step env) (emptyLibrary x) s"
    and "js_get (lb_materials s) i = Some m" and "js_get (lb_versions s) vid = Some v" and "lv_materialId v = i"
  shows "\<exists>ob. resolvedLocation i (Some vid) m s = Some (vid, v, ob) \<and>
    ob_storageKey ob = storageKeyFor (lm_groupId m) (lv_contentHash v) \<and>
    int (heldReferences i m (lv_contentHash v) (lb_versions s)) \<le> ob_referenceCount ob"
proof -
  have acc: "accounted s" using orderly.reachable_inv assms(1) by blast
  have "0 < heldReferences i m (lv_contentHash v) (lb_versions s)" using held_positive[OF assms(3)] assms(4) by simp
  moreover have "int (heldReferences i m (lv_contentHash v) (lb_versions s)) \<le> refCount s (lm_groupId m) (lv_contentHash v)"
    using holders_nonneg_row[OF assms(2)] acc unfolding accounted_def covered_def by (meson order_trans)
  ultimately obtain ob where ob: "js_get (lb_objects s) (lm_groupId m, lv_contentHash v) = Some ob"
    and "int (heldReferences i m (lv_contentHash v) (lb_versions s)) \<le> ob_referenceCount ob"
    by (auto simp: refCount_def split: option.splits)
  moreover have "ob_storageKey ob = storageKeyFor (lm_groupId m) (lv_contentHash v)"
    using library_wfD(9)[of s] acc ob unfolding accounted_def objectsOk_def by blast
  ultimately show ?thesis using assms(3,4) by (auto simp: resolvedLocation_def)
qed

theorem version_keeps_its_object_witness:
  "\<exists>ob. resolvedLocation ''a'' (Some ''v1'') uploadedMaterial uploaded = Some (''v1'', uploadedVersion, ob) \<and>
    ob_storageKey ob = ''materials/g/sha-0001'' \<and> 1 \<le> ob_referenceCount ob"
proof -
  have "reaches (orderly_step demoLibEnv) (emptyLibrary (demoShared EDITOR)) uploaded"
    unfolding uploaded_def by (rule runCalls_orderly) (simp add: plainCall_def)
  moreover have "lv_materialId uploadedVersion = ''a''" by (simp add: uploadedVersion_def)
  moreover have "storageKeyFor (lm_groupId uploadedMaterial) (lv_contentHash uploadedVersion) = ''materials/g/sha-0001''"
    by code_simp
  moreover have "heldReferences ''a'' uploadedMaterial (lv_contentHash uploadedVersion) (lb_versions uploaded) = 1"
    by code_simp
  ultimately show ?thesis using version_keeps_its_object[OF _ uploaded_tables] by fastforce
qed

text \<open>
  C24: Version numbers never collide. In every reachable library the sequence number a new version takes,
  from \<open>createMaterialVersion\<close> or from the completion of a first upload, differs from every number of its
  material, so an insertion can only be refused for the identifier it was given: the unique index on
  material and sequence never has to fire.
\<close>

theorem version_numbers_never_collide:
  assumes "reaches (library_step env) (emptyLibrary x) s" and "js_get (lb_materials s) (pp_materialId p) = Some m"
  shows "(versionConflict vid (newVersion p (versionedMaterial p m)) s \<longleftrightarrow> has_key (lb_versions s) vid) \<and>
    (versionConflict vid (completedVersion d now u (pp_materialId p) m) s \<longleftrightarrow> has_key (lb_versions s) vid)"
proof -
  have wf: "library_wf s" using library.reachable_inv assms(1) by blast
  have below: "lv_sequence w \<le> lm_revision m" if w: "w \<in> set (js_values (lb_versions s))" "lv_materialId w = pp_materialId p" for w
  proof -
    obtain j where "js_get (lb_versions s) j = Some w" using w(1) js_get_values[OF library_wfD(3)[OF wf]] by blast
    then show ?thesis using library_wfD(6)[OF wf] w(2) assms(2) unfolding versionsOk_def by fastforce
  qed
  have "versionConflict vid v s \<longleftrightarrow> has_key (lb_versions s) vid"
    if "lv_materialId v = pp_materialId p" "lv_sequence v = lm_revision m + 1" for v
    using below that unfolding versionConflict_def list_ex_iff by fastforce
  then show ?thesis by (simp add: versionedMaterial_def completedVersion_def)
qed

theorem version_numbers_never_collide_witness:
  "versionConflict ''v2'' (completedVersion ''d'' 9 (the (js_get (lb_sessions uploaded) ''u1'')) ''a'' uploadedMaterial) uploaded
     \<longleftrightarrow> has_key (lb_versions uploaded) ''v2''"
proof -
  let ?u = "the (js_get (lb_sessions uploaded) ''u1'')"
  define p where "p = beginParams (demoBegin None ''sha-0001'') \<lparr>bc_groupId = ''g'', bc_displayName = ''clip'',
    bc_originalFileName = ''clip'', bc_mimeType = ''v/mp4'', bc_contentHash = ''sha-0001'', bc_totalSize = 25,
    bc_metadata = [], bc_materialId = ''a'', bc_chunkSize = 10, bc_parts = []\<rparr> ''d'' 9 ''a'' ''u2'' ''v2''"
  have "pp_materialId p = ''a''" by (simp add: p_def beginParams_def)
  then show ?thesis
    using version_numbers_never_collide[OF runCalls_reaches, where p = p and m = uploadedMaterial and vid = "''v2''"
        and d = "''d''" and now = 9 and u = ?u] uploaded_tables(1)
    unfolding uploaded_def by (metis (no_types, lifting))
qed

section \<open>The largest upload\<close>

lemma claim_effect:
  assumes "claim env scope mutation now fs s = (r, s1)"
  shows "receiptsOnly (requestReceipt env scope mutation) s s1"
proof -
  have "sm_wp (claim env scope mutation now fs) (\<lambda>_. receiptsOnly (requestReceipt env scope mutation) s)
      (\<lambda>_. receiptsOnly (requestReceipt env scope mutation) s) s"
    by (rule claim_wp) simp_all
  then show ?thesis using assms by (simp add: sm_wp_state)
qed

text \<open>
  C25: The accepted sizes are not the stored ones. The checks accept a size as long as a thousand parts of
  a safe integer cover it, but the column of the part size is a 32-bit integer: above a thousand times its
  maximum an upload that passed every check ends as an error of the driver, not as the
  \<open>INVALID_ARGUMENT\<close> that names the limit, if it carries no request identifier or its receipt can be
  claimed. Nothing is written but, for a call with a request identifier, the claim of its receipt, which
  stays uncompleted.
\<close>

theorem oversized_upload_is_a_driver_error:
  assumes "beginChecks env g newId input = Inr k" and "maxInteger * maxUploadParts < bc_totalSize k"
  shows "beginUpload env g d now later newId uid vid input None s = (Inl driverError, s) \<and>
    receiptsOnly (requestReceipt env BEGIN_MATERIAL_UPLOAD mutation) s
      (snd (beginUpload env g d now later newId uid vid input mutation s)) \<and>
    (\<forall>receipt s1. claim env BEGIN_MATERIAL_UPLOAD mutation now (beginFields k) s = (Inr receipt, s1) \<and>
        map_option gc_claimed receipt \<noteq> Some False \<longrightarrow>
      fst (beginUpload env g d now later newId uid vid input mutation s) = Inl driverError)"
proof -
  have chunk: "chunkSizeFor (bc_totalSize k) (le_uploadChunkSize env) = Inr (bc_chunkSize k)"
    using assms(1) by (auto simp: beginChecks_def split: sum.splits if_splits)
  have "maxInteger < bc_chunkSize k"
  proof (cases "bc_totalSize k \<le> le_uploadChunkSize env * maxUploadParts")
    case True
    then have "maxInteger * 1000 < le_uploadChunkSize env * 1000" using assms(2) by (simp add: maxUploadParts_def)
    then show ?thesis using chunk True by (simp add: chunkSizeFor_def)
  next
    case False
    then have "bc_chunkSize k = (bc_totalSize k + 1000 - 1) div 1000"
      using chunk by (simp add: chunkSizeFor_def Let_def maxUploadParts_def split: if_splits)
    then show ?thesis using assms(2) by (simp add: maxUploadParts_def maxInteger_def)
  qed
  then have sizes: "bindSizes env (beginParams input k d now mid uid vid) = Inl driverError" for mid
    by (simp add: bindSizes_def beginParams_def)
  have claimed: "beginUpload env g d now later newId uid vid input mutation s = (Inl driverError, s1)"
    if "claim env BEGIN_MATERIAL_UPLOAD mutation now (beginFields k) s = (Inr receipt, s1)"
      "map_option gc_claimed receipt \<noteq> Some False" for mutation receipt s1
    using that sizes
    by (cases "le_uuid env (bc_materialId k)")
      (auto simp: beginUpload_def assms(1) bindUuid_def beginStatement_def sm_bind_def sm_lift_def sm_return_def
        sm_throw_def)
  have "receiptsOnly (requestReceipt env BEGIN_MATERIAL_UPLOAD mutation) s
      (snd (beginUpload env g d now later newId uid vid input mutation s))"
  proof (cases "claim env BEGIN_MATERIAL_UPLOAD mutation now (beginFields k) s")
    case (Pair r s1)
    note only = claim_effect[OF Pair]
    show ?thesis
    proof (cases r)
      case (Inl e)
      then show ?thesis using Pair only by (simp add: beginUpload_def assms(1) sm_bind_def sm_lift_def)
    next
      case (Inr receipt)
      show ?thesis
      proof (cases "map_option gc_claimed receipt = Some False")
        case True
        then have "beginUpload env g d now later newId uid vid input mutation s =
            replayBeginUpload env g d later (the receipt) s1"
          using Pair Inr by (simp add: beginUpload_def assms(1) sm_bind_def sm_lift_def)
        moreover have "snd (replayBeginUpload env g d later (the receipt) s1) = s1"
          using reads_replays(4) unfolding reads_def by blast
        ultimately show ?thesis using only by simp
      next
        case False
        then show ?thesis using claimed[of mutation receipt s1] Pair Inr only by simp
      qed
    qed
  qed
  moreover have "beginUpload env g d now later newId uid vid input None s = (Inl driverError, s)"
    by (rule claimed[where receipt = None]) (simp_all add: claim_def sm_return_def)
  ultimately show ?thesis using claimed by fastforce
qed

theorem oversized_upload_is_a_driver_error_witness:
  "beginUpload demoLibEnv ''g'' ''d'' 5 6 ''a'' ''u1'' ''v1''
     ((demoBegin None ''sha-0001'')\<lparr>bi_totalSize := 3000000000000, bi_partPlan := Some (WholeObject 4000000000000)\<rparr>)
     None (emptyLibrary (demoShared EDITOR)) = (Inl driverError, emptyLibrary (demoShared EDITOR))"
proof -
  let ?input = "(demoBegin None ''sha-0001'')\<lparr>bi_totalSize := 3000000000000, bi_partPlan := Some (WholeObject 4000000000000)\<rparr>"
  have "case beginChecks demoLibEnv ''g'' ''a'' ?input of Inl e \<Rightarrow> False | Inr k \<Rightarrow> maxInteger * maxUploadParts < bc_totalSize k"
    by code_simp
  then obtain k where "beginChecks demoLibEnv ''g'' ''a'' ?input = Inr k" "maxInteger * maxUploadParts < bc_totalSize k"
    by (auto split: sum.splits)
  from conjunct1[OF oversized_upload_is_a_driver_error[OF this]] show ?thesis .
qed

section \<open>Where the code departs from its comments\<close>

text \<open>
  Deduplication without bytes. A device begins an upload, stores nothing, cancels it, and begins an
  upload of the same content: the second answer says the group already holds the bytes, asks for no part,
  and the library lists a material that is ready, although no part of any upload has been completed.
\<close>

theorem cancelled_upload_counts_as_stored:
  "let s = runCalls [BeginUpload ''a'' ''u1'' ''v1'' (demoBegin None ''sha-0001''), CancelUpload ''u1''];
       (r, t) = beginUpload demoLibEnv ''g'' ''d'' 7 7 ''b'' ''u2'' ''v2'' (demoBegin None ''sha-0001'') None s in
   (case r of Inl e \<Rightarrow> False | Inr o' \<Rightarrow> bo_deduplicated o' \<and> bo_parts o' = [] \<and> mt_status (bo_material o') = READY) \<and>
   list_all (\<lambda>p. pt_completedAt p = None) (lb_parts t) \<and>
   map_option us_state (js_get (lb_sessions t) ''u1'') = Some CANCELLED"
  by code_simp

text \<open>
  A purge that takes bytes of another material. A material receives a new version while its first
  upload is open; the first upload then completes under the new content and adds a second version of it
  without a second reference. Purging the material drops the stored object, and the version of another
  material with that content, which is listed as ready, resolves to no object.
\<close>

theorem purge_drops_a_shared_object:
  "let s = runCalls [BeginUpload ''a'' ''u1'' ''v1'' (demoBegin None ''sha-0001''),
             CreateMaterialVersion ''u2'' ''v2'' (demoVersion ''a'' ''sha-0002''),
             CompleteUpload ''v3'' ''u1'' ''sha-0002'' [],
             BeginUpload ''b'' ''u3'' ''v4'' (demoBegin None ''sha-0002''),
             MoveToTrash ''g'' ''a'', PurgeMaterial ''g'' ''a'' ''a''] in
   map_option lm_status (js_get (lb_materials s) ''b'') = Some READY \<and>
   map_option lm_currentVersionId (js_get (lb_materials s) ''b'') = Some (Some ''v4'') \<and>
   fst (readObjectLocation demoLibEnv ''g'' ''d'' ''b'' None s) =
     Inl (failedPrecondition ''The material has no stored version to grant access to.'')"
  by code_simp

text \<open>
  An upload that cannot be completed honestly. A material is uploaded and two new versions of it are
  begun; completing the first of them with the very content it was begun with is refused, as not the
  content this upload reserved.
\<close>

theorem overtaken_upload_is_refused:
  "let s = runCalls [BeginUpload ''a'' ''u1'' ''v0'' (demoBegin None ''sha-0001''),
             CompleteUpload ''v1'' ''u1'' ''sha-0001'' [],
             CreateMaterialVersion ''u2'' ''v2'' (demoVersion ''a'' ''sha-0002''),
             CreateMaterialVersion ''u3'' ''v3'' (demoVersion ''a'' ''sha-0003'')] in
   map_option lv_contentHash (js_get (lb_versions s) ''v2'') = Some ''sha-0002'' \<and>
   map_option us_versionId (js_get (lb_sessions s) ''u2'') = Some (Some ''v2'') \<and>
   fst (completeUpload demoLibEnv ''g'' ''d'' 7 7 ''v9'' ''u2'' ''sha-0002'' [] None s) =
     Inl (failedPrecondition ''content_hash does not match the content this upload reserved.'')"
  by code_simp

text \<open>A restored material is ready although the upload of its current version has not finished.\<close>

theorem restored_without_its_bytes:
  "let s = runCalls [BeginUpload ''a'' ''u1'' ''v0'' (demoBegin None ''sha-0001''),
             CompleteUpload ''v1'' ''u1'' ''sha-0001'' [],
             CreateMaterialVersion ''u2'' ''v2'' (demoVersion ''a'' ''sha-0002''),
             MoveToTrash ''g'' ''a'', RestoreMaterial ''g'' ''a''] in
   map_option lm_status (js_get (lb_materials s) ''a'') = Some READY \<and>
   map_option lm_currentVersionId (js_get (lb_materials s) ''a'') = Some (Some ''v2'') \<and>
   map_option us_state (js_get (lb_sessions s) ''u2'') = Some PENDING"
  by code_simp

text \<open>An upload that completes after its material was trashed makes it ready while it stays in the trash.\<close>

theorem completed_in_the_trash:
  "let s = runCalls [BeginUpload ''a'' ''u1'' ''v0'' (demoBegin None ''sha-0001''), MoveToTrash ''g'' ''a'',
             CompleteUpload ''v1'' ''u1'' ''sha-0001'' []] in
   map_option lm_status (js_get (lb_materials s) ''a'') = Some READY \<and>
   map_option lm_trashedAt (js_get (lb_materials s) ''a'') = Some (Some 5)"
  by code_simp

end
