(* ===== verification/Spec2Isabelle.thy ===== *)
theory Spec2Isabelle
  imports Layout_Correct Paired_Listing Event_Publish Hub_Gapless Fanout_Codec Redis_Correct Curve_Monotone Explorer_Tree Conversion_Worker Group_Feed_Correct
  Session_Command_Correct Playback_Agreement Material_Correct
begin

text \<open>
  Verification of the core of Headquarters.

  Headquarters is a control plane (\<open>apps/control-plane\<close>), a desktop client (\<open>apps/hq\<close>) and the packages they
  share. The control plane pairs devices into groups and authenticates them, keeps one ordered log of
  events a group and fans it out to the sockets of every process, and knows who is present. The shared
  packages hold the arithmetic both sides must agree on: the layout of a grid of tiles, the curves that
  drive a simulation, virtual paths and the explorer tree. This development models those parts, one
  theory or a pair of theories each, and proves what makes them correct.

  \<^bold>\<open>Prelude.\<close> \<open>HQ_Prelude\<close> holds what the components share: strings, the JavaScript \<open>Map\<close> as an association
  list in insertion order, \<open>Array.prototype.sort\<close>, a state-and-exception monad in which a computation
  that throws keeps the writes made before it, its weakest preconditions, and a locale of transition
  systems with an invariant.

  \<^bold>\<open>Layout\<close> (\<open>packages/layout-engine/src/index.ts\<close>). \<open>Layout_Engine\<close>: validation, placement, compaction,
  stretching and gap closing; each \<open>while\<close> loop is a function whose termination is proved by a measure on
  the slack of the tiles. \<open>Layout_Correct\<close>: the resolved grid has no overlap and stays in bounds, every
  tile is placed or reported, growth respects maxima and stops only when nothing can grow; a pinwheel
  shows a gap the comment rules out.

  \<^bold>\<open>Pairing\<close> (\<open>sync/receipts.ts\<close>, \<open>sync/paging.ts\<close>, \<open>sync/runtime.ts\<close>). \<open>Receipts\<close>: the hashed encodings are
  unambiguous. \<open>Paired_Runtime\<close>: every method of \<open>PairedDeviceRuntime\<close> over one state record; sessions are
  a heap of records, because the program shares session objects between two maps and mutates them.
  \<open>Paired_Invariant\<close>: a well-formedness invariant and its preservation by every method.
  \<open>Paired_Evolution\<close>: a relation between any two states of one run (nothing revoked comes back, nothing
  spent is spent again). \<open>Paired_Refresh\<close>: a rotated refresh token stays known in every history.
  \<open>Paired_Correct\<close>, \<open>Paired_Lifecycle\<close>, \<open>Paired_Listing\<close>: revocation locks a device
  out for good, a pairing code admits once, a reused refresh token ends the session, a retried creation
  is answered from its receipt, a group keeps its leader, and paging visits every member once.
  Randomness, the clock, hashing and the codecs of \<open>Buffer\<close> are fields of an environment record.

  \<^bold>\<open>Event log\<close> (\<open>realtime/eventStore.ts\<close>, \<open>realtime/replayDecision.ts\<close>, \<open>sync/receipt-guard.ts\<close>). \<open>Event_Log\<close>:
  the in-memory store and the durable one, each SQL statement as the function of the tables it denotes,
  and publication with its receipt. \<open>Event_Store\<close>: the locale \<open>event_store\<close> states what the stores
  promise and both are interpretations, so a resumed client gets exactly what it missed and the two
  stores agree on what the foreign keys of the durable one let in. \<open>Event_Publish\<close>: publication needs an active
  editor, and a retry writes nothing in any later state of the log.

  \<^bold>\<open>Fan-out\<close> (\<open>realtime/hub.ts\<close>, \<open>realtime/fanout.ts\<close>). \<open>Realtime_Hub\<close>: listeners with their cursors, and each
  method cut where it awaits the store, so that a history is an interleaving of steps. \<open>Hub_Correct\<close>: over
  any store that is an \<open>event_store\<close>, a socket sees durable events in ascending order under every
  interleaving; one interleaving with a second process loses an event. \<open>Hub_Gapless\<close>: with one process
  a socket also sees every event, or is told to resynchronize. \<open>Fanout_Codec\<close>: the wire form of an
  announcement.

  \<^bold>\<open>Presence\<close> (\<open>sync/presence-store.ts\<close>, \<open>sync/coordinated-presence-store.ts\<close>, \<open>redis/coordination.ts\<close>,
  readers of \<open>sync/rows.ts\<close>). \<open>Presence_Store\<close>: the two stores. \<open>Presence_Correct\<close>: the locale
  \<open>presence_store\<close>, its two interpretations and their agreement over any history. \<open>Redis_Coordination\<close>:
  leases on a Redis client whose commands are an argument, and the store composed of both.
  \<open>Redis_Correct\<close>: keys never collide, the composed store reports liveness, and a leader lease is
  exclusive; the documented behaviour of the server is the hypothesis \<open>redis_ok\<close>.

  \<^bold>\<open>Conversion\<close> (\<open>conversion/ladder.ts\<close>, \<open>renderer.ts\<close>, \<open>store.ts\<close>, \<open>worker.ts\<close>, the producers of
  \<open>material/service.ts\<close>). \<open>Rendition_Ladder\<close>: the quality ladder and the renderer around its external
  processes. \<open>Conversion_Queue\<close>: the tables, the store's statements, the worker's pass and its drain, with
  what other processes do during a pass as an argument. \<open>Conversion_Invariant\<close>: statements of any number of
  processes as a step relation, and the invariant of its reachable tables. \<open>Conversion_Correct\<close>: the locale
  \<open>row_law\<close> carries a fact about one job through every history; its interpretations give the fencing of
  stale workers, the exclusiveness of a live lease, the finality of a completion, and the one job that is
  never settled. \<open>Conversion_Worker\<close>: queueing is idempotent, and an undisturbed drain reaches an idle queue.

  \<^bold>\<open>The material library\<close> (\<open>material/store.ts\<close>, the tables of \<open>db/migrations.ts\<close>). \<open>Upload_Plan\<close>: how an upload is cut
  into parts, the checks on its arguments and the JSON the statements carry. \<open>Material_Library\<close>: objects, materials,
  versions, upload sessions, parts and tags as tables, and the store's methods, each SQL statement the function of
  the tables it denotes, with the receipt and the replay of each. \<open>Material_Steps\<close>: calls as data, and what any call
  may do to the tables as a relation; only an active editor does more than claim a receipt.
  \<open>Material_Invariant\<close>: the well-formedness of the tables in every history, the writes of other services to the
  shared tables included. \<open>Material_References\<close>: the reference counts of the stored objects are enough for the
  versions that name them, in histories that begin no new version while a first upload is open; those histories are
  a second step relation. \<open>Material_Retry\<close>: in every later state of the library a retried upload changes nothing, and while its rows are
  unchanged it is answered with what the first call answered. \<open>Material_Correct\<close>: the properties over reachable libraries, and runs in which the code departs from
  its comments. Identifiers the server draws, clock readings and the parser of UUIDs are arguments. The loop that
  plans the parts need not end for an arbitrary chunk, so \<open>planFrom\<close> is a \<open>partial_function\<close>, and planning is proved
  to return for every chunk the service computes.

  \<^bold>\<open>The polled feed\<close> (of \<open>apps/hq\<close>: \<open>application/sync/groupEventFeed.ts\<close>, \<open>infrastructure/controlPlane/GroupEventPoller.ts\<close>,
  \<open>ControlPlaneGroupChannel.ts\<close>; of the control plane: \<open>readGroupEvents\<close> of \<open>sync/service.ts\<close>). \<open>Group_Feed\<close>:
  cadence, channel and handler as functions, the poller as steps cut at its awaits. \<open>Group_Feed_Correct\<close>: a running
  feed is never deaf and a stopped one silent, merged feeds hand out the log once and in order, and over the
  in-memory log of \<open>Event_Log\<close> a feed inside the retained window catches up, while one led below the window by
  an old snapshot asks for ever.

  \<^bold>\<open>Playback\<close> (of \<open>apps/hq\<close>: \<open>infrastructure/media/PlaybackSyncCoordinator.ts\<close>, \<open>infrastructure/controlPlane/\<close>
  \<open>GroupPlaybackSyncTransport.ts\<close>, \<open>groupEventCodec.ts\<close>, \<open>ControlPlaneClient.ts\<close>; of the control plane:
  \<open>publishSessionCommand\<close> of \<open>sync/service.ts\<close>). \<open>Session_Command\<close>: targets, commands, their validation, the wire and
  the handler. \<open>Session_Command_Correct\<close>: a target survives the wire where its camera holds no separator, keys are
  unambiguous, instants cross the wire to the millisecond, and a command that is appended carries the sequence zero,
  so that no receiver takes it. \<open>Playback_Sync\<close>: the coordinator, with objects and timers by identity.
  \<open>Playback_Sync_Correct\<close>: its invariant, that the timers follow the latest command of each target, and the two ways
  in which adopting the numbers of the server goes wrong. \<open>Playback_Agreement\<close>: screens that hear the same commands
  agree, for a collation of device identifiers that is a total preorder.

  \<^bold>\<open>Simulation curves\<close> (\<open>packages/domain/src/simulationCurve.ts\<close>). \<open>Simulation_Curve\<close>: the evaluator over real
  numbers and the noise generator on 32-bit words. \<open>Curve_Correct\<close>: a curve passes through its points, a
  looping one repeats, the two cubic forms agree, noise does not repeat within a series, readings stay
  in range. \<open>Curve_Monotone\<close>: monotone tangents never overshoot.

  \<^bold>\<open>Paths and the explorer\<close> (\<open>packages/domain/src/virtualPath.ts\<close>, \<open>explorer.ts\<close>, \<open>explorerTree.ts\<close>).
  \<open>Virtual_Path\<close>: paths are in normal form, joining and climbing are inverse on plain text, and decoding
  twice breaks both on other text. \<open>Explorer_Tree\<close>: merging shows one node a path, and the index files
  each node under its parent.

  \<^bold>\<open>Bounds and fuel.\<close> No function takes fuel: every loop of the modelled code but one, the planning of an upload's
  parts, is a total function. Widths are kept where the code depends on them (32-bit words in the noise generator, bytes
  of payloads, the doubles a clock offset passes through); sequences are unbounded as \<open>bigint\<close> is.
  Doubles of the curves are real numbers without rounding.

  \<^bold>\<open>Not modelled.\<close> The SQL twin of the pairing runtime (\<open>sync/durable-runtime.ts\<close>) but for the end of a
  membership; the RPC layer, which adapts generated message types; of the material library the listings,
  whose cursors are JSON in base64 with ISO dates, and the readers of category, state and date columns, which
  the schema constrains; object storage and the settings service, which are calls of an object store and of a
  third-party schema library; the
  rate limiter, a third-party package; the connection and the error report of the fan-out carrier; the
  file bridge and the client's screens, which are I/O and React components, but for the polled feed and
  the playback coordinator; the transport between windows of one browser, which is I/O; the generated protocol
  bindings. Concurrency inside one SQL statement is the database's, and a statement is one step.
\<close>

end
